(* ===== verification/Prelude.thy ===== *)
theory Prelude
  imports
    Complex_Main
    "HOL-Library.List_Lexorder"
    "HOL-Library.Product_Lexorder"
    "HOL-Library.Char_ord"
begin

text \<open>
  Shared vocabulary of the development: Python truthiness, JSON values, the fragment of
  SQL the stores use (tables as lists of rows in insertion order), the regular expressions
  for Git object ids, and the generic lemmas on keyed tables.  It also holds the interfaces
  (locales) that several stores implement.
\<close>

named_theorems table_simps \<open>rewriting of select, update, insert and row counts on tables\<close>
named_theorems op_defs \<open>definitions of the store operations\<close>

type_synonym time = real

section \<open>Python values\<close>

text \<open>
  Text is a string of Latin-1 code points; \<open>str.strip\<close> removes the white space among them, and
  \<open>text_bytes\<close> is the length of the UTF-8 encoding.
\<close>

definition py_space :: "char \<Rightarrow> bool" where
  "py_space c \<longleftrightarrow> (let n = (of_char c :: nat) in
     9 \<le> n \<and> n \<le> 13 \<or> 28 \<le> n \<and> n \<le> 32 \<or> n = 133 \<or> n = 160)"

definition py_strip :: "string \<Rightarrow> string" where
  "py_strip s = rev (dropWhile py_space (rev (dropWhile py_space s)))"

definition text_bytes :: "string \<Rightarrow> nat" where
  "text_bytes s = sum_list (map (\<lambda>c. if (of_char c :: nat) < 128 then 1 else 2) s)"

text \<open>A string attribute that may be \<open>None\<close> is falsy when it is \<open>None\<close> or empty.\<close>

definition truthy :: "string option \<Rightarrow> bool" where
  "truthy s = (case s of None \<Rightarrow> False | Some t \<Rightarrow> t \<noteq> [])"

definition py_or :: "string option \<Rightarrow> string option \<Rightarrow> string option" where
  "py_or a b = (if truthy a then a else b)"

lemma truthy_simps [simp]:
  "\<not> truthy None" "truthy (Some t) \<longleftrightarrow> t \<noteq> []"
  by (simp_all add: truthy_def)

lemma truthyE: "truthy s \<Longrightarrow> (\<And>t. s = Some t \<Longrightarrow> t \<noteq> [] \<Longrightarrow> P) \<Longrightarrow> P"
  by (auto simp: truthy_def split: option.splits)

lemma py_or_simps [simp]:
  "py_or None b = b" "t \<noteq> [] \<Longrightarrow> py_or (Some t) b = Some t" "py_or (Some []) b = b"
  by (simp_all add: py_or_def)

datatype json =
    JNull
  | JBool bool
  | JInt int
  | JReal real
  | JStr string
  | JList "json list"
  | JObj "(string \<times> json) list"

fun json_truthy :: "json \<Rightarrow> bool" where
  "json_truthy JNull = False"
| "json_truthy (JBool b) = b"
| "json_truthy (JInt i) = (i \<noteq> 0)"
| "json_truthy (JReal r) = (r \<noteq> 0)"
| "json_truthy (JStr s) = (s \<noteq> [])"
| "json_truthy (JList xs) = (xs \<noteq> [])"
| "json_truthy (JObj kvs) = (kvs \<noteq> [])"

text \<open>\<open>d.get(k)\<close> on a JSON object; every other value has no such field.\<close>

fun json_get :: "string \<Rightarrow> json \<Rightarrow> json option" where
  "json_get k (JObj kvs) = map_of kvs k"
| "json_get k _ = None"

definition json_opt :: "string option \<Rightarrow> json" where
  "json_opt s = (case s of None \<Rightarrow> JNull | Some t \<Rightarrow> JStr t)"

section \<open>Git object ids and digests\<close>

definition hex_digits :: string where
  "hex_digits = ''0123456789abcdef''"

definition is_sha :: "string \<Rightarrow> bool" where
  "is_sha s \<longleftrightarrow> length s = 40 \<and> list_all (\<lambda>c. c \<in> set hex_digits) s"

definition is_sha256 :: "string \<Rightarrow> bool" where
  "is_sha256 s \<longleftrightarrow> length s = 64 \<and> list_all (\<lambda>c. c \<in> set hex_digits) s"

definition is_sha_opt :: "string option \<Rightarrow> bool" where
  "is_sha_opt s = (case s of None \<Rightarrow> False | Some t \<Rightarrow> is_sha t)"

lemma is_sha_nonempty: "is_sha s \<Longrightarrow> s \<noteq> []"
  by (auto simp: is_sha_def)

lemma is_sha_opt_simps [simp]: "\<not> is_sha_opt None" "is_sha_opt (Some t) \<longleftrightarrow> is_sha t"
  by (simp_all add: is_sha_opt_def)

section \<open>Tables\<close>

text \<open>
  A table is the list of its rows in insertion order.  \<open>UPDATE .. SET f WHERE P\<close> maps
  \<open>f\<close> over the rows that satisfy \<open>P\<close>; its \<open>rowcount\<close> is the number of those rows.
  Comparisons with a \<open>NULL\<close> column are not true, hence \<open>sql_gt\<close> and \<open>sql_lt\<close>.
\<close>

definition update_where :: "('r \<Rightarrow> bool) \<Rightarrow> ('r \<Rightarrow> 'r) \<Rightarrow> 'r list \<Rightarrow> 'r list" where
  "update_where P f t = map (\<lambda>r. if P r then f r else r) t"

definition row_count :: "('r \<Rightarrow> bool) \<Rightarrow> 'r list \<Rightarrow> nat" where
  "row_count P t = length (filter P t)"

definition sql_gt :: "time option \<Rightarrow> time \<Rightarrow> bool" where
  "sql_gt a b = (case a of None \<Rightarrow> False | Some x \<Rightarrow> x > b)"

definition sql_lt :: "time option \<Rightarrow> time \<Rightarrow> bool" where
  "sql_lt a b = (case a of None \<Rightarrow> False | Some x \<Rightarrow> x < b)"

definition coalesce :: "'a option \<Rightarrow> 'a option \<Rightarrow> 'a option" where
  "coalesce a b = (case a of None \<Rightarrow> b | Some _ \<Rightarrow> a)"

lemma sql_cmp_simps [simp]:
  "\<not> sql_gt None b" "sql_gt (Some x) b \<longleftrightarrow> x > b"
  "\<not> sql_lt None b" "sql_lt (Some x) b \<longleftrightarrow> x < b"
  by (simp_all add: sql_gt_def sql_lt_def)

lemma coalesce_simps [simp]: "coalesce None b = b" "coalesce (Some x) b = Some x"
  by (simp_all add: coalesce_def)

lemma update_where_simps [simp]:
  "update_where P f [] = []"
  "update_where P f (r # t) = (if P r then f r else r) # update_where P f t"
  by (simp_all add: update_where_def)

lemma update_where_append [table_simps]:
  "update_where P f (xs @ ys) = update_where P f xs @ update_where P f ys"
  by (simp add: update_where_def)

lemma length_update_where [simp]: "length (update_where P f t) = length t"
  by (simp add: update_where_def)

lemma set_update_where: "set (update_where P f t) = (\<lambda>r. if P r then f r else r) ` set t"
  by (simp add: update_where_def)

lemma row_count_simps [simp]:
  "row_count P [] = 0"
  "row_count P (r # t) = (if P r then Suc (row_count P t) else row_count P t)"
  by (simp_all add: row_count_def)

lemma row_count_append [table_simps]:
  "row_count P (xs @ ys) = row_count P xs + row_count P ys"
  by (simp add: row_count_def)

lemma row_count_0_iff: "row_count P t = 0 \<longleftrightarrow> (\<forall>r \<in> set t. \<not> P r)"
  by (simp add: row_count_def filter_empty_conv)

lemma row_count_cong: "(\<And>r. r \<in> set t \<Longrightarrow> P r = Q r) \<Longrightarrow> row_count P t = row_count Q t"
  by (simp add: row_count_def cong: filter_cong)

lemma row_count_filter:
  "(\<And>x. x \<in> set t \<Longrightarrow> P x \<Longrightarrow> Q x) \<Longrightarrow> row_count P (filter Q t) = row_count P t"
  by (induction t) auto

lemma map_update_where:
  "(\<And>r. P r \<Longrightarrow> g (f r) = g r) \<Longrightarrow> map g (update_where P f t) = map g t"
  by (simp add: update_where_def)

lemma image_update_where:
  "(\<And>r. P r \<Longrightarrow> g (f r) = g r) \<Longrightarrow> g ` set (update_where P f t) = g ` set t"
  by (induction t) auto

section \<open>Keyed tables\<close>

text \<open>
  \<open>row_of key k t\<close> is the row a \<open>SELECT .. WHERE key = k\<close> fetches; a primary key is the
  fact \<open>distinct (map key t)\<close>.
\<close>

definition row_of :: "('r \<Rightarrow> 'k) \<Rightarrow> 'k \<Rightarrow> 'r list \<Rightarrow> 'r option" where
  "row_of key k t = List.find (\<lambda>r. key r = k) t"

lemma row_of_simps [simp]:
  "row_of key k [] = None"
  "row_of key k (r # t) = (if key r = k then Some r else row_of key k t)"
  by (simp_all add: row_of_def)

lemma row_of_SomeD: "row_of key k t = Some r \<Longrightarrow> r \<in> set t \<and> key r = k"
  by (induction t) (auto split: if_splits)

lemma row_of_key: "row_of key k t = Some r \<Longrightarrow> key r = k"
  by (auto dest: row_of_SomeD)

lemma row_of_None_iff: "row_of key k t = None \<longleftrightarrow> k \<notin> key ` set t"
  by (induction t) auto

lemma row_of_distinct:
  "distinct (map key t) \<Longrightarrow> r \<in> set t \<Longrightarrow> key r = k \<Longrightarrow> row_of key k t = Some r"
  by (induction t) force+

lemma row_of_append [table_simps]:
  "row_of key k (xs @ ys) = (case row_of key k xs of None \<Rightarrow> row_of key k ys | Some r \<Rightarrow> Some r)"
  by (induction xs) auto

lemma row_of_update_where:
  assumes "\<And>r. key (f r) = key r"
  shows "row_of key k (update_where P f t) =
    map_option (\<lambda>r. if P r then f r else r) (row_of key k t)"
  using assms by (induction t) auto

lemma distinct_update_where:
  "(\<And>r. key (f r) = key r) \<Longrightarrow> distinct (map key (update_where P f t)) = distinct (map key t)"
  by (simp add: map_update_where)

lemma distinct_insert_row:
  "distinct (map key t) \<Longrightarrow> row_of key (key r) t = None \<Longrightarrow> distinct (map key (t @ [r]))"
  by (simp add: row_of_None_iff)

lemma row_count_key:
  assumes "distinct (map key t)"
  shows "row_count (\<lambda>r. key r = k \<and> Q r) t =
    (case row_of key k t of None \<Rightarrow> 0 | Some r \<Rightarrow> if Q r then 1 else 0)"
  using assms
proof (induction t)
  case (Cons a t)
  show ?case
  proof (cases "key a = k")
    case True
    with Cons.prems have "\<forall>r \<in> set t. key r \<noteq> k" by (auto simp: image_iff)
    then have "row_count (\<lambda>r. key r = k \<and> Q r) t = 0" by (simp add: row_count_0_iff)
    with True show ?thesis by simp
  qed (use Cons in simp)
qed simp

lemma row_count_key_1:
  assumes "distinct (map key t)"
  shows "row_count (\<lambda>r. key r = k \<and> Q r) t = 1 \<longleftrightarrow>
    (\<exists>r. row_of key k t = Some r \<and> Q r)"
  by (simp add: row_count_key [OF assms] split: option.splits)

lemma row_count_key_pos:
  "row_count (\<lambda>r. key r = k \<and> Q r) t \<noteq> 0 \<Longrightarrow> \<exists>r. row_of key k t = Some r"
  by (cases "row_of key k t") (auto simp: row_count_0_iff row_of_None_iff)

text \<open>How a count over a table changes when one keyed row is updated.\<close>

lemma row_count_update_key:
  assumes "distinct (map key t)" and "row_of key k t = Some r"
  shows "int (row_count C (update_where (\<lambda>x. key x = k) f t)) =
    int (row_count C t) - of_bool (C r) + of_bool (C (f r))"
  using assms
proof (induction t)
  case (Cons a t)
  show ?case
  proof (cases "key a = k")
    case True
    with Cons.prems have "\<forall>x \<in> set t. key x \<noteq> k" by (auto simp: image_iff)
    then have "update_where (\<lambda>x. key x = k) f t = t"
      by (induction t) auto
    with True Cons.prems show ?thesis by simp
  qed (use Cons in auto)
qed simp

lemma update_where_conj_key:
  assumes "distinct (map key t)" and "row_of key k t = Some r" and "Q r"
  shows "update_where (\<lambda>x. key x = k \<and> Q x) f t = update_where (\<lambda>x. key x = k) f t"
  unfolding update_where_def
proof (rule map_cong [OF refl])
  fix x assume "x \<in> set t"
  show "(if key x = k \<and> Q x then f x else x) = (if key x = k then f x else x)"
  proof (cases "key x = k")
    case True
    with assms(1) \<open>x \<in> set t\<close> have "row_of key k t = Some x" by (intro row_of_distinct)
    with assms(2,3) show ?thesis by simp
  qed simp
qed

text \<open>Replacing the row of a key.\<close>

lemma update_where_replace:
  assumes "distinct (map key t)" and "row_of key k t = Some r" and "Q r"
  shows "update_where (\<lambda>x. key x = k \<and> Q x) f t = update_where (\<lambda>x. key x = k) (\<lambda>_. f r) t"
  unfolding update_where_def
proof (rule map_cong [OF refl])
  fix x assume "x \<in> set t"
  show "(if key x = k \<and> Q x then f x else x) = (if key x = k then f r else x)"
  proof (cases "key x = k")
    case True
    with assms(1) \<open>x \<in> set t\<close> have "row_of key k t = Some x" by (intro row_of_distinct)
    with assms(2,3) show ?thesis by simp
  qed simp
qed

lemma row_of_replace:
  "key r' = k \<Longrightarrow> row_of key k' (update_where (\<lambda>x. key x = k) (\<lambda>_. r') t) =
    (if k' = k then map_option (\<lambda>_. r') (row_of key k t) else row_of key k' t)"
  by (induction t) auto

lemma set_replace:
  "x \<in> set (update_where (\<lambda>x. key x = k) (\<lambda>_. r') t) \<Longrightarrow> x = r' \<or> x \<in> set t \<and> key x \<noteq> k"
  by (induction t) (auto split: if_splits)

lemma distinct_replace:
  assumes "key r' = k"
  shows "map key (update_where (\<lambda>x. key x = k) (\<lambda>_. r') t) = map key t"
  using assms by (auto simp: update_where_def)

lemma update_where_none:
  "(\<And>r. r \<in> set t \<Longrightarrow> \<not> P r) \<Longrightarrow> update_where P f t = t"
  by (induction t) auto

lemma update_where_fresh:
  "row_of key k t = None \<Longrightarrow> update_where (\<lambda>r. key r = k \<and> Q r) f t = t"
  by (induction t) (auto split: if_splits)

lemma row_of_update_other:
  assumes "\<And>r. key (f r) = key r" and "k \<noteq> k'"
  shows "row_of key k' (update_where (\<lambda>r. key r = k \<and> Q r) f t) = row_of key k' t"
  using assms by (auto simp: row_of_update_where map_option_case split: option.splits dest: row_of_key)

lemma row_of_update_key_other:
  assumes "\<And>r. key (f r) = key r" and "k \<noteq> k'"
  shows "row_of key k' (update_where (\<lambda>r. key r = k) f t) = row_of key k' t"
  using row_of_update_other [of key f k k' "\<lambda>_. True" t] assms by simp

lemma set_update_where_iff:
  "r' \<in> set (update_where P f t) \<longleftrightarrow>
    (\<exists>r \<in> set t. r' = (if P r then f r else r))"
  by (auto simp: set_update_where)

text \<open>The first and the last row of an \<open>ORDER BY\<close>.\<close>

lemma sort_key_Nil: "sort_key f xs = [] \<longleftrightarrow> xs = []"
  by (simp only: length_0_conv [symmetric] length_sort)

lemma first_of_sort:
  assumes "sort_key f xs = y # ys"
  shows "y \<in> set xs" and "x \<in> set xs \<Longrightarrow> f y \<le> f x"
proof -
  have s: "set (sort_key f xs) = set xs" by simp
  then show "y \<in> set xs" unfolding assms by auto
  have "sorted (map f (y # ys))" using assms by (metis sorted_sort_key)
  moreover assume "x \<in> set xs"
  with s have "x \<in> set (y # ys)" unfolding assms by simp
  ultimately show "f y \<le> f x" by auto
qed

lemma sorted_le_last: "sorted (map f xs) \<Longrightarrow> x \<in> set xs \<Longrightarrow> f x \<le> f (last xs)"
proof (induction xs)
  case (Cons a xs)
  then show ?case using last_in_set [of xs] by (cases "xs = []") auto
qed simp

lemma last_of_sort:
  assumes "sort_key f xs = y # ys"
  shows "last (y # ys) \<in> set xs" and "x \<in> set xs \<Longrightarrow> f x \<le> f (last (y # ys))"
proof -
  have s: "set (sort_key f xs) = set xs" by simp
  then show "last (y # ys) \<in> set xs" unfolding assms using last_in_set [of "y # ys"] by blast
  have "sorted (map f (y # ys))" using assms by (metis sorted_sort_key)
  moreover assume "x \<in> set xs"
  with s have "x \<in> set (y # ys)" unfolding assms by simp
  ultimately show "f x \<le> f (last (y # ys))" by (rule sorted_le_last)
qed

section \<open>Results\<close>

text \<open>A result whose value is rewritten is a success exactly when it was one before.\<close>

lemma map_sum_Inr: "map_sum id f x = Inr e \<longleftrightarrow> (\<exists>v. x = Inr v \<and> e = f v)"
  by (cases x) auto

end
