(* ===== verification/Interfaces.thy ===== *)
theory Interfaces
  imports Prelude
begin

text \<open>
  The contracts several stores share, each a locale with the lemmas a client gets from it.
  A store operation is a value of type \<open>'s \<Rightarrow> 'e + ('a \<times> 's)\<close>: \<open>Inl\<close> is a raised error after
  a rollback, so the old state stays; \<open>Inr\<close> carries the result and the committed state.
\<close>

text \<open>Running a sequence of operations, each committing or rolling back on its own.\<close>

definition committed :: "('e + ('a \<times> 's)) \<Rightarrow> bool" where
  "committed r = (case r of Inl _ \<Rightarrow> False | Inr _ \<Rightarrow> True)"

definition state_after :: "('e + ('a \<times> 's)) \<Rightarrow> 's \<Rightarrow> 's" where
  "state_after r s = (case r of Inl _ \<Rightarrow> s | Inr (_, s') \<Rightarrow> s')"

fun run_ops :: "('op \<Rightarrow> 's \<Rightarrow> 'e + ('a \<times> 's)) \<Rightarrow> 'op list \<Rightarrow> 's \<Rightarrow> 's" where
  "run_ops exec [] s = s"
| "run_ops exec (x # xs) s = run_ops exec xs (state_after (exec x s) s)"

lemma state_after_simps [simp]:
  "state_after (Inl e) s = s" "state_after (Inr (a, s')) s = s'"
  by (simp_all add: state_after_def)

lemma committed_simps [simp]: "\<not> committed (Inl e)" "committed (Inr p)"
  by (simp_all add: committed_def)

lemma committedE:
  assumes "committed r" obtains a s' where "r = Inr (a, s')"
  using assms by (auto simp: committed_def split: sum.splits)

section \<open>Revision compare-and-swap\<close>

text \<open>
  Rows carry a revision; a writer names the revision it read.  A commit that changed the row
  needs that revision to be current and moves it on by one; a commit may also find nothing to
  do (\<open>changed\<close> is false) and then leaves the store as it is.
\<close>

locale revision_cas =
  fixes rev :: "'s \<Rightarrow> 'id \<Rightarrow> nat option"
    and exec :: "'op \<Rightarrow> 's \<Rightarrow> 'e + ('a \<times> 's)"
    and target :: "'op \<Rightarrow> 'id"
    and expected :: "'op \<Rightarrow> int"
    and inv :: "'s \<Rightarrow> bool"
  assumes commit_needs_revision:
    "inv s \<Longrightarrow> exec x s = Inr (a, s') \<Longrightarrow> s' \<noteq> s \<Longrightarrow>
      \<exists>n. rev s (target x) = Some n \<and> int n = expected x \<and> rev s' (target x) = Some (Suc n)"
    and commit_frame:
    "inv s \<Longrightarrow> exec x s = Inr (a, s') \<Longrightarrow> i \<noteq> target x \<Longrightarrow> rev s' i = rev s i"
    and commit_inv: "inv s \<Longrightarrow> exec x s = Inr (a, s') \<Longrightarrow> inv s'"
begin

lemma state_after_inv: "inv s \<Longrightarrow> inv (state_after (exec x s) s)"
  by (cases "exec x s") (auto dest: commit_inv)

lemma run_inv: "inv s \<Longrightarrow> inv (run_ops exec xs s)"
  by (induction xs arbitrary: s) (auto dest: state_after_inv)

lemma rev_step:
  assumes "inv s" and "rev s i = Some n"
  shows "\<exists>m \<ge> n. rev (state_after (exec x s) s) i = Some m"
proof (cases "exec x s")
  case (Inr p)
  obtain a s' where p: "p = (a, s')" by (cases p)
  show ?thesis
  proof (cases "s' = s \<or> i \<noteq> target x")
    case True
    with assms Inr p commit_frame [of s x a s' i] show ?thesis by auto
  next
    case False
    with commit_needs_revision [of s x a s'] assms Inr p show ?thesis by auto
  qed
qed (use assms in simp)

lemma rev_run:
  "inv s \<Longrightarrow> rev s i = Some n \<Longrightarrow> \<exists>m \<ge> n. rev (run_ops exec xs s) i = Some m"
proof (induction xs arbitrary: s n)
  case (Cons x xs)
  from rev_step [OF Cons.prems, of x] obtain m where
    m: "m \<ge> n" "rev (state_after (exec x s) s) i = Some m" by blast
  from Cons.IH [OF state_after_inv [OF Cons.prems(1)] m(2)] m(1) show ?case
    by (auto intro: order_trans)
qed auto

text \<open>A second writer that read the same revision never changes the row after the first.\<close>

lemma second_writer_loses:
  assumes "inv s" and first: "exec x s = Inr (a, s1)" "s1 \<noteq> s"
    and same: "target y = target x" "expected y = expected x"
    and later: "s2 = run_ops exec xs s1"
    and second: "exec y s2 = Inr (b, s3)"
  shows "s3 = s2"
proof (rule ccontr)
  assume changed: "s3 \<noteq> s2"
  from commit_needs_revision [OF assms(1) first] obtain n where
    n: "int n = expected x" "rev s1 (target x) = Some (Suc n)" by blast
  from first assms(1) have i1: "inv s1" by (blast intro: commit_inv)
  then have i2: "inv s2" by (simp add: later run_inv)
  from rev_run [OF i1 n(2), of xs] obtain m where
    m: "m \<ge> Suc n" "rev s2 (target x) = Some m" by (auto simp: later)
  from commit_needs_revision [OF i2 second changed] m same n(1) show False by auto
qed

end

section \<open>Idempotency keys\<close>

text \<open>
  \<open>create\<close> registers a request under a key.  \<open>bound s k\<close> is what the key stands for: the
  fingerprint of the request that created it and the identity it was given; \<open>'new\<close> is what
  the operation draws afresh (an id, a clock reading).
\<close>

locale key_registry =
  fixes create :: "'k \<Rightarrow> 'req \<Rightarrow> 'new \<Rightarrow> 's \<Rightarrow> 'e + ('id \<times> 's)"
    and bound :: "'s \<Rightarrow> 'k \<Rightarrow> ('h \<times> 'id) option"
    and fp :: "'req \<Rightarrow> 'h"
    and usable :: "'k \<Rightarrow> bool"
  assumes create_replay:
    "usable k \<Longrightarrow> bound s k = Some (fp r, i) \<Longrightarrow> create k r new s = Inr (j, s') \<Longrightarrow> j = i \<and> s' = s"
    and create_conflict:
    "usable k \<Longrightarrow> bound s k = Some (h, i) \<Longrightarrow> h \<noteq> fp r \<Longrightarrow> \<exists>e. create k r new s = Inl e"
    and create_keeps:
    "usable k \<Longrightarrow> usable k' \<Longrightarrow> bound s k' = Some b \<Longrightarrow> create k r new s = Inr (i, s') \<Longrightarrow>
      bound s' k' = Some b"
begin

text \<open>A whole batch of creates keeps every binding that was there before it.\<close>

lemma run_keeps:
  "\<forall>x \<in> set xs. usable (fst x) \<Longrightarrow> usable k \<Longrightarrow> bound s k = Some b \<Longrightarrow>
    bound (run_ops (\<lambda>(k, r, new). create k r new) xs s) k = Some b"
proof (induction xs arbitrary: s)
  case (Cons x xs)
  obtain kx r new where x: "x = (kx, r, new)" by (cases x)
  have "bound (state_after (create kx r new s) s) k = Some b"
    using Cons.prems by (cases "create kx r new s") (auto simp: x dest: create_keeps)
  with Cons show ?case by (auto simp: x)
qed simp

lemma bound_replays:
  assumes "usable k" and "\<forall>x \<in> set xs. usable (fst x)" and "bound s k = Some (fp r, i)"
    and "create k r new (run_ops (\<lambda>(k, r, new). create k r new) xs s) = Inr (j, s2)"
  shows "j = i \<and> s2 = run_ops (\<lambda>(k, r, new). create k r new) xs s"
  using create_replay [OF assms(1) run_keeps [OF assms(2,1,3)] assms(4)] .

lemma bound_conflicts:
  assumes "usable k" and "\<forall>x \<in> set xs. usable (fst x)" and "bound s k = Some (h, i)" and "h \<noteq> fp r"
  shows "\<exists>e. create k r new (run_ops (\<lambda>(k, r, new). create k r new) xs s) = Inl e"
  using create_conflict [OF assms(1) run_keeps [OF assms(2,1,3)] assms(4)] .

end

text \<open>In some stores every successful create also binds its key.\<close>

locale idempotent_store = key_registry +
  assumes create_binds:
    "usable k \<Longrightarrow> create k r new s = Inr (i, s') \<Longrightarrow> bound s' k = Some (fp r, i)"
begin

lemma replay_after:
  assumes "usable k" and "\<forall>x \<in> set xs. usable (fst x)"
    and "create k r new s = Inr (i, s1)"
    and "create k r new' (run_ops (\<lambda>(k, r, new). create k r new) xs s1) = Inr (j, s2)"
  shows "j = i \<and> s2 = run_ops (\<lambda>(k, r, new). create k r new) xs s1"
  using bound_replays [OF assms(1,2) create_binds [OF assms(1,3)] assms(4)] .

lemma conflict_after:
  assumes "usable k" and "\<forall>x \<in> set xs. usable (fst x)"
    and "create k r new s = Inr (i, s1)" and "fp r' \<noteq> fp r"
  shows "\<exists>e. create k r' new' (run_ops (\<lambda>(k, r, new). create k r new) xs s1) = Inl e"
  using bound_conflicts [OF assms(1,2) create_binds [OF assms(1,3)]] assms(4) by metis

end

section \<open>Invariants of a step relation\<close>

locale step_invariant =
  fixes step :: "'s \<Rightarrow> 's \<Rightarrow> bool"
    and inv :: "'s \<Rightarrow> bool"
  assumes step_inv: "step s t \<Longrightarrow> inv s \<Longrightarrow> inv t"
begin

lemma steps_inv: "step\<^sup>*\<^sup>* s t \<Longrightarrow> inv s \<Longrightarrow> inv t"
  by (induction rule: rtranclp_induct) (auto intro: step_inv)

end

section \<open>Fenced writes\<close>

text \<open>
  \<open>owns s c\<close>: the credential \<open>c\<close> is the current holder.  A fenced operation is refused for
  every other credential.
\<close>

locale fenced_write =
  fixes owns :: "'s \<Rightarrow> 'c \<Rightarrow> bool"
    and exec :: "'c \<Rightarrow> 'x \<Rightarrow> 's \<Rightarrow> 'e + ('a \<times> 's)"
  assumes fenced: "\<not> owns s c \<Longrightarrow> \<exists>e. exec c x s = Inl e"
begin

lemma commit_owns: "exec c x s = Inr p \<Longrightarrow> owns s c"
  by (rule ccontr) (use fenced [of s c x] in auto)

lemma stale_keeps_state: "\<not> owns s c \<Longrightarrow> state_after (exec c x s) s = s"
  using fenced [of s c x] by auto

lemma stale_run:
  "\<forall>x \<in> set xs. \<not> owns s (fst x) \<Longrightarrow> run_ops (\<lambda>(c, x). exec c x) xs s = s"
  by (induction xs) (auto simp: stale_keeps_state)

end

end
