(* ===== verification/CI_Schema.thy ===== *)
theory CI_Schema
  imports Interfaces
begin

text \<open>
  The data model of the private CI controller: the enums of \<open>app/ci_models.py\<close> and the rows of
  the SQLite tables that \<open>init_db\<close> of \<open>app/ci_database.py\<close> and \<open>init_ci_request_schema\<close> of
  \<open>app/ci_request_store.py\<close> create.  A \<open>TEXT\<close> column that holds JSON is the JSON value; the
  \<open>created_at\<close> columns of the event, step-log and batch tables, which no operation reads, are
  left out.  Times are readings of \<open>time.time()\<close>.
\<close>

section \<open>Enums\<close>

text \<open>
  The status column of a job is free text: \<open>OtherStatus\<close> is any text outside \<open>CIJobStatus\<close>.
\<close>

datatype job_status =
    JobQueued | JobLeased | JobDownloading | JobPreparing | JobRunning
  | JobPassed | JobFailed | JobTimedOut | JobCancelRequested | JobCancelled
  | JobWorkerLost | JobInternalError | JobSuperseded
  | OtherStatus string

fun job_status_text :: "job_status \<Rightarrow> string" where
  "job_status_text JobQueued = ''queued''"
| "job_status_text JobLeased = ''leased''"
| "job_status_text JobDownloading = ''downloading''"
| "job_status_text JobPreparing = ''preparing''"
| "job_status_text JobRunning = ''running''"
| "job_status_text JobPassed = ''passed''"
| "job_status_text JobFailed = ''failed''"
| "job_status_text JobTimedOut = ''timed_out''"
| "job_status_text JobCancelRequested = ''cancel_requested''"
| "job_status_text JobCancelled = ''cancelled''"
| "job_status_text JobWorkerLost = ''worker_lost''"
| "job_status_text JobInternalError = ''internal_error''"
| "job_status_text JobSuperseded = ''superseded''"
| "job_status_text (OtherStatus s) = s"

definition all_job_statuses :: "job_status list" where
  "all_job_statuses = [JobQueued, JobLeased, JobDownloading, JobPreparing, JobRunning, JobPassed,
     JobFailed, JobTimedOut, JobCancelRequested, JobCancelled, JobWorkerLost, JobInternalError,
     JobSuperseded]"

definition job_status_of_text :: "string \<Rightarrow> job_status" where
  "job_status_of_text s =
     (case List.find (\<lambda>st. job_status_text st = s) all_job_statuses of
        None \<Rightarrow> OtherStatus s | Some st \<Rightarrow> st)"

lemma job_status_text_of_text: "job_status_text (job_status_of_text s) = s"
  by (auto simp: job_status_of_text_def find_Some_iff split: option.splits)

datatype request_phase = PhAccepted | PhPreparing | PhQueued | PhRunning | PhTerminal

datatype request_status =
    RqAccepted | RqPreparing | RqQueued | RqRunning | RqPassed | RqFailed | RqTimedOut
  | RqCancelled | RqSuperseded | RqWorkerLost | RqInternalError | RqPreflightFailed

definition effective_priority :: "string \<Rightarrow> string \<Rightarrow> int \<Rightarrow> int" where
  "effective_priority branch profile requested =
     (if profile = ''repo-fast-check'' then 150
      else if profile = ''repo-auto-check'' \<and> branch = ''main'' then 130
      else if profile = ''repo-auto-check'' then 100
      else requested)"

text \<open>\<open>H\<close> is the hexadecimal SHA-256 digest of the text.\<close>

definition make_idempotency_key ::
  "(string \<Rightarrow> string) \<Rightarrow> string \<Rightarrow> string \<Rightarrow> string \<Rightarrow> string" where
  "make_idempotency_key H repository commit_sha profile =
     H (repository @ ''|'' @ commit_sha @ ''|'' @ profile @ ''|v1'')"

section \<open>Rows\<close>

record worker =
  w_worker_id :: string
  w_token_hash :: string
  w_supported_profiles :: "string list"
  w_max_concurrent :: int
  w_status :: string
  w_current_job_id :: "string option"
  w_last_heartbeat :: time
  w_registered_at :: time

record job =
  j_job_id :: string
  j_idempotency_key :: string
  j_repository :: string
  j_branch :: string
  j_commit_sha :: string
  j_base_sha :: string
  j_changed_files :: "string list"
  j_changed_files_total :: int
  j_changed_files_truncated :: bool
  j_profile :: string
  j_priority :: int
  j_status :: job_status
  j_worker_id :: "string option"
  j_lease_token_hash :: "string option"
  j_lease_expires_at :: "time option"
  j_cancel_requested :: bool
  j_superseded_by_job_id :: "string option"
  j_attempts :: int
  j_max_attempts :: int
  j_exit_code :: "int option"
  j_summary :: "json option"
  j_source_sha256 :: "string option"
  j_source_size_bytes :: "int option"
  j_timeout_seconds :: int
  j_error_code :: "string option"
  j_error_message :: "string option"
  j_created_at :: time
  j_queued_at :: "time option"
  j_started_at :: "time option"
  j_finished_at :: "time option"
  j_duration_seconds :: "time option"
  j_log_total_bytes :: int
  j_log_truncated :: bool

text \<open>Log text is a list of Unicode code points: offsets count code points, budgets UTF-8 bytes.\<close>

type_synonym ustring = "nat list"

record job_step =
  s_id :: nat
  s_job_id :: string
  s_step_name :: string
  s_status :: string
  s_exit_code :: "int option"
  s_started_at :: "time option"
  s_finished_at :: "time option"
  s_duration_seconds :: "time option"
  s_log_start_offset :: int
  s_log_end_offset :: int

record log_chunk =
  c_job_id :: string
  c_chunk_index :: int
  c_offset_from :: int
  c_offset_to :: int
  c_content :: ustring

record queue_state =
  q_repository :: string
  q_last_dispatched_at :: time
  q_running_jobs :: int
  q_queued_jobs :: int

record job_event =
  e_id :: nat
  e_job_id :: string
  e_event_type :: string
  e_event_data :: json

record ci_request =
  r_request_id :: string
  r_repository :: string
  r_branch :: string
  r_commit_sha :: string
  r_tree_sha :: "string option"
  r_profile :: string
  r_effective_config_digest :: "string option"
  r_status :: request_status
  r_phase :: request_phase
  r_revision :: nat
  r_idempotency_key :: "string option"
  r_normalized_request_hash :: "string option"
  r_worker_job_id :: "string option"
  r_preflight_error_id :: "string option"
  r_preflight_error_code :: "string option"
  r_terminal_reason :: "string option"
  r_failure_pack_id :: "string option"
  r_attestation_id :: "string option"
  r_created_at :: time
  r_updated_at :: time
  r_last_event_id :: "nat option"

record request_event =
  v_event_id :: nat
  v_request_id :: string
  v_revision :: nat
  v_event_type :: string
  v_from :: "(request_phase \<times> request_status) option"
  v_to :: "request_phase \<times> request_status"
  v_event_data :: json

text \<open>The columns of \<open>ci_tree_attestations\<close> the request store reads.\<close>

record tree_attestation =
  a_attestation_id :: string
  a_private_ci_job_id :: string
  a_repository :: string
  a_tested_commit_sha :: string
  a_tested_tree_sha :: string
  a_profile :: string
  a_status :: string
  a_revoked_at :: "time option"
  a_expires_at :: time
  a_created_at :: time

section \<open>The database\<close>

text \<open>
  \<open>ci_tree_attestations\<close> is \<open>None\<close> while that table does not exist.  The \<open>next_\<close> fields are
  SQLite's \<open>AUTOINCREMENT\<close> sequences.
\<close>

record ci_db =
  ci_workers :: "worker list"
  ci_jobs :: "job list"
  ci_job_steps :: "job_step list"
  ci_job_log_chunks :: "log_chunk list"
  ci_job_log_batches :: "(string \<times> string) list"
  ci_repository_queue_state :: "queue_state list"
  ci_job_events :: "job_event list"
  ci_requests :: "ci_request list"
  ci_request_events :: "request_event list"
  ci_tree_attestations :: "tree_attestation list option"
  next_step_id :: nat
  next_event_id :: nat
  next_request_event_id :: nat

definition empty_ci_db :: ci_db where
  "empty_ci_db = \<lparr>ci_workers = [], ci_jobs = [], ci_job_steps = [], ci_job_log_chunks = [],
     ci_job_log_batches = [], ci_repository_queue_state = [], ci_job_events = [],
     ci_requests = [], ci_request_events = [], ci_tree_attestations = None,
     next_step_id = 1, next_event_id = 1, next_request_event_id = 1\<rparr>"

text \<open>Errors the stores raise; \<open>IntegrityError\<close> is SQLite's constraint violation.\<close>

datatype ci_error =
    StaleJobLease
  | IntegrityError
  | CIRequestNotFound
  | CIRequestRevisionConflict
  | CIRequestTransition
  | CIRequestIdentityMismatch
  | CIRequestIdempotencyConflict
  | ValueError

abbreviation job_row :: "string \<Rightarrow> ci_db \<Rightarrow> job option" where
  "job_row k db \<equiv> row_of j_job_id k (ci_jobs db)"

abbreviation request_row :: "string \<Rightarrow> ci_db \<Rightarrow> ci_request option" where
  "request_row k db \<equiv> row_of r_request_id k (ci_requests db)"

fun is_active :: "job_status \<Rightarrow> bool" where
  "is_active JobLeased = True"
| "is_active JobDownloading = True"
| "is_active JobPreparing = True"
| "is_active JobRunning = True"
| "is_active _ = False"

lemma is_active_simps:
  "is_active st \<longleftrightarrow> st = JobLeased \<or> st = JobDownloading \<or> st = JobPreparing \<or> st = JobRunning"
  by (cases st) auto

end
