(* ===== verification/CI_Request_Core.thy ===== *)
theory CI_Request_Core
  imports CI_Schema
begin

text \<open>
  The part of \<open>app/ci_request_store.py\<close> that the job operations of \<open>app/ci_database.py\<close> call back
  into: the request state machine, the event log of a request, and the reconciliation of a
  request with the durable state of its worker job.  One transaction reads the clock once
  (\<open>now\<close>) unless the code keeps an earlier reading.
\<close>

section \<open>The request state machine\<close>

type_synonym request_state = "request_phase \<times> request_status"

definition terminal_statuses :: "request_status list" where
  "terminal_statuses = [RqPassed, RqFailed, RqTimedOut, RqCancelled, RqSuperseded, RqWorkerLost,
     RqInternalError, RqPreflightFailed]"

definition valid_phase_status :: "request_state list" where
  "valid_phase_status =
     [(PhAccepted, RqAccepted), (PhPreparing, RqPreparing), (PhQueued, RqQueued),
      (PhRunning, RqRunning)] @ map (Pair PhTerminal) terminal_statuses"

definition allowed_transitions :: "request_state \<Rightarrow> request_state list" where
  "allowed_transitions s =
     (if s = (PhAccepted, RqAccepted) then
        [(PhPreparing, RqPreparing), (PhTerminal, RqCancelled), (PhTerminal, RqSuperseded),
         (PhTerminal, RqInternalError)]
      else if s = (PhPreparing, RqPreparing) then
        [(PhQueued, RqQueued), (PhTerminal, RqPreflightFailed), (PhTerminal, RqCancelled),
         (PhTerminal, RqSuperseded), (PhTerminal, RqInternalError)]
      else if s = (PhQueued, RqQueued) then
        [(PhRunning, RqRunning), (PhTerminal, RqCancelled), (PhTerminal, RqSuperseded),
         (PhTerminal, RqWorkerLost), (PhTerminal, RqInternalError)]
      else if s = (PhRunning, RqRunning) then
        [(PhTerminal, RqPassed), (PhTerminal, RqFailed), (PhTerminal, RqTimedOut),
         (PhTerminal, RqCancelled), (PhTerminal, RqSuperseded), (PhTerminal, RqWorkerLost),
         (PhTerminal, RqInternalError)]
      else [])"

definition request_state :: "ci_request \<Rightarrow> request_state" where
  "request_state r = (r_phase r, r_status r)"

fun phase_rank :: "request_phase \<Rightarrow> nat" where
  "phase_rank PhAccepted = 0"
| "phase_rank PhPreparing = 1"
| "phase_rank PhQueued = 2"
| "phase_rank PhRunning = 3"
| "phase_rank PhTerminal = 4"

lemma allowed_targets_valid:
  "t \<in> set (allowed_transitions s) \<Longrightarrow> t \<in> set valid_phase_status"
  by (auto simp: allowed_transitions_def valid_phase_status_def terminal_statuses_def
      split: if_splits)

lemma allowed_rank:
  "t \<in> set (allowed_transitions s) \<Longrightarrow> phase_rank (fst s) < phase_rank (fst t)"
  by (auto simp: allowed_transitions_def split: if_splits)

lemma allowed_from_terminal: "fst s = PhTerminal \<Longrightarrow> allowed_transitions s = []"
  by (auto simp: allowed_transitions_def)

section \<open>Request events\<close>

text \<open>\<open>UNIQUE (request_id, revision)\<close> refuses a second event for the same revision.\<close>

definition insert_request_event ::
  "string \<Rightarrow> nat \<Rightarrow> string \<Rightarrow> request_state option \<Rightarrow> request_state \<Rightarrow> json \<Rightarrow> ci_db \<Rightarrow>
     ci_error + (nat \<times> ci_db)" where
  "insert_request_event rid rv ty from_st to_st data db =
     (if \<exists>v \<in> set (ci_request_events db). v_request_id v = rid \<and> v_revision v = rv
      then Inl IntegrityError
      else Inr (next_request_event_id db,
        db\<lparr>ci_request_events := ci_request_events db @
             [\<lparr>v_event_id = next_request_event_id db, v_request_id = rid, v_revision = rv,
               v_event_type = ty, v_from = from_st, v_to = to_st, v_event_data = data\<rparr>],
           next_request_event_id := Suc (next_request_event_id db)\<rparr>))"

section \<open>Reconciliation with the worker job\<close>

definition same_job_identity :: "ci_request \<Rightarrow> job \<Rightarrow> bool" where
  "same_job_identity r j \<longleftrightarrow> r_repository r = j_repository j \<and> r_branch r = j_branch j \<and>
     r_commit_sha r = j_commit_sha j \<and> r_profile r = j_profile j"

definition attestation_matches :: "ci_request \<Rightarrow> job \<Rightarrow> string \<Rightarrow> time \<Rightarrow> tree_attestation \<Rightarrow> bool" where
  "attestation_matches r j tree now a \<longleftrightarrow>
     a_private_ci_job_id a = j_job_id j \<and> a_repository a = r_repository r \<and>
     a_tested_commit_sha a = r_commit_sha r \<and> a_tested_tree_sha a = tree \<and>
     a_profile a = r_profile r \<and> a_status a = ''active'' \<and> a_revoked_at a = None \<and>
     a_expires_at a > now"

definition matching_attestation_in_db ::
  "ci_request \<Rightarrow> job \<Rightarrow> string \<Rightarrow> time \<Rightarrow> ci_db \<Rightarrow> string option" where
  "matching_attestation_in_db r j tree now db =
     (if j_status j \<noteq> JobPassed then None
      else case ci_tree_attestations db of
        None \<Rightarrow> None
      | Some t \<Rightarrow>
          (case sort_key (\<lambda>a. (a_created_at a, a_attestation_id a))
                  (filter (attestation_matches r j tree now) t) of
             [] \<Rightarrow> None
           | x # xs \<Rightarrow> Some (a_attestation_id (last (x # xs)))))"

text \<open>The terminal request status a terminal worker status stands for.\<close>

fun terminal_of_job :: "job_status \<Rightarrow> request_status option" where
  "terminal_of_job JobPassed = Some RqPassed"
| "terminal_of_job JobFailed = Some RqFailed"
| "terminal_of_job JobTimedOut = Some RqTimedOut"
| "terminal_of_job JobCancelled = Some RqCancelled"
| "terminal_of_job JobSuperseded = Some RqSuperseded"
| "terminal_of_job JobWorkerLost = Some RqWorkerLost"
| "terminal_of_job JobInternalError = Some RqInternalError"
| "terminal_of_job _ = None"

definition reconcile_target :: "job_status \<Rightarrow> request_state option" where
  "reconcile_target st =
     (case terminal_of_job st of
        Some t \<Rightarrow> Some (PhTerminal, t)
      | None \<Rightarrow> if st = JobRunning then Some (PhRunning, RqRunning) else None)"

definition job_tree_sha :: "job \<Rightarrow> json option" where
  "job_tree_sha j = (case j_summary j of None \<Rightarrow> None | Some s \<Rightarrow> json_get ''git_tree_sha'' s)"

definition tree_contradicts :: "json option \<Rightarrow> string \<Rightarrow> bool" where
  "tree_contradicts v tree = (case v of None \<Rightarrow> False | Some x \<Rightarrow> json_truthy x \<and> x \<noteq> JStr tree)"

text \<open>The checks of the reconciliation, up to the state it should move the request to.\<close>

definition reconcile_evidence :: "ci_request \<Rightarrow> job \<Rightarrow> (string \<times> request_state) option" where
  "reconcile_evidence r j =
     (if \<not> same_job_identity r j then None
      else case r_tree_sha r of
        None \<Rightarrow> None
      | Some tree \<Rightarrow>
          if \<not> is_sha tree then None
          else if tree_contradicts (job_tree_sha j) tree then None
          else if j_status j = JobPassed \<and> job_tree_sha j \<noteq> Some (JStr tree) then None
          else if j_status j = JobPassed \<and> j_exit_code j \<noteq> Some 0 then None
          else (case reconcile_target (j_status j) of
            None \<Rightarrow> None
          | Some target \<Rightarrow>
              if r_phase r \<notin> {PhQueued, PhRunning, PhTerminal} then None
              else if r_phase r = PhTerminal \<and> request_state r \<noteq> target then None
              else if r_phase r = PhRunning \<and> target = (PhRunning, RqRunning) then None
              else Some (tree, target)))"

definition reconcile_worker_request_in_db ::
  "string \<Rightarrow> time \<Rightarrow> ci_db \<Rightarrow> ci_error + (bool \<times> ci_db)" where
  "reconcile_worker_request_in_db wid now db =
     (case row_of r_worker_job_id (Some wid) (ci_requests db) of
        None \<Rightarrow> Inr (False, db)
      | Some r \<Rightarrow>
     (case job_row wid db of
        None \<Rightarrow> Inr (False, db)
      | Some j \<Rightarrow>
     (case reconcile_evidence r j of
        None \<Rightarrow> Inr (False, db)
      | Some (tree, target) \<Rightarrow>
          let att = matching_attestation_in_db r j tree now db;
              state_changed = (request_state r \<noteq> target);
              attestation_changed = (truthy att \<and> att \<noteq> r_attestation_id r)
          in if \<not> state_changed \<and> \<not> attestation_changed then Inr (False, db)
          else (case insert_request_event (r_request_id r) (r_revision r + 1)
                 (if state_changed \<and> fst target = PhTerminal then ''worker_terminal_reconciled''
                  else if state_changed then ''worker_running_reconciled''
                  else ''worker_attestation_linked'')
                 (Some (request_state r)) target
                 (JObj [(''source'', JStr ''durable_ci_job''), (''worker_job_id'', JStr wid),
                        (''worker_status'', JStr (job_status_text (j_status j))),
                        (''commit_sha'', JStr (r_commit_sha r)), (''tree_sha'', JStr tree),
                        (''attestation_id'', json_opt att)]) db of
            Inl e \<Rightarrow> Inl e
          | Inr (ev, db1) \<Rightarrow>
              let hit = (\<lambda>x. r_request_id x = r_request_id r \<and> r_revision x = r_revision r \<and>
                   request_state x = request_state r \<and> r_worker_job_id x = Some wid \<and>
                   r_tree_sha x = Some tree)
              in if row_count hit (ci_requests db1) \<noteq> 1 then Inl CIRequestRevisionConflict
              else Inr (True, db1\<lparr>ci_requests := update_where hit
                     (\<lambda>x. x\<lparr>r_phase := fst target, r_status := snd target,
                            r_revision := r_revision x + 1, r_updated_at := now,
                            r_last_event_id := Some ev,
                            r_attestation_id := coalesce att (r_attestation_id x)\<rparr>)
                     (ci_requests db1)\<rparr>)))))"

text \<open>
  The pending requests of \<open>reconcile_pending_worker_requests_in_db\<close>, oldest first, and the
  startup loop over them.  An error in one of them rolls the whole startup transaction back.
\<close>

definition pending_worker_job_ids :: "ci_db \<Rightarrow> string list" where
  "pending_worker_job_ids db =
     List.map_filter r_worker_job_id
       (sort_key (\<lambda>r. (r_created_at r, r_request_id r))
         (filter (\<lambda>r. r_worker_job_id r \<noteq> None \<and>
              (r_phase r \<noteq> PhTerminal \<or> r_status r = RqPassed \<and> r_attestation_id r = None))
            (ci_requests db)))"

fun reconcile_all :: "string list \<Rightarrow> time \<Rightarrow> ci_db \<Rightarrow> ci_error + (nat \<times> ci_db)" where
  "reconcile_all [] now db = Inr (0, db)"
| "reconcile_all (w # ws) now db =
     (case reconcile_worker_request_in_db w now db of
        Inl e \<Rightarrow> Inl e
      | Inr (b, db1) \<Rightarrow>
          (case reconcile_all ws now db1 of
             Inl e \<Rightarrow> Inl e
           | Inr (n, db2) \<Rightarrow> Inr (of_bool b + n, db2)))"

definition reconcile_pending_worker_requests_in_db ::
  "time \<Rightarrow> ci_db \<Rightarrow> ci_error + (nat \<times> ci_db)" where
  "reconcile_pending_worker_requests_in_db now db =
     reconcile_all (pending_worker_job_ids db) now db"

end
