(* ===== verification/CI_Jobs.thy ===== *)
theory CI_Jobs
  imports CI_Request_Core
begin

text \<open>
  Workers, jobs and the fair lease queue of \<open>app/ci_database.py\<close>.  Every operation is one
  \<open>BEGIN IMMEDIATE\<close> transaction: \<open>Inl e\<close> is an exception, after which the old state stays, a
  result without a change is the rolled-back or read-only path.  \<open>H\<close> is the hexadecimal
  SHA-256 digest of a text; fresh job ids and lease tokens are arguments.
\<close>

section \<open>Workers\<close>

definition register_worker ::
  "(string \<Rightarrow> string) \<Rightarrow> string \<Rightarrow> string \<Rightarrow> string list \<Rightarrow> int \<Rightarrow> time \<Rightarrow> ci_db \<Rightarrow> ci_db" where
  "register_worker H wid token profiles maxc ts db =
     db\<lparr>ci_workers :=
       (if row_of w_worker_id wid (ci_workers db) = None
        then ci_workers db @
          [\<lparr>w_worker_id = wid, w_token_hash = H token, w_supported_profiles = profiles,
            w_max_concurrent = maxc, w_status = ''idle'', w_current_job_id = None,
            w_last_heartbeat = ts, w_registered_at = ts\<rparr>]
        else update_where (\<lambda>w. w_worker_id w = wid)
          (\<lambda>w. w\<lparr>w_token_hash := H token, w_supported_profiles := profiles,
                 w_max_concurrent := maxc, w_last_heartbeat := ts, w_status := ''idle''\<rparr>)
          (ci_workers db))\<rparr>"

definition verify_worker_token :: "(string \<Rightarrow> string) \<Rightarrow> string \<Rightarrow> string \<Rightarrow> ci_db \<Rightarrow> bool" where
  "verify_worker_token H wid token db =
     (case row_of w_worker_id wid (ci_workers db) of
        None \<Rightarrow> False | Some w \<Rightarrow> w_token_hash w = H token)"

definition update_worker_heartbeat :: "string \<Rightarrow> time \<Rightarrow> ci_db \<Rightarrow> ci_db" where
  "update_worker_heartbeat wid ts db =
     db\<lparr>ci_workers := update_where (\<lambda>w. w_worker_id w = wid)
          (\<lambda>w. w\<lparr>w_last_heartbeat := ts\<rparr>) (ci_workers db)\<rparr>"

definition set_worker_busy :: "string \<Rightarrow> string \<Rightarrow> ci_db \<Rightarrow> ci_db" where
  "set_worker_busy wid jid db =
     db\<lparr>ci_workers := update_where (\<lambda>w. w_worker_id w = wid)
          (\<lambda>w. w\<lparr>w_status := ''busy'', w_current_job_id := Some jid\<rparr>) (ci_workers db)\<rparr>"

definition set_worker_idle :: "string \<Rightarrow> ci_db \<Rightarrow> ci_db" where
  "set_worker_idle wid db =
     db\<lparr>ci_workers := update_where (\<lambda>w. w_worker_id w = wid)
          (\<lambda>w. w\<lparr>w_status := ''idle'', w_current_job_id := None\<rparr>) (ci_workers db)\<rparr>"

text \<open>The conditional form: only while the worker still points at the job.\<close>

definition release_worker :: "string option \<Rightarrow> string \<Rightarrow> ci_db \<Rightarrow> ci_db" where
  "release_worker owner jid db =
     (if truthy owner
      then db\<lparr>ci_workers :=
             update_where (\<lambda>w. Some (w_worker_id w) = owner \<and> w_current_job_id w = Some jid)
               (\<lambda>w. w\<lparr>w_status := ''idle'', w_current_job_id := None\<rparr>) (ci_workers db)\<rparr>
      else db)"

record startup_report =
  su_current_job_id :: "string option"
  su_current_job_status :: "job_status option"
  su_lease_expired :: bool
  su_cleared :: bool

definition reconcile_worker_startup ::
  "string \<Rightarrow> time \<Rightarrow> ci_db \<Rightarrow> startup_report option \<times> ci_db" where
  "reconcile_worker_startup wid now db =
     (case row_of w_worker_id wid (ci_workers db) of
        None \<Rightarrow> (None, db)
      | Some w \<Rightarrow>
          if \<not> truthy (w_current_job_id w)
          then (Some \<lparr>su_current_job_id = None, su_current_job_status = None,
                      su_lease_expired = False, su_cleared = False\<rparr>, db)
          else let j = Option.bind (w_current_job_id w) (\<lambda>k. job_row k db);
                   expires = Option.bind j j_lease_expires_at
               in (Some \<lparr>su_current_job_id = w_current_job_id w,
                         su_current_job_status = map_option j_status j,
                         su_lease_expired = (case expires of None \<Rightarrow> False | Some t \<Rightarrow> t \<le> now),
                         su_cleared = True\<rparr>, set_worker_idle wid db))"

section \<open>Queue counters and job events\<close>

definition bump_queue_state :: "int \<Rightarrow> int \<Rightarrow> time option \<Rightarrow> queue_state \<Rightarrow> queue_state" where
  "bump_queue_state qd rd disp q =
     q\<lparr>q_queued_jobs := (if qd \<noteq> 0 then max 0 (q_queued_jobs q + qd) else q_queued_jobs q),
       q_running_jobs := (if rd \<noteq> 0 then max 0 (q_running_jobs q + rd) else q_running_jobs q),
       q_last_dispatched_at :=
         (case disp of None \<Rightarrow> q_last_dispatched_at q | Some t \<Rightarrow> t)\<rparr>"

definition upsert_repo_queue_state ::
  "string \<Rightarrow> int \<Rightarrow> int \<Rightarrow> time option \<Rightarrow> ci_db \<Rightarrow> ci_db" where
  "upsert_repo_queue_state repo qd rd disp db =
     db\<lparr>ci_repository_queue_state :=
       (if row_of q_repository repo (ci_repository_queue_state db) \<noteq> None
        then update_where (\<lambda>q. q_repository q = repo) (bump_queue_state qd rd disp)
               (ci_repository_queue_state db)
        else ci_repository_queue_state db @
          [\<lparr>q_repository = repo,
            q_last_dispatched_at = (case disp of None \<Rightarrow> 0 | Some t \<Rightarrow> t),
            q_running_jobs = max 0 rd, q_queued_jobs = max 0 qd\<rparr>])\<rparr>"

definition add_event :: "string \<Rightarrow> string \<Rightarrow> json \<Rightarrow> ci_db \<Rightarrow> ci_db" where
  "add_event jid ty data db =
     db\<lparr>ci_job_events := ci_job_events db @
          [\<lparr>e_id = next_event_id db, e_job_id = jid, e_event_type = ty, e_event_data = data\<rparr>],
        next_event_id := Suc (next_event_id db)\<rparr>"

definition update_jobs :: "(job \<Rightarrow> bool) \<Rightarrow> (job \<Rightarrow> job) \<Rightarrow> ci_db \<Rightarrow> ci_db" where
  "update_jobs P f db = db\<lparr>ci_jobs := update_where P f (ci_jobs db)\<rparr>"

text \<open>The two ways an attempt ends without a result: back to the queue, or lost for good.\<close>

definition requeue_job :: "time \<Rightarrow> job \<Rightarrow> job" where
  "requeue_job ts j = j\<lparr>j_status := JobQueued, j_queued_at := Some ts, j_worker_id := None,
     j_lease_token_hash := None, j_lease_expires_at := None\<rparr>"

definition end_job :: "job_status \<Rightarrow> time \<Rightarrow> job \<Rightarrow> job" where
  "end_job st ts j = j\<lparr>j_status := st, j_finished_at := Some ts, j_worker_id := None,
     j_lease_token_hash := None, j_lease_expires_at := None\<rparr>"

section \<open>Starting a job\<close>

definition get_queue_position :: "string \<Rightarrow> ci_db \<Rightarrow> nat" where
  "get_queue_position jid db =
     (case job_row jid db of
        None \<Rightarrow> 0
      | Some r \<Rightarrow> row_count (\<lambda>j. j_status j = JobQueued \<and>
            (j_priority j > j_priority r \<or>
             j_priority j = j_priority r \<and> j_created_at j \<le> j_created_at r)) (ci_jobs db))"

definition count_queued :: "ci_db \<Rightarrow> nat" where
  "count_queued db = row_count (\<lambda>j. j_status j = JobQueued) (ci_jobs db)"

definition any_worker_online :: "time \<Rightarrow> ci_db \<Rightarrow> bool" where
  "any_worker_online now db \<longleftrightarrow>
     row_count (\<lambda>w. w_last_heartbeat w > now - 60) (ci_workers db) > 0"

text \<open>The arguments of one start, with the idempotency key they are filed under.\<close>

record start_args =
  sa_repository :: string
  sa_branch :: string
  sa_commit_sha :: string
  sa_profile :: string
  sa_priority :: int
  sa_timeout_seconds :: int
  sa_force_rerun :: bool
  sa_supersede_previous :: bool
  sa_base_sha :: string
  sa_changed_files :: "string list option"
  sa_changed_files_total :: "int option"
  sa_changed_files_truncated :: bool
  sa_idem_key :: string

text \<open>The answer: the columns it copies from the job are those of \<open>sr_job\<close>.\<close>

record start_result =
  sr_job :: job
  sr_queue_position :: nat
  sr_worker_online :: bool
  sr_deduplicated :: bool
  sr_queued_count :: nat
  sr_superseded_job_ids :: "string list"

fun reusable :: "job_status \<Rightarrow> bool" where
  "reusable st = (st = JobQueued \<or> is_active st \<or> st = JobPassed)"

definition reusable_job :: "string \<Rightarrow> ci_db \<Rightarrow> job option" where
  "reusable_job key db =
     (case sort_key j_created_at
             (filter (\<lambda>j. j_idempotency_key j = key \<and> reusable (j_status j)) (ci_jobs db)) of
        [] \<Rightarrow> None | x # xs \<Rightarrow> Some (last (x # xs)))"

definition new_job :: "start_args \<Rightarrow> string \<Rightarrow> time \<Rightarrow> job" where
  "new_job a jid ts =
     \<lparr>j_job_id = jid, j_idempotency_key = sa_idem_key a, j_repository = sa_repository a,
      j_branch = sa_branch a, j_commit_sha = sa_commit_sha a, j_base_sha = sa_base_sha a,
      j_changed_files = (case sa_changed_files a of None \<Rightarrow> [] | Some fs \<Rightarrow> fs),
      j_changed_files_total =
        (case sa_changed_files_total a of
           Some n \<Rightarrow> n
         | None \<Rightarrow> int (length (case sa_changed_files a of None \<Rightarrow> [] | Some fs \<Rightarrow> fs))),
      j_changed_files_truncated = sa_changed_files_truncated a,
      j_profile = sa_profile a, j_priority = sa_priority a, j_status = JobQueued,
      j_worker_id = None, j_lease_token_hash = None, j_lease_expires_at = None,
      j_cancel_requested = False, j_superseded_by_job_id = None, j_attempts = 0,
      j_max_attempts = 2, j_exit_code = None, j_summary = None, j_source_sha256 = None,
      j_source_size_bytes = None, j_timeout_seconds = sa_timeout_seconds a,
      j_error_code = None, j_error_message = None, j_created_at = ts, j_queued_at = Some ts,
      j_started_at = None, j_finished_at = None, j_duration_seconds = None,
      j_log_total_bytes = 0, j_log_truncated = False\<rparr>"

text \<open>The loop over the queued jobs a newer start of the same branch and profile replaces.\<close>

definition superseded_rows :: "start_args \<Rightarrow> ci_db \<Rightarrow> job list" where
  "superseded_rows a db =
     sort_key (\<lambda>j. (j_created_at j, j_job_id j))
       (filter (\<lambda>j. j_repository j = sa_repository a \<and> j_branch j = sa_branch a \<and>
            j_profile j = sa_profile a \<and> j_status j = JobQueued \<and>
            j_idempotency_key j \<noteq> sa_idem_key a) (ci_jobs db))"

definition supersede_one :: "string \<Rightarrow> string \<Rightarrow> time \<Rightarrow> job \<Rightarrow> ci_db \<Rightarrow> ci_db" where
  "supersede_one new_id new_sha ts old db =
     add_event (j_job_id old) ''superseded''
       (JObj [(''old_job_id'', JStr (j_job_id old)), (''new_job_id'', JStr new_id),
              (''superseded_by_job_id'', JStr new_id),
              (''old_commit_sha'', JStr (j_commit_sha old)), (''new_commit_sha'', JStr new_sha),
              (''repository'', JStr (j_repository old)), (''branch'', JStr (j_branch old)),
              (''profile'', JStr (j_profile old)), (''superseded_at'', JReal ts)])
       (upsert_repo_queue_state (j_repository old) (-1) 0 None
         (update_jobs (\<lambda>j. j_job_id j = j_job_id old \<and> j_status j = JobQueued)
            (\<lambda>j. (end_job JobSuperseded ts j)\<lparr>j_superseded_by_job_id := Some new_id\<rparr>) db))"

fun supersede_rows ::
  "string \<Rightarrow> string \<Rightarrow> time \<Rightarrow> job list \<Rightarrow> ci_db \<Rightarrow> string list \<times> ci_db" where
  "supersede_rows new_id new_sha ts [] db = ([], db)"
| "supersede_rows new_id new_sha ts (old # olds) db =
     (if row_count (\<lambda>j. j_job_id j = j_job_id old \<and> j_status j = JobQueued) (ci_jobs db) \<noteq> 1
      then supersede_rows new_id new_sha ts olds db
      else let (ids, db') = supersede_rows new_id new_sha ts olds
                              (supersede_one new_id new_sha ts old db)
           in (j_job_id old # ids, db'))"

text \<open>
  \<open>_create_or_get_job_in_transaction\<close>.  The read-back after the commit finds the row just
  inserted, so it has no failing branch here; \<open>created_at\<close> and \<open>previous_job_id\<close> of the answer
  are those of the row and \<open>None\<close>.
\<close>

definition create_or_get_job_in_transaction ::
  "start_args \<Rightarrow> string \<Rightarrow> time \<Rightarrow> time \<Rightarrow> ci_db \<Rightarrow> ci_error + (start_result \<times> ci_db)" where
  "create_or_get_job_in_transaction a jid ts now db =
     (case (if sa_force_rerun a then None else reusable_job (sa_idem_key a) db) of
        Some row \<Rightarrow>
          Inr (\<lparr>sr_job = row, sr_queue_position = get_queue_position (j_job_id row) db,
                sr_worker_online = any_worker_online now db, sr_deduplicated = True,
                sr_queued_count = count_queued db, sr_superseded_job_ids = []\<rparr>, db)
      | None \<Rightarrow>
          let (ids, db1) =
                (if sa_supersede_previous a
                 then supersede_rows jid (sa_commit_sha a) ts (superseded_rows a db) db
                 else ([], db))
          in if job_row jid db1 \<noteq> None then Inl IntegrityError
             else let db2 = upsert_repo_queue_state (sa_repository a) 1 0 None
                        (db1\<lparr>ci_jobs := ci_jobs db1 @ [new_job a jid ts]\<rparr>)
                  in Inr (\<lparr>sr_job = new_job a jid ts,
                           sr_queue_position = get_queue_position jid db2,
                           sr_worker_online = any_worker_online now db2,
                           sr_deduplicated = False, sr_queued_count = count_queued db2,
                           sr_superseded_job_ids = ids\<rparr>, db2))"

text \<open>The public start files the job under the digest of repository, commit and profile.\<close>

definition create_or_get_job ::
  "(string \<Rightarrow> string) \<Rightarrow> start_args \<Rightarrow> string \<Rightarrow> time \<Rightarrow> time \<Rightarrow> ci_db \<Rightarrow>
     ci_error + (start_result \<times> ci_db)" where
  "create_or_get_job H a jid ts now db =
     create_or_get_job_in_transaction
       (a\<lparr>sa_idem_key := make_idempotency_key H (sa_repository a) (sa_commit_sha a) (sa_profile a)\<rparr>)
       jid ts now db"

text \<open>A durable request files its job under its own id and never forces a rerun.\<close>

definition create_ci_request_job_in_transaction ::
  "string \<Rightarrow> start_args \<Rightarrow> string \<Rightarrow> time \<Rightarrow> ci_db \<Rightarrow> ci_error + (start_result \<times> ci_db)" where
  "create_ci_request_job_in_transaction rid a jid now db =
     create_or_get_job_in_transaction
       (a\<lparr>sa_force_rerun := False, sa_idem_key := ''ci-request:'' @ rid\<rparr>) jid now now db"

section \<open>Leases\<close>

text \<open>
  The order of the lease query: highest priority, then the repository dispatched longest ago,
  then the oldest job.
\<close>

definition repo_last_dispatched :: "ci_db \<Rightarrow> string \<Rightarrow> time" where
  "repo_last_dispatched db repo =
     (case row_of q_repository repo (ci_repository_queue_state db) of
        None \<Rightarrow> 0 | Some q \<Rightarrow> q_last_dispatched_at q)"

definition lease_key :: "ci_db \<Rightarrow> job \<Rightarrow> int \<times> time \<times> time" where
  "lease_key db j = (- j_priority j, repo_last_dispatched db (j_repository j), j_created_at j)"

definition lease_candidate :: "string list \<Rightarrow> ci_db \<Rightarrow> job option" where
  "lease_candidate profiles db =
     (case sort_key (lease_key db)
             (filter (\<lambda>j. j_status j = JobQueued \<and> j_profile j \<in> set profiles) (ci_jobs db)) of
        [] \<Rightarrow> None | x # _ \<Rightarrow> Some x)"

definition running_count :: "string \<Rightarrow> ci_db \<Rightarrow> nat" where
  "running_count wid db =
     row_count (\<lambda>j. j_worker_id j = Some wid \<and> is_active (j_status j)) (ci_jobs db)"

record lease_grant =
  lg_job :: job
  lg_attempt :: int
  lg_lease_token :: string
  lg_lease_expires_at :: time

definition lease_job ::
  "(string \<Rightarrow> string) \<Rightarrow> string \<Rightarrow> string list \<Rightarrow> int \<Rightarrow> string \<Rightarrow> time \<Rightarrow> ci_db \<Rightarrow>
     lease_grant option \<times> ci_db" where
  "lease_job H wid profiles maxc token ts db =
     (if profiles = [] then (None, db)
      else if int (running_count wid db) \<ge> maxc then (None, db)
      else case lease_candidate profiles db of
        None \<Rightarrow> (None, db)
      | Some row \<Rightarrow>
          let hit = (\<lambda>j. j_job_id j = j_job_id row \<and> j_status j = JobQueued)
          in if row_count hit (ci_jobs db) \<noteq> 1 then (None, db)
          else (Some \<lparr>lg_job = row, lg_attempt = j_attempts row + 1, lg_lease_token = token,
                      lg_lease_expires_at = ts + 120\<rparr>,
                add_event (j_job_id row) ''leased''
                  (JObj [(''worker_id'', JStr wid), (''attempt'', JInt (j_attempts row + 1))])
                  (set_worker_busy wid (j_job_id row)
                    (upsert_repo_queue_state (j_repository row) (-1) 1 (Some ts)
                      (update_jobs hit
                        (\<lambda>j. j\<lparr>j_status := JobLeased, j_worker_id := Some wid,
                               j_lease_token_hash := Some (H token),
                               j_lease_expires_at := Some (ts + 120),
                               j_attempts := j_attempts j + 1, j_started_at := Some ts\<rparr>) db)))))"

text \<open>The fence: does the credential name the unexpired lease of an active attempt?\<close>

definition lease_held ::
  "(string \<Rightarrow> string) \<Rightarrow> string \<Rightarrow> string \<Rightarrow> string \<Rightarrow> time \<Rightarrow> ci_db \<Rightarrow> bool" where
  "lease_held H jid wid token now db \<longleftrightarrow>
     row_count (\<lambda>j. j_job_id j = jid \<and> j_worker_id j = Some wid \<and>
        j_lease_token_hash j = Some (H token) \<and> sql_gt (j_lease_expires_at j) now \<and>
        is_active (j_status j)) (ci_jobs db) = 1"

definition begin_job_write ::
  "(string \<Rightarrow> string) \<Rightarrow> string \<Rightarrow> string option \<Rightarrow> string option \<Rightarrow> time \<Rightarrow> ci_db \<Rightarrow> bool" where
  "begin_job_write H jid wid token now db =
     (if wid = None \<and> token = None then True
      else if \<not> truthy wid \<or> \<not> truthy token then False
      else lease_held H jid (the wid) (the token) now db)"

definition renew_lease ::
  "(string \<Rightarrow> string) \<Rightarrow> string \<Rightarrow> string \<Rightarrow> string \<Rightarrow> time \<Rightarrow> ci_db \<Rightarrow> bool \<times> ci_db" where
  "renew_lease H jid token wid ts db =
     (if token = [] then (False, db)
      else let hit = (\<lambda>j. j_job_id j = jid \<and> j_lease_token_hash j = Some (H token) \<and>
                 sql_gt (j_lease_expires_at j) ts \<and> is_active (j_status j) \<and>
                 (wid = [] \<or> j_worker_id j = Some wid))
           in (row_count hit (ci_jobs db) = 1,
               update_jobs hit (\<lambda>j. j\<lparr>j_lease_expires_at := Some (ts + 120)\<rparr>) db))"

definition need_heartbeat :: "string \<Rightarrow> ci_db \<Rightarrow> bool" where
  "need_heartbeat jid db =
     (case List.find (\<lambda>j. j_job_id j = jid \<and> is_active (j_status j)) (ci_jobs db) of
        None \<Rightarrow> True | Some j \<Rightarrow> j_cancel_requested j)"

section \<open>Ending an attempt\<close>

definition elapsed :: "time \<Rightarrow> time option \<Rightarrow> time" where
  "elapsed ts started = (case started of None \<Rightarrow> 0 | Some s \<Rightarrow> if s = 0 then 0 else ts - s)"

text \<open>\<open>ts\<close> is read on entry, \<open>now\<close> under the write lock.\<close>

definition complete_job ::
  "(string \<Rightarrow> string) \<Rightarrow> string \<Rightarrow> int option \<Rightarrow> job_status \<Rightarrow> json option \<Rightarrow> string option \<Rightarrow>
     string option \<Rightarrow> string option \<Rightarrow> string option \<Rightarrow> time \<Rightarrow> time \<Rightarrow> ci_db \<Rightarrow>
     ci_error + (bool \<times> ci_db)" where
  "complete_job H jid exit_code status summary ecode emsg wid token ts now db =
     (if \<not> begin_job_write H jid wid token now db then Inl StaleJobLease
      else case job_row jid db of
        None \<Rightarrow> Inr (False, db)
      | Some row \<Rightarrow>
          let db1 = update_jobs (\<lambda>j. j_job_id j = jid)
                (\<lambda>j. (end_job status ts j)\<lparr>j_exit_code := exit_code,
                       j_summary := (case summary of None \<Rightarrow> None
                          | Some s \<Rightarrow> if json_truthy s then Some s else None),
                       j_duration_seconds := Some (elapsed ts (j_started_at row)),
                       j_error_code := ecode, j_error_message := emsg\<rparr>) db;
              db2 = release_worker (j_worker_id row) jid db1;
              db3 = upsert_repo_queue_state (j_repository row) 0 (-1) None db2;
              db4 = add_event jid ''completed''
                (JObj [(''status'', JStr (job_status_text status)),
                       (''exit_code'', (case exit_code of None \<Rightarrow> JNull | Some n \<Rightarrow> JInt n))]) db3
          in (case reconcile_worker_request_in_db jid now db4 of
                Inl e \<Rightarrow> Inl e
              | Inr (_, db5) \<Rightarrow> Inr (True, db5)))"

definition request_cancel_job :: "string \<Rightarrow> ci_db \<Rightarrow> bool \<times> ci_db" where
  "request_cancel_job jid db =
     (let hit = (\<lambda>j. j_job_id j = jid \<and> \<not> j_cancel_requested j \<and> is_active (j_status j))
      in if row_count hit (ci_jobs db) \<noteq> 1 then (False, db)
         else (True, add_event jid ''cancel_requested'' (JObj [])
                 (update_jobs hit (\<lambda>j. j\<lparr>j_cancel_requested := True\<rparr>) db)))"

definition cancel_queued_job :: "string \<Rightarrow> time \<Rightarrow> ci_db \<Rightarrow> ci_error + (bool \<times> ci_db)" where
  "cancel_queued_job jid now db =
     (let hit = (\<lambda>j. j_job_id j = jid \<and> j_status j = JobQueued)
      in case List.find hit (ci_jobs db) of
           None \<Rightarrow> Inr (False, db)
         | Some row \<Rightarrow>
             if row_count hit (ci_jobs db) \<noteq> 1 then Inr (False, db)
             else (case reconcile_worker_request_in_db jid now
                     (add_event jid ''cancelled'' (JObj [])
                       (upsert_repo_queue_state (j_repository row) (-1) 0 None
                         (update_jobs hit (end_job JobCancelled now) db))) of
                Inl e \<Rightarrow> Inl e
              | Inr (_, db1) \<Rightarrow> Inr (True, db1)))"

definition release_job ::
  "(string \<Rightarrow> string) \<Rightarrow> string \<Rightarrow> string option \<Rightarrow> string option \<Rightarrow> time \<Rightarrow> ci_db \<Rightarrow>
     ci_error + (bool \<times> ci_db)" where
  "release_job H jid wid token now db =
     (if \<not> begin_job_write H jid wid token now db then Inl StaleJobLease
      else case job_row jid db of
        None \<Rightarrow> Inr (False, db)
      | Some row \<Rightarrow>
          Inr (True, add_event jid ''released'' (JObj [])
            (upsert_repo_queue_state (j_repository row) 1 (-1) None
              (release_worker (j_worker_id row) jid
                (update_jobs (\<lambda>j. j_job_id j = jid) (requeue_job now) db)))))"

section \<open>Recovery\<close>

text \<open>One iteration of \<open>recover_worker_jobs\<close>, over the rows the query fetched.\<close>

definition recover_worker_row :: "string \<Rightarrow> time \<Rightarrow> job \<Rightarrow> ci_db \<Rightarrow> ci_db" where
  "recover_worker_row wid ts row db =
     (if j_attempts row \<ge> j_max_attempts row
      then add_event (j_job_id row) ''worker_recovered''
             (JObj [(''worker_id'', JStr wid), (''status'', JStr ''worker_lost'')])
             (upsert_repo_queue_state (j_repository row) 0 (-1) None
               (update_jobs (\<lambda>j. j_job_id j = j_job_id row) (end_job JobWorkerLost ts) db))
      else add_event (j_job_id row) ''worker_recovered''
             (JObj [(''worker_id'', JStr wid), (''status'', JStr ''queued'')])
             (upsert_repo_queue_state (j_repository row) 1 (-1) None
               (update_jobs (\<lambda>j. j_job_id j = j_job_id row) (requeue_job ts) db)))"

definition owned_active_rows :: "string \<Rightarrow> ci_db \<Rightarrow> job list" where
  "owned_active_rows wid db =
     filter (\<lambda>j. j_worker_id j = Some wid \<and> is_active (j_status j)) (ci_jobs db)"

definition recover_worker_jobs :: "string \<Rightarrow> time \<Rightarrow> ci_db \<Rightarrow> nat \<times> ci_db" where
  "recover_worker_jobs wid ts db =
     (length (owned_active_rows wid db),
      set_worker_idle wid (fold (recover_worker_row wid ts) (owned_active_rows wid db) db))"

text \<open>One iteration of \<open>recover_expired_leases\<close>.\<close>

definition recover_expired_row :: "time \<Rightarrow> job \<Rightarrow> ci_db \<Rightarrow> ci_error + (bool \<times> ci_db)" where
  "recover_expired_row ts row db =
     (let db1 =
            (if j_attempts row \<ge> j_max_attempts row
             then update_jobs (\<lambda>j. j_job_id j = j_job_id row) (end_job JobWorkerLost ts) db
             else upsert_repo_queue_state (j_repository row) 1 0 None
                    (update_jobs (\<lambda>j. j_job_id j = j_job_id row) (requeue_job ts) db));
          db2 = release_worker (j_worker_id row) (j_job_id row)
                  (upsert_repo_queue_state (j_repository row) 0 (-1) None db1)
      in reconcile_worker_request_in_db (j_job_id row) ts
           (add_event (j_job_id row) ''lease_expired''
             (JObj [(''attempts'', JInt (j_attempts row)),
                    (''max_attempts'', JInt (j_max_attempts row))]) db2))"

fun recover_expired_rows :: "time \<Rightarrow> job list \<Rightarrow> ci_db \<Rightarrow> ci_error + (nat \<times> ci_db)" where
  "recover_expired_rows ts [] db = Inr (0, db)"
| "recover_expired_rows ts (row # rows) db =
     (case recover_expired_row ts row db of
        Inl e \<Rightarrow> Inl e
      | Inr (_, db1) \<Rightarrow>
          (case recover_expired_rows ts rows db1 of
             Inl e \<Rightarrow> Inl e
           | Inr (n, db2) \<Rightarrow> Inr (Suc n, db2)))"

definition expired_rows :: "time \<Rightarrow> ci_db \<Rightarrow> job list" where
  "expired_rows ts db =
     filter (\<lambda>j. is_active (j_status j) \<and> sql_lt (j_lease_expires_at j) ts) (ci_jobs db)"

definition recover_expired_leases :: "time \<Rightarrow> ci_db \<Rightarrow> ci_error + (nat \<times> ci_db)" where
  "recover_expired_leases ts db = recover_expired_rows ts (expired_rows ts db) db"

section \<open>Progress reports\<close>

definition set_job_status ::
  "(string \<Rightarrow> string) \<Rightarrow> string \<Rightarrow> job_status \<Rightarrow> string option \<Rightarrow> string option \<Rightarrow> time \<Rightarrow>
     ci_db \<Rightarrow> ci_error + (bool \<times> ci_db)" where
  "set_job_status H jid status wid token now db =
     (if \<not> begin_job_write H jid wid token now db then Inl StaleJobLease
      else let hit = (\<lambda>j. j_job_id j = jid \<and>
                 (status = JobRunning \<longrightarrow> j_status j = JobDownloading \<or> j_status j = JobPreparing));
               n = row_count hit (ci_jobs db);
               db1 = update_jobs hit (\<lambda>j. j\<lparr>j_status := status\<rparr>) db
           in if n \<noteq> 0 \<and> status = JobRunning
              then (case reconcile_worker_request_in_db jid now db1 of
                      Inl e \<Rightarrow> Inl e
                    | Inr (_, db2) \<Rightarrow> Inr (n = 1, db2))
              else Inr (n = 1, db1))"

definition set_job_source_info :: "string \<Rightarrow> string \<Rightarrow> int \<Rightarrow> ci_db \<Rightarrow> ci_db" where
  "set_job_source_info jid sha size_bytes db =
     update_jobs (\<lambda>j. j_job_id j = jid)
       (\<lambda>j. j\<lparr>j_source_sha256 := Some sha, j_source_size_bytes := Some size_bytes\<rparr>) db"

definition set_job_source_downloaded ::
  "(string \<Rightarrow> string) \<Rightarrow> string \<Rightarrow> string \<Rightarrow> int \<Rightarrow> string \<Rightarrow> string \<Rightarrow> time \<Rightarrow> ci_db \<Rightarrow>
     ci_error + (bool \<times> ci_db)" where
  "set_job_source_downloaded H jid sha size_bytes wid token now db =
     (if \<not> begin_job_write H jid (Some wid) (Some token) now db then Inl StaleJobLease
      else Inr (True, add_event jid ''source_downloaded'' (JObj [(''size_bytes'', JInt size_bytes)])
             (update_jobs (\<lambda>j. j_job_id j = jid)
               (\<lambda>j. j\<lparr>j_source_sha256 := Some sha, j_source_size_bytes := Some size_bytes,
                      j_status := JobDownloading\<rparr>) db)))"

section \<open>Housekeeping\<close>

text \<open>Online workers that could claim a queued job of the profile, or why there are none.\<close>

definition queue_worker_evidence ::
  "string \<Rightarrow> time \<Rightarrow> ci_db \<Rightarrow> string list \<times> string option" where
  "queue_worker_evidence profile now db =
     (let online = sort_key w_worker_id
            (filter (\<lambda>w. w_last_heartbeat w > now - 60) (ci_workers db));
          supported = filter (\<lambda>w. profile \<in> set (w_supported_profiles w)) online;
          eligible = filter (\<lambda>w. int (running_count (w_worker_id w) db) <
                       (if w_max_concurrent w = 0 then 1 else w_max_concurrent w)) supported
      in if eligible \<noteq> [] then (map w_worker_id eligible, None)
         else if supported \<noteq> [] then ([], Some ''eligible_workers_at_capacity'')
         else ([], Some ''no_online_worker_supports_profile''))"

fun is_finished :: "job_status \<Rightarrow> bool" where
  "is_finished st = (terminal_of_job st \<noteq> None)"

definition stale_pointer :: "ci_db \<Rightarrow> worker \<Rightarrow> bool" where
  "stale_pointer db w =
     (case w_current_job_id w of
        None \<Rightarrow> False
      | Some k \<Rightarrow> (case job_row k db of None \<Rightarrow> True | Some j \<Rightarrow> is_finished (j_status j)))"

definition reconcile_stale_workers :: "time \<Rightarrow> ci_db \<Rightarrow> nat \<times> ci_db" where
  "reconcile_stale_workers ts db =
     (let idle = (\<lambda>w. w\<lparr>w_current_job_id := None, w_status := ''idle''\<rparr>);
          ids = map w_worker_id (filter (stale_pointer db) (ci_workers db));
          ws = update_where (\<lambda>w. w_worker_id w \<in> set ids) idle (ci_workers db)
      in (length ids,
          db\<lparr>ci_workers := update_where
               (\<lambda>w. w_last_heartbeat w < ts - 120 \<and> w_status w \<noteq> ''idle'') idle ws\<rparr>))"

text \<open>
  Jobs past the age limit go, with their chunks, steps, events and (by \<open>ON DELETE CASCADE\<close>)
  batches; requests bound to them lose the binding (\<open>ON DELETE SET NULL\<close>).
\<close>

definition cleanup_old_jobs :: "int \<Rightarrow> time \<Rightarrow> ci_db \<Rightarrow> ci_db" where
  "cleanup_old_jobs max_age_hours now db =
     (let cutoff = now - of_int (max_age_hours * 3600);
          old = map j_job_id (filter (\<lambda>j. sql_lt (j_finished_at j) cutoff) (ci_jobs db))
      in db\<lparr>ci_job_log_chunks := filter (\<lambda>c. c_job_id c \<notin> set old) (ci_job_log_chunks db),
            ci_job_steps := filter (\<lambda>s. s_job_id s \<notin> set old) (ci_job_steps db),
            ci_job_events := filter (\<lambda>e. e_job_id e \<notin> set old) (ci_job_events db),
            ci_job_log_batches := filter (\<lambda>b. fst b \<notin> set old) (ci_job_log_batches db),
            ci_jobs := filter (\<lambda>j. \<not> sql_lt (j_finished_at j) cutoff) (ci_jobs db),
            ci_requests := update_where
              (\<lambda>r. case r_worker_job_id r of None \<Rightarrow> False | Some k \<Rightarrow> k \<in> set old)
              (\<lambda>r. r\<lparr>r_worker_job_id := None\<rparr>) (ci_requests db)\<rparr>)"

end
