(* ===== verification/CI_Job_Invariant.thy ===== *)
theory CI_Job_Invariant
  imports CI_Jobs
begin

text \<open>
  The invariant of the job tables: primary keys are unique, the queue counters of a repository
  count its queued and its active jobs, and exactly the active jobs hold a lease.  One lemma
  per operation shows that the operation keeps it.
\<close>

section \<open>What each table update leaves alone\<close>

lemma frame_simps [simp]:
  "ci_jobs (upsert_repo_queue_state r q n d db) = ci_jobs db"
  "ci_jobs (add_event k t e db) = ci_jobs db"
  "ci_jobs (release_worker w k db) = ci_jobs db"
  "ci_jobs (set_worker_idle v db) = ci_jobs db"
  "ci_jobs (set_worker_busy v k db) = ci_jobs db"
  "ci_jobs (update_jobs P f db) = update_where P f (ci_jobs db)"
  "ci_repository_queue_state (add_event k t e db) = ci_repository_queue_state db"
  "ci_repository_queue_state (release_worker w k db) = ci_repository_queue_state db"
  "ci_repository_queue_state (set_worker_idle v db) = ci_repository_queue_state db"
  "ci_repository_queue_state (set_worker_busy v k db) = ci_repository_queue_state db"
  "ci_repository_queue_state (update_jobs P f db) = ci_repository_queue_state db"
  by (simp_all add: upsert_repo_queue_state_def add_event_def release_worker_def
      set_worker_idle_def set_worker_busy_def update_jobs_def)

lemma frame_requests [simp]:
  "ci_requests (upsert_repo_queue_state r q n d db) = ci_requests db"
  "ci_requests (add_event k t e db) = ci_requests db"
  "ci_requests (release_worker w k db) = ci_requests db"
  "ci_requests (set_worker_idle v db) = ci_requests db"
  "ci_requests (set_worker_busy v k db) = ci_requests db"
  "ci_requests (update_jobs P f db) = ci_requests db"
  "ci_request_events (upsert_repo_queue_state r q n d db) = ci_request_events db"
  "ci_request_events (add_event k t e db) = ci_request_events db"
  "ci_request_events (release_worker w k db) = ci_request_events db"
  "ci_request_events (set_worker_idle v db) = ci_request_events db"
  "ci_request_events (set_worker_busy v k db) = ci_request_events db"
  "ci_request_events (update_jobs P f db) = ci_request_events db"
  by (simp_all add: upsert_repo_queue_state_def add_event_def release_worker_def
      set_worker_idle_def set_worker_busy_def update_jobs_def)

lemma end_requeue_simps [simp]:
  "j_job_id (end_job st ts j) = j_job_id j" "j_job_id (requeue_job ts j) = j_job_id j"
  "j_repository (end_job st ts j) = j_repository j"
  "j_repository (requeue_job ts j) = j_repository j"
  "j_status (end_job st ts j) = st" "j_status (requeue_job ts j) = JobQueued"
  "j_worker_id (end_job st ts j) = None" "j_worker_id (requeue_job ts j) = None"
  "j_lease_token_hash (end_job st ts j) = None" "j_lease_token_hash (requeue_job ts j) = None"
  "j_lease_expires_at (end_job st ts j) = None" "j_lease_expires_at (requeue_job ts j) = None"
  "j_finished_at (end_job st ts j) = Some ts" "j_finished_at (requeue_job ts j) = j_finished_at j"
  by (simp_all add: end_job_def requeue_job_def)

text \<open>A reconciliation writes the request tables only.\<close>

lemma insert_request_event_frame:
  "insert_request_event rid rv ty a b d db = Inr (n, db') \<Longrightarrow>
    ci_jobs db' = ci_jobs db \<and> ci_requests db' = ci_requests db \<and>
    ci_repository_queue_state db' = ci_repository_queue_state db \<and>
    ci_workers db' = ci_workers db \<and> ci_job_log_chunks db' = ci_job_log_chunks db \<and>
    ci_job_steps db' = ci_job_steps db \<and> ci_job_log_batches db' = ci_job_log_batches db \<and>
    ci_tree_attestations db' = ci_tree_attestations db"
  by (auto simp: insert_request_event_def split: if_splits)

lemma reconcile_frame:
  "reconcile_worker_request_in_db k now db = Inr (b, db') \<Longrightarrow>
    ci_jobs db' = ci_jobs db \<and> ci_repository_queue_state db' = ci_repository_queue_state db \<and>
    ci_workers db' = ci_workers db \<and> ci_job_log_chunks db' = ci_job_log_chunks db \<and>
    ci_job_steps db' = ci_job_steps db \<and> ci_job_log_batches db' = ci_job_log_batches db \<and>
    ci_tree_attestations db' = ci_tree_attestations db"
  by (auto simp: reconcile_worker_request_in_db_def Let_def
      split: option.splits if_splits sum.splits prod.splits dest!: insert_request_event_frame)

section \<open>Counters\<close>

definition repo_queued :: "string \<Rightarrow> ci_db \<Rightarrow> int" where
  "repo_queued repo db =
     int (row_count (\<lambda>j. j_repository j = repo \<and> j_status j = JobQueued) (ci_jobs db))"

definition repo_running :: "string \<Rightarrow> ci_db \<Rightarrow> int" where
  "repo_running repo db =
     int (row_count (\<lambda>j. j_repository j = repo \<and> is_active (j_status j)) (ci_jobs db))"

definition counter_queued :: "string \<Rightarrow> ci_db \<Rightarrow> int" where
  "counter_queued repo db =
     (case row_of q_repository repo (ci_repository_queue_state db) of
        None \<Rightarrow> 0 | Some q \<Rightarrow> q_queued_jobs q)"

definition counter_running :: "string \<Rightarrow> ci_db \<Rightarrow> int" where
  "counter_running repo db =
     (case row_of q_repository repo (ci_repository_queue_state db) of
        None \<Rightarrow> 0 | Some q \<Rightarrow> q_running_jobs q)"

definition counters_exact :: "ci_db \<Rightarrow> bool" where
  "counters_exact db \<longleftrightarrow> (\<forall>repo. counter_queued repo db = repo_queued repo db \<and>
     counter_running repo db = repo_running repo db)"

definition lease_shape :: "job \<Rightarrow> bool" where
  "lease_shape j \<longleftrightarrow>
     (is_active (j_status j) \<or> j_status j = JobQueued \<longrightarrow> j_finished_at j = None) \<and>
     (if is_active (j_status j)
      then j_worker_id j \<noteq> None \<and> j_lease_token_hash j \<noteq> None \<and> j_lease_expires_at j \<noteq> None
      else j_worker_id j = None \<and> j_lease_token_hash j = None \<and> j_lease_expires_at j = None)"

definition jobs_inv :: "ci_db \<Rightarrow> bool" where
  "jobs_inv db \<longleftrightarrow> distinct (map j_job_id (ci_jobs db)) \<and> counters_exact db \<and>
     (\<forall>j \<in> set (ci_jobs db). lease_shape j)"

lemma jobs_inv_empty: "jobs_inv empty_ci_db"
  by (simp add: jobs_inv_def empty_ci_db_def counters_exact_def counter_queued_def
      counter_running_def repo_queued_def repo_running_def)

lemma jobs_invD:
  assumes "jobs_inv db"
  shows "distinct (map j_job_id (ci_jobs db))" and "counters_exact db"
    and "j \<in> set (ci_jobs db) \<Longrightarrow> lease_shape j"
  using assms by (auto simp: jobs_inv_def)

lemma jobs_inv_cong:
  "ci_jobs db' = ci_jobs db \<Longrightarrow> ci_repository_queue_state db' = ci_repository_queue_state db \<Longrightarrow>
    jobs_inv db' = jobs_inv db"
  by (simp add: jobs_inv_def counters_exact_def counter_queued_def counter_running_def
      repo_queued_def repo_running_def)

lemma bump_simps [simp]:
  "q_repository (bump_queue_state qd rd d q) = q_repository q"
  "q_queued_jobs (bump_queue_state qd rd d q) =
     (if qd \<noteq> 0 then max 0 (q_queued_jobs q + qd) else q_queued_jobs q)"
  "q_running_jobs (bump_queue_state qd rd d q) =
     (if rd \<noteq> 0 then max 0 (q_running_jobs q + rd) else q_running_jobs q)"
  by (simp_all add: bump_queue_state_def)

lemma counter_upsert:
  "counter_queued repo (upsert_repo_queue_state r qd rd d db) =
    (if repo = r \<and> qd \<noteq> 0 then max 0 (counter_queued r db + qd) else counter_queued repo db)"
  "counter_running repo (upsert_repo_queue_state r qd rd d db) =
    (if repo = r \<and> rd \<noteq> 0 then max 0 (counter_running r db + rd) else counter_running repo db)"
  by (auto simp: counter_queued_def counter_running_def upsert_repo_queue_state_def
      row_of_update_where row_of_append split: option.splits dest: row_of_key)

lemma upsert_split:
  "upsert_repo_queue_state r 0 rd None (upsert_repo_queue_state r qd 0 None db) =
    upsert_repo_queue_state r qd rd None db"
proof (cases "row_of q_repository r (ci_repository_queue_state db)")
  case None
  then have "\<And>q. q \<in> set (ci_repository_queue_state db) \<Longrightarrow> q_repository q \<noteq> r"
    by (auto simp: row_of_None_iff)
  then have "update_where (\<lambda>q. q_repository q = r) (bump_queue_state 0 rd None)
      (ci_repository_queue_state db) = ci_repository_queue_state db"
    by (rule update_where_none)
  with None show ?thesis
    by (simp add: upsert_repo_queue_state_def table_simps bump_queue_state_def)
next
  case (Some q)
  then show ?thesis
    by (simp add: upsert_repo_queue_state_def row_of_update_where)
      (simp add: update_where_def bump_queue_state_def cong: if_cong)
qed

text \<open>Every operation on one job is an update of its row with the matching counter move.\<close>

lemma jobs_inv_move:
  assumes inv: "jobs_inv db" and row: "job_row k db = Some j"
    and f: "\<And>x. j_job_id (f x) = j_job_id x" "\<And>x. j_repository (f x) = j_repository x"
    and shape: "lease_shape (f j)"
    and qd: "qd = of_bool (j_status (f j) = JobQueued) - of_bool (j_status j = JobQueued)"
    and rd: "rd = of_bool (is_active (j_status (f j))) - of_bool (is_active (j_status j))"
  shows "jobs_inv (upsert_repo_queue_state (j_repository j) qd rd d
           (update_jobs (\<lambda>x. j_job_id x = k) f db))" (is "jobs_inv ?db")
proof -
  note dist = jobs_invD(1) [OF inv]
  from jobs_invD(2) [OF inv] have c: "\<And>repo. counter_queued repo db = repo_queued repo db"
    "\<And>repo. counter_running repo db = repo_running repo db" by (simp_all add: counters_exact_def)
  have q: "repo_queued repo ?db =
      repo_queued repo db + (if repo = j_repository j then qd else 0)" for repo
    using row_count_update_key [OF dist row,
        of "\<lambda>x. j_repository x = repo \<and> j_status x = JobQueued" f]
    by (auto simp: repo_queued_def qd f of_bool_def)
  have r: "repo_running repo ?db =
      repo_running repo db + (if repo = j_repository j then rd else 0)" for repo
    using row_count_update_key [OF dist row,
        of "\<lambda>x. j_repository x = repo \<and> is_active (j_status x)" f]
    by (auto simp: repo_running_def rd f of_bool_def)
  have "repo_queued repo ?db \<ge> 0" "repo_running repo ?db \<ge> 0" for repo
    by (simp_all add: repo_queued_def repo_running_def)
  from this [of "j_repository j"]
  have nonneg: "repo_queued (j_repository j) db + qd \<ge> 0"
    "repo_running (j_repository j) db + rd \<ge> 0" by (simp_all add: q r)
  have cc: "counter_queued repo (update_jobs P g db) = repo_queued repo db"
    "counter_running repo (update_jobs P g db) = repo_running repo db" for repo P g
    using c by (simp_all add: counter_queued_def counter_running_def)
  have "counters_exact ?db"
    unfolding counters_exact_def counter_upsert cc q r
    using nonneg by (auto simp: max_def)
  moreover have "distinct (map j_job_id (ci_jobs ?db))"
    using dist by (simp add: distinct_update_where f)
  moreover have "\<forall>x \<in> set (ci_jobs ?db). lease_shape x"
  proof
    fix x assume "x \<in> set (ci_jobs ?db)"
    then obtain y where y: "y \<in> set (ci_jobs db)" "x = (if j_job_id y = k then f y else y)"
      by (auto simp: set_update_where_iff)
    show "lease_shape x"
    proof (cases "j_job_id y = k")
      case True
      with y(1) dist row have "y = j" using row_of_distinct [OF dist y(1)] by simp
      with y True shape show ?thesis by simp
    qed (use y jobs_invD(3) [OF inv] in simp)
  qed
  ultimately show ?thesis by (simp add: jobs_inv_def)
qed

lemma queue_state_upsert_update [simp]:
  "ci_repository_queue_state (upsert_repo_queue_state r q n d (update_jobs P f db)) =
    ci_repository_queue_state (upsert_repo_queue_state r q n d db)"
  by (simp add: upsert_repo_queue_state_def)

lemma jobs_inv_result:
  assumes "jobs_inv (upsert_repo_queue_state r q n d (update_jobs P f db))"
    and "ci_jobs db' = update_where P f (ci_jobs db)"
    and "ci_repository_queue_state db' =
      ci_repository_queue_state (upsert_repo_queue_state r q n d db)"
  shows "jobs_inv db'"
  using assms by (subst jobs_inv_cong [of _ "upsert_repo_queue_state r q n d (update_jobs P f db)"])
    simp_all

lemma jobs_inv_quiet:
  assumes inv: "jobs_inv db"
    and f: "\<And>x. j_job_id (f x) = j_job_id x" "\<And>x. j_repository (f x) = j_repository x"
    and same: "\<And>x. x \<in> set (ci_jobs db) \<Longrightarrow> P x \<Longrightarrow>
       (j_status (f x) = JobQueued) = (j_status x = JobQueued) \<and>
       is_active (j_status (f x)) = is_active (j_status x) \<and> (lease_shape x \<longrightarrow> lease_shape (f x))"
  shows "jobs_inv (update_jobs P f db)"
proof -
  have count: "row_count (\<lambda>j. j_repository j = repo \<and> C (j_status j)) (update_where P f t) =
      row_count (\<lambda>j. j_repository j = repo \<and> C (j_status j)) t"
    if "\<And>x. x \<in> set t \<Longrightarrow> P x \<Longrightarrow> C (j_status (f x)) = C (j_status x)" for C t repo
    using that by (induction t) (auto simp: f)
  from count [of "ci_jobs db" "\<lambda>st. st = JobQueued"] count [of "ci_jobs db" is_active] same
  have "repo_queued repo (update_jobs P f db) = repo_queued repo db"
    "repo_running repo (update_jobs P f db) = repo_running repo db" for repo
    by (simp_all add: repo_queued_def repo_running_def)
  then show ?thesis
    using inv same unfolding jobs_inv_def
    by (auto simp: counters_exact_def counter_queued_def counter_running_def
        distinct_update_where f set_update_where_iff)
qed

lemma jobs_inv_insert:
  assumes inv: "jobs_inv db" and fresh: "job_row (j_job_id j) db = None"
    and j: "j_status j = JobQueued" "lease_shape j"
  shows "jobs_inv (upsert_repo_queue_state (j_repository j) 1 0 d
           (db\<lparr>ci_jobs := ci_jobs db @ [j]\<rparr>))"
proof -
  from jobs_invD(2) [OF inv] have c: "\<And>repo. counter_queued repo db = repo_queued repo db"
    "\<And>repo. counter_running repo db = repo_running repo db" by (simp_all add: counters_exact_def)
  have cc: "counter_queued repo (db\<lparr>ci_jobs := js\<rparr>) = repo_queued repo db"
    "counter_running repo (db\<lparr>ci_jobs := js\<rparr>) = repo_running repo db" for repo js
    using c by (simp_all add: counter_queued_def counter_running_def)
  show ?thesis
    using inv fresh j unfolding jobs_inv_def
    by (auto simp: counters_exact_def counter_upsert cc repo_queued_def repo_running_def
        row_count_append row_of_None_iff)
qed

section \<open>Each operation keeps the invariant\<close>

lemma lease_held_iff:
  assumes "distinct (map j_job_id (ci_jobs db))"
  shows "lease_held H jid w t now db \<longleftrightarrow>
    (\<exists>j. job_row jid db = Some j \<and> j_worker_id j = Some w \<and> j_lease_token_hash j = Some (H t) \<and>
      sql_gt (j_lease_expires_at j) now \<and> is_active (j_status j))"
  unfolding lease_held_def by (rule row_count_key_1 [OF assms])

text \<open>A guarded write that passes the fence acts on an active job.\<close>

lemma fenced_active:
  assumes "jobs_inv db" and "begin_job_write H jid wid token now db"
    and "wid \<noteq> None \<or> token \<noteq> None"
  obtains j w t where "job_row jid db = Some j" and "wid = Some w" and "token = Some t"
    and "j_worker_id j = Some w" and "j_lease_token_hash j = Some (H t)"
    and "sql_gt (j_lease_expires_at j) now" and "is_active (j_status j)"
proof -
  from assms(2,3) have wt: "truthy wid" "truthy token" "lease_held H jid (the wid) (the token) now db"
    by (auto simp: begin_job_write_def split: if_splits)
  then obtain w t where "wid = Some w" "token = Some t" by (auto elim!: truthyE)
  with wt(3) show ?thesis
    using that by (auto simp: lease_held_iff [OF jobs_invD(1) [OF assms(1)]])
qed

lemma is_active_not_queued [simp]: "is_active st \<Longrightarrow> st \<noteq> JobQueued"
  by auto

lemma active_not_finished: "is_active st \<Longrightarrow> \<not> is_finished st"
  by (cases st) auto

lemma finished_not_live:
  "is_finished st \<Longrightarrow> \<not> is_active st" "is_finished st \<Longrightarrow> st \<noteq> JobQueued"
  by (cases st; simp)+

lemma lease_shape_end: "is_finished st \<Longrightarrow> lease_shape (end_job st ts j)"
  using finished_not_live by (auto simp: lease_shape_def)

lemma lease_shape_requeue:
  "lease_shape j \<Longrightarrow> is_active (j_status j) \<Longrightarrow> lease_shape (requeue_job ts j)"
  by (auto simp: lease_shape_def)

lemma complete_job_inv:
  assumes inv: "jobs_inv db" and st: "is_finished status"
    and guarded: "wid \<noteq> None \<or> token \<noteq> None"
    and run: "complete_job H jid ec status sm ecode emsg wid token ts now db = Inr (b, db')"
  shows "jobs_inv db'"
proof -
  from run have "begin_job_write H jid wid token now db"
    by (auto simp: complete_job_def split: if_splits)
  from fenced_active [OF inv this guarded] obtain j where
    j: "job_row jid db = Some j" "is_active (j_status j)" by metis
  define f where "f = (\<lambda>x. (end_job status ts x)\<lparr>j_exit_code := ec,
     j_summary := (case sm of None \<Rightarrow> None | Some s \<Rightarrow> if json_truthy s then Some s else None),
     j_duration_seconds := Some (elapsed ts (j_started_at j)),
     j_error_code := ecode, j_error_message := emsg\<rparr>)"
  have "lease_shape (f j)"
    using lease_shape_end [OF st, of ts j] by (simp add: f_def lease_shape_def)
  then have "jobs_inv (upsert_repo_queue_state (j_repository j) 0 (- 1) None
      (update_jobs (\<lambda>x. j_job_id x = jid) f db))"
    using j st finished_not_live [OF st]
    by (intro jobs_inv_move [OF inv j(1)]) (auto simp: f_def)
  moreover from run j(1) have "ci_jobs db' = update_where (\<lambda>x. j_job_id x = jid) f (ci_jobs db)"
    "ci_repository_queue_state db' = ci_repository_queue_state
      (upsert_repo_queue_state (j_repository j) 0 (- 1) None db)"
    by (auto simp: complete_job_def Let_def f_def upsert_repo_queue_state_def
        split: if_splits sum.splits dest!: reconcile_frame)
  ultimately show ?thesis by (rule jobs_inv_result)
qed

lemma release_job_inv:
  assumes inv: "jobs_inv db" and guarded: "wid \<noteq> None \<or> token \<noteq> None"
    and run: "release_job H jid wid token now db = Inr (b, db')"
  shows "jobs_inv db'"
proof -
  from run have "begin_job_write H jid wid token now db"
    by (auto simp: release_job_def split: if_splits)
  from fenced_active [OF inv this guarded] obtain j where
    j: "job_row jid db = Some j" "is_active (j_status j)" by metis
  have "lease_shape j" using jobs_invD(3) [OF inv] row_of_SomeD [OF j(1)] by blast
  then have "jobs_inv (upsert_repo_queue_state (j_repository j) 1 (- 1) None
      (update_jobs (\<lambda>x. j_job_id x = jid) (requeue_job now) db))"
    using j by (intro jobs_inv_move [OF inv j(1)]) (auto simp: lease_shape_requeue)
  then show ?thesis
    using run j(1)
    by (subst jobs_inv_cong)
      (auto simp: release_job_def upsert_repo_queue_state_def split: if_splits)
qed

text \<open>The move of a queued job to another state, as \<open>lease_job\<close>, cancel and supersede make it.\<close>

lemma jobs_inv_queued_move:
  assumes inv: "jobs_inv db" and row: "job_row k db = Some j" "j_status j = JobQueued"
    and f: "\<And>x. j_job_id (f x) = j_job_id x" "\<And>x. j_repository (f x) = j_repository x"
    and shape: "lease_shape (f j)" and st: "j_status (f j) \<noteq> JobQueued"
    and rd: "rd = of_bool (is_active (j_status (f j)))"
  shows "jobs_inv (upsert_repo_queue_state (j_repository j) (- 1) rd d
           (update_jobs (\<lambda>x. j_job_id x = k \<and> j_status x = JobQueued) f db))"
proof -
  have eq: "update_jobs (\<lambda>x. j_job_id x = k \<and> j_status x = JobQueued) f db =
      update_jobs (\<lambda>x. j_job_id x = k) f db"
    using update_where_conj_key [OF jobs_invD(1) [OF inv] row(1),
        of "\<lambda>x. j_status x = JobQueued" f] row(2)
    by (simp add: update_jobs_def)
  show ?thesis
    unfolding eq using row st rd by (intro jobs_inv_move [OF inv row(1) f shape]) auto
qed

lemma find_row_of:
  assumes "distinct (map j_job_id t)" and "List.find (\<lambda>j. j_job_id j = k \<and> Q j) t = Some j"
  shows "row_of j_job_id k t = Some j" and "Q j"
proof -
  from assms(2) have "j \<in> set t" "j_job_id j = k" "Q j"
    by (auto simp: find_Some_iff in_set_conv_nth)
  with assms(1) show "row_of j_job_id k t = Some j" "Q j" by (auto intro: row_of_distinct)
qed

lemma lease_candidateD:
  assumes "lease_candidate ps db = Some j"
  shows "j \<in> set (ci_jobs db)" and "j_status j = JobQueued" and "j_profile j \<in> set ps"
proof -
  from assms obtain xs where eq: "sort_key (lease_key db)
      (filter (\<lambda>j. j_status j = JobQueued \<and> j_profile j \<in> set ps) (ci_jobs db)) = j # xs"
    by (auto simp: lease_candidate_def split: list.splits)
  from first_of_sort(1) [OF eq]
  show "j \<in> set (ci_jobs db)" "j_status j = JobQueued" "j_profile j \<in> set ps" by auto
qed

lemma lease_job_inv:
  assumes inv: "jobs_inv db"
  shows "jobs_inv (snd (lease_job H wid ps maxc token ts db))"
proof (cases "fst (lease_job H wid ps maxc token ts db)")
  case None
  then show ?thesis
    using inv by (auto simp: lease_job_def Let_def split: if_splits option.splits)
next
  case (Some g)
  define f where "f = (\<lambda>j :: job. j\<lparr>j_status := JobLeased, j_worker_id := Some wid,
    j_lease_token_hash := Some (H token), j_lease_expires_at := Some (ts + 120),
    j_attempts := j_attempts j + 1, j_started_at := Some ts\<rparr>)"
  from Some obtain row where cand: "lease_candidate ps db = Some row"
    and db': "snd (lease_job H wid ps maxc token ts db) =
      add_event (j_job_id row) ''leased''
        (JObj [(''worker_id'', JStr wid), (''attempt'', JInt (j_attempts row + 1))])
        (set_worker_busy wid (j_job_id row) (upsert_repo_queue_state (j_repository row) (-1) 1
          (Some ts) (update_jobs (\<lambda>j. j_job_id j = j_job_id row \<and> j_status j = JobQueued) f db)))"
    by (auto simp: lease_job_def Let_def f_def split: if_splits option.splits)
  note c = lease_candidateD [OF cand]
  have row: "job_row (j_job_id row) db = Some row"
    using c(1) jobs_invD(1) [OF inv] by (intro row_of_distinct) auto
  from jobs_invD(3) [OF inv c(1)] c(2) have "lease_shape (f row)"
    by (simp add: lease_shape_def f_def)
  then have "jobs_inv (upsert_repo_queue_state (j_repository row) (-1) 1 (Some ts)
      (update_jobs (\<lambda>j. j_job_id j = j_job_id row \<and> j_status j = JobQueued) f db))"
    by (intro jobs_inv_queued_move [OF inv row c(2)]) (simp_all add: f_def)
  then show ?thesis unfolding db' by (subst jobs_inv_cong) simp_all
qed

lemma cancel_queued_job_inv:
  assumes inv: "jobs_inv db" and run: "cancel_queued_job jid now db = Inr (b, db')"
  shows "jobs_inv db'"
proof (cases "List.find (\<lambda>j. j_job_id j = jid \<and> j_status j = JobQueued) (ci_jobs db)")
  case None
  with run inv show ?thesis by (simp add: cancel_queued_job_def Let_def)
next
  case (Some j)
  note row = find_row_of [OF jobs_invD(1) [OF inv] Some]
  have "jobs_inv (upsert_repo_queue_state (j_repository j) (-1) 0 None
      (update_jobs (\<lambda>j. j_job_id j = jid \<and> j_status j = JobQueued) (end_job JobCancelled now) db))"
    by (rule jobs_inv_queued_move [OF inv row]) (simp_all add: lease_shape_end)
  moreover have "db' = db \<or> ci_jobs db' =
      update_where (\<lambda>j. j_job_id j = jid \<and> j_status j = JobQueued) (end_job JobCancelled now) (ci_jobs db)
     \<and> ci_repository_queue_state db' = ci_repository_queue_state
          (upsert_repo_queue_state (j_repository j) (-1) 0 None db)"
    using run Some by (auto simp: cancel_queued_job_def Let_def upsert_repo_queue_state_def
        split: if_splits sum.splits dest!: reconcile_frame)
  ultimately show ?thesis using inv by (auto intro: jobs_inv_result)
qed

lemma jobs_inv_active_quiet:
  assumes "jobs_inv db" and "\<And>x. P x \<Longrightarrow> is_active (j_status x)"
    and "\<And>x. j_job_id (f x) = j_job_id x" "\<And>x. j_repository (f x) = j_repository x"
    and "\<And>x. is_active (j_status x) \<Longrightarrow> is_active (j_status (f x))"
    and "\<And>x. j_worker_id (f x) = j_worker_id x" "\<And>x. j_lease_token_hash (f x) = j_lease_token_hash x"
    and "\<And>x. j_lease_expires_at x \<noteq> None \<Longrightarrow> j_lease_expires_at (f x) \<noteq> None"
    and "\<And>x. j_finished_at (f x) = j_finished_at x"
  shows "jobs_inv (update_jobs P f db)"
proof (rule jobs_inv_quiet [OF assms(1,3,4)], intro conjI)
  fix x assume "P x"
  with assms(2) have a: "is_active (j_status x)" by blast
  with assms(5) have b: "is_active (j_status (f x))" by blast
  from a b show "(j_status (f x) = JobQueued) = (j_status x = JobQueued)" by auto
  from a b show "is_active (j_status (f x)) = is_active (j_status x)" by simp
  from a b show "lease_shape x \<longrightarrow> lease_shape (f x)" by (simp add: lease_shape_def assms(6-))
qed

lemma request_cancel_job_inv:
  "jobs_inv db \<Longrightarrow> jobs_inv (snd (request_cancel_job jid db))"
  by (auto simp: request_cancel_job_def Let_def intro!: jobs_inv_active_quiet
      jobs_inv_cong [THEN iffD2, of "add_event _ _ _ _" "update_jobs _ _ _"])

lemma renew_lease_inv: "jobs_inv db \<Longrightarrow> jobs_inv (snd (renew_lease H jid token wid ts db))"
  by (auto simp: renew_lease_def Let_def intro!: jobs_inv_active_quiet)

lemma set_job_status_inv:
  assumes inv: "jobs_inv db" and st: "is_active status"
    and guarded: "wid \<noteq> None \<or> token \<noteq> None"
    and run: "set_job_status H jid status wid token now db = Inr (b, db')"
  shows "jobs_inv db'"
proof -
  let ?hit = "\<lambda>j. j_job_id j = jid \<and>
     (status = JobRunning \<longrightarrow> j_status j = JobDownloading \<or> j_status j = JobPreparing)"
  from run have "begin_job_write H jid wid token now db"
    by (auto simp: set_job_status_def split: if_splits)
  from fenced_active [OF inv this guarded] obtain j where
    j: "job_row jid db = Some j" "is_active (j_status j)" by metis
  have only: "x = j" if "x \<in> set (ci_jobs db)" "j_job_id x = jid" for x
    using row_of_distinct [OF jobs_invD(1) [OF inv] that] j(1) by simp
  have "jobs_inv (update_jobs ?hit (\<lambda>j. j\<lparr>j_status := status\<rparr>) db)"
  proof (rule jobs_inv_quiet [OF inv])
    fix x assume "x \<in> set (ci_jobs db)" "?hit x"
    with only j(2) have "is_active (j_status x)" by blast
    with st show "(j_status (x\<lparr>j_status := status\<rparr>) = JobQueued) = (j_status x = JobQueued) \<and>
       is_active (j_status (x\<lparr>j_status := status\<rparr>)) = is_active (j_status x) \<and>
       (lease_shape x \<longrightarrow> lease_shape (x\<lparr>j_status := status\<rparr>))"
      by (auto simp: lease_shape_def)
  qed simp_all
  moreover from run have
    "ci_jobs db' = update_where ?hit (\<lambda>j. j\<lparr>j_status := status\<rparr>) (ci_jobs db) \<and>
     ci_repository_queue_state db' = ci_repository_queue_state db"
    by (auto simp: set_job_status_def Let_def split: if_splits sum.splits dest!: reconcile_frame)
  ultimately show ?thesis by (subst jobs_inv_cong) simp_all
qed

lemma set_job_source_downloaded_inv:
  assumes inv: "jobs_inv db"
    and run: "set_job_source_downloaded H jid sha n wid token now db = Inr (b, db')"
  shows "jobs_inv db'"
proof -
  let ?f = "\<lambda>j. j\<lparr>j_source_sha256 := Some sha, j_source_size_bytes := Some n,
     j_status := JobDownloading\<rparr>"
  from run have "begin_job_write H jid (Some wid) (Some token) now db"
    by (auto simp: set_job_source_downloaded_def split: if_splits)
  from fenced_active [OF inv this] obtain j where
    j: "job_row jid db = Some j" "is_active (j_status j)" by auto
  have only: "x = j" if "x \<in> set (ci_jobs db)" "j_job_id x = jid" for x
    using row_of_distinct [OF jobs_invD(1) [OF inv] that] j(1) by simp
  have "jobs_inv (update_jobs (\<lambda>j. j_job_id j = jid) ?f db)"
  proof (rule jobs_inv_quiet [OF inv])
    fix x assume "x \<in> set (ci_jobs db)" "j_job_id x = jid"
    with only j(2) have "is_active (j_status x)" by blast
    then show "(j_status (?f x) = JobQueued) = (j_status x = JobQueued) \<and>
       is_active (j_status (?f x)) = is_active (j_status x) \<and>
       (lease_shape x \<longrightarrow> lease_shape (?f x))"
      by (auto simp: lease_shape_def)
  qed simp_all
  with run show ?thesis
    by (subst jobs_inv_cong) (auto simp: set_job_source_downloaded_def split: if_splits)
qed

lemma set_job_source_info_inv: "jobs_inv db \<Longrightarrow> jobs_inv (set_job_source_info jid sha n db)"
  unfolding set_job_source_info_def
  by (rule jobs_inv_quiet) (auto simp: lease_shape_def)

section \<open>Recovery loops\<close>

text \<open>The rows a recovery loop fetched are still the stored rows when their turn comes.\<close>

definition rows_current :: "job list \<Rightarrow> ci_db \<Rightarrow> bool" where
  "rows_current rows db \<longleftrightarrow> distinct (map j_job_id rows) \<and>
     (\<forall>r \<in> set rows. job_row (j_job_id r) db = Some r \<and> is_active (j_status r))"

lemma rows_current_filter:
  "jobs_inv db \<Longrightarrow> (\<And>j. P j \<Longrightarrow> is_active (j_status j)) \<Longrightarrow>
    rows_current (filter P (ci_jobs db)) db"
  using jobs_invD(1) [of db]
  by (auto simp: rows_current_def distinct_map_filter intro: row_of_distinct)

lemma rows_current_step:
  assumes "rows_current (r # rs) db" and "\<And>x. j_job_id (f x) = j_job_id x"
    and "ci_jobs db' = update_where (\<lambda>x. j_job_id x = j_job_id r) f (ci_jobs db)"
  shows "rows_current rs db'"
proof -
  have "job_row (j_job_id r') db' = Some r'" if "r' \<in> set rs" for r'
  proof -
    from assms(1) that have "j_job_id r \<noteq> j_job_id r'" "job_row (j_job_id r') db = Some r'"
      by (auto simp: rows_current_def image_iff)
    then show ?thesis
      using row_of_update_key_other [of j_job_id f, OF assms(2), of "j_job_id r" "j_job_id r'"]
      by (simp add: assms(3))
  qed
  with assms(1) show ?thesis by (simp add: rows_current_def)
qed

lemma end_or_requeue_move:
  assumes inv: "jobs_inv db" and row: "job_row (j_job_id r) db = Some r" "is_active (j_status r)"
  shows "jobs_inv (upsert_repo_queue_state (j_repository r) 0 (-1) None
      (update_jobs (\<lambda>j. j_job_id j = j_job_id r) (end_job JobWorkerLost ts) db))"
    and "jobs_inv (upsert_repo_queue_state (j_repository r) 1 (-1) None
      (update_jobs (\<lambda>j. j_job_id j = j_job_id r) (requeue_job ts) db))"
proof -
  have shape: "lease_shape r" using jobs_invD(3) [OF inv] row_of_SomeD [OF row(1)] by blast
  show "jobs_inv (upsert_repo_queue_state (j_repository r) 0 (-1) None
      (update_jobs (\<lambda>j. j_job_id j = j_job_id r) (end_job JobWorkerLost ts) db))"
    using row by (intro jobs_inv_move [OF inv row(1)]) (auto simp: lease_shape_end)
  show "jobs_inv (upsert_repo_queue_state (j_repository r) 1 (-1) None
      (update_jobs (\<lambda>j. j_job_id j = j_job_id r) (requeue_job ts) db))"
    using row shape by (intro jobs_inv_move [OF inv row(1)]) (auto simp: lease_shape_requeue)
qed

lemma recover_worker_row_inv:
  assumes inv: "jobs_inv db" and cur: "rows_current (r # rs) db"
  shows "jobs_inv (recover_worker_row wid ts r db)"
    and "rows_current rs (recover_worker_row wid ts r db)"
proof -
  from cur have row: "job_row (j_job_id r) db = Some r" "is_active (j_status r)"
    by (simp_all add: rows_current_def)
  note moves = end_or_requeue_move [OF inv row, of ts]
  show "jobs_inv (recover_worker_row wid ts r db)"
    using moves(1) [THEN jobs_inv_result] moves(2) [THEN jobs_inv_result]
    by (simp add: recover_worker_row_def)
  show "rows_current rs (recover_worker_row wid ts r db)"
    by (rule rows_current_step [OF cur,
          where f = "if j_attempts r \<ge> j_max_attempts r then end_job JobWorkerLost ts else requeue_job ts"])
      (auto simp: recover_worker_row_def)
qed

lemma recover_worker_rows_inv:
  "jobs_inv db \<Longrightarrow> rows_current rs db \<Longrightarrow> jobs_inv (fold (recover_worker_row wid ts) rs db)"
  by (induction rs arbitrary: db) (auto intro: recover_worker_row_inv)

lemma recover_worker_jobs_inv: "jobs_inv db \<Longrightarrow> jobs_inv (snd (recover_worker_jobs wid ts db))"
  unfolding recover_worker_jobs_def owned_active_rows_def snd_conv
  by (subst jobs_inv_cong [of _ "fold (recover_worker_row wid ts) _ db"])
    (auto intro: recover_worker_rows_inv rows_current_filter)

lemma recover_expired_row_inv:
  assumes inv: "jobs_inv db" and cur: "rows_current (r # rs) db"
    and run: "recover_expired_row ts r db = Inr (b, db')"
  shows "jobs_inv db'" and "rows_current rs db'"
proof -
  from cur have row: "job_row (j_job_id r) db = Some r" "is_active (j_status r)"
    by (simp_all add: rows_current_def)
  note moves = end_or_requeue_move [OF inv row, of ts]
  let ?f = "if j_attempts r \<ge> j_max_attempts r then end_job JobWorkerLost ts else requeue_job ts"
  let ?q = "if j_attempts r \<ge> j_max_attempts r then 0 else 1 :: int"
  have jobs: "ci_jobs db' = update_where (\<lambda>x. j_job_id x = j_job_id r) ?f (ci_jobs db)"
    using run by (auto simp: recover_expired_row_def Let_def dest!: reconcile_frame)
  have queue: "ci_repository_queue_state db' =
      ci_repository_queue_state (upsert_repo_queue_state (j_repository r) ?q (-1) None db)"
    using run by (auto simp: recover_expired_row_def Let_def upsert_split dest!: reconcile_frame)
  show "jobs_inv db'"
  proof (cases "j_attempts r \<ge> j_max_attempts r")
    case True
    with jobs queue show ?thesis by (intro jobs_inv_result [OF moves(1)]) simp_all
  next
    case False
    with jobs queue show ?thesis by (intro jobs_inv_result [OF moves(2)]) simp_all
  qed
  show "rows_current rs db'"
    by (rule rows_current_step [OF cur _ jobs]) simp
qed

lemma recover_expired_rows_inv:
  "jobs_inv db \<Longrightarrow> rows_current rs db \<Longrightarrow> recover_expired_rows ts rs db = Inr (n, db') \<Longrightarrow>
    jobs_inv db'"
proof (induction rs arbitrary: db n)
  case (Cons r rs)
  from Cons.prems(3) obtain b db1 m where
    step: "recover_expired_row ts r db = Inr (b, db1)" "recover_expired_rows ts rs db1 = Inr (m, db')"
    by (auto split: sum.splits)
  from recover_expired_row_inv [OF Cons.prems(1,2) step(1)] step(2) show ?case
    by (blast intro: Cons.IH)
qed simp

lemma recover_expired_leases_inv:
  "jobs_inv db \<Longrightarrow> recover_expired_leases ts db = Inr (n, db') \<Longrightarrow> jobs_inv db'"
  unfolding recover_expired_leases_def expired_rows_def
  by (rule recover_expired_rows_inv) (auto intro: rows_current_filter)

section \<open>Starts and clean-up\<close>

lemma supersede_one_inv:
  assumes inv: "jobs_inv db" and row: "job_row (j_job_id old) db = Some j" "j_status j = JobQueued"
    and repo: "j_repository j = j_repository old"
  shows "jobs_inv (supersede_one new_id sha ts old db)"
proof -
  let ?f = "\<lambda>j. (end_job JobSuperseded ts j)\<lparr>j_superseded_by_job_id := Some new_id\<rparr>"
  have "lease_shape (?f j)"
    using lease_shape_end [of JobSuperseded ts j] by (simp add: lease_shape_def)
  then have "jobs_inv (upsert_repo_queue_state (j_repository j) (-1) 0 None
      (update_jobs (\<lambda>x. j_job_id x = j_job_id old \<and> j_status x = JobQueued) ?f db))"
    by (intro jobs_inv_queued_move [OF inv row]) simp_all
  then show ?thesis
    unfolding repo supersede_one_def by (rule jobs_inv_result) simp_all
qed

text \<open>What stays true of a job when others are superseded: its identity columns.\<close>

lemma supersede_rows_inv:
  assumes "jobs_inv db"
    and "\<forall>old \<in> set olds. \<forall>j \<in> set (ci_jobs db). j_job_id j = j_job_id old \<longrightarrow>
      j_repository j = j_repository old"
  shows "jobs_inv (snd (supersede_rows new_id sha ts olds db))"
  using assms
proof (induction olds arbitrary: db)
  case (Cons old olds)
  show ?case
  proof (cases "row_count (\<lambda>j. j_job_id j = j_job_id old \<and> j_status j = JobQueued) (ci_jobs db) = 1")
    case False
    from Cons.IH [OF Cons.prems(1)] Cons.prems(2)
    have "jobs_inv (snd (supersede_rows new_id sha ts olds db))" by (meson list.set_intros(2))
    with False show ?thesis by simp
  next
    case True
    from row_count_key_1 [OF jobs_invD(1) [OF Cons.prems(1)], THEN iffD1, OF True] obtain j where
      j: "job_row (j_job_id old) db = Some j" "j_status j = JobQueued" by blast
    from row_of_SomeD [OF j(1)] Cons.prems(2) have "j_repository j = j_repository old"
      by (meson list.set_intros(1))
    from supersede_one_inv [OF Cons.prems(1) j this]
    have "jobs_inv (supersede_one new_id sha ts old db)" .
    then have "jobs_inv (snd (supersede_rows new_id sha ts olds (supersede_one new_id sha ts old db)))"
    proof (rule Cons.IH)
      show "\<forall>old' \<in> set olds. \<forall>j \<in> set (ci_jobs (supersede_one new_id sha ts old db)).
          j_job_id j = j_job_id old' \<longrightarrow> j_repository j = j_repository old'"
        using Cons.prems(2) by (auto simp: supersede_one_def set_update_where_iff)
    qed
    with True show ?thesis by (simp add: case_prod_unfold Let_def)
  qed
qed simp

lemma superseded_rows_subset: "set (superseded_rows a db) \<subseteq> set (ci_jobs db)"
  by (auto simp: superseded_rows_def)

lemma create_or_get_job_inv:
  assumes inv: "jobs_inv db"
    and run: "create_or_get_job_in_transaction a jid ts now db = Inr (r, db')"
  shows "jobs_inv db'"
proof (cases "if sa_force_rerun a then None else reusable_job (sa_idem_key a) db")
  case (Some row)
  with run inv show ?thesis by (simp add: create_or_get_job_in_transaction_def)
next
  case None
  let ?s = "if sa_supersede_previous a
    then supersede_rows jid (sa_commit_sha a) ts (superseded_rows a db) db else ([], db)"
  have same: "\<forall>old \<in> set (superseded_rows a db). \<forall>j \<in> set (ci_jobs db).
      j_job_id j = j_job_id old \<longrightarrow> j_repository j = j_repository old"
  proof (intro ballI impI)
    fix old j assume "old \<in> set (superseded_rows a db)" "j \<in> set (ci_jobs db)"
      "j_job_id j = j_job_id old"
    with superseded_rows_subset jobs_invD(1) [OF inv] have "j = old"
      by (metis in_mono option.inject row_of_distinct)
    then show "j_repository j = j_repository old" by simp
  qed
  have mid: "jobs_inv (snd ?s)" using supersede_rows_inv [OF inv same] inv by simp
  from run None have fresh: "job_row jid (snd ?s) = None"
    and db': "db' = upsert_repo_queue_state (sa_repository a) 1 0 None
       ((snd ?s)\<lparr>ci_jobs := ci_jobs (snd ?s) @ [new_job a jid ts]\<rparr>)"
    by (auto simp: create_or_get_job_in_transaction_def Let_def case_prod_unfold split: if_splits)
  show ?thesis
    unfolding db' using jobs_inv_insert [OF mid, of "new_job a jid ts" None] fresh
    by (simp add: new_job_def lease_shape_def)
qed

lemma cleanup_old_jobs_inv:
  assumes inv: "jobs_inv db"
  shows "jobs_inv (cleanup_old_jobs h now db)"
proof -
  define cut where "cut = now - of_int (h * 3600)"
  have "row_count (\<lambda>j. j_repository j = repo \<and> C (j_status j))
         (filter (\<lambda>j. \<not> sql_lt (j_finished_at j) cut) (ci_jobs db)) =
      row_count (\<lambda>j. j_repository j = repo \<and> C (j_status j)) (ci_jobs db)"
    if "\<And>st. C st \<Longrightarrow> is_active st \<or> st = JobQueued" for repo C
  proof (rule row_count_filter)
    fix x assume x: "x \<in> set (ci_jobs db)" "j_repository x = repo \<and> C (j_status x)"
    with that jobs_invD(3) [OF inv x(1)] have "j_finished_at x = None"
      unfolding lease_shape_def by blast
    then show "\<not> sql_lt (j_finished_at x) cut" by simp
  qed
  from this [of "\<lambda>st. st = JobQueued"] this [of is_active] inv
  show ?thesis
    by (auto simp: jobs_inv_def counters_exact_def counter_queued_def counter_running_def
        repo_queued_def repo_running_def cleanup_old_jobs_def Let_def cut_def distinct_map_filter)
qed

end
