(* ===== verification/CI_Requests.thy ===== *)
theory CI_Requests
  imports CI_Job_Invariant
begin

text \<open>
  The durable requests of \<open>app/ci_request_store.py\<close>: creation under an idempotency key,
  dispatch to a worker job, compare-and-swap transitions and the legacy projection at startup.
\<close>

section \<open>Identity checks\<close>

definition validate_new_request_identity ::
  "string \<Rightarrow> string \<Rightarrow> string option \<Rightarrow> string \<Rightarrow> string \<Rightarrow> string \<Rightarrow> string \<Rightarrow> bool" where
  "validate_new_request_identity repository commit_sha tree_sha profile digest key hash \<longleftrightarrow>
     repository \<noteq> [] \<and> CHR ''/'' \<in> set repository \<and> is_sha commit_sha \<and>
     (case tree_sha of None \<Rightarrow> True | Some t \<Rightarrow> is_sha t) \<and>
     profile \<noteq> [] \<and> digest \<noteq> [] \<and> key \<noteq> [] \<and> is_sha256 hash"

text \<open>The value of an identity field; \<open>None\<close> for a name outside \<open>_IDENTITY_FIELDS\<close>.\<close>

definition identity_field :: "string \<Rightarrow> ci_request \<Rightarrow> string option option" where
  "identity_field f r =
     (if f = ''repository'' then Some (Some (r_repository r))
      else if f = ''branch'' then Some (Some (r_branch r))
      else if f = ''commit_sha'' then Some (Some (r_commit_sha r))
      else if f = ''tree_sha'' then Some (r_tree_sha r)
      else if f = ''profile'' then Some (Some (r_profile r))
      else if f = ''effective_config_digest'' then Some (r_effective_config_digest r)
      else None)"

fun assert_identity :: "ci_request \<Rightarrow> (string \<times> string option) list \<Rightarrow> ci_error option" where
  "assert_identity r [] = None"
| "assert_identity r ((f, expected) # fs) =
     (case identity_field f r of
        None \<Rightarrow> Some ValueError
      | Some actual \<Rightarrow>
          if actual \<noteq> expected then Some CIRequestIdentityMismatch else assert_identity r fs)"

definition assert_worker_job_identity :: "ci_db \<Rightarrow> ci_request \<Rightarrow> string \<Rightarrow> ci_error option" where
  "assert_worker_job_identity db r wid =
     (case job_row wid db of
        None \<Rightarrow> Some CIRequestIdentityMismatch
      | Some j \<Rightarrow> if same_job_identity r j then None else Some CIRequestIdentityMismatch)"

text \<open>
  The constraints on \<open>worker_job_id\<close> that SQLite checks on every write: unique, and a
  reference to a stored job.
\<close>

definition worker_binding_ok :: "string \<Rightarrow> string option \<Rightarrow> ci_db \<Rightarrow> bool" where
  "worker_binding_ok rid w db =
     (case w of
        None \<Rightarrow> True
      | Some k \<Rightarrow> job_row k db \<noteq> None \<and>
          list_all (\<lambda>r. r_request_id r = rid \<or> r_worker_job_id r \<noteq> Some k) (ci_requests db))"

section \<open>Creating a request\<close>

record request_args =
  ra_repository :: string
  ra_branch :: string
  ra_commit_sha :: string
  ra_tree_sha :: "string option"
  ra_profile :: string
  ra_effective_config_digest :: string
  ra_normalized_request_hash :: string
  ra_request_payload :: "(string \<times> json) list"

definition expected_identity :: "request_args \<Rightarrow> (string \<times> string option) list" where
  "expected_identity a =
     [(''repository'', Some (ra_repository a)), (''branch'', Some (ra_branch a)),
      (''commit_sha'', Some (ra_commit_sha a))] @
     (if ra_tree_sha a = None then [] else [(''tree_sha'', ra_tree_sha a)]) @
     [(''profile'', Some (ra_profile a)),
      (''effective_config_digest'', Some (ra_effective_config_digest a))]"

definition new_request :: "request_args \<Rightarrow> string \<Rightarrow> string \<Rightarrow> time \<Rightarrow> ci_request" where
  "new_request a key rid now =
     \<lparr>r_request_id = rid, r_repository = ra_repository a, r_branch = ra_branch a,
      r_commit_sha = ra_commit_sha a, r_tree_sha = ra_tree_sha a, r_profile = ra_profile a,
      r_effective_config_digest = Some (ra_effective_config_digest a), r_status = RqAccepted,
      r_phase = PhAccepted, r_revision = 0, r_idempotency_key = Some key,
      r_normalized_request_hash = Some (ra_normalized_request_hash a), r_worker_job_id = None,
      r_preflight_error_id = None, r_preflight_error_code = None, r_terminal_reason = None,
      r_failure_pack_id = None, r_attestation_id = None, r_created_at = now,
      r_updated_at = now, r_last_event_id = None\<rparr>"

text \<open>The result is the request row and whether it was already there.\<close>

definition create_or_get_ci_request ::
  "string \<Rightarrow> request_args \<Rightarrow> string \<Rightarrow> time \<Rightarrow> ci_db \<Rightarrow>
     ci_error + ((ci_request \<times> bool) \<times> ci_db)" where
  "create_or_get_ci_request key a rid now db =
     (if \<not> validate_new_request_identity (ra_repository a) (ra_commit_sha a) (ra_tree_sha a)
            (ra_profile a) (ra_effective_config_digest a) key (ra_normalized_request_hash a)
      then Inl ValueError
      else case row_of r_idempotency_key (Some key) (ci_requests db) of
        Some existing \<Rightarrow>
          (if r_normalized_request_hash existing \<noteq> Some (ra_normalized_request_hash a)
           then Inl CIRequestIdempotencyConflict
           else (case assert_identity existing (expected_identity a) of
                   Some e \<Rightarrow> Inl e
                 | None \<Rightarrow> Inr ((existing, True), db)))
      | None \<Rightarrow>
          (if request_row rid db \<noteq> None then Inl IntegrityError
           else (case insert_request_event rid 0 ''accepted'' None (PhAccepted, RqAccepted)
                   (JObj [(''request_payload'', JObj (ra_request_payload a))])
                   (db\<lparr>ci_requests := ci_requests db @ [new_request a key rid now]\<rparr>) of
                Inl e \<Rightarrow> Inl e
              | Inr (ev, db1) \<Rightarrow>
                  Inr (((new_request a key rid now)\<lparr>r_last_event_id := Some ev\<rparr>, False),
                    db1\<lparr>ci_requests := update_where (\<lambda>r. r_request_id r = rid \<and> r_revision r = 0)
                          (\<lambda>r. r\<lparr>r_last_event_id := Some ev\<rparr>) (ci_requests db1)\<rparr>))))"

section \<open>Transitions\<close>

record transition_args =
  ta_expected_identity :: "(string \<times> string option) list"
  ta_worker_job_id :: "string option"
  ta_preflight_error_id :: "string option"
  ta_preflight_error_code :: "string option"
  ta_terminal_reason :: "string option"
  ta_failure_pack_id :: "string option"
  ta_attestation_id :: "string option"
  ta_event_data :: "(string \<times> json) list"

definition no_transition_args :: transition_args where
  "no_transition_args = \<lparr>ta_expected_identity = [], ta_worker_job_id = None,
     ta_preflight_error_id = None, ta_preflight_error_code = None, ta_terminal_reason = None,
     ta_failure_pack_id = None, ta_attestation_id = None, ta_event_data = []\<rparr>"

definition validate_transition_metadata :: "request_state \<Rightarrow> transition_args \<Rightarrow> bool" where
  "validate_transition_metadata target a \<longleftrightarrow>
     \<not> ((truthy (ta_preflight_error_id a) \<or> truthy (ta_preflight_error_code a)) \<and>
         snd target \<noteq> RqPreflightFailed) \<and>
     \<not> (snd target = RqPreflightFailed \<and> \<not> truthy (ta_preflight_error_code a)) \<and>
     \<not> (truthy (ta_terminal_reason a) \<and> fst target \<noteq> PhTerminal) \<and>
     \<not> (truthy (ta_failure_pack_id a) \<and> fst target \<noteq> PhTerminal) \<and>
     \<not> (truthy (ta_attestation_id a) \<and> snd target \<noteq> RqPassed)"

definition apply_transition ::
  "request_state \<Rightarrow> transition_args \<Rightarrow> nat \<Rightarrow> time \<Rightarrow> ci_request \<Rightarrow> ci_request" where
  "apply_transition target a ev now r =
     r\<lparr>r_phase := fst target, r_status := snd target, r_revision := r_revision r + 1,
       r_updated_at := now, r_last_event_id := Some ev,
       r_worker_job_id := coalesce (ta_worker_job_id a) (r_worker_job_id r),
       r_preflight_error_id := coalesce (ta_preflight_error_id a) (r_preflight_error_id r),
       r_preflight_error_code := coalesce (ta_preflight_error_code a) (r_preflight_error_code r),
       r_terminal_reason := coalesce (ta_terminal_reason a) (r_terminal_reason r),
       r_failure_pack_id := coalesce (ta_failure_pack_id a) (r_failure_pack_id r),
       r_attestation_id := coalesce (ta_attestation_id a) (r_attestation_id r)\<rparr>"

text \<open>The guards between the revision check and the write, in the code's order.\<close>

definition transition_guard ::
  "ci_db \<Rightarrow> ci_request \<Rightarrow> request_state \<Rightarrow> transition_args \<Rightarrow> ci_error option" where
  "transition_guard db r target a =
     (case assert_identity r (ta_expected_identity a) of
        Some e \<Rightarrow> Some e
      | None \<Rightarrow>
     (if target \<notin> set (allowed_transitions (request_state r)) then Some CIRequestTransition
      else let eff = py_or (ta_worker_job_id a) (r_worker_job_id r)
      in if fst target \<in> {PhQueued, PhRunning} \<and> \<not> truthy eff then Some CIRequestTransition
      else (case (if truthy eff then assert_worker_job_identity db r (the eff) else None) of
        Some e \<Rightarrow> Some e
      | None \<Rightarrow>
          if truthy eff \<and> truthy (r_worker_job_id r) \<and> r_worker_job_id r \<noteq> eff
          then Some CIRequestIdentityMismatch
          else if \<not> validate_transition_metadata target a then Some CIRequestTransition
          else None)))"

definition transition_ci_request ::
  "string \<Rightarrow> int \<Rightarrow> request_state \<Rightarrow> transition_args \<Rightarrow> time \<Rightarrow> ci_db \<Rightarrow>
     ci_error + (ci_request \<times> ci_db)" where
  "transition_ci_request rid expected target a now db =
     (if target \<notin> set valid_phase_status then Inl CIRequestTransition
      else (case request_row rid db of
        None \<Rightarrow> Inl CIRequestNotFound
      | Some r \<Rightarrow>
      if int (r_revision r) \<noteq> expected then Inl CIRequestRevisionConflict
      else (case transition_guard db r target a of
        Some e \<Rightarrow> Inl e
      | None \<Rightarrow>
      (case insert_request_event rid (r_revision r + 1) ''transition'' (Some (request_state r))
              target (JObj (ta_event_data a)) db of
         Inl e \<Rightarrow> Inl e
       | Inr (ev, db1) \<Rightarrow>
           let hit = (\<lambda>x. r_request_id x = rid \<and> int (r_revision x) = expected \<and>
                 request_state x = request_state r)
           in if \<not> worker_binding_ok rid (ta_worker_job_id a) db1
              then Inl IntegrityError
              else if row_count hit (ci_requests db1) \<noteq> 1 then Inl CIRequestRevisionConflict
              else Inr (apply_transition target a ev now r,
                     db1\<lparr>ci_requests :=
                       update_where hit (apply_transition target a ev now) (ci_requests db1)\<rparr>)))))"

section \<open>Dispatch to a worker job\<close>

text \<open>
  The durable payload is the \<open>request_payload\<close> object of the request's first event.  Its values
  have the types the controller writes: \<open>int(..)\<close> of any other value is an error here.
\<close>

definition get_ci_request_payload_in_db :: "string \<Rightarrow> ci_db \<Rightarrow> (string \<times> json) list" where
  "get_ci_request_payload_in_db rid db =
     (case List.find (\<lambda>v. v_request_id v = rid \<and> v_revision v = 0) (ci_request_events db) of
        None \<Rightarrow> []
      | Some v \<Rightarrow>
          (case json_get ''request_payload'' (v_event_data v) of
             Some (JObj kvs) \<Rightarrow> kvs
           | _ \<Rightarrow> []))"

fun json_int :: "json option \<Rightarrow> int option" where
  "json_int (Some (JInt i)) = Some i"
| "json_int (Some (JBool b)) = Some (of_bool b)"
| "json_int (Some (JReal r)) = Some (if r < 0 then \<lceil>r\<rceil> else \<lfloor>r\<rfloor>)"
| "json_int _ = None"

fun json_string :: "json option \<Rightarrow> string" where
  "json_string (Some (JStr s)) = s"
| "json_string _ = ''''"

definition payload_fields :: "string list" where
  "payload_fields = [''priority'', ''timeout_seconds'', ''base_sha'', ''supersede_previous'']"

record dispatch_args =
  da_tree_sha :: string
  da_changed_files :: "string list"
  da_changed_files_total :: int
  da_changed_files_truncated :: bool
  da_event_data :: "(string \<times> json) list"

definition dispatch_start_args ::
  "ci_request \<Rightarrow> (string \<times> json) list \<Rightarrow> int \<Rightarrow> int \<Rightarrow> dispatch_args \<Rightarrow> start_args" where
  "dispatch_start_args r payload prio timeout d =
     \<lparr>sa_repository = r_repository r, sa_branch = r_branch r, sa_commit_sha = r_commit_sha r,
      sa_profile = r_profile r, sa_priority = prio, sa_timeout_seconds = timeout,
      sa_force_rerun = False,
      sa_supersede_previous = (case map_of payload ''supersede_previous'' of
         None \<Rightarrow> False | Some v \<Rightarrow> json_truthy v),
      sa_base_sha = json_string (map_of payload ''base_sha''),
      sa_changed_files = Some (da_changed_files d),
      sa_changed_files_total = Some (da_changed_files_total d),
      sa_changed_files_truncated = da_changed_files_truncated d, sa_idem_key = ''''\<rparr>"

text \<open>The checks before the worker job is created; \<open>Inr\<close> carries the arguments of the start.\<close>

definition dispatch_guard ::
  "ci_db \<Rightarrow> ci_request \<Rightarrow> int \<Rightarrow> dispatch_args \<Rightarrow> ci_error + start_args" where
  "dispatch_guard db r expected d =
     (if request_state r \<noteq> (PhPreparing, RqPreparing) then Inl CIRequestTransition
      else if int (r_revision r) \<noteq> expected then Inl CIRequestRevisionConflict
      else if truthy (r_tree_sha r) \<and> r_tree_sha r \<noteq> Some (da_tree_sha d)
      then Inl CIRequestIdentityMismatch
      else let payload = get_ci_request_payload_in_db (r_request_id r) db
      in if \<not> list_all (\<lambda>f. map_of payload f \<noteq> None) payload_fields then Inl CIRequestTransition
      else (case (json_int (map_of payload ''priority''),
                  json_int (map_of payload ''timeout_seconds'')) of
              (Some p, Some t) \<Rightarrow> Inr (dispatch_start_args r payload p t d)
            | _ \<Rightarrow> Inl ValueError))"

text \<open>The result is the request row and whether the request had been dispatched before.\<close>

definition dispatch_ci_request ::
  "string \<Rightarrow> int \<Rightarrow> dispatch_args \<Rightarrow> string \<Rightarrow> time \<Rightarrow> ci_db \<Rightarrow>
     ci_error + ((ci_request \<times> bool) \<times> ci_db)" where
  "dispatch_ci_request rid expected d jid now db =
     (if \<not> is_sha (da_tree_sha d) then Inl ValueError
      else (case request_row rid db of
        None \<Rightarrow> Inl CIRequestNotFound
      | Some r \<Rightarrow>
      if r_phase r \<in> {PhQueued, PhRunning, PhTerminal} then Inr ((r, True), db)
      else (case dispatch_guard db r expected d of
        Inl e \<Rightarrow> Inl e
      | Inr a \<Rightarrow>
      (case create_ci_request_job_in_transaction rid a jid now db of
        Inl e \<Rightarrow> Inl e
      | Inr (res, db1) \<Rightarrow>
          let wid = j_job_id (sr_job res)
          in (case assert_worker_job_identity db1 r wid of
                Some e \<Rightarrow> Inl e
              | None \<Rightarrow>
             (case insert_request_event rid (r_revision r + 1) ''worker_queued''
                     (Some (PhPreparing, RqPreparing)) (PhQueued, RqQueued)
                     (JObj (da_event_data d @
                        [(''worker_job_id'', JStr wid), (''git_tree_sha'', JStr (da_tree_sha d))])) db1 of
                Inl e \<Rightarrow> Inl e
              | Inr (ev, db2) \<Rightarrow>
                  let hit = (\<lambda>x. r_request_id x = rid \<and> int (r_revision x) = expected \<and>
                         request_state x = (PhPreparing, RqPreparing));
                      upd = (\<lambda>x. x\<lparr>r_tree_sha := Some (da_tree_sha d),
                         r_worker_job_id := Some wid, r_phase := PhQueued, r_status := RqQueued,
                         r_revision := r_revision x + 1, r_updated_at := now,
                         r_last_event_id := Some ev\<rparr>)
                  in if \<not> worker_binding_ok rid (Some wid) db2 then Inl IntegrityError
                     else if row_count hit (ci_requests db2) \<noteq> 1
                     then Inl CIRequestRevisionConflict
                     else Inr ((upd r, False),
                       db2\<lparr>ci_requests := update_where hit upd (ci_requests db2)\<rparr>)))))))"

section \<open>Startup\<close>

fun legacy_request_state :: "job_status \<Rightarrow> request_state" where
  "legacy_request_state JobQueued = (PhQueued, RqQueued)"
| "legacy_request_state JobLeased = (PhQueued, RqQueued)"
| "legacy_request_state JobDownloading = (PhQueued, RqQueued)"
| "legacy_request_state JobPreparing = (PhQueued, RqQueued)"
| "legacy_request_state JobRunning = (PhRunning, RqRunning)"
| "legacy_request_state JobCancelRequested = (PhRunning, RqRunning)"
| "legacy_request_state st =
     (case terminal_of_job st of Some t \<Rightarrow> (PhTerminal, t) | None \<Rightarrow> (PhTerminal, RqInternalError))"

definition first_time :: "time option \<Rightarrow> time \<Rightarrow> time" where
  "first_time t d = (case t of None \<Rightarrow> d | Some x \<Rightarrow> if x = 0 then d else x)"

definition legacy_request :: "job \<Rightarrow> ci_request" where
  "legacy_request j =
     \<lparr>r_request_id = j_job_id j, r_repository = j_repository j, r_branch = j_branch j,
      r_commit_sha = j_commit_sha j, r_tree_sha = None, r_profile = j_profile j,
      r_effective_config_digest = None, r_status = snd (legacy_request_state (j_status j)),
      r_phase = fst (legacy_request_state (j_status j)), r_revision = 0,
      r_idempotency_key = None, r_normalized_request_hash = None,
      r_worker_job_id = Some (j_job_id j), r_preflight_error_id = None,
      r_preflight_error_code = None,
      r_terminal_reason = (if fst (legacy_request_state (j_status j)) = PhTerminal
         then j_error_code j else None),
      r_failure_pack_id = None, r_attestation_id = None, r_created_at = j_created_at j,
      r_updated_at = first_time (j_finished_at j) (first_time (j_started_at j)
         (first_time (j_queued_at j) (j_created_at j))),
      r_last_event_id = None\<rparr>"

text \<open>\<open>INSERT OR IGNORE\<close>: a job that already has a request, by id or by binding, is skipped.\<close>

definition backfill_one :: "job \<Rightarrow> ci_db \<Rightarrow> ci_error + (bool \<times> ci_db)" where
  "backfill_one j db =
     (if list_ex (\<lambda>r. r_request_id r = j_job_id j \<or> r_worker_job_id r = Some (j_job_id j))
           (ci_requests db)
      then Inr (False, db)
      else (case insert_request_event (j_job_id j) 0 ''legacy_backfill'' None
                   (legacy_request_state (j_status j))
                   (JObj [(''legacy_job_status'', JStr (job_status_text (j_status j)))])
                   (db\<lparr>ci_requests := ci_requests db @ [legacy_request j]\<rparr>) of
              Inl e \<Rightarrow> Inl e
            | Inr (ev, db1) \<Rightarrow>
                Inr (True, db1\<lparr>ci_requests :=
                  update_where (\<lambda>r. r_request_id r = j_job_id j \<and> r_revision r = 0)
                    (\<lambda>r. r\<lparr>r_last_event_id := Some ev\<rparr>) (ci_requests db1)\<rparr>)))"

fun backfill_rows :: "job list \<Rightarrow> ci_db \<Rightarrow> ci_error + (nat \<times> ci_db)" where
  "backfill_rows [] db = Inr (0, db)"
| "backfill_rows (j # js) db =
     (case backfill_one j db of
        Inl e \<Rightarrow> Inl e
      | Inr (b, db1) \<Rightarrow>
          (case backfill_rows js db1 of
             Inl e \<Rightarrow> Inl e
           | Inr (n, db2) \<Rightarrow> Inr (of_bool b + n, db2)))"

definition backfill_legacy_jobs :: "ci_db \<Rightarrow> ci_error + (nat \<times> ci_db)" where
  "backfill_legacy_jobs db =
     backfill_rows (sort_key (\<lambda>j. (j_created_at j, j_job_id j)) (ci_jobs db)) db"

text \<open>The startup transaction of \<open>init_ci_request_schema\<close>.\<close>

definition startup_requests :: "time \<Rightarrow> ci_db \<Rightarrow> ci_error + (nat \<times> ci_db)" where
  "startup_requests now db =
     (case backfill_legacy_jobs db of
        Inl e \<Rightarrow> Inl e
      | Inr (_, db1) \<Rightarrow> reconcile_pending_worker_requests_in_db now db1)"

definition list_pending_ci_requests :: "int \<Rightarrow> ci_db \<Rightarrow> ci_request list" where
  "list_pending_ci_requests limit db =
     take (nat (min (max limit 1) 1000))
       (sort_key (\<lambda>r. (r_created_at r, r_request_id r))
         (filter (\<lambda>r. r_phase r \<in> {PhAccepted, PhPreparing}) (ci_requests db)))"

end
