(* ===== verification/CI_Request_Invariant.thy ===== *)
theory CI_Request_Invariant
  imports CI_Requests
begin

text \<open>
  The invariant of the request tables.  A request is in a legal phase and status, and its event
  log is its complete history: one event per revision from 0 up to the current one, each event
  starting where the one before ended, the last one ending in the current state, no step back
  to an earlier phase and none out of a terminal state.
\<close>

section \<open>Event logs\<close>

definition events_of :: "string \<Rightarrow> ci_db \<Rightarrow> request_event list" where
  "events_of rid db = filter (\<lambda>v. v_request_id v = rid) (ci_request_events db)"

definition forward_step :: "request_state option \<Rightarrow> request_state \<Rightarrow> bool" where
  "forward_step p t =
     (case p of
        None \<Rightarrow> True
      | Some s \<Rightarrow> phase_rank (fst s) \<le> phase_rank (fst t) \<and> (fst s = PhTerminal \<longrightarrow> t = s))"

fun history :: "request_state option \<Rightarrow> request_event list \<Rightarrow> bool" where
  "history p [] = True"
| "history p (v # vs) \<longleftrightarrow> v_from v = p \<and> forward_step p (v_to v) \<and> history (Some (v_to v)) vs"

definition log_ok :: "ci_request \<Rightarrow> request_event list \<Rightarrow> bool" where
  "log_ok r vs \<longleftrightarrow> map v_revision vs = [0..<Suc (r_revision r)] \<and> history None vs \<and>
     v_to (last vs) = request_state r"

definition requests_inv :: "ci_db \<Rightarrow> bool" where
  "requests_inv db \<longleftrightarrow> distinct (map r_request_id (ci_requests db)) \<and>
     (\<forall>r \<in> set (ci_requests db). request_state r \<in> set valid_phase_status \<and>
        log_ok r (events_of (r_request_id r) db)) \<and>
     (\<forall>v \<in> set (ci_request_events db). v_request_id v \<in> r_request_id ` set (ci_requests db))"

lemma requests_inv_empty: "requests_inv empty_ci_db"
  by (simp add: requests_inv_def empty_ci_db_def)

lemma requests_invD:
  assumes "requests_inv db"
  shows "distinct (map r_request_id (ci_requests db))"
    and "r \<in> set (ci_requests db) \<Longrightarrow> request_state r \<in> set valid_phase_status"
    and "r \<in> set (ci_requests db) \<Longrightarrow> log_ok r (events_of (r_request_id r) db)"
    and "v \<in> set (ci_request_events db) \<Longrightarrow> v_request_id v \<in> r_request_id ` set (ci_requests db)"
  using assms by (auto simp: requests_inv_def)

lemma requests_inv_cong:
  "ci_requests db' = ci_requests db \<Longrightarrow> ci_request_events db' = ci_request_events db \<Longrightarrow>
    requests_inv db' = requests_inv db"
  by (simp add: requests_inv_def events_of_def)

lemma history_append:
  "history p (vs @ [v]) \<longleftrightarrow> history p vs \<and>
    (let q = (if vs = [] then p else Some (v_to (last vs)))
     in v_from v = q \<and> forward_step q (v_to v))"
  by (induction p vs rule: history.induct) (auto simp: Let_def)

lemma log_ok_nonempty: "log_ok r vs \<Longrightarrow> vs \<noteq> []"
  by (auto simp: log_ok_def)

text \<open>In a well-kept log the next revision is free.\<close>

lemma next_event_free:
  assumes "requests_inv db" and "request_row rid db = Some r"
  shows "\<exists>db1. insert_request_event rid (r_revision r + 1) ty a b d db =
      Inr (next_request_event_id db, db1)"
proof -
  from row_of_SomeD [OF assms(2)] have r: "r \<in> set (ci_requests db)" "r_request_id r = rid" by auto
  have revs: "v_revision ` set (events_of rid db) = {0..<Suc (r_revision r)}"
    using requests_invD(3) [OF assms(1) r(1)] r(2)
    by (metis log_ok_def atLeastLessThan_upt list.set_map)
  have "v_revision v < Suc (r_revision r)"
    if "v \<in> set (ci_request_events db)" "v_request_id v = rid" for v
  proof -
    from that have "v_revision v \<in> v_revision ` set (events_of rid db)" by (auto simp: events_of_def)
    then show ?thesis unfolding revs by simp
  qed
  then have "\<not> (\<exists>v \<in> set (ci_request_events db). v_request_id v = rid \<and> v_revision v = r_revision r + 1)"
    by force
  then show ?thesis by (simp add: insert_request_event_def)
qed

section \<open>Advancing one request\<close>

lemma requests_inv_advance:
  assumes inv: "requests_inv db" and row: "request_row rid db = Some r" and Q: "Q r"
    and ins: "insert_request_event rid (r_revision r + 1) ty (Some (request_state r)) t d db =
      Inr (ev, db1)"
    and f: "\<And>x. r_request_id (f x) = r_request_id x" "r_revision (f r) = r_revision r + 1"
      "request_state (f r) = t"
    and t: "t \<in> set valid_phase_status" "forward_step (Some (request_state r)) t"
    and db': "ci_requests db' = update_where (\<lambda>x. r_request_id x = rid \<and> Q x) f (ci_requests db)"
      "ci_request_events db' = ci_request_events db1"
  shows "requests_inv db'"
proof -
  note dist = requests_invD(1) [OF inv]
  from row_of_SomeD [OF row] have r: "r \<in> set (ci_requests db)" "r_request_id r = rid" by auto
  have eq: "ci_requests db' = update_where (\<lambda>x. r_request_id x = rid) f (ci_requests db)"
    unfolding db' by (rule update_where_conj_key [where key = r_request_id and Q = Q, OF dist row Q])
  from ins obtain e where e: "ci_request_events db' = ci_request_events db @ [e]"
    "v_request_id e = rid" "v_revision e = r_revision r + 1" "v_from e = Some (request_state r)"
    "v_to e = t"
    unfolding db' by (auto simp: insert_request_event_def split: if_splits)
  have ids: "r_request_id ` set (ci_requests db') = r_request_id ` set (ci_requests db)"
    using map_update_where [of "\<lambda>x. r_request_id x = rid" r_request_id f "ci_requests db"]
    by (metis eq f(1) set_map)
  have "request_state x \<in> set valid_phase_status \<and> log_ok x (events_of (r_request_id x) db')"
    if x: "x \<in> set (ci_requests db')" for x
  proof -
    from x obtain y where y: "y \<in> set (ci_requests db)" "x = (if r_request_id y = rid then f y else y)"
      by (auto simp: eq set_update_where_iff)
    show ?thesis
    proof (cases "r_request_id y = rid")
      case True
      with y(1) row dist have "y = r" using row_of_distinct [OF dist y(1)] by simp
      with y True have xr: "x = f r" by simp
      have old: "log_ok r (events_of rid db)" using requests_invD(3) [OF inv r(1)] r(2) by simp
      have "events_of rid db' = events_of rid db @ [e]" by (simp add: events_of_def e)
      with old log_ok_nonempty [OF old] have "log_ok x (events_of rid db')"
        by (simp add: xr log_ok_def f e history_append t)
      with xr r(2) f t show ?thesis by simp
    next
      case False
      then have "events_of (r_request_id x) db' = events_of (r_request_id x) db"
        using y e by (auto simp: events_of_def)
      with False y requests_invD(2,3) [OF inv y(1)] show ?thesis by simp
    qed
  qed
  moreover have "distinct (map r_request_id (ci_requests db'))"
    using dist by (simp add: eq distinct_update_where f)
  moreover have "\<forall>v \<in> set (ci_request_events db'). v_request_id v \<in> r_request_id ` set (ci_requests db')"
    using requests_invD(4) [OF inv] r e unfolding ids by auto
  ultimately show ?thesis by (simp add: requests_inv_def)
qed

text \<open>A new request with its first event.\<close>

lemma requests_inv_insert:
  assumes inv: "requests_inv db" and fresh: "request_row rid db = None"
    and r: "r_request_id r = rid" "r_revision r = 0" "request_state r = t"
    and t: "t \<in> set valid_phase_status"
    and ins: "insert_request_event rid 0 ty None t d (db\<lparr>ci_requests := ci_requests db @ [r]\<rparr>) =
      Inr (ev, db1)"
    and db': "ci_requests db' = update_where (\<lambda>x. r_request_id x = rid \<and> r_revision x = 0)
        (\<lambda>x. x\<lparr>r_last_event_id := Some ev\<rparr>) (ci_requests db1)"
      "ci_request_events db' = ci_request_events db1"
  shows "requests_inv db'"
proof -
  let ?f = "\<lambda>x. x\<lparr>r_last_event_id := Some ev\<rparr>"
  have others: "\<And>x. x \<in> set (ci_requests db) \<Longrightarrow> r_request_id x \<noteq> rid"
    using fresh by (auto simp: row_of_None_iff)
  have noev: "events_of rid db = []"
    using requests_invD(4) [OF inv] others by (force simp: events_of_def filter_empty_conv)
  have "ci_requests db1 = ci_requests db @ [r]"
    using insert_request_event_frame [OF ins] by simp
  moreover have "update_where (\<lambda>x. r_request_id x = rid \<and> r_revision x = 0) ?f (ci_requests db) =
      ci_requests db"
    by (rule update_where_none) (simp add: others)
  ultimately have reqs: "ci_requests db' = ci_requests db @ [?f r]"
    using db' r by (simp add: update_where_append)
  from ins obtain e where e: "ci_request_events db' = ci_request_events db @ [e]"
    "v_request_id e = rid" "v_revision e = 0" "v_from e = None" "v_to e = t"
    unfolding db' by (auto simp: insert_request_event_def split: if_splits)
  have "events_of rid db' = [e]" using noev by (simp add: events_of_def e)
  then have "log_ok (?f r) (events_of rid db')"
    using e r by (simp add: log_ok_def forward_step_def request_state_def)
  moreover have "log_ok x (events_of (r_request_id x) db')" if x: "x \<in> set (ci_requests db)" for x
    using others [OF x] requests_invD(3) [OF inv x] e by (simp add: events_of_def)
  ultimately have "\<forall>x \<in> set (ci_requests db'). log_ok x (events_of (r_request_id x) db')"
    using r by (simp add: reqs)
  moreover have "\<forall>x \<in> set (ci_requests db'). request_state x \<in> set valid_phase_status"
    using requests_invD(2) [OF inv] r(3) t by (simp add: reqs) (simp add: request_state_def)
  moreover have "distinct (map r_request_id (ci_requests db'))"
    using requests_invD(1) [OF inv] fresh r(1) by (simp add: reqs row_of_None_iff)
  moreover have "\<forall>v \<in> set (ci_request_events db'). v_request_id v \<in> r_request_id ` set (ci_requests db')"
    using requests_invD(4) [OF inv] e r(1) by (auto simp: reqs)
  ultimately show ?thesis by (simp add: requests_inv_def)
qed

section \<open>Reconciliation\<close>

lemma reconcile_evidenceD:
  assumes "reconcile_evidence r j = Some (tree, t)"
  shows "same_job_identity r j" and "r_tree_sha r = Some tree" and "is_sha tree"
    and "reconcile_target (j_status j) = Some t"
    and "r_phase r \<in> {PhQueued, PhRunning, PhTerminal}"
    and "r_phase r = PhTerminal \<Longrightarrow> request_state r = t"
    and "j_status j = JobPassed \<Longrightarrow> job_tree_sha j = Some (JStr tree) \<and> j_exit_code j = Some 0"
  using assms by (auto simp: reconcile_evidence_def split: option.splits if_splits)

lemma reconcile_target_cases:
  "reconcile_target st = Some t \<Longrightarrow>
    t = (PhRunning, RqRunning) \<and> st = JobRunning \<or>
    (\<exists>u. t = (PhTerminal, u) \<and> terminal_of_job st = Some u)"
  by (auto simp: reconcile_target_def split: option.splits if_splits)

lemma terminal_of_job_range: "terminal_of_job st = Some u \<Longrightarrow> u \<in> set terminal_statuses"
  by (cases st) (auto simp: terminal_statuses_def)

lemma reconcile_target_valid:
  "reconcile_target st = Some t \<Longrightarrow> t \<in> set valid_phase_status"
  by (auto dest!: reconcile_target_cases terminal_of_job_range simp: valid_phase_status_def)

lemma reconcile_forward:
  assumes "reconcile_evidence r j = Some (tree, t)"
  shows "forward_step (Some (request_state r)) t"
proof (cases "r_phase r = PhTerminal")
  case True
  with reconcile_evidenceD(6) [OF assms] show ?thesis by (simp add: forward_step_def)
next
  case False
  with reconcile_evidenceD(4,5) [OF assms] show ?thesis
    by (auto simp: forward_step_def request_state_def dest!: reconcile_target_cases)
qed

text \<open>What a reconciliation that changes something does.\<close>

definition reconciled :: "request_state \<Rightarrow> nat \<Rightarrow> time \<Rightarrow> string option \<Rightarrow> ci_request \<Rightarrow> ci_request" where
  "reconciled t ev now att x =
     x\<lparr>r_phase := fst t, r_status := snd t, r_revision := r_revision x + 1, r_updated_at := now,
       r_last_event_id := Some ev, r_attestation_id := coalesce att (r_attestation_id x)\<rparr>"

lemma reconciled_simps [simp]:
  "r_request_id (reconciled t ev now att x) = r_request_id x"
  "r_revision (reconciled t ev now att x) = r_revision x + 1"
  "request_state (reconciled t ev now att x) = t"
  "r_worker_job_id (reconciled t ev now att x) = r_worker_job_id x"
  "r_tree_sha (reconciled t ev now att x) = r_tree_sha x"
  by (simp_all add: reconciled_def request_state_def)

lemma reconcile_outcome:
  assumes inv: "requests_inv db"
  shows "reconcile_worker_request_in_db wid now db = Inr (False, db) \<or>
    (\<exists>r j tree t ty d ev db1 db'.
       request_row (r_request_id r) db = Some r \<and> r_worker_job_id r = Some wid \<and>
       job_row wid db = Some j \<and> reconcile_evidence r j = Some (tree, t) \<and>
       insert_request_event (r_request_id r) (r_revision r + 1) ty (Some (request_state r)) t d db =
         Inr (ev, db1) \<and>
       db' = db1\<lparr>ci_requests := update_where (\<lambda>x. r_request_id x = r_request_id r \<and>
            (r_revision x = r_revision r \<and> request_state x = request_state r \<and>
             r_worker_job_id x = Some wid \<and> r_tree_sha x = Some tree))
          (reconciled t ev now (matching_attestation_in_db r j tree now db)) (ci_requests db1)\<rparr> \<and>
       reconcile_worker_request_in_db wid now db = Inr (True, db'))"
proof (cases "\<exists>r j tree t. row_of r_worker_job_id (Some wid) (ci_requests db) = Some r \<and>
    job_row wid db = Some j \<and> reconcile_evidence r j = Some (tree, t)")
  case False
  then show ?thesis
    by (auto simp: reconcile_worker_request_in_db_def split: option.splits)
next
  case True
  then obtain r j tree t where r: "row_of r_worker_job_id (Some wid) (ci_requests db) = Some r"
    and j: "job_row wid db = Some j" and ev: "reconcile_evidence r j = Some (tree, t)" by blast
  let ?att = "matching_attestation_in_db r j tree now db"
  show ?thesis
  proof (cases "request_state r = t \<and> \<not> (truthy ?att \<and> ?att \<noteq> r_attestation_id r)")
    case True
    with r j ev show ?thesis
      by (simp add: reconcile_worker_request_in_db_def Let_def)
  next
    case False
    from row_of_SomeD [OF r] have rin: "r \<in> set (ci_requests db)" "r_worker_job_id r = Some wid" by auto
    have row: "request_row (r_request_id r) db = Some r"
      using rin(1) requests_invD(1) [OF inv] by (intro row_of_distinct) auto
    note tree = reconcile_evidenceD(2) [OF ev]
    define ty where "ty = (if request_state r \<noteq> t \<and> fst t = PhTerminal then ''worker_terminal_reconciled''
      else if request_state r \<noteq> t then ''worker_running_reconciled''
      else ''worker_attestation_linked'')"
    define d where "d = JObj [(''source'', JStr ''durable_ci_job''), (''worker_job_id'', JStr wid),
      (''worker_status'', JStr (job_status_text (j_status j))),
      (''commit_sha'', JStr (r_commit_sha r)), (''tree_sha'', JStr tree),
      (''attestation_id'', json_opt ?att)]"
    from next_event_free [OF inv row] obtain e db1 where
      ins: "insert_request_event (r_request_id r) (r_revision r + 1) ty (Some (request_state r)) t d db
        = Inr (e, db1)" by blast
    from insert_request_event_frame [OF ins] have reqs: "ci_requests db1 = ci_requests db" by simp
    have hit: "row_count (\<lambda>x. r_request_id x = r_request_id r \<and>
        (r_revision x = r_revision r \<and> request_state x = request_state r \<and>
         r_worker_job_id x = Some wid \<and> r_tree_sha x = Some tree)) (ci_requests db1) = 1"
      unfolding reqs row_count_key_1 [OF requests_invD(1) [OF inv]]
      using row rin(2) tree by blast
    have "reconcile_worker_request_in_db wid now db = Inr (True, db1\<lparr>ci_requests :=
       update_where (\<lambda>x. r_request_id x = r_request_id r \<and>
            (r_revision x = r_revision r \<and> request_state x = request_state r \<and>
             r_worker_job_id x = Some wid \<and> r_tree_sha x = Some tree))
          (reconciled t e now ?att) (ci_requests db1)\<rparr>)"
      using False hit ins
      by (simp add: reconcile_worker_request_in_db_def r j ev Let_def flip: ty_def d_def)
        (simp add: reconciled_def [abs_def])
    with row rin(2) j ev ins show ?thesis by blast
  qed
qed

lemma reconcile_inv:
  assumes inv: "requests_inv db" and run: "reconcile_worker_request_in_db wid now db = Inr (b, db')"
  shows "requests_inv db'"
proof (cases "reconcile_worker_request_in_db wid now db = Inr (False, db)")
  case True
  with run inv show ?thesis by simp
next
  case False
  with reconcile_outcome [OF inv, of wid now] obtain r j tree t ty d e db1 db2 where
    row: "request_row (r_request_id r) db = Some r" and wid: "r_worker_job_id r = Some wid"
    and ev: "reconcile_evidence r j = Some (tree, t)"
    and ins: "insert_request_event (r_request_id r) (r_revision r + 1) ty (Some (request_state r)) t d db
      = Inr (e, db1)"
    and db2: "db2 = db1\<lparr>ci_requests := update_where (\<lambda>x. r_request_id x = r_request_id r \<and>
            (r_revision x = r_revision r \<and> request_state x = request_state r \<and>
             r_worker_job_id x = Some wid \<and> r_tree_sha x = Some tree))
          (reconciled t e now (matching_attestation_in_db r j tree now db)) (ci_requests db1)\<rparr>"
    and res: "reconcile_worker_request_in_db wid now db = Inr (True, db2)" by auto
  from run res have db': "db' = db2" by simp
  show ?thesis
    unfolding db'
  proof (rule requests_inv_advance [OF inv row _ ins,
        where Q = "\<lambda>x. r_revision x = r_revision r \<and> request_state x = request_state r \<and>
             r_worker_job_id x = Some wid \<and> r_tree_sha x = Some tree"
          and f = "reconciled t e now (matching_attestation_in_db r j tree now db)"])
    show "r_revision r = r_revision r \<and> request_state r = request_state r \<and>
       r_worker_job_id r = Some wid \<and> r_tree_sha r = Some tree"
      using wid reconcile_evidenceD(2) [OF ev] by simp
    show "t \<in> set valid_phase_status"
      using reconcile_evidenceD(4) [OF ev] by (rule reconcile_target_valid)
    show "forward_step (Some (request_state r)) t" by (rule reconcile_forward [OF ev])
    show "ci_requests db2 = update_where (\<lambda>x. r_request_id x = r_request_id r \<and>
        (r_revision x = r_revision r \<and> request_state x = request_state r \<and>
         r_worker_job_id x = Some wid \<and> r_tree_sha x = Some tree))
        (reconciled t e now (matching_attestation_in_db r j tree now db)) (ci_requests db)"
      using insert_request_event_frame [OF ins] by (simp add: db2)
  qed (simp_all add: db2)
qed

text \<open>On well-kept tables a reconciliation cannot fail.\<close>

lemma reconcile_total:
  assumes "requests_inv db"
  shows "\<exists>b db'. reconcile_worker_request_in_db wid now db = Inr (b, db')"
  using reconcile_outcome [OF assms, of wid now] by blast

section \<open>The request operations\<close>

lemma allowed_forward:
  "t \<in> set (allowed_transitions s) \<Longrightarrow> forward_step (Some s) t"
  using allowed_rank [of t s] allowed_from_terminal [of s] by (auto simp: forward_step_def)

text \<open>What a committed transition checked and wrote.\<close>

lemma transition_commit:
  assumes "transition_ci_request rid expected t a now db = Inr (r', db')"
  obtains r ev db1 where "request_row rid db = Some r" and "int (r_revision r) = expected"
    and "transition_guard db r t a = None" and "t \<in> set (allowed_transitions (request_state r))"
    and "insert_request_event rid (r_revision r + 1) ''transition'' (Some (request_state r)) t
       (JObj (ta_event_data a)) db = Inr (ev, db1)"
    and "worker_binding_ok rid (ta_worker_job_id a) db1"
    and "r' = apply_transition t a ev now r"
    and "db' = db1\<lparr>ci_requests := update_where (\<lambda>x. r_request_id x = rid \<and>
       (int (r_revision x) = expected \<and> request_state x = request_state r))
         (apply_transition t a ev now) (ci_requests db1)\<rparr>"
proof -
  from assms obtain r ev db1 where 1: "request_row rid db = Some r" "int (r_revision r) = expected"
    "transition_guard db r t a = None"
    "insert_request_event rid (r_revision r + 1) ''transition'' (Some (request_state r)) t
       (JObj (ta_event_data a)) db = Inr (ev, db1)"
    "worker_binding_ok rid (ta_worker_job_id a) db1"
    "r' = apply_transition t a ev now r"
    "db' = db1\<lparr>ci_requests := update_where (\<lambda>x. r_request_id x = rid \<and>
       (int (r_revision x) = expected \<and> request_state x = request_state r))
         (apply_transition t a ev now) (ci_requests db1)\<rparr>"
    by (auto simp: transition_ci_request_def Let_def split: if_splits option.splits sum.splits)
  from 1(3) have "t \<in> set (allowed_transitions (request_state r))"
    by (auto simp: transition_guard_def split: option.splits if_splits)
  with 1 that show ?thesis by blast
qed

lemma apply_transition_simps [simp]:
  "r_request_id (apply_transition t a ev now r) = r_request_id r"
  "r_revision (apply_transition t a ev now r) = r_revision r + 1"
  "request_state (apply_transition t a ev now r) = t"
  "r_idempotency_key (apply_transition t a ev now r) = r_idempotency_key r"
  "r_normalized_request_hash (apply_transition t a ev now r) = r_normalized_request_hash r"
  by (simp_all add: apply_transition_def request_state_def)

lemma transition_inv:
  assumes inv: "requests_inv db" and run: "transition_ci_request rid expected t a now db = Inr (r', db')"
  shows "requests_inv db'"
  using run
proof (rule transition_commit)
  fix r ev db1
  assume row: "request_row rid db = Some r" and rev: "int (r_revision r) = expected"
    and allowed: "t \<in> set (allowed_transitions (request_state r))"
    and ins: "insert_request_event rid (r_revision r + 1) ''transition'' (Some (request_state r)) t
       (JObj (ta_event_data a)) db = Inr (ev, db1)"
    and db': "db' = db1\<lparr>ci_requests := update_where (\<lambda>x. r_request_id x = rid \<and>
       (int (r_revision x) = expected \<and> request_state x = request_state r))
         (apply_transition t a ev now) (ci_requests db1)\<rparr>"
  show ?thesis
    by (rule requests_inv_advance [OF inv row _ ins,
          where Q = "\<lambda>x. int (r_revision x) = expected \<and> request_state x = request_state r"
            and f = "apply_transition t a ev now"])
      (use rev allowed insert_request_event_frame [OF ins] in
        \<open>simp_all add: db' allowed_targets_valid allowed_forward\<close>)
qed

lemma create_request_inv:
  assumes inv: "requests_inv db" and run: "create_or_get_ci_request key a rid now db = Inr (p, db')"
  shows "requests_inv db'"
proof (cases "row_of r_idempotency_key (Some key) (ci_requests db)")
  case (Some r)
  with run inv show ?thesis
    by (auto simp: create_or_get_ci_request_def split: if_splits option.splits)
next
  case None
  with run obtain ev db1 where fresh: "request_row rid db = None"
    and ins: "insert_request_event rid 0 ''accepted'' None (PhAccepted, RqAccepted)
       (JObj [(''request_payload'', JObj (ra_request_payload a))])
       (db\<lparr>ci_requests := ci_requests db @ [new_request a key rid now]\<rparr>) = Inr (ev, db1)"
    and db': "db' = db1\<lparr>ci_requests := update_where (\<lambda>r. r_request_id r = rid \<and> r_revision r = 0)
                          (\<lambda>r. r\<lparr>r_last_event_id := Some ev\<rparr>) (ci_requests db1)\<rparr>"
    by (auto simp: create_or_get_ci_request_def split: if_splits option.splits sum.splits)
  show ?thesis
    by (rule requests_inv_insert [OF inv fresh _ _ _ _ ins])
      (simp_all add: db' new_request_def request_state_def valid_phase_status_def)
qed

lemma supersede_rows_frame [simp]:
  "ci_requests (snd (supersede_rows n sha ts olds db)) = ci_requests db"
  "ci_request_events (snd (supersede_rows n sha ts olds db)) = ci_request_events db"
  by (induction olds arbitrary: db) (simp_all add: supersede_one_def case_prod_unfold Let_def)

lemma create_job_frame:
  "create_or_get_job_in_transaction a jid ts now db = Inr (res, db') \<Longrightarrow>
    ci_requests db' = ci_requests db \<and> ci_request_events db' = ci_request_events db"
  by (auto simp: create_or_get_job_in_transaction_def Let_def case_prod_unfold
      split: option.splits if_splits)

text \<open>What a first dispatch did.\<close>

definition dispatched :: "string \<Rightarrow> string \<Rightarrow> nat \<Rightarrow> time \<Rightarrow> ci_request \<Rightarrow> ci_request" where
  "dispatched tree wid ev now x =
     x\<lparr>r_tree_sha := Some tree, r_worker_job_id := Some wid, r_phase := PhQueued,
       r_status := RqQueued, r_revision := r_revision x + 1, r_updated_at := now,
       r_last_event_id := Some ev\<rparr>"

lemma dispatched_simps [simp]:
  "r_request_id (dispatched tree wid ev now x) = r_request_id x"
  "r_revision (dispatched tree wid ev now x) = r_revision x + 1"
  "request_state (dispatched tree wid ev now x) = (PhQueued, RqQueued)"
  "r_tree_sha (dispatched tree wid ev now x) = Some tree"
  "r_worker_job_id (dispatched tree wid ev now x) = Some wid"
  by (simp_all add: dispatched_def request_state_def)

lemma dispatch_commit:
  assumes "dispatch_ci_request rid expected d jid now db = Inr ((r', dedup), db')"
  shows "dedup \<and> db' = db \<and> request_row rid db = Some r' \<and> r_phase r' \<in> {PhQueued, PhRunning, PhTerminal}
   \<or> \<not> dedup \<and> (\<exists>r sa res db1 ev db2. request_row rid db = Some r \<and>
       request_state r = (PhPreparing, RqPreparing) \<and> int (r_revision r) = expected \<and>
       dispatch_guard db r expected d = Inr sa \<and>
       create_ci_request_job_in_transaction rid sa jid now db = Inr (res, db1) \<and>
       assert_worker_job_identity db1 r (j_job_id (sr_job res)) = None \<and>
       insert_request_event rid (r_revision r + 1) ''worker_queued''
         (Some (PhPreparing, RqPreparing)) (PhQueued, RqQueued)
         (JObj (da_event_data d @ [(''worker_job_id'', JStr (j_job_id (sr_job res))),
            (''git_tree_sha'', JStr (da_tree_sha d))])) db1 = Inr (ev, db2) \<and>
       worker_binding_ok rid (Some (j_job_id (sr_job res))) db2 \<and>
       r' = dispatched (da_tree_sha d) (j_job_id (sr_job res)) ev now r \<and>
       db' = db2\<lparr>ci_requests := update_where (\<lambda>x. r_request_id x = rid \<and>
          (int (r_revision x) = expected \<and> request_state x = (PhPreparing, RqPreparing)))
            (dispatched (da_tree_sha d) (j_job_id (sr_job res)) ev now) (ci_requests db2)\<rparr>)"
proof -
  from assms obtain r where sha: "is_sha (da_tree_sha d)" and row: "request_row rid db = Some r"
    by (auto simp: dispatch_ci_request_def split: if_splits option.splits)
  show ?thesis
  proof (cases "r_phase r \<in> {PhQueued, PhRunning, PhTerminal}")
    case True
    with assms sha row show ?thesis by (auto simp: dispatch_ci_request_def)
  next
    case False
    with assms sha row obtain sa res db1 ev db2 where
      g: "dispatch_guard db r expected d = Inr sa"
      and rest: "create_ci_request_job_in_transaction rid sa jid now db = Inr (res, db1)"
       "assert_worker_job_identity db1 r (j_job_id (sr_job res)) = None"
       "insert_request_event rid (r_revision r + 1) ''worker_queued''
         (Some (PhPreparing, RqPreparing)) (PhQueued, RqQueued)
         (JObj (da_event_data d @ [(''worker_job_id'', JStr (j_job_id (sr_job res))),
            (''git_tree_sha'', JStr (da_tree_sha d))])) db1 = Inr (ev, db2)"
       "worker_binding_ok rid (Some (j_job_id (sr_job res))) db2"
       "r' = dispatched (da_tree_sha d) (j_job_id (sr_job res)) ev now r" "\<not> dedup"
       "db' = db2\<lparr>ci_requests := update_where (\<lambda>x. r_request_id x = rid \<and>
          (int (r_revision x) = expected \<and> request_state x = (PhPreparing, RqPreparing)))
            (dispatched (da_tree_sha d) (j_job_id (sr_job res)) ev now) (ci_requests db2)\<rparr>"
      by (auto simp: dispatch_ci_request_def Let_def dispatched_def [abs_def]
          split: sum.splits option.splits if_splits)
    from g have "request_state r = (PhPreparing, RqPreparing)" "int (r_revision r) = expected"
      by (auto simp: dispatch_guard_def split: if_splits)
    with row g rest show ?thesis by blast
  qed
qed

end
