(* ===== verification/CI_Logs.thy ===== *)
theory CI_Logs
  imports CI_Job_Invariant
begin

text \<open>
  Job logs and steps of \<open>app/ci_database.py\<close>.  Workers append text in chunks; a chunk covers a
  half-open range of log offsets (code points), ranges of one job follow each other without a
  gap, and readers page through them by offset, row count and UTF-8 budget.
\<close>

section \<open>Appending\<close>

text \<open>\<open>COALESCE(MAX(..), d)\<close> over a column.\<close>

definition sql_max :: "int \<Rightarrow> int list \<Rightarrow> int" where
  "sql_max d xs = (case xs of [] \<Rightarrow> d | x # ys \<Rightarrow> foldl max x ys)"

definition job_chunks :: "string \<Rightarrow> ci_db \<Rightarrow> log_chunk list" where
  "job_chunks jid db = filter (\<lambda>c. c_job_id c = jid) (ci_job_log_chunks db)"

definition log_end :: "string \<Rightarrow> ci_db \<Rightarrow> int" where
  "log_end jid db = sql_max 0 (map c_offset_to (job_chunks jid db))"

definition next_chunk_index :: "string \<Rightarrow> ci_db \<Rightarrow> int" where
  "next_chunk_index jid db = sql_max (-1) (map c_chunk_index (job_chunks jid db)) + 1"

text \<open>The insertion both appending operations share, with its counter and its event.\<close>

definition insert_chunk :: "string \<Rightarrow> ustring \<Rightarrow> json \<Rightarrow> ci_db \<Rightarrow> ci_db" where
  "insert_chunk jid content data db =
     add_event jid ''log_revision'' data
       (update_jobs (\<lambda>j. j_job_id j = jid)
         (\<lambda>j. j\<lparr>j_log_total_bytes := j_log_total_bytes j + int (length content)\<rparr>)
         (db\<lparr>ci_job_log_chunks := ci_job_log_chunks db @
           [\<lparr>c_job_id = jid, c_chunk_index = next_chunk_index jid db,
             c_offset_from = log_end jid db,
             c_offset_to = log_end jid db + int (length content), c_content = content\<rparr>]\<rparr>))"

text \<open>A chunk of an unknown job violates its foreign key.\<close>

definition append_log_chunk ::
  "(string \<Rightarrow> string) \<Rightarrow> string \<Rightarrow> ustring \<Rightarrow> string option \<Rightarrow> string option \<Rightarrow> time \<Rightarrow>
     ci_db \<Rightarrow> ci_error + (int \<times> ci_db)" where
  "append_log_chunk H jid content wid token now db =
     (if \<not> begin_job_write H jid wid token now db then Inl StaleJobLease
      else if job_row jid db = None then Inl IntegrityError
      else Inr (log_end jid db + int (length content),
             insert_chunk jid content (JObj [(''bytes'', JInt (int (length content)))]) db))"

text \<open>The result is the new end of the log and whether the batch had been stored before.\<close>

definition append_log_batch ::
  "(string \<Rightarrow> string) \<Rightarrow> string \<Rightarrow> string \<Rightarrow> ustring \<Rightarrow> string option \<Rightarrow> string option \<Rightarrow>
     time \<Rightarrow> ci_db \<Rightarrow> ci_error + ((int \<times> bool) \<times> ci_db)" where
  "append_log_batch H jid batch content wid token now db =
     (if \<not> begin_job_write H jid wid token now db then Inl StaleJobLease
      else if batch = [] \<or> content = [] then Inr ((0, True), db)
      else if (jid, batch) \<in> set (ci_job_log_batches db) then Inr ((log_end jid db, True), db)
      else if job_row jid db = None then Inl IntegrityError
      else Inr ((log_end jid db + int (length content), False),
             insert_chunk jid content
               (JObj [(''bytes'', JInt (int (length content))), (''batch_id'', JStr batch)])
               (db\<lparr>ci_job_log_batches := ci_job_log_batches db @ [(jid, batch)]\<rparr>)))"

section \<open>Reading\<close>

text \<open>Bytes a code point takes in UTF-8.\<close>

definition utf8_len :: "nat \<Rightarrow> nat" where
  "utf8_len c = (if c < 128 then 1 else if c < 2048 then 2 else if c < 65536 then 3 else 4)"

definition utf8_size :: "ustring \<Rightarrow> nat" where
  "utf8_size s = sum_list (map utf8_len s)"

text \<open>
  \<open>_utf8_prefix\<close>: cutting the encoding and dropping an incomplete last character keeps the
  characters that fit one after the other.
\<close>

fun utf8_prefix :: "ustring \<Rightarrow> int \<Rightarrow> ustring" where
  "utf8_prefix [] n = []"
| "utf8_prefix (c # cs) n =
     (if int (utf8_len c) \<le> n then c # utf8_prefix cs (n - int (utf8_len c)) else [])"

record log_fragment =
  f_chunk_index :: int
  f_offset_from :: int
  f_offset_to :: int
  f_content :: ustring

record log_query =
  lq_offset :: int
  lq_limit :: int
  lq_range_start :: "int option"
  lq_range_end :: "int option"
  lq_max_bytes :: "int option"

definition read_offset :: "log_query \<Rightarrow> int" where
  "read_offset q =
     (case lq_range_start q of
        None \<Rightarrow> max (lq_offset q) 0
      | Some s \<Rightarrow> max (max (lq_offset q) 0) (max s 0))"

definition row_limit :: "log_query \<Rightarrow> nat" where
  "row_limit q = nat (max (lq_limit q) 1)"

definition candidate_rows :: "log_query \<Rightarrow> string \<Rightarrow> ci_db \<Rightarrow> log_chunk list" where
  "candidate_rows q jid db =
     (case lq_range_end q of
        None \<Rightarrow> take (row_limit q) (sort_key c_chunk_index
           (filter (\<lambda>c. c_offset_to c > read_offset q) (job_chunks jid db)))
      | Some e \<Rightarrow>
          if e \<le> read_offset q then []
          else take (row_limit q) (sort_key c_chunk_index
            (filter (\<lambda>c. c_offset_to c > read_offset q \<and> c_offset_from c < e) (job_chunks jid db))))"

definition fragment_start :: "log_query \<Rightarrow> log_chunk \<Rightarrow> int" where
  "fragment_start q r =
     (case lq_range_start q of
        None \<Rightarrow> max (read_offset q) (c_offset_from r)
      | Some s \<Rightarrow> max (max (read_offset q) (c_offset_from r)) (max s 0))"

definition fragment_end :: "log_query \<Rightarrow> log_chunk \<Rightarrow> int" where
  "fragment_end q r =
     (case lq_range_end q of None \<Rightarrow> c_offset_to r | Some e \<Rightarrow> min (c_offset_to r) e)"

definition clipped :: "log_query \<Rightarrow> log_chunk \<Rightarrow> ustring" where
  "clipped q r =
     (let local_start = max (fragment_start q r - c_offset_from r) 0;
          local_end = min (fragment_end q r - c_offset_from r) (int (length (c_content r)))
      in drop (nat local_start) (take (nat local_end) (c_content r)))"

text \<open>The loop over the rows; the result lists the fragments in order.\<close>

fun collect_fragments ::
  "log_query \<Rightarrow> log_chunk list \<Rightarrow> log_fragment list \<Rightarrow> int \<Rightarrow> log_fragment list" where
  "collect_fragments q [] acc emitted = acc"
| "collect_fragments q (r # rs) acc emitted =
     (if fragment_end q r \<le> fragment_start q r \<or> clipped q r = []
      then collect_fragments q rs acc emitted
      else let content = (case lq_max_bytes q of
                 None \<Rightarrow> clipped q r
               | Some m \<Rightarrow> utf8_prefix (clipped q r) (max (m - emitted) 0))
           in if content = [] then acc
           else let actual_end = fragment_start q r + int (length content);
                    acc' = acc @ [\<lparr>f_chunk_index = c_chunk_index r,
                        f_offset_from = fragment_start q r, f_offset_to = actual_end,
                        f_content = content\<rparr>]
                in if lq_max_bytes q \<noteq> None \<and> actual_end < fragment_end q r \<or>
                      length acc' \<ge> row_limit q
                   then acc'
                   else collect_fragments q rs acc' (emitted + int (utf8_size content)))"

record log_page =
  lp_chunks :: "log_fragment list"
  lp_next_offset :: "int option"
  lp_total_bytes :: int
  lp_truncated :: bool
  lp_has_more :: bool

definition page_has_more :: "log_query \<Rightarrow> string \<Rightarrow> ci_db \<Rightarrow> log_fragment list \<Rightarrow> bool" where
  "page_has_more q jid db frags =
     (if frags = [] then False
      else let next = f_offset_to (last frags)
           in case lq_range_end q of
                None \<Rightarrow> list_ex (\<lambda>c. c_offset_to c > next) (job_chunks jid db)
              | Some e \<Rightarrow> next < e \<and>
                  list_ex (\<lambda>c. c_offset_to c > next \<and> c_offset_from c < e) (job_chunks jid db))"

text \<open>For an unknown job the page is empty and carries no \<open>has_more\<close> field: \<open>False\<close> here.\<close>

definition get_log_chunks :: "string \<Rightarrow> log_query \<Rightarrow> ci_db \<Rightarrow> ci_error + log_page" where
  "get_log_chunks jid q db =
     (case job_row jid db of
        None \<Rightarrow> Inr \<lparr>lp_chunks = [], lp_next_offset = None, lp_total_bytes = 0,
                     lp_truncated = False, lp_has_more = False\<rparr>
      | Some j \<Rightarrow>
          (if (case (lq_range_start q, lq_range_end q) of
                 (Some s, Some e) \<Rightarrow> e < max s 0
               | _ \<Rightarrow> False)
           then Inl ValueError
           else let frags = collect_fragments q (candidate_rows q jid db) [] 0;
                    more = page_has_more q jid db frags
                in Inr \<lparr>lp_chunks = frags,
                        lp_next_offset = (if more then Some (f_offset_to (last frags)) else None),
                        lp_total_bytes = (case (lq_range_start q, lq_range_end q) of
                           (Some s, Some e) \<Rightarrow> max (e - max s 0) 0
                         | _ \<Rightarrow> j_log_total_bytes j),
                        lp_truncated = j_log_truncated j, lp_has_more = more\<rparr>))"

section \<open>Steps\<close>

definition add_step ::
  "(string \<Rightarrow> string) \<Rightarrow> string \<Rightarrow> string \<Rightarrow> string \<Rightarrow> string option \<Rightarrow> string option \<Rightarrow>
     time \<Rightarrow> time \<Rightarrow> ci_db \<Rightarrow> ci_error + (nat \<times> ci_db)" where
  "add_step H jid name status wid token ts now db =
     (if \<not> begin_job_write H jid wid token now db then Inl StaleJobLease
      else if job_row jid db = None then Inl IntegrityError
      else Inr (next_step_id db,
        db\<lparr>ci_job_steps := ci_job_steps db @
             [\<lparr>s_id = next_step_id db, s_job_id = jid, s_step_name = name, s_status = status,
               s_exit_code = None,
               s_started_at = (if status = ''running'' then Some ts else None),
               s_finished_at = None, s_duration_seconds = None,
               s_log_start_offset = log_end jid db, s_log_end_offset = log_end jid db\<rparr>],
           next_step_id := Suc (next_step_id db)\<rparr>))"

text \<open>
  The end offset of a finished step: what the worker reported (an unreadable value counts as
  none), clamped between the step's start and the persisted end of the log.
\<close>

definition step_end_offset :: "int \<Rightarrow> int \<Rightarrow> int option \<Rightarrow> int" where
  "step_end_offset start persisted requested =
     (let lo = max start 0; hi = max persisted lo
      in min (max (case requested of None \<Rightarrow> hi | Some r \<Rightarrow> r) lo) hi)"

definition finish_step_row :: "string \<Rightarrow> int option \<Rightarrow> time \<Rightarrow> job_step \<Rightarrow> int \<Rightarrow> job_step \<Rightarrow> job_step" where
  "finish_step_row status exit_code ts row off s =
     s\<lparr>s_status := status, s_exit_code := exit_code, s_finished_at := Some ts,
       s_duration_seconds := Some (elapsed ts (s_started_at row)), s_log_end_offset := off\<rparr>"

definition finish_step ::
  "(string \<Rightarrow> string) \<Rightarrow> nat \<Rightarrow> string \<Rightarrow> int option \<Rightarrow> int option \<Rightarrow> string option \<Rightarrow>
     string option \<Rightarrow> string option \<Rightarrow> time \<Rightarrow> time \<Rightarrow> ci_db \<Rightarrow> ci_error + (bool \<times> ci_db)" where
  "finish_step H sid status exit_code req_end jid wid token ts now db =
     (let guarded = (jid \<noteq> None \<or> wid \<noteq> None \<or> token \<noteq> None)
      in if guarded \<and> (\<not> truthy jid \<or> \<not> begin_job_write H (the jid) wid token now db)
      then Inl StaleJobLease
      else case List.find (\<lambda>s. s_id s = sid \<and> (guarded \<longrightarrow> Some (s_job_id s) = jid)) (ci_job_steps db) of
        None \<Rightarrow> Inr (False, db)
      | Some row \<Rightarrow>
          let off = step_end_offset (s_log_start_offset row) (log_end (s_job_id row) db) req_end
          in Inr (True, add_event (s_job_id row) ''step_completed''
               (JObj [(''step_id'', JInt (int sid)), (''step_name'', JStr (s_step_name row)),
                      (''status'', JStr status)])
               (db\<lparr>ci_job_steps := update_where (\<lambda>s. s_id s = sid \<and> s_job_id s = s_job_id row)
                     (finish_step_row status exit_code ts row off) (ci_job_steps db)\<rparr>)))"

definition get_steps :: "string \<Rightarrow> ci_db \<Rightarrow> job_step list" where
  "get_steps jid db = sort_key s_id (filter (\<lambda>s. s_job_id s = jid) (ci_job_steps db))"

text \<open>
  The repair \<open>init_db\<close> runs over steps whose stored range is negative or inverted.
\<close>

definition invalid_range :: "job_step \<Rightarrow> bool" where
  "invalid_range s \<longleftrightarrow> s_log_start_offset s < 0 \<or> s_log_end_offset s < 0 \<or>
     s_log_end_offset s < s_log_start_offset s"

definition repair_step :: "ci_db \<Rightarrow> job_step \<Rightarrow> job_step" where
  "repair_step db s =
     s\<lparr>s_log_start_offset := max (s_log_start_offset s) 0,
       s_log_end_offset := max (max (s_log_start_offset s) 0) (log_end (s_job_id s) db)\<rparr>"

definition repair_step_ranges :: "ci_db \<Rightarrow> ci_db" where
  "repair_step_ranges db =
     db\<lparr>ci_job_steps := update_where invalid_range (repair_step db) (ci_job_steps db)\<rparr>"

end
