(* ===== verification/CI_Log_Invariant.thy ===== *)
theory CI_Log_Invariant
  imports CI_Logs
begin

text \<open>
  The log of a job is one text: its chunks are numbered without a gap and their ranges cover the
  text without a gap.  A page of \<open>get_log_chunks\<close> is a prefix of the requested slice of that
  text, and following \<open>next_offset\<close> reads the slice to its end.
\<close>

section \<open>Chains of chunks\<close>

fun chunk_chain :: "int \<Rightarrow> int \<Rightarrow> log_chunk list \<Rightarrow> bool" where
  "chunk_chain i off [] = True"
| "chunk_chain i off (c # cs) \<longleftrightarrow> c_chunk_index c = i \<and> c_offset_from c = off \<and>
     c_offset_to c = off + int (length (c_content c)) \<and> c_content c \<noteq> [] \<and>
     chunk_chain (i + 1) (c_offset_to c) cs"

definition chunks_text :: "log_chunk list \<Rightarrow> ustring" where
  "chunks_text cs = concat (map c_content cs)"

lemma chunks_text_simps [simp]:
  "chunks_text [] = []" "chunks_text (c # cs) = c_content c @ chunks_text cs"
  "chunks_text (cs @ ds) = chunks_text cs @ chunks_text ds"
  by (simp_all add: chunks_text_def)

definition job_log :: "string \<Rightarrow> ci_db \<Rightarrow> ustring" where
  "job_log jid db = chunks_text (job_chunks jid db)"

lemma chunk_chain_append:
  "chunk_chain i off (cs @ ds) \<longleftrightarrow> chunk_chain i off cs \<and>
    chunk_chain (i + int (length cs)) (off + int (length (chunks_text cs))) ds"
  by (induction i off cs rule: chunk_chain.induct) (auto simp: algebra_simps)

lemma chunk_chain_bounds:
  "chunk_chain i off cs \<Longrightarrow> c \<in> set cs \<Longrightarrow>
    off \<le> c_offset_from c \<and> c_offset_from c < c_offset_to c \<and>
    c_offset_to c \<le> off + int (length (chunks_text cs)) \<and>
    i \<le> c_chunk_index c \<and> c_chunk_index c < i + int (length cs)"
proof (induction i off cs rule: chunk_chain.induct)
  case (2 i off d cs)
  show ?case
  proof (cases "c = d")
    case False
    with 2(3) have "c \<in> set cs" by simp
    with 2(1,2) have "c_offset_to d \<le> c_offset_from c \<and> c_offset_from c < c_offset_to c \<and>
      c_offset_to c \<le> c_offset_to d + int (length (chunks_text cs)) \<and>
      i + 1 \<le> c_chunk_index c \<and> c_chunk_index c < i + 1 + int (length cs)" by auto
    with 2(2) show ?thesis by auto
  qed (use 2(2) in simp)
qed simp

lemma sql_max_snoc:
  assumes "\<And>x. x \<in> set xs \<Longrightarrow> x \<le> y"
  shows "sql_max d (xs @ [y]) = y"
proof (cases xs)
  case (Cons x ys)
  have "foldl max a ys \<le> y" if "a \<le> y" "\<forall>x \<in> set ys. x \<le> y" for a
    using that by (induction ys arbitrary: a) auto
  with Cons assms show ?thesis by (simp add: sql_max_def max_absorb2)
qed (simp add: sql_max_def)

lemma chain_maxima:
  assumes "chunk_chain 0 0 cs"
  shows "sql_max 0 (map c_offset_to cs) = int (length (chunks_text cs))"
    and "sql_max (-1) (map c_chunk_index cs) + 1 = int (length cs)"
proof -
  have "sql_max 0 (map c_offset_to cs) = int (length (chunks_text cs)) \<and>
      sql_max (-1) (map c_chunk_index cs) + 1 = int (length cs)"
  proof (cases cs rule: rev_cases)
    case (snoc ds c)
    with assms have ds: "chunk_chain 0 0 ds" and c: "c_chunk_index c = int (length ds)"
      "c_offset_to c = int (length (chunks_text ds)) + int (length (c_content c))"
      by (auto simp: chunk_chain_append)
    have "sql_max 0 (map c_offset_to ds @ [c_offset_to c]) = c_offset_to c"
      by (rule sql_max_snoc) (use chunk_chain_bounds [OF ds] c in fastforce)
    moreover have "sql_max (-1) (map c_chunk_index ds @ [c_chunk_index c]) = c_chunk_index c"
      by (rule sql_max_snoc) (use chunk_chain_bounds [OF ds] c in fastforce)
    ultimately show ?thesis by (simp add: snoc c)
  qed (simp add: sql_max_def)
  then show "sql_max 0 (map c_offset_to cs) = int (length (chunks_text cs))"
    and "sql_max (-1) (map c_chunk_index cs) + 1 = int (length cs)" by auto
qed

section \<open>The log invariant\<close>

definition step_ok :: "ci_db \<Rightarrow> job_step \<Rightarrow> bool" where
  "step_ok db s \<longleftrightarrow> 0 \<le> s_log_start_offset s \<and> s_log_start_offset s \<le> s_log_end_offset s \<and>
     s_log_end_offset s \<le> log_end (s_job_id s) db"

definition logs_inv :: "ci_db \<Rightarrow> bool" where
  "logs_inv db \<longleftrightarrow>
     (\<forall>jid. chunk_chain 0 0 (job_chunks jid db)) \<and>
     (\<forall>c \<in> set (ci_job_log_chunks db). c_job_id c \<in> j_job_id ` set (ci_jobs db)) \<and>
     (\<forall>j \<in> set (ci_jobs db). j_log_total_bytes j = int (length (job_log (j_job_id j) db))) \<and>
     (\<forall>s \<in> set (ci_job_steps db). s_id s < next_step_id db \<and> step_ok db s) \<and>
     distinct (map s_id (ci_job_steps db))"

lemma logs_inv_empty: "logs_inv empty_ci_db"
  by (simp add: logs_inv_def empty_ci_db_def job_chunks_def)

lemma logs_invD:
  assumes "logs_inv db"
  shows "chunk_chain 0 0 (job_chunks jid db)"
    and "c \<in> set (ci_job_log_chunks db) \<Longrightarrow> c_job_id c \<in> j_job_id ` set (ci_jobs db)"
    and "j \<in> set (ci_jobs db) \<Longrightarrow> j_log_total_bytes j = int (length (job_log (j_job_id j) db))"
    and "s \<in> set (ci_job_steps db) \<Longrightarrow> s_id s < next_step_id db"
    and "s \<in> set (ci_job_steps db) \<Longrightarrow> step_ok db s"
    and "distinct (map s_id (ci_job_steps db))"
  using assms by (auto simp: logs_inv_def)

lemma log_end_length: "logs_inv db \<Longrightarrow> log_end jid db = int (length (job_log jid db))"
  by (simp add: log_end_def job_log_def chain_maxima(1) logs_invD(1))

lemma next_index_length:
  "logs_inv db \<Longrightarrow> next_chunk_index jid db = int (length (job_chunks jid db))"
  by (simp add: next_chunk_index_def chain_maxima(2) logs_invD(1))

text \<open>Writing one chunk appends its text to that job's log and to no other.\<close>

lemma job_chunks_insert:
  "job_chunks k (insert_chunk jid content data db) =
    job_chunks k db @ (if k = jid
      then [\<lparr>c_job_id = jid, c_chunk_index = next_chunk_index jid db,
             c_offset_from = log_end jid db,
             c_offset_to = log_end jid db + int (length content), c_content = content\<rparr>]
      else [])"
  by (simp add: insert_chunk_def job_chunks_def add_event_def update_jobs_def)

lemma job_log_insert:
  "job_log k (insert_chunk jid content data db) =
    job_log k db @ (if k = jid then content else [])"
  by (simp add: job_log_def job_chunks_insert)

lemma insert_chunk_frame [simp]:
  "ci_job_steps (insert_chunk jid content data db) = ci_job_steps db"
  "next_step_id (insert_chunk jid content data db) = next_step_id db"
  "ci_jobs (insert_chunk jid content data db) = update_where (\<lambda>j. j_job_id j = jid)
     (\<lambda>j. j\<lparr>j_log_total_bytes := j_log_total_bytes j + int (length content)\<rparr>) (ci_jobs db)"
  by (simp_all add: insert_chunk_def add_event_def update_jobs_def)

lemma insert_chunk_inv:
  assumes inv: "logs_inv db" and job: "job_row jid db \<noteq> None" and content: "content \<noteq> []"
  shows "logs_inv (insert_chunk jid content data db)" (is "logs_inv ?db")
proof -
  have chain: "chunk_chain 0 0 (job_chunks k ?db)" for k
    using logs_invD(1) [OF inv, of k] content
    by (auto simp: job_chunks_insert chunk_chain_append next_index_length [OF inv]
        log_end_length [OF inv] job_log_def)
  have mono: "log_end k db \<le> log_end k ?db" for k
  proof -
    have "log_end k ?db = int (length (job_log k ?db))"
      by (simp add: log_end_def job_log_def chain_maxima(1) [OF chain])
    then show ?thesis by (simp add: log_end_length [OF inv] job_log_insert)
  qed
  have "step_ok ?db s" if "s \<in> set (ci_job_steps db)" for s
    using logs_invD(5) [OF inv that] mono by (meson order_trans step_ok_def)
  moreover have "c_job_id c \<in> j_job_id ` set (ci_jobs ?db)"
    if c: "c \<in> set (ci_job_log_chunks ?db)" for c
  proof -
    have ids: "j_job_id ` set (ci_jobs ?db) = j_job_id ` set (ci_jobs db)"
      by (simp add: image_update_where)
    from c have "c \<in> set (ci_job_log_chunks db) \<or> c_job_id c = jid"
      by (auto simp: insert_chunk_def add_event_def update_jobs_def)
    with logs_invD(2) [OF inv] job show ?thesis unfolding ids by (auto simp: row_of_None_iff)
  qed
  moreover have "j_log_total_bytes j = int (length (job_log (j_job_id j) ?db))"
    if "j \<in> set (ci_jobs ?db)" for j
    using that logs_invD(3) [OF inv] by (auto simp: set_update_where_iff job_log_insert)
  ultimately show ?thesis
    using chain logs_invD(4,6) [OF inv] by (simp add: logs_inv_def)
qed

end
