(* ===== verification/CI_Frames.thy ===== *)
theory CI_Frames
  imports CI_Request_Invariant CI_Log_Invariant "HOL-Library.Sublist"
begin

text \<open>
  What the operations leave alone.  \<open>kept db db'\<close>: logs, steps and the identity of every job are
  the same in both states; every job operation but the start, the log writes and the clean-up
  keeps them.  The binding invariant ties a request to its worker job: the job exists, has the
  identity of the request, and no other request has it.
\<close>

definition job_core :: "job \<Rightarrow> string \<times> string \<times> string \<times> string \<times> string \<times> int" where
  "job_core j = (j_job_id j, j_repository j, j_branch j, j_commit_sha j, j_profile j,
     j_log_total_bytes j)"

definition kept :: "ci_db \<Rightarrow> ci_db \<Rightarrow> bool" where
  "kept db db' \<longleftrightarrow> ci_job_log_chunks db' = ci_job_log_chunks db \<and>
     ci_job_steps db' = ci_job_steps db \<and> next_step_id db' = next_step_id db \<and>
     map job_core (ci_jobs db') = map job_core (ci_jobs db)"

lemma kept_refl [simp]: "kept db db"
  by (simp add: kept_def)

lemma kept_trans: "kept db db1 \<Longrightarrow> kept db1 db2 \<Longrightarrow> kept db db2"
  by (simp add: kept_def)

lemma kept_simps [simp]:
  "kept db (add_event k t e db') = kept db db'"
  "kept db (release_worker w k db') = kept db db'"
  "kept db (set_worker_idle v db') = kept db db'"
  "kept db (set_worker_busy v k db') = kept db db'"
  "kept db (upsert_repo_queue_state r q n d db') = kept db db'"
  by (simp_all add: kept_def add_event_def release_worker_def set_worker_idle_def
      set_worker_busy_def upsert_repo_queue_state_def)

lemma kept_update_jobs [simp]:
  "(\<And>j. job_core (f j) = job_core j) \<Longrightarrow> kept db (update_jobs P f db') = kept db db'"
  by (simp add: kept_def update_jobs_def map_update_where)

lemma job_core_simps [simp]:
  "job_core (end_job st ts j) = job_core j" "job_core (requeue_job ts j) = job_core j"
  by (simp_all add: job_core_def end_job_def requeue_job_def)

lemma kept_insert_request_event:
  "insert_request_event rid rv ty a b d db = Inr (n, db') \<Longrightarrow> kept db db'"
  by (auto simp: insert_request_event_def kept_def split: if_splits)

lemma kept_reconcile:
  "reconcile_worker_request_in_db k now db = Inr (b, db') \<Longrightarrow> kept db db'"
  using reconcile_frame [of k now db b db']
  by (auto simp: reconcile_worker_request_in_db_def Let_def kept_def insert_request_event_def
      split: option.splits if_splits sum.splits prod.splits)

lemma kept_then_reconcile:
  "reconcile_worker_request_in_db k now db1 = Inr (b, db') \<Longrightarrow> kept db db1 \<Longrightarrow> kept db db'"
  by (blast intro: kept_trans kept_reconcile)

section \<open>Requests through the job operations\<close>

text \<open>
  \<open>follows db db'\<close>: the request tables come from those of \<open>db\<close> by reconciliations only, so
  every property of them that a reconciliation keeps carries over.
\<close>

definition req_core ::
  "ci_request \<Rightarrow> string \<times> string \<times> string \<times> string \<times> string \<times> string option \<times>
     string option \<times> string option" where
  "req_core r = (r_request_id r, r_repository r, r_branch r, r_commit_sha r, r_profile r,
     r_worker_job_id r, r_idempotency_key r, r_normalized_request_hash r)"

definition follows :: "ci_db \<Rightarrow> ci_db \<Rightarrow> bool" where
  "follows db db' \<longleftrightarrow> map req_core (ci_requests db') = map req_core (ci_requests db) \<and>
     prefix (ci_request_events db) (ci_request_events db') \<and>
     (requests_inv db \<longrightarrow> requests_inv db')"

lemma follows_refl [simp]: "follows db db"
  by (simp add: follows_def)

lemma follows_trans: "follows db db1 \<Longrightarrow> follows db1 db2 \<Longrightarrow> follows db db2"
  by (auto simp: follows_def intro: prefix_order.trans)

lemma followsD:
  assumes "follows db db'"
  shows "map req_core (ci_requests db') = map req_core (ci_requests db)"
    and "prefix (ci_request_events db) (ci_request_events db')"
    and "requests_inv db \<Longrightarrow> requests_inv db'"
  using assms by (simp_all add: follows_def)

lemma insert_event_prefix:
  "insert_request_event rid rv ty a b d db = Inr (n, db') \<Longrightarrow>
    prefix (ci_request_events db) (ci_request_events db')"
  by (auto simp: insert_request_event_def split: if_splits)

lemma follows_same:
  "ci_requests db' = ci_requests db \<Longrightarrow> ci_request_events db' = ci_request_events db \<Longrightarrow> follows db db'"
  using requests_inv_cong [of db' db] by (simp add: follows_def)

lemma follows_cong:
  "ci_requests d1 = ci_requests d2 \<Longrightarrow> ci_request_events d1 = ci_request_events d2 \<Longrightarrow>
    follows db d1 = follows db d2"
  using requests_inv_cong [of d1 d2] by (simp add: follows_def)

lemma follows_simps [simp]:
  "follows db (add_event k t e db') = follows db db'"
  "follows db (release_worker w k db') = follows db db'"
  "follows db (set_worker_idle v db') = follows db db'"
  "follows db (set_worker_busy v k db') = follows db db'"
  "follows db (upsert_repo_queue_state r q n d db') = follows db db'"
  "follows db (update_jobs P f db') = follows db db'"
  by (rule follows_cong; simp)+

lemma req_core_reconciled [simp]: "req_core (reconciled t ev now att r) = req_core r"
  by (simp add: req_core_def reconciled_def)

lemma follows_reconcile:
  assumes "reconcile_worker_request_in_db k now db = Inr (b, db')"
  shows "follows db db'"
proof -
  have "map req_core (ci_requests db') = map req_core (ci_requests db)"
    using assms
    by (auto simp: reconcile_worker_request_in_db_def Let_def
        split: option.splits if_splits sum.splits prod.splits dest!: insert_request_event_frame)
      (auto intro!: map_update_where simp: req_core_def)
  moreover have "prefix (ci_request_events db) (ci_request_events db')"
    using assms
    by (auto simp: reconcile_worker_request_in_db_def Let_def
        split: option.splits if_splits sum.splits prod.splits dest!: insert_event_prefix)
  ultimately show ?thesis using reconcile_inv [OF _ assms] by (auto simp: follows_def)
qed

lemma follows_then_reconcile:
  "reconcile_worker_request_in_db k now db1 = Inr (b, db') \<Longrightarrow> follows db db1 \<Longrightarrow> follows db db'"
  by (blast intro: follows_trans follows_reconcile)

section \<open>Frames of the job operations\<close>

lemma complete_job_frame:
  assumes "complete_job H jid ec status sm ecode emsg wid token ts now db = Inr (b, db')"
  shows "kept db db' \<and> follows db db'"
  using assms
  by (auto simp: complete_job_def Let_def job_core_def end_job_def
      split: option.splits if_splits sum.splits
      elim!: kept_then_reconcile follows_then_reconcile)

lemma cancel_queued_job_frame:
  assumes "cancel_queued_job jid now db = Inr (b, db')"
  shows "kept db db' \<and> follows db db'"
  using assms
  by (auto simp: cancel_queued_job_def Let_def split: option.splits if_splits sum.splits
      elim!: kept_then_reconcile follows_then_reconcile)

lemma release_job_frame:
  "release_job H jid wid token now db = Inr (b, db') \<Longrightarrow> kept db db' \<and> follows db db'"
  by (auto simp: release_job_def split: option.splits if_splits)

lemma set_job_status_frame:
  "set_job_status H jid status wid token now db = Inr (b, db') \<Longrightarrow> kept db db' \<and> follows db db'"
  by (auto simp: set_job_status_def Let_def job_core_def split: if_splits sum.splits
      elim!: kept_then_reconcile follows_then_reconcile)

lemma set_job_source_frame:
  "set_job_source_downloaded H jid sha n w t now db = Inr (b, db') \<Longrightarrow> kept db db' \<and> follows db db'"
  by (auto simp: set_job_source_downloaded_def job_core_def split: if_splits)

lemma request_cancel_job_frame:
  "kept db (snd (request_cancel_job jid db)) \<and> follows db (snd (request_cancel_job jid db))"
  by (simp add: request_cancel_job_def Let_def job_core_def)

lemma renew_lease_frame:
  "kept db (snd (renew_lease H jid token wid ts db)) \<and>
    follows db (snd (renew_lease H jid token wid ts db))"
  by (simp add: renew_lease_def Let_def job_core_def)

lemma lease_job_frame:
  "kept db (snd (lease_job H wid ps maxc token ts db)) \<and>
    follows db (snd (lease_job H wid ps maxc token ts db))"
  by (auto simp: lease_job_def Let_def job_core_def split: option.splits)

lemma recover_worker_rows_frame:
  "kept x db \<Longrightarrow> kept x (fold (recover_worker_row wid ts) rs db)"
  "follows x db \<Longrightarrow> follows x (fold (recover_worker_row wid ts) rs db)"
  by (induction rs arbitrary: db) (simp_all add: recover_worker_row_def)

lemma recover_worker_jobs_frame:
  "kept db (snd (recover_worker_jobs wid ts db)) \<and> follows db (snd (recover_worker_jobs wid ts db))"
  by (simp add: recover_worker_jobs_def recover_worker_rows_frame)

lemma recover_expired_row_frame:
  "recover_expired_row ts r db = Inr (b, db') \<Longrightarrow> kept db db' \<and> follows db db'"
  by (auto simp: recover_expired_row_def Let_def split: if_splits
      elim!: kept_then_reconcile follows_then_reconcile)

lemma recover_expired_rows_frame:
  "recover_expired_rows ts rs db = Inr (n, db') \<Longrightarrow> kept db db' \<and> follows db db'"
proof (induction rs arbitrary: db n)
  case (Cons r rs)
  from Cons.prems obtain b db1 m where 1: "recover_expired_row ts r db = Inr (b, db1)"
    "recover_expired_rows ts rs db1 = Inr (m, db')" by (auto split: sum.splits)
  from Cons.IH [OF 1(2)] recover_expired_row_frame [OF 1(1)]
  show ?case by (blast intro: kept_trans follows_trans)
qed simp

lemma recover_expired_leases_frame:
  "recover_expired_leases ts db = Inr (n, db') \<Longrightarrow> kept db db' \<and> follows db db'"
  unfolding recover_expired_leases_def by (rule recover_expired_rows_frame)

lemma reconcile_all_frame:
  "reconcile_all ws now db = Inr (n, db') \<Longrightarrow>
    kept db db' \<and> follows db db' \<and> ci_jobs db' = ci_jobs db \<and>
    ci_repository_queue_state db' = ci_repository_queue_state db"
proof (induction ws arbitrary: db n)
  case (Cons w ws)
  from Cons.prems obtain b db1 m where 1: "reconcile_worker_request_in_db w now db = Inr (b, db1)"
    "reconcile_all ws now db1 = Inr (m, db')" by (auto split: sum.splits)
  from Cons.IH [OF 1(2)] reconcile_frame [OF 1(1)] kept_reconcile [OF 1(1)] follows_reconcile [OF 1(1)]
  show ?case by (auto intro: kept_trans follows_trans)
qed simp

end
