(* ===== verification/CI_Binding.thy ===== *)
theory CI_Binding
  imports CI_Frames
begin

text \<open>
  The binding of requests to worker jobs: a bound job is stored and has the identity of the
  request, and no job serves two requests.  The log invariant and the bindings through every
  operation.
\<close>

section \<open>Rows with the same core\<close>

lemma row_of_map_eq:
  assumes "map g t' = map g t" and "\<And>x y. g x = g y \<Longrightarrow> key x = key y"
    and "row_of key k t = Some r"
  obtains r' where "row_of key k t' = Some r'" and "g r' = g r"
proof -
  from assms(1) have "list_all2 (\<lambda>x y. g x = g y) t' t"
    by (simp add: list_all2_conv_all_nth list_eq_iff_nth_eq)
  then have "\<exists>r'. row_of key k t' = Some r' \<and> g r' = g r"
    using assms(3)
  proof (induction rule: list_all2_induct)
    case (Cons x xs y ys)
    with assms(2) [of x y] show ?case by (auto split: if_splits)
  qed simp
  with that show ?thesis by blast
qed

lemma job_core_key: "job_core x = job_core y \<Longrightarrow> j_job_id x = j_job_id y"
  by (simp add: job_core_def)

lemma same_identity_core:
  "req_core r = req_core r' \<Longrightarrow> job_core j = job_core j' \<Longrightarrow>
    same_job_identity r j = same_job_identity r' j'"
  by (simp add: same_job_identity_def req_core_def job_core_def)

text \<open>Every stored job is still there with its identity.\<close>

definition jobs_survive :: "ci_db \<Rightarrow> ci_db \<Rightarrow> bool" where
  "jobs_survive db db' \<longleftrightarrow> (\<forall>k j. job_row k db = Some j \<longrightarrow>
     (\<exists>j'. job_row k db' = Some j' \<and> (\<forall>r. same_job_identity r j' = same_job_identity r j)))"

lemma kept_survive: "kept db db' \<Longrightarrow> jobs_survive db db'"
  unfolding jobs_survive_def
proof (intro allI impI)
  fix k j
  assume "kept db db'" and j: "job_row k db = Some j"
  then have eq: "map job_core (ci_jobs db') = map job_core (ci_jobs db)" by (simp add: kept_def)
  obtain j' where "job_row k db' = Some j'" "job_core j' = job_core j"
    by (rule row_of_map_eq [OF eq job_core_key j])
  then show "\<exists>j'. job_row k db' = Some j' \<and> (\<forall>r. same_job_identity r j' = same_job_identity r j)"
    using same_identity_core [OF refl] by blast
qed

lemma kept_job_row_None: "kept db db' \<Longrightarrow> job_row k db = None \<Longrightarrow> job_row k db' = None"
proof (rule ccontr)
  assume "kept db db'" and none: "job_row k db = None" and "job_row k db' \<noteq> None"
  then obtain j where j: "job_row k db' = Some j"
    and eq: "map job_core (ci_jobs db) = map job_core (ci_jobs db')"
    by (auto simp: kept_def)
  obtain i where "job_row k db = Some i" by (rule row_of_map_eq [OF eq job_core_key j])
  with none show False by simp
qed

section \<open>The binding invariant\<close>

definition bound_ok :: "ci_db \<Rightarrow> ci_request \<Rightarrow> bool" where
  "bound_ok db r \<longleftrightarrow> (case r_worker_job_id r of None \<Rightarrow> True
     | Some k \<Rightarrow> (\<exists>j. job_row k db = Some j \<and> same_job_identity r j))"

definition bindings_inv :: "ci_db \<Rightarrow> bool" where
  "bindings_inv db \<longleftrightarrow> job_row [] db = None \<and> (\<forall>r \<in> set (ci_requests db). bound_ok db r) \<and>
     (\<forall>r \<in> set (ci_requests db). \<forall>r' \<in> set (ci_requests db).
        r_worker_job_id r \<noteq> None \<and> r_worker_job_id r = r_worker_job_id r' \<longrightarrow>
        r_request_id r = r_request_id r')"

lemma bindings_inv_empty: "bindings_inv empty_ci_db"
  by (simp add: bindings_inv_def empty_ci_db_def)

lemma bindings_invD:
  assumes "bindings_inv db"
  shows "job_row [] db = None" and "r \<in> set (ci_requests db) \<Longrightarrow> bound_ok db r"
    and "r \<in> set (ci_requests db) \<Longrightarrow> r' \<in> set (ci_requests db) \<Longrightarrow> r_worker_job_id r = Some k \<Longrightarrow>
      r_worker_job_id r' = Some k \<Longrightarrow> r_request_id r = r_request_id r'"
proof -
  note parts = assms [unfolded bindings_inv_def]
  from parts show "job_row [] db = None" by (rule conjunct1)
  from parts show "r \<in> set (ci_requests db) \<Longrightarrow> bound_ok db r" by blast
  assume rows: "r \<in> set (ci_requests db)" "r' \<in> set (ci_requests db)"
    and k: "r_worker_job_id r = Some k" "r_worker_job_id r' = Some k"
  from parts have "\<forall>r \<in> set (ci_requests db). \<forall>r' \<in> set (ci_requests db).
      r_worker_job_id r \<noteq> None \<and> r_worker_job_id r = r_worker_job_id r' \<longrightarrow>
      r_request_id r = r_request_id r'" by (elim conjE)
  from bspec [OF bspec [OF this rows(1)] rows(2)] k show "r_request_id r = r_request_id r'" by simp
qed

lemma bound_ok_core:
  assumes "req_core r' = req_core r" and "jobs_survive db db'" and "bound_ok db r"
  shows "bound_ok db' r'"
proof -
  from assms(1) have same: "r_worker_job_id r' = r_worker_job_id r"
    "\<And>j. same_job_identity r' j = same_job_identity r j"
    by (simp_all add: req_core_def same_job_identity_def)
  show ?thesis
  proof (cases "r_worker_job_id r")
    case (Some k)
    with assms(3) obtain j where "job_row k db = Some j" "same_job_identity r j"
      by (auto simp: bound_ok_def)
    with assms(2) obtain j' where "job_row k db' = Some j'" "same_job_identity r j'"
      unfolding jobs_survive_def by meson
    with same Some show ?thesis by (simp add: bound_ok_def)
  qed (simp add: bound_ok_def same)
qed

lemma bindings_inv_mono:
  assumes inv: "bindings_inv db" and reqs: "map req_core (ci_requests db') = map req_core (ci_requests db)"
    and jobs: "jobs_survive db db'" and empty: "job_row [] db' = None"
  shows "bindings_inv db'"
proof -
  have old: "\<exists>r \<in> set (ci_requests db). req_core r' = req_core r" if "r' \<in> set (ci_requests db')" for r'
  proof -
    from that have "req_core r' \<in> set (map req_core (ci_requests db'))" by simp
    then show ?thesis unfolding reqs by auto
  qed
  have "bound_ok db' r'" if r': "r' \<in> set (ci_requests db')" for r'
    using old [OF r'] bindings_invD(2) [OF inv] jobs bound_ok_core by blast
  moreover have "r_request_id r1 = r_request_id r2"
    if r: "r1 \<in> set (ci_requests db')" "r2 \<in> set (ci_requests db')"
      "r_worker_job_id r1 \<noteq> None" "r_worker_job_id r1 = r_worker_job_id r2" for r1 r2
  proof -
    from old [OF r(1)] old [OF r(2)] obtain s1 s2 where s: "s1 \<in> set (ci_requests db)"
      "s2 \<in> set (ci_requests db)" "req_core r1 = req_core s1" "req_core r2 = req_core s2" by blast
    with r(3,4) obtain k where "r_worker_job_id s1 = Some k" "r_worker_job_id s2 = Some k"
      by (auto simp: req_core_def)
    with bindings_invD(3) [OF inv s(1,2)] s(3,4) show ?thesis by (simp add: req_core_def)
  qed
  ultimately show ?thesis using empty unfolding bindings_inv_def by blast
qed

lemma bindings_inv_kept:
  assumes "bindings_inv db" and "kept db db'" and "follows db db'"
  shows "bindings_inv db'"
  using assms bindings_invD(1) [OF assms(1)]
  by (intro bindings_inv_mono [OF assms(1)]) (auto simp: follows_def kept_survive kept_job_row_None)

section \<open>The log invariant through the other operations\<close>

lemma logs_inv_jobs:
  assumes inv: "logs_inv db"
    and same: "ci_job_log_chunks db' = ci_job_log_chunks db" "ci_job_steps db' = ci_job_steps db"
      "next_step_id db' = next_step_id db"
    and old: "\<And>j. j \<in> set (ci_jobs db) \<Longrightarrow> j_job_id j \<in> j_job_id ` set (ci_jobs db')"
    and new: "\<And>j. j \<in> set (ci_jobs db') \<Longrightarrow> (\<exists>i \<in> set (ci_jobs db). job_core j = job_core i) \<or>
      (\<forall>i \<in> set (ci_jobs db). j_job_id i \<noteq> j_job_id j) \<and> j_log_total_bytes j = 0"
  shows "logs_inv db'"
proof -
  have ch: "job_chunks k db' = job_chunks k db" for k by (simp add: job_chunks_def same)
  then have le: "log_end k db' = log_end k db" "job_log k db' = job_log k db" for k
    by (simp_all add: log_end_def job_log_def)
  have "j_log_total_bytes j = int (length (job_log (j_job_id j) db'))" if j: "j \<in> set (ci_jobs db')" for j
    using new [OF j]
  proof
    assume "\<exists>i \<in> set (ci_jobs db). job_core j = job_core i"
    then obtain i where "i \<in> set (ci_jobs db)" "job_core j = job_core i" ..
    with logs_invD(3) [OF inv] show ?thesis by (simp add: le job_core_def)
  next
    assume free: "(\<forall>i \<in> set (ci_jobs db). j_job_id i \<noteq> j_job_id j) \<and> j_log_total_bytes j = 0"
    with logs_invD(2) [OF inv] have "job_chunks (j_job_id j) db = []"
      by (fastforce simp: job_chunks_def filter_empty_conv)
    with free show ?thesis by (simp add: le(2)) (simp add: job_log_def)
  qed
  moreover have "c_job_id c \<in> j_job_id ` set (ci_jobs db')" if "c \<in> set (ci_job_log_chunks db')" for c
    using logs_invD(2) [OF inv, of c] that old by (auto simp: same)
  moreover have "step_ok db' s" if "s \<in> set (ci_job_steps db')" for s
    using logs_invD(5) [OF inv] that by (simp add: step_ok_def le same)
  ultimately show ?thesis
    using logs_invD(1,4,6) [OF inv] by (simp add: logs_inv_def ch same)
qed

lemma logs_inv_kept: "logs_inv db \<Longrightarrow> kept db db' \<Longrightarrow> logs_inv db'"
proof (rule logs_inv_jobs)
  assume k: "kept db db'"
  then have "set (map job_core (ci_jobs db')) = set (map job_core (ci_jobs db))"
    by (simp only: kept_def)
  then have cores: "job_core ` set (ci_jobs db') = job_core ` set (ci_jobs db)" by simp
  show "(\<exists>i \<in> set (ci_jobs db). job_core j = job_core i) \<or>
      (\<forall>i \<in> set (ci_jobs db). j_job_id i \<noteq> j_job_id j) \<and> j_log_total_bytes j = 0"
    if "j \<in> set (ci_jobs db')" for j
  proof -
    from that cores have "job_core j \<in> job_core ` set (ci_jobs db)" by blast
    then show ?thesis by blast
  qed
  show "j_job_id j \<in> j_job_id ` set (ci_jobs db')" if "j \<in> set (ci_jobs db)" for j
  proof -
    from that cores have "job_core j \<in> job_core ` set (ci_jobs db')" by blast
    then obtain i where "i \<in> set (ci_jobs db')" "job_core j = job_core i" by blast
    then show ?thesis using job_core_key [of j i] by simp
  qed
qed (simp_all add: kept_def)

end
