(* ===== verification/CI_Invariant.thy ===== *)
theory CI_Invariant
  imports CI_Binding
begin

text \<open>
  The invariant of the whole CI database - jobs, requests, bindings and logs - through starts,
  request operations, log operations, clean-up and startup.
\<close>

section \<open>Bindings that change\<close>

lemma bindings_inv_update:
  assumes inv: "bindings_inv db" and jobs: "jobs_survive db db'" and empty: "job_row [] db' = None"
    and reqs: "ci_requests db' = update_where P f (ci_requests db)"
    and P: "\<And>x. P x \<Longrightarrow> r_request_id x = rid" and f: "\<And>x. r_request_id (f x) = r_request_id x"
    and ok: "\<And>x. x \<in> set (ci_requests db) \<Longrightarrow> P x \<Longrightarrow> bound_ok db' (f x)"
    and free: "\<And>x k. x \<in> set (ci_requests db) \<Longrightarrow> P x \<Longrightarrow> r_worker_job_id (f x) = Some k \<Longrightarrow>
      r_worker_job_id x = Some k \<or>
      (\<forall>y \<in> set (ci_requests db). r_request_id y = rid \<or> r_worker_job_id y \<noteq> Some k)"
  shows "bindings_inv db'"
  unfolding bindings_inv_def
proof (intro conjI empty ballI impI)
  fix r assume "r \<in> set (ci_requests db')"
  then obtain x where x: "x \<in> set (ci_requests db)" "r = (if P x then f x else x)"
    by (auto simp: reqs set_update_where_iff)
  with ok [OF x(1)] bound_ok_core [OF refl jobs bindings_invD(2) [OF inv x(1)]]
  show "bound_ok db' r" by auto
next
  fix r1 r2
  assume r: "r1 \<in> set (ci_requests db')" "r2 \<in> set (ci_requests db')"
    and same: "r_worker_job_id r1 \<noteq> None \<and> r_worker_job_id r1 = r_worker_job_id r2"
  have key: "r_request_id x = r_request_id y"
    if "x \<in> set (ci_requests db)" "y \<in> set (ci_requests db)" "P x" "\<not> P y"
      "r_worker_job_id (f x) = Some k" "r_worker_job_id y = Some k" for x y k
    using free [OF that(1,3,5)] P [OF that(3)] bindings_invD(3) [OF inv that(1,2)] that by metis
  from r obtain x y where x: "x \<in> set (ci_requests db)" "r1 = (if P x then f x else x)"
    and y: "y \<in> set (ci_requests db)" "r2 = (if P y then f y else y)"
    by (auto simp: reqs set_update_where_iff)
  from same obtain k where k: "r_worker_job_id r1 = Some k" "r_worker_job_id r2 = Some k"
    by (metis option.collapse)
  have "r_request_id x = r_request_id y"
  proof (cases "P x")
    case True
    then show ?thesis using P [of x] P [of y] key [OF x(1) y(1)] x y k by (cases "P y") auto
  next
    case False
    then show ?thesis
      using key [OF y(1) x(1)] bindings_invD(3) [OF inv x(1) y(1)] x y k by (cases "P y") auto
  qed
  then show "r_request_id r1 = r_request_id r2" using x y f by simp
qed

lemma bindings_inv_insert:
  assumes inv: "bindings_inv db" and jobs: "jobs_survive db db'" and empty: "job_row [] db' = None"
    and reqs: "ci_requests db' = ci_requests db @ [r]" and ok: "bound_ok db' r"
    and free: "\<And>k y. r_worker_job_id r = Some k \<Longrightarrow> y \<in> set (ci_requests db) \<Longrightarrow>
      r_worker_job_id y \<noteq> Some k"
  shows "bindings_inv db'"
  unfolding bindings_inv_def
proof (intro conjI empty ballI impI)
  fix x assume "x \<in> set (ci_requests db')"
  then show "bound_ok db' x"
    using ok bound_ok_core [OF refl jobs bindings_invD(2) [OF inv]] by (auto simp: reqs)
next
  fix x y
  assume "x \<in> set (ci_requests db')" "y \<in> set (ci_requests db')"
    and same: "r_worker_job_id x \<noteq> None \<and> r_worker_job_id x = r_worker_job_id y"
  then have xy: "x \<in> set (ci_requests db) \<or> x = r" "y \<in> set (ci_requests db) \<or> y = r"
    by (auto simp: reqs)
  from same obtain k where k: "r_worker_job_id x = Some k" "r_worker_job_id y = Some k"
    by (metis option.collapse)
  show "r_request_id x = r_request_id y"
    using xy k free bindings_invD(3) [OF inv _ _ k] by blast
qed

lemma same_jobs_survive: "ci_jobs db' = ci_jobs db \<Longrightarrow> jobs_survive db db'"
  by (simp add: jobs_survive_def)

section \<open>The combined invariant\<close>

definition ci_inv :: "ci_db \<Rightarrow> bool" where
  "ci_inv db \<longleftrightarrow> jobs_inv db \<and> requests_inv db \<and> bindings_inv db \<and> logs_inv db"

lemma ci_invD:
  assumes "ci_inv db"
  shows "jobs_inv db" and "requests_inv db" and "bindings_inv db" and "logs_inv db"
  using assms by (auto simp: ci_inv_def)

lemma ci_inv_empty: "ci_inv empty_ci_db"
  by (simp add: ci_inv_def jobs_inv_empty requests_inv_empty bindings_inv_empty logs_inv_empty)

text \<open>An operation that keeps jobs and logs and only reconciles requests.\<close>

lemma ci_inv_frame:
  "ci_inv db \<Longrightarrow> jobs_inv db' \<Longrightarrow> kept db db' \<and> follows db db' \<Longrightarrow> ci_inv db'"
  unfolding ci_inv_def
  by (blast intro: bindings_inv_kept logs_inv_kept followsD(3))

section \<open>Starting a job\<close>

lemma supersede_rows_kept: "kept db (snd (supersede_rows n sha ts olds db'))  = kept db db'"
  by (induction olds arbitrary: db')
    (simp_all add: supersede_one_def case_prod_unfold Let_def job_core_def end_job_def)

lemma create_job_cases:
  assumes "create_or_get_job_in_transaction a jid ts now db = Inr (res, db')"
  shows "db' = db \<or> (\<exists>db1. kept db db1 \<and> job_row jid db1 = None \<and>
    ci_jobs db' = ci_jobs db1 @ [new_job a jid ts] \<and>
    ci_job_log_chunks db' = ci_job_log_chunks db1 \<and> ci_job_steps db' = ci_job_steps db1 \<and>
    next_step_id db' = next_step_id db1)"
proof (cases "if sa_force_rerun a then None else reusable_job (sa_idem_key a) db")
  case (Some row)
  with assms show ?thesis by (simp add: create_or_get_job_in_transaction_def)
next
  case None
  obtain ids db1 where p: "(if sa_supersede_previous a
      then supersede_rows jid (sa_commit_sha a) ts (superseded_rows a db) db else ([], db)) = (ids, db1)"
    by (cases "if sa_supersede_previous a
      then supersede_rows jid (sa_commit_sha a) ts (superseded_rows a db) db else ([], db)")
  then have "kept db db1"
    using supersede_rows_kept [of db jid "sa_commit_sha a" ts "superseded_rows a db" db]
    by (auto split: if_splits)
  with assms None p show ?thesis
    by (intro disjI2 exI [of _ db1])
      (auto simp: create_or_get_job_in_transaction_def Let_def upsert_repo_queue_state_def
        split: if_splits)
qed

lemma new_job_simps [simp]: "j_job_id (new_job a jid ts) = jid" "j_log_total_bytes (new_job a jid ts) = 0"
  by (simp_all add: new_job_def)

lemma create_job_survive:
  assumes "create_or_get_job_in_transaction a jid ts now db = Inr (res, db')"
  shows "jobs_survive db db'" and "k \<noteq> jid \<Longrightarrow> job_row k db = None \<Longrightarrow> job_row k db' = None"
proof -
  have "jobs_survive db db' \<and> (k \<noteq> jid \<longrightarrow> job_row k db = None \<longrightarrow> job_row k db' = None)"
    using create_job_cases [OF assms]
  proof (elim disjE exE conjE)
    fix db1 assume 1: "kept db db1" "ci_jobs db' = ci_jobs db1 @ [new_job a jid ts]"
    have "jobs_survive db1 db'" by (auto simp: jobs_survive_def 1(2) row_of_append)
    with kept_survive [OF 1(1)] have "jobs_survive db db'" unfolding jobs_survive_def by meson
    with kept_job_row_None [OF 1(1)] show ?thesis by (auto simp: 1(2) row_of_append)
  qed (simp add: jobs_survive_def)
  then show "jobs_survive db db'" and "k \<noteq> jid \<Longrightarrow> job_row k db = None \<Longrightarrow> job_row k db' = None"
    by auto
qed

lemma create_job_logs:
  assumes inv: "logs_inv db" and run: "create_or_get_job_in_transaction a jid ts now db = Inr (res, db')"
  shows "logs_inv db'"
  using create_job_cases [OF run]
proof (elim disjE exE conjE)
  fix db1 assume 1: "kept db db1" "job_row jid db1 = None" "ci_jobs db' = ci_jobs db1 @ [new_job a jid ts]"
    "ci_job_log_chunks db' = ci_job_log_chunks db1" "ci_job_steps db' = ci_job_steps db1"
    "next_step_id db' = next_step_id db1"
  from 1(2) have "\<forall>i \<in> set (ci_jobs db1). j_job_id i \<noteq> jid" by (auto simp: row_of_None_iff)
  with 1 show ?thesis
    by (intro logs_inv_jobs [OF logs_inv_kept [OF inv 1(1)]]) auto
qed (use inv in simp)

lemma create_job_inv:
  assumes inv: "ci_inv db" and jid: "jid \<noteq> []"
    and run: "create_or_get_job_in_transaction a jid ts now db = Inr (res, db')"
  shows "ci_inv db'"
proof -
  note parts = ci_invD [OF inv]
  from create_job_frame [OF run] have "ci_requests db' = ci_requests db"
    "ci_request_events db' = ci_request_events db" by auto
  then have "requests_inv db'" "map req_core (ci_requests db') = map req_core (ci_requests db)"
    using parts(2) requests_inv_cong [of db' db] by simp_all
  moreover have "bindings_inv db'"
    using create_job_survive [OF run] bindings_invD(1) [OF parts(3)] jid calculation(2)
    by (intro bindings_inv_mono [OF parts(3)]) auto
  ultimately show ?thesis
    using create_or_get_job_inv [OF parts(1) run] create_job_logs [OF parts(4) run]
    by (simp add: ci_inv_def)
qed

section \<open>The request operations\<close>

lemma kept_requests [simp]: "kept db (db'\<lparr>ci_requests := x\<rparr>) = kept db db'"
  by (simp add: kept_def)

lemma jobs_inv_same:
  "jobs_inv db \<Longrightarrow> ci_jobs db' = ci_jobs db \<Longrightarrow>
    ci_repository_queue_state db' = ci_repository_queue_state db \<Longrightarrow> jobs_inv db'"
  by (simp add: jobs_inv_cong [of db' db])

lemma create_request_ci_inv:
  assumes inv: "ci_inv db" and run: "create_or_get_ci_request key a rid now db = Inr (p, db')"
  shows "ci_inv db'"
proof (cases "db' = db")
  case False
  note parts = ci_invD [OF inv]
  from run False obtain ev db1 where ins: "insert_request_event rid 0 ''accepted'' None
      (PhAccepted, RqAccepted) (JObj [(''request_payload'', JObj (ra_request_payload a))])
      (db\<lparr>ci_requests := ci_requests db @ [new_request a key rid now]\<rparr>) = Inr (ev, db1)"
    and fresh: "request_row rid db = None"
    and db': "db' = db1\<lparr>ci_requests := update_where (\<lambda>r. r_request_id r = rid \<and> r_revision r = 0)
                          (\<lambda>r. r\<lparr>r_last_event_id := Some ev\<rparr>) (ci_requests db1)\<rparr>"
    by (auto simp: create_or_get_ci_request_def split: if_splits option.splits sum.splits)
  note fr = insert_request_event_frame [OF ins]
  have jobs: "ci_jobs db' = ci_jobs db" using fr by (simp add: db')
  have "update_where (\<lambda>r. r_request_id r = rid \<and> r_revision r = 0)
      (\<lambda>r. r\<lparr>r_last_event_id := Some ev\<rparr>) (ci_requests db) = ci_requests db"
    using fresh by (intro update_where_none) (auto simp: row_of_None_iff)
  then have reqs: "ci_requests db' = ci_requests db @ [(new_request a key rid now)\<lparr>r_last_event_id := Some ev\<rparr>]"
    using fr by (simp add: db' update_where_append new_request_def)
  have "bindings_inv db'"
    by (rule bindings_inv_insert [OF parts(3) _ _ reqs])
      (use bindings_invD(1) [OF parts(3)] in
        \<open>simp_all add: jobs same_jobs_survive bound_ok_def new_request_def\<close>)
  moreover have "logs_inv db'"
    using logs_inv_kept [OF parts(4), of db'] kept_insert_request_event [OF ins]
    by (simp add: db' kept_def)
  ultimately show ?thesis
    using create_request_inv [OF parts(2) run] jobs_inv_same [OF parts(1), of db'] fr
    by (simp add: ci_inv_def db')
qed (use inv in simp)

lemma nonempty_truthy: "k \<noteq> [] \<Longrightarrow> truthy (Some k)"
  by simp

lemma transition_guardD:
  assumes "transition_guard db r t a = None" and "ta_worker_job_id a = Some k" and "k \<noteq> []"
  shows "assert_worker_job_identity db r k = None"
  using assms by (auto simp: transition_guard_def Let_def split: option.splits if_splits)

lemma transition_ci_inv:
  assumes inv: "ci_inv db" and run: "transition_ci_request rid expected t a now db = Inr (r', db')"
  shows "ci_inv db'"
  using run
proof (rule transition_commit)
  note parts = ci_invD [OF inv]
  fix r ev db1
  assume row: "request_row rid db = Some r" and rev: "int (r_revision r) = expected"
    and guard: "transition_guard db r t a = None"
    and ins: "insert_request_event rid (r_revision r + 1) ''transition'' (Some (request_state r)) t
       (JObj (ta_event_data a)) db = Inr (ev, db1)"
    and bind: "worker_binding_ok rid (ta_worker_job_id a) db1"
    and db': "db' = db1\<lparr>ci_requests := update_where (\<lambda>x. r_request_id x = rid \<and>
       (int (r_revision x) = expected \<and> request_state x = request_state r))
         (apply_transition t a ev now) (ci_requests db1)\<rparr>"
  note fr = insert_request_event_frame [OF ins]
  have only: "x = r" if "x \<in> set (ci_requests db)" "r_request_id x = rid" for x
    using row_of_distinct [OF requests_invD(1) [OF parts(2)] that] row by simp
  have jobs: "ci_jobs db' = ci_jobs db" using fr by (simp add: db')
  have same: "same_job_identity (apply_transition t a ev now r) j = same_job_identity r j" for j
    by (simp add: same_job_identity_def apply_transition_def)
  have wid: "r_worker_job_id (apply_transition t a ev now r) =
      coalesce (ta_worker_job_id a) (r_worker_job_id r)" by (simp add: apply_transition_def)
  have ok: "bound_ok db' (apply_transition t a ev now r)"
  proof (cases "ta_worker_job_id a")
    case None
    have "bound_ok db r" using bindings_invD(2) [OF parts(3)] row_of_SomeD [OF row] by blast
    with None show ?thesis
      by (cases "r_worker_job_id r") (simp_all add: bound_ok_def wid same jobs)
  next
    case (Some k)
    with bind bindings_invD(1) [OF parts(3)] fr have "k \<noteq> []" by (auto simp: worker_binding_ok_def)
    from transition_guardD [OF guard Some this] Some show ?thesis
      by (auto simp: assert_worker_job_identity_def bound_ok_def wid same jobs
          split: option.splits if_splits)
  qed
  have "bindings_inv db'"
  proof (rule bindings_inv_update [OF parts(3)])
    show "ci_requests db' = update_where (\<lambda>x. r_request_id x = rid \<and>
        (int (r_revision x) = expected \<and> request_state x = request_state r))
        (apply_transition t a ev now) (ci_requests db)" using fr by (simp add: db')
    show "jobs_survive db db'" "job_row [] db' = None"
      using fr bindings_invD(1) [OF parts(3)] by (simp_all add: db' same_jobs_survive)
    fix x assume x: "x \<in> set (ci_requests db)" "r_request_id x = rid \<and>
        int (r_revision x) = expected \<and> request_state x = request_state r"
    then show "bound_ok db' (apply_transition t a ev now x)" using only ok by blast
    fix k assume "r_worker_job_id (apply_transition t a ev now x) = Some k"
    with bind fr show "r_worker_job_id x = Some k \<or>
        (\<forall>y \<in> set (ci_requests db). r_request_id y = rid \<or> r_worker_job_id y \<noteq> Some k)"
      by (auto simp: apply_transition_def worker_binding_ok_def list_all_iff coalesce_def
          split: option.splits)
  qed auto
  moreover have "logs_inv db'"
    using logs_inv_kept [OF parts(4), of db'] kept_insert_request_event [OF ins] by (simp add: db')
  ultimately show ?thesis
    using transition_inv [OF parts(2) run] jobs_inv_same [OF parts(1), of db'] fr
    by (simp add: ci_inv_def db')
qed

lemma dispatch_requests_inv:
  assumes inv: "requests_inv db"
    and run: "dispatch_ci_request rid expected d jid now db = Inr ((r', dedup), db')"
  shows "requests_inv db'"
  using dispatch_commit [OF run]
proof (elim disjE conjE exE)
  fix r :: ci_request and sa :: start_args and res :: start_result and db1 db2 :: ci_db and ev :: nat
  let ?k = "j_job_id (sr_job res)"
  assume row: "request_row rid db = Some r" and st: "request_state r = (PhPreparing, RqPreparing)"
    and rev: "int (r_revision r) = expected"
    and job: "create_ci_request_job_in_transaction rid sa jid now db = Inr (res, db1)"
    and ins: "insert_request_event rid (r_revision r + 1) ''worker_queued''
         (Some (PhPreparing, RqPreparing)) (PhQueued, RqQueued)
         (JObj (da_event_data d @ [(''worker_job_id'', JStr ?k),
            (''git_tree_sha'', JStr (da_tree_sha d))])) db1 = Inr (ev, db2)"
    and db': "db' = db2\<lparr>ci_requests := update_where (\<lambda>x. r_request_id x = rid \<and>
          (int (r_revision x) = expected \<and> request_state x = (PhPreparing, RqPreparing)))
            (dispatched (da_tree_sha d) ?k ev now) (ci_requests db2)\<rparr>"
  from create_job_frame [OF job [unfolded create_ci_request_job_in_transaction_def]]
  have "requests_inv db1" and row1: "request_row rid db1 = Some r"
    using inv row requests_inv_cong [of db1 db] by simp_all
  then show ?thesis
    by (rule requests_inv_advance [OF _ _ _ ins [folded st], where
          Q = "\<lambda>x. int (r_revision x) = expected \<and> request_state x = (PhPreparing, RqPreparing)"
          and f = "dispatched (da_tree_sha d) ?k ev now"])
      (use rev st insert_request_event_frame [OF ins] in
        \<open>simp_all add: db' valid_phase_status_def forward_step_def\<close>)
qed (use inv in simp)

lemma dispatch_ci_inv:
  assumes inv: "ci_inv db" and jid: "jid \<noteq> []"
    and run: "dispatch_ci_request rid expected d jid now db = Inr ((r', dedup), db')"
  shows "ci_inv db'"
  using dispatch_commit [OF run]
proof (elim disjE conjE exE)
  fix r :: ci_request and sa :: start_args and res :: start_result and db1 db2 :: ci_db and ev :: nat
  let ?k = "j_job_id (sr_job res)"
  assume row: "request_row rid db = Some r" and st: "request_state r = (PhPreparing, RqPreparing)"
    and rev: "int (r_revision r) = expected"
    and job: "create_ci_request_job_in_transaction rid sa jid now db = Inr (res, db1)"
    and id: "assert_worker_job_identity db1 r ?k = None"
    and ins: "insert_request_event rid (r_revision r + 1) ''worker_queued''
         (Some (PhPreparing, RqPreparing)) (PhQueued, RqQueued)
         (JObj (da_event_data d @ [(''worker_job_id'', JStr ?k),
            (''git_tree_sha'', JStr (da_tree_sha d))])) db1 = Inr (ev, db2)"
    and bind: "worker_binding_ok rid (Some ?k) db2"
    and db': "db' = db2\<lparr>ci_requests := update_where (\<lambda>x. r_request_id x = rid \<and>
          (int (r_revision x) = expected \<and> request_state x = (PhPreparing, RqPreparing)))
            (dispatched (da_tree_sha d) ?k ev now) (ci_requests db2)\<rparr>"
  from job have job': "create_or_get_job_in_transaction
      (sa\<lparr>sa_force_rerun := False, sa_idem_key := ''ci-request:'' @ rid\<rparr>) jid now now db = Inr (res, db1)"
    by (simp add: create_ci_request_job_in_transaction_def)
  note parts = ci_invD [OF create_job_inv [OF inv jid job']]
  from create_job_frame [OF job'] row have row1: "request_row rid db1 = Some r" by simp
  note fr = insert_request_event_frame [OF ins]
  have jobs: "ci_jobs db' = ci_jobs db1" using fr by (simp add: db')
  have reqs: "ci_requests db' = update_where (\<lambda>x. r_request_id x = rid \<and>
      (int (r_revision x) = expected \<and> request_state x = (PhPreparing, RqPreparing)))
      (dispatched (da_tree_sha d) ?k ev now) (ci_requests db1)" using fr by (simp add: db')
  have only: "x = r" if "x \<in> set (ci_requests db1)" "r_request_id x = rid" for x
    using row_of_distinct [OF requests_invD(1) [OF parts(2)] that] row1 by simp
  have same: "same_job_identity (dispatched (da_tree_sha d) ?k ev now r) j = same_job_identity r j" for j
    by (simp add: same_job_identity_def dispatched_def)
  have ok: "bound_ok db' (dispatched (da_tree_sha d) ?k ev now r)"
    using id by (auto simp: assert_worker_job_identity_def bound_ok_def same jobs
        split: option.splits if_splits)
  have "bindings_inv db'"
  proof (rule bindings_inv_update [OF parts(3) _ _ reqs])
    show "jobs_survive db1 db'" "job_row [] db' = None"
      using bindings_invD(1) [OF parts(3)] by (simp_all add: jobs same_jobs_survive)
    fix x assume x: "x \<in> set (ci_requests db1)" "r_request_id x = rid \<and>
        int (r_revision x) = expected \<and> request_state x = (PhPreparing, RqPreparing)"
    then show "bound_ok db' (dispatched (da_tree_sha d) ?k ev now x)" using only ok by blast
    fix k assume "r_worker_job_id (dispatched (da_tree_sha d) ?k ev now x) = Some k"
    with bind fr show "r_worker_job_id x = Some k \<or>
        (\<forall>y \<in> set (ci_requests db1). r_request_id y = rid \<or> r_worker_job_id y \<noteq> Some k)"
      by (auto simp: worker_binding_ok_def list_all_iff)
  qed auto
  moreover have "logs_inv db'"
    using logs_inv_kept [OF parts(4), of db'] kept_insert_request_event [OF ins] by (simp add: db')
  moreover have "requests_inv db'" by (rule dispatch_requests_inv [OF ci_invD(2) [OF inv] run])
  ultimately show ?thesis
    using jobs_inv_same [OF parts(1), of db'] fr by (simp add: ci_inv_def db')
qed (use inv in simp)

section \<open>Clean-up\<close>

text \<open>Deleting finished jobs with their logs and bindings.\<close>

lemma row_of_filter_distinct:
  assumes "distinct (map key t)"
  shows "row_of key k (filter Q t) = (case row_of key k t of None \<Rightarrow> None
     | Some r \<Rightarrow> if Q r then Some r else None)"
  using assms
proof (induction t)
  case (Cons a t)
  then show ?case
    by (auto simp: row_of_None_iff split: option.splits) (metis image_eqI row_of_SomeD)+
qed simp

lemma requests_inv_relabel:
  assumes inv: "requests_inv db"
    and f: "\<And>x. r_request_id (f x) = r_request_id x" "\<And>x. r_revision (f x) = r_revision x"
      "\<And>x. request_state (f x) = request_state x"
    and db': "ci_requests db' = update_where P f (ci_requests db)"
      "ci_request_events db' = ci_request_events db"
  shows "requests_inv db'"
proof -
  have ev: "events_of k db' = events_of k db" for k by (simp add: events_of_def db')
  have "request_state x \<in> set valid_phase_status \<and> log_ok x (events_of (r_request_id x) db)"
    if "x \<in> set (ci_requests db')" for x
  proof -
    from that obtain y where y: "y \<in> set (ci_requests db)" "x = (if P y then f y else y)"
      by (auto simp: db' set_update_where_iff)
    then show ?thesis
      using requests_invD(2,3) [OF inv y(1)] by (auto simp: f log_ok_def)
  qed
  then show ?thesis
    using requests_invD(1,4) [OF inv]
    by (simp add: requests_inv_def ev db'(2)) (simp add: db' distinct_update_where image_update_where f)
qed

text \<open>The ids the clean-up removes, and what it leaves of every table.\<close>

definition removed_ids :: "int \<Rightarrow> time \<Rightarrow> ci_db \<Rightarrow> string list" where
  "removed_ids h now db =
     map j_job_id (filter (\<lambda>j. sql_lt (j_finished_at j) (now - of_int (h * 3600))) (ci_jobs db))"

lemma cleanup_tables:
  "ci_jobs (cleanup_old_jobs h now db) =
     filter (\<lambda>j. \<not> sql_lt (j_finished_at j) (now - of_int (h * 3600))) (ci_jobs db)"
  "ci_job_steps (cleanup_old_jobs h now db) =
     filter (\<lambda>s. s_job_id s \<notin> set (removed_ids h now db)) (ci_job_steps db)"
  "next_step_id (cleanup_old_jobs h now db) = next_step_id db"
  "ci_job_log_chunks (cleanup_old_jobs h now db) =
     filter (\<lambda>c. c_job_id c \<notin> set (removed_ids h now db)) (ci_job_log_chunks db)"
  "ci_request_events (cleanup_old_jobs h now db) = ci_request_events db"
  "ci_requests (cleanup_old_jobs h now db) = update_where
     (\<lambda>r. case r_worker_job_id r of None \<Rightarrow> False | Some k \<Rightarrow> k \<in> set (removed_ids h now db))
     (\<lambda>r. r\<lparr>r_worker_job_id := None\<rparr>) (ci_requests db)"
  unfolding cleanup_old_jobs_def Let_def removed_ids_def [symmetric] by simp_all

lemma removed_iff:
  assumes "distinct (map j_job_id (ci_jobs db))" and "j \<in> set (ci_jobs db)"
  shows "j_job_id j \<in> set (removed_ids h now db) \<longleftrightarrow>
    sql_lt (j_finished_at j) (now - of_int (h * 3600))"
proof
  assume "j_job_id j \<in> set (removed_ids h now db)"
  then obtain i where "i \<in> set (ci_jobs db)" "j_job_id j = j_job_id i"
    "sql_lt (j_finished_at i) (now - of_int (h * 3600))" by (auto simp: removed_ids_def)
  with assms show "sql_lt (j_finished_at j) (now - of_int (h * 3600))"
    by (metis distinct_map inj_onD)
qed (use assms(2) in \<open>simp add: removed_ids_def\<close>)

lemma cleanup_job_row:
  assumes "distinct (map j_job_id (ci_jobs db))"
  shows "job_row k (cleanup_old_jobs h now db) =
    (if k \<in> set (removed_ids h now db) then None else job_row k db)"
proof (cases "job_row k db")
  case None
  then show ?thesis by (simp add: cleanup_tables row_of_filter_distinct [OF assms])
next
  case (Some j)
  from row_of_SomeD [OF Some] removed_iff [OF assms] show ?thesis
    by (auto simp: cleanup_tables row_of_filter_distinct [OF assms] Some)
qed

lemma cleanup_job_chunks:
  "job_chunks k (cleanup_old_jobs h now db) =
    (if k \<in> set (removed_ids h now db) then [] else job_chunks k db)"
proof (cases "k \<in> set (removed_ids h now db)")
  case True
  then show ?thesis by (auto simp: job_chunks_def cleanup_tables filter_empty_conv)
next
  case False
  then show ?thesis by (auto simp: job_chunks_def cleanup_tables intro: filter_cong)
qed

lemma cleanup_bindings:
  assumes inv: "bindings_inv db" and dist: "distinct (map j_job_id (ci_jobs db))"
  shows "bindings_inv (cleanup_old_jobs h now db)" (is "bindings_inv ?db")
proof -
  have from_old: "x \<in> set (ci_requests db) \<and> k \<notin> set (removed_ids h now db)"
    if x: "x \<in> set (ci_requests ?db)" and k: "r_worker_job_id x = Some k" for x k
  proof -
    from x obtain y where y: "y \<in> set (ci_requests db)" "x = (if (case r_worker_job_id y of
        None \<Rightarrow> False | Some k \<Rightarrow> k \<in> set (removed_ids h now db)) then y\<lparr>r_worker_job_id := None\<rparr> else y)"
      by (auto simp: cleanup_tables set_update_where_iff)
    with k show ?thesis by (auto split: if_splits option.splits)
  qed
  have "bound_ok ?db x" if x: "x \<in> set (ci_requests ?db)" for x
  proof (cases "r_worker_job_id x")
    case (Some k)
    from from_old [OF x Some] have "bound_ok db x" "k \<notin> set (removed_ids h now db)"
      using bindings_invD(2) [OF inv] by blast+
    with Some show ?thesis by (simp add: bound_ok_def cleanup_job_row [OF dist])
  qed (simp add: bound_ok_def)
  moreover have "r_request_id x = r_request_id y"
    if x: "x \<in> set (ci_requests ?db)" and y: "y \<in> set (ci_requests ?db)"
      and k: "r_worker_job_id x \<noteq> None \<and> r_worker_job_id x = r_worker_job_id y" for x y
  proof -
    from k obtain k where k: "r_worker_job_id x = Some k" "r_worker_job_id y = Some k"
      by (metis option.collapse)
    from from_old [OF x k(1)] from_old [OF y k(2)] bindings_invD(3) [OF inv _ _ k]
    show ?thesis by blast
  qed
  moreover have "job_row [] ?db = None"
    by (simp add: cleanup_job_row [OF dist] bindings_invD(1) [OF inv])
  ultimately show ?thesis unfolding bindings_inv_def by blast
qed

lemma cleanup_logs:
  assumes inv: "logs_inv db" and dist: "distinct (map j_job_id (ci_jobs db))"
  shows "logs_inv (cleanup_old_jobs h now db)" (is "logs_inv ?db")
proof -
  note ch = cleanup_job_chunks [of _ h now db]
  have le: "k \<notin> set (removed_ids h now db) \<Longrightarrow> log_end k ?db = log_end k db"
    "k \<notin> set (removed_ids h now db) \<Longrightarrow> job_log k ?db = job_log k db" for k
    by (simp_all add: log_end_def job_log_def ch)
  have "c_job_id c \<in> j_job_id ` set (ci_jobs ?db)" if c: "c \<in> set (ci_job_log_chunks ?db)" for c
  proof -
    from c have "c \<in> set (ci_job_log_chunks db)" "c_job_id c \<notin> set (removed_ids h now db)"
      by (simp_all add: cleanup_tables)
    moreover from this(1) obtain j where "j \<in> set (ci_jobs db)" "c_job_id c = j_job_id j"
      using logs_invD(2) [OF inv] by blast
    ultimately show ?thesis using removed_iff [OF dist] by (simp add: cleanup_tables)
  qed
  moreover have "j_log_total_bytes j = int (length (job_log (j_job_id j) ?db))"
    if "j \<in> set (ci_jobs ?db)" for j
  proof -
    from that have j: "j \<in> set (ci_jobs db)" "j_job_id j \<notin> set (removed_ids h now db)"
      using removed_iff [OF dist] by (simp_all add: cleanup_tables)
    with logs_invD(3) [OF inv j(1)] show ?thesis by (simp add: le)
  qed
  moreover have "step_ok ?db s" if "s \<in> set (ci_job_steps ?db)" for s
    using that logs_invD(5) [OF inv, of s] by (simp add: cleanup_tables step_ok_def le)
  ultimately show ?thesis
    using logs_invD(1,4,6) [OF inv] unfolding logs_inv_def
    by (simp add: ch cleanup_tables(2,3) distinct_map_filter)
qed

lemma cleanup_ci_inv:
  assumes inv: "ci_inv db"
  shows "ci_inv (cleanup_old_jobs h now db)"
proof -
  note parts = ci_invD [OF inv]
  have "requests_inv (cleanup_old_jobs h now db)"
    by (rule requests_inv_relabel [OF parts(2) _ _ _ cleanup_tables(6,5)])
      (simp_all add: request_state_def)
  with cleanup_old_jobs_inv [OF parts(1)] cleanup_bindings [OF parts(3)] cleanup_logs [OF parts(4)]
    jobs_invD(1) [OF parts(1)]
  show ?thesis by (simp add: ci_inv_def)
qed

section \<open>Logs and steps\<close>

lemma ci_inv_logs:
  assumes inv: "ci_inv db" and jobs: "ci_jobs db' = update_where P f (ci_jobs db)"
    and f: "\<And>x. (f x)\<lparr>j_log_total_bytes := 0\<rparr> = x\<lparr>j_log_total_bytes := 0\<rparr>"
    and same: "ci_repository_queue_state db' = ci_repository_queue_state db"
      "ci_requests db' = ci_requests db" "ci_request_events db' = ci_request_events db"
    and logs: "logs_inv db'"
  shows "ci_inv db'"
proof -
  note parts = ci_invD [OF inv]
  have fields: "j_job_id (f x) = j_job_id x" "j_repository (f x) = j_repository x"
    "j_branch (f x) = j_branch x" "j_commit_sha (f x) = j_commit_sha x" "j_profile (f x) = j_profile x"
    "j_status (f x) = j_status x" "lease_shape (f x) = lease_shape x" for x
    using f [of x] by (cases x; cases "f x"; simp add: lease_shape_def)+
  have "jobs_inv (update_jobs P f db)"
    by (rule jobs_inv_quiet [OF parts(1)]) (simp_all add: fields)
  then have "jobs_inv db'"
    by (rule jobs_inv_same) (simp_all add: jobs same update_jobs_def)
  moreover have "requests_inv db'" using parts(2) same requests_inv_cong [of db' db] by simp
  moreover have "bindings_inv db'"
  proof (rule bindings_inv_mono [OF parts(3)])
    show "jobs_survive db db'"
      by (auto simp: jobs_survive_def jobs row_of_update_where fields same_job_identity_def)
    show "job_row [] db' = None"
      using bindings_invD(1) [OF parts(3)] by (simp add: jobs row_of_update_where fields)
  qed (simp add: same)
  ultimately show ?thesis using logs by (simp add: ci_inv_def)
qed

lemma insert_chunk_ci_inv:
  assumes inv: "ci_inv db" and "job_row jid db \<noteq> None" and "content \<noteq> []"
  shows "ci_inv (insert_chunk jid content data db)"
  by (rule ci_inv_logs [OF inv insert_chunk_frame(3)])
    (use assms insert_chunk_inv [OF ci_invD(4) [OF inv]] in
      \<open>simp_all add: insert_chunk_def\<close>)

lemma ci_inv_batches: "ci_inv db \<Longrightarrow> ci_inv (db\<lparr>ci_job_log_batches := b\<rparr>)"
proof (rule ci_inv_frame)
  assume "ci_inv db"
  from ci_invD(1) [OF this] show "jobs_inv (db\<lparr>ci_job_log_batches := b\<rparr>)"
    by (rule jobs_inv_same) simp_all
qed (auto simp: kept_def follows_same)

lemma append_log_chunk_ci_inv:
  "ci_inv db \<Longrightarrow> content \<noteq> [] \<Longrightarrow> append_log_chunk H jid content wid token now db = Inr (n, db') \<Longrightarrow>
    ci_inv db'"
  by (auto simp: append_log_chunk_def split: if_splits intro: insert_chunk_ci_inv)

lemma append_log_batch_ci_inv:
  "ci_inv db \<Longrightarrow> append_log_batch H jid batch content wid token now db = Inr (p, db') \<Longrightarrow> ci_inv db'"
  by (auto simp: append_log_batch_def split: if_splits intro!: insert_chunk_ci_inv ci_inv_batches)

lemma add_step_ci_inv:
  assumes inv: "ci_inv db" and run: "add_step H jid name st wid token ts now db = Inr (n, db')"
  shows "ci_inv db'"
proof -
  note logs = ci_invD(4) [OF inv]
  from run have db': "db' = db\<lparr>ci_job_steps := ci_job_steps db' , next_step_id := Suc (next_step_id db)\<rparr>"
    and steps: "ci_job_steps db' = ci_job_steps db @
       [\<lparr>s_id = next_step_id db, s_job_id = jid, s_step_name = name, s_status = st,
         s_exit_code = None, s_started_at = (if st = ''running'' then Some ts else None),
         s_finished_at = None, s_duration_seconds = None,
         s_log_start_offset = log_end jid db, s_log_end_offset = log_end jid db\<rparr>]"
    by (auto simp: add_step_def split: if_splits)
  have same: "ci_jobs db' = update_where (\<lambda>_. False) id (ci_jobs db)"
    "ci_repository_queue_state db' = ci_repository_queue_state db"
    "ci_requests db' = ci_requests db" "ci_request_events db' = ci_request_events db"
    "ci_job_log_chunks db' = ci_job_log_chunks db" "next_step_id db' = Suc (next_step_id db)"
    by (subst db'; simp add: update_where_none)+
  have le: "log_end k db' = log_end k db" "job_log k db' = log_end_text"
    if "log_end_text = job_log k db" for k log_end_text
    using that by (simp_all add: log_end_def job_log_def job_chunks_def same)
  have "logs_inv db'"
    using logs_invD [OF logs] log_end_length [OF logs, of jid] le
    by (fastforce simp: logs_inv_def same steps update_where_none job_chunks_def step_ok_def less_Suc_eq)
  with same show ?thesis by (intro ci_inv_logs [OF inv same(1)]) simp_all
qed

lemma step_end_bounds:
  "0 \<le> a \<Longrightarrow> a \<le> p \<Longrightarrow> a \<le> step_end_offset a p r \<and> step_end_offset a p r \<le> p"
  by (auto simp: step_end_offset_def Let_def split: option.splits)

lemma finish_step_ci_inv:
  assumes inv: "ci_inv db"
    and run: "finish_step H sid st ec req jid wid token ts now db = Inr (b, db')"
  shows "ci_inv db'"
proof (cases "db' = db")
  case False
  note logs = ci_invD(4) [OF inv]
  from run False obtain row where find: "List.find (\<lambda>s. s_id s = sid \<and>
      ((jid \<noteq> None \<or> wid \<noteq> None \<or> token \<noteq> None) \<longrightarrow> Some (s_job_id s) = jid)) (ci_job_steps db) = Some row"
    and db': "db' = add_event (s_job_id row) ''step_completed''
               (JObj [(''step_id'', JInt (int sid)), (''step_name'', JStr (s_step_name row)),
                      (''status'', JStr st)])
               (db\<lparr>ci_job_steps := update_where (\<lambda>s. s_id s = sid \<and> s_job_id s = s_job_id row)
                     (finish_step_row st ec ts row
                       (step_end_offset (s_log_start_offset row) (log_end (s_job_id row) db) req))
                     (ci_job_steps db)\<rparr>)"
    by (auto simp: finish_step_def Let_def split: if_splits option.splits)
  from find have row: "row \<in> set (ci_job_steps db)" "s_id row = sid"
    by (auto simp: find_Some_iff in_set_conv_nth)
  have same: "ci_jobs db' = update_where (\<lambda>_. False) id (ci_jobs db)"
    "ci_repository_queue_state db' = ci_repository_queue_state db"
    "ci_requests db' = ci_requests db" "ci_request_events db' = ci_request_events db"
    "ci_job_log_chunks db' = ci_job_log_chunks db" "next_step_id db' = next_step_id db"
    by (simp_all add: db' update_where_none add_event_def)
  have steps: "ci_job_steps db' = update_where (\<lambda>s. s_id s = sid \<and> s_job_id s = s_job_id row)
                     (finish_step_row st ec ts row
                       (step_end_offset (s_log_start_offset row) (log_end (s_job_id row) db) req))
                     (ci_job_steps db)" by (simp add: db' add_event_def)
  have le: "log_end k db' = log_end k db" "job_log k db' = job_log k db" "job_chunks k db' = job_chunks k db" for k
    by (simp_all add: log_end_def job_log_def job_chunks_def same)
  have one: "s = row" if "s \<in> set (ci_job_steps db)" "s_id s = sid" for s
    using that row logs_invD(6) [OF logs] by (metis distinct_map inj_onD)
  have "s_id s < next_step_id db \<and> step_ok db' s" if s: "s \<in> set (ci_job_steps db')" for s
  proof -
    from s obtain x where x: "x \<in> set (ci_job_steps db)" "s = (if s_id x = sid \<and> s_job_id x = s_job_id row
        then finish_step_row st ec ts row (step_end_offset (s_log_start_offset row)
               (log_end (s_job_id row) db) req) x else x)"
      by (auto simp: steps set_update_where_iff)
    note ok = logs_invD(4,5) [OF logs x(1)]
    show ?thesis
    proof (cases "s_id x = sid")
      case True
      with one x have "x = row" by blast
      with x ok step_end_bounds [of "s_log_start_offset row" "log_end (s_job_id row) db" req]
      show ?thesis by (auto simp: step_ok_def le finish_step_row_def row(2))
    qed (use x ok in \<open>simp add: step_ok_def le\<close>)
  qed
  moreover have "distinct (map s_id (ci_job_steps db'))"
    using logs_invD(6) [OF logs] by (simp add: steps distinct_update_where finish_step_row_def)
  ultimately have "logs_inv db'"
    using logs_invD(1,2,3) [OF logs] by (simp add: logs_inv_def le same update_where_none)
  with same show ?thesis by (intro ci_inv_logs [OF inv same(1)]) simp_all
qed (use inv in simp)

text \<open>On ranges the operations wrote, the repair of the startup finds nothing to do.\<close>

lemma repair_nothing:
  assumes "logs_inv db"
  shows "repair_step_ranges db = db"
proof -
  have "\<not> invalid_range s" if "s \<in> set (ci_job_steps db)" for s
    using logs_invD(5) [OF assms that] by (simp add: invalid_range_def step_ok_def)
  then show ?thesis by (simp add: repair_step_ranges_def update_where_none)
qed

end
