(* ===== verification/CI_System.thy ===== *)
theory CI_System
  imports CI_Invariant
begin

text \<open>
  The controller as a transition system: every committed transaction of the CI stores is a step.
  Workers report with a credential, a status report names a status of a running attempt and a
  completion a final status, as the agent of \<open>services/private-ci-agent\<close> sends them; log uploads
  are not empty, which the upload route checks; new jobs have an id.
\<close>

section \<open>Startup\<close>

lemma legacy_state_valid: "legacy_request_state st \<in> set valid_phase_status"
  by (cases st) (auto simp: valid_phase_status_def terminal_statuses_def)

lemma backfill_one_ci_inv:
  assumes inv: "ci_inv db" and j: "j \<in> set (ci_jobs db)" and run: "backfill_one j db = Inr (b, db')"
  shows "ci_inv db' \<and> ci_jobs db' = ci_jobs db"
proof (cases "db' = db")
  case False
  note parts = ci_invD [OF inv]
  from run False obtain ev db1 where
    free: "\<forall>r \<in> set (ci_requests db). r_request_id r \<noteq> j_job_id j \<and> r_worker_job_id r \<noteq> Some (j_job_id j)"
    and ins: "insert_request_event (j_job_id j) 0 ''legacy_backfill'' None
       (legacy_request_state (j_status j))
       (JObj [(''legacy_job_status'', JStr (job_status_text (j_status j)))])
       (db\<lparr>ci_requests := ci_requests db @ [legacy_request j]\<rparr>) = Inr (ev, db1)"
    and db': "db' = db1\<lparr>ci_requests := update_where (\<lambda>r. r_request_id r = j_job_id j \<and> r_revision r = 0)
                    (\<lambda>r. r\<lparr>r_last_event_id := Some ev\<rparr>) (ci_requests db1)\<rparr>"
    by (auto simp: backfill_one_def list_ex_iff split: if_splits sum.splits)
  note fr = insert_request_event_frame [OF ins]
  have fresh: "request_row (j_job_id j) db = None" using free by (auto simp: row_of_None_iff)
  have jobs: "ci_jobs db' = ci_jobs db" using fr by (simp add: db')
  have "update_where (\<lambda>r. r_request_id r = j_job_id j \<and> r_revision r = 0)
      (\<lambda>r. r\<lparr>r_last_event_id := Some ev\<rparr>) (ci_requests db) = ci_requests db"
    using free by (intro update_where_none) auto
  then have reqs: "ci_requests db' = ci_requests db @ [(legacy_request j)\<lparr>r_last_event_id := Some ev\<rparr>]"
    using fr by (simp add: db' update_where_append legacy_request_def)
  have row: "job_row (j_job_id j) db = Some j"
    using row_of_distinct [OF jobs_invD(1) [OF parts(1)] j] by simp
  have "bindings_inv db'"
    by (rule bindings_inv_insert [OF parts(3) _ _ reqs])
      (use bindings_invD(1) [OF parts(3)] free row in
        \<open>auto simp: jobs same_jobs_survive bound_ok_def legacy_request_def same_job_identity_def\<close>)
  moreover have "requests_inv db'"
    by (rule requests_inv_insert [OF parts(2) fresh _ _ _ legacy_state_valid ins])
      (simp_all add: db' legacy_request_def request_state_def)
  moreover have "logs_inv db'"
    using logs_inv_kept [OF parts(4), of db'] kept_insert_request_event [OF ins]
    by (simp add: db' kept_def)
  ultimately show ?thesis
    using jobs_inv_same [OF parts(1), of db'] fr jobs by (simp add: ci_inv_def db')
qed (use inv in simp)

lemma backfill_rows_ci_inv:
  "ci_inv db \<Longrightarrow> set js \<subseteq> set (ci_jobs db) \<Longrightarrow> backfill_rows js db = Inr (n, db') \<Longrightarrow> ci_inv db'"
proof (induction js arbitrary: db n)
  case (Cons j js)
  from Cons.prems(3) obtain b db1 m where 1: "backfill_one j db = Inr (b, db1)"
    "backfill_rows js db1 = Inr (m, db')" by (auto split: sum.splits)
  with backfill_one_ci_inv [OF Cons.prems(1) _ 1(1)] Cons.prems(2) Cons.IH show ?case by auto
qed simp

lemma reconcile_all_ci_inv:
  assumes "ci_inv db" and "reconcile_all ws now db = Inr (n, db')"
  shows "ci_inv db'"
  using reconcile_all_frame [OF assms(2)] jobs_inv_same [OF ci_invD(1) [OF assms(1)], of db']
  by (intro ci_inv_frame [OF assms(1)]) auto

lemma startup_ci_inv:
  assumes "ci_inv db" and "startup_requests now db = Inr (n, db')"
  shows "ci_inv db'"
proof -
  from assms(2) obtain m db1 where
    1: "backfill_rows (sort_key (\<lambda>j. (j_created_at j, j_job_id j)) (ci_jobs db)) db = Inr (m, db1)"
    and 2: "reconcile_all (pending_worker_job_ids db1) now db1 = Inr (n, db')"
    by (auto simp: startup_requests_def backfill_legacy_jobs_def
        reconcile_pending_worker_requests_in_db_def split: sum.splits)
  from backfill_rows_ci_inv [OF assms(1) _ 1] have "ci_inv db1" by simp
  from reconcile_all_ci_inv [OF this 2] show ?thesis .
qed

section \<open>Workers\<close>

lemma ci_inv_workers: "ci_inv db \<Longrightarrow> ci_inv (db\<lparr>ci_workers := ws\<rparr>)"
proof (rule ci_inv_frame)
  assume "ci_inv db"
  from ci_invD(1) [OF this] show "jobs_inv (db\<lparr>ci_workers := ws\<rparr>)"
    by (rule jobs_inv_same) simp_all
qed (auto simp: kept_def follows_same)

section \<open>Steps\<close>

text \<open>
  The operations of the CI core with what their callers give them.  Two rules assume more of a worker
  than the code checks: \<open>update_status\<close> stores whatever status text the worker sends, here that of a
  running attempt, and a completion names a final status.
\<close>

inductive ci_step :: "(string \<Rightarrow> string) \<Rightarrow> ci_db \<Rightarrow> ci_db \<Rightarrow> bool" for H where
  register: "ci_step H db (register_worker H wid token profiles maxc ts db)"
| heartbeat: "ci_step H db (update_worker_heartbeat wid ts db)"
| worker_startup: "ci_step H db (snd (reconcile_worker_startup wid now db))"
| recover_worker: "ci_step H db (snd (recover_worker_jobs wid ts db))"
| stale_workers: "ci_step H db (snd (reconcile_stale_workers ts db))"
| start: "jid \<noteq> [] \<Longrightarrow> create_or_get_job H a jid ts now db = Inr (r, db') \<Longrightarrow> ci_step H db db'"
| lease: "ci_step H db (snd (lease_job H wid profiles maxc token ts db))"
| renew: "ci_step H db (snd (renew_lease H jid token wid ts db))"
| progress: "is_active st \<Longrightarrow> set_job_status H jid st (Some wid) (Some token) now db = Inr (b, db') \<Longrightarrow>
    ci_step H db db'"
| source: "set_job_source_downloaded H jid sha n wid token now db = Inr (b, db') \<Longrightarrow> ci_step H db db'"
| log_chunk: "content \<noteq> [] \<Longrightarrow>
    append_log_chunk H jid content (Some wid) (Some token) now db = Inr (n, db') \<Longrightarrow> ci_step H db db'"
| log_batch: "append_log_batch H jid batch content (Some wid) (Some token) now db = Inr (p, db') \<Longrightarrow>
    ci_step H db db'"
| step_start: "add_step H jid name st (Some wid) (Some token) ts now db = Inr (sid, db') \<Longrightarrow>
    ci_step H db db'"
| step_end: "finish_step H sid st ec req (Some jid) (Some wid) (Some token) ts now db = Inr (b, db') \<Longrightarrow>
    ci_step H db db'"
| complete: "is_finished st \<Longrightarrow>
    complete_job H jid ec st sm ecode emsg (Some wid) (Some token) ts now db = Inr (b, db') \<Longrightarrow>
    ci_step H db db'"
| release: "release_job H jid (Some wid) (Some token) now db = Inr (b, db') \<Longrightarrow> ci_step H db db'"
| cancel_running: "ci_step H db (snd (request_cancel_job jid db))"
| cancel_queued: "cancel_queued_job jid now db = Inr (b, db') \<Longrightarrow> ci_step H db db'"
| expire: "recover_expired_leases ts db = Inr (n, db') \<Longrightarrow> ci_step H db db'"
| cleanup: "ci_step H db (cleanup_old_jobs h now db)"
| request: "create_or_get_ci_request key ra rid now db = Inr (rp, db') \<Longrightarrow> ci_step H db db'"
| transition: "transition_ci_request rid expected t ta now db = Inr (r', db') \<Longrightarrow> ci_step H db db'"
| dispatch: "jid \<noteq> [] \<Longrightarrow> dispatch_ci_request rid expected d jid now db = Inr (rd, db') \<Longrightarrow> ci_step H db db'"
| startup: "startup_requests now db = Inr (n, db') \<Longrightarrow> ci_step H db db'"
| repair: "ci_step H db (repair_step_ranges db)"

lemma worker_ops_ci_inv:
  assumes "ci_inv db"
  shows "ci_inv (register_worker H wid token profiles maxc ts db)"
    and "ci_inv (update_worker_heartbeat wid ts db)"
    and "ci_inv (snd (reconcile_worker_startup wid ts db))"
    and "ci_inv (snd (reconcile_stale_workers ts db))"
  using assms
  by (auto simp: register_worker_def update_worker_heartbeat_def reconcile_worker_startup_def
      set_worker_idle_def reconcile_stale_workers_def Let_def ci_inv_workers split: option.splits)

lemma ci_step_inv:
  assumes "ci_step H db db'" and inv: "ci_inv db"
  shows "ci_inv db'"
  using assms(1)
proof cases
  case (start jid a ts now r)
  then show ?thesis using create_job_inv [OF inv] by (simp add: create_or_get_job_def)
next
  case (dispatch jid rid expected d now rd)
  then show ?thesis using dispatch_ci_inv [OF inv, of jid rid expected d now "fst rd" "snd rd"] by simp
next
  case (progress st jid wid token now b)
  from set_job_status_inv [OF ci_invD(1) [OF inv] progress(1) _ progress(2)]
  have "jobs_inv db'" by simp
  then show ?thesis by (rule ci_inv_frame [OF inv _ set_job_status_frame [OF progress(2)]])
next
  case (source jid sha n wid token now b)
  from set_job_source_downloaded_inv [OF ci_invD(1) [OF inv] source]
  show ?thesis by (rule ci_inv_frame [OF inv _ set_job_source_frame [OF source]])
next
  case (complete st jid ec sm ecode emsg wid token ts now b)
  from complete_job_inv [OF ci_invD(1) [OF inv] complete(1) _ complete(2)]
  have "jobs_inv db'" by simp
  then show ?thesis by (rule ci_inv_frame [OF inv _ complete_job_frame [OF complete(2)]])
next
  case (release jid wid token now b)
  from release_job_inv [OF ci_invD(1) [OF inv] _ release]
  have "jobs_inv db'" by simp
  then show ?thesis by (rule ci_inv_frame [OF inv _ release_job_frame [OF release]])
next
  case (cancel_queued jid now b)
  from cancel_queued_job_inv [OF ci_invD(1) [OF inv] cancel_queued]
  show ?thesis by (rule ci_inv_frame [OF inv _ cancel_queued_job_frame [OF cancel_queued]])
next
  case (expire ts n)
  from recover_expired_leases_inv [OF ci_invD(1) [OF inv] expire]
  show ?thesis by (rule ci_inv_frame [OF inv _ recover_expired_leases_frame [OF expire]])
next
  case (lease wid profiles maxc token ts)
  then show ?thesis
    using ci_inv_frame [OF inv lease_job_inv [OF ci_invD(1) [OF inv]] lease_job_frame] by simp
next
  case (renew jid token wid ts)
  then show ?thesis
    using ci_inv_frame [OF inv renew_lease_inv [OF ci_invD(1) [OF inv]] renew_lease_frame] by simp
next
  case (cancel_running jid)
  then show ?thesis
    using ci_inv_frame [OF inv request_cancel_job_inv [OF ci_invD(1) [OF inv]] request_cancel_job_frame]
    by simp
next
  case (recover_worker wid ts)
  then show ?thesis
    using ci_inv_frame [OF inv recover_worker_jobs_inv [OF ci_invD(1) [OF inv]] recover_worker_jobs_frame]
    by simp
next
  case repair
  then show ?thesis using repair_nothing [OF ci_invD(4) [OF inv]] inv by simp
next
  case (cleanup h now)
  then show ?thesis using cleanup_ci_inv [OF inv] by simp
next
  case (log_chunk content jid wid token now n)
  then show ?thesis by (rule append_log_chunk_ci_inv [OF inv])
next
  case (log_batch jid batch content wid token now p)
  then show ?thesis by (rule append_log_batch_ci_inv [OF inv])
next
  case (step_start jid name st wid token ts now sid)
  then show ?thesis by (rule add_step_ci_inv [OF inv])
next
  case (step_end sid st ec req jid wid token ts now b)
  then show ?thesis by (rule finish_step_ci_inv [OF inv])
next
  case (request key ra rid now rp)
  then show ?thesis by (rule create_request_ci_inv [OF inv])
next
  case (transition rid expected t ta now r')
  then show ?thesis by (rule transition_ci_inv [OF inv])
next
  case (startup now n)
  then show ?thesis by (rule startup_ci_inv [OF inv])
qed (simp_all add: worker_ops_ci_inv [OF inv])

text \<open>The invariant holds in every reachable state.\<close>

interpretation ci: step_invariant "ci_step H" ci_inv for H
  by unfold_locales (rule ci_step_inv)

definition ci_reachable :: "(string \<Rightarrow> string) \<Rightarrow> ci_db \<Rightarrow> bool" where
  "ci_reachable H db \<longleftrightarrow> (ci_step H)\<^sup>*\<^sup>* empty_ci_db db"

lemma reachable_inv: "ci_reachable H db \<Longrightarrow> ci_inv db"
  unfolding ci_reachable_def by (rule ci.steps_inv [OF _ ci_inv_empty])

end
