(* ===== verification/Worker_API.thy ===== *)
theory Worker_API
  imports CI_System
begin

text \<open>
  The internal worker protocol: \<open>app/routers/ci_worker.py\<close> and \<open>app/ci_worker_auth.py\<close>.  A
  request is authenticated by its headers, parsed into a message and run as one or more store
  transactions; an HTTP error is a value of \<open>api_error\<close>, after which the state is the one the
  transactions before it left.
\<close>

section \<open>Authentication\<close>

record worker_headers =
  hd_authorization :: string
  hd_worker_id :: string
  hd_lease_token :: string

datatype api_error =
    Unauthorized | BadRequest | Forbidden | NotFound | StaleLeaseConflict | Unavailable
  | StoreFailure ci_error

definition verify_ci_worker ::
  "(string \<Rightarrow> string) \<Rightarrow> worker_headers \<Rightarrow> ci_db \<Rightarrow> api_error + string" where
  "verify_ci_worker H h db =
     (let auth = hd_authorization h; token = drop 7 auth
      in if take 7 auth \<noteq> ''Bearer '' then Inl Unauthorized
         else if token = [] then Inl Unauthorized
         else if hd_worker_id h = [] then Inl BadRequest
         else if \<not> verify_worker_token H (hd_worker_id h) token db then Inl Forbidden
         else Inr (hd_worker_id h))"

definition require_job_lease :: "worker_headers \<Rightarrow> api_error + string" where
  "require_job_lease h =
     (if py_strip (hd_lease_token h) = [] then Inl StaleLeaseConflict
      else Inr (py_strip (hd_lease_token h)))"

section \<open>Registration and reconciliation\<close>

fun nonempty_string :: "json \<Rightarrow> bool" where
  "nonempty_string (JStr s) = (s \<noteq> [])"
| "nonempty_string _ = False"

record registration =
  rg_worker_id :: string
  rg_token :: string
  rg_profiles :: "string list"
  rg_max_concurrent :: int

text \<open>The checks of \<open>worker_register\<close> on the request body.\<close>

definition parse_registration :: "json \<Rightarrow> registration option" where
  "parse_registration body =
     (case body of
        JObj kvs \<Rightarrow>
          (case (map_of kvs ''worker_id'', map_of kvs ''token'') of
             (Some (JStr wid), Some (JStr token)) \<Rightarrow>
               (if py_strip wid = [] \<or> token = [] then None
                else case (case map_of kvs ''profiles'' of None \<Rightarrow> JList [] | Some v \<Rightarrow> v) of
                  JList ps \<Rightarrow>
                    (if \<not> list_all nonempty_string ps then None
                     else case (case map_of kvs ''max_concurrent'' of None \<Rightarrow> JInt 1 | Some v \<Rightarrow> v) of
                       JInt n \<Rightarrow>
                         (if n < 1 \<or> n > 10 then None
                          else Some \<lparr>rg_worker_id = wid, rg_token = token,
                                     rg_profiles = map (\<lambda>p. json_string (Some p)) ps,
                                     rg_max_concurrent = n\<rparr>)
                     | _ \<Rightarrow> None)
                | _ \<Rightarrow> None)
           | _ \<Rightarrow> None)
      | _ \<Rightarrow> None)"

text \<open>The jobs are recovered for the id as sent, the worker is stored under the stripped id.\<close>

definition worker_register ::
  "(string \<Rightarrow> string) \<Rightarrow> json \<Rightarrow> time \<Rightarrow> time \<Rightarrow> ci_db \<Rightarrow> api_error + (string \<times> ci_db)" where
  "worker_register H body ts ts' db =
     (case parse_registration body of
        None \<Rightarrow> Inl BadRequest
      | Some g \<Rightarrow>
          Inr (py_strip (rg_worker_id g),
            register_worker H (py_strip (rg_worker_id g)) (rg_token g) (rg_profiles g)
              (rg_max_concurrent g) ts' (snd (recover_worker_jobs (rg_worker_id g) ts db))))"

definition worker_reconcile ::
  "(string \<Rightarrow> string) \<Rightarrow> worker_headers \<Rightarrow> json option \<Rightarrow> time \<Rightarrow> time \<Rightarrow> ci_db \<Rightarrow>
     api_error + (startup_report \<times> ci_db)" where
  "worker_reconcile H h body ts ts' db =
     (case verify_ci_worker H h db of
        Inl e \<Rightarrow> Inl e
      | Inr wid \<Rightarrow>
     (case (case body of None \<Rightarrow> JObj [] | Some b \<Rightarrow> b) of
        JObj kvs \<Rightarrow>
          (if map_of kvs ''worker_id'' \<notin> {None, Some JNull, Some (JStr ''''), Some (JStr wid)}
           then Inl Forbidden
           else if map_of kvs ''action'' \<notin> {None, Some (JStr ''startup_reconcile'')}
           then Inl BadRequest
           else (case reconcile_worker_startup wid ts' (snd (recover_worker_jobs wid ts db)) of
                   (None, db1) \<Rightarrow> Inl NotFound
                 | (Some rep, db1) \<Rightarrow> Inr (rep, db1)))
      | _ \<Rightarrow> Inl BadRequest))"

section \<open>Heartbeats and leases\<close>

record heartbeat_reply =
  hb_lease_renewed :: bool
  hb_lease_lost :: bool
  hb_cancel_requested :: bool

text \<open>\<open>job\<close> and \<open>lease\<close> are the truthy texts of the body, empty when absent.\<close>

definition worker_heartbeat ::
  "(string \<Rightarrow> string) \<Rightarrow> worker_headers \<Rightarrow> string \<Rightarrow> string \<Rightarrow> time \<Rightarrow> time \<Rightarrow> ci_db \<Rightarrow>
     api_error + (heartbeat_reply option \<times> ci_db)" where
  "worker_heartbeat H h job lease ts ts' db =
     (case verify_ci_worker H h db of
        Inl e \<Rightarrow> Inl e
      | Inr wid \<Rightarrow>
          let db1 = update_worker_heartbeat wid ts db
          in if job = [] then Inr (None, db1)
             else let (renewed, db2) =
                        (if lease = [] then (False, db1) else renew_lease H job lease wid ts' db1)
                  in Inr (Some \<lparr>hb_lease_renewed = renewed, hb_lease_lost = \<not> renewed,
                            hb_cancel_requested = (if \<not> renewed then True else need_heartbeat job db2)\<rparr>,
                          db2))"

definition job_lease ::
  "(string \<Rightarrow> string) \<Rightarrow> worker_headers \<Rightarrow> string \<Rightarrow> time \<Rightarrow> time \<Rightarrow> ci_db \<Rightarrow>
     api_error + (lease_grant option \<times> ci_db)" where
  "job_lease H h token ts ts' db =
     (case verify_ci_worker H h db of
        Inl e \<Rightarrow> Inl e
      | Inr wid \<Rightarrow>
     (case row_of w_worker_id wid (ci_workers db) of
        None \<Rightarrow> Inl NotFound
      | Some w \<Rightarrow>
     (case recover_expired_leases ts db of
        Inl e \<Rightarrow> Inl (StoreFailure e)
      | Inr (_, db1) \<Rightarrow>
          Inr (lease_job H wid (w_supported_profiles w) (w_max_concurrent w) token ts' db1))))"

section \<open>Reports on a leased job\<close>

text \<open>The routes under \<open>/jobs/{job_id}\<close> that write; each carries the fields of its body.\<close>

datatype job_message =
    ReportSource string int
  | UploadLogs ustring
  | UploadLogBatch string ustring
  | StepStart string
  | StepFinish nat string "int option" "int option"
  | StepUpdateStatus job_status
  | FinishJob "int option" job_status "json option" "string option" "string option"
  | ReleaseJob

text \<open>A store result as a reply: a stale lease is the conflict, another exception a server error.\<close>

definition reply :: "ci_error + ('a \<times> ci_db) \<Rightarrow> api_error + (unit \<times> ci_db)" where
  "reply r = (case r of
      Inl StaleJobLease \<Rightarrow> Inl StaleLeaseConflict
    | Inl e \<Rightarrow> Inl (StoreFailure e)
    | Inr (_, db) \<Rightarrow> Inr ((), db))"

definition handle_job_message ::
  "(string \<Rightarrow> string) \<Rightarrow> string \<Rightarrow> string \<Rightarrow> string \<Rightarrow> time \<Rightarrow> time \<Rightarrow> job_message \<Rightarrow> ci_db \<Rightarrow>
     api_error + (unit \<times> ci_db)" where
  "handle_job_message H jid wid token ts now m db =
     (case m of
        ReportSource sha n \<Rightarrow>
          (if job_row jid db = None then Inl NotFound
           else reply (set_job_source_downloaded H jid sha n wid token now db))
      | UploadLogs content \<Rightarrow>
          (if content = []
           then (case renew_lease H jid token wid now db of
                   (True, db1) \<Rightarrow> Inr ((), db1)
                 | (False, _) \<Rightarrow> Inl StaleLeaseConflict)
           else reply (append_log_chunk H jid content (Some wid) (Some token) now db))
      | UploadLogBatch batch content \<Rightarrow>
          reply (append_log_batch H jid batch content (Some wid) (Some token) now db)
      | StepStart name \<Rightarrow>
          reply (add_step H jid name ''running'' (Some wid) (Some token) ts now db)
      | StepFinish sid st ec off \<Rightarrow>
          reply (finish_step H sid st ec off (Some jid) (Some wid) (Some token) ts now db)
      | StepUpdateStatus st \<Rightarrow>
          reply (set_job_status H jid st (Some wid) (Some token) now db)
      | FinishJob ec st sm ecode emsg \<Rightarrow>
          reply (complete_job H jid ec st sm ecode emsg (Some wid) (Some token) ts now db)
      | ReleaseJob \<Rightarrow> reply (release_job H jid (Some wid) (Some token) now db))"

text \<open>A whole request: headers, then the message.\<close>

definition job_request ::
  "(string \<Rightarrow> string) \<Rightarrow> worker_headers \<Rightarrow> string \<Rightarrow> time \<Rightarrow> time \<Rightarrow> job_message \<Rightarrow> ci_db \<Rightarrow>
     api_error + (unit \<times> ci_db)" where
  "job_request H h jid ts now m db =
     (case verify_ci_worker H h db of
        Inl e \<Rightarrow> Inl e
      | Inr wid \<Rightarrow>
     (case require_job_lease h of
        Inl e \<Rightarrow> Inl e
      | Inr token \<Rightarrow> handle_job_message H jid wid token ts now m db))"

section \<open>Fencing\<close>

text \<open>
  A credential is what a report carries: its headers, the job it names and the time the store
  looks at it.  It is current when the headers authenticate a worker and its token is that of
  the unexpired lease of the running attempt.
\<close>

type_synonym credential = "worker_headers \<times> string \<times> time"

fun holds_lease :: "(string \<Rightarrow> string) \<Rightarrow> ci_db \<Rightarrow> credential \<Rightarrow> bool" where
  "holds_lease H db (h, jid, now) \<longleftrightarrow>
     (case verify_ci_worker H h db of
        Inl _ \<Rightarrow> False
      | Inr wid \<Rightarrow>
     (case require_job_lease h of
        Inl _ \<Rightarrow> False
      | Inr token \<Rightarrow> lease_held H jid wid token now db))"

fun report :: "(string \<Rightarrow> string) \<Rightarrow> credential \<Rightarrow> time \<times> job_message \<Rightarrow> ci_db \<Rightarrow>
    api_error + (unit \<times> ci_db)" where
  "report H (h, jid, now) (ts, m) db = job_request H h jid ts now m db"

lemma authenticated_nonempty: "verify_ci_worker H h db = Inr wid \<Longrightarrow> wid \<noteq> []"
  by (auto simp: verify_ci_worker_def Let_def split: if_splits)

lemma lease_token_nonempty: "require_job_lease h = Inr token \<Longrightarrow> token \<noteq> []"
  by (auto simp: require_job_lease_def split: if_splits)

lemma renew_needs_lease:
  assumes "\<not> lease_held H jid wid token now db" and "wid \<noteq> []"
  shows "fst (renew_lease H jid token wid now db) = False"
proof -
  have "row_count (\<lambda>j. j_job_id j = jid \<and> j_lease_token_hash j = Some (H token) \<and>
      sql_gt (j_lease_expires_at j) now \<and> is_active (j_status j) \<and>
      (wid = [] \<or> j_worker_id j = Some wid)) (ci_jobs db) =
    row_count (\<lambda>j. j_job_id j = jid \<and> j_worker_id j = Some wid \<and>
        j_lease_token_hash j = Some (H token) \<and> sql_gt (j_lease_expires_at j) now \<and>
        is_active (j_status j)) (ci_jobs db)"
    using assms(2) by (intro row_count_cong) auto
  with assms(1) show ?thesis by (simp add: renew_lease_def Let_def lease_held_def)
qed

lemma reply_stale [simp]: "reply (Inl StaleJobLease) = Inl StaleLeaseConflict"
  by (simp add: reply_def)

lemma stale_report:
  assumes "\<not> lease_held H jid wid token now db" and "wid \<noteq> []" and "token \<noteq> []"
  shows "\<exists>e. handle_job_message H jid wid token ts now m db = Inl e"
proof -
  from assms have no: "\<not> begin_job_write H jid (Some wid) (Some token) now db"
    by (simp add: begin_job_write_def)
  obtain db1 where "renew_lease H jid token wid now db = (False, db1)"
    using renew_needs_lease [OF assms(1,2)] by (cases "renew_lease H jid token wid now db") simp
  with no assms(2,3) show ?thesis
    by (cases m) (simp_all add: handle_job_message_def set_job_source_downloaded_def
        append_log_chunk_def append_log_batch_def add_step_def finish_step_def set_job_status_def
        complete_job_def release_job_def)
qed

interpretation lease_fence: fenced_write "holds_lease H" "report H" for H
proof
  fix db :: ci_db and c :: credential and x :: "time \<times> job_message"
  assume stale: "\<not> holds_lease H db c"
  obtain h jid now ts m where c: "c = (h, jid, now)" and x: "x = (ts, m)"
    by (metis prod.exhaust)
  show "\<exists>e. report H c x db = Inl e"
  proof (cases "verify_ci_worker H h db")
    case (Inr wid)
    then show ?thesis
      using stale stale_report authenticated_nonempty [OF Inr] lease_token_nonempty [of h]
      by (auto simp: c x job_request_def split: sum.splits)
  qed (simp add: c x job_request_def)
qed

end
