(* ===== verification/Job_Queue_Facts.thy ===== *)
theory Job_Queue_Facts
  imports Worker_API
begin

text \<open>
  The functional behaviour of the queue: what a lease grants, when a start is deduplicated, what
  recovery and completion do to each job.
\<close>

section \<open>Leases\<close>

lemma lease_candidate_least:
  assumes "lease_candidate ps db = Some j" and "k \<in> set (ci_jobs db)" and "j_status k = JobQueued"
    and "j_profile k \<in> set ps"
  shows "lease_key db j \<le> lease_key db k"
proof -
  from assms(1) obtain xs where "sort_key (lease_key db)
      (filter (\<lambda>j. j_status j = JobQueued \<and> j_profile j \<in> set ps) (ci_jobs db)) = j # xs"
    by (auto simp: lease_candidate_def split: list.splits)
  from first_of_sort(2) [OF this, of k] assms(2-4) show ?thesis by simp
qed

lemma lease_candidate_None:
  "lease_candidate ps db = None \<longleftrightarrow>
    (\<forall>k \<in> set (ci_jobs db). j_status k = JobQueued \<longrightarrow> j_profile k \<notin> set ps)"
proof -
  let ?rows = "filter (\<lambda>j. j_status j = JobQueued \<and> j_profile j \<in> set ps) (ci_jobs db)"
  have "lease_candidate ps db = None \<longleftrightarrow> ?rows = []"
    using sort_key_Nil [of "lease_key db" ?rows]
    by (cases "sort_key (lease_key db) ?rows") (auto simp: lease_candidate_def)
  then show ?thesis by (auto simp: filter_empty_conv)
qed

definition leased :: "(string \<Rightarrow> string) \<Rightarrow> string \<Rightarrow> string \<Rightarrow> time \<Rightarrow> job \<Rightarrow> job" where
  "leased H wid token ts j = j\<lparr>j_status := JobLeased, j_worker_id := Some wid,
     j_lease_token_hash := Some (H token), j_lease_expires_at := Some (ts + 120),
     j_attempts := j_attempts j + 1, j_started_at := Some ts\<rparr>"

lemma lease_job_grant:
  assumes inv: "jobs_inv db" and grant: "lease_job H wid ps maxc token ts db = (Some g, db')"
  shows "lease_candidate ps db = Some (lg_job g)" and "int (running_count wid db) < maxc"
    and "job_row (j_job_id (lg_job g)) db = Some (lg_job g)"
    and "job_row (j_job_id (lg_job g)) db' = Some (leased H wid token ts (lg_job g))"
    and "k \<noteq> j_job_id (lg_job g) \<Longrightarrow> job_row k db' = job_row k db"
    and "lg_lease_token g = token" "lg_lease_expires_at g = ts + 120"
proof -
  from grant obtain j where j: "lease_candidate ps db = Some j" and g: "lg_job g = j"
    and cap: "int (running_count wid db) < maxc"
    and tok: "lg_lease_token g = token" "lg_lease_expires_at g = ts + 120"
    and jobs: "ci_jobs db' = update_where (\<lambda>x. j_job_id x = j_job_id j \<and> j_status x = JobQueued)
       (leased H wid token ts) (ci_jobs db)"
    by (auto simp: lease_job_def Let_def leased_def [abs_def] split: if_splits option.splits)
  from row_of_distinct [OF jobs_invD(1) [OF inv] lease_candidateD(1) [OF j]]
  have row: "job_row (j_job_id j) db = Some j" by simp
  have id: "j_job_id (leased H wid token ts x) = j_job_id x" for x by (simp add: leased_def)
  show "lease_candidate ps db = Some (lg_job g)" "job_row (j_job_id (lg_job g)) db = Some (lg_job g)"
    "int (running_count wid db) < maxc" "lg_lease_token g = token" "lg_lease_expires_at g = ts + 120"
    using j row cap tok by (simp_all add: g)
  show "job_row (j_job_id (lg_job g)) db' = Some (leased H wid token ts (lg_job g))"
    using row lease_candidateD(2) [OF j] by (simp add: g jobs row_of_update_where id)
  show "k \<noteq> j_job_id (lg_job g) \<Longrightarrow> job_row k db' = job_row k db"
    unfolding jobs g by (rule row_of_update_other) (auto simp: id)
qed

section \<open>Deduplicated starts\<close>

definition reusable_rows :: "string \<Rightarrow> ci_db \<Rightarrow> job list" where
  "reusable_rows key db =
     filter (\<lambda>j. j_idempotency_key j = key \<and> reusable (j_status j)) (ci_jobs db)"

lemma reusable_job_eq:
  "reusable_job key db = (case sort_key j_created_at (reusable_rows key db) of
     [] \<Rightarrow> None | x # xs \<Rightarrow> Some (last (x # xs)))"
  by (simp add: reusable_job_def reusable_rows_def)

lemma reusable_job_None: "reusable_job key db = None \<longleftrightarrow> reusable_rows key db = []"
  using sort_key_Nil [of j_created_at "reusable_rows key db"]
  by (auto simp: reusable_job_eq split: list.splits)

lemma superseded_not_reusable: "\<not> reusable JobSuperseded"
  by simp

lemma reusable_rows_supersede_one:
  "reusable_rows key (supersede_one n sha ts old db) =
    filter (\<lambda>j. \<not> (j_job_id j = j_job_id old \<and> j_status j = JobQueued)) (reusable_rows key db)"
proof -
  have "filter (\<lambda>j. j_idempotency_key j = key \<and> reusable (j_status j))
      (update_where (\<lambda>j. j_job_id j = j_job_id old \<and> j_status j = JobQueued)
        (\<lambda>j. (end_job JobSuperseded ts j)\<lparr>j_superseded_by_job_id := Some n\<rparr>) t) =
    filter (\<lambda>j. \<not> (j_job_id j = j_job_id old \<and> j_status j = JobQueued))
      (filter (\<lambda>j. j_idempotency_key j = key \<and> reusable (j_status j)) t)" for t
    by (induction t) (auto simp: end_job_def)
  then show ?thesis by (simp add: reusable_rows_def supersede_one_def)
qed

lemma supersede_keeps_none:
  "reusable_rows key db = [] \<Longrightarrow> reusable_rows key (snd (supersede_rows n sha ts olds db)) = []"
  by (induction olds arbitrary: db) (simp_all add: reusable_rows_supersede_one case_prod_unfold Let_def)

lemma start_reusable:
  assumes run: "create_or_get_job_in_transaction a jid ts now db = Inr (r, db')"
    and force: "\<not> sa_force_rerun a"
  shows "reusable_job (sa_idem_key a) db' = Some (sr_job r)"
proof (cases "reusable_job (sa_idem_key a) db")
  case (Some row)
  with run force show ?thesis by (auto simp: create_or_get_job_in_transaction_def)
next
  case None
  then have none: "reusable_rows (sa_idem_key a) db = []" by (simp add: reusable_job_None)
  from run None force obtain db1 where
    r: "sr_job r = new_job a jid ts" and jobs: "ci_jobs db' = ci_jobs db1 @ [new_job a jid ts]"
    and db1: "db1 = snd (if sa_supersede_previous a
      then supersede_rows jid (sa_commit_sha a) ts (superseded_rows a db) db else ([], db))"
    by (auto simp: create_or_get_job_in_transaction_def Let_def upsert_repo_queue_state_def
        case_prod_unfold split: if_splits)
  have "reusable_rows (sa_idem_key a) db1 = []"
    using none supersede_keeps_none [OF none] by (simp add: db1)
  then have "reusable_rows (sa_idem_key a) db' = [new_job a jid ts]"
    by (simp add: reusable_rows_def jobs new_job_def)
  then show ?thesis by (simp add: reusable_job_eq r)
qed

lemma start_replay:
  assumes "reusable_job (sa_idem_key a) db = Some row" and "\<not> sa_force_rerun a"
  shows "\<exists>r. create_or_get_job_in_transaction a jid ts now db = Inr (r, db) \<and>
    sr_job r = row \<and> sr_deduplicated r \<and> sr_superseded_job_ids r = []"
  using assms by (simp add: create_or_get_job_in_transaction_def)

section \<open>Recovery\<close>

definition expired :: "time \<Rightarrow> job \<Rightarrow> bool" where
  "expired ts j \<longleftrightarrow> is_active (j_status j) \<and> sql_lt (j_lease_expires_at j) ts"

definition recovered :: "time \<Rightarrow> job \<Rightarrow> job" where
  "recovered ts j = (if j_attempts j \<ge> j_max_attempts j then end_job JobWorkerLost ts j
     else requeue_job ts j)"

lemma recovered_id [simp]: "j_job_id (recovered ts j) = j_job_id j"
  by (simp add: recovered_def)

lemma recover_expired_row_jobs:
  assumes "recover_expired_row ts r db = Inr (b, db')" and "job_row (j_job_id r) db = Some r"
  shows "job_row (j_job_id r) db' = Some (recovered ts r)"
    and "k \<noteq> j_job_id r \<Longrightarrow> job_row k db' = job_row k db"
proof -
  let ?f = "if j_attempts r \<ge> j_max_attempts r then end_job JobWorkerLost ts else requeue_job ts"
  have id: "j_job_id (?f j) = j_job_id j" for j by simp
  have jobs: "ci_jobs db' = update_where (\<lambda>j. j_job_id j = j_job_id r) ?f (ci_jobs db)"
    using assms(1) by (auto simp: recover_expired_row_def Let_def split: if_splits dest!: reconcile_frame)
  show "job_row (j_job_id r) db' = Some (recovered ts r)"
    unfolding jobs using assms(2) by (simp add: row_of_update_where recovered_def)
  show "k \<noteq> j_job_id r \<Longrightarrow> job_row k db' = job_row k db"
    unfolding jobs by (rule row_of_update_key_other [where f = ?f and key = j_job_id]) (auto simp: id)
qed

lemma recover_expired_rows_jobs:
  "recover_expired_rows ts rs db = Inr (n, db') \<Longrightarrow> distinct (map j_job_id rs) \<Longrightarrow>
    \<forall>r \<in> set rs. job_row (j_job_id r) db = Some r \<Longrightarrow>
    n = length rs \<and> (\<forall>r \<in> set rs. job_row (j_job_id r) db' = Some (recovered ts r)) \<and>
    (\<forall>k. k \<notin> j_job_id ` set rs \<longrightarrow> job_row k db' = job_row k db)"
proof (induction rs arbitrary: db n)
  case (Cons r rs)
  from Cons.prems(1) obtain b db1 m where 1: "recover_expired_row ts r db = Inr (b, db1)"
    "recover_expired_rows ts rs db1 = Inr (m, db')" "n = Suc m" by (auto split: sum.splits)
  from Cons.prems have row: "job_row (j_job_id r) db = Some r" by simp
  note step = recover_expired_row_jobs [OF 1(1) row]
  have rows: "\<forall>r \<in> set rs. job_row (j_job_id r) db1 = Some r"
  proof
    fix x assume x: "x \<in> set rs"
    with Cons.prems(2) have "j_job_id x \<noteq> j_job_id r" by (auto simp: image_iff)
    with step(2) [OF this] Cons.prems(3) x show "job_row (j_job_id x) db1 = Some x" by simp
  qed
  from Cons.IH [OF 1(2) _ rows] Cons.prems(2)
  have IH: "m = length rs" "\<forall>r \<in> set rs. job_row (j_job_id r) db' = Some (recovered ts r)"
    "\<forall>k. k \<notin> j_job_id ` set rs \<longrightarrow> job_row k db' = job_row k db1" by auto
  have "job_row (j_job_id r) db' = Some (recovered ts r)"
    using IH(3) step(1) Cons.prems(2) by simp
  with IH 1(3) step(2) show ?case by simp
qed simp

lemma recover_expired_jobs:
  assumes inv: "jobs_inv db" and run: "recover_expired_leases ts db = Inr (n, db')"
    and row: "job_row k db = Some j"
  shows "job_row k db' = Some (if expired ts j then recovered ts j else j)"
proof -
  note dist = jobs_invD(1) [OF inv]
  have "distinct (map j_job_id (expired_rows ts db))"
    using dist by (simp add: expired_rows_def distinct_map_filter)
  moreover have "\<forall>r \<in> set (expired_rows ts db). job_row (j_job_id r) db = Some r"
    using row_of_distinct [OF dist] by (simp add: expired_rows_def)
  ultimately have hit: "\<forall>r \<in> set (expired_rows ts db). job_row (j_job_id r) db' = Some (recovered ts r)"
    and miss: "\<forall>k. k \<notin> j_job_id ` set (expired_rows ts db) \<longrightarrow> job_row k db' = job_row k db"
    using recover_expired_rows_jobs [OF run [unfolded recover_expired_leases_def]] by auto
  have j: "j \<in> set (ci_jobs db)" "j_job_id j = k" using row_of_SomeD [OF row] by auto
  show ?thesis
  proof (cases "expired ts j")
    case True
    then have "j \<in> set (expired_rows ts db)" using j(1) by (simp add: expired_rows_def expired_def)
    with hit j(2) True show ?thesis by auto
  next
    case False
    have "k \<notin> j_job_id ` set (expired_rows ts db)"
    proof
      assume "k \<in> j_job_id ` set (expired_rows ts db)"
      then obtain x where x: "x \<in> set (ci_jobs db)" "j_job_id x = k" "expired ts x"
        by (auto simp: expired_rows_def expired_def)
      from row_of_distinct [OF dist x(1,2)] row x(3) False show False by simp
    qed
    with miss False row show ?thesis by simp
  qed
qed

lemma reusable_jobD:
  assumes "reusable_job key db = Some j"
  shows "j \<in> set (ci_jobs db) \<and> j_idempotency_key j = key \<and> reusable (j_status j)"
proof -
  from assms obtain x xs where "sort_key j_created_at (reusable_rows key db) = x # xs" "j = last (x # xs)"
    by (auto simp: reusable_job_eq split: list.splits)
  from last_of_sort(1) [OF this(1)] this(2) show ?thesis by (auto simp: reusable_rows_def)
qed

text \<open>After the recovery of a worker none of its jobs is running.\<close>

lemma recover_worker_row_jobs:
  "ci_jobs (recover_worker_row wid ts r db) = update_where (\<lambda>j. j_job_id j = j_job_id r)
     (if j_attempts r \<ge> j_max_attempts r then end_job JobWorkerLost ts else requeue_job ts) (ci_jobs db)"
  by (simp add: recover_worker_row_def)

lemma recover_worker_rows_owner:
  "x \<in> set (ci_jobs (fold (recover_worker_row wid ts) rs db)) \<Longrightarrow> j_worker_id x = Some w \<Longrightarrow>
    x \<in> set (ci_jobs db) \<and> j_job_id x \<notin> j_job_id ` set rs"
proof (induction rs arbitrary: db)
  case (Cons r rs)
  then have "x \<in> set (ci_jobs (recover_worker_row wid ts r db))" "j_job_id x \<notin> j_job_id ` set rs" by auto
  then obtain y where "y \<in> set (ci_jobs db)" "x = (if j_job_id y = j_job_id r then
      (if j_attempts r \<ge> j_max_attempts r then end_job JobWorkerLost ts else requeue_job ts) y else y)"
    by (auto simp: recover_worker_row_jobs set_update_where_iff)
  with Cons.prems(2) \<open>j_job_id x \<notin> j_job_id ` set rs\<close> show ?case by (auto split: if_splits)
qed simp

lemma recover_worker_jobs_none:
  assumes "jobs_inv db" and "x \<in> set (ci_jobs (snd (recover_worker_jobs wid ts db)))"
    and "is_active (j_status x)"
  shows "j_worker_id x \<noteq> Some wid"
proof
  assume w: "j_worker_id x = Some wid"
  from assms(2) recover_worker_rows_owner [OF _ w, of wid ts "owned_active_rows wid db" db]
  have "x \<in> set (ci_jobs db)" "j_job_id x \<notin> j_job_id ` set (owned_active_rows wid db)"
    by (simp_all add: recover_worker_jobs_def)
  with w assms(3) show False by (auto simp: owned_active_rows_def)
qed

end
