(* ===== verification/Request_Contracts.thy ===== *)
theory Request_Contracts
  imports CI_System
begin

text \<open>
  What clients of the request store rely on: a writer with an old revision changes nothing, an
  idempotency key keeps naming the request it created, and over any run of the system requests
  are never deleted or re-identified, their event log only grows, and a terminal request stays
  in its state.
\<close>

section \<open>Compare-and-swap\<close>

datatype request_op =
    TransitionOp string int request_state transition_args time
  | DispatchOp string int dispatch_args string time

fun request_op_target :: "request_op \<Rightarrow> string" where
  "request_op_target (TransitionOp rid expected t a now) = rid"
| "request_op_target (DispatchOp rid expected d jid now) = rid"

fun request_op_expected :: "request_op \<Rightarrow> int" where
  "request_op_expected (TransitionOp rid expected t a now) = expected"
| "request_op_expected (DispatchOp rid expected d jid now) = expected"

fun run_request_op :: "request_op \<Rightarrow> ci_db \<Rightarrow> ci_error + ((ci_request \<times> bool) \<times> ci_db)" where
  "run_request_op (TransitionOp rid expected t a now) db =
     (case transition_ci_request rid expected t a now db of
        Inl e \<Rightarrow> Inl e | Inr (r, db') \<Rightarrow> Inr ((r, False), db'))"
| "run_request_op (DispatchOp rid expected d jid now) db = dispatch_ci_request rid expected d jid now db"

definition request_revision :: "ci_db \<Rightarrow> string \<Rightarrow> nat option" where
  "request_revision db rid = map_option r_revision (request_row rid db)"

lemma revision_after_update:
  assumes "\<And>x. r_request_id (f x) = r_request_id x" and "request_row rid db = Some r" and "Q r"
    and "r_revision (f r) = Suc (r_revision r)"
    and "ci_requests db' = update_where (\<lambda>x. r_request_id x = rid \<and> Q x) f (ci_requests db)"
  shows "request_revision db' rid = Some (Suc (r_revision r))"
    and "i \<noteq> rid \<Longrightarrow> request_revision db' i = request_revision db i"
proof -
  from row_of_SomeD [OF assms(2)] have id: "r_request_id r = rid" by simp
  show "request_revision db' rid = Some (Suc (r_revision r))"
    unfolding request_revision_def assms(5)
    using assms(2-4) id by (simp add: row_of_update_where assms(1))
  show "i \<noteq> rid \<Longrightarrow> request_revision db' i = request_revision db i"
    unfolding request_revision_def assms(5)
    using row_of_update_other [of r_request_id f rid i Q "ci_requests db"] assms(1) by simp
qed

lemma request_op_effect:
  assumes inv: "requests_inv db" and run: "run_request_op x db = Inr (p, db')"
  shows "requests_inv db' \<and> (db' = db \<or>
    (\<exists>r Q f. request_row (request_op_target x) db = Some r \<and>
      int (r_revision r) = request_op_expected x \<and> Q r \<and>
      (\<forall>y. r_request_id (f y) = r_request_id y) \<and> r_revision (f r) = Suc (r_revision r) \<and>
      ci_requests db' = update_where (\<lambda>y. r_request_id y = request_op_target x \<and> Q y) f (ci_requests db)))"
proof (cases x)
  case (TransitionOp rid expected t a now)
  with run obtain r' where tr: "transition_ci_request rid expected t a now db = Inr (r', db')"
    by (auto split: sum.splits)
  from tr show ?thesis
  proof (rule transition_commit)
    fix r ev db1
    assume "request_row rid db = Some r" "int (r_revision r) = expected"
      and "insert_request_event rid (r_revision r + 1) ''transition'' (Some (request_state r)) t
       (JObj (ta_event_data a)) db = Inr (ev, db1)"
      and "db' = db1\<lparr>ci_requests := update_where (\<lambda>x. r_request_id x = rid \<and>
       (int (r_revision x) = expected \<and> request_state x = request_state r))
         (apply_transition t a ev now) (ci_requests db1)\<rparr>"
    then have "request_row rid db = Some r \<and> int (r_revision r) = expected \<and>
      (int (r_revision r) = expected \<and> request_state r = request_state r) \<and>
      (\<forall>y. r_request_id (apply_transition t a ev now y) = r_request_id y) \<and>
      r_revision (apply_transition t a ev now r) = Suc (r_revision r) \<and>
      ci_requests db' = update_where (\<lambda>x. r_request_id x = rid \<and>
       (int (r_revision x) = expected \<and> request_state x = request_state r))
         (apply_transition t a ev now) (ci_requests db)"
      by (simp add: insert_request_event_frame)
    with transition_inv [OF inv tr] show ?thesis
      unfolding TransitionOp request_op_target.simps request_op_expected.simps
      by (intro conjI disjI2 exI [of _ r] exI [of _ "\<lambda>x. int (r_revision x) = expected \<and>
          request_state x = request_state r"] exI [of _ "apply_transition t a ev now"]) simp_all
  qed
next
  case (DispatchOp rid expected d jid now)
  obtain r' dedup where p: "p = (r', dedup)" by (cases p)
  from run DispatchOp p have disp: "dispatch_ci_request rid expected d jid now db = Inr ((r', dedup), db')"
    by simp
  note inv' = dispatch_requests_inv [OF inv disp]
  from dispatch_commit [OF disp] show ?thesis
  proof (elim disjE conjE exE)
    fix r :: ci_request and sa :: start_args and res :: start_result and db1 db2 :: ci_db and ev :: nat
    let ?f = "dispatched (da_tree_sha d) (j_job_id (sr_job res)) ev now"
    assume "request_row rid db = Some r" "request_state r = (PhPreparing, RqPreparing)"
      "int (r_revision r) = expected"
      and job: "create_ci_request_job_in_transaction rid sa jid now db = Inr (res, db1)"
      and "insert_request_event rid (r_revision r + 1) ''worker_queued''
         (Some (PhPreparing, RqPreparing)) (PhQueued, RqQueued)
         (JObj (da_event_data d @ [(''worker_job_id'', JStr (j_job_id (sr_job res))),
            (''git_tree_sha'', JStr (da_tree_sha d))])) db1 = Inr (ev, db2)"
      and "db' = db2\<lparr>ci_requests := update_where (\<lambda>x. r_request_id x = rid \<and>
          (int (r_revision x) = expected \<and> request_state x = (PhPreparing, RqPreparing)))
            ?f (ci_requests db2)\<rparr>"
    then have "request_row rid db = Some r \<and> int (r_revision r) = expected \<and>
      (int (r_revision r) = expected \<and> request_state r = (PhPreparing, RqPreparing)) \<and>
      (\<forall>y. r_request_id (?f y) = r_request_id y) \<and> r_revision (?f r) = Suc (r_revision r) \<and>
      ci_requests db' = update_where (\<lambda>x. r_request_id x = rid \<and>
       (int (r_revision x) = expected \<and> request_state x = (PhPreparing, RqPreparing))) ?f (ci_requests db)"
      using create_job_frame [OF job [unfolded create_ci_request_job_in_transaction_def]]
      by (simp add: insert_request_event_frame)
    with inv' show ?thesis
      unfolding DispatchOp request_op_target.simps request_op_expected.simps
      by (intro conjI disjI2 exI [of _ r] exI [of _ "\<lambda>x. int (r_revision x) = expected \<and>
          request_state x = (PhPreparing, RqPreparing)"] exI [of _ ?f]) simp_all
  qed (use inv in simp)
qed

lemma request_op_revision:
  assumes inv: "requests_inv db" and run: "run_request_op x db = Inr (p, db')" and changed: "db' \<noteq> db"
  shows "\<exists>n. request_revision db (request_op_target x) = Some n \<and> int n = request_op_expected x \<and>
      request_revision db' (request_op_target x) = Some (Suc n)"
    and "i \<noteq> request_op_target x \<Longrightarrow> request_revision db' i = request_revision db i"
proof -
  from request_op_effect [OF inv run] changed
  show "\<exists>n. request_revision db (request_op_target x) = Some n \<and> int n = request_op_expected x \<and>
      request_revision db' (request_op_target x) = Some (Suc n)"
  proof (elim conjE disjE exE)
    fix r Q f
    assume 1: "request_row (request_op_target x) db = Some r"
      "int (r_revision r) = request_op_expected x" "Q r" "\<forall>y. r_request_id (f y) = r_request_id y"
      "r_revision (f r) = Suc (r_revision r)"
      "ci_requests db' = update_where (\<lambda>y. r_request_id y = request_op_target x \<and> Q y) f (ci_requests db)"
    have "request_revision db' (request_op_target x) = Some (Suc (r_revision r))"
      by (rule revision_after_update(1) [where Q = Q, OF _ 1(1,3,5,6)]) (simp add: 1(4))
    then show ?thesis using 1(1,2) by (simp add: request_revision_def)
  qed simp
  assume other: "i \<noteq> request_op_target x"
  from request_op_effect [OF inv run] changed
  show "request_revision db' i = request_revision db i"
  proof (elim conjE disjE exE)
    fix r Q f
    assume 1: "request_row (request_op_target x) db = Some r"
      "int (r_revision r) = request_op_expected x" "Q r" "\<forall>y. r_request_id (f y) = r_request_id y"
      "r_revision (f r) = Suc (r_revision r)"
      "ci_requests db' = update_where (\<lambda>y. r_request_id y = request_op_target x \<and> Q y) f (ci_requests db)"
    show ?thesis
      by (rule revision_after_update(2) [where Q = Q, OF _ 1(1,3,5,6) other]) (simp add: 1(4))
  qed simp
qed

interpretation request_cas: revision_cas request_revision run_request_op request_op_target
  request_op_expected requests_inv
proof
  fix db x p db'
  assume inv: "requests_inv db" and run: "run_request_op x db = Inr (p, db')"
  from request_op_effect [OF inv run] show "requests_inv db'" by (rule conjunct1)
  show "\<exists>n. request_revision db (request_op_target x) = Some n \<and> int n = request_op_expected x \<and>
      request_revision db' (request_op_target x) = Some (Suc n)" if "db' \<noteq> db"
    by (rule request_op_revision(1) [OF inv run that])
  show "request_revision db' i = request_revision db i" if "i \<noteq> request_op_target x" for i
    by (cases "db' = db") (simp_all add: request_op_revision(2) [OF inv run _ that])
qed

section \<open>Idempotency keys\<close>

definition create_request_op ::
  "string \<Rightarrow> request_args \<Rightarrow> string \<times> time \<Rightarrow> ci_db \<Rightarrow> ci_error + (string \<times> ci_db)" where
  "create_request_op key a new db =
     (case create_or_get_ci_request key a (fst new) (snd new) db of
        Inl e \<Rightarrow> Inl e | Inr ((r, _), db') \<Rightarrow> Inr (r_request_id r, db'))"

text \<open>What a key stands for: the payload hash it was created with and the request.\<close>

definition key_binding :: "ci_db \<Rightarrow> string \<Rightarrow> (string option \<times> string) option" where
  "key_binding db key =
     map_option (\<lambda>r. (r_normalized_request_hash r, r_request_id r))
       (row_of r_idempotency_key (Some key) (ci_requests db))"

lemma create_request_cases:
  assumes "create_request_op key a new db = Inr (i, db')"
  shows "(\<exists>r. row_of r_idempotency_key (Some key) (ci_requests db) = Some r \<and> db' = db \<and>
      i = r_request_id r \<and> r_normalized_request_hash r = Some (ra_normalized_request_hash a)) \<or>
    (\<exists>r. row_of r_idempotency_key (Some key) (ci_requests db) = None \<and>
      ci_requests db' = ci_requests db @ [r] \<and> r_idempotency_key r = Some key \<and>
      r_normalized_request_hash r = Some (ra_normalized_request_hash a) \<and> r_request_id r = i)"
proof (cases "row_of r_idempotency_key (Some key) (ci_requests db)")
  case (Some r)
  with assms show ?thesis
    by (auto simp: create_request_op_def create_or_get_ci_request_def split: if_splits option.splits)
next
  case None
  with assms obtain ev db1 where ins: "insert_request_event (fst new) 0 ''accepted'' None
      (PhAccepted, RqAccepted) (JObj [(''request_payload'', JObj (ra_request_payload a))])
      (db\<lparr>ci_requests := ci_requests db @ [new_request a key (fst new) (snd new)]\<rparr>) = Inr (ev, db1)"
    and fresh: "request_row (fst new) db = None" and i: "i = fst new"
    and db': "db' = db1\<lparr>ci_requests := update_where (\<lambda>r. r_request_id r = fst new \<and> r_revision r = 0)
                          (\<lambda>r. r\<lparr>r_last_event_id := Some ev\<rparr>) (ci_requests db1)\<rparr>"
    by (auto simp: create_request_op_def create_or_get_ci_request_def new_request_def
        split: if_splits option.splits sum.splits)
  have "update_where (\<lambda>r. r_request_id r = fst new \<and> r_revision r = 0)
      (\<lambda>r. r\<lparr>r_last_event_id := Some ev\<rparr>) (ci_requests db) = ci_requests db"
    by (rule update_where_fresh [OF fresh])
  with insert_request_event_frame [OF ins] None i show ?thesis
    by (simp add: db' update_where_append new_request_def)
qed

interpretation request_keys: idempotent_store create_request_op key_binding
  "\<lambda>a :: request_args. Some (ra_normalized_request_hash a)" "\<lambda>_. True"
proof
  fix key db and a :: request_args and i new j db'
  assume "key_binding db key = Some (Some (ra_normalized_request_hash a), i)"
    and "create_request_op key a new db = Inr (j, db')"
  with create_request_cases [OF this(2)] show "j = i \<and> db' = db" by (auto simp: key_binding_def)
next
  fix key db h i and a :: request_args and new
  assume "key_binding db key = Some (h, i)" and "h \<noteq> Some (ra_normalized_request_hash a)"
  then show "\<exists>e. create_request_op key a new db = Inl e"
    by (auto simp: key_binding_def create_request_op_def create_or_get_ci_request_def)
next
  fix key key' db b and a :: request_args and new i db'
  assume "key_binding db key' = Some b" and "create_request_op key a new db = Inr (i, db')"
  with create_request_cases [OF this(2)] show "key_binding db' key' = Some b"
    by (auto simp: key_binding_def row_of_append)
next
  fix key and a :: request_args and new db i db'
  assume "create_request_op key a new db = Inr (i, db')"
  from create_request_cases [OF this]
  show "key_binding db' key = Some (Some (ra_normalized_request_hash a), i)"
    by (auto simp: key_binding_def row_of_append)
qed

section \<open>Runs of the whole system\<close>

definition request_ident ::
  "ci_request \<Rightarrow> string \<times> string \<times> string \<times> string \<times> string \<times> string option \<times> string option" where
  "request_ident r = (r_request_id r, r_repository r, r_branch r, r_commit_sha r, r_profile r,
     r_idempotency_key r, r_normalized_request_hash r)"

definition grows :: "ci_db \<Rightarrow> ci_db \<Rightarrow> bool" where
  "grows db db' \<longleftrightarrow>
     prefix (map request_ident (ci_requests db)) (map request_ident (ci_requests db')) \<and>
     prefix (ci_request_events db) (ci_request_events db')"

lemma grows_refl [simp]: "grows db db"
  by (simp add: grows_def)

lemma grows_trans: "grows db db1 \<Longrightarrow> grows db1 db2 \<Longrightarrow> grows db db2"
  by (auto simp: grows_def intro: prefix_order.trans)

lemma grows_same:
  "ci_requests db' = ci_requests db \<Longrightarrow> ci_request_events db' = ci_request_events db \<Longrightarrow> grows db db'"
  by (simp add: grows_def)

lemma follows_grows:
  assumes "follows db db'"
  shows "grows db db'"
proof -
  define g :: "_ \<Rightarrow> _" where
    "g = (\<lambda>(i :: string, a :: string, b :: string, c :: string, d :: string, w :: string option,
        k :: string option, n :: string option). (i, a, b, c, d, k, n))"
  have g: "request_ident r = g (req_core r)" for r by (simp add: g_def req_core_def request_ident_def)
  have "map request_ident (ci_requests db') = map g (map req_core (ci_requests db'))"
    by (simp add: g)
  also have "\<dots> = map request_ident (ci_requests db)" by (simp add: followsD(1) [OF assms] g)
  finally show ?thesis using followsD(2) [OF assms] by (simp add: grows_def)
qed

lemma grows_update:
  assumes "ci_requests db' = update_where P f (ci_requests db)"
    and "\<And>r. request_ident (f r) = request_ident r"
    and "prefix (ci_request_events db) (ci_request_events db')"
  shows "grows db db'"
  using assms by (simp add: grows_def map_update_where)

lemma grows_insert:
  "ci_requests db' = ci_requests db @ [r] \<Longrightarrow> prefix (ci_request_events db) (ci_request_events db') \<Longrightarrow>
    grows db db'"
  by (simp add: grows_def)

lemma create_request_grows:
  assumes run: "create_or_get_ci_request key a rid now db = Inr (p, db')"
  shows "grows db db'"
proof -
  obtain r d where p: "p = (r, d)" by (cases p)
  from run have "create_request_op key a (rid, now) db = Inr (r_request_id r, db')"
    by (simp add: create_request_op_def p)
  from create_request_cases [OF this] show ?thesis
  proof (elim disjE exE conjE)
    fix r' assume "row_of r_idempotency_key (Some key) (ci_requests db) = None"
      and reqs: "ci_requests db' = ci_requests db @ [r']"
    with run have "prefix (ci_request_events db) (ci_request_events db')"
      by (auto simp: create_or_get_ci_request_def split: if_splits option.splits sum.splits
          dest!: insert_event_prefix)
    with reqs show ?thesis by (rule grows_insert)
  qed simp
qed

lemma transition_grows:
  assumes "transition_ci_request rid expected t a now db = Inr (r', db')"
  shows "grows db db'"
  using assms
proof (rule transition_commit)
  fix r ev db1
  assume ins: "insert_request_event rid (r_revision r + 1) ''transition'' (Some (request_state r)) t
       (JObj (ta_event_data a)) db = Inr (ev, db1)"
    and db': "db' = db1\<lparr>ci_requests := update_where (\<lambda>x. r_request_id x = rid \<and>
       (int (r_revision x) = expected \<and> request_state x = request_state r))
         (apply_transition t a ev now) (ci_requests db1)\<rparr>"
  have "map request_ident (ci_requests db') = map request_ident (ci_requests db)"
    using insert_request_event_frame [OF ins]
    by (simp add: db' map_update_where request_ident_def apply_transition_def)
  with insert_event_prefix [OF ins] show ?thesis by (simp add: grows_def db')
qed

lemma dispatch_grows:
  assumes "dispatch_ci_request rid expected d jid now db = Inr (rd, db')"
  shows "grows db db'"
proof -
  obtain r' dd where rd: "rd = (r', dd)" by (cases rd)
  from dispatch_commit [OF assms [unfolded rd]] show ?thesis
  proof (elim disjE conjE exE)
    fix r :: ci_request and sa :: start_args and res :: start_result and db1 db2 :: ci_db and ev :: nat
    let ?k = "j_job_id (sr_job res)"
    assume job: "create_ci_request_job_in_transaction rid sa jid now db = Inr (res, db1)"
      and ins: "insert_request_event rid (r_revision r + 1) ''worker_queued''
         (Some (PhPreparing, RqPreparing)) (PhQueued, RqQueued)
         (JObj (da_event_data d @ [(''worker_job_id'', JStr ?k),
            (''git_tree_sha'', JStr (da_tree_sha d))])) db1 = Inr (ev, db2)"
      and db': "db' = db2\<lparr>ci_requests := update_where (\<lambda>x. r_request_id x = rid \<and>
          (int (r_revision x) = expected \<and> request_state x = (PhPreparing, RqPreparing)))
            (dispatched (da_tree_sha d) ?k ev now) (ci_requests db2)\<rparr>"
    have first: "grows db db1"
      using create_job_frame [OF job [unfolded create_ci_request_job_in_transaction_def]]
      by (simp add: grows_same)
    have "map request_ident (ci_requests db') = map request_ident (ci_requests db1)"
      using insert_request_event_frame [OF ins]
      by (simp add: db' map_update_where request_ident_def dispatched_def)
    then have "grows db1 db'" using insert_event_prefix [OF ins] by (simp add: grows_def db')
    with first show ?thesis by (rule grows_trans)
  qed simp
qed

lemma backfill_rows_grows: "backfill_rows js db = Inr (n, db') \<Longrightarrow> grows db db'"
proof (induction js arbitrary: db n)
  case (Cons j js)
  from Cons.prems obtain b db1 m where 1: "backfill_one j db = Inr (b, db1)"
    "backfill_rows js db1 = Inr (m, db')" by (auto split: sum.splits)
  have "grows db db1"
  proof (cases "db1 = db")
    case False
    with 1(1) obtain ev d2 where
      free: "\<forall>r \<in> set (ci_requests db). r_request_id r \<noteq> j_job_id j"
      and ins: "insert_request_event (j_job_id j) 0 ''legacy_backfill'' None
       (legacy_request_state (j_status j))
       (JObj [(''legacy_job_status'', JStr (job_status_text (j_status j)))])
       (db\<lparr>ci_requests := ci_requests db @ [legacy_request j]\<rparr>) = Inr (ev, d2)"
      and db1: "db1 = d2\<lparr>ci_requests := update_where (\<lambda>r. r_request_id r = j_job_id j \<and> r_revision r = 0)
                    (\<lambda>r. r\<lparr>r_last_event_id := Some ev\<rparr>) (ci_requests d2)\<rparr>"
      by (auto simp: backfill_one_def list_ex_iff split: if_splits sum.splits)
    show ?thesis
      using insert_request_event_frame [OF ins] insert_event_prefix [OF ins]
      by (simp add: grows_def db1 map_update_where request_ident_def)
  qed simp
  from grows_trans [OF this Cons.IH [OF 1(2)]] show ?case .
qed simp

lemma startup_grows:
  assumes "startup_requests now db = Inr (n, db')"
  shows "grows db db'"
proof -
  from assms obtain m db1 where "backfill_legacy_jobs db = Inr (m, db1)"
    and 2: "reconcile_all (pending_worker_job_ids db1) now db1 = Inr (n, db')"
    by (auto simp: startup_requests_def reconcile_pending_worker_requests_in_db_def split: sum.splits)
  then have "grows db db1" by (simp add: backfill_legacy_jobs_def backfill_rows_grows)
  with reconcile_all_frame [OF 2] show ?thesis by (blast intro: grows_trans follows_grows)
qed

lemma cleanup_grows: "grows db (cleanup_old_jobs h now db)"
  by (rule grows_update [OF cleanup_tables(6)]) (simp_all add: request_ident_def cleanup_tables(5))

lemma log_ops_requests:
  "append_log_chunk H jid content wid token now db = Inr (n, db') \<Longrightarrow> grows db db'"
  "append_log_batch H jid batch content wid token now db = Inr (p, db') \<Longrightarrow> grows db db'"
  "add_step H jid name st wid token ts now db = Inr (sid, db') \<Longrightarrow> grows db db'"
  "finish_step H s st ec req ji wid token ts now db = Inr (b, db') \<Longrightarrow> grows db db'"
  by (auto simp: append_log_chunk_def append_log_batch_def add_step_def finish_step_def
      insert_chunk_def Let_def split: if_splits option.splits intro!: grows_same)

lemma worker_ops_requests:
  "grows db (register_worker H wid token profiles maxc ts db)"
  "grows db (update_worker_heartbeat wid ts db)"
  "grows db (snd (reconcile_worker_startup wid ts db))"
  "grows db (snd (reconcile_stale_workers ts db))"
  by (auto simp: register_worker_def update_worker_heartbeat_def reconcile_worker_startup_def
      set_worker_idle_def reconcile_stale_workers_def Let_def intro!: grows_same split: option.splits)

lemma ci_step_grows:
  assumes "ci_step H db db'"
  shows "grows db db'"
  using assms
proof cases
  case (start jid a ts now r)
  then show ?thesis using create_job_frame by (simp add: create_or_get_job_def grows_same)
next
  case (repair)
  then show ?thesis by (simp add: repair_step_ranges_def grows_same)
qed (simp_all add: worker_ops_requests log_ops_requests cleanup_grows create_request_grows
  transition_grows dispatch_grows startup_grows follows_grows
  recover_worker_jobs_frame [THEN conjunct2] lease_job_frame [THEN conjunct2]
  renew_lease_frame [THEN conjunct2] set_job_status_frame [THEN conjunct2]
  set_job_source_frame [THEN conjunct2] complete_job_frame [THEN conjunct2]
  release_job_frame [THEN conjunct2] request_cancel_job_frame [THEN conjunct2]
  cancel_queued_job_frame [THEN conjunct2] recover_expired_leases_frame [THEN conjunct2])

lemma ci_steps_grow: "(ci_step H)\<^sup>*\<^sup>* db db' \<Longrightarrow> grows db db'"
  by (induction rule: rtranclp_induct) (auto intro: grows_trans ci_step_grows)

section \<open>Terminal requests\<close>

lemma history_appendD: "history p (vs @ ws) \<Longrightarrow> vs \<noteq> [] \<Longrightarrow> history (Some (v_to (last vs))) ws"
  by (induction p vs rule: history.induct) auto

lemma history_terminal:
  "history (Some s) ws \<Longrightarrow> fst s = PhTerminal \<Longrightarrow> ws \<noteq> [] \<Longrightarrow> v_to (last ws) = s"
proof (induction ws arbitrary: s)
  case (Cons w ws)
  then have "v_to w = s" by (simp add: forward_step_def)
  with Cons show ?case by (cases "ws = []") auto
qed simp

lemma row_of_ident_prefix:
  assumes "prefix (map g t) (map g t')" and "\<And>x y. g x = g y \<Longrightarrow> key x = key y"
    and "row_of key k t = Some r"
  obtains r' where "row_of key k t' = Some r'" and "g r' = g r"
proof -
  from assms(1) obtain zs where zs: "map g t' = map g t @ zs" by (auto simp: prefix_def)
  then obtain us vs where t': "t' = us @ vs" "map g us = map g t" by (auto simp: map_eq_append_conv)
  obtain r' where "row_of key k us = Some r'" "g r' = g r"
    by (rule row_of_map_eq [OF t'(2) assms(2) assms(3)])
  with t' that show ?thesis by (simp add: row_of_append)
qed

lemma request_survives:
  assumes "grows db db'" and "request_row rid db = Some r"
  obtains r' where "request_row rid db' = Some r'" and "request_ident r' = request_ident r"
proof -
  from assms(1) have p: "prefix (map request_ident (ci_requests db)) (map request_ident (ci_requests db'))"
    by (simp add: grows_def)
  show ?thesis
    by (rule row_of_ident_prefix [OF p _ assms(2)]) (auto simp: request_ident_def intro: that)
qed

lemma terminal_kept:
  assumes inv: "requests_inv db" "requests_inv db'" and grows: "grows db db'"
    and row: "request_row rid db = Some r" and terminal: "r_phase r = PhTerminal"
  shows "\<exists>r'. request_row rid db' = Some r' \<and> request_state r' = request_state r"
proof -
  from request_survives [OF grows row] obtain r' where row': "request_row rid db' = Some r'"
    by blast
  from grows obtain more where "ci_request_events db' = ci_request_events db @ more"
    by (auto simp: grows_def prefix_def)
  then obtain ws where ev: "events_of rid db' = events_of rid db @ ws" by (auto simp: events_of_def)
  from row_of_SomeD [OF row] requests_invD(3) [OF inv(1)] have old: "log_ok r (events_of rid db)" by auto
  from row_of_SomeD [OF row'] requests_invD(3) [OF inv(2)] have new: "log_ok r' (events_of rid db')" by auto
  from old new have h: "history (Some (request_state r)) ws"
    using history_appendD [of None "events_of rid db" ws] log_ok_nonempty [OF old]
    by (simp add: ev log_ok_def)
  have "request_state r' = request_state r"
  proof (cases "ws = []")
    case True
    with old new show ?thesis by (simp add: ev log_ok_def)
  next
    case False
    from history_terminal [OF h _ False] terminal new show ?thesis
      by (simp add: ev log_ok_def request_state_def False)
  qed
  with row' show ?thesis by blast
qed

text \<open>A key keeps its request while the request tables grow.\<close>

lemma key_binding_grows:
  assumes grows: "grows db db'" and bound: "key_binding db key = Some p"
  shows "key_binding db' key = Some p"
proof -
  from bound obtain r where r: "row_of r_idempotency_key (Some key) (ci_requests db) = Some r"
    and p: "p = (r_normalized_request_hash r, r_request_id r)" by (auto simp: key_binding_def)
  from grows have pre: "prefix (map request_ident (ci_requests db)) (map request_ident (ci_requests db'))"
    by (simp add: grows_def)
  obtain r' where "row_of r_idempotency_key (Some key) (ci_requests db') = Some r'"
    "request_ident r' = request_ident r"
    by (rule row_of_ident_prefix [OF pre _ r]) (auto simp: request_ident_def)
  with p show ?thesis by (simp add: key_binding_def request_ident_def)
qed

end
