(* ===== verification/CI_Log_Paging.thy ===== *)
theory CI_Log_Paging
  imports CI_Log_Invariant "HOL-Library.Sublist"
begin

text \<open>
  Reading a log in pages.  A page is a run of fragments without a gap that starts at the read
  offset; its text is a prefix of the requested slice of the log, within the byte budget and the
  row limit; and following \<open>next_offset\<close> to the last page gives the slice exactly.
\<close>

section \<open>Slices\<close>

text \<open>The slice \<open>[a, e)\<close> of a text; no end means the end of the text.\<close>

definition slice :: "int \<Rightarrow> int option \<Rightarrow> ustring \<Rightarrow> ustring" where
  "slice a e s = drop (nat a) (case e of None \<Rightarrow> s | Some x \<Rightarrow> take (nat x) s)"

definition page_text :: "log_fragment list \<Rightarrow> ustring" where
  "page_text fs = concat (map f_content fs)"

lemma page_text_simps [simp]:
  "page_text [] = []" "page_text (f # fs) = f_content f @ page_text fs"
  "page_text (fs @ gs) = page_text fs @ page_text gs"
  by (simp_all add: page_text_def)

text \<open>Fragments that follow each other from offset \<open>p\<close>.\<close>

fun frag_chain :: "int \<Rightarrow> log_fragment list \<Rightarrow> bool" where
  "frag_chain p [] = True"
| "frag_chain p (f # fs) \<longleftrightarrow> f_offset_from f = p \<and> f_content f \<noteq> [] \<and>
     f_offset_to f = p + int (length (f_content f)) \<and> frag_chain (f_offset_to f) fs"

lemma frag_chain_last:
  "frag_chain p fs \<Longrightarrow> fs \<noteq> [] \<Longrightarrow> f_offset_to (last fs) = p + int (length (page_text fs))"
  by (induction p fs rule: frag_chain.induct) auto

section \<open>UTF-8 budgets\<close>

lemma utf8_prefix_prefix: "\<exists>zs. s = utf8_prefix s n @ zs"
  by (induction s arbitrary: n) auto

lemma utf8_len_pos: "1 \<le> utf8_len c" "utf8_len c \<le> 4"
  by (simp_all add: utf8_len_def)

lemma utf8_size_simps [simp]:
  "utf8_size [] = 0" "utf8_size (c # s) = utf8_len c + utf8_size s"
  "utf8_size (s @ t) = utf8_size s + utf8_size t"
  by (simp_all add: utf8_size_def)

lemma utf8_prefix_size: "int (utf8_size (utf8_prefix s n)) \<le> max n 0"
proof (induction s arbitrary: n)
  case (Cons c s)
  from Cons [of "n - int (utf8_len c)"] show ?case by auto
qed simp

lemma utf8_size_pos: "s \<noteq> [] \<Longrightarrow> 1 \<le> utf8_size s"
  using utf8_len_pos(1) by (cases s) (auto intro: trans_le_add1)

text \<open>The prefix is the longest that fits: what comes next would exceed the budget.\<close>

lemma utf8_prefix_maximal:
  "utf8_prefix s n \<noteq> s \<Longrightarrow>
    \<exists>c zs. s = utf8_prefix s n @ c # zs \<and> n < int (utf8_size (utf8_prefix s n)) + int (utf8_len c)"
proof (induction s arbitrary: n)
  case (Cons c s)
  show ?case
  proof (cases "int (utf8_len c) \<le> n")
    case True
    with Cons.prems have "utf8_prefix s (n - int (utf8_len c)) \<noteq> s" by simp
    from Cons.IH [OF this] obtain d zs where d: "s = utf8_prefix s (n - int (utf8_len c)) @ d # zs"
      "n - int (utf8_len c) < int (utf8_size (utf8_prefix s (n - int (utf8_len c)))) + int (utf8_len d)"
      by blast
    show ?thesis
      by (rule exI [of _ d], rule exI [of _ zs]) (use d True in \<open>simp add: algebra_simps\<close>)
  qed auto
qed simp

section \<open>The clipped text of a chunk\<close>

lemma read_offset_nonneg: "0 \<le> read_offset q"
  by (auto simp: read_offset_def split: option.splits)

lemma fragment_start_eq: "fragment_start q r = max (read_offset q) (c_offset_from r)"
  by (auto simp: fragment_start_def read_offset_def max_def split: option.splits)

definition chunk_fits :: "log_chunk \<Rightarrow> bool" where
  "chunk_fits r \<longleftrightarrow> 0 \<le> c_offset_from r \<and>
     c_offset_to r = c_offset_from r + int (length (c_content r))"

lemma clipped_empty_iff:
  assumes "chunk_fits r"
  shows "clipped q r = [] \<longleftrightarrow> fragment_end q r \<le> fragment_start q r"
  using assms
  by (auto simp: clipped_def Let_def chunk_fits_def fragment_start_eq fragment_end_def min_def
      split: option.splits)

lemma clipped_length:
  assumes fits: "chunk_fits r" and ne: "clipped q r \<noteq> []"
  shows "fragment_start q r + int (length (clipped q r)) = fragment_end q r"
proof -
  from ne have lt: "fragment_start q r < fragment_end q r" by (simp add: clipped_empty_iff [OF fits])
  have "c_offset_from r \<le> fragment_start q r" "fragment_end q r \<le> c_offset_to r"
    by (auto simp: fragment_start_eq fragment_end_def split: option.splits)
  with fits lt show ?thesis
    by (simp add: clipped_def Let_def chunk_fits_def max_def min_def) (intro conjI impI; linarith)
qed

lemma take_past: "take (nat x) (s @ t) = take (nat x) s @ take (nat (x - int (length s))) t"
proof -
  have "nat (x - int (length s)) = nat x - length s" by linarith
  then show ?thesis by simp
qed

lemma drop_past:
  "0 \<le> a \<Longrightarrow> length u = length s \<or> t = [] \<Longrightarrow>
    drop (nat a) (u @ t) = drop (nat a) u @ drop (nat (max 0 (a - int (length s)))) t"
proof -
  assume "0 \<le> a" and u: "length u = length s \<or> t = []"
  have "nat (max 0 (a - int (length s))) = nat a - length s" by linarith
  with u show ?thesis by auto
qed

lemma slice_append:
  assumes "0 \<le> a"
  shows "slice a e (s @ t) = slice a e s @
    slice (max 0 (a - int (length s))) (map_option (\<lambda>x. x - int (length s)) e) t"
proof (cases e)
  case None
  then show ?thesis using drop_past [OF assms, of s s t] by (simp add: slice_def)
next
  case (Some x)
  have "length (take (nat x) s) = length s \<or> take (nat (x - int (length s))) t = []"
    by (simp, linarith)
  from drop_past [OF assms this] Some show ?thesis by (simp only: slice_def take_past option.simps)
qed

text \<open>The clips of a chain of chunks make up the slice of their text.\<close>

lemma clipped_slice:
  assumes "chunk_fits r" and "c_offset_from r = off"
  shows "clipped q r = slice (max 0 (read_offset q - off)) (map_option (\<lambda>x. x - off) (lq_range_end q))
     (c_content r)"
proof -
  have 1: "max (fragment_start q r - off) 0 = max 0 (read_offset q - off)"
    using assms by (simp add: fragment_start_eq)
  have len: "c_offset_to r - off = int (length (c_content r))"
    using assms by (simp add: chunk_fits_def)
  show ?thesis
  proof (cases "lq_range_end q")
    case None
    then show ?thesis
      using 1 assms(2) len by (simp add: clipped_def Let_def slice_def fragment_end_def)
  next
    case (Some e)
    have "take (nat (min (c_offset_to r) e - off)) (c_content r) = take (nat (e - off)) (c_content r)"
      using len by (cases "e \<le> c_offset_to r") (auto simp: min_def)
    moreover have "nat (min (min (c_offset_to r) e - off) (int (length (c_content r)))) =
        nat (min (c_offset_to r) e - off)"
      using len by (simp add: min_def)
    ultimately show ?thesis
      using Some 1 assms(2) by (simp add: clipped_def Let_def slice_def fragment_end_def)
  qed
qed

lemma chain_fits: "chunk_chain i off cs \<Longrightarrow> 0 \<le> off \<Longrightarrow> r \<in> set cs \<Longrightarrow> chunk_fits r"
  by (induction i off cs rule: chunk_chain.induct) (auto simp: chunk_fits_def)

lemma clips_slice:
  assumes "chunk_chain i off cs" and "0 \<le> off"
  shows "concat (map (clipped q) cs) =
    slice (max 0 (read_offset q - off)) (map_option (\<lambda>x. x - off) (lq_range_end q)) (chunks_text cs)"
  using assms
proof (induction i off cs rule: chunk_chain.induct)
  case (1 i off)
  then show ?case by (simp add: slice_def split: option.splits)
next
  case (2 i off c cs)
  have fits: "chunk_fits c" using chain_fits [OF 2(2,3)] by simp
  from 2 have c: "c_offset_from c = off" "c_offset_to c = off + int (length (c_content c))" by auto
  with 2 have IH: "concat (map (clipped q) cs) = slice (max 0 (read_offset q - c_offset_to c))
      (map_option (\<lambda>x. x - c_offset_to c) (lq_range_end q)) (chunks_text cs)" by simp
  have "max 0 (max 0 (read_offset q - off) - int (length (c_content c))) =
      max 0 (read_offset q - c_offset_to c)" using c by simp
  moreover have "map_option (\<lambda>x. x - int (length (c_content c))) (map_option (\<lambda>x. x - off) (lq_range_end q)) =
      map_option (\<lambda>x. x - c_offset_to c) (lq_range_end q)"
    using c by (simp add: option.map_comp o_def algebra_simps)
  ultimately show ?case
    using IH clipped_slice [OF fits c(1), of q]
    by (simp add: slice_append [of "max 0 (read_offset q - off)"])
qed

section \<open>The rows of a page\<close>

lemma chain_filter_from:
  "chunk_chain i off cs \<Longrightarrow> \<exists>i' off'. chunk_chain i' off' (filter (\<lambda>c. c_offset_to c > a) cs) \<and>
    off \<le> off' \<and> max a off' = max a off"
proof (induction i off cs rule: chunk_chain.induct)
  case (2 i off c cs)
  from 2(2) have c: "c_offset_from c = off" "off < c_offset_to c" by auto
  show ?case
  proof (cases "c_offset_to c > a")
    case True
    have "filter (\<lambda>c. c_offset_to c > a) cs = cs"
    proof (rule filter_True, rule ballI)
      fix d assume "d \<in> set cs"
      with chunk_chain_bounds [of "i + 1" "c_offset_to c" cs d] 2(2) True
      show "c_offset_to d > a" by auto
    qed
    with True 2(2) have "chunk_chain i off (filter (\<lambda>c. c_offset_to c > a) (c # cs))" by auto
    then show ?thesis by blast
  next
    case False
    from 2 obtain i' off' where "chunk_chain i' off' (filter (\<lambda>c. c_offset_to c > a) cs)"
      "c_offset_to c \<le> off'" "max a off' = max a (c_offset_to c)" by auto
    with False c show ?thesis
      by (intro exI [of _ i'] exI [of _ off']) (auto simp: max_def split: if_splits)
  qed
qed auto

lemma chain_filter_upto:
  "chunk_chain i off cs \<Longrightarrow> chunk_chain i off (filter (\<lambda>c. c_offset_from c < e) cs)"
proof (induction i off cs rule: chunk_chain.induct)
  case (2 i off c cs)
  show ?case
  proof (cases "c_offset_from c < e")
    case False
    have "filter (\<lambda>c. c_offset_from c < e) cs = []"
      unfolding filter_empty_conv
    proof
      fix d assume "d \<in> set cs"
      with chunk_chain_bounds [of "i + 1" "c_offset_to c" cs d] 2(2) False
      show "\<not> c_offset_from d < e" by auto
    qed
    with False show ?thesis by simp
  qed (use 2 in auto)
qed simp

lemma chain_take: "chunk_chain i off cs \<Longrightarrow> chunk_chain i off (take k cs)"
  using chunk_chain_append [of i off "take k cs" "drop k cs"] by simp

lemma chain_sorted: "chunk_chain i off cs \<Longrightarrow> sorted (map c_chunk_index cs)"
proof (induction i off cs rule: chunk_chain.induct)
  case (2 i off c cs)
  have "c_chunk_index c \<le> c_chunk_index d" if "d \<in> set cs" for d
    using chunk_chain_bounds [of "i + 1" "c_offset_to c" cs d] 2(2) that by auto
  with 2 show ?case by auto
qed simp

lemma sort_chain:
  "chunk_chain i off cs \<Longrightarrow> sort_key c_chunk_index (filter P cs) = filter P cs"
  by (intro sort_key_id_if_sorted sorted_filter chain_sorted)

definition page_rows :: "log_query \<Rightarrow> log_chunk list \<Rightarrow> log_chunk list" where
  "page_rows q cs =
     (case lq_range_end q of
        None \<Rightarrow> filter (\<lambda>c. c_offset_to c > read_offset q) cs
      | Some e \<Rightarrow> if e \<le> read_offset q then []
          else filter (\<lambda>c. c_offset_to c > read_offset q \<and> c_offset_from c < e) cs)"

lemma candidate_rows_eq:
  assumes "chunk_chain 0 0 (job_chunks jid db)"
  shows "candidate_rows q jid db = take (row_limit q) (page_rows q (job_chunks jid db))"
  by (simp add: candidate_rows_def page_rows_def sort_chain [OF assms] split: option.splits)

lemma page_rows_chain:
  assumes "chunk_chain 0 0 cs"
  obtains i off where "chunk_chain i off (page_rows q cs)" and "0 \<le> off"
    and "max (read_offset q) off = read_offset q"
proof -
  obtain i off where
    ch: "chunk_chain i off (filter (\<lambda>c. c_offset_to c > read_offset q) cs)" "0 \<le> off"
      "max (read_offset q) off = read_offset q"
    using chain_filter_from [OF assms, of "read_offset q"] read_offset_nonneg [of q]
    by (auto simp: max_def)
  have "chunk_chain i off (page_rows q cs)"
  proof (cases "lq_range_end q")
    case None
    with ch(1) show ?thesis by (simp add: page_rows_def)
  next
    case (Some e)
    from chain_filter_upto [OF ch(1), of e]
    have "chunk_chain i off (filter (\<lambda>c. c_offset_to c > read_offset q \<and> c_offset_from c < e) cs)"
      by simp
    with Some show ?thesis by (simp add: page_rows_def)
  qed
  with ch(2,3) that show ?thesis by blast
qed

lemma concat_map_filter:
  "(\<And>x. x \<in> set xs \<Longrightarrow> \<not> P x \<Longrightarrow> f x = []) \<Longrightarrow> concat (map f (filter P xs)) = concat (map f xs)"
  by (induction xs) auto

text \<open>The rows left out hold nothing of the slice.\<close>

lemma page_rows_clips:
  assumes "chunk_chain 0 0 cs"
  shows "concat (map (clipped q) (page_rows q cs)) = slice (read_offset q) (lq_range_end q) (chunks_text cs)"
proof -
  have fits: "chunk_fits r" if "r \<in> set cs" for r using chain_fits [OF assms _ that] by simp
  have "concat (map (clipped q) (page_rows q cs)) = concat (map (clipped q) cs)"
  proof (cases "lq_range_end q")
    case None
    have "concat (map (clipped q) (filter (\<lambda>c. c_offset_to c > read_offset q) cs)) =
        concat (map (clipped q) cs)"
      by (rule concat_map_filter)
        (auto simp: clipped_empty_iff fits fragment_start_eq fragment_end_def None)
    then show ?thesis by (simp add: page_rows_def None)
  next
    case (Some e)
    have "concat (map (clipped q) (filter (\<lambda>c. c_offset_to c > read_offset q \<and> c_offset_from c < e) cs)) =
        concat (map (clipped q) cs)"
      by (rule concat_map_filter)
        (auto simp: clipped_empty_iff fits fragment_start_eq fragment_end_def Some)
    moreover have "e \<le> read_offset q \<Longrightarrow> concat (map (clipped q) cs) = []"
      by (auto simp: clipped_empty_iff fits fragment_start_eq fragment_end_def Some)
    ultimately show ?thesis by (simp add: page_rows_def Some)
  qed
  also have "\<dots> = slice (read_offset q) (lq_range_end q) (chunks_text cs)"
    using clips_slice [OF assms, of q] read_offset_nonneg [of q] by (simp add: option.map_ident)
  finally show ?thesis .
qed

section \<open>The collecting loop\<close>

definition within_budget :: "log_query \<Rightarrow> int \<Rightarrow> log_fragment list \<Rightarrow> bool" where
  "within_budget q em fs = (case lq_max_bytes q of None \<Rightarrow> True
     | Some m \<Rightarrow> int (utf8_size (page_text fs)) \<le> max (m - em) 0)"

definition small_budget :: "log_query \<Rightarrow> int \<Rightarrow> bool" where
  "small_budget q em = (case lq_max_bytes q of None \<Rightarrow> False | Some m \<Rightarrow> m - em < 4)"

lemma collect_nothing:
  "concat (map (clipped q) rows) = [] \<Longrightarrow> collect_fragments q rows acc em = acc"
  by (induction rows) auto

lemma collect_spec:
  assumes "chunk_chain i off rows" and "0 \<le> off" and "length acc < row_limit q"
  shows "\<exists>fs. collect_fragments q rows acc em = acc @ fs \<and>
    frag_chain (max (read_offset q) off) fs \<and>
    prefix (page_text fs) (concat (map (clipped q) rows)) \<and>
    within_budget q em fs \<and> length (acc @ fs) \<le> row_limit q \<and>
    (fs = [] \<longrightarrow> concat (map (clipped q) rows) = [] \<or> small_budget q em)"
  using assms
proof (induction rows arbitrary: i off acc em)
  case Nil
  then show ?case by (auto simp: within_budget_def split: option.splits)
next
  case (Cons r rows)
  let ?next = "max (read_offset q) (c_offset_to r)"
  from Cons.prems have fits: "chunk_fits r" and rest: "chunk_chain (i + 1) (c_offset_to r) rows"
    and r: "c_offset_from r = off" "off < c_offset_to r" by (auto simp: chunk_fits_def)
  have start: "fragment_start q r = max (read_offset q) off" by (simp add: fragment_start_eq r)
  have later: "concat (map (clipped q) rows) = []" if "fragment_end q r < c_offset_to r"
  proof -
    from that obtain e where e: "lq_range_end q = Some e" "e < c_offset_to r"
      by (auto simp: fragment_end_def split: option.splits)
    have "clipped q d = []" if d: "d \<in> set rows" for d
      using chain_fits [OF rest _ d] chunk_chain_bounds [OF rest d] e r Cons.prems(2)
      by (auto simp: clipped_empty_iff fragment_start_eq fragment_end_def)
    then show ?thesis by auto
  qed
  show ?case
  proof (cases "clipped q r = []")
    case True
    then have skip: "collect_fragments q (r # rows) acc em = collect_fragments q rows acc em" by simp
    have "0 \<le> c_offset_to r" using r Cons.prems(2) by simp
    from Cons.IH [OF rest this Cons.prems(3), of em] obtain fs where
      fs: "collect_fragments q rows acc em = acc @ fs" "frag_chain ?next fs"
      "prefix (page_text fs) (concat (map (clipped q) rows))" "within_budget q em fs"
      "length (acc @ fs) \<le> row_limit q"
      "fs = [] \<longrightarrow> concat (map (clipped q) rows) = [] \<or> small_budget q em"
      by (elim exE conjE) (rule that)
    have "frag_chain (max (read_offset q) off) fs"
    proof (cases "fs = []")
      case False
      have "\<not> fragment_end q r < c_offset_to r"
        using later collect_nothing [of q rows acc em] fs(1) False by auto
      then have "fragment_end q r = c_offset_to r"
        by (auto simp: fragment_end_def split: option.splits)
      with True r have "?next = max (read_offset q) off"
        by (auto simp: clipped_empty_iff [OF fits] start)
      with fs(2) show ?thesis by simp
    qed simp
    with fs True skip show ?thesis by (intro exI [of _ fs]) simp
  next
    case False
    then have lt: "\<not> fragment_end q r \<le> fragment_start q r" by (simp add: clipped_empty_iff [OF fits])
    define content where "content = (case lq_max_bytes q of None \<Rightarrow> clipped q r
       | Some m \<Rightarrow> utf8_prefix (clipped q r) (max (m - em) 0))"
    have pre: "\<exists>zs. clipped q r = content @ zs"
      unfolding content_def using utf8_prefix_prefix by (auto split: option.splits)
    have size: "int (utf8_size content) \<le> max (m - em) 0" if "lq_max_bytes q = Some m" for m
      using utf8_prefix_size [of "clipped q r" "max (m - em) 0"] that by (simp add: content_def)
    define f where "f = \<lparr>f_chunk_index = c_chunk_index r, f_offset_from = fragment_start q r,
        f_offset_to = fragment_start q r + int (length content), f_content = content\<rparr>"
    have f: "f_content f = content" "f_offset_from f = max (read_offset q) off"
      "f_offset_to f = max (read_offset q) off + int (length content)"
      by (simp_all add: f_def start)
    show ?thesis
    proof (cases "content = []")
      case True
      then obtain m where "lq_max_bytes q = Some m" "utf8_prefix (clipped q r) (max (m - em) 0) = []"
        using False by (auto simp: content_def split: option.splits)
      then have "small_budget q em"
        using False utf8_len_pos(2) [of "hd (clipped q r)"]
        by (cases "clipped q r") (auto simp: small_budget_def split: if_splits)
      moreover have "collect_fragments q (r # rows) acc em = acc"
        using False lt True by (simp add: content_def Let_def)
      ultimately show ?thesis using Cons.prems(3)
        by (intro exI [of _ "[]"]) (simp add: within_budget_def split: option.splits)
    next
      case nonempty: False
      define stop where "stop \<longleftrightarrow> lq_max_bytes q \<noteq> None \<and>
          fragment_start q r + int (length content) < fragment_end q r \<or> row_limit q \<le> Suc (length acc)"
      have step: "collect_fragments q (r # rows) acc em = (if stop then acc @ [f]
          else collect_fragments q rows (acc @ [f]) (em + int (utf8_size content)))"
        using False lt nonempty unfolding stop_def f_def
        by (cases "lq_max_bytes q") (simp_all add: content_def Let_def)
      have budget: "within_budget q em (f # fs)"
        if "within_budget q (em + int (utf8_size content)) fs" for fs
      proof (cases "lq_max_bytes q")
        case (Some m)
        from that Some have "int (utf8_size (page_text fs)) \<le> max (m - em - int (utf8_size content)) 0"
          by (simp add: within_budget_def algebra_simps)
        with size [OF Some] utf8_size_pos [OF nonempty] Some show ?thesis
          by (simp add: within_budget_def max_def f split: if_splits)
      qed (simp add: within_budget_def)
      show ?thesis
      proof (cases stop)
        case True
        have "within_budget q em [f]"
          using size by (cases "lq_max_bytes q") (simp_all add: within_budget_def f)
        moreover have "prefix (page_text [f]) (concat (map (clipped q) (r # rows)))"
          using pre by (auto simp: f prefix_def)
        moreover have "frag_chain (max (read_offset q) off) [f]" by (simp add: f nonempty)
        ultimately show ?thesis
          using step True Cons.prems(3) by (intro exI [of _ "[f]"]) simp
      next
        case go: False
        have whole: "content = clipped q r"
        proof (cases "lq_max_bytes q")
          case (Some m)
          from pre obtain zs where zs: "clipped q r = content @ zs" by blast
          have "fragment_start q r + int (length (clipped q r)) = fragment_end q r"
            by (rule clipped_length [OF fits False])
          then have "fragment_start q r + int (length content) + int (length zs) = fragment_end q r"
            by (simp add: zs)
          moreover have "\<not> fragment_start q r + int (length content) < fragment_end q r"
            using go Some by (simp add: stop_def)
          ultimately have "zs = []" by (cases zs) auto
          with zs show ?thesis by simp
        qed (simp add: content_def)
        have pos: "fragment_start q r + int (length content) = fragment_end q r"
          using clipped_length [OF fits False] whole by simp
        have room: "length (acc @ [f]) < row_limit q" using go by (simp add: stop_def)
        have "0 \<le> c_offset_to r" using r Cons.prems(2) by simp
        from Cons.IH [OF rest this room, of "em + int (utf8_size content)"] obtain fs where
          fs: "collect_fragments q rows (acc @ [f]) (em + int (utf8_size content)) = (acc @ [f]) @ fs"
          "frag_chain ?next fs" "prefix (page_text fs) (concat (map (clipped q) rows))"
          "within_budget q (em + int (utf8_size content)) fs" "length ((acc @ [f]) @ fs) \<le> row_limit q"
          by (elim exE conjE) (rule that)
        have "frag_chain (f_offset_to f) fs"
        proof (cases "fs = []")
          case False
          have "\<not> fragment_end q r < c_offset_to r"
            using later collect_nothing [of q rows "acc @ [f]" "em + int (utf8_size content)"] fs(1) False
            by auto
          then have "fragment_end q r = c_offset_to r"
            by (auto simp: fragment_end_def split: option.splits)
          then have "f_offset_to f = c_offset_to r" "fragment_start q r < c_offset_to r"
            using pos lt by (auto simp: f start)
          with fs(2) show ?thesis by (simp add: start)
        qed simp
        then have "frag_chain (max (read_offset q) off) (f # fs)" by (simp add: f nonempty)
        moreover have "prefix (page_text (f # fs)) (concat (map (clipped q) (r # rows)))"
          using fs(3) whole by (simp add: f)
        moreover have "collect_fragments q (r # rows) acc em = acc @ (f # fs)"
          using step go fs(1) by (simp del: collect_fragments.simps)
        moreover have "length (acc @ (f # fs)) \<le> row_limit q" using fs(5) by simp
        ultimately show ?thesis using budget [OF fs(4)] by blast
      qed
    qed
  qed
qed

section \<open>Pages\<close>

lemma slice_length: "0 \<le> a \<Longrightarrow> int (length (slice a e s)) =
    max 0 ((case e of None \<Rightarrow> int (length s) | Some x \<Rightarrow> min (max x 0) (int (length s))) - a)"
  by (cases e) (auto simp: slice_def)

lemma slice_drop: "0 \<le> a \<Longrightarrow> slice (a + int n) e s = drop n (slice a e s)"
  by (simp add: slice_def nat_add_distrib add.commute)

text \<open>What a page says about the slice it was asked for.\<close>

lemma page_fragments:
  assumes "chunk_chain 0 0 (job_chunks jid db)"
  shows "\<exists>fs. collect_fragments q (candidate_rows q jid db) [] 0 = fs \<and>
    frag_chain (read_offset q) fs \<and>
    prefix (page_text fs) (slice (read_offset q) (lq_range_end q) (job_log jid db)) \<and>
    within_budget q 0 fs \<and> length fs \<le> row_limit q \<and>
    (fs = [] \<longrightarrow> slice (read_offset q) (lq_range_end q) (job_log jid db) = [] \<or> small_budget q 0)"
proof -
  obtain i off where ch: "chunk_chain i off (page_rows q (job_chunks jid db))" "0 \<le> off"
    "max (read_offset q) off = read_offset q"
    by (rule page_rows_chain [OF assms])
  have lim: "0 < row_limit q" by (simp add: row_limit_def)
  let ?rows = "page_rows q (job_chunks jid db)"
  obtain k where k: "row_limit q = Suc k" using lim by (cases "row_limit q") auto
  have first: "concat (map (clipped q) (take (row_limit q) ?rows)) = [] \<Longrightarrow>
      concat (map (clipped q) ?rows) = []"
  proof (cases ?rows)
    case (Cons c cs)
    assume "concat (map (clipped q) (take (row_limit q) ?rows)) = []"
    then have "clipped q c = []" by (simp add: Cons k)
    moreover have "chunk_fits c" using chain_fits [OF ch(1,2), of c] Cons by simp
    moreover have "read_offset q < c_offset_to c \<and> (\<forall>e. lq_range_end q = Some e \<longrightarrow>
        read_offset q < e \<and> c_offset_from c < e)"
    proof -
      have "c \<in> set ?rows" by (simp add: Cons)
      then show ?thesis by (auto simp: page_rows_def split: option.splits if_splits)
    qed
    moreover have "c_offset_from c < c_offset_to c" using ch(1) Cons by auto
    ultimately show ?thesis
      by (auto simp: clipped_empty_iff fragment_start_eq fragment_end_def split: option.splits)
  qed simp
  have clips: "concat (map (clipped q) ?rows) = slice (read_offset q) (lq_range_end q) (job_log jid db)"
    by (simp add: page_rows_clips [OF assms] job_log_def)
  have "concat (map (clipped q) ?rows) = concat (map (clipped q) (take (row_limit q) ?rows)) @
      concat (map (clipped q) (drop (row_limit q) ?rows))"
    by (metis append_take_drop_id concat_append map_append)
  then have sub: "prefix (concat (map (clipped q) (take (row_limit q) ?rows)))
      (slice (read_offset q) (lq_range_end q) (job_log jid db))" by (simp add: clips)
  from collect_spec [OF chain_take [OF ch(1)] ch(2), of "[]" q "row_limit q" 0] lim obtain fs where
    "collect_fragments q (candidate_rows q jid db) [] 0 = fs" "frag_chain (read_offset q) fs"
    "prefix (page_text fs) (concat (map (clipped q) (take (row_limit q) ?rows)))"
    "within_budget q 0 fs" "length fs \<le> row_limit q"
    "fs = [] \<longrightarrow> concat (map (clipped q) (take (row_limit q) ?rows)) = [] \<or> small_budget q 0"
    by (auto simp: candidate_rows_eq [OF assms] ch(3))
  with sub first clips show ?thesis by (auto intro: prefix_order.trans)
qed

lemma covering_chunk:
  "chunk_chain i off cs \<Longrightarrow> off \<le> x \<Longrightarrow> x < off + int (length (chunks_text cs)) \<Longrightarrow>
    \<exists>c \<in> set cs. c_offset_from c \<le> x \<and> x < c_offset_to c"
proof (induction i off cs rule: chunk_chain.induct)
  case (2 i off c cs)
  then show ?case by (cases "x < c_offset_to c") auto
qed simp

text \<open>A non-empty page is the last one exactly when it ends where the slice ends.\<close>

lemma page_has_more_iff:
  assumes chain: "chunk_chain 0 0 (job_chunks jid db)" and fs: "frag_chain (read_offset q) fs" "fs \<noteq> []"
  shows "page_has_more q jid db fs \<longleftrightarrow>
    length (page_text fs) < length (slice (read_offset q) (lq_range_end q) (job_log jid db))"
proof -
  let ?next = "read_offset q + int (length (page_text fs))"
  have nxt: "f_offset_to (last fs) = ?next" by (rule frag_chain_last [OF fs])
  have pos: "0 \<le> ?next" using read_offset_nonneg [of q] by simp
  have bound: "c_offset_to c \<le> int (length (job_log jid db)) \<and> c_offset_from c < c_offset_to c"
    if "c \<in> set (job_chunks jid db)" for c
    using chunk_chain_bounds [OF chain that] by (simp add: job_log_def)
  have cover: "\<exists>c \<in> set (job_chunks jid db). c_offset_from c \<le> ?next \<and> ?next < c_offset_to c"
    if "?next < int (length (job_log jid db))"
    using covering_chunk [OF chain pos] that by (simp add: job_log_def)
  have len: "int (length (slice (read_offset q) (lq_range_end q) (job_log jid db))) =
      max 0 ((case lq_range_end q of None \<Rightarrow> int (length (job_log jid db))
        | Some x \<Rightarrow> min (max x 0) (int (length (job_log jid db)))) - read_offset q)"
    by (rule slice_length [OF read_offset_nonneg])
  show ?thesis
  proof (cases "lq_range_end q")
    case None
    have "page_has_more q jid db fs \<longleftrightarrow> ?next < int (length (job_log jid db))"
      using bound cover fs(2) by (fastforce simp: page_has_more_def Let_def nxt None list_ex_iff)
    with len None show ?thesis by simp linarith
  next
    case (Some e)
    have "page_has_more q jid db fs \<longleftrightarrow> ?next < e \<and> ?next < int (length (job_log jid db))"
      using bound cover fs(2) by (fastforce simp: page_has_more_def Let_def nxt Some list_ex_iff)
    with len Some pos show ?thesis by simp linarith
  qed
qed

definition requested_slice :: "string \<Rightarrow> log_query \<Rightarrow> ci_db \<Rightarrow> ustring" where
  "requested_slice jid q db = slice (read_offset q) (lq_range_end q) (job_log jid db)"

definition range_ok :: "log_query \<Rightarrow> bool" where
  "range_ok q = (case (lq_range_start q, lq_range_end q) of
     (Some s, Some e) \<Rightarrow> max s 0 \<le> e | _ \<Rightarrow> True)"

lemma get_log_page:
  assumes inv: "logs_inv db" and job: "job_row jid db \<noteq> None" and range: "range_ok q"
  obtains p where "get_log_chunks jid q db = Inr p"
    and "frag_chain (read_offset q) (lp_chunks p)"
    and "prefix (page_text (lp_chunks p)) (requested_slice jid q db)"
    and "length (lp_chunks p) \<le> row_limit q"
    and "within_budget q 0 (lp_chunks p)"
    and "\<not> small_budget q 0 \<Longrightarrow>
      lp_has_more p = (length (page_text (lp_chunks p)) < length (requested_slice jid q db))"
    and "lp_next_offset p = (if lp_has_more p
      then Some (read_offset q + int (length (page_text (lp_chunks p)))) else None)"
    and "lp_has_more p \<Longrightarrow> page_text (lp_chunks p) \<noteq> []"
proof -
  note chain = logs_invD(1) [OF inv, of jid]
  from job obtain j where j: "job_row jid db = Some j" by auto
  define fs where "fs = collect_fragments q (candidate_rows q jid db) [] 0"
  from page_fragments [OF chain, of q] have fs: "frag_chain (read_offset q) fs"
    "prefix (page_text fs) (requested_slice jid q db)" "within_budget q 0 fs" "length fs \<le> row_limit q"
    "fs = [] \<longrightarrow> requested_slice jid q db = [] \<or> small_budget q 0"
    by (simp_all add: fs_def requested_slice_def)
  define total where "total = (case (lq_range_start q, lq_range_end q) of
      (Some s, Some e) \<Rightarrow> max (e - max s 0) 0 | _ \<Rightarrow> j_log_total_bytes j)"
  let ?p = "\<lparr>lp_chunks = fs,
      lp_next_offset = (if page_has_more q jid db fs then Some (f_offset_to (last fs)) else None),
      lp_total_bytes = total, lp_truncated = j_log_truncated j,
      lp_has_more = page_has_more q jid db fs\<rparr>"
  have get: "get_log_chunks jid q db = Inr ?p"
    using range
    by (auto simp: get_log_chunks_def j range_ok_def Let_def total_def simp flip: fs_def split: option.splits)
  have more: "page_has_more q jid db fs =
      (length (page_text fs) < length (requested_slice jid q db))" if "fs \<noteq> []"
    using page_has_more_iff [OF chain fs(1) that] by (simp add: requested_slice_def)
  have none: "\<not> page_has_more q jid db []" by (simp add: page_has_more_def)
  show thesis
  proof (rule that [OF get])
    show "lp_has_more ?p = (length (page_text (lp_chunks ?p)) < length (requested_slice jid q db))"
      if "\<not> small_budget q 0"
      using more none fs(5) that by (cases "fs = []") auto
    show "lp_next_offset ?p = (if lp_has_more ?p
      then Some (read_offset q + int (length (page_text (lp_chunks ?p)))) else None)"
      using frag_chain_last [OF fs(1)] none by (cases "fs = []") auto
    show "page_text (lp_chunks ?p) \<noteq> []" if "lp_has_more ?p"
      using that none fs(1) by (cases fs) auto
  qed (use fs in simp_all)
qed

section \<open>Reading to the end\<close>

text \<open>A reader that follows \<open>next_offset\<close>, with a bound on the number of pages.\<close>

fun read_pages :: "nat \<Rightarrow> string \<Rightarrow> log_query \<Rightarrow> ci_db \<Rightarrow> ustring option" where
  "read_pages 0 jid q db = None"
| "read_pages (Suc n) jid q db =
     (case get_log_chunks jid q db of
        Inl e \<Rightarrow> None
      | Inr p \<Rightarrow>
          (case lp_next_offset p of
             None \<Rightarrow> Some (page_text (lp_chunks p))
           | Some off \<Rightarrow> map_option (append (page_text (lp_chunks p)))
               (read_pages n jid (q\<lparr>lq_offset := off\<rparr>) db)))"

lemma read_offset_next:
  "read_offset q \<le> off \<Longrightarrow> read_offset (q\<lparr>lq_offset := off\<rparr>) = off"
  by (auto simp: read_offset_def split: option.splits)

lemma read_pages_slice:
  assumes inv: "logs_inv db" and job: "job_row jid db \<noteq> None"
  shows "range_ok q \<Longrightarrow> \<not> small_budget q 0 \<Longrightarrow> length (requested_slice jid q db) < n \<Longrightarrow>
    read_pages n jid q db = Some (requested_slice jid q db)"
proof (induction n arbitrary: q)
  case (Suc n)
  from get_log_page [OF inv job Suc.prems(1)] obtain p where
    p: "get_log_chunks jid q db = Inr p" "prefix (page_text (lp_chunks p)) (requested_slice jid q db)"
    and more: "lp_has_more p = (length (page_text (lp_chunks p)) < length (requested_slice jid q db))"
    and nxt: "lp_next_offset p = (if lp_has_more p
      then Some (read_offset q + int (length (page_text (lp_chunks p)))) else None)"
    and ne: "lp_has_more p \<Longrightarrow> page_text (lp_chunks p) \<noteq> []"
    using Suc.prems(2) by metis
  from p(2) obtain zs where zs: "requested_slice jid q db = page_text (lp_chunks p) @ zs"
    by (auto simp: prefix_def)
  show ?case
  proof (cases "lp_has_more p")
    case True
    let ?q = "q\<lparr>lq_offset := read_offset q + int (length (page_text (lp_chunks p)))\<rparr>"
    have "read_offset ?q = read_offset q + int (length (page_text (lp_chunks p)))"
      by (rule read_offset_next) simp
    then have rest: "requested_slice jid ?q db = zs"
      using slice_drop [OF read_offset_nonneg, of q "length (page_text (lp_chunks p))" "lq_range_end q"
          "job_log jid db"] zs
      by (simp add: requested_slice_def)
    have "0 < length (page_text (lp_chunks p))" using ne [OF True] by simp
    then have "length zs < n" using Suc.prems(3) unfolding zs length_append by linarith
    then have "read_pages n jid ?q db = Some (requested_slice jid ?q db)"
      using Suc.prems(1,2) by (intro Suc.IH) (simp_all add: rest range_ok_def small_budget_def)
    then show ?thesis using p(1) nxt True rest zs by simp
  next
    case False
    with more zs have "zs = []" by simp
    then show ?thesis using p(1) nxt False zs by simp
  qed
qed simp

end
