(* ===== verification/CI_Demo.thy ===== *)
theory CI_Demo
  imports Job_Queue_Facts Request_Contracts CI_Log_Paging
begin

text \<open>
  A small run of the controller for the concrete instances of the properties: one worker
  registers, a job is started, leased and gets two log chunks.  The digest is the identity.
\<close>

definition demo_args :: start_args where
  "demo_args = \<lparr>sa_repository = ''o/r'', sa_branch = ''b'', sa_commit_sha = ''c'',
     sa_profile = ''p'', sa_priority = 5, sa_timeout_seconds = 60, sa_force_rerun = False,
     sa_supersede_previous = False, sa_base_sha = '''', sa_changed_files = None,
     sa_changed_files_total = None, sa_changed_files_truncated = False, sa_idem_key = ''''\<rparr>"

definition demo_worker :: worker where
  "demo_worker = \<lparr>w_worker_id = ''w'', w_token_hash = ''s'', w_supported_profiles = [''p''],
     w_max_concurrent = 1, w_status = ''idle'', w_current_job_id = None, w_last_heartbeat = 1,
     w_registered_at = 1\<rparr>"

definition demo_queued :: job where
  "demo_queued = new_job (demo_args\<lparr>sa_idem_key := ''o/r|c|p|v1''\<rparr>) ''j'' 1"

definition demo_db :: ci_db where
  "demo_db = empty_ci_db\<lparr>ci_workers := [demo_worker], ci_jobs := [demo_queued],
     ci_repository_queue_state := [\<lparr>q_repository = ''o/r'', q_last_dispatched_at = 0,
       q_running_jobs = 0, q_queued_jobs = 1\<rparr>]\<rparr>"

lemma demo_register: "register_worker id ''w'' ''s'' [''p''] 1 1 empty_ci_db =
    empty_ci_db\<lparr>ci_workers := [demo_worker]\<rparr>"
  by (simp add: register_worker_def empty_ci_db_def demo_worker_def)

lemma demo_start:
  "\<exists>r. create_or_get_job id demo_args ''j'' 1 1 (empty_ci_db\<lparr>ci_workers := [demo_worker]\<rparr>) =
     Inr (r, demo_db) \<and> sr_job r = demo_queued \<and> \<not> sr_deduplicated r"
  by (simp add: create_or_get_job_def create_or_get_job_in_transaction_def demo_args_def
      empty_ci_db_def reusable_job_def make_idempotency_key_def upsert_repo_queue_state_def
      demo_db_def demo_queued_def Let_def)

lemma demo_reachable: "ci_reachable id demo_db"
proof -
  from demo_start obtain r where r: "create_or_get_job id demo_args ''j'' 1 1
    (empty_ci_db\<lparr>ci_workers := [demo_worker]\<rparr>) = Inr (r, demo_db)" by blast
  have "ci_step id empty_ci_db (empty_ci_db\<lparr>ci_workers := [demo_worker]\<rparr>)"
    using ci_step.register [of id empty_ci_db "''w''" "''s''" "[''p'']" 1 1] by (simp add: demo_register)
  moreover have "ci_step id (empty_ci_db\<lparr>ci_workers := [demo_worker]\<rparr>) demo_db"
    using ci_step.start [OF _ r] by simp
  ultimately show ?thesis
    unfolding ci_reachable_def by (meson converse_rtranclp_into_rtranclp rtranclp.rtrancl_refl)
qed

definition demo_running :: ci_db where
  "demo_running = snd (lease_job id ''w'' [''p''] 1 ''t'' 2 demo_db)"

lemma demo_candidate: "lease_candidate [''p''] demo_db = Some demo_queued"
  by (simp add: lease_candidate_def demo_db_def demo_queued_def new_job_def demo_args_def)

lemma demo_lease: "lease_job id ''w'' [''p''] 1 ''t'' 2 demo_db =
   (Some \<lparr>lg_job = demo_queued, lg_attempt = 1, lg_lease_token = ''t'', lg_lease_expires_at = 122\<rparr>,
    demo_running)"
  by (simp add: demo_running_def lease_job_def demo_candidate)
    (simp add: running_count_def demo_db_def demo_queued_def new_job_def demo_args_def Let_def)

lemma demo_running_reachable: "ci_reachable id demo_running"
proof -
  have "ci_step id demo_db demo_running"
    using ci_step.lease [of id demo_db "''w''" "[''p'']" 1 "''t''" 2] by (simp add: demo_running_def)
  with demo_reachable show ?thesis
    unfolding ci_reachable_def by (rule rtranclp.rtrancl_into_rtrancl)
qed

definition demo_leased :: job where
  "demo_leased = leased id ''w'' ''t'' 2 demo_queued"

lemma demo_running_tables:
  "ci_jobs demo_running = [demo_leased]"
  "ci_workers demo_running = [demo_worker\<lparr>w_status := ''busy'', w_current_job_id := Some ''j''\<rparr>]"
  "ci_requests demo_running = []" "ci_request_events demo_running = []"
  "ci_job_log_chunks demo_running = []" "ci_job_steps demo_running = []"
  "ci_job_log_batches demo_running = []"
  by (simp_all add: demo_running_def lease_job_def demo_candidate)
    (simp_all add: running_count_def demo_db_def demo_queued_def new_job_def demo_args_def Let_def
      update_jobs_def upsert_repo_queue_state_def set_worker_busy_def add_event_def demo_leased_def
      leased_def demo_worker_def empty_ci_db_def)

lemma demo_job_row: "job_row ''j'' demo_running = Some demo_leased"
  by (simp add: demo_running_tables) (simp add: demo_leased_def leased_def demo_queued_def)

lemma demo_lease_held: "lease_held id ''j'' ''w'' ''t'' 3 demo_running"
  by (simp add: lease_held_def demo_running_tables demo_leased_def leased_def demo_queued_def)

end
