(* ===== verification/Request_Facts.thy ===== *)
theory Request_Facts
  imports CI_Demo
begin

text \<open>
  The functional behaviour of the request operations: what a reconciliation, a dispatch and a
  completion write, and that repeating a reconciliation or a log batch changes nothing.
\<close>

section \<open>Reconciliation\<close>

text \<open>The changing branch of a reconciliation, with the row it found by the job id.\<close>

lemma reconcile_changes:
  assumes "reconcile_worker_request_in_db wid now db = Inr (b, db')"
  obtains (same) "b = False" "db' = db"
  | (changed) r j tree t ev db1 P where "b = True"
    "row_of r_worker_job_id (Some wid) (ci_requests db) = Some r" "job_row wid db = Some j"
    "reconcile_evidence r j = Some (tree, t)" "P r" "\<And>x. P x \<Longrightarrow> r_request_id x = r_request_id r"
    "ci_jobs db1 = ci_jobs db" "ci_tree_attestations db1 = ci_tree_attestations db"
    "db' = db1\<lparr>ci_requests := update_where P
        (reconciled t ev now (matching_attestation_in_db r j tree now db)) (ci_requests db)\<rparr>"
proof (cases "\<exists>r j tree t. row_of r_worker_job_id (Some wid) (ci_requests db) = Some r \<and>
    job_row wid db = Some j \<and> reconcile_evidence r j = Some (tree, t)")
  case False
  with assms have "b = False \<and> db' = db"
    by (auto simp: reconcile_worker_request_in_db_def split: option.splits)
  with same show thesis by blast
next
  case True
  then obtain r j tree t where r: "row_of r_worker_job_id (Some wid) (ci_requests db) = Some r"
    and j: "job_row wid db = Some j" and ev: "reconcile_evidence r j = Some (tree, t)" by blast
  show thesis
  proof (cases b)
    case False
    with assms r j ev have "db' = db"
      by (auto simp: reconcile_worker_request_in_db_def Let_def split: if_splits sum.splits)
    with False same show thesis by simp
  next
    case True
    define P where "P = (\<lambda>x. r_request_id x = r_request_id r \<and> r_revision x = r_revision r \<and>
      request_state x = request_state r \<and> r_worker_job_id x = Some wid \<and> r_tree_sha x = Some tree)"
    from assms r j ev True obtain ty d e db1 where
      ins: "insert_request_event (r_request_id r) (r_revision r + 1) ty (Some (request_state r)) t d db
        = Inr (e, db1)"
      and db': "db' = db1\<lparr>ci_requests := update_where P
        (reconciled t e now (matching_attestation_in_db r j tree now db)) (ci_requests db1)\<rparr>"
      by (auto simp: reconcile_worker_request_in_db_def Let_def P_def reconciled_def [abs_def]
          split: if_splits sum.splits)
    have "P r" using row_of_SomeD [OF r] reconcile_evidenceD(2) [OF ev] by (simp add: P_def)
    with db' insert_request_event_frame [OF ins] True r j ev show thesis
      by (intro changed [of r j tree t P db1 e]) (auto simp: P_def)
  qed
qed

text \<open>A second reconciliation finds nothing left to do.\<close>

lemma reconcile_twice:
  assumes "reconcile_worker_request_in_db wid now db = Inr (b, db')"
  shows "reconcile_worker_request_in_db wid now db' = Inr (False, db')"
  using assms
proof (cases rule: reconcile_changes)
  case same
  with assms show ?thesis by simp
next
  case (changed r j tree t ev db1 P)
  let ?att = "matching_attestation_in_db r j tree now db"
  define x where "x = reconciled t ev now ?att r"
  have row: "row_of r_worker_job_id (Some wid) (ci_requests db') = Some x"
    by (simp add: changed row_of_update_where x_def)
  have j: "job_row wid db' = Some j" by (simp add: changed)
  note evd = reconcile_evidenceD [OF changed(4)]
  from evd(4) have t: "t = (PhRunning, RqRunning) \<or> fst t = PhTerminal"
    by (auto dest: reconcile_target_cases)
  have x: "r_phase x = fst t" "r_repository x = r_repository r" "r_commit_sha x = r_commit_sha r"
    "r_profile x = r_profile r" "r_branch x = r_branch r" "r_tree_sha x = r_tree_sha r"
    "r_attestation_id x = coalesce ?att (r_attestation_id r)" "request_state x = t"
    by (simp_all add: x_def) (simp_all add: reconciled_def)
  have "reconcile_evidence x j = (if t = (PhRunning, RqRunning) then None else Some (tree, t))"
    using t
  proof
    assume "t = (PhRunning, RqRunning)"
    with changed(4) evd(4) show ?thesis
      by (auto simp: reconcile_evidence_def x same_job_identity_def split: if_splits option.splits)
  next
    assume "fst t = PhTerminal"
    with changed(4) evd(4) show ?thesis
      by (auto simp: reconcile_evidence_def x same_job_identity_def split: if_splits option.splits)
  qed
  then have ev': "reconcile_evidence x j = (if t = (PhRunning, RqRunning) then None else Some (tree, t))" .
  have "attestation_matches x j tree now = attestation_matches r j tree now"
    by (simp add: attestation_matches_def [abs_def] x)
  moreover have "ci_tree_attestations db' = ci_tree_attestations db" by (simp add: changed)
  ultimately have "matching_attestation_in_db x j tree now db' = ?att"
    unfolding matching_attestation_in_db_def by (simp only:)
  moreover have "\<not> (truthy ?att \<and> ?att \<noteq> coalesce ?att (r_attestation_id r))"
    by (cases ?att) auto
  ultimately show ?thesis
    by (simp add: reconcile_worker_request_in_db_def row j x ev')
qed

lemma reconcile_not_same:
  assumes "row_of r_worker_job_id (Some wid) (ci_requests db) = Some r" and "job_row wid db = Some j"
    and "reconcile_evidence r j = Some (tree, t)" and "request_state r \<noteq> t"
  shows "reconcile_worker_request_in_db wid now db \<noteq> Inr (False, db')"
  using assms
  by (simp add: reconcile_worker_request_in_db_def Let_def split: sum.splits)

text \<open>In a consistent database the request of a job is the one bound to it.\<close>

lemma bound_request_row:
  assumes inv: "requests_inv db" "bindings_inv db" and row: "request_row rid db = Some r"
    and bound: "r_worker_job_id r = Some jid"
  shows "row_of r_worker_job_id (Some jid) (ci_requests db) = Some r"
proof -
  from row_of_SomeD [OF row] have r: "r \<in> set (ci_requests db)" "r_request_id r = rid" by auto
  have "row_of r_worker_job_id (Some jid) (ci_requests db) \<noteq> None"
    using imageI [OF r(1), of r_worker_job_id] bound by (simp add: row_of_None_iff)
  then obtain x where x: "row_of r_worker_job_id (Some jid) (ci_requests db) = Some x" by blast
  from row_of_SomeD [OF x] have x': "x \<in> set (ci_requests db)" "r_worker_job_id x = Some jid" by auto
  from bindings_invD(3) [OF inv(2) x'(1) r(1) x'(2) bound] r(2) have "r_request_id x = rid" by simp
  from row_of_distinct [OF requests_invD(1) [OF inv(1)] x'(1) this] row x show ?thesis by simp
qed

section \<open>Completion\<close>

lemma terminal_evidence:
  assumes "same_job_identity r j" and "r_phase r \<in> {PhQueued, PhRunning}"
    and "r_tree_sha r = Some tree" "is_sha tree" "job_tree_sha j = Some (JStr tree)"
    and "terminal_of_job (j_status j) = Some u" "j_status j = JobPassed \<Longrightarrow> j_exit_code j = Some 0"
  shows "reconcile_evidence r j = Some (tree, (PhTerminal, u))"
  using assms by (auto simp: reconcile_evidence_def tree_contradicts_def reconcile_target_def)

text \<open>A fenced completion of a bound job, with the evidence its request asks for.\<close>

lemma complete_projects:
  assumes inv: "ci_inv db" and row: "request_row rid db = Some r" and bound: "r_worker_job_id r = Some jid"
    and phase: "r_phase r \<in> {PhQueued, PhRunning}"
    and tree: "r_tree_sha r = Some tree" "is_sha tree" "sm = Some s" "json_get ''git_tree_sha'' s = Some (JStr tree)"
    and st: "terminal_of_job st = Some u" "st = JobPassed \<Longrightarrow> ec = Some 0"
    and run: "complete_job H jid ec st sm ecode emsg wid token ts now db = Inr (b, db')"
  shows "\<exists>r' j. request_row rid db' = Some r' \<and> request_state r' = (PhTerminal, u) \<and>
    job_row jid db' = Some j \<and> j_status j = st \<and> j_lease_token_hash j = None"
proof -
  note parts = ci_invD [OF inv]
  from row_of_SomeD [OF row] have r: "r \<in> set (ci_requests db)" "r_request_id r = rid" by auto
  from bindings_invD(2) [OF parts(3) r(1)] bound obtain j where
    j: "job_row jid db = Some j" "same_job_identity r j" by (auto simp: bound_ok_def)
  have truthy_s: "json_truthy s" using tree(4) by (cases s) auto
  define db4 where "db4 = add_event jid ''completed''
      (JObj [(''status'', JStr (job_status_text st)),
             (''exit_code'', (case ec of None \<Rightarrow> JNull | Some n \<Rightarrow> JInt n))])
      (upsert_repo_queue_state (j_repository j) 0 (-1) None
        (release_worker (j_worker_id j) jid
          (update_jobs (\<lambda>x. j_job_id x = jid)
            (\<lambda>x. (end_job st ts x)\<lparr>j_exit_code := ec, j_summary := Some s,
               j_duration_seconds := Some (elapsed ts (j_started_at j)),
               j_error_code := ecode, j_error_message := emsg\<rparr>) db)))"
  have rec: "\<exists>b'. reconcile_worker_request_in_db jid now db4 = Inr (b', db')"
    using run j(1)
    by (auto simp: complete_job_def Let_def tree(3) truthy_s simp flip: db4_def
        split: if_splits sum.splits)
  have jobs: "ci_jobs db4 = update_where (\<lambda>x. j_job_id x = jid)
         (\<lambda>x. (end_job st ts x)\<lparr>j_exit_code := ec, j_summary := Some s,
            j_duration_seconds := Some (elapsed ts (j_started_at j)),
            j_error_code := ecode, j_error_message := emsg\<rparr>) (ci_jobs db)"
    and reqs: "ci_requests db4 = ci_requests db" "ci_request_events db4 = ci_request_events db"
    by (simp_all add: db4_def)
  define j' where "j' = (end_job st ts j)\<lparr>j_exit_code := ec, j_summary := Some s,
            j_duration_seconds := Some (elapsed ts (j_started_at j)),
            j_error_code := ecode, j_error_message := emsg\<rparr>"
  have row4: "job_row jid db4 = Some j'"
    using j(1) row_of_key [OF j(1)] by (simp add: jobs row_of_update_where j'_def)
  have inv4: "requests_inv db4" using parts(2) reqs requests_inv_cong [of db4 db] by simp
  have j'_fields: "j_status j' = st" "j_exit_code j' = ec" "j_summary j' = Some s"
    "j_lease_token_hash j' = None" by (simp_all add: j'_def)
  have "same_job_identity r j'" using j(2) by (simp add: same_job_identity_def j'_def end_job_def)
  then have ev: "reconcile_evidence r j' = Some (tree, (PhTerminal, u))"
    by (rule terminal_evidence [OF _ phase tree(1,2)]) (use tree(4) st in \<open>simp_all add: job_tree_sha_def j'_fields\<close>)
  have find: "row_of r_worker_job_id (Some jid) (ci_requests db) = Some r"
    by (rule bound_request_row [OF parts(2,3) row bound])
  from rec obtain b' where rec': "reconcile_worker_request_in_db jid now db4 = Inr (b', db')" by blast
  have changed: "request_state r \<noteq> (PhTerminal, u)" using phase by (auto simp: request_state_def)
  from rec' show ?thesis
  proof (cases rule: reconcile_changes)
    case same
    with reconcile_not_same [OF _ row4 ev changed] find rec' show ?thesis by (simp add: reqs)
  next
    case (changed x i tr t e db1 P)
    from changed(2) find have x: "x = r" by (simp add: reqs)
    from changed(3) row4 have i: "i = j'" by simp
    from changed(4) ev have "tr = tree" "t = (PhTerminal, u)" by (simp_all add: x i)
    note same = x i this
    have "request_row rid db' = Some (reconciled t e now (matching_attestation_in_db r j' tree now db4) r)"
      using changed(5) row reqs(1) unfolding changed(9) same by (simp add: row_of_update_where same)
    moreover have "job_row jid db' = Some j'" using row4 changed(7) by (simp add: changed(9))
    ultimately show ?thesis by (simp add: same j'_fields)
  qed
qed

text \<open>A completion the fence lets through cannot fail.\<close>

lemma complete_job_total:
  assumes inv: "requests_inv db" and held: "begin_job_write H jid wid token now db"
  shows "\<exists>b db'. complete_job H jid ec st sm ecode emsg wid token ts now db = Inr (b, db')"
proof (cases "job_row jid db")
  case (Some row)
  define db4 where "db4 = add_event jid ''completed''
      (JObj [(''status'', JStr (job_status_text st)),
             (''exit_code'', (case ec of None \<Rightarrow> JNull | Some n \<Rightarrow> JInt n))])
      (upsert_repo_queue_state (j_repository row) 0 (-1) None
        (release_worker (j_worker_id row) jid
          (update_jobs (\<lambda>x. j_job_id x = jid)
            (\<lambda>x. (end_job st ts x)\<lparr>j_exit_code := ec,
               j_summary := (case sm of None \<Rightarrow> None | Some s \<Rightarrow> if json_truthy s then Some s else None),
               j_duration_seconds := Some (elapsed ts (j_started_at row)),
               j_error_code := ecode, j_error_message := emsg\<rparr>) db)))"
  have "requests_inv db4" using inv requests_inv_cong [of db4 db] by (simp add: db4_def)
  from reconcile_total [OF this, of jid now] obtain b db5 where
    "reconcile_worker_request_in_db jid now db4 = Inr (b, db5)" by blast
  with held Some show ?thesis by (auto simp: complete_job_def Let_def simp flip: db4_def)
qed (use held in \<open>auto simp: complete_job_def\<close>)

end
