(* ===== verification/Request_Demo.thy ===== *)
theory Request_Demo
  imports Request_Facts
begin

text \<open>
  A small run of the request store: a request is created, prepared, dispatched to a job, and the
  job is leased.  It continues on the worker of the first demonstration.
\<close>

definition demo_sha :: string where "demo_sha = replicate 40 (CHR ''a'')"
definition demo_tree :: string where "demo_tree = replicate 40 (CHR ''b'')"
definition demo_hash :: string where "demo_hash = replicate 64 (CHR ''c'')"

lemma demo_shas: "is_sha demo_sha" "is_sha demo_tree" "is_sha256 demo_hash"
  by (simp_all add: is_sha_def is_sha256_def demo_sha_def demo_tree_def demo_hash_def hex_digits_def
      list_all_iff)

definition demo_payload :: "(string \<times> json) list" where
  "demo_payload = [(''priority'', JInt 5), (''timeout_seconds'', JInt 60), (''base_sha'', JStr ''''),
     (''supersede_previous'', JBool False)]"

definition demo_request_args :: request_args where
  "demo_request_args = \<lparr>ra_repository = ''o/r'', ra_branch = ''b'', ra_commit_sha = demo_sha,
     ra_tree_sha = None, ra_profile = ''p'', ra_effective_config_digest = ''d'',
     ra_normalized_request_hash = demo_hash, ra_request_payload = demo_payload\<rparr>"

definition demo_base :: ci_db where
  "demo_base = empty_ci_db\<lparr>ci_workers := [demo_worker]\<rparr>"

definition demo_accepted :: ci_request where
  "demo_accepted = (new_request demo_request_args ''k'' ''r'' 5)\<lparr>r_last_event_id := Some 1\<rparr>"

definition demo_event0 :: request_event where
  "demo_event0 = \<lparr>v_event_id = 1, v_request_id = ''r'', v_revision = 0, v_event_type = ''accepted'',
     v_from = None, v_to = (PhAccepted, RqAccepted),
     v_event_data = JObj [(''request_payload'', JObj demo_payload)]\<rparr>"

definition demo_requested :: ci_db where
  "demo_requested = demo_base\<lparr>ci_requests := [demo_accepted], ci_request_events := [demo_event0],
     next_request_event_id := 2\<rparr>"

lemmas demo_request_simps = demo_base_def demo_accepted_def demo_event0_def demo_requested_def
  new_request_def demo_request_args_def empty_ci_db_def

lemma demo_create:
  "create_or_get_ci_request ''k'' demo_request_args ''r'' 5 demo_base =
    Inr ((demo_accepted, False), demo_requested)"
  by (simp add: create_or_get_ci_request_def validate_new_request_identity_def demo_request_simps
      demo_shas insert_request_event_def)

definition demo_prepared :: ci_request where
  "demo_prepared = apply_transition (PhPreparing, RqPreparing) no_transition_args 2 6 demo_accepted"

definition demo_preparing :: ci_db where
  "demo_preparing = demo_requested\<lparr>ci_requests := [demo_prepared],
     ci_request_events := [demo_event0,
       \<lparr>v_event_id = 2, v_request_id = ''r'', v_revision = 1, v_event_type = ''transition'',
        v_from = Some (PhAccepted, RqAccepted), v_to = (PhPreparing, RqPreparing),
        v_event_data = JObj []\<rparr>], next_request_event_id := 3\<rparr>"

lemma demo_transition:
  "transition_ci_request ''r'' 0 (PhPreparing, RqPreparing) no_transition_args 6 demo_requested =
    Inr (demo_prepared, demo_preparing)"
  by (simp add: transition_ci_request_def transition_guard_def allowed_transitions_def
      validate_transition_metadata_def valid_phase_status_def no_transition_args_def demo_request_simps
      insert_request_event_def worker_binding_ok_def request_state_def demo_prepared_def
      demo_preparing_def apply_transition_def Let_def)

definition demo_dispatch_args :: dispatch_args where
  "demo_dispatch_args = \<lparr>da_tree_sha = demo_tree, da_changed_files = [], da_changed_files_total = 0,
     da_changed_files_truncated = False, da_event_data = []\<rparr>"

definition demo_job :: job where
  "demo_job = new_job (dispatch_start_args demo_prepared demo_payload 5 60 demo_dispatch_args
     \<lparr>sa_idem_key := ''ci-request:r''\<rparr>) ''j'' 7"

definition demo_bound :: ci_request where
  "demo_bound = dispatched demo_tree ''j'' 3 7 demo_prepared"

lemma demo_dispatch:
  "\<exists>db. dispatch_ci_request ''r'' 1 demo_dispatch_args ''j'' 7 demo_preparing =
     Inr ((demo_bound, False), db) \<and> ci_jobs db = [demo_job] \<and> ci_requests db = [demo_bound] \<and>
     ci_workers db = [demo_worker]"
  by (simp add: dispatch_ci_request_def demo_dispatch_args_def demo_shas demo_preparing_def
      demo_prepared_def demo_request_simps apply_transition_def no_transition_args_def
      dispatch_guard_def request_state_def get_ci_request_payload_in_db_def payload_fields_def
      demo_payload_def create_ci_request_job_in_transaction_def create_or_get_job_in_transaction_def
      reusable_job_def dispatch_start_args_def upsert_repo_queue_state_def Let_def
      assert_worker_job_identity_def same_job_identity_def new_job_def insert_request_event_def
      worker_binding_ok_def demo_bound_def dispatched_def demo_job_def)

section \<open>The states of the run\<close>

definition demo_dispatched :: ci_db where
  "demo_dispatched = (case dispatch_ci_request ''r'' 1 demo_dispatch_args ''j'' 7 demo_preparing of
     Inl e \<Rightarrow> empty_ci_db | Inr (r, db) \<Rightarrow> db)"

lemma demo_dispatched:
  "dispatch_ci_request ''r'' 1 demo_dispatch_args ''j'' 7 demo_preparing = Inr ((demo_bound, False), demo_dispatched)"
  "ci_jobs demo_dispatched = [demo_job]" "ci_requests demo_dispatched = [demo_bound]"
  "ci_workers demo_dispatched = [demo_worker]"
  using demo_dispatch by (auto simp: demo_dispatched_def)

definition demo_working :: ci_db where
  "demo_working = snd (lease_job id ''w'' [''p''] 1 ''t'' 8 demo_dispatched)"

lemma demo_run:
  "ci_step id empty_ci_db demo_base" "ci_step id demo_base demo_requested"
  "ci_step id demo_requested demo_preparing" "ci_step id demo_preparing demo_dispatched"
  "ci_step id demo_dispatched demo_working"
proof -
  show "ci_step id empty_ci_db demo_base"
    using ci_step.register [of id empty_ci_db "''w''" "''s''" "[''p'']" 1 1]
    by (simp add: demo_register demo_base_def)
  show "ci_step id demo_base demo_requested" by (rule ci_step.request [OF demo_create])
  show "ci_step id demo_requested demo_preparing" by (rule ci_step.transition [OF demo_transition])
  show "ci_step id demo_preparing demo_dispatched"
    by (rule ci_step.dispatch [OF _ demo_dispatched(1)]) simp
  show "ci_step id demo_dispatched demo_working"
    unfolding demo_working_def by (rule ci_step.lease)
qed

lemma demo_states_reachable:
  "ci_reachable id demo_base" "ci_reachable id demo_requested" "ci_reachable id demo_preparing"
  "ci_reachable id demo_dispatched" "ci_reachable id demo_working"
proof -
  show 1: "ci_reachable id demo_base"
    using demo_run(1) unfolding ci_reachable_def by (rule r_into_rtranclp)
  show 2: "ci_reachable id demo_requested"
    using 1 demo_run(2) unfolding ci_reachable_def by (rule rtranclp.rtrancl_into_rtrancl)
  show 3: "ci_reachable id demo_preparing"
    using 2 demo_run(3) unfolding ci_reachable_def by (rule rtranclp.rtrancl_into_rtrancl)
  show 4: "ci_reachable id demo_dispatched"
    using 3 demo_run(4) unfolding ci_reachable_def by (rule rtranclp.rtrancl_into_rtrancl)
  show "ci_reachable id demo_working"
    using 4 demo_run(5) unfolding ci_reachable_def by (rule rtranclp.rtrancl_into_rtrancl)
qed

lemma demo_run_on: "(ci_step id)\<^sup>*\<^sup>* demo_requested demo_working"
  using demo_run(3-5) by (meson converse_rtranclp_into_rtranclp rtranclp.rtrancl_refl)

lemma demo_working_grant:
  "\<exists>g. lease_job id ''w'' [''p''] 1 ''t'' 8 demo_dispatched = (Some g, demo_working) \<and> lg_job g = demo_job"
proof -
  have "lease_candidate [''p''] demo_dispatched = Some demo_job"
    by (simp add: lease_candidate_def demo_dispatched(2))
      (simp add: demo_job_def new_job_def dispatch_start_args_def demo_prepared_def
        apply_transition_def demo_request_simps)
  moreover have "j_status demo_job = JobQueued" "j_worker_id demo_job = None"
    by (simp_all add: demo_job_def new_job_def)
  ultimately show ?thesis
    by (simp add: lease_job_def demo_working_def running_count_def demo_dispatched(2) Let_def)
qed

lemma demo_job_id: "j_job_id demo_job = ''j''"
  by (simp add: demo_job_def)

lemma demo_working_job: "job_row ''j'' demo_working = Some (leased id ''w'' ''t'' 8 demo_job)"
proof -
  from demo_working_grant obtain g where
    g: "lease_job id ''w'' [''p''] 1 ''t'' 8 demo_dispatched = (Some g, demo_working)" "lg_job g = demo_job"
    by blast
  from lease_job_grant(4) [OF ci_invD(1) [OF reachable_inv [OF demo_states_reachable(4)]] g(1)] g(2)
  show ?thesis by (simp add: demo_job_id)
qed

lemma demo_working_request: "ci_requests demo_working = [demo_bound]"
  by (simp add: demo_working_def lease_job_def Let_def demo_dispatched split: option.splits)

lemma demo_working_request_row: "request_row ''r'' demo_working = Some demo_bound"
  by (simp add: demo_working_request) (simp add: demo_bound_def demo_prepared_def demo_request_simps)

lemma demo_working_held: "begin_job_write id ''j'' (Some ''w'') (Some ''t'') 9 demo_working"
  using lease_held_iff [OF jobs_invD(1) [OF ci_invD(1) [OF reachable_inv [OF demo_states_reachable(5)]]],
      of id "''j''" "''w''" "''t''" 9] demo_working_job
  by (simp add: begin_job_write_def leased_def)

text \<open>A state whose job has passed and whose request has not heard of it.\<close>

definition demo_done :: job where
  "demo_done = (leased id ''w'' ''t'' 8 demo_job)\<lparr>j_status := JobPassed, j_exit_code := Some 0,
     j_summary := Some (JObj [(''git_tree_sha'', JStr demo_tree)])\<rparr>"

definition demo_unseen :: ci_db where
  "demo_unseen = demo_working\<lparr>ci_jobs := [demo_done]\<rparr>"

lemma demo_unseen_tables: "job_row ''j'' demo_unseen = Some demo_done"
  "request_row ''r'' demo_unseen = Some demo_bound" "ci_requests demo_unseen = [demo_bound]"
  "row_of r_worker_job_id (Some ''j'') (ci_requests demo_unseen) = Some demo_bound"
proof -
  show "job_row ''j'' demo_unseen = Some demo_done"
    by (simp add: demo_unseen_def demo_done_def leased_def demo_job_id)
  show "ci_requests demo_unseen = [demo_bound]" by (simp add: demo_unseen_def demo_working_request)
  then show "request_row ''r'' demo_unseen = Some demo_bound"
    using demo_working_request_row by (simp add: demo_working_request)
  show "row_of r_worker_job_id (Some ''j'') (ci_requests demo_unseen) = Some demo_bound"
    by (simp add: demo_unseen_def demo_working_request demo_bound_def)
qed

lemma demo_unseen_inv: "requests_inv demo_unseen"
  using ci_invD(2) [OF reachable_inv [OF demo_states_reachable(5)]]
    requests_inv_cong [of demo_unseen demo_working] by (simp add: demo_unseen_def)

lemma demo_bound_fields: "request_state demo_bound = (PhQueued, RqQueued)" "r_phase demo_bound = PhQueued"
  "r_tree_sha demo_bound = Some demo_tree" "r_request_id demo_bound = ''r''" "r_status demo_bound = RqQueued"
  by (simp_all add: demo_bound_def)
    (simp_all add: dispatched_def demo_prepared_def demo_request_simps)

lemma demo_evidence: "reconcile_evidence demo_bound demo_done = Some (demo_tree, (PhTerminal, RqPassed))"
  by (rule terminal_evidence)
    (simp_all add: demo_bound_fields demo_shas demo_done_def leased_def demo_job_def new_job_def
      dispatch_start_args_def demo_bound_def dispatched_def demo_prepared_def apply_transition_def
      demo_request_simps same_job_identity_def job_tree_sha_def)

lemma demo_reconcile:
  "\<exists>db r. reconcile_worker_request_in_db ''j'' 20 demo_unseen = Inr (True, db) \<and>
    request_row ''r'' db = Some r \<and> r_status r = RqPassed"
proof -
  obtain b db where run: "reconcile_worker_request_in_db ''j'' 20 demo_unseen = Inr (b, db)"
    using reconcile_total [OF demo_unseen_inv] by blast
  from run show ?thesis
  proof (cases rule: reconcile_changes)
    case same
    with reconcile_not_same [OF demo_unseen_tables(4,1) demo_evidence] run show ?thesis
      by (simp add: demo_bound_fields)
  next
    case (changed r j tree t ev db1 P)
    from changed(2) demo_unseen_tables(4) have r: "r = demo_bound" by simp
    from changed(3,4) demo_unseen_tables(1) demo_evidence have t: "t = (PhTerminal, RqPassed)"
      by (simp add: r)
    have "request_row ''r'' db = Some (reconciled t ev 20 (matching_attestation_in_db r j tree 20 demo_unseen) demo_bound)"
      using changed(5) by (simp add: changed(9) row_of_update_where demo_unseen_tables(2) r)
    with run changed(1) t show ?thesis by (simp add: reconciled_def)
  qed
qed

end
