(* ===== verification/CI_Properties.thy ===== *)
theory CI_Properties
  imports Request_Demo
begin

text \<open>
  The properties of the CI controller, each with a concrete instance where it has hypotheses.
\<close>

section \<open>Worker reports and leases\<close>

text \<open>
  C1. A report of a worker whose headers do not authenticate it, or whose lease token is not that
  of the unexpired lease of the running attempt of that job, is refused and changes nothing.
\<close>

theorem stale_report_refused:
  assumes "\<not> holds_lease H db (h, jid, now)"
  shows "(\<exists>e. job_request H h jid ts now m db = Inl e) \<and>
    state_after (job_request H h jid ts now m db) db = db"
  using lease_fence.fenced [OF assms, of "(ts, m)"] lease_fence.stale_keeps_state [OF assms, of "(ts, m)"]
  by simp

definition demo_headers :: "string \<Rightarrow> worker_headers" where
  "demo_headers token = \<lparr>hd_authorization = ''Bearer s'', hd_worker_id = ''w'', hd_lease_token = token\<rparr>"

lemma demo_auth: "verify_ci_worker id (demo_headers t) demo_running = Inr ''w''"
  by (simp add: verify_ci_worker_def demo_headers_def verify_worker_token_def demo_running_tables
      demo_worker_def Let_def)

lemma demo_strip: "py_strip ''t'' = ''t''" "py_strip ''x'' = ''x''"
  by (simp_all add: py_strip_def py_space_def)

lemma demo_not_held: "\<not> lease_held id ''j'' ''w'' ''x'' 3 demo_running"
  by (simp add: lease_held_def demo_running_tables demo_leased_def leased_def demo_queued_def)

theorem stale_report_refused_witness:
  "state_after (job_request id (demo_headers ''x'') ''j'' 3 3 ReleaseJob demo_running) demo_running =
    demo_running"
  using stale_report_refused [of id demo_running "demo_headers ''x''" "''j''" 3 3 ReleaseJob]
    demo_auth [of "''x''"] demo_not_held demo_strip
  by (simp add: require_job_lease_def) (simp add: demo_headers_def)

text \<open>
  C36. A granted lease goes to a queued job with a supported profile that no other such job
  precedes: every other one has a lower priority, or the same priority and a repository that was
  dispatched later, or the same priority and dispatch time and is not older.  The worker was
  below its capacity; the job is held by the worker with a fresh 120-second lease and one more
  attempt, and no other job changes.
\<close>

theorem lease_is_fair:
  assumes inv: "jobs_inv db" and grant: "lease_job H wid ps maxc token ts db = (Some g, db')"
  shows "job_row (j_job_id (lg_job g)) db = Some (lg_job g) \<and> j_status (lg_job g) = JobQueued \<and>
    j_profile (lg_job g) \<in> set ps \<and> int (running_count wid db) < maxc \<and>
    (\<forall>k \<in> set (ci_jobs db). j_status k = JobQueued \<and> j_profile k \<in> set ps \<longrightarrow>
       (let j = lg_job g;
            dispatched = (\<lambda>j. case row_of q_repository (j_repository j) (ci_repository_queue_state db) of
              None \<Rightarrow> 0 | Some q \<Rightarrow> q_last_dispatched_at q)
        in j_priority k < j_priority j \<or>
           j_priority k = j_priority j \<and> (dispatched j < dispatched k \<or>
             dispatched j = dispatched k \<and> j_created_at j \<le> j_created_at k))) \<and>
    job_row (j_job_id (lg_job g)) db' = Some (leased H wid token ts (lg_job g)) \<and>
    lg_lease_token g = token \<and> lg_lease_expires_at g = ts + 120 \<and>
    (\<forall>k. k \<noteq> j_job_id (lg_job g) \<longrightarrow> job_row k db' = job_row k db)"
proof (intro conjI ballI allI impI)
  note granted = lease_job_grant [OF inv grant]
  show "job_row (j_job_id (lg_job g)) db = Some (lg_job g)" "int (running_count wid db) < maxc"
    "job_row (j_job_id (lg_job g)) db' = Some (leased H wid token ts (lg_job g))"
    "lg_lease_token g = token" "lg_lease_expires_at g = ts + 120"
    by (rule granted)+
  show "j_status (lg_job g) = JobQueued" "j_profile (lg_job g) \<in> set ps"
    by (rule lease_candidateD [OF granted(1)])+
  show "let j = lg_job g;
            dispatched = (\<lambda>j. case row_of q_repository (j_repository j) (ci_repository_queue_state db) of
              None \<Rightarrow> 0 | Some q \<Rightarrow> q_last_dispatched_at q)
        in j_priority k < j_priority j \<or>
           j_priority k = j_priority j \<and> (dispatched j < dispatched k \<or>
             dispatched j = dispatched k \<and> j_created_at j \<le> j_created_at k)"
    if "k \<in> set (ci_jobs db)" "j_status k = JobQueued \<and> j_profile k \<in> set ps" for k
  proof -
    have "lease_key db (lg_job g) \<le> lease_key db k"
      using lease_candidate_least [OF granted(1) that(1)] that(2) by blast
    then show ?thesis
      by (auto simp: lease_key_def less_eq_prod_def repo_last_dispatched_def Let_def)
  qed
  show "k \<noteq> j_job_id (lg_job g) \<Longrightarrow> job_row k db' = job_row k db" for k
    by (rule granted(5))
qed

theorem lease_is_fair_witness:
  "job_row ''j'' demo_running = Some (leased id ''w'' ''t'' 2 demo_queued)"
  using lease_is_fair [OF ci_invD(1) [OF reachable_inv [OF demo_reachable]] demo_lease]
  by (simp add: demo_queued_def)

text \<open>
  C9. In every reachable state the counters of each repository are exact: the stored number of
  queued jobs is the number of its queued jobs, and the stored number of running jobs the number
  of its leased, downloading, preparing and running jobs.
\<close>

theorem queue_counters_exact:
  assumes "ci_reachable H db"
  shows "counter_queued repo db = repo_queued repo db \<and> counter_running repo db = repo_running repo db"
  using ci_invD(1) [OF reachable_inv [OF assms]] by (simp add: jobs_inv_def counters_exact_def)

theorem queue_counters_exact_witness:
  "counter_running ''o/r'' demo_running = repo_running ''o/r'' demo_running"
  using queue_counters_exact [OF demo_running_reachable, of "''o/r''"] by simp

text \<open>
  C37. In every reachable state exactly the jobs of a running attempt have an owner, a lease token
  and an expiry, job ids are unique, and no queued or running job has a finish time.
\<close>

theorem lease_ownership:
  assumes "ci_reachable H db"
  shows "distinct (map j_job_id (ci_jobs db)) \<and> (\<forall>j \<in> set (ci_jobs db).
     (is_active (j_status j) \<longleftrightarrow> j_worker_id j \<noteq> None) \<and>
     (is_active (j_status j) \<longleftrightarrow> j_lease_token_hash j \<noteq> None) \<and>
     (is_active (j_status j) \<longleftrightarrow> j_lease_expires_at j \<noteq> None) \<and>
     (is_active (j_status j) \<or> j_status j = JobQueued \<longrightarrow> j_finished_at j = None))"
  using ci_invD(1) [OF reachable_inv [OF assms]]
  by (auto simp: jobs_inv_def lease_shape_def split: if_splits)

theorem lease_ownership_witness: "j_worker_id demo_leased \<noteq> None"
  using lease_ownership [OF demo_running_reachable]
  by (simp add: demo_running_tables) (simp add: demo_leased_def leased_def)

text \<open>
  A start that does not force a rerun, repeated for the same repository, commit and profile,
  gets the job of the first start back and changes nothing.
\<close>

theorem start_deduplicates:
  assumes first: "create_or_get_job H a jid ts now db = Inr (r, db1)" and "\<not> sa_force_rerun a"
    and again: "sa_repository b = sa_repository a" "sa_commit_sha b = sa_commit_sha a"
      "sa_profile b = sa_profile a" "\<not> sa_force_rerun b"
  shows "\<exists>r'. create_or_get_job H b jid' ts' now' db1 = Inr (r', db1) \<and> sr_job r' = sr_job r \<and>
    sr_deduplicated r' \<and> sr_superseded_job_ids r' = []"
proof -
  let ?key = "make_idempotency_key H (sa_repository a) (sa_commit_sha a) (sa_profile a)"
  from start_reusable [OF first [unfolded create_or_get_job_def]] assms(2)
  have "reusable_job ?key db1 = Some (sr_job r)" by simp
  with start_replay [of "b\<lparr>sa_idem_key := ?key\<rparr>" db1 "sr_job r" jid' ts' now'] again
  show ?thesis by (simp add: create_or_get_job_def)
qed

theorem start_deduplicates_witness:
  "\<exists>r. create_or_get_job id (demo_args\<lparr>sa_branch := ''other'', sa_priority := 9\<rparr>) ''k'' 7 7 demo_db =
     Inr (r, demo_db) \<and> sr_job r = demo_queued"
proof -
  from demo_start obtain r where r: "create_or_get_job id demo_args ''j'' 1 1
      (empty_ci_db\<lparr>ci_workers := [demo_worker]\<rparr>) = Inr (r, demo_db)" "sr_job r = demo_queued" by blast
  from start_deduplicates [OF r(1), of "demo_args\<lparr>sa_branch := ''other'', sa_priority := 9\<rparr>" "''k''" 7 7] r(2)
  show ?thesis by (auto simp: demo_args_def)
qed

text \<open>
  Recovering expired leases gives every job with an expired lease back to the queue while it
  has attempts left and marks it lost otherwise; every other job keeps its row.
\<close>

theorem expired_leases_recovered:
  assumes "jobs_inv db" and "recover_expired_leases ts db = Inr (n, db')" and "job_row k db = Some j"
  shows "job_row k db' = Some
    (if is_active (j_status j) \<and> sql_lt (j_lease_expires_at j) ts
     then if j_attempts j \<ge> j_max_attempts j then end_job JobWorkerLost ts j else requeue_job ts j
     else j)"
  using recover_expired_jobs [OF assms] by (simp add: expired_def recovered_def)

lemma demo_expire:
  "\<exists>n db'. recover_expired_leases 200 demo_running = Inr (n, db')"
proof -
  have "\<exists>b db'. recover_expired_row 200 demo_leased demo_running = Inr (b, db')"
    by (auto simp: recover_expired_row_def Let_def reconcile_worker_request_in_db_def demo_running_tables)
  then show ?thesis
    by (auto simp: recover_expired_leases_def expired_rows_def demo_running_tables)
qed

theorem expired_leases_recovered_witness:
  "\<exists>n db'. recover_expired_leases 200 demo_running = Inr (n, db') \<and>
    job_row ''j'' db' = Some (requeue_job 200 demo_leased)"
proof -
  from demo_expire obtain n db' where run: "recover_expired_leases 200 demo_running = Inr (n, db')" by blast
  from expired_leases_recovered [OF ci_invD(1) [OF reachable_inv [OF demo_running_reachable]] run demo_job_row]
  have "job_row ''j'' db' = Some (requeue_job 200 demo_leased)"
    by (simp add: demo_leased_def leased_def demo_queued_def new_job_def)
  with run show ?thesis by blast
qed

section \<open>Durable requests\<close>

text \<open>
  C10. In every reachable state the event log of a request is its complete history: exactly one
  event per revision from 0 to the current one, each starting where the one before ended, the
  last ending in the stored phase and status, never back to an earlier phase and never out of a
  terminal state.
\<close>

theorem request_log_complete:
  assumes "ci_reachable H db" and "r \<in> set (ci_requests db)"
  shows "map v_revision (events_of (r_request_id r) db) = [0..<Suc (r_revision r)] \<and>
    history None (events_of (r_request_id r) db) \<and>
    v_to (last (events_of (r_request_id r) db)) = request_state r \<and>
    request_state r \<in> set valid_phase_status"
  using ci_invD(2) [OF reachable_inv [OF assms(1)]] assms(2)
  by (simp add: requests_inv_def log_ok_def)

theorem request_log_complete_witness:
  "v_to (last (events_of ''r'' demo_working)) = (PhQueued, RqQueued)"
  using request_log_complete [OF demo_states_reachable(5), of demo_bound] demo_working_request
  by (simp add: demo_bound_def demo_prepared_def demo_request_simps)

text \<open>
  C27. A request that is terminal stays in its phase and status over every further run of the
  system, and keeps its repository, branch, commit, profile and idempotency key.
\<close>

theorem terminal_request_final:
  assumes "ci_reachable H db" and "(ci_step H)\<^sup>*\<^sup>* db db'"
    and "request_row rid db = Some r" and "r_phase r = PhTerminal"
  shows "\<exists>r'. request_row rid db' = Some r' \<and> request_state r' = request_state r \<and>
    request_ident r' = request_ident r"
proof -
  from assms(1,2) have reach: "ci_reachable H db'" by (simp add: ci_reachable_def)
  note grows = ci_steps_grow [OF assms(2)]
  from terminal_kept [OF ci_invD(2) [OF reachable_inv [OF assms(1)]]
      ci_invD(2) [OF reachable_inv [OF reach]] grows assms(3,4)]
  obtain r' where r': "request_row rid db' = Some r'" "request_state r' = request_state r" by blast
  from request_survives [OF grows assms(3)] r' show ?thesis by fastforce
qed

definition demo_cancel :: "ci_error + (ci_request \<times> ci_db)" where
  "demo_cancel = transition_ci_request ''r'' 0 (PhTerminal, RqCancelled) no_transition_args 6 demo_requested"

lemma demo_cancel: "\<exists>r db. demo_cancel = Inr (r, db) \<and> request_row ''r'' db = Some r \<and>
    request_state r = (PhTerminal, RqCancelled)"
  by (simp add: demo_cancel_def transition_ci_request_def transition_guard_def allowed_transitions_def
      validate_transition_metadata_def valid_phase_status_def terminal_statuses_def
      no_transition_args_def demo_request_simps insert_request_event_def worker_binding_ok_def
      request_state_def apply_transition_def Let_def)

theorem terminal_request_final_witness:
  "\<exists>db r'. (ci_step id)\<^sup>*\<^sup>* demo_requested db \<and>
    request_row ''r'' (update_worker_heartbeat ''w'' 9 db) = Some r' \<and>
    request_state r' = (PhTerminal, RqCancelled)"
proof -
  from demo_cancel obtain r db where r: "demo_cancel = Inr (r, db)" "request_row ''r'' db = Some r"
    "request_state r = (PhTerminal, RqCancelled)" by blast
  have step: "ci_step id demo_requested db"
    using ci_step.transition [OF r(1) [unfolded demo_cancel_def]] .
  have reach: "ci_reachable id db"
    using demo_states_reachable(2) step unfolding ci_reachable_def by (rule rtranclp.rtrancl_into_rtrancl)
  have "(ci_step id)\<^sup>*\<^sup>* db (update_worker_heartbeat ''w'' 9 db)"
    using ci_step.heartbeat by (rule r_into_rtranclp)
  from terminal_request_final [OF reach this r(2)] r(3)
  have "\<exists>r'. request_row ''r'' (update_worker_heartbeat ''w'' 9 db) = Some r' \<and>
      request_state r' = (PhTerminal, RqCancelled)" by (auto simp: request_state_def)
  moreover from step have "(ci_step id)\<^sup>*\<^sup>* demo_requested db" by (rule r_into_rtranclp)
  ultimately show ?thesis by blast
qed

text \<open>
  Compare-and-swap: after a committed transition or dispatch, and any later transitions and
  dispatches, a writer that still names the same revision of the same request changes nothing.
\<close>

theorem stale_writer_loses:
  assumes "requests_inv db" and "run_request_op x db = Inr (a, db1)" and "db1 \<noteq> db"
    and "request_op_target y = request_op_target x" and "request_op_expected y = request_op_expected x"
  shows "state_after (run_request_op y (run_ops run_request_op xs db1)) (run_ops run_request_op xs db1) =
    run_ops run_request_op xs db1"
  using request_cas.second_writer_loses [OF assms refl]
  by (cases "run_request_op y (run_ops run_request_op xs db1)") (auto simp: state_after_def)

theorem stale_writer_loses_witness:
  "state_after (run_request_op (TransitionOp ''r'' 0 (PhTerminal, RqCancelled) no_transition_args 9)
     (run_ops run_request_op [DispatchOp ''r'' 1 demo_dispatch_args ''j'' 7] demo_preparing))
     demo_dispatched = demo_dispatched"
proof -
  have "run_request_op (TransitionOp ''r'' 0 (PhPreparing, RqPreparing) no_transition_args 6) demo_requested =
      Inr ((demo_prepared, False), demo_preparing)" by (simp add: demo_transition)
  moreover have "demo_preparing \<noteq> demo_requested" by (simp add: demo_preparing_def demo_request_simps)
  moreover have "run_ops run_request_op [DispatchOp ''r'' 1 demo_dispatch_args ''j'' 7] demo_preparing =
      demo_dispatched" by (simp add: demo_dispatched(1))
  ultimately show ?thesis
    using stale_writer_loses [OF ci_invD(2) [OF reachable_inv [OF demo_states_reachable(2)]],
      of "TransitionOp ''r'' 0 (PhPreparing, RqPreparing) no_transition_args 6" "(demo_prepared, False)"
        demo_preparing "TransitionOp ''r'' 0 (PhTerminal, RqCancelled) no_transition_args 9"
        "[DispatchOp ''r'' 1 demo_dispatch_args ''j'' 7]"] by simp
qed

text \<open>
  An idempotency key stands for one request for good: after any further run of the system a
  create with the same key and payload hash returns that request and changes nothing, and one
  with another hash fails.
\<close>

theorem request_key_is_idempotent:
  assumes first: "create_request_op key a new db = Inr (i, db1)" and run: "(ci_step H)\<^sup>*\<^sup>* db1 db2"
    and again: "create_request_op key b new' db2 = Inr (j, db3)"
  shows "ra_normalized_request_hash b = ra_normalized_request_hash a \<and> j = i \<and> db3 = db2"
proof -
  from request_keys.create_binds [OF TrueI first]
  have "key_binding db1 key = Some (Some (ra_normalized_request_hash a), i)" .
  then have bound: "key_binding db2 key = Some (Some (ra_normalized_request_hash a), i)"
    by (rule key_binding_grows [OF ci_steps_grow [OF run]])
  have hash: "ra_normalized_request_hash b = ra_normalized_request_hash a"
    using request_keys.create_conflict [OF TrueI bound, of b new'] again by force
  with request_keys.create_replay [OF TrueI, of db2 key b i new' j db3] bound again show ?thesis by simp
qed

theorem request_key_is_idempotent_witness:
  "create_request_op ''k'' demo_request_args (''z'', 50) demo_working = Inr (''r'', demo_working)"
proof -
  have first: "create_request_op ''k'' demo_request_args (''r'', 5) demo_base = Inr (''r'', demo_requested)"
    by (simp add: create_request_op_def demo_create) (simp add: demo_request_simps)
  have "\<exists>j db. create_request_op ''k'' demo_request_args (''z'', 50) demo_working = Inr (j, db)"
    by (simp add: create_request_op_def create_or_get_ci_request_def demo_working_request demo_shas
        validate_new_request_identity_def demo_request_simps demo_bound_def demo_prepared_def
        dispatched_def apply_transition_def no_transition_args_def expected_identity_def identity_field_def)
  then obtain j db where "create_request_op ''k'' demo_request_args (''z'', 50) demo_working = Inr (j, db)"
    by blast
  with request_key_is_idempotent [OF first demo_run_on this] show ?thesis by simp
qed

text \<open>
  A first dispatch leaves the request queued at the next revision with the tree it was given,
  bound to a stored job of the same repository, branch, commit and profile that is filed under
  the request's own key and can still run; a repeated one answers with the stored request.
\<close>

theorem dispatch_binds_one_job:
  assumes inv: "requests_inv db"
    and run: "dispatch_ci_request rid expected d jid now db = Inr ((r', dedup), db')"
  shows "request_row rid db' = Some r' \<and> (if dedup then db' = db
    else request_state r' = (PhQueued, RqQueued) \<and> int (r_revision r') = expected + 1 \<and>
      r_tree_sha r' = Some (da_tree_sha d) \<and>
      (\<exists>wid j k. r_worker_job_id r' = Some wid \<and> job_row wid db' = Some j \<and> same_job_identity r' j \<and>
        k \<in> set (ci_jobs db') \<and> j_job_id k = wid \<and> j_idempotency_key k = ''ci-request:'' @ rid \<and>
        reusable (j_status k)))"
  using dispatch_commit [OF run]
proof (elim disjE conjE exE)
  fix r :: ci_request and sa :: start_args and res :: start_result and db1 db2 :: ci_db and ev :: nat
  let ?k = "j_job_id (sr_job res)"
  assume row: "request_row rid db = Some r" and st: "request_state r = (PhPreparing, RqPreparing)"
    and rev: "int (r_revision r) = expected" and dd: "\<not> dedup"
    and job: "create_ci_request_job_in_transaction rid sa jid now db = Inr (res, db1)"
    and id: "assert_worker_job_identity db1 r ?k = None"
    and ins: "insert_request_event rid (r_revision r + 1) ''worker_queued''
         (Some (PhPreparing, RqPreparing)) (PhQueued, RqQueued)
         (JObj (da_event_data d @ [(''worker_job_id'', JStr ?k),
            (''git_tree_sha'', JStr (da_tree_sha d))])) db1 = Inr (ev, db2)"
    and r': "r' = dispatched (da_tree_sha d) ?k ev now r"
    and db': "db' = db2\<lparr>ci_requests := update_where (\<lambda>x. r_request_id x = rid \<and>
          (int (r_revision x) = expected \<and> request_state x = (PhPreparing, RqPreparing)))
            (dispatched (da_tree_sha d) ?k ev now) (ci_requests db2)\<rparr>"
  note fr = insert_request_event_frame [OF ins]
  from job have job': "create_or_get_job_in_transaction (sa\<lparr>sa_force_rerun := False,
      sa_idem_key := ''ci-request:'' @ rid\<rparr>) jid now now db = Inr (res, db1)"
    by (simp add: create_ci_request_job_in_transaction_def)
  from create_job_frame [OF job'] row have "request_row rid db1 = Some r" by simp
  then have "request_row rid db' = Some r'"
    using fr rev st row_of_key [OF row] by (simp add: db' row_of_update_where r')
  moreover from start_reusable [OF job'] have "reusable_job (''ci-request:'' @ rid) db1 = Some (sr_job res)"
    by simp
  then have "sr_job res \<in> set (ci_jobs db1) \<and> j_idempotency_key (sr_job res) = ''ci-request:'' @ rid \<and>
      reusable (j_status (sr_job res))" by (rule reusable_jobD)
  moreover from id obtain j where "job_row ?k db1 = Some j" "same_job_identity r j"
    by (auto simp: assert_worker_job_identity_def split: option.splits if_splits)
  ultimately show ?thesis
    using dd fr rev by (auto simp: r' db' same_job_identity_def dispatched_def request_state_def)
qed simp

theorem dispatch_binds_one_job_witness:
  "r_worker_job_id demo_bound = Some ''j'' \<and>
    (\<exists>k \<in> set (ci_jobs demo_dispatched). j_idempotency_key k = ''ci-request:r'')"
  using dispatch_binds_one_job [OF ci_invD(2) [OF reachable_inv [OF demo_states_reachable(3)]] demo_dispatched(1)]
  by (auto simp: demo_bound_def dispatched_def)

text \<open>
  C38. In every reachable state a bound request has the repository, branch, commit and profile of
  its stored worker job, and no worker job is bound to two requests.
\<close>

theorem request_bindings_sound:
  assumes "ci_reachable H db" and "r \<in> set (ci_requests db)" and "r_worker_job_id r = Some k"
  shows "(\<exists>j. job_row k db = Some j \<and> same_job_identity r j) \<and>
    (\<forall>r' \<in> set (ci_requests db). r_worker_job_id r' = Some k \<longrightarrow> r_request_id r' = r_request_id r)"
  using bindings_invD(2) [OF ci_invD(3) [OF reachable_inv [OF assms(1)]] assms(2)]
    bindings_invD(3) [OF ci_invD(3) [OF reachable_inv [OF assms(1)]] _ assms(2) _ assms(3)] assms(3)
  by (simp add: bound_ok_def)

theorem request_bindings_sound_witness:
  "\<exists>j. job_row ''j'' demo_working = Some j \<and> same_job_identity demo_bound j"
  using request_bindings_sound [OF demo_states_reachable(5), of demo_bound "''j''"]
  by (simp add: demo_working_request demo_bound_def dispatched_def)

text \<open>
  Reconciliation is sound: a request becomes passed by it only when its stored worker job of
  the same identity passed with exit code 0 and reported exactly the tree of the request.
\<close>

theorem reconcile_passes_with_evidence:
  assumes inv: "requests_inv db" and run: "reconcile_worker_request_in_db wid now db = Inr (b, db')"
    and row: "request_row rid db = Some r" "request_row rid db' = Some r'"
    and passed: "r_status r' = RqPassed" "r_status r \<noteq> RqPassed"
  shows "\<exists>j tree. r_worker_job_id r = Some wid \<and> job_row wid db = Some j \<and> same_job_identity r j \<and>
    r_tree_sha r = Some tree \<and> j_status j = JobPassed \<and> j_exit_code j = Some 0 \<and>
    job_tree_sha j = Some (JStr tree)"
  using run
proof (cases rule: reconcile_changes)
  case same
  with row passed show ?thesis by simp
next
  case (changed x j tree t ev db1 P)
  have hit: "P r"
  proof (rule ccontr)
    assume "\<not> P r"
    with row changed(9) have "r' = r" by (simp add: row_of_update_where)
    with passed show False by simp
  qed
  from row_of_SomeD [OF changed(2)] have x: "x \<in> set (ci_requests db)" "r_worker_job_id x = Some wid" by auto
  have "r_request_id r = r_request_id x" by (rule changed(6) [OF hit])
  with row_of_distinct [OF requests_invD(1) [OF inv] x(1)] row(1) row_of_key [OF row(1)]
  have xr: "x = r" by simp
  have "r' = reconciled t ev now (matching_attestation_in_db x j tree now db) r"
    using row changed(9) hit by (simp add: row_of_update_where)
  with passed(1) have "snd t = RqPassed" by (simp add: reconciled_def)
  with reconcile_evidenceD(4) [OF changed(4)] have "j_status j = JobPassed"
    by (auto dest!: reconcile_target_cases) (cases "j_status j"; simp)
  with reconcile_evidenceD [OF changed(4)] changed(3) x xr show ?thesis by blast
qed

theorem reconcile_passes_with_evidence_witness:
  "\<exists>db r. reconcile_worker_request_in_db ''j'' 20 demo_unseen = Inr (True, db) \<and>
    request_row ''r'' db = Some r \<and> r_status r = RqPassed \<and> j_exit_code demo_done = Some 0"
proof -
  from demo_reconcile obtain db r where run: "reconcile_worker_request_in_db ''j'' 20 demo_unseen = Inr (True, db)"
    and r: "request_row ''r'' db = Some r" "r_status r = RqPassed" by blast
  from reconcile_passes_with_evidence [OF demo_unseen_inv run demo_unseen_tables(2) r]
  have "j_exit_code demo_done = Some 0" by (auto simp: demo_bound_fields demo_unseen_tables)
  with run r show ?thesis by blast
qed

text \<open>
  Reconciliation is idempotent: right after one, another one at the same time finds nothing
  to do and writes nothing.
\<close>

theorem reconcile_idempotent:
  assumes "reconcile_worker_request_in_db wid now db = Inr (b, db')"
  shows "reconcile_worker_request_in_db wid now db' = Inr (False, db')"
  by (rule reconcile_twice [OF assms])

theorem reconcile_idempotent_witness:
  "\<exists>db. reconcile_worker_request_in_db ''j'' 20 demo_unseen = Inr (True, db) \<and>
    reconcile_worker_request_in_db ''j'' 20 db = Inr (False, db)"
  using demo_reconcile reconcile_idempotent by blast




section \<open>Logs and steps\<close>

text \<open>
  Uploading a log batch appends exactly its text to the log of its job and to no other log,
  answers with the new length, and stores it once: the same batch id again, with any content, is
  acknowledged as already stored and changes nothing.
\<close>

theorem log_batch_stored_once:
  assumes inv: "logs_inv db"
    and run: "append_log_batch H jid batch content wid token now db = Inr ((n, False), db')"
  shows "job_log jid db' = job_log jid db @ content \<and> (\<forall>k. k \<noteq> jid \<longrightarrow> job_log k db' = job_log k db) \<and>
    n = int (length (job_log jid db')) \<and>
    (begin_job_write H jid wid' token' now' db' \<longrightarrow>
      (\<exists>m. append_log_batch H jid batch content' wid' token' now' db' = Inr ((m, True), db')))"
proof -
  let ?data = "JObj [(''bytes'', JInt (int (length content))), (''batch_id'', JStr batch)]"
  let ?db = "db\<lparr>ci_job_log_batches := ci_job_log_batches db @ [(jid, batch)]\<rparr>"
  from run have n: "n = log_end jid db + int (length content)"
    and db': "db' = insert_chunk jid content ?data ?db"
    by (auto simp: append_log_batch_def split: if_splits)
  have old: "job_log k ?db = job_log k db" for k by (simp add: job_log_def job_chunks_def)
  have "(jid, batch) \<in> set (ci_job_log_batches db')"
    by (simp add: db' insert_chunk_def add_event_def update_jobs_def)
  then show ?thesis
    by (auto simp: db' n job_log_insert old log_end_length [OF inv] append_log_batch_def)
qed

definition demo_logged :: ci_db where
  "demo_logged = insert_chunk ''j'' [72, 233, 8364] (JObj [(''bytes'', JInt 3), (''batch_id'', JStr ''n'')])
     (demo_running\<lparr>ci_job_log_batches := [(''j'', ''n'')]\<rparr>)"

lemma demo_upload:
  "append_log_batch id ''j'' ''n'' [72, 233, 8364] (Some ''w'') (Some ''t'') 3 demo_running =
    Inr ((3, False), demo_logged)"
proof -
  have "log_end ''j'' demo_running = 0"
    by (simp add: log_end_def job_chunks_def demo_running_tables sql_max_def)
  moreover have "begin_job_write id ''j'' (Some ''w'') (Some ''t'') 3 demo_running"
    by (simp add: begin_job_write_def demo_lease_held)
  ultimately show ?thesis
    using demo_job_row demo_running_tables(7) by (simp add: append_log_batch_def demo_logged_def)
qed

theorem log_batch_stored_once_witness:
  "job_log ''j'' demo_logged = [72, 233, 8364]"
proof -
  have "job_log ''j'' demo_running = []" by (simp add: job_log_def job_chunks_def demo_running_tables)
  with log_batch_stored_once [OF ci_invD(4) [OF reachable_inv [OF demo_running_reachable]] demo_upload]
  show ?thesis by simp
qed

lemma demo_logged_reachable: "ci_reachable id demo_logged"
proof -
  have "ci_step id demo_running demo_logged" by (rule ci_step.log_batch [OF demo_upload])
  with demo_running_reachable show ?thesis
    unfolding ci_reachable_def by (rule rtranclp.rtrancl_into_rtrancl)
qed

lemma demo_logged_job: "job_row ''j'' demo_logged \<noteq> None"
  using demo_job_row by (simp add: demo_logged_def row_of_update_where)

text \<open>
  C26. Reading a job's log page by page, following \<open>next_offset\<close>, gives exactly the requested
  slice of the text the worker appended, in every reachable state, for every offset, range, row
  limit and byte budget of at least four bytes; no more pages are needed than the slice has
  characters, plus one.
\<close>

theorem log_paging_is_exact:
  assumes "ci_reachable H db" and "job_row jid db \<noteq> None" and "range_ok q" and "\<not> small_budget q 0"
    and "length (slice (read_offset q) (lq_range_end q) (job_log jid db)) < n"
  shows "read_pages n jid q db = Some (slice (read_offset q) (lq_range_end q) (job_log jid db))"
  using read_pages_slice [OF ci_invD(4) [OF reachable_inv [OF assms(1)]] assms(2-4)] assms(5)
  by (simp add: requested_slice_def)

definition demo_query :: log_query where
  "demo_query = \<lparr>lq_offset = 1, lq_limit = 1, lq_range_start = None, lq_range_end = None,
     lq_max_bytes = Some 4\<rparr>"

theorem log_paging_is_exact_witness:
  "read_pages 5 ''j'' demo_query demo_logged = Some [233, 8364]"
proof -
  have log: "job_log ''j'' demo_logged = [72, 233, 8364]"
    by (simp add: demo_logged_def job_log_insert) (simp add: job_log_def job_chunks_def demo_running_tables)
  show ?thesis
    using log_paging_is_exact [OF demo_logged_reachable demo_logged_job, of demo_query 5]
    by (simp add: log slice_def demo_query_def range_ok_def small_budget_def read_offset_def)
qed

text \<open>
  A page keeps its limits: its fragments follow each other from the read offset, there are no
  more of them than the row limit, and their UTF-8 size is within the byte budget.
\<close>

theorem log_page_bounded:
  assumes inv: "logs_inv db" and job: "job_row jid db \<noteq> None" and range: "range_ok q"
    and page: "get_log_chunks jid q db = Inr p"
  shows "frag_chain (read_offset q) (lp_chunks p) \<and> length (lp_chunks p) \<le> row_limit q \<and>
    (\<forall>m. lq_max_bytes q = Some m \<longrightarrow> int (utf8_size (page_text (lp_chunks p))) \<le> max m 0)"
proof -
  obtain p' where "get_log_chunks jid q db = Inr p'" "frag_chain (read_offset q) (lp_chunks p')"
    "length (lp_chunks p') \<le> row_limit q" "within_budget q 0 (lp_chunks p')"
    by (rule get_log_page [OF inv job range])
  with page show ?thesis by (auto simp: within_budget_def)
qed

theorem log_page_bounded_witness:
  "\<exists>p. get_log_chunks ''j'' demo_query demo_logged = Inr p \<and> length (lp_chunks p) \<le> 1"
proof -
  note inv = ci_invD(4) [OF reachable_inv [OF demo_logged_reachable]]
  have q: "range_ok demo_query" by (simp add: range_ok_def demo_query_def)
  obtain p where p: "get_log_chunks ''j'' demo_query demo_logged = Inr p"
    by (rule get_log_page [OF inv demo_logged_job q])
  from log_page_bounded [OF inv demo_logged_job q p] p show ?thesis
    by (auto simp: row_limit_def demo_query_def)
qed

text \<open>
  C39. In every reachable state the log range of a step lies in the log of its job: it starts at
  or after 0, does not end before it starts, and does not reach past the persisted text; whatever
  end a worker reports is clamped into it.  The range repair of the startup then changes nothing.
\<close>

theorem step_ranges_valid:
  assumes "ci_reachable H db"
  shows "(\<forall>s \<in> set (ci_job_steps db). 0 \<le> s_log_start_offset s \<and>
      s_log_start_offset s \<le> s_log_end_offset s \<and>
      s_log_end_offset s \<le> int (length (job_log (s_job_id s) db))) \<and> repair_step_ranges db = db"
proof -
  note logs = ci_invD(4) [OF reachable_inv [OF assms]]
  from logs_invD(5) [OF logs] log_end_length [OF logs] repair_nothing [OF logs] show ?thesis
    by (simp add: step_ok_def)
qed

text \<open>A step that starts before the log and ends after it, with an end far beyond the log reported.\<close>

definition demo_stepping :: ci_db where
  "demo_stepping = demo_running\<lparr>ci_job_steps := [\<lparr>s_id = next_step_id demo_running, s_job_id = ''j'',
     s_step_name = ''build'', s_status = ''running'', s_exit_code = None, s_started_at = Some 3,
     s_finished_at = None, s_duration_seconds = None, s_log_start_offset = 0, s_log_end_offset = 0\<rparr>],
     next_step_id := Suc (next_step_id demo_running)\<rparr>"

definition demo_stepped :: ci_db where
  "demo_stepped = insert_chunk ''j'' [72, 233, 8364] (JObj [(''bytes'', JInt 3), (''batch_id'', JStr ''n'')])
     (demo_stepping\<lparr>ci_job_log_batches := [(''j'', ''n'')]\<rparr>)"

lemma demo_log_end: "log_end ''j'' demo_running = 0" "log_end ''j'' demo_stepping = 0"
  by (simp_all add: log_end_def job_chunks_def demo_stepping_def demo_running_tables sql_max_def)

lemma demo_step_starts:
  "add_step id ''j'' ''build'' ''running'' (Some ''w'') (Some ''t'') 3 3 demo_running =
    Inr (next_step_id demo_running, demo_stepping)"
  using demo_job_row
  by (simp add: add_step_def begin_job_write_def demo_lease_held demo_log_end demo_running_tables demo_stepping_def)

lemma demo_step_uploads:
  "append_log_batch id ''j'' ''n'' [72, 233, 8364] (Some ''w'') (Some ''t'') 3 demo_stepping =
    Inr ((3, False), demo_stepped)"
proof -
  have "begin_job_write id ''j'' (Some ''w'') (Some ''t'') 3 demo_stepping"
    using demo_lease_held by (simp add: begin_job_write_def lease_held_def demo_stepping_def)
  moreover have "job_row ''j'' demo_stepping \<noteq> None" using demo_job_row by (simp add: demo_stepping_def)
  ultimately show ?thesis
    using demo_log_end(2) demo_running_tables(7) by (auto simp: append_log_batch_def demo_stepped_def demo_stepping_def)
qed

lemma demo_stepped_reachable: "ci_reachable id demo_stepped"
proof -
  have "ci_step id demo_running demo_stepping" "ci_step id demo_stepping demo_stepped"
    by (rule ci_step.step_start [OF demo_step_starts], rule ci_step.log_batch [OF demo_step_uploads])
  with demo_running_reachable show ?thesis
    unfolding ci_reachable_def by (meson rtranclp.rtrancl_into_rtrancl)
qed

lemma demo_stepped_tables:
  "job_log ''j'' demo_stepped = [72, 233, 8364]" "log_end ''j'' demo_stepped = 3"
  "ci_job_steps demo_stepped = ci_job_steps demo_stepping"
proof -
  show l: "job_log ''j'' demo_stepped = [72, 233, 8364]"
    by (simp add: demo_stepped_def job_log_insert) (simp add: job_log_def job_chunks_def demo_stepping_def demo_running_tables)
  show "log_end ''j'' demo_stepped = 3"
    using log_end_length [OF ci_invD(4) [OF reachable_inv [OF demo_stepped_reachable]], of "''j''"] l by simp
  show "ci_job_steps demo_stepped = ci_job_steps demo_stepping"
    by (simp add: demo_stepped_def insert_chunk_def Let_def add_event_def update_jobs_def)
qed

theorem step_ranges_valid_witness:
  "\<exists>db s. finish_step id (next_step_id demo_running) ''success'' (Some 0) (Some 99) (Some ''j'') (Some ''w'') (Some ''t'')
      4 4 demo_stepped = Inr (True, db) \<and> ci_job_steps db = [s] \<and> s_log_start_offset s = 0 \<and>
    s_log_end_offset s = 3 \<and> s_log_end_offset s \<le> int (length (job_log (s_job_id s) db)) \<and> repair_step_ranges db = db"
proof -
  have held: "begin_job_write id ''j'' (Some ''w'') (Some ''t'') 4 demo_stepped"
    by (simp add: begin_job_write_def lease_held_def demo_stepped_def demo_stepping_def demo_running_tables)
      (simp add: update_where_def demo_leased_def leased_def demo_queued_def)
  obtain db s where fin: "finish_step id (next_step_id demo_running) ''success'' (Some 0) (Some 99) (Some ''j'')
      (Some ''w'') (Some ''t'') 4 4 demo_stepped = Inr (True, db)"
    and s: "ci_job_steps db = [s]" "s_log_start_offset s = 0" "s_log_end_offset s = 3"
    using held demo_stepped_tables(2,3)
    by (simp add: finish_step_def demo_stepping_def finish_step_row_def step_end_offset_def add_event_def)
  have "ci_step id demo_stepped db" by (rule ci_step.step_end [OF fin])
  with demo_stepped_reachable have "ci_reachable id db"
    unfolding ci_reachable_def by (rule rtranclp.rtrancl_into_rtrancl)
  from step_ranges_valid [OF this] fin s show ?thesis by auto
qed

section \<open>Clean-up, registration and status texts\<close>

text \<open>
  The clean-up deletes exactly the jobs that finished before the cut-off, so never a queued
  or running one, and leaves the logs of the other jobs as they are.
\<close>

theorem cleanup_spares_live_jobs:
  assumes "ci_reachable H db" and "job_row k db = Some j"
  shows "(job_row k (cleanup_old_jobs h now db) = None \<longleftrightarrow>
      sql_lt (j_finished_at j) (now - of_int (h * 3600))) \<and>
    (is_active (j_status j) \<or> j_status j = JobQueued \<longrightarrow>
      job_row k (cleanup_old_jobs h now db) = Some j \<and> job_log k (cleanup_old_jobs h now db) = job_log k db)"
proof -
  note jobs = ci_invD(1) [OF reachable_inv [OF assms(1)]]
  note dist = jobs_invD(1) [OF jobs]
  from row_of_SomeD [OF assms(2)] have j: "j \<in> set (ci_jobs db)" "j_job_id j = k" by auto
  note removed = removed_iff [OF dist j(1), of h now]
  from jobs_invD(3) [OF jobs j(1)] have live: "is_active (j_status j) \<or> j_status j = JobQueued \<longrightarrow>
      j_finished_at j = None" by (simp add: lease_shape_def)
  show ?thesis
    using removed live j(2) assms(2)
    by (auto simp: cleanup_job_row [OF dist] job_log_def cleanup_job_chunks)
qed

theorem cleanup_spares_live_jobs_witness:
  "job_row ''j'' (cleanup_old_jobs 1 1000000 demo_logged) \<noteq> None"
proof -
  obtain j where j: "job_row ''j'' demo_logged = Some j" using demo_logged_job by auto
  have "\<forall>x \<in> set (ci_jobs demo_logged). is_active (j_status x)"
    by (simp add: demo_logged_def demo_running_tables) (simp add: demo_leased_def leased_def)
  with row_of_SomeD [OF j] have "is_active (j_status j)" by blast
  with cleanup_spares_live_jobs [OF demo_logged_reachable j, of 1 1000000] show ?thesis by auto
qed

text \<open>
  Registering a worker under a trimmed id gives back every job it held: no running attempt
  is left to the old process.
\<close>

theorem registration_recovers_jobs:
  assumes inv: "jobs_inv db" and body: "parse_registration body = Some g"
    and trimmed: "py_strip (rg_worker_id g) = rg_worker_id g"
    and run: "worker_register H body ts ts' db = Inr (wid, db')"
  shows "wid = rg_worker_id g \<and>
    (\<forall>j \<in> set (ci_jobs db'). is_active (j_status j) \<longrightarrow> j_worker_id j \<noteq> Some wid)"
  using run recover_worker_jobs_none [OF inv, where wid = "rg_worker_id g" and ts = ts] body trimmed
  by (auto simp: worker_register_def register_worker_def)

definition demo_body :: json where
  "demo_body = JObj [(''worker_id'', JStr ''w''), (''token'', JStr ''s''), (''profiles'', JList [JStr ''p''])]"

theorem registration_recovers_jobs_witness:
  "\<exists>db'. worker_register id demo_body 9 9 demo_running = Inr (''w'', db') \<and>
    (\<forall>j \<in> set (ci_jobs db'). is_active (j_status j) \<longrightarrow> j_worker_id j \<noteq> Some ''w'')"
proof -
  have strip: "py_strip ''w'' = ''w''" by (simp add: py_strip_def py_space_def)
  let ?g = "\<lparr>rg_worker_id = ''w'', rg_token = ''s'', rg_profiles = [''p''], rg_max_concurrent = 1\<rparr>"
  have parse: "parse_registration demo_body = Some ?g"
    by (simp add: parse_registration_def demo_body_def strip)
  then obtain db' where run: "worker_register id demo_body 9 9 demo_running = Inr (''w'', db')"
    by (auto simp: worker_register_def strip)
  from registration_recovers_jobs [OF ci_invD(1) [OF reachable_inv [OF demo_running_reachable]] parse _ run]
  show ?thesis using run strip by auto
qed

text \<open>The status column is faithful: reading the text of a status gives the status back.\<close>

theorem job_status_text_roundtrip:
  "job_status_of_text (job_status_text st) = (case st of
     OtherStatus s \<Rightarrow> (if s \<in> set (map job_status_text all_job_statuses)
       then job_status_of_text s else OtherStatus s) | _ \<Rightarrow> st)"
  by (cases st) (auto simp: job_status_of_text_def all_job_statuses_def)

end
