(* ===== verification/Json_Text.thy ===== *)
theory Json_Text
  imports Prelude
begin

text \<open>
  \<open>json.dumps\<close> with the compact separators and \<open>ensure_ascii=False\<close>, as the stores call it for
  canonical hashes and event metadata.  \<open>F\<close> is the printer of floats.  The text of an object of
  strings determines it, which is what makes a digest of it a fingerprint.
\<close>

text \<open>SHA-256 of the UTF-8 encoding of a text, as a hexadecimal text, and the printer of floats.\<close>

record codec =
  sha256 :: "string \<Rightarrow> string"
  float_text :: "real \<Rightarrow> string"

section \<open>Printing\<close>

abbreviation quote :: char where "quote \<equiv> CHR 0x22"
abbreviation backslash :: char where "backslash \<equiv> CHR 0x5C"

definition escape_char :: "char \<Rightarrow> string" where
  "escape_char c =
     (if c = quote then [backslash, quote]
      else if c = backslash then [backslash, backslash]
      else if c = CHR 0x0A then [backslash, CHR ''n'']
      else if c = CHR 0x0D then [backslash, CHR ''r'']
      else if c = CHR 0x09 then [backslash, CHR ''t'']
      else if c = CHR 0x0C then [backslash, CHR ''f'']
      else if c = CHR 0x08 then [backslash, CHR ''b'']
      else (let n = (of_char c :: nat) in
        if n < 32 then backslash # ''u00'' @ [hex_digits ! (n div 16), hex_digits ! (n mod 16)]
        else [c]))"

definition json_quoted :: "string \<Rightarrow> string" where
  "json_quoted s = quote # concat (map escape_char s) @ [quote]"

fun nat_text :: "nat \<Rightarrow> string" where
  "nat_text n = (if n < 10 then [hex_digits ! n] else nat_text (n div 10) @ [hex_digits ! (n mod 10)])"

declare nat_text.simps [simp del]

definition int_text :: "int \<Rightarrow> string" where
  "int_text i = (if i < 0 then CHR ''-'' # nat_text (nat (- i)) else nat_text (nat i))"

fun join :: "string \<Rightarrow> string list \<Rightarrow> string" where
  "join sep [] = []"
| "join sep [x] = x"
| "join sep (x # y # xs) = x @ sep @ join sep (y # xs)"

fun json_text :: "(real \<Rightarrow> string) \<Rightarrow> json \<Rightarrow> string" where
  "json_text F JNull = ''null''"
| "json_text F (JBool b) = (if b then ''true'' else ''false'')"
| "json_text F (JInt i) = int_text i"
| "json_text F (JReal r) = F r"
| "json_text F (JStr s) = json_quoted s"
| "json_text F (JList xs) = ''['' @ join '','' (map (json_text F) xs) @ '']''"
| "json_text F (JObj kvs) =
     CHR 0x7B # join '','' (map (\<lambda>(k, v). json_quoted k @ '':'' @ json_text F v) kvs) @ [CHR 0x7D]"

text \<open>\<open>sort_keys=True\<close>: the fields in the order of their names.\<close>

definition canonical_json :: "(string \<times> json) list \<Rightarrow> json" where
  "canonical_json kvs = JObj (sort_key fst kvs)"

section \<open>The text of a string determines it\<close>

definition hex_value :: "char \<Rightarrow> nat" where
  "hex_value c = length (takeWhile (\<lambda>d. d \<noteq> c) hex_digits)"

text \<open>The scanner for the body of a string, up to its closing quote.\<close>

fun read_escaped :: "string \<Rightarrow> (string \<times> string) option" where
  "read_escaped [] = None"
| "read_escaped (c # cs) =
     (if c = quote then Some ([], cs)
      else if c \<noteq> backslash then map_option (\<lambda>(s, r). (c # s, r)) (read_escaped cs)
      else (case cs of
        [] \<Rightarrow> None
      | e # ds \<Rightarrow>
          if e = CHR ''u'' then
            (case ds of
               z # y # h # l # rest \<Rightarrow>
                 map_option (\<lambda>(s, r). (char_of (16 * hex_value h + hex_value l) # s, r)) (read_escaped rest)
             | _ \<Rightarrow> None)
          else map_option (\<lambda>(s, r).
            ((if e = CHR ''n'' then CHR 0x0A else if e = CHR ''r'' then CHR 0x0D
              else if e = CHR ''t'' then CHR 0x09 else if e = CHR ''f'' then CHR 0x0C
              else if e = CHR ''b'' then CHR 0x08 else e) # s, r)) (read_escaped ds)))"

lemma hex_value_digit: "k < 16 \<Longrightarrow> hex_value (hex_digits ! k) = k"
proof -
  have "list_all (\<lambda>k. hex_value (hex_digits ! k) = k) [0..<16]"
    by (simp add: hex_value_def hex_digits_def upt_rec)
  then show "k < 16 \<Longrightarrow> hex_value (hex_digits ! k) = k" by (simp add: list_all_iff)
qed

lemma hex_pair:
  assumes "(of_char c :: nat) < 32"
  shows "char_of (16 * hex_value (hex_digits ! (of_char c div 16)) +
      hex_value (hex_digits ! (of_char c mod 16))) = c"
proof -
  have "of_char c div 16 < (16 :: nat)" "of_char c mod 16 < (16 :: nat)" using assms by auto
  then show ?thesis by (simp add: hex_value_digit)
qed

lemma read_escape_char:
  "read_escaped (escape_char c @ t) = map_option (\<lambda>(s, r). (c # s, r)) (read_escaped t)"
  using hex_pair [of c] by (auto simp: escape_char_def Let_def)

lemma read_escaped_body:
  "read_escaped (concat (map escape_char s) @ quote # t) = Some (s, t)"
  by (induction s) (simp_all add: read_escape_char)

lemma json_quoted_inject:
  assumes "json_quoted s @ u = json_quoted t @ v"
  shows "s = t \<and> u = v"
proof -
  from assms have "concat (map escape_char s) @ quote # u = concat (map escape_char t) @ quote # v"
    by (simp add: json_quoted_def)
  then have "Some (s, u) = Some (t, v)" by (metis read_escaped_body)
  then show ?thesis by simp
qed

lemma json_quoted_inject_iff [simp]:
  "json_quoted s @ u = json_quoted t @ v \<longleftrightarrow> s = t \<and> u = v"
  by (auto dest: json_quoted_inject)

lemma json_quoted_eq [simp]: "json_quoted s = json_quoted t \<longleftrightarrow> s = t"
  using json_quoted_inject_iff [of s "[]" t "[]"] by simp

lemma json_quoted_not_null: "json_quoted s @ u \<noteq> ''null'' @ v"
  by (simp add: json_quoted_def)

section \<open>Sorting nested objects\<close>

text \<open>\<open>sort_keys=True\<close> on a value: the fields of every object in it, at any depth.\<close>

fun sort_keys :: "json \<Rightarrow> json" where
  "sort_keys (JList xs) = JList (map sort_keys xs)"
| "sort_keys (JObj kvs) = JObj (sort_key fst (map (\<lambda>(k, v). (k, sort_keys v)) kvs))"
| "sort_keys v = v"

end
