(* ===== verification/Convergence_Store.thy ===== *)
theory Convergence_Store
  imports Json_Text Interfaces "HOL-Library.AList"
begin

text \<open>
  \<open>app/development_convergence_store.py\<close>: durable convergence runs.  A run records the exact
  Git, session and workspace identity it was created for, the readiness of each analysis stage,
  the jobs and requests it was bound to and its terminal evidence.  Every change names the
  revision it read and appends one event.

  SQLite checks the uniqueness of ids, of event revisions, of idempotency keys per repository and
  of the active run of an identity.  The model checks the first two where rows are inserted; the
  others cannot fail there, because the code looks the rows up first in the same transaction.
\<close>

record convergence =
  cv_id :: string
  cv_repository :: string
  cv_branch :: string
  cv_session_id :: string
  cv_workspace_id :: string
  cv_session_revision :: int
  cv_workspace_revision :: int
  cv_head_sha :: string
  cv_tree_sha :: string
  cv_base_branch :: string
  cv_base_sha :: string
  cv_mode :: string
  cv_phase :: string
  cv_status :: string
  cv_revision :: nat
  cv_terminal :: bool
  cv_index_job_id :: "string option"
  cv_ci_request_id :: "string option"
  cv_ci_job_id :: "string option"
  cv_attestation_id :: "string option"
  cv_failure_pack_id :: "string option"
  cv_error_code :: "string option"
  cv_error_message :: "string option"
  cv_idempotency_key :: "string option"
  cv_identity_hash :: string
  cv_caller_hash :: "string option"
  cv_created_at :: time
  cv_updated_at :: time
  cv_finished_at :: "time option"

record analysis =
  an_convergence_id :: string
  an_stage :: string
  an_state :: string
  an_resource_uri :: "string option"
  an_resource_identity :: "string option"
  an_error_code :: "string option"
  an_error_message :: "string option"
  an_updated_at :: time

record conv_event =
  ce_id :: nat
  ce_convergence_id :: string
  ce_revision :: nat
  ce_type :: string
  ce_from_phase :: "string option"
  ce_to_phase :: "string option"
  ce_from_status :: "string option"
  ce_to_status :: "string option"
  ce_metadata :: json
  ce_created_at :: time

record conv_db =
  convergences :: "convergence list"
  analyses :: "analysis list"
  conv_events :: "conv_event list"
  next_conv_event :: nat

definition empty_conv_db :: conv_db where
  "empty_conv_db = \<lparr>convergences = [], analyses = [], conv_events = [], next_conv_event = 1\<rparr>"

datatype conv_error =
    ConvValueError | ConvNotFound | ConvRevisionMismatch | ConvStateInvalid
  | ConvIdentityMismatch | ConvIdempotencyConflict | ConvIntegrityError

text \<open>What an operation returns: the row, its analysis stages and the deduplication marks.\<close>

record conv_reply =
  rp_row :: convergence
  rp_analysis :: "analysis list"
  rp_deduplicated :: "bool option"
  rp_dedupe_reason :: "string option"

section \<open>Constants and checks\<close>

definition valid_modes :: "string list" where
  "valid_modes = [''fast'', ''full'']"

definition convergence_phases :: "string list" where
  "convergence_phases =
     [''accepted'', ''index_requested'', ''analysis_pending'', ''ci_requested'', ''ci_running'',
      ''post_ci_finalize'', ''passed'', ''failed'', ''blocked'']"

definition terminal_phases :: "string list" where
  "terminal_phases = [''passed'', ''failed'', ''blocked'']"

definition analysis_stages :: "string list" where
  "analysis_stages =
     [''index'', ''change_context'', ''change_impact'', ''contract_detection'', ''affected_tests'']"

definition analysis_states :: "string list" where
  "analysis_states = [''pending'', ''ready'', ''failed'', ''degraded'']"

definition metadata_limit :: nat where
  "metadata_limit = 8192"

record create_args =
  ca_repository :: string
  ca_branch :: string
  ca_session_id :: string
  ca_workspace_id :: string
  ca_session_revision :: int
  ca_workspace_revision :: int
  ca_head_sha :: string
  ca_tree_sha :: string
  ca_base_branch :: string
  ca_base_sha :: string
  ca_mode :: string
  ca_idempotency_key :: string
  ca_caller_hash :: string

definition validate_create_identity :: "create_args \<Rightarrow> bool" where
  "validate_create_identity a \<longleftrightarrow>
     list_all (\<lambda>v. py_strip v \<noteq> [])
       [ca_repository a, ca_branch a, ca_session_id a, ca_workspace_id a, ca_base_branch a] \<and>
     ca_mode a \<in> set valid_modes \<and>
     0 \<le> ca_session_revision a \<and> 0 \<le> ca_workspace_revision a \<and>
     is_sha (ca_head_sha a) \<and> is_sha (ca_tree_sha a) \<and> is_sha (ca_base_sha a) \<and>
     (ca_caller_hash a \<noteq> [] \<longrightarrow> is_sha256 (ca_caller_hash a))"

text \<open>An empty string stored as \<open>NULL\<close>: \<open>value or None\<close>.\<close>

definition or_none :: "string \<Rightarrow> string option" where
  "or_none s = (if s = [] then None else Some s)"

definition request_identity :: "create_args \<Rightarrow> (string \<times> json) list" where
  "request_identity a =
     [(''repository'', JStr (ca_repository a)), (''branch'', JStr (ca_branch a)),
      (''development_session_id'', JStr (ca_session_id a)),
      (''workspace_id'', JStr (ca_workspace_id a)), (''head_sha'', JStr (ca_head_sha a)),
      (''tree_sha'', JStr (ca_tree_sha a)), (''base_branch'', JStr (ca_base_branch a)),
      (''base_sha'', JStr (ca_base_sha a)), (''mode'', JStr (ca_mode a)),
      (''caller_identity_hash'', json_opt (or_none (ca_caller_hash a)))]"

definition canonical_hash :: "codec \<Rightarrow> (string \<times> json) list \<Rightarrow> string" where
  "canonical_hash K payload = sha256 K (json_text (float_text K) (canonical_json payload))"

definition identity_hash :: "codec \<Rightarrow> create_args \<Rightarrow> string" where
  "identity_hash K a = canonical_hash K (request_identity a)"

definition bounded_metadata :: "codec \<Rightarrow> (string \<times> json) list \<Rightarrow> json" where
  "bounded_metadata K d =
     (let encoded = json_text (float_text K) (JObj d)
      in if text_bytes encoded \<le> metadata_limit then JObj d
         else JObj [(''truncated'', JBool True), (''size_bytes'', JInt (int (text_bytes encoded))),
                    (''sha256'', JStr (sha256 K encoded))])"

section \<open>Rows and events\<close>

definition analysis_rows :: "conv_db \<Rightarrow> string \<Rightarrow> analysis list" where
  "analysis_rows db cid = sort_key an_stage (filter (\<lambda>a. an_convergence_id a = cid) (analyses db))"

definition public :: "conv_db \<Rightarrow> convergence \<Rightarrow> conv_reply" where
  "public db r = \<lparr>rp_row = r, rp_analysis = analysis_rows db (cv_id r), rp_deduplicated = None,
     rp_dedupe_reason = None\<rparr>"

definition get_row :: "string \<Rightarrow> conv_db \<Rightarrow> conv_error + convergence" where
  "get_row cid db =
     (case row_of cv_id cid (convergences db) of None \<Rightarrow> Inl ConvNotFound | Some r \<Rightarrow> Inr r)"

definition require_revision :: "string \<Rightarrow> int \<Rightarrow> conv_db \<Rightarrow> conv_error + convergence" where
  "require_revision cid expected db =
     (case get_row cid db of
        Inl e \<Rightarrow> Inl e
      | Inr r \<Rightarrow> if int (cv_revision r) \<noteq> expected then Inl ConvRevisionMismatch else Inr r)"

text \<open>The metadata of an event is kept as the JSON value whose text the column holds.\<close>

definition insert_event ::
  "codec \<Rightarrow> string \<Rightarrow> nat \<Rightarrow> string \<Rightarrow> (string \<times> string) option \<Rightarrow> string \<times> string \<Rightarrow>
     (string \<times> json) list \<Rightarrow> time \<Rightarrow> conv_db \<Rightarrow> conv_error + conv_db" where
  "insert_event K cid rv ty from_st to_st meta now db =
     (if \<exists>e \<in> set (conv_events db). ce_convergence_id e = cid \<and> ce_revision e = rv
      then Inl ConvIntegrityError
      else Inr (db\<lparr>conv_events := conv_events db @
             [\<lparr>ce_id = next_conv_event db, ce_convergence_id = cid, ce_revision = rv, ce_type = ty,
               ce_from_phase = map_option fst from_st, ce_to_phase = Some (fst to_st),
               ce_from_status = map_option snd from_st, ce_to_status = Some (snd to_st),
               ce_metadata = bounded_metadata K meta, ce_created_at = now\<rparr>],
           next_conv_event := Suc (next_conv_event db)\<rparr>))"

text \<open>The columns of the partial unique index on active runs.\<close>

definition active_key ::
  "convergence \<Rightarrow> string \<times> string \<times> string \<times> string \<times> string \<times> string \<times> string" where
  "active_key r = (cv_repository r, cv_session_id r, cv_head_sha r, cv_tree_sha r, cv_mode r,
     cv_base_branch r, cv_base_sha r)"

definition args_key ::
  "create_args \<Rightarrow> string \<times> string \<times> string \<times> string \<times> string \<times> string \<times> string" where
  "args_key a = (ca_repository a, ca_session_id a, ca_head_sha a, ca_tree_sha a, ca_mode a,
     ca_base_branch a, ca_base_sha a)"

definition active_row ::
  "string \<times> string \<times> string \<times> string \<times> string \<times> string \<times> string \<Rightarrow> conv_db \<Rightarrow> convergence option" where
  "active_row k db =
     (case sort_key cv_created_at (filter (\<lambda>r. active_key r = k \<and> \<not> cv_terminal r) (convergences db)) of
        [] \<Rightarrow> None | r # _ \<Rightarrow> Some r)"

definition assert_active_identity :: "convergence \<Rightarrow> create_args \<Rightarrow> bool" where
  "assert_active_identity r a \<longleftrightarrow> cv_branch r = ca_branch a \<and> cv_workspace_id r = ca_workspace_id a"

section \<open>Creating a run\<close>

definition new_convergence :: "codec \<Rightarrow> create_args \<Rightarrow> string \<Rightarrow> time \<Rightarrow> convergence" where
  "new_convergence K a cid now =
     \<lparr>cv_id = cid, cv_repository = ca_repository a, cv_branch = ca_branch a,
      cv_session_id = ca_session_id a, cv_workspace_id = ca_workspace_id a,
      cv_session_revision = ca_session_revision a,
      cv_workspace_revision = ca_workspace_revision a, cv_head_sha = ca_head_sha a,
      cv_tree_sha = ca_tree_sha a, cv_base_branch = ca_base_branch a,
      cv_base_sha = ca_base_sha a, cv_mode = ca_mode a, cv_phase = ''accepted'',
      cv_status = ''accepted'', cv_revision = 0, cv_terminal = False, cv_index_job_id = None,
      cv_ci_request_id = None, cv_ci_job_id = None, cv_attestation_id = None,
      cv_failure_pack_id = None, cv_error_code = None, cv_error_message = None,
      cv_idempotency_key = or_none (ca_idempotency_key a), cv_identity_hash = identity_hash K a,
      cv_caller_hash = or_none (ca_caller_hash a), cv_created_at = now, cv_updated_at = now,
      cv_finished_at = None\<rparr>"

definition pending_stage :: "string \<Rightarrow> time \<Rightarrow> string \<Rightarrow> analysis" where
  "pending_stage cid now stage =
     \<lparr>an_convergence_id = cid, an_stage = stage, an_state = ''pending'', an_resource_uri = None,
      an_resource_identity = None, an_error_code = None, an_error_message = None,
      an_updated_at = now\<rparr>"

definition keyed_row :: "string \<Rightarrow> string \<Rightarrow> conv_db \<Rightarrow> convergence option" where
  "keyed_row repo key db =
     List.find (\<lambda>r. cv_repository r = repo \<and> cv_idempotency_key r = Some key) (convergences db)"

text \<open>
  The arguments, the fresh id (\<open>conv_\<close> and 24 hex digits of a random UUID) and the two clock
  readings of the transaction: the row's and the event's.
\<close>

definition insert_convergence ::
  "codec \<Rightarrow> create_args \<Rightarrow> string \<Rightarrow> time \<times> time \<Rightarrow> conv_db \<Rightarrow> conv_error + (conv_reply \<times> conv_db)" where
  "insert_convergence K a cid clock db =
     (if row_of cv_id cid (convergences db) \<noteq> None then Inl ConvIntegrityError
      else let now = fst clock; r = new_convergence K a cid now;
          db1 = db\<lparr>convergences := convergences db @ [r],
                   analyses := analyses db @ map (pending_stage cid now) analysis_stages\<rparr>
        in (case insert_event K cid 0 ''convergence_created'' None (''accepted'', ''accepted'')
               [(''session_revision'', JInt (ca_session_revision a)),
                (''workspace_revision'', JInt (ca_workspace_revision a))] (snd clock) db1 of
              Inl e \<Rightarrow> Inl e
            | Inr db2 \<Rightarrow> Inr ((public db2 r)\<lparr>rp_deduplicated := Some False\<rparr>, db2)))"

definition create_or_get_convergence ::
  "codec \<Rightarrow> create_args \<Rightarrow> string \<Rightarrow> time \<times> time \<Rightarrow> conv_db \<Rightarrow> conv_error + (conv_reply \<times> conv_db)" where
  "create_or_get_convergence K a cid clock db =
     (if \<not> validate_create_identity a then Inl ConvValueError
      else case (if ca_idempotency_key a = [] then None
                 else keyed_row (ca_repository a) (ca_idempotency_key a) db) of
        Some existing \<Rightarrow>
          (if cv_identity_hash existing \<noteq> identity_hash K a then Inl ConvIdempotencyConflict
           else Inr ((public db existing)\<lparr>rp_deduplicated := Some True,
                  rp_dedupe_reason := Some ''idempotency_key''\<rparr>, db))
      | None \<Rightarrow>
          (case active_row (args_key a) db of
             Some active \<Rightarrow>
               (if \<not> assert_active_identity active a then Inl ConvIdentityMismatch
                else Inr ((public db active)\<lparr>rp_deduplicated := Some True,
                  rp_dedupe_reason := Some ''active_identity''\<rparr>, db))
           | None \<Rightarrow> insert_convergence K a cid clock db))"

section \<open>Reading\<close>

definition get_convergence :: "string \<Rightarrow> conv_db \<Rightarrow> conv_error + conv_reply" where
  "get_convergence cid db =
     (case get_row cid db of Inl e \<Rightarrow> Inl e | Inr r \<Rightarrow> Inr (public db r))"

definition find_active_convergence ::
  "string \<times> string \<times> string \<times> string \<times> string \<times> string \<times> string \<Rightarrow> conv_db \<Rightarrow> conv_reply option" where
  "find_active_convergence k db = map_option (public db) (active_row k db)"

text \<open>\<open>tuple(dict.fromkeys(modes))\<close> keeps the first of each mode.\<close>

definition first_occurrences :: "'a list \<Rightarrow> 'a list" where
  "first_occurrences xs = rev (remdups (rev xs))"

definition list_convergences_for_session ::
  "string \<Rightarrow> string \<Rightarrow> string \<Rightarrow> string \<Rightarrow> string \<Rightarrow> string list \<Rightarrow> int \<Rightarrow> conv_db \<Rightarrow>
     conv_error + conv_reply list" where
  "list_convergences_for_session repo branch session base_branch base_sha modes limit db =
     (let ms = first_occurrences modes
      in if ms = [] \<or> list_ex (\<lambda>m. m \<notin> set valid_modes) ms then Inl ConvValueError
         else let n = max 1 (min (if limit = 0 then 50 else limit) 100)
         in Inr (map (public db) (take (nat n)
              (sort_key (\<lambda>r. (- cv_updated_at r, - cv_created_at r))
                (filter (\<lambda>r. cv_repository r = repo \<and> cv_branch r = branch \<and>
                     cv_session_id r = session \<and> cv_base_branch r = base_branch \<and>
                     cv_base_sha r = base_sha \<and> cv_mode r \<in> set ms) (convergences db))))))"

definition list_convergence_events ::
  "string \<Rightarrow> int \<Rightarrow> conv_db \<Rightarrow> conv_error + conv_event list" where
  "list_convergence_events cid limit db =
     (case get_convergence cid db of
        Inl e \<Rightarrow> Inl e
      | Inr _ \<Rightarrow> Inr (take (nat (max 1 (min limit 500)))
          (sort_key ce_revision (filter (\<lambda>e. ce_convergence_id e = cid) (conv_events db)))))"

section \<open>Updating a run\<close>

text \<open>
  The tail of every update: the guarded \<open>UPDATE\<close>, the check of its row count, and the event
  from the row as read (\<open>r\<close>) to the row as written.
\<close>

definition commit_revision ::
  "codec \<Rightarrow> string \<Rightarrow> int \<Rightarrow> convergence \<Rightarrow> (convergence \<Rightarrow> convergence) \<Rightarrow> string \<Rightarrow>
     (string \<times> json) list \<Rightarrow> time \<times> time \<Rightarrow> conv_db \<Rightarrow> conv_error + (conv_reply \<times> conv_db)" where
  "commit_revision K cid expected r f ty meta clock db =
     (let hit = (\<lambda>x. cv_id x = cid \<and> int (cv_revision x) = expected)
      in if row_count hit (convergences db) \<noteq> 1 then Inl ConvRevisionMismatch
      else let db1 = db\<lparr>convergences := update_where hit
             (\<lambda>x. (f x)\<lparr>cv_revision := cv_revision x + 1, cv_updated_at := fst clock\<rparr>)
             (convergences db)\<rparr>
      in (case get_row cid db1 of
            Inl e \<Rightarrow> Inl e
          | Inr updated \<Rightarrow>
              (case insert_event K cid (cv_revision updated) ty
                  (Some (cv_phase r, cv_status r)) (cv_phase updated, cv_status updated)
                  meta (snd clock) db1 of
                 Inl e \<Rightarrow> Inl e
               | Inr db2 \<Rightarrow> Inr (public db2 updated, db2))))"

record transition_options =
  to_status :: string
  to_error_code :: "string option"
  to_error_message :: "string option"
  to_event_type :: string
  to_metadata :: "(string \<times> json) list"

definition transition_convergence ::
  "codec \<Rightarrow> string \<Rightarrow> int \<Rightarrow> string \<Rightarrow> transition_options \<Rightarrow> time \<times> time \<Rightarrow> conv_db \<Rightarrow>
     conv_error + (conv_reply \<times> conv_db)" where
  "transition_convergence K cid expected phase opts clock db =
     (if phase \<notin> set convergence_phases then Inl ConvValueError
      else let target_status = (if to_status opts = [] then phase else to_status opts);
          terminal = (phase \<in> set terminal_phases)
      in if target_status = [] then Inl ConvValueError
      else (case require_revision cid expected db of
          Inl e \<Rightarrow> Inl e
        | Inr r \<Rightarrow>
            if cv_terminal r then Inl ConvStateInvalid
            else commit_revision K cid expected r
              (\<lambda>x. x\<lparr>cv_phase := phase, cv_status := target_status, cv_terminal := terminal,
                     cv_error_code := to_error_code opts, cv_error_message := to_error_message opts,
                     cv_finished_at := (if terminal then Some (fst clock) else None)\<rparr>)
              (to_event_type opts) (to_metadata opts) clock db))"

definition bind_fields :: "string list" where
  "bind_fields = [''index_job_id'', ''ci_request_id'', ''ci_job_id'']"

definition bound_id :: "string \<Rightarrow> convergence \<Rightarrow> string option" where
  "bound_id field r =
     (if field = ''index_job_id'' then cv_index_job_id r
      else if field = ''ci_request_id'' then cv_ci_request_id r
      else if field = ''ci_job_id'' then cv_ci_job_id r else None)"

definition set_bound_id :: "string \<Rightarrow> string \<Rightarrow> convergence \<Rightarrow> convergence" where
  "set_bound_id field v r =
     (if field = ''index_job_id'' then r\<lparr>cv_index_job_id := Some v\<rparr>
      else if field = ''ci_request_id'' then r\<lparr>cv_ci_request_id := Some v\<rparr>
      else if field = ''ci_job_id'' then r\<lparr>cv_ci_job_id := Some v\<rparr> else r)"

text \<open>\<open>{field: value, **metadata}\<close>: later entries replace earlier ones in place.\<close>

definition dict_merge :: "('k \<times> 'v) list \<Rightarrow> ('k \<times> 'v) list \<Rightarrow> ('k \<times> 'v) list" where
  "dict_merge d m = fold (\<lambda>(k, v). AList.update k v) m d"

definition bind_once ::
  "codec \<Rightarrow> string \<Rightarrow> int \<Rightarrow> string \<Rightarrow> string \<Rightarrow> string \<Rightarrow> (string \<times> json) list \<Rightarrow> bool \<Rightarrow>
     time \<times> time \<Rightarrow> conv_db \<Rightarrow> conv_error + (conv_reply \<times> conv_db)" where
  "bind_once K cid expected field value ty meta allow_terminal clock db =
     (if field \<notin> set bind_fields \<or> py_strip value = [] then Inl ConvValueError
      else (case require_revision cid expected db of
          Inl e \<Rightarrow> Inl e
        | Inr r \<Rightarrow>
            if cv_terminal r \<and> \<not> allow_terminal then Inl ConvStateInvalid
            else if truthy (bound_id field r) then
              (if bound_id field r \<noteq> Some value then Inl ConvIdentityMismatch
               else Inr ((public db r)\<lparr>rp_deduplicated := Some True\<rparr>, db))
            else (case commit_revision K cid expected r (set_bound_id field value) ty
                    (dict_merge [(field, JStr value)] meta) clock db of
                Inl e \<Rightarrow> Inl e
              | Inr (rp, db') \<Rightarrow> Inr (rp\<lparr>rp_deduplicated := Some False\<rparr>, db'))))"

definition bind_index_job ::
  "codec \<Rightarrow> string \<Rightarrow> int \<Rightarrow> string \<Rightarrow> time \<times> time \<Rightarrow> conv_db \<Rightarrow> conv_error + (conv_reply \<times> conv_db)" where
  "bind_index_job K cid expected v clock db =
     bind_once K cid expected ''index_job_id'' v ''index_job_bound'' [] False clock db"

definition bind_ci_request ::
  "codec \<Rightarrow> string \<Rightarrow> int \<Rightarrow> string \<Rightarrow> time \<times> time \<Rightarrow> conv_db \<Rightarrow> conv_error + (conv_reply \<times> conv_db)" where
  "bind_ci_request K cid expected v clock db =
     bind_once K cid expected ''ci_request_id'' v ''ci_request_bound'' [] False clock db"

text \<open>
  \<open>bind_ci_job\<close> checks the request in one transaction and binds in a second one; other writers
  can commit in between, so the two halves are also operations of their own.
\<close>

definition check_ci_request :: "string \<Rightarrow> int \<Rightarrow> string \<Rightarrow> conv_db \<Rightarrow> conv_error option" where
  "check_ci_request cid expected request db =
     (case require_revision cid expected db of
        Inl e \<Rightarrow> Some e
      | Inr r \<Rightarrow> if cv_ci_request_id r \<noteq> Some request then Some ConvIdentityMismatch else None)"

definition bind_ci_job_write ::
  "codec \<Rightarrow> string \<Rightarrow> int \<Rightarrow> string \<Rightarrow> string \<Rightarrow> time \<times> time \<Rightarrow> conv_db \<Rightarrow>
     conv_error + (conv_reply \<times> conv_db)" where
  "bind_ci_job_write K cid expected request v clock db =
     bind_once K cid expected ''ci_job_id'' v ''ci_job_bound'' [(''ci_request_id'', JStr request)]
       False clock db"

definition bind_ci_job ::
  "codec \<Rightarrow> string \<Rightarrow> int \<Rightarrow> string \<Rightarrow> string \<Rightarrow> time \<times> time \<Rightarrow> conv_db \<Rightarrow>
     conv_error + (conv_reply \<times> conv_db)" where
  "bind_ci_job K cid expected request v clock db =
     (case check_ci_request cid expected request db of
        Some e \<Rightarrow> Inl e
      | None \<Rightarrow> bind_ci_job_write K cid expected request v clock db)"

record analysis_args =
  aa_stage :: string
  aa_state :: string
  aa_resource_uri :: "string option"
  aa_resource_identity :: "string option"
  aa_error_code :: "string option"
  aa_error_message :: "string option"

definition record_analysis_state ::
  "codec \<Rightarrow> string \<Rightarrow> int \<Rightarrow> analysis_args \<Rightarrow> time \<times> time \<Rightarrow> conv_db \<Rightarrow>
     conv_error + (conv_reply \<times> conv_db)" where
  "record_analysis_state K cid expected a clock db =
     (if aa_stage a \<notin> set analysis_stages \<or> aa_state a \<notin> set analysis_states then Inl ConvValueError
      else (case require_revision cid expected db of
          Inl e \<Rightarrow> Inl e
        | Inr r \<Rightarrow>
            if cv_terminal r then Inl ConvStateInvalid
            else commit_revision K cid expected r id ''analysis_state_recorded''
              [(''stage'', JStr (aa_stage a)), (''state'', JStr (aa_state a)),
               (''resource_identity'', json_opt (aa_resource_identity a))] clock
              (db\<lparr>analyses := update_where
                  (\<lambda>x. an_convergence_id x = cid \<and> an_stage x = aa_stage a)
                  (\<lambda>x. x\<lparr>an_state := aa_state a, an_resource_uri := aa_resource_uri a,
                         an_resource_identity := aa_resource_identity a,
                         an_error_code := aa_error_code a, an_error_message := aa_error_message a,
                         an_updated_at := fst clock\<rparr>) (analyses db)\<rparr>)))"

text \<open>
  The loop over the two evidence fields: the first contradiction raises, an equal value is
  skipped, the rest is written.
\<close>

definition evidence_update :: "string option \<Rightarrow> string option \<Rightarrow> string option option" where
  "evidence_update current value =
     (if \<not> truthy value then Some None
      else if truthy current \<and> current \<noteq> value then None
      else if truthy current then Some None else Some value)"

definition evidence_entry :: "string \<Rightarrow> string option \<Rightarrow> (string \<times> json) list" where
  "evidence_entry field v = (case v of None \<Rightarrow> [] | Some x \<Rightarrow> [(field, JStr x)])"

definition record_terminal_evidence ::
  "codec \<Rightarrow> string \<Rightarrow> int \<Rightarrow> string option \<Rightarrow> string option \<Rightarrow> time \<times> time \<Rightarrow> conv_db \<Rightarrow>
     conv_error + (conv_reply \<times> conv_db)" where
  "record_terminal_evidence K cid expected att pack clock db =
     (if \<not> truthy att \<and> \<not> truthy pack then Inl ConvValueError
      else (case require_revision cid expected db of
          Inl e \<Rightarrow> Inl e
        | Inr r \<Rightarrow>
            (case (evidence_update (cv_attestation_id r) att, evidence_update (cv_failure_pack_id r) pack) of
               (Some ua, Some up) \<Rightarrow>
                 (if ua = None \<and> up = None
                  then Inr ((public db r)\<lparr>rp_deduplicated := Some True\<rparr>, db)
                  else (case commit_revision K cid expected r
                      (\<lambda>x. x\<lparr>cv_attestation_id := coalesce ua (cv_attestation_id x),
                             cv_failure_pack_id := coalesce up (cv_failure_pack_id x)\<rparr>)
                      ''terminal_evidence_recorded''
                      (evidence_entry ''attestation_id'' ua @ evidence_entry ''failure_pack_id'' up)
                      clock db of
                    Inl e \<Rightarrow> Inl e
                  | Inr (rp, db') \<Rightarrow> Inr (rp\<lparr>rp_deduplicated := Some False\<rparr>, db')))
             | _ \<Rightarrow> Inl ConvIdentityMismatch)))"

end
