(* ===== verification/Convergence_Invariant.thy ===== *)
theory Convergence_Invariant
  imports Convergence_Store
begin

text \<open>
  The invariant of the convergence store and its preservation.  Every update of a run is shown to
  be one \<open>revised\<close> step: one row is replaced by its successor and one event is appended.  The
  clients of the store reason about \<open>revised\<close> and not about the operations.
\<close>

section \<open>Operations as data\<close>

datatype conv_op =
    TransitionRun string int string transition_options "time \<times> time"
  | BindIndexJob string int string "time \<times> time"
  | BindCiRequest string int string "time \<times> time"
  | BindCiJob string int string string "time \<times> time"
  | RecordAnalysis string int analysis_args "time \<times> time"
  | RecordEvidence string int "string option" "string option" "time \<times> time"

fun conv_target :: "conv_op \<Rightarrow> string" where
  "conv_target (TransitionRun cid n p opts c) = cid"
| "conv_target (BindIndexJob cid n v c) = cid"
| "conv_target (BindCiRequest cid n v c) = cid"
| "conv_target (BindCiJob cid n q v c) = cid"
| "conv_target (RecordAnalysis cid n a c) = cid"
| "conv_target (RecordEvidence cid n a p c) = cid"

fun conv_expected :: "conv_op \<Rightarrow> int" where
  "conv_expected (TransitionRun cid n p opts c) = n"
| "conv_expected (BindIndexJob cid n v c) = n"
| "conv_expected (BindCiRequest cid n v c) = n"
| "conv_expected (BindCiJob cid n q v c) = n"
| "conv_expected (RecordAnalysis cid n a c) = n"
| "conv_expected (RecordEvidence cid n a p c) = n"

text \<open>\<open>BindCiJob\<close> is the write transaction of \<open>bind_ci_job\<close>; its check reads only.\<close>

fun exec_conv :: "codec \<Rightarrow> conv_op \<Rightarrow> conv_db \<Rightarrow> conv_error + (conv_reply \<times> conv_db)" where
  "exec_conv K (TransitionRun cid n p opts c) db = transition_convergence K cid n p opts c db"
| "exec_conv K (BindIndexJob cid n v c) db = bind_index_job K cid n v c db"
| "exec_conv K (BindCiRequest cid n v c) db = bind_ci_request K cid n v c db"
| "exec_conv K (BindCiJob cid n q v c) db = bind_ci_job_write K cid n q v c db"
| "exec_conv K (RecordAnalysis cid n a c) db = record_analysis_state K cid n a c db"
| "exec_conv K (RecordEvidence cid n a p c) db = record_terminal_evidence K cid n a p c db"

section \<open>Successors of a row\<close>

definition cv_ident where
  "cv_ident r = ((cv_id r, cv_repository r, cv_branch r, cv_session_id r, cv_workspace_id r,
     cv_session_revision r, cv_workspace_revision r),
    (cv_head_sha r, cv_tree_sha r, cv_base_branch r, cv_base_sha r, cv_mode r),
    (cv_idempotency_key r, cv_identity_hash r, cv_caller_hash r, cv_created_at r))"

definition cv_frozen where
  "cv_frozen r = ((cv_phase r, cv_status r, cv_terminal r, cv_finished_at r),
    (cv_index_job_id r, cv_ci_request_id r, cv_ci_job_id r, cv_error_code r, cv_error_message r))"

definition cv_evidence :: "convergence \<Rightarrow> (string option) list" where
  "cv_evidence r = [cv_index_job_id r, cv_ci_request_id r, cv_ci_job_id r, cv_attestation_id r,
     cv_failure_pack_id r]"

definition row_ok :: "convergence \<Rightarrow> bool" where
  "row_ok r \<longleftrightarrow> cv_phase r \<in> set convergence_phases \<and>
     cv_terminal r = (cv_phase r \<in> set terminal_phases) \<and> cv_status r \<noteq> [] \<and>
     (cv_finished_at r \<noteq> None) = cv_terminal r \<and> cv_mode r \<in> set valid_modes \<and>
     0 \<le> cv_session_revision r \<and> 0 \<le> cv_workspace_revision r \<and>
     is_sha (cv_head_sha r) \<and> is_sha (cv_tree_sha r) \<and> is_sha (cv_base_sha r) \<and>
     cv_idempotency_key r \<noteq> Some [] \<and> Some [] \<notin> set (cv_evidence r)"

definition advances :: "convergence \<Rightarrow> convergence \<Rightarrow> bool" where
  "advances r r' \<longleftrightarrow> cv_ident r' = cv_ident r \<and> cv_revision r' = Suc (cv_revision r) \<and>
     (cv_terminal r \<longrightarrow> cv_frozen r' = cv_frozen r) \<and>
     list_all2 (\<lambda>a b. truthy a \<longrightarrow> b = a) (cv_evidence r) (cv_evidence r') \<and>
     (row_ok r \<longrightarrow> row_ok r')"

lemma advances_ident:
  assumes "advances r r'"
  shows "cv_id r' = cv_id r" "active_key r' = active_key r" "cv_repository r' = cv_repository r"
    "cv_idempotency_key r' = cv_idempotency_key r" "cv_identity_hash r' = cv_identity_hash r"
  using assms by (auto simp: advances_def cv_ident_def active_key_def)

definition event_state :: "(string option) \<Rightarrow> (string option) \<Rightarrow> (string \<times> string) option" where
  "event_state p s = (case (p, s) of (Some a, Some b) \<Rightarrow> Some (a, b) | _ \<Rightarrow> None)"

definition ce_from :: "conv_event \<Rightarrow> (string \<times> string) option" where
  "ce_from e = event_state (ce_from_phase e) (ce_from_status e)"

definition ce_to :: "conv_event \<Rightarrow> (string \<times> string) option" where
  "ce_to e = event_state (ce_to_phase e) (ce_to_status e)"

definition cv_state :: "convergence \<Rightarrow> string \<times> string" where
  "cv_state r = (cv_phase r, cv_status r)"

definition stages_follow :: "convergence \<Rightarrow> analysis list \<Rightarrow> analysis list \<Rightarrow> bool" where
  "stages_follow r t t' \<longleftrightarrow>
     map (\<lambda>a. (an_convergence_id a, an_stage a)) t' = map (\<lambda>a. (an_convergence_id a, an_stage a)) t \<and>
     filter (\<lambda>a. an_convergence_id a \<noteq> cv_id r) t' = filter (\<lambda>a. an_convergence_id a \<noteq> cv_id r) t \<and>
     (\<forall>a \<in> set t'. a \<in> set t \<or> an_state a \<in> set analysis_states) \<and> (cv_terminal r \<longrightarrow> t' = t)"

definition revised :: "conv_db \<Rightarrow> convergence \<Rightarrow> convergence \<Rightarrow> conv_db \<Rightarrow> bool" where
  "revised db r r' db' \<longleftrightarrow> row_of cv_id (cv_id r) (convergences db) = Some r \<and> advances r r' \<and>
     convergences db' = update_where (\<lambda>x. cv_id x = cv_id r) (\<lambda>_. r') (convergences db) \<and>
     (\<exists>e. conv_events db' = conv_events db @ [e] \<and> ce_id e = next_conv_event db \<and>
        next_conv_event db' = Suc (next_conv_event db) \<and> ce_convergence_id e = cv_id r \<and>
        ce_revision e = cv_revision r' \<and> ce_from e = Some (cv_state r) \<and> ce_to e = Some (cv_state r')) \<and>
     stages_follow r (analyses db) (analyses db')"

section \<open>Every update is a revision\<close>

lemma get_row_iff [simp]: "get_row cid db = Inr r \<longleftrightarrow> row_of cv_id cid (convergences db) = Some r"
  by (auto simp: get_row_def split: option.splits)

lemma require_revision_iff [simp]:
  "require_revision cid n db = Inr r \<longleftrightarrow>
    row_of cv_id cid (convergences db) = Some r \<and> int (cv_revision r) = n"
  by (auto simp: require_revision_def get_row_def split: option.splits)

lemma require_revision_Inl:
  "require_revision cid n db = Inl e \<longleftrightarrow>
    (if row_of cv_id cid (convergences db) = None then e = ConvNotFound
     else int (cv_revision (the (row_of cv_id cid (convergences db)))) \<noteq> n \<and> e = ConvRevisionMismatch)"
  by (auto simp: require_revision_def get_row_def split: option.splits)

lemma insert_event_Inr:
  assumes "insert_event K cid rv ty f t m now db = Inr db'"
  obtains e where "db' = db\<lparr>conv_events := conv_events db @ [e], next_conv_event := Suc (next_conv_event db)\<rparr>"
    "ce_id e = next_conv_event db" "ce_convergence_id e = cid" "ce_revision e = rv"
    "ce_from e = f" "ce_to e = Some t"
    "\<forall>x \<in> set (conv_events db). ce_convergence_id x = cid \<longrightarrow> ce_revision x \<noteq> rv"
  using assms
  by (cases f) (auto simp: insert_event_def ce_from_def ce_to_def event_state_def split: if_splits)

lemma commit_revision_revised:
  assumes ids: "distinct (map cv_id (convergences db))"
    and row: "row_of cv_id cid (convergences db) = Some r" "int (cv_revision r) = n"
    and run: "commit_revision K cid n r f ty m c (db\<lparr>analyses := t\<rparr>) = Inr (rp, db')"
    and adv: "advances r ((f r)\<lparr>cv_revision := cv_revision r + 1, cv_updated_at := fst c\<rparr>)"
    and st: "stages_follow r (analyses db) t"
  shows "\<exists>r'. cv_id r = cid \<and> revised db r r' db' \<and> rp_row rp = r'"
proof -
  let ?r' = "(f r)\<lparr>cv_revision := cv_revision r + 1, cv_updated_at := fst c\<rparr>"
  let ?db1 = "db\<lparr>analyses := t, convergences := update_where (\<lambda>x. cv_id x = cid) (\<lambda>_. ?r') (convergences db)\<rparr>"
  note cid = row_of_key [OF row(1)]
  have id': "cv_id (f r) = cid" using advances_ident(1) [OF adv] cid by simp
  have upd: "update_where (\<lambda>x. cv_id x = cid \<and> int (cv_revision x) = n)
      (\<lambda>x. (f x)\<lparr>cv_revision := Suc (cv_revision x), cv_updated_at := fst c\<rparr>) (convergences db) =
     update_where (\<lambda>x. cv_id x = cid) (\<lambda>_. ?r') (convergences db)"
    by (subst update_where_replace [OF ids row(1)]) (simp_all add: row(2))
  have get: "get_row cid ?db1 = Inr ?r'"
    using row(1) id' by (simp add: row_of_replace)
  have "insert_event K cid (cv_revision r + 1) ty (Some (cv_phase r, cv_status r))
      (cv_phase (f r), cv_status (f r)) m (snd c) ?db1 = Inr db' \<and> rp = public db' ?r'"
    using run get by (auto simp: commit_revision_def Let_def upd split: if_splits sum.splits)
  then obtain e where "db' = ?db1\<lparr>conv_events := conv_events ?db1 @ [e], next_conv_event := Suc (next_conv_event ?db1)\<rparr>"
    "ce_id e = next_conv_event db" "ce_convergence_id e = cid" "ce_revision e = cv_revision r + 1"
    "ce_from e = Some (cv_phase r, cv_status r)" "ce_to e = Some (cv_phase (f r), cv_status (f r))"
    "rp = public db' ?r'"
    by (auto elim!: insert_event_Inr)
  then show ?thesis using row(1) cid adv st
    by (intro exI [of _ ?r']) (auto simp: revised_def cv_state_def public_def)
qed

lemma stages_follow_refl [simp]: "stages_follow r t t"
  by (simp add: stages_follow_def)

lemma stages_follow_update:
  assumes "\<not> cv_terminal r" and "cv_id r = cid" and "st \<in> set analysis_states"
    and "\<And>x. an_convergence_id (f x) = an_convergence_id x \<and> an_stage (f x) = an_stage x \<and> an_state (f x) = st"
  shows "stages_follow r t (update_where (\<lambda>x. an_convergence_id x = cid \<and> an_stage x = s) f t)"
  using assms by (induction t) (auto simp: stages_follow_def)

lemma advancesI:
  assumes "cv_ident r' = cv_ident r" "cv_revision r' = Suc (cv_revision r)"
    "cv_terminal r \<Longrightarrow> cv_frozen r' = cv_frozen r"
    "list_all2 (\<lambda>a b. truthy a \<longrightarrow> b = a) (cv_evidence r) (cv_evidence r')"
    "row_ok r \<Longrightarrow> row_ok r'"
  shows "advances r r'"
  using assms by (simp add: advances_def)

lemma transition_advances:
  assumes "phase \<in> set convergence_phases" "st \<noteq> []" "\<not> cv_terminal r"
  shows "advances r (r\<lparr>cv_phase := phase, cv_status := st, cv_terminal := phase \<in> set terminal_phases,
      cv_error_code := ec, cv_error_message := em,
      cv_finished_at := (if phase \<in> set terminal_phases then Some now else None),
      cv_revision := cv_revision r + 1, cv_updated_at := now\<rparr>)"
  proof (rule advancesI)
  let ?r' = "r\<lparr>cv_phase := phase, cv_status := st, cv_terminal := phase \<in> set terminal_phases,
      cv_error_code := ec, cv_error_message := em,
      cv_finished_at := (if phase \<in> set terminal_phases then Some now else None),
      cv_revision := cv_revision r + 1, cv_updated_at := now\<rparr>"
  show "row_ok r \<Longrightarrow> row_ok ?r'" using assms(1,2) by (simp add: row_ok_def cv_evidence_def)
  show "list_all2 (\<lambda>a b. truthy a \<longrightarrow> b = a) (cv_evidence r) (cv_evidence ?r')"
    by (simp add: cv_evidence_def)
  show "cv_terminal r \<Longrightarrow> cv_frozen ?r' = cv_frozen r" using assms(3) by simp
qed (simp_all add: cv_ident_def)

lemma py_strip_Nil [simp]: "py_strip [] = []"
  by (simp add: py_strip_def)

lemma bound_id_simps [simp]:
  "bound_id ''index_job_id'' r = cv_index_job_id r"
  "bound_id ''ci_request_id'' r = cv_ci_request_id r"
  "bound_id ''ci_job_id'' r = cv_ci_job_id r"
  "set_bound_id ''index_job_id'' v r = r\<lparr>cv_index_job_id := Some v\<rparr>"
  "set_bound_id ''ci_request_id'' v r = r\<lparr>cv_ci_request_id := Some v\<rparr>"
  "set_bound_id ''ci_job_id'' v r = r\<lparr>cv_ci_job_id := Some v\<rparr>"
  by (simp_all add: bound_id_def set_bound_id_def)

lemma bind_fieldE:
  assumes "field \<in> set bind_fields"
  obtains "field = ''index_job_id''" | "field = ''ci_request_id''" | "field = ''ci_job_id''"
  using assms unfolding bind_fields_def by auto

lemma bind_advances:
  assumes "field \<in> set bind_fields" "v \<noteq> []" "\<not> cv_terminal r" "\<not> truthy (bound_id field r)"
  shows "advances r ((set_bound_id field v r)\<lparr>cv_revision := cv_revision r + 1, cv_updated_at := now\<rparr>)"
  using assms(1)
proof (cases rule: bind_fieldE)
  case 1
  show ?thesis unfolding 1
    by (rule advancesI) (use assms(2-4) 1 in \<open>simp_all add: cv_ident_def cv_evidence_def row_ok_def\<close>)
next
  case 2
  show ?thesis unfolding 2
    by (rule advancesI) (use assms(2-4) 2 in \<open>simp_all add: cv_ident_def cv_evidence_def row_ok_def\<close>)
next
  case 3
  show ?thesis unfolding 3
    by (rule advancesI) (use assms(2-4) 3 in \<open>simp_all add: cv_ident_def cv_evidence_def row_ok_def\<close>)
qed

lemma id_advances: "\<not> cv_terminal r \<Longrightarrow> advances r (r\<lparr>cv_revision := cv_revision r + 1, cv_updated_at := now\<rparr>)"
  by (intro advancesI) (simp_all add: cv_ident_def cv_evidence_def row_ok_def list_all2_same)

lemma evidence_update_cases:
  assumes "evidence_update cur v = Some u"
  shows "u = None \<or> u = v \<and> truthy v \<and> \<not> truthy cur"
  using assms by (auto simp: evidence_update_def split: if_splits)

lemma evidence_advances:
  assumes "evidence_update (cv_attestation_id r) att = Some ua"
    and "evidence_update (cv_failure_pack_id r) pack = Some up"
  shows "advances r (r\<lparr>cv_attestation_id := coalesce ua (cv_attestation_id r),
      cv_failure_pack_id := coalesce up (cv_failure_pack_id r),
      cv_revision := cv_revision r + 1, cv_updated_at := now\<rparr>)"
proof (rule advancesI)
  let ?r' = "r\<lparr>cv_attestation_id := coalesce ua (cv_attestation_id r),
      cv_failure_pack_id := coalesce up (cv_failure_pack_id r),
      cv_revision := cv_revision r + 1, cv_updated_at := now\<rparr>"
  note u = evidence_update_cases [OF assms(1)] evidence_update_cases [OF assms(2)]
  show "list_all2 (\<lambda>a b. truthy a \<longrightarrow> b = a) (cv_evidence r) (cv_evidence ?r')"
    using u by (auto simp: cv_evidence_def elim!: truthyE)
  show "row_ok r \<Longrightarrow> row_ok ?r'"
    using u by (auto simp: row_ok_def cv_evidence_def elim!: truthyE)
qed (simp_all add: cv_ident_def cv_frozen_def)

section \<open>The effect of every operation\<close>

lemma bind_once_effect:
  assumes ids: "distinct (map cv_id (convergences db))"
    and run: "bind_once K cid n field v ty m False c db = Inr (rp, db')"
  shows "db' = db \<and> row_of cv_id cid (convergences db) = Some (rp_row rp) \<or>
    (\<exists>r. cv_id r = cid \<and> int (cv_revision r) = n \<and> revised db r (rp_row rp) db' \<and> \<not> cv_terminal r)"
proof -
  from run obtain r where field: "field \<in> set bind_fields" and v: "py_strip v \<noteq> []"
    and r: "row_of cv_id cid (convergences db) = Some r" "int (cv_revision r) = n" "\<not> cv_terminal r"
    and res: "truthy (bound_id field r) \<and> db' = db \<and> rp_row rp = r \<or> \<not> truthy (bound_id field r) \<and>
      (\<exists>rp'. commit_revision K cid n r (set_bound_id field v) ty (dict_merge [(field, JStr v)] m) c db = Inr (rp', db') \<and>
        rp_row rp = rp_row rp')"
    by (auto simp: bind_once_def public_def split: if_splits sum.splits)
  from v have "v \<noteq> []" by auto
  from res show ?thesis
  proof (elim disjE conjE exE)
    fix rp' assume un: "\<not> truthy (bound_id field r)" and same: "rp_row rp = rp_row rp'"
      and commit: "commit_revision K cid n r (set_bound_id field v) ty (dict_merge [(field, JStr v)] m) c db = Inr (rp', db')"
    from commit have "commit_revision K cid n r (set_bound_id field v) ty (dict_merge [(field, JStr v)] m) c
        (db\<lparr>analyses := analyses db\<rparr>) = Inr (rp', db')" by simp
    with commit_revision_revised [OF ids r(1,2) this bind_advances [OF field \<open>v \<noteq> []\<close> r(3) un] stages_follow_refl]
    show ?thesis using r same by auto
  qed (use r in simp)
qed

lemma transition_effect:
  assumes ids: "distinct (map cv_id (convergences db))"
    and run: "transition_convergence K cid n phase opts c db = Inr (rp, db')"
  shows "\<exists>r. cv_id r = cid \<and> int (cv_revision r) = n \<and> revised db r (rp_row rp) db' \<and> \<not> cv_terminal r"
proof -
  let ?st = "if to_status opts = [] then phase else to_status opts"
  let ?f = "\<lambda>x. x\<lparr>cv_phase := phase, cv_status := ?st, cv_terminal := phase \<in> set terminal_phases,
      cv_error_code := to_error_code opts, cv_error_message := to_error_message opts,
      cv_finished_at := (if phase \<in> set terminal_phases then Some (fst c) else None)\<rparr>"
  from run obtain r where phase: "phase \<in> set convergence_phases" and st: "?st \<noteq> []"
    and r: "row_of cv_id cid (convergences db) = Some r" "int (cv_revision r) = n" "\<not> cv_terminal r"
    and commit: "commit_revision K cid n r ?f (to_event_type opts) (to_metadata opts) c
      (db\<lparr>analyses := analyses db\<rparr>) = Inr (rp, db')"
    unfolding transition_convergence_def Let_def by (simp split: if_splits sum.splits)
  from commit_revision_revised [OF ids r(1,2) commit transition_advances [OF phase st r(3)] stages_follow_refl]
  show ?thesis using r by blast
qed

lemma analysis_effect:
  assumes ids: "distinct (map cv_id (convergences db))"
    and run: "record_analysis_state K cid n a c db = Inr (rp, db')"
  shows "\<exists>r. cv_id r = cid \<and> int (cv_revision r) = n \<and> revised db r (rp_row rp) db' \<and> \<not> cv_terminal r"
proof -
  let ?t = "update_where (\<lambda>x. an_convergence_id x = cid \<and> an_stage x = aa_stage a)
      (\<lambda>x. x\<lparr>an_state := aa_state a, an_resource_uri := aa_resource_uri a,
             an_resource_identity := aa_resource_identity a, an_error_code := aa_error_code a,
             an_error_message := aa_error_message a, an_updated_at := fst c\<rparr>) (analyses db)"
  from run obtain r m where st: "aa_state a \<in> set analysis_states"
    and r: "row_of cv_id cid (convergences db) = Some r" "int (cv_revision r) = n" "\<not> cv_terminal r"
    and commit: "commit_revision K cid n r id ''analysis_state_recorded'' m c
      (db\<lparr>analyses := ?t\<rparr>) = Inr (rp, db')"
    unfolding record_analysis_state_def by (simp split: if_splits sum.splits)
  have "advances r ((id r)\<lparr>cv_revision := cv_revision r + 1, cv_updated_at := fst c\<rparr>)"
    using id_advances [OF r(3)] by simp
  moreover have "stages_follow r (analyses db) ?t"
    by (rule stages_follow_update [OF r(3) row_of_key [OF r(1)] st]) simp
  ultimately show ?thesis using commit_revision_revised [OF ids r(1,2) commit] r by blast
qed

lemma marked_commit:
  "(case X of Inl e \<Rightarrow> Inl e | Inr (rp, db') \<Rightarrow> Inr (rp\<lparr>rp_deduplicated := d\<rparr>, db')) = Inr (rp, db') \<Longrightarrow>
    \<exists>rp'. X = Inr (rp', db') \<and> rp_row rp = rp_row rp'"
  by (auto split: sum.splits)

lemma evidence_effect:
  assumes ids: "distinct (map cv_id (convergences db))"
    and run: "record_terminal_evidence K cid n att pack c db = Inr (rp, db')"
  shows "db' = db \<and> row_of cv_id cid (convergences db) = Some (rp_row rp) \<or>
    (\<exists>r. cv_id r = cid \<and> int (cv_revision r) = n \<and> revised db r (rp_row rp) db')"
proof -
  from run have "truthy att \<or> truthy pack"
    by (auto simp: record_terminal_evidence_def split: if_splits)
  moreover from run obtain r where req: "require_revision cid n db = Inr r"
    by (cases "require_revision cid n db") (auto simp: record_terminal_evidence_def split: if_splits)
  moreover from run calculation obtain ua up where
    u: "evidence_update (cv_attestation_id r) att = Some ua"
       "evidence_update (cv_failure_pack_id r) pack = Some up"
    by (auto simp: record_terminal_evidence_def simp del: require_revision_iff split: if_splits option.splits)
  moreover from req have r: "row_of cv_id cid (convergences db) = Some r" "int (cv_revision r) = n"
    by simp_all
  ultimately show ?thesis
  proof (cases "ua = None \<and> up = None")
    case True
    with run u req r \<open>truthy att \<or> truthy pack\<close> show ?thesis
      by (auto simp: record_terminal_evidence_def public_def simp del: require_revision_iff)
  next
    case False
    let ?f = "\<lambda>x. x\<lparr>cv_attestation_id := coalesce ua (cv_attestation_id x),
      cv_failure_pack_id := coalesce up (cv_failure_pack_id x)\<rparr>"
    from run False u req \<open>truthy att \<or> truthy pack\<close> obtain rp' m where
      "commit_revision K cid n r ?f ''terminal_evidence_recorded'' m c (db\<lparr>analyses := analyses db\<rparr>) = Inr (rp', db')"
      "rp_row rp = rp_row rp'"
      by (auto simp: record_terminal_evidence_def simp del: require_revision_iff dest!: marked_commit)
    with commit_revision_revised [OF ids r this(1) evidence_advances [OF u] stages_follow_refl] r
    show ?thesis by auto
  qed
qed

lemma exec_conv_effect:
  assumes "distinct (map cv_id (convergences db))" and "exec_conv K x db = Inr (rp, db')"
  shows "db' = db \<and> row_of cv_id (conv_target x) (convergences db) = Some (rp_row rp) \<or>
    (\<exists>r. cv_id r = conv_target x \<and> int (cv_revision r) = conv_expected x \<and> revised db r (rp_row rp) db')"
proof (cases x)
  case (TransitionRun cid n p opts c)
  with transition_effect [OF assms(1), of K cid n p opts c rp db'] assms(2) show ?thesis by auto
next
  case (BindIndexJob cid n v c)
  with bind_once_effect [OF assms(1)] assms(2) show ?thesis by (fastforce simp: bind_index_job_def)
next
  case (BindCiRequest cid n v c)
  with bind_once_effect [OF assms(1)] assms(2) show ?thesis by (fastforce simp: bind_ci_request_def)
next
  case (BindCiJob cid n q v c)
  with bind_once_effect [OF assms(1)] assms(2) show ?thesis by (fastforce simp: bind_ci_job_write_def)
next
  case (RecordAnalysis cid n a c)
  with analysis_effect [OF assms(1), of K cid n a c rp db'] assms(2) show ?thesis by auto
next
  case (RecordEvidence cid n a q c)
  with evidence_effect [OF assms(1), of K cid n a q c rp db'] assms(2) show ?thesis by auto
qed

text \<open>The row of the reply is the stored one.\<close>

lemma revised_row:
  "revised db r r' db' \<Longrightarrow> row_of cv_id (cv_id r) (convergences db') = Some r'"
  by (auto simp: revised_def row_of_replace dest: advances_ident(1))

lemma exec_conv_reply:
  assumes "distinct (map cv_id (convergences db))" and "exec_conv K x db = Inr (rp, db')"
  shows "row_of cv_id (conv_target x) (convergences db') = Some (rp_row rp)"
  using exec_conv_effect [OF assms] revised_row by metis

section \<open>The invariant\<close>

definition run_events :: "conv_db \<Rightarrow> string \<Rightarrow> conv_event list" where
  "run_events db cid = filter (\<lambda>e. ce_convergence_id e = cid) (conv_events db)"

text \<open>Each event starts in the state the one before it reached.\<close>

fun event_chain :: "(string \<times> string) option \<Rightarrow> conv_event list \<Rightarrow> (string \<times> string) option \<Rightarrow> bool" where
  "event_chain a [] b \<longleftrightarrow> a = b"
| "event_chain a (e # es) b \<longleftrightarrow> ce_from e = a \<and> event_chain (ce_to e) es b"

lemma event_chain_append:
  "event_chain a (xs @ ys) b \<longleftrightarrow> (\<exists>m. event_chain a xs m \<and> event_chain m ys b)"
  by (induction xs arbitrary: a) auto

definition history_ok :: "conv_db \<Rightarrow> convergence \<Rightarrow> bool" where
  "history_ok db r \<longleftrightarrow>
     map ce_revision (run_events db (cv_id r)) = [0..<Suc (cv_revision r)] \<and>
     event_chain None (run_events db (cv_id r)) (Some (cv_state r))"

definition stages_ok :: "conv_db \<Rightarrow> convergence \<Rightarrow> bool" where
  "stages_ok db r \<longleftrightarrow>
     map an_stage (filter (\<lambda>a. an_convergence_id a = cv_id r) (analyses db)) = analysis_stages"

text \<open>The two unique indexes over part of the rows.\<close>

definition unique_on :: "(convergence \<Rightarrow> bool) \<Rightarrow> (convergence \<Rightarrow> 'k) \<Rightarrow> convergence list \<Rightarrow> bool" where
  "unique_on P key t \<longleftrightarrow> (\<forall>r1 \<in> set t. \<forall>r2 \<in> set t.
     P r1 \<and> P r2 \<and> key r1 = key r2 \<longrightarrow> cv_id r1 = cv_id r2)"

definition active_unique :: "conv_db \<Rightarrow> bool" where
  "active_unique db \<longleftrightarrow> unique_on (\<lambda>r. \<not> cv_terminal r) active_key (convergences db)"

definition keys_unique :: "conv_db \<Rightarrow> bool" where
  "keys_unique db \<longleftrightarrow> unique_on (\<lambda>r. cv_idempotency_key r \<noteq> None)
     (\<lambda>r. (cv_repository r, cv_idempotency_key r)) (convergences db)"

lemma unique_on_old:
  assumes "unique_on P key t"
    and "\<And>x. x \<in> set t' \<Longrightarrow> \<exists>y \<in> set t. cv_id y = cv_id x \<and> (P x \<longrightarrow> P y) \<and> key y = key x"
  shows "unique_on P key t'"
  unfolding unique_on_def
proof (intro ballI impI)
  fix x1 x2 assume x: "x1 \<in> set t'" "x2 \<in> set t'" and k: "P x1 \<and> P x2 \<and> key x1 = key x2"
  from assms(2) [OF x(1)] obtain y1 where
    "y1 \<in> set t" "cv_id y1 = cv_id x1" "P x1 \<longrightarrow> P y1" "key y1 = key x1" by auto
  moreover from assms(2) [OF x(2)] obtain y2 where
    "y2 \<in> set t" "cv_id y2 = cv_id x2" "P x2 \<longrightarrow> P y2" "key y2 = key x2" by auto
  ultimately show "cv_id x1 = cv_id x2" using assms(1) k unfolding unique_on_def by metis
qed

lemma unique_on_append:
  "unique_on P key (t @ [r]) \<longleftrightarrow> unique_on P key t \<and>
    (\<forall>x \<in> set t. P x \<and> P r \<and> key x = key r \<longrightarrow> cv_id x = cv_id r)"
  by (auto simp: unique_on_def)

definition conv_inv :: "conv_db \<Rightarrow> bool" where
  "conv_inv db \<longleftrightarrow> distinct (map cv_id (convergences db)) \<and>
     (\<forall>r \<in> set (convergences db). row_ok r \<and> history_ok db r \<and> stages_ok db r) \<and>
     active_unique db \<and> keys_unique db \<and>
     (\<forall>a \<in> set (analyses db). an_state a \<in> set analysis_states \<and>
        an_convergence_id a \<in> cv_id ` set (convergences db)) \<and>
     (\<forall>e \<in> set (conv_events db). ce_id e < next_conv_event db \<and>
        ce_convergence_id e \<in> cv_id ` set (convergences db))"

lemma conv_inv_empty: "conv_inv empty_conv_db"
  by (simp add: conv_inv_def empty_conv_db_def active_unique_def keys_unique_def unique_on_def)

lemma conv_invD:
  assumes "conv_inv db"
  shows "distinct (map cv_id (convergences db))" "active_unique db" "keys_unique db"
    and "r \<in> set (convergences db) \<Longrightarrow> row_ok r"
    and "r \<in> set (convergences db) \<Longrightarrow> history_ok db r"
    and "r \<in> set (convergences db) \<Longrightarrow> stages_ok db r"
  using assms by (auto simp: conv_inv_def)

lemma revised_rows:
  assumes "revised db r r' db'" and "x \<in> set (convergences db')"
  shows "x = r' \<or> x \<in> set (convergences db) \<and> cv_id x \<noteq> cv_id r"
  using assms set_replace [of x cv_id "cv_id r" r' "convergences db"] by (auto simp: revised_def)

lemma revised_old:
  assumes "revised db r r' db'" and "x \<in> set (convergences db')"
  obtains y where "y \<in> set (convergences db)" "cv_id y = cv_id x" "cv_terminal y \<longrightarrow> cv_terminal x"
    "active_key y = active_key x" "cv_repository y = cv_repository x"
    "cv_idempotency_key y = cv_idempotency_key x"
proof -
  from assms(1) have r: "r \<in> set (convergences db)" and adv: "advances r r'"
    by (auto simp: revised_def dest: row_of_SomeD)
  from adv have t: "cv_terminal r \<longrightarrow> cv_terminal r'" by (auto simp: advances_def cv_frozen_def)
  from revised_rows [OF assms] show thesis
    using that [of r] that [of x] r t advances_ident [OF adv] by auto
qed

lemma revised_ids:
  assumes "revised db r r' db'"
  shows "map cv_id (convergences db') = map cv_id (convergences db)"
  using assms distinct_replace [of cv_id r' "cv_id r" "convergences db"]
  by (auto simp: revised_def dest: advances_ident(1))

lemma revised_history:
  assumes rev: "revised db r r' db'" and x: "x \<in> set (convergences db')"
    and old: "\<And>y. y \<in> set (convergences db) \<Longrightarrow> history_ok db y"
  shows "history_ok db' x"
proof -
  from rev have r: "r \<in> set (convergences db)" and adv: "advances r r'"
    by (auto simp: revised_def dest: row_of_SomeD)
  from rev obtain e where e: "conv_events db' = conv_events db @ [e]" "ce_convergence_id e = cv_id r"
    "ce_revision e = cv_revision r'" "ce_from e = Some (cv_state r)" "ce_to e = Some (cv_state r')"
    by (auto simp: revised_def)
  from revised_rows [OF rev x] show ?thesis
  proof
    assume "x = r'"
    with old [OF r] adv e show ?thesis
      by (auto simp: history_ok_def run_events_def advances_ident [OF adv] advances_def event_chain_append)
  next
    assume "x \<in> set (convergences db) \<and> cv_id x \<noteq> cv_id r"
    with old [of x] e show ?thesis by (auto simp: history_ok_def run_events_def)
  qed
qed

lemma map_stage_filter:
  "map (\<lambda>a. (an_convergence_id a, an_stage a)) t' = map (\<lambda>a. (an_convergence_id a, an_stage a)) t \<Longrightarrow>
    map an_stage (filter (\<lambda>a. an_convergence_id a = c) t') = map an_stage (filter (\<lambda>a. an_convergence_id a = c) t)"
proof (induction t' arbitrary: t)
  case (Cons a t')
  then show ?case by (cases t) auto
qed simp

lemma revised_unique:
  assumes "revised db r r' db'"
  shows "active_unique db \<Longrightarrow> active_unique db'" "keys_unique db \<Longrightarrow> keys_unique db'"
  unfolding active_unique_def keys_unique_def
  by (erule unique_on_old, erule revised_old [OF assms], auto)+

lemma revised_stages:
  assumes rev: "revised db r r' db'" and inv: "conv_inv db"
  shows "x \<in> set (convergences db') \<Longrightarrow> stages_ok db' x"
    and "a \<in> set (analyses db') \<Longrightarrow>
      an_state a \<in> set analysis_states \<and> an_convergence_id a \<in> cv_id ` set (convergences db')"
proof -
  from rev have st: "stages_follow r (analyses db) (analyses db')" by (simp add: revised_def)
  then have pairs: "map (\<lambda>a. (an_convergence_id a, an_stage a)) (analyses db') =
      map (\<lambda>a. (an_convergence_id a, an_stage a)) (analyses db)"
    by (simp add: stages_follow_def)
  show "x \<in> set (convergences db') \<Longrightarrow> stages_ok db' x"
    using conv_invD(6) [OF inv] map_stage_filter [OF pairs]
    by (elim revised_old [OF rev]) (metis stages_ok_def)
  assume a: "a \<in> set (analyses db')"
  have "an_convergence_id a \<in> set (map an_convergence_id (analyses db'))" using a by simp
  also have "map an_convergence_id (analyses db') = map an_convergence_id (analyses db)"
    using arg_cong [OF pairs, of "map fst"] by (simp add: comp_def)
  also have "set \<dots> \<subseteq> cv_id ` set (convergences db)" using inv by (auto simp: conv_inv_def)
  also have "\<dots> = cv_id ` set (convergences db')"
    using revised_ids [OF rev] by (metis set_map)
  finally show "an_state a \<in> set analysis_states \<and> an_convergence_id a \<in> cv_id ` set (convergences db')"
    using a st inv by (auto simp: stages_follow_def conv_inv_def)
qed

lemma revised_inv:
  assumes inv: "conv_inv db" and rev: "revised db r r' db'"
  shows "conv_inv db'"
proof -
  note D = conv_invD [OF inv]
  from rev have r: "r \<in> set (convergences db)" and adv: "advances r r'"
    by (auto simp: revised_def dest: row_of_SomeD)
  have ids: "cv_id ` set (convergences db') = cv_id ` set (convergences db)"
    using revised_ids [OF rev] by (metis set_map)
  have rows: "row_ok x" if "x \<in> set (convergences db')" for x
    using revised_rows [OF rev that] D(4) r adv by (auto simp: advances_def)
  from rev obtain e where e: "conv_events db' = conv_events db @ [e]" "ce_id e = next_conv_event db"
    "next_conv_event db' = Suc (next_conv_event db)" "ce_convergence_id e = cv_id r"
    by (auto simp: revised_def)
  have ev: "\<forall>e \<in> set (conv_events db'). ce_id e < next_conv_event db' \<and>
      ce_convergence_id e \<in> cv_id ` set (convergences db')"
    using inv r e ids by (auto simp: conv_inv_def less_Suc_eq)
  show ?thesis unfolding conv_inv_def
    using revised_ids [OF rev] D(1) rows revised_history [OF rev _ D(5)] revised_stages [OF rev inv]
      revised_unique [OF rev] D(2,3) ev by simp
qed

lemma exec_conv_inv:
  "conv_inv db \<Longrightarrow> exec_conv K x db = Inr (rp, db') \<Longrightarrow> conv_inv db'"
  using exec_conv_effect [of db K x rp db'] revised_inv [of db] conv_invD(1) [of db] by blast

end
