(* ===== verification/Convergence_Runs.thy ===== *)
theory Convergence_Runs
  imports Convergence_Invariant
begin

text \<open>
  Runs of the convergence store: creation keeps the invariant, the contracts of the interfaces
  (revision compare-and-swap, registry of idempotency keys, step invariant) hold, and over any
  sequence of operations a run only makes progress.
\<close>

section \<open>Creating a run\<close>

lemma keyed_row_SomeD:
  "keyed_row repo key db = Some r \<Longrightarrow>
    r \<in> set (convergences db) \<and> cv_repository r = repo \<and> cv_idempotency_key r = Some key"
  by (auto simp: keyed_row_def find_Some_iff)

lemma keyed_row_None:
  "keyed_row repo key db = None \<longleftrightarrow>
    (\<forall>r \<in> set (convergences db). \<not> (cv_repository r = repo \<and> cv_idempotency_key r = Some key))"
  by (auto simp: keyed_row_def find_None_iff)

lemma active_row_SomeD:
  assumes "active_row k db = Some r"
  shows "r \<in> set (convergences db) \<and> active_key r = k \<and> \<not> cv_terminal r"
proof -
  from assms obtain rs where
    "sort_key cv_created_at (filter (\<lambda>r. active_key r = k \<and> \<not> cv_terminal r) (convergences db)) = r # rs"
    by (auto simp: active_row_def split: list.splits)
  from first_of_sort(1) [OF this] show ?thesis by simp
qed

lemma active_row_None:
  "active_row k db = None \<longleftrightarrow>
    (\<forall>r \<in> set (convergences db). active_key r = k \<longrightarrow> cv_terminal r)"
proof -
  let ?t = "filter (\<lambda>r. active_key r = k \<and> \<not> cv_terminal r) (convergences db)"
  have "active_row k db = None \<longleftrightarrow> sort_key cv_created_at ?t = []"
    unfolding active_row_def by (cases "sort_key cv_created_at ?t") (simp_all only: list.case option.simps list.simps simp_thms)
  also have "\<dots> \<longleftrightarrow> ?t = []" by (rule sort_key_Nil)
  finally show ?thesis by (auto simp: filter_empty_conv)
qed

lemma insert_convergence_Inr:
  assumes "insert_convergence K a cid clock db = Inr (rp, db')"
  obtains e where "row_of cv_id cid (convergences db) = None"
    "convergences db' = convergences db @ [new_convergence K a cid (fst clock)]"
    "analyses db' = analyses db @ map (pending_stage cid (fst clock)) analysis_stages"
    "conv_events db' = conv_events db @ [e]" "next_conv_event db' = Suc (next_conv_event db)"
    "ce_id e = next_conv_event db" "ce_convergence_id e = cid" "ce_revision e = 0"
    "ce_from e = None" "ce_to e = Some (''accepted'', ''accepted'')"
    "rp_row rp = new_convergence K a cid (fst clock)"
proof -
  let ?r = "new_convergence K a cid (fst clock)"
  let ?db1 = "db\<lparr>convergences := convergences db @ [?r],
    analyses := analyses db @ map (pending_stage cid (fst clock)) analysis_stages\<rparr>"
  from assms obtain m where fresh: "row_of cv_id cid (convergences db) = None"
    and ins: "insert_event K cid 0 ''convergence_created'' None (''accepted'', ''accepted'') m
      (snd clock) ?db1 = Inr db'" and rp: "rp = (public db' ?r)\<lparr>rp_deduplicated := Some False\<rparr>"
    by (simp add: insert_convergence_def Let_def split: if_splits sum.splits)
  from ins show thesis
    by (rule insert_event_Inr) (rule that [OF fresh], auto simp: rp public_def)
qed

lemma create_cases:
  assumes "create_or_get_convergence K a cid clock db = Inr (rp, db')"
  shows "validate_create_identity a \<and>
    (db' = db \<and> ca_idempotency_key a \<noteq> [] \<and>
       keyed_row (ca_repository a) (ca_idempotency_key a) db = Some (rp_row rp) \<and>
       cv_identity_hash (rp_row rp) = identity_hash K a
     \<or> (ca_idempotency_key a = [] \<or> keyed_row (ca_repository a) (ca_idempotency_key a) db = None) \<and>
       (db' = db \<and> active_row (args_key a) db = Some (rp_row rp) \<and>
          assert_active_identity (rp_row rp) a
        \<or> active_row (args_key a) db = None \<and> insert_convergence K a cid clock db = Inr (rp, db')))"
  using assms
  by (auto simp: create_or_get_convergence_def public_def split: if_splits option.splits)

lemma new_convergence_row_ok:
  "validate_create_identity a \<Longrightarrow> row_ok (new_convergence K a cid now)"
  by (auto simp: validate_create_identity_def row_ok_def new_convergence_def cv_evidence_def
      convergence_phases_def terminal_phases_def or_none_def)

lemma no_orphan_events:
  assumes "conv_inv db" and "row_of cv_id cid (convergences db) = None"
  shows "run_events db cid = []" "filter (\<lambda>a. an_convergence_id a = cid) (analyses db) = []"
  using assms by (auto simp: conv_inv_def run_events_def filter_empty_conv row_of_None_iff)

lemma insert_convergence_inv:
  assumes inv: "conv_inv db" and valid: "validate_create_identity a"
    and act: "active_row (args_key a) db = None"
    and key: "ca_idempotency_key a = [] \<or> keyed_row (ca_repository a) (ca_idempotency_key a) db = None"
    and run: "insert_convergence K a cid clock db = Inr (rp, db')"
  shows "conv_inv db'"
  using run
proof (rule insert_convergence_Inr)
  fix e
  let ?r = "new_convergence K a cid (fst clock)"
  assume fresh: "row_of cv_id cid (convergences db) = None"
    and rows: "convergences db' = convergences db @ [?r]"
    and an: "analyses db' = analyses db @ map (pending_stage cid (fst clock)) analysis_stages"
    and ev: "conv_events db' = conv_events db @ [e]" "next_conv_event db' = Suc (next_conv_event db)"
      "ce_id e = next_conv_event db" "ce_convergence_id e = cid" "ce_revision e = 0"
      "ce_from e = None" "ce_to e = Some (''accepted'', ''accepted'')"
  note D = conv_invD [OF inv] and orphan = no_orphan_events [OF inv fresh]
  have id: "cv_id ?r = cid" "cv_revision ?r = 0" "cv_state ?r = (''accepted'', ''accepted'')"
    by (simp_all add: new_convergence_def cv_state_def)
  have other: "cv_id x \<noteq> cid" if "x \<in> set (convergences db)" for x
    using that fresh by (auto simp: row_of_None_iff)
  have "history_ok db' x" if "x \<in> set (convergences db')" for x
    using that other [of x] D(5) [of x] orphan(1) ev id
    by (auto simp: rows history_ok_def run_events_def)
  moreover have "stages_ok db' x" if "x \<in> set (convergences db')" for x
    using that other [of x] D(6) [of x] orphan(2) id
    by (auto simp: rows an stages_ok_def pending_stage_def comp_def filter_map)
  moreover have "active_unique db'"
    using D(2) act by (auto simp: active_unique_def rows unique_on_append active_row_None
        args_key_def active_key_def new_convergence_def)
  moreover have "keys_unique db'"
    using D(3) key by (auto simp: keys_unique_def rows unique_on_append keyed_row_None
        new_convergence_def or_none_def)
  moreover have "row_ok x" if "x \<in> set (convergences db')" for x
    using that D(4) new_convergence_row_ok [OF valid] by (auto simp: rows)
  moreover have "distinct (map cv_id (convergences db'))"
    using D(1) distinct_insert_row [of cv_id "convergences db" ?r] fresh by (simp add: rows id)
  moreover have "\<forall>x \<in> set (analyses db'). an_state x \<in> set analysis_states \<and>
      an_convergence_id x \<in> cv_id ` set (convergences db')"
    using inv by (auto simp: conv_inv_def an rows id pending_stage_def analysis_states_def)
  moreover have "\<forall>x \<in> set (conv_events db'). ce_id x < next_conv_event db' \<and>
      ce_convergence_id x \<in> cv_id ` set (convergences db')"
    using inv ev id by (auto simp: conv_inv_def rows less_Suc_eq)
  ultimately show ?thesis by (simp add: conv_inv_def)
qed

lemma create_inv:
  assumes "conv_inv db" and "create_or_get_convergence K a cid clock db = Inr (rp, db')"
  shows "conv_inv db'"
  using create_cases [OF assms(2)] insert_convergence_inv [OF assms(1)] assms(1) by blast

section \<open>Runs of the store\<close>

inductive conv_step :: "codec \<Rightarrow> conv_db \<Rightarrow> conv_db \<Rightarrow> bool" for K where
  create: "create_or_get_convergence K a cid clock db = Inr (rp, db') \<Longrightarrow> conv_step K db db'"
| update: "exec_conv K x db = Inr (rp, db') \<Longrightarrow> conv_step K db db'"

inductive_cases conv_stepE: "conv_step K db db'"

interpretation conv: step_invariant "conv_step K" conv_inv for K
  by unfold_locales (auto elim!: conv_stepE dest: create_inv exec_conv_inv)

definition conv_reachable :: "codec \<Rightarrow> conv_db \<Rightarrow> bool" where
  "conv_reachable K db \<longleftrightarrow> (conv_step K)\<^sup>*\<^sup>* empty_conv_db db"

lemma conv_reachable_inv: "conv_reachable K db \<Longrightarrow> conv_inv db"
  unfolding conv_reachable_def by (erule conv.steps_inv) (rule conv_inv_empty)

lemma conv_step_cases:
  assumes "conv_inv db" and "conv_step K db db'"
  obtains "db' = db"
  | r r' where "revised db r r' db'"
  | a cid clock rp where "insert_convergence K a cid clock db = Inr (rp, db')"
  using assms(2)
proof (cases rule: conv_step.cases)
  case (create a cid clock rp)
  with create_cases [OF this] that show ?thesis by blast
next
  case (update x rp)
  with exec_conv_effect [OF conv_invD(1) [OF assms(1)] this] that show ?thesis by blast
qed

section \<open>Progress\<close>

text \<open>What stays of a run and of its analysis stages between an earlier and a later state.\<close>

definition run_stages :: "conv_db \<Rightarrow> string \<Rightarrow> analysis list" where
  "run_stages db cid = filter (\<lambda>a. an_convergence_id a = cid) (analyses db)"

definition progress :: "conv_db \<Rightarrow> convergence \<Rightarrow> conv_db \<Rightarrow> convergence \<Rightarrow> bool" where
  "progress db r db' r' \<longleftrightarrow> cv_ident r' = cv_ident r \<and> cv_revision r \<le> cv_revision r' \<and>
     (cv_revision r' = cv_revision r \<longrightarrow> r' = r) \<and>
     (cv_terminal r \<longrightarrow> cv_frozen r' = cv_frozen r \<and> run_stages db' (cv_id r) = run_stages db (cv_id r)) \<and>
     list_all2 (\<lambda>a b. truthy a \<longrightarrow> b = a) (cv_evidence r) (cv_evidence r')"

lemma progress_refl: "run_stages db' (cv_id r) = run_stages db (cv_id r) \<Longrightarrow> progress db r db' r"
  by (simp add: progress_def list_all2_same)

lemma progress_trans:
  assumes 1: "progress db r db1 r1" and 2: "progress db1 r1 db2 r2"
  shows "progress db r db2 r2"
  unfolding progress_def
proof (intro conjI impI)
  show "cv_ident r2 = cv_ident r" "cv_revision r \<le> cv_revision r2"
    using 1 2 by (auto simp: progress_def)
  show "r2 = r" if "cv_revision r2 = cv_revision r"
  proof -
    have "cv_revision r1 = cv_revision r" "cv_revision r2 = cv_revision r1"
      using 1 2 that by (auto simp: progress_def)
    with 1 2 show ?thesis by (simp add: progress_def)
  qed
  have id: "cv_id r1 = cv_id r" using 1 by (simp add: progress_def cv_ident_def)
  assume t: "cv_terminal r"
  with 1 have "cv_terminal r1" by (auto simp: progress_def cv_frozen_def)
  with 1 2 t id show "cv_frozen r2 = cv_frozen r" "run_stages db2 (cv_id r) = run_stages db (cv_id r)"
    by (simp_all add: progress_def)
next
  have "list_all2 (\<lambda>a b. truthy a \<longrightarrow> b = a) (cv_evidence r) (cv_evidence r1)"
    and "list_all2 (\<lambda>a b. truthy a \<longrightarrow> b = a) (cv_evidence r1) (cv_evidence r2)"
    using 1 2 by (simp_all add: progress_def)
  then show "list_all2 (\<lambda>a b. truthy a \<longrightarrow> b = a) (cv_evidence r) (cv_evidence r2)"
    by (rule list_all2_trans [rotated]) auto
qed

lemma revised_progress:
  assumes rev: "revised db r r' db'" and inv: "conv_inv db" and x: "row_of cv_id cid (convergences db) = Some x"
  shows "\<exists>x'. row_of cv_id cid (convergences db') = Some x' \<and> progress db x db' x'"
proof -
  from rev have r: "row_of cv_id (cv_id r) (convergences db) = Some r" and adv: "advances r r'"
    and rows: "convergences db' = update_where (\<lambda>x. cv_id x = cv_id r) (\<lambda>_. r') (convergences db)"
    and st: "stages_follow r (analyses db) (analyses db')"
    by (simp_all add: revised_def)
  show ?thesis
  proof (cases "cid = cv_id r")
    case True
    with r x have "x = r" by simp
    moreover have "row_of cv_id cid (convergences db') = Some r'"
      using True r by (simp add: rows row_of_replace advances_ident(1) [OF adv])
    moreover have "progress db r db' r'"
      using adv st by (auto simp: progress_def advances_def stages_follow_def run_stages_def)
    ultimately show ?thesis by blast
  next
    case False
    have sub: "filter (\<lambda>a. an_convergence_id a = cid) t =
        filter (\<lambda>a. an_convergence_id a = cid) (filter (\<lambda>a. an_convergence_id a \<noteq> cv_id r) t)" for t
      using False by (induction t) auto
    have "run_stages db' cid = run_stages db cid"
      using st by (simp add: run_stages_def stages_follow_def sub [of "analyses _"])
    then show ?thesis using False x row_of_key [OF x]
      by (auto simp: rows row_of_replace advances_ident(1) [OF adv] intro!: progress_refl)
  qed
qed

lemma step_progress:
  assumes inv: "conv_inv db" and step: "conv_step K db db'" and x: "row_of cv_id cid (convergences db) = Some x"
  shows "\<exists>x'. row_of cv_id cid (convergences db') = Some x' \<and> progress db x db' x'"
  using conv_step_cases [OF inv step]
proof cases
  case 1
  then show ?thesis using x progress_refl by blast
next
  case (2 r r')
  then show ?thesis by (rule revised_progress [OF _ inv x])
next
  case (3 a new clock rp)
  then obtain e where fresh: "row_of cv_id new (convergences db) = None"
    and "convergences db' = convergences db @ [new_convergence K a new (fst clock)]"
    and "analyses db' = analyses db @ map (pending_stage new (fst clock)) analysis_stages"
    by (rule insert_convergence_Inr)
  moreover have "cid \<noteq> new" using fresh x by auto
  ultimately show ?thesis using x row_of_key [OF x]
    by (auto simp: row_of_append run_stages_def pending_stage_def filter_map comp_def intro!: progress_refl)
qed

lemma run_progress:
  assumes "(conv_step K)\<^sup>*\<^sup>* db db'" and "conv_inv db" and "row_of cv_id cid (convergences db) = Some x"
  shows "\<exists>x'. row_of cv_id cid (convergences db') = Some x' \<and> progress db x db' x'"
  using assms
proof (induction rule: rtranclp_induct)
  case (step db1 db2)
  then obtain x1 where x1: "row_of cv_id cid (convergences db1) = Some x1" "progress db x db1 x1" by blast
  from step.hyps(1) step.prems(1) have "conv_inv db1" by (rule conv.steps_inv)
  from step_progress [OF this step.hyps(2) x1(1)] obtain x2 where
    "row_of cv_id cid (convergences db2) = Some x2" "progress db1 x1 db2 x2" by blast
  with x1(2) progress_trans show ?case by blast
qed (use progress_refl in blast)

end
