(* ===== verification/Convergence_Contracts.thy ===== *)
theory Convergence_Contracts
  imports Convergence_Runs
begin

text \<open>
  The contracts of the convergence store: a second writer with the same revision loses, a bound
  idempotency key keeps its run, and every update implements an abstract operation on the state of
  one run, errors included.
\<close>

section \<open>Compare-and-swap\<close>

definition conv_revision :: "conv_db \<Rightarrow> string \<Rightarrow> nat option" where
  "conv_revision db cid = map_option cv_revision (row_of cv_id cid (convergences db))"

lemma revised_revision:
  assumes "revised db r r' db'"
  shows "conv_revision db (cv_id r) = Some (cv_revision r)"
    and "conv_revision db' (cv_id r) = Some (Suc (cv_revision r))"
    and "i \<noteq> cv_id r \<Longrightarrow> conv_revision db' i = conv_revision db i"
  using assms
  by (auto simp: revised_def conv_revision_def row_of_replace advances_ident(1) advances_def [of r r'])

interpretation conv_cas: revision_cas conv_revision "exec_conv K" conv_target conv_expected conv_inv for K
proof
  fix db x rp db'
  assume inv: "conv_inv db" and run: "exec_conv K x db = Inr (rp, db')"
  from inv run show "conv_inv db'" by (rule exec_conv_inv)
  note effect = exec_conv_effect [OF conv_invD(1) [OF inv] run]
  show "\<exists>n. conv_revision db (conv_target x) = Some n \<and> int n = conv_expected x \<and>
      conv_revision db' (conv_target x) = Some (Suc n)" if "db' \<noteq> db"
    using effect that by (metis revised_revision(1,2))
  show "conv_revision db' i = conv_revision db i" if "i \<noteq> conv_target x" for i
    using effect that by (metis revised_revision(3))
qed

section \<open>Idempotency keys\<close>

text \<open>Creation under the keys of one repository.\<close>

definition create_under ::
  "codec \<Rightarrow> string \<Rightarrow> string \<Rightarrow> create_args \<Rightarrow> string \<times> time \<times> time \<Rightarrow> conv_db \<Rightarrow>
     conv_error + (string \<times> conv_db)" where
  "create_under K repo key a new db =
     (case create_or_get_convergence K (a\<lparr>ca_repository := repo, ca_idempotency_key := key\<rparr>)
             (fst new) (snd new) db of
        Inl e \<Rightarrow> Inl e | Inr (rp, db') \<Rightarrow> Inr (cv_id (rp_row rp), db'))"

definition conv_key :: "string \<Rightarrow> conv_db \<Rightarrow> string \<Rightarrow> (string \<times> string) option" where
  "conv_key repo db key = map_option (\<lambda>r. (cv_identity_hash r, cv_id r)) (keyed_row repo key db)"

definition identity_in :: "codec \<Rightarrow> string \<Rightarrow> create_args \<Rightarrow> string" where
  "identity_in K repo a = identity_hash K (a\<lparr>ca_repository := repo\<rparr>)"

lemma identity_in_args:
  "identity_hash K (a\<lparr>ca_repository := repo, ca_idempotency_key := key\<rparr>) = identity_in K repo a"
  by (simp add: identity_in_def identity_hash_def request_identity_def)

lemma find_append_Some: "List.find P xs = Some x \<Longrightarrow> List.find P (xs @ ys) = Some x"
  by (induction xs) (auto split: if_splits)

interpretation conv_keys: key_registry "create_under K repo" "conv_key repo" "identity_in K repo"
  "\<lambda>key. key \<noteq> []" for K repo
proof
  fix key db and a :: create_args and i new j db'
  assume key: "key \<noteq> []" and bound: "conv_key repo db key = Some (identity_in K repo a, i)"
    and run: "create_under K repo key a new db = Inr (j, db')"
  from run obtain rp where j: "j = cv_id (rp_row rp)" and
    "create_or_get_convergence K (a\<lparr>ca_repository := repo, ca_idempotency_key := key\<rparr>)
      (fst new) (snd new) db = Inr (rp, db')"
    by (auto simp: create_under_def split: sum.splits)
  from create_cases [OF this(2)] key bound j show "j = i \<and> db' = db"
    by (auto simp: conv_key_def)
next
  fix key db h i and a :: create_args and new
  assume "key \<noteq> []" "conv_key repo db key = Some (h, i)" "h \<noteq> identity_in K repo a"
  then show "\<exists>e. create_under K repo key a new db = Inl e"
    by (auto simp: conv_key_def create_under_def create_or_get_convergence_def identity_in_args)
next
  fix key key' db b and a :: create_args and new i db'
  assume bound: "conv_key repo db key' = Some b" and run: "create_under K repo key a new db = Inr (i, db')"
  from run obtain rp where
    "create_or_get_convergence K (a\<lparr>ca_repository := repo, ca_idempotency_key := key\<rparr>)
      (fst new) (snd new) db = Inr (rp, db')"
    by (auto simp: create_under_def split: sum.splits)
  from create_cases [OF this] have "db' = db \<or> (\<exists>r. convergences db' = convergences db @ [r])"
    by (auto elim!: insert_convergence_Inr)
  with bound show "conv_key repo db' key' = Some b"
    by (auto simp: conv_key_def keyed_row_def find_append_Some)
qed

lemma insert_binds_key:
  assumes "create_under K repo key a new db = Inr (i, db')" and "db' \<noteq> db" and "key \<noteq> []"
  shows "conv_key repo db' key = Some (identity_in K repo a, i)"
proof -
  let ?a = "a\<lparr>ca_repository := repo, ca_idempotency_key := key\<rparr>"
  from assms(1) obtain rp where i: "i = cv_id (rp_row rp)" and
    run: "create_or_get_convergence K ?a (fst new) (snd new) db = Inr (rp, db')"
    by (auto simp: create_under_def split: sum.splits)
  from create_cases [OF run] assms(2,3) have free: "keyed_row repo key db = None"
    and ins: "insert_convergence K ?a (fst new) (snd new) db = Inr (rp, db')" by auto
  have "keyed_row repo key db' = Some (rp_row rp)"
    using ins
  proof (rule insert_convergence_Inr)
    let ?r = "new_convergence K ?a (fst new) (fst (snd new))"
    assume "convergences db' = convergences db @ [?r]" "rp_row rp = ?r"
    moreover have "cv_repository ?r = repo" "cv_idempotency_key ?r = Some key"
      using assms(3) by (simp_all add: new_convergence_def or_none_def)
    moreover have "List.find P xs = None \<Longrightarrow> P r \<Longrightarrow> List.find P (xs @ [r]) = Some r"
      for P :: "convergence \<Rightarrow> bool" and xs r
      by (induction xs) (auto split: if_splits)
    ultimately show ?thesis using free by (simp add: keyed_row_def)
  qed
  moreover have "cv_identity_hash (rp_row rp) = identity_in K repo a"
    using ins by (rule insert_convergence_Inr) (simp add: new_convergence_def identity_in_args)
  ultimately show ?thesis by (simp add: conv_key_def i)
qed

section \<open>The canonical identity\<close>

lemma canonical_request_identity:
  "canonical_json (request_identity a) = JObj
     [(''base_branch'', JStr (ca_base_branch a)), (''base_sha'', JStr (ca_base_sha a)),
      (''branch'', JStr (ca_branch a)),
      (''caller_identity_hash'', json_opt (or_none (ca_caller_hash a))),
      (''development_session_id'', JStr (ca_session_id a)), (''head_sha'', JStr (ca_head_sha a)),
      (''mode'', JStr (ca_mode a)), (''repository'', JStr (ca_repository a)),
      (''tree_sha'', JStr (ca_tree_sha a)), (''workspace_id'', JStr (ca_workspace_id a))]"
  unfolding canonical_json_def request_identity_def by simp

lemma json_opt_text_inject:
  assumes "json_text F (json_opt (or_none s)) @ CHR '','' # u = json_text F (json_opt (or_none t)) @ CHR '','' # v"
  shows "or_none s = or_none t \<and> u = v"
proof (cases "or_none s"; cases "or_none t")
  fix x y assume "or_none s = Some x" "or_none t = Some y"
  with assms show ?thesis by (simp add: json_opt_def)
next
  fix x assume "or_none s = Some x" "or_none t = None"
  with assms json_quoted_not_null [of x] show ?thesis by (simp add: json_opt_def)
next
  fix y assume "or_none s = None" "or_none t = Some y"
  with assms json_quoted_not_null [of y] show ?thesis by (simp add: json_opt_def) metis
qed (use assms in \<open>simp add: json_opt_def\<close>)

lemma canonical_text_inject:
  assumes "json_text F (canonical_json (request_identity a)) = json_text F (canonical_json (request_identity b))"
  shows "request_identity a = request_identity b"
proof -
  note eq = assms [unfolded canonical_request_identity]
  from eq have "ca_base_branch a = ca_base_branch b \<and> ca_base_sha a = ca_base_sha b \<and>
      ca_branch a = ca_branch b \<and>
      or_none (ca_caller_hash a) = or_none (ca_caller_hash b) \<and> ca_session_id a = ca_session_id b \<and>
      ca_head_sha a = ca_head_sha b \<and> ca_mode a = ca_mode b \<and> ca_repository a = ca_repository b \<and>
      ca_tree_sha a = ca_tree_sha b \<and> ca_workspace_id a = ca_workspace_id b"
    by (auto dest!: json_opt_text_inject)
  then show ?thesis by (simp add: request_identity_def)
qed

section \<open>Every update implements an abstract operation\<close>

text \<open>
  The abstract state of a run forgets tables, revisions, clocks and events: the phase and status,
  whether the run is closed, the ids it is bound to, its evidence and the state of each stage.
\<close>

record run_view =
  vw_state :: "string \<times> string"
  vw_closed :: bool
  vw_bound :: "string \<Rightarrow> string option"
  vw_evidence :: "string option \<times> string option"
  vw_stages :: "(string \<times> string) list"

definition view :: "conv_db \<Rightarrow> convergence \<Rightarrow> run_view" where
  "view db r = \<lparr>vw_state = cv_state r, vw_closed = cv_terminal r, vw_bound = (\<lambda>f. bound_id f r),
     vw_evidence = (cv_attestation_id r, cv_failure_pack_id r),
     vw_stages = map (\<lambda>a. (an_stage a, an_state a)) (run_stages db (cv_id r))\<rparr>"

definition spec_bind :: "string \<Rightarrow> string \<Rightarrow> run_view \<Rightarrow> conv_error + run_view" where
  "spec_bind field v s =
     (if vw_closed s then Inl ConvStateInvalid
      else if \<not> truthy (vw_bound s field) then Inr (s\<lparr>vw_bound := (vw_bound s)(field := Some v)\<rparr>)
      else if vw_bound s field = Some v then Inr s else Inl ConvIdentityMismatch)"

fun spec_op :: "conv_op \<Rightarrow> run_view \<Rightarrow> conv_error + run_view" where
  "spec_op (TransitionRun cid n phase opts c) s =
     (if vw_closed s then Inl ConvStateInvalid
      else Inr (s\<lparr>vw_state := (phase, if to_status opts = [] then phase else to_status opts),
                  vw_closed := phase \<in> set terminal_phases\<rparr>))"
| "spec_op (BindIndexJob cid n v c) s = spec_bind ''index_job_id'' v s"
| "spec_op (BindCiRequest cid n v c) s = spec_bind ''ci_request_id'' v s"
| "spec_op (BindCiJob cid n q v c) s = spec_bind ''ci_job_id'' v s"
| "spec_op (RecordAnalysis cid n a c) s =
     (if vw_closed s then Inl ConvStateInvalid
      else Inr (s\<lparr>vw_stages := map (\<lambda>(g, st). (g, if g = aa_stage a then aa_state a else st)) (vw_stages s)\<rparr>))"
| "spec_op (RecordEvidence cid n att pack c) s =
     (if truthy att \<and> truthy (fst (vw_evidence s)) \<and> fst (vw_evidence s) \<noteq> att \<or>
              truthy pack \<and> truthy (snd (vw_evidence s)) \<and> snd (vw_evidence s) \<noteq> pack
      then Inl ConvIdentityMismatch
      else Inr (s\<lparr>vw_evidence :=
        (if truthy att then att else fst (vw_evidence s),
         if truthy pack then pack else snd (vw_evidence s))\<rparr>))"

text \<open>The checks on the arguments, made before the store is read.\<close>

fun valid_op :: "conv_op \<Rightarrow> bool" where
  "valid_op (TransitionRun cid n phase opts c) = (phase \<in> set convergence_phases)"
| "valid_op (BindIndexJob cid n v c) = (py_strip v \<noteq> [])"
| "valid_op (BindCiRequest cid n v c) = (py_strip v \<noteq> [])"
| "valid_op (BindCiJob cid n q v c) = (py_strip v \<noteq> [])"
| "valid_op (RecordAnalysis cid n a c) =
     (aa_stage a \<in> set analysis_stages \<and> aa_state a \<in> set analysis_states)"
| "valid_op (RecordEvidence cid n att pack c) = (truthy att \<or> truthy pack)"

text \<open>The abstract outcome of a concrete one.\<close>

definition outcome :: "(conv_error + (conv_reply \<times> conv_db)) \<Rightarrow> conv_error + run_view" where
  "outcome res = (case res of Inl e \<Rightarrow> Inl e | Inr (rp, db') \<Rightarrow> Inr (view db' (rp_row rp)))"

lemma outcome_simps [simp]:
  "outcome (Inl e) = Inl e" "outcome (Inr (rp, db')) = Inr (view db' (rp_row rp))"
  by (simp_all add: outcome_def)

lemma commit_revision_total:
  assumes inv: "conv_inv db" and row: "row_of cv_id cid (convergences db) = Some r" "int (cv_revision r) = n"
    and keeps: "cv_id (f r) = cid"
  shows "\<exists>db'. commit_revision K cid n r f ty m c (db\<lparr>analyses := t\<rparr>) =
      Inr (public db' ((f r)\<lparr>cv_revision := cv_revision r + 1, cv_updated_at := fst c\<rparr>), db') \<and>
    analyses db' = t"
proof -
  let ?r' = "(f r)\<lparr>cv_revision := Suc (cv_revision r), cv_updated_at := fst c\<rparr>"
  note ids = conv_invD(1) [OF inv]
  have hit: "row_count (\<lambda>x. cv_id x = cid \<and> int (cv_revision x) = n) (convergences db) = 1"
    by (subst row_count_key_1 [OF ids]) (rule exI [of _ r], rule conjI [OF row])
  have upd: "update_where (\<lambda>x. cv_id x = cid \<and> int (cv_revision x) = n)
      (\<lambda>x. (f x)\<lparr>cv_revision := Suc (cv_revision x), cv_updated_at := fst c\<rparr>) (convergences db) =
     update_where (\<lambda>x. cv_id x = cid) (\<lambda>_. ?r') (convergences db)"
    by (subst update_where_replace [OF ids row(1)]) (simp_all add: row(2))
  have get: "row_of cv_id cid (update_where (\<lambda>x. cv_id x = cid) (\<lambda>_. ?r') (convergences db)) = Some ?r'"
    using row(1) keeps by (simp add: row_of_replace)
  have "history_ok db r" using conv_invD(5) [OF inv] row_of_SomeD [OF row(1)] by blast
  then have revs: "ce_revision ` set (run_events db cid) = {0..<Suc (cv_revision r)}"
    using row_of_key [OF row(1)] by (metis history_ok_def set_map set_upt)
  have new: "ce_convergence_id e \<noteq> cid \<or> ce_revision e \<noteq> Suc (cv_revision r)"
    if "e \<in> set (conv_events db)" for e
  proof (cases "ce_convergence_id e = cid")
    case True
    with that have "ce_revision e \<in> ce_revision ` set (run_events db cid)" by (simp add: run_events_def)
    then show ?thesis unfolding revs by simp
  qed simp
  let ?db1 = "db\<lparr>analyses := t, convergences := update_where (\<lambda>x. cv_id x = cid) (\<lambda>_. ?r') (convergences db)\<rparr>"
  obtain db' where ins: "insert_event K cid (Suc (cv_revision r)) ty (Some (cv_phase r, cv_status r))
      (cv_phase (f r), cv_status (f r)) m (snd c) ?db1 = Inr db'" and an: "analyses db' = t"
    using new by (auto simp: insert_event_def)
  have "commit_revision K cid n r f ty m c (db\<lparr>analyses := t\<rparr>) = Inr (public db' ?r', db')"
    using hit get ins by (simp add: commit_revision_def Let_def upd get_row_def)
  with an show ?thesis by simp
qed

lemma commit_outcome:
  assumes inv: "conv_inv db" and row: "row_of cv_id cid (convergences db) = Some r" "int (cv_revision r) = n"
    and keeps: "cv_id (f r) = cid"
  shows "outcome (case commit_revision K cid n r f ty m c (db\<lparr>analyses := t\<rparr>) of
        Inl e \<Rightarrow> Inl e | Inr (rp, db') \<Rightarrow> Inr (rp\<lparr>rp_deduplicated := d\<rparr>, db')) =
      Inr (view (db\<lparr>analyses := t\<rparr>) (f r))"
    and "outcome (commit_revision K cid n r f ty m c (db\<lparr>analyses := t\<rparr>)) =
      Inr (view (db\<lparr>analyses := t\<rparr>) (f r))"
proof -
  from commit_revision_total [OF inv row, where f = f, OF keeps] obtain db' where
    run: "commit_revision K cid n r f ty m c (db\<lparr>analyses := t\<rparr>) =
      Inr (public db' ((f r)\<lparr>cv_revision := cv_revision r + 1, cv_updated_at := fst c\<rparr>), db')"
    and an: "analyses db' = t" by blast
  have bound: "bound_id g (x\<lparr>cv_revision := k, cv_updated_at := u\<rparr>) = bound_id g x" for g x k u
    by (simp add: bound_id_def)
  show "outcome (case commit_revision K cid n r f ty m c (db\<lparr>analyses := t\<rparr>) of
        Inl e \<Rightarrow> Inl e | Inr (rp, db') \<Rightarrow> Inr (rp\<lparr>rp_deduplicated := d\<rparr>, db')) =
      Inr (view (db\<lparr>analyses := t\<rparr>) (f r))"
    and "outcome (commit_revision K cid n r f ty m c (db\<lparr>analyses := t\<rparr>)) =
      Inr (view (db\<lparr>analyses := t\<rparr>) (f r))"
    unfolding run by (simp_all add: public_def view_def cv_state_def bound run_stages_def an)
qed

lemmas commit_outcome_same = commit_outcome [where t = "analyses db" and db = db for db, simplified]

lemma bind_outcome:
  assumes inv: "conv_inv db" and row: "row_of cv_id cid (convergences db) = Some r" "int (cv_revision r) = n"
    and field: "field \<in> set bind_fields" and valid: "py_strip v \<noteq> []"
  shows "outcome (bind_once K cid n field v ty m False c db) = spec_bind field v (view db r)"
proof -
  have req: "require_revision cid n db = Inr r" using row by simp
  have id: "cv_id (set_bound_id field v r) = cid"
    using row_of_key [OF row(1)] by (simp add: set_bound_id_def)
  have upd: "(\<lambda>f. bound_id f (set_bound_id field v r)) = (\<lambda>f. bound_id f r)(field := Some v)"
    using field by (cases rule: bind_fieldE) (auto simp: bound_id_def)
  have rest: "cv_state (set_bound_id field v r) = cv_state r" "cv_terminal (set_bound_id field v r) = cv_terminal r"
    "cv_attestation_id (set_bound_id field v r) = cv_attestation_id r" "cv_id (set_bound_id field v r) = cv_id r"
    "cv_failure_pack_id (set_bound_id field v r) = cv_failure_pack_id r"
    by (simp_all add: set_bound_id_def cv_state_def)
  have spec: "view db (set_bound_id field v r) = (view db r)\<lparr>vw_bound := (vw_bound (view db r))(field := Some v)\<rparr>"
    unfolding view_def rest upd by simp
  have sel: "vw_closed (view db r) = cv_terminal r" "vw_bound (view db r) field = bound_id field r"
    by (simp_all add: view_def)
  show ?thesis
    using field valid commit_outcome_same(1) [OF inv row, where f = "set_bound_id field v", OF id]
    by (auto simp: bind_once_def req spec_bind_def sel spec public_def)
qed

lemma transition_outcome:
  assumes inv: "conv_inv db" and row: "row_of cv_id cid (convergences db) = Some r" "int (cv_revision r) = n"
    and valid: "valid_op (TransitionRun cid n p opts c)"
  shows "outcome (exec_conv K (TransitionRun cid n p opts c) db) = spec_op (TransitionRun cid n p opts c) (view db r)"
proof -
  have req: "require_revision cid n db = Inr r" using row by simp
  have ne: "p \<in> set convergence_phases \<Longrightarrow> p \<noteq> []" by (auto simp: convergence_phases_def)
  show ?thesis
    using ne valid by (auto simp: transition_convergence_def req Let_def view_def cv_state_def row_of_key [OF row(1)]
        commit_outcome_same(2) [OF inv row] bound_id_def)
qed

lemma analysis_outcome:
  assumes inv: "conv_inv db" and row: "row_of cv_id cid (convergences db) = Some r" "int (cv_revision r) = n"
    and valid: "valid_op (RecordAnalysis cid n a c)"
  shows "outcome (exec_conv K (RecordAnalysis cid n a c) db) = spec_op (RecordAnalysis cid n a c) (view db r)"
proof -
  have req: "require_revision cid n db = Inr r" using row by simp
  have upd: "map (\<lambda>x. (an_stage x, an_state x)) (filter (\<lambda>x. an_convergence_id x = cid)
      (update_where (\<lambda>x. an_convergence_id x = cid \<and> an_stage x = g) f t)) =
    map (\<lambda>(h, s). (h, if h = g then st else s))
      (map (\<lambda>x. (an_stage x, an_state x)) (filter (\<lambda>x. an_convergence_id x = cid) t))"
    if "\<And>x. an_convergence_id (f x) = an_convergence_id x \<and> an_stage (f x) = an_stage x \<and> an_state (f x) = st"
    for g f t st
    using that by (induction t) auto
  show ?thesis
    using valid commit_outcome(2) [OF inv row, of id] row_of_key [OF row(1)]
    by (simp add: record_analysis_state_def req view_def run_stages_def upd cv_state_def)
qed

lemma evidence_outcome:
  assumes inv: "conv_inv db" and row: "row_of cv_id cid (convergences db) = Some r" "int (cv_revision r) = n"
    and valid: "valid_op (RecordEvidence cid n att pack c)"
  shows "outcome (exec_conv K (RecordEvidence cid n att pack c) db) =
    spec_op (RecordEvidence cid n att pack c) (view db r)"
proof -
  have req: "require_revision cid n db = Inr r" using row by simp
  show ?thesis
    using valid commit_outcome_same(1) [OF inv row] row_of_key [OF row(1)]
    by (auto simp: record_terminal_evidence_def req evidence_update_def public_def view_def cv_state_def bound_id_def
        split: option.splits)
qed

lemma invalid_op:
  "\<not> valid_op x \<Longrightarrow> exec_conv K x db = Inl ConvValueError"
  by (cases x) (auto simp: transition_convergence_def bind_index_job_def bind_ci_request_def
      bind_ci_job_write_def bind_once_def record_analysis_state_def record_terminal_evidence_def)

lemma no_revision:
  assumes valid: "valid_op x" and req: "require_revision (conv_target x) (conv_expected x) db = Inl e"
  shows "exec_conv K x db = Inl e"
proof (cases x)
  case (TransitionRun cid n p opts c)
  moreover have "p \<noteq> []" using valid TransitionRun by (auto simp: convergence_phases_def)
  ultimately show ?thesis using valid req by (simp add: transition_convergence_def)
qed (use valid req in \<open>auto simp: bind_index_job_def bind_ci_request_def bind_ci_job_write_def
    bind_once_def bind_fields_def record_analysis_state_def record_terminal_evidence_def\<close>)

lemma current_outcome:
  assumes inv: "conv_inv db" and valid: "valid_op x"
    and row: "row_of cv_id (conv_target x) (convergences db) = Some r" "int (cv_revision r) = conv_expected x"
  shows "outcome (exec_conv K x db) = spec_op x (view db r)"
proof (cases x)
  case (TransitionRun cid n p opts c)
  with transition_outcome [OF inv, of cid r n p opts c K] row valid show ?thesis by simp
next
  case (BindIndexJob cid n v c)
  with bind_outcome [OF inv] row valid show ?thesis
    by (simp add: bind_index_job_def bind_fields_def)
next
  case (BindCiRequest cid n v c)
  with bind_outcome [OF inv] row valid show ?thesis
    by (simp add: bind_ci_request_def bind_fields_def)
next
  case (BindCiJob cid n q v c)
  with bind_outcome [OF inv] row valid show ?thesis
    by (simp add: bind_ci_job_write_def bind_fields_def)
next
  case (RecordAnalysis cid n a c)
  with analysis_outcome [OF inv, of cid r n a c K] row valid show ?thesis by simp
next
  case (RecordEvidence cid n att pack c)
  with evidence_outcome [OF inv, of cid r n att pack c K] row valid show ?thesis by simp
qed

end
