(* ===== verification/Convergence_Properties.thy ===== *)
theory Convergence_Properties
  imports Convergence_Contracts
begin

text \<open>
  The properties of the convergence store, each with a witness on a small store: one run that is
  created, bound to a CI request and closed.
\<close>

section \<open>A small store\<close>

definition cdemo_codec :: codec where
  "cdemo_codec = \<lparr>sha256 = (\<lambda>s. s), float_text = (\<lambda>_. ''0'')\<rparr>"

definition cdemo_sha :: string where
  "cdemo_sha = replicate 40 CHR ''a''"

definition cdemo_args :: create_args where
  "cdemo_args = \<lparr>ca_repository = ''o/r'', ca_branch = ''b'', ca_session_id = ''s'', ca_workspace_id = ''w'',
     ca_session_revision = 1, ca_workspace_revision = 1, ca_head_sha = cdemo_sha, ca_tree_sha = cdemo_sha,
     ca_base_branch = ''m'', ca_base_sha = cdemo_sha, ca_mode = ''full'', ca_idempotency_key = ''k'',
     ca_caller_hash = []\<rparr>"

definition cdemo_row :: convergence where
  "cdemo_row = new_convergence cdemo_codec cdemo_args ''c1'' 0"

definition committed_db :: "(conv_error + ('a \<times> conv_db)) \<Rightarrow> conv_db" where
  "committed_db res = (case res of Inl _ \<Rightarrow> empty_conv_db | Inr (_, db) \<Rightarrow> db)"

definition cdemo_created :: conv_db where
  "cdemo_created = committed_db (create_or_get_convergence cdemo_codec cdemo_args ''c1'' (0, 0) empty_conv_db)"

lemma cdemo_strip: "py_strip ''o/r'' \<noteq> []" "py_strip ''b'' \<noteq> []" "py_strip ''s'' \<noteq> []"
  "py_strip ''w'' \<noteq> []" "py_strip ''m'' \<noteq> []" "py_strip ''q'' \<noteq> []" "py_strip ''j'' \<noteq> []"
  by (simp_all add: py_strip_def py_space_def)

lemma cdemo_sha_ok: "is_sha cdemo_sha"
  by (simp add: is_sha_def cdemo_sha_def hex_digits_def list_all_iff)

lemma cdemo_valid: "validate_create_identity cdemo_args"
  using cdemo_strip cdemo_sha_ok by (simp add: validate_create_identity_def cdemo_args_def valid_modes_def)

lemma cdemo_insert: "\<exists>rp db. insert_convergence cdemo_codec cdemo_args ''c1'' (0, 0) empty_conv_db = Inr (rp, db)"
  by (simp add: insert_convergence_def empty_conv_db_def Let_def insert_event_def)

lemma cdemo_create:
  "\<exists>rp. create_or_get_convergence cdemo_codec cdemo_args ''c1'' (0, 0) empty_conv_db = Inr (rp, cdemo_created) \<and>
    convergences cdemo_created = [cdemo_row]"
proof -
  from cdemo_insert obtain rp db where
    ins: "insert_convergence cdemo_codec cdemo_args ''c1'' (0, 0) empty_conv_db = Inr (rp, db)" by blast
  then have create: "create_or_get_convergence cdemo_codec cdemo_args ''c1'' (0, 0) empty_conv_db = Inr (rp, db)"
    using cdemo_valid by (simp add: create_or_get_convergence_def keyed_row_def active_row_def empty_conv_db_def)
  from ins have "convergences db = [cdemo_row]"
    by (rule insert_convergence_Inr) (simp add: empty_conv_db_def cdemo_row_def)
  then show ?thesis using create by (simp add: cdemo_created_def committed_db_def)
qed

lemma cdemo_step: "conv_step cdemo_codec empty_conv_db cdemo_created"
  using cdemo_create by (blast intro: conv_step.create)

lemma cdemo_created_reachable: "conv_reachable cdemo_codec cdemo_created"
  unfolding conv_reachable_def using cdemo_step by blast

lemma cdemo_created_row:
  "row_of cv_id ''c1'' (convergences cdemo_created) = Some cdemo_row" "cv_revision cdemo_row = 0"
  "\<not> cv_terminal cdemo_row" "cv_ci_request_id cdemo_row = None" "cv_ci_job_id cdemo_row = None"
  using cdemo_create by (auto simp: cdemo_row_def new_convergence_def)

text \<open>An update that the abstract operation accepts commits and moves the revision on.\<close>

lemma update_commits:
  assumes reach: "conv_reachable K db" and valid: "valid_op x"
    and row: "row_of cv_id (conv_target x) (convergences db) = Some r" "int (cv_revision r) = conv_expected x"
    and spec: "spec_op x (view db r) = Inr v" and new: "v \<noteq> view db r"
  obtains rp db' where "exec_conv K x db = Inr (rp, db')" "conv_step K db db'" "conv_reachable K db'"
    "view db' (rp_row rp) = v" "row_of cv_id (conv_target x) (convergences db') = Some (rp_row rp)"
    "cv_revision (rp_row rp) = Suc (cv_revision r)"
proof -
  note inv = conv_reachable_inv [OF reach]
  from current_outcome [OF inv valid row, of K] spec
  obtain rp db' where run: "exec_conv K x db = Inr (rp, db')" and v: "view db' (rp_row rp) = v"
    by (auto simp: outcome_def split: sum.splits)
  from run have step: "conv_step K db db'" by (rule conv_step.update)
  have reach': "conv_reachable K db'"
    using reach step unfolding conv_reachable_def by (rule rtranclp.rtrancl_into_rtrancl)
  note effect = exec_conv_effect [OF conv_invD(1) [OF inv] run]
  have "cv_revision (rp_row rp) = Suc (cv_revision r)"
    using effect
  proof (elim disjE exE conjE)
    assume "db' = db" and "row_of cv_id (conv_target x) (convergences db) = Some (rp_row rp)"
    with row v new show ?thesis by simp
  next
    fix r0 assume "cv_id r0 = conv_target x" and "revised db r0 (rp_row rp) db'"
    with row(1) have "advances r (rp_row rp)" by (simp add: revised_def)
    then show ?thesis by (simp add: advances_def)
  qed
  with run step reach' v exec_conv_reply [OF conv_invD(1) [OF inv] run] show thesis using that by blast
qed

section \<open>Progress of a run\<close>

text \<open>
  C13. Over every sequence of store operations a convergence run stays, with the same identity:
  its revision never goes back and equal revisions mean an equal row; a job, request, attestation
  or failure pack id it is bound to is never replaced; and once it is terminal its phase, status,
  error, bound execution ids and analysis stages never change.
\<close>

theorem convergence_progress:
  assumes "conv_reachable K db" and "(conv_step K)\<^sup>*\<^sup>* db db'"
    and "row_of cv_id cid (convergences db) = Some r"
  shows "\<exists>r'. row_of cv_id cid (convergences db') = Some r' \<and> cv_ident r' = cv_ident r \<and>
    cv_revision r \<le> cv_revision r' \<and> (cv_revision r' = cv_revision r \<longrightarrow> r' = r) \<and>
    list_all2 (\<lambda>a b. truthy a \<longrightarrow> b = a) (cv_evidence r) (cv_evidence r') \<and>
    (cv_terminal r \<longrightarrow> cv_frozen r' = cv_frozen r \<and> run_stages db' cid = run_stages db cid)"
  using run_progress [OF assms(2) conv_reachable_inv [OF assms(1)] assms(3)] row_of_key [OF assms(3)]
  unfolding progress_def by blast

text \<open>The run is bound to the CI request \<open>q\<close>, then closed as passed.\<close>

lemma cdemo_bound:
  obtains rp db where "conv_step cdemo_codec cdemo_created db" "conv_reachable cdemo_codec db"
    "exec_conv cdemo_codec (BindCiRequest ''c1'' 0 ''q'' (1, 1)) cdemo_created = Inr (rp, db)"
    "row_of cv_id ''c1'' (convergences db) = Some (rp_row rp)" "cv_ci_request_id (rp_row rp) = Some ''q''"
    "cv_revision (rp_row rp) = 1" "\<not> cv_terminal (rp_row rp)" "cv_ci_job_id (rp_row rp) = None"
proof -
  let ?x = "BindCiRequest ''c1'' 0 ''q'' (1, 1)"
  let ?v = "(view cdemo_created cdemo_row)\<lparr>vw_bound :=
    (vw_bound (view cdemo_created cdemo_row))(''ci_request_id'' := Some ''q'')\<rparr>"
  have spec: "spec_op ?x (view cdemo_created cdemo_row) = Inr ?v"
    using cdemo_created_row by (simp add: spec_bind_def view_def)
  have "vw_bound ?v ''ci_request_id'' \<noteq> vw_bound (view cdemo_created cdemo_row) ''ci_request_id''"
    using cdemo_created_row by (simp add: view_def)
  then have new: "?v \<noteq> view cdemo_created cdemo_row" by metis
  obtain rp db where run: "exec_conv cdemo_codec ?x cdemo_created = Inr (rp, db)"
    and db: "conv_step cdemo_codec cdemo_created db" "conv_reachable cdemo_codec db"
    and v: "view db (rp_row rp) = ?v" and row: "row_of cv_id ''c1'' (convergences db) = Some (rp_row rp)"
    and rev: "cv_revision (rp_row rp) = 1"
    by (rule update_commits [OF cdemo_created_reachable _ _ _ spec new])
      (use cdemo_strip cdemo_created_row in auto)
  have "bound_id f (rp_row rp) = vw_bound ?v f" for f
    using arg_cong [OF v, of "\<lambda>u. vw_bound u f"] by (simp add: view_def)
  from this [of "''ci_request_id''"] this [of "''ci_job_id''"] arg_cong [OF v, of vw_closed]
  have "cv_ci_request_id (rp_row rp) = Some ''q''" "cv_ci_job_id (rp_row rp) = None" "\<not> cv_terminal (rp_row rp)"
    using cdemo_created_row by (simp_all add: view_def)
  with that db run row rev show thesis by blast
qed

definition cdemo_close :: conv_op where
  "cdemo_close = TransitionRun ''c1'' 0 ''passed'' \<lparr>to_status = [], to_error_code = None, to_error_message = None,
    to_event_type = ''phase_changed'', to_metadata = []\<rparr> (2, 2)"

lemma cdemo_closed:
  obtains rp db where "exec_conv cdemo_codec cdemo_close cdemo_created = Inr (rp, db)"
    "conv_reachable cdemo_codec db"
    "row_of cv_id ''c1'' (convergences db) = Some (rp_row rp)" "cv_terminal (rp_row rp)"
    "map cv_id (convergences db) = [''c1'']"
proof -
  let ?v = "(view cdemo_created cdemo_row)\<lparr>vw_state := (''passed'', ''passed''), vw_closed := True\<rparr>"
  have spec: "spec_op cdemo_close (view cdemo_created cdemo_row) = Inr ?v"
    using cdemo_created_row by (simp add: cdemo_close_def view_def terminal_phases_def)
  have "vw_closed ?v \<noteq> vw_closed (view cdemo_created cdemo_row)"
    using cdemo_created_row by (simp add: view_def)
  then have new: "?v \<noteq> view cdemo_created cdemo_row" by metis
  have valid: "valid_op cdemo_close" by (simp add: cdemo_close_def convergence_phases_def)
  have target: "conv_target cdemo_close = ''c1''" "conv_expected cdemo_close = 0" by (simp_all add: cdemo_close_def)
  obtain rp db where run: "exec_conv cdemo_codec cdemo_close cdemo_created = Inr (rp, db)"
    and db: "conv_reachable cdemo_codec db"
    and v: "view db (rp_row rp) = ?v" and row: "row_of cv_id ''c1'' (convergences db) = Some (rp_row rp)"
    by (rule update_commits [OF cdemo_created_reachable valid _ _ spec new])
      (use cdemo_created_row target in auto)
  have t: "cv_terminal (rp_row rp)" using arg_cong [OF v, of vw_closed] by (simp add: view_def)
  note inv = conv_reachable_inv [OF cdemo_created_reachable]
  have "db \<noteq> cdemo_created" using row t cdemo_created_row by auto
  with exec_conv_effect [OF conv_invD(1) [OF inv] run] obtain r where
    "revised cdemo_created r (rp_row rp) db" by blast
  from revised_ids [OF this] have ids: "map cv_id (convergences db) = [''c1'']"
    using cdemo_create by (auto simp: cdemo_row_def new_convergence_def)
  show thesis by (rule that [OF run db row t ids])
qed

lemma convergence_progress_witness:
  "\<exists>db r db' r'. (conv_step cdemo_codec)\<^sup>*\<^sup>* db db' \<and> row_of cv_id ''c1'' (convergences db) = Some r \<and>
    \<not> cv_terminal r \<and> row_of cv_id ''c1'' (convergences db') = Some r' \<and> cv_terminal r' \<and>
    cv_ident r' = cv_ident r \<and> cv_revision r \<le> cv_revision r'"
proof -
  obtain rp db where run: "exec_conv cdemo_codec cdemo_close cdemo_created = Inr (rp, db)"
    and row: "row_of cv_id ''c1'' (convergences db) = Some (rp_row rp)" and t: "cv_terminal (rp_row rp)"
    by (rule cdemo_closed)
  have steps: "(conv_step cdemo_codec)\<^sup>*\<^sup>* cdemo_created db" using run by (blast intro: conv_step.update)
  from convergence_progress [OF cdemo_created_reachable steps cdemo_created_row(1)] row
  have "cv_ident (rp_row rp) = cv_ident cdemo_row \<and> cv_revision cdemo_row \<le> cv_revision (rp_row rp)" by simp
  with steps row t cdemo_created_row show ?thesis by blast
qed

section \<open>Updates\<close>

text \<open>
  C12. Every update of a reachable store does what the abstract operation on the run does, errors
  included: invalid arguments, an unknown run and a stale revision are refused in this order, and
  otherwise the outcome is the one of the abstract operation.  In particular no update of a current
  revision fails on an integrity constraint or a row count.
\<close>

theorem convergence_update_refines:
  assumes "conv_reachable K db"
  shows "outcome (exec_conv K x db) =
    (if \<not> valid_op x then Inl ConvValueError
     else case row_of cv_id (conv_target x) (convergences db) of
       None \<Rightarrow> Inl ConvNotFound
     | Some r \<Rightarrow>
         if int (cv_revision r) \<noteq> conv_expected x then Inl ConvRevisionMismatch
         else spec_op x (view db r))"
proof (cases "valid_op x")
  case True
  note inv = conv_reachable_inv [OF assms]
  show ?thesis
  proof (cases "require_revision (conv_target x) (conv_expected x) db")
    case (Inl e)
    with True no_revision [OF True Inl, of K] show ?thesis
      by (auto simp: require_revision_Inl split: if_splits option.splits)
  next
    case (Inr r)
    with True current_outcome [OF inv True, of r K] show ?thesis by simp
  qed
qed (simp add: invalid_op)

lemma convergence_update_refines_witness:
  "outcome (exec_conv cdemo_codec (BindCiRequest ''c1'' 1 ''q'' (1, 1)) cdemo_created) = Inl ConvRevisionMismatch \<and>
   outcome (exec_conv cdemo_codec (BindCiRequest ''c1'' 0 [] (1, 1)) cdemo_created) = Inl ConvValueError \<and>
   outcome (exec_conv cdemo_codec (BindCiRequest ''c2'' 0 ''q'' (1, 1)) cdemo_created) = Inl ConvNotFound"
proof -
  have "row_of cv_id ''c2'' (convergences cdemo_created) = None"
    using cdemo_create by (auto simp: cdemo_row_def new_convergence_def)
  then show ?thesis
    unfolding convergence_update_refines [OF cdemo_created_reachable]
    using cdemo_created_row cdemo_strip by simp
qed

text \<open>
  A writer that names a revision which another committed write has replaced is refused, however
  many operations ran in between, and so changes nothing.
\<close>

theorem convergence_stale_writer:
  assumes reach: "conv_reachable K db" and first: "exec_conv K x db = Inr (rp, db1)" "db1 \<noteq> db"
    and later: "(conv_step K)\<^sup>*\<^sup>* db1 db2"
    and same: "conv_target y = conv_target x" "conv_expected y = conv_expected x" "valid_op y"
  shows "exec_conv K y db2 = Inl ConvRevisionMismatch"
proof -
  note inv = conv_reachable_inv [OF reach]
  from conv_cas.commit_needs_revision [OF inv first] obtain n r1 where
    n: "int n = conv_expected x" and r1: "row_of cv_id (conv_target x) (convergences db1) = Some r1"
      "cv_revision r1 = Suc n"
    by (auto simp: conv_revision_def)
  from run_progress [OF later exec_conv_inv [OF inv first(1)] r1(1)] obtain r2 where
    "row_of cv_id (conv_target x) (convergences db2) = Some r2" "cv_revision r1 \<le> cv_revision r2"
    by (auto simp: progress_def)
  then have "require_revision (conv_target y) (conv_expected y) db2 = Inl ConvRevisionMismatch"
    using same n r1(2) by (simp add: require_revision_Inl)
  then show ?thesis by (rule no_revision [OF same(3)])
qed

lemma convergence_stale_writer_witness:
  "\<exists>db. conv_step cdemo_codec cdemo_created db \<and>
    exec_conv cdemo_codec (BindCiRequest ''c1'' 0 ''j'' (2, 2)) db = Inl ConvRevisionMismatch"
proof -
  obtain rp db where run: "exec_conv cdemo_codec (BindCiRequest ''c1'' 0 ''q'' (1, 1)) cdemo_created = Inr (rp, db)"
    and step: "conv_step cdemo_codec cdemo_created db"
    and row: "row_of cv_id ''c1'' (convergences db) = Some (rp_row rp)" "cv_revision (rp_row rp) = 1"
    by (rule cdemo_bound)
  have "db \<noteq> cdemo_created" using row cdemo_created_row by auto
  from convergence_stale_writer [OF cdemo_created_reachable run this rtranclp.rtrancl_refl,
      of "BindCiRequest ''c1'' 0 ''j'' (2, 2)"] cdemo_strip step
  show ?thesis by auto
qed

text \<open>
  \<open>bind_ci_job\<close> checks the CI request in one transaction and binds the job in a second one.
  Whatever other writers commit in between, a bind that succeeds leaves the run bound to that job and
  to the very request that was checked.
\<close>

theorem ci_job_bound_under_request:
  assumes reach: "conv_reachable K db" and check: "check_ci_request cid n q db = None"
    and between: "(conv_step K)\<^sup>*\<^sup>* db db1"
    and wrote: "bind_ci_job_write K cid n q v clock db1 = Inr (rp, db2)"
  shows "row_of cv_id cid (convergences db2) = Some (rp_row rp) \<and>
    cv_ci_request_id (rp_row rp) = Some q \<and> cv_ci_job_id (rp_row rp) = Some v"
proof -
  let ?x = "BindCiJob cid n q v clock"
  note inv = conv_reachable_inv [OF reach]
  from check obtain r where r: "row_of cv_id cid (convergences db) = Some r" "int (cv_revision r) = n"
    "cv_ci_request_id r = Some q"
    by (auto simp: check_ci_request_def split: sum.splits if_splits)
  from run_progress [OF between inv r(1)] obtain r1 where
    r1: "row_of cv_id cid (convergences db1) = Some r1" and p: "progress db r db1 r1" by blast
  have inv1: "conv_inv db1" by (rule conv.steps_inv [OF between inv])
  have run: "exec_conv K ?x db1 = Inr (rp, db2)" using wrote by simp
  then have valid: "valid_op ?x" using invalid_op [of ?x K db1] by fastforce
  have rev1: "int (cv_revision r1) = n"
  proof (rule ccontr)
    assume "int (cv_revision r1) \<noteq> n"
    then have "require_revision (conv_target ?x) (conv_expected ?x) db1 = Inl ConvRevisionMismatch"
      using r1 by (simp add: require_revision_Inl)
    with no_revision [OF valid this, of K] run show False by simp
  qed
  with p r have "r1 = r" by (simp add: progress_def)
  with current_outcome [OF inv1 valid, of r1 K] r1 rev1 run
  have "spec_bind ''ci_job_id'' v (view db1 r) = Inr (view db2 (rp_row rp))" by simp
  then have "vw_bound (view db2 (rp_row rp)) ''ci_job_id'' = Some v \<and>
      vw_bound (view db2 (rp_row rp)) ''ci_request_id'' = vw_bound (view db1 r) ''ci_request_id''"
    by (auto simp: spec_bind_def split: if_splits dest!: sym [of _ "view _ _"])
  with r(3) exec_conv_reply [OF conv_invD(1) [OF inv1] run] show ?thesis by (simp add: view_def)
qed

lemma ci_job_bound_under_request_witness:
  "\<exists>db rp db2. conv_reachable cdemo_codec db \<and> check_ci_request ''c1'' 1 ''q'' db = None \<and>
    bind_ci_job_write cdemo_codec ''c1'' 1 ''q'' ''j'' (2, 2) db = Inr (rp, db2) \<and>
    cv_ci_job_id (rp_row rp) = Some ''j''"
proof -
  obtain rp :: conv_reply and db where reach: "conv_reachable cdemo_codec db"
    and row: "row_of cv_id ''c1'' (convergences db) = Some (rp_row rp)" "cv_revision (rp_row rp) = 1"
      "cv_ci_request_id (rp_row rp) = Some ''q''" "\<not> cv_terminal (rp_row rp)" "cv_ci_job_id (rp_row rp) = None"
    by (rule cdemo_bound)
  have check: "check_ci_request ''c1'' 1 ''q'' db = None"
    using row by (simp add: check_ci_request_def require_revision_def get_row_def)
  let ?x = "BindCiJob ''c1'' 1 ''q'' ''j'' (2, 2)"
  have "\<exists>v. spec_op ?x (view db (rp_row rp)) = Inr v"
    using row by (simp add: spec_bind_def view_def)
  with current_outcome [OF conv_reachable_inv [OF reach], of ?x "rp_row rp" cdemo_codec] row cdemo_strip
  obtain rp2 db2 where wrote: "bind_ci_job_write cdemo_codec ''c1'' 1 ''q'' ''j'' (2, 2) db = Inr (rp2, db2)"
    by (auto simp: outcome_def split: sum.splits)
  from ci_job_bound_under_request [OF reach check rtranclp.rtrancl_refl wrote] wrote reach check
  show ?thesis by blast
qed

section \<open>The store\<close>

text \<open>
  In every reachable store the event log of a convergence run is its complete history: one
  event per revision from 0 to the current one, the first one from nothing to accepted, each of the
  others from the phase and status the one before reached, and the last one reaching the phase and
  status the row shows.
\<close>

theorem convergence_history:
  assumes "conv_reachable K db" and "r \<in> set (convergences db)"
  shows "map ce_revision (run_events db (cv_id r)) = [0..<Suc (cv_revision r)] \<and>
    event_chain None (run_events db (cv_id r)) (Some (cv_phase r, cv_status r))"
  using conv_invD(5) [OF conv_reachable_inv [OF assms(1)] assms(2)]
  by (simp add: history_ok_def cv_state_def)

lemma convergence_history_witness:
  "\<exists>db r. r \<in> set (convergences db) \<and> map ce_revision (run_events db (cv_id r)) = [0, 1]"
proof -
  obtain rp db where reach: "conv_reachable cdemo_codec db"
    and run: "exec_conv cdemo_codec (BindCiRequest ''c1'' 0 ''q'' (1, 1)) cdemo_created = Inr (rp, db)"
    and row: "row_of cv_id ''c1'' (convergences db) = Some (rp_row rp)" "cv_revision (rp_row rp) = 1"
    by (rule cdemo_bound)
  from row_of_SomeD [OF row(1)] have r: "rp_row rp \<in> set (convergences db)" by simp
  have two: "[0..<Suc 1] = [0, 1]" by (simp add: upt_rec)
  from convergence_history [OF reach r]
  have "map ce_revision (run_events db (cv_id (rp_row rp))) = [0, 1]" unfolding row(2) two by blast
  with r show ?thesis by (intro exI [of _ db] exI [of _ "rp_row rp"] conjI)
qed

lemma same_id_same_row:
  assumes "conv_inv db" "r1 \<in> set (convergences db)" "r2 \<in> set (convergences db)" "cv_id r1 = cv_id r2"
  shows "r1 = r2"
  using row_of_distinct [OF conv_invD(1) [OF assms(1)] assms(2) refl]
    row_of_distinct [OF conv_invD(1) [OF assms(1)] assms(3) refl] assms(4) by (metis option.inject)

text \<open>
  C28. In every reachable store there is at most one active run of a session, Git identity, base and
  mode in a repository, and an idempotency key names at most one run of its repository, as the two
  partial unique indexes of the schema demand.
\<close>

theorem one_active_convergence:
  assumes "conv_reachable K db" and "r1 \<in> set (convergences db)" and "r2 \<in> set (convergences db)"
    and "\<not> cv_terminal r1 \<and> \<not> cv_terminal r2 \<and> active_key r1 = active_key r2 \<or>
      cv_idempotency_key r1 \<noteq> None \<and> cv_idempotency_key r1 = cv_idempotency_key r2 \<and>
      cv_repository r1 = cv_repository r2"
  shows "r1 = r2"
proof -
  note inv = conv_reachable_inv [OF assms(1)]
  from assms(4) have "cv_id r1 = cv_id r2"
  proof
    assume "\<not> cv_terminal r1 \<and> \<not> cv_terminal r2 \<and> active_key r1 = active_key r2"
    with conv_invD(2) [OF inv] assms(2,3) show ?thesis unfolding active_unique_def unique_on_def by blast
  next
    assume "cv_idempotency_key r1 \<noteq> None \<and> cv_idempotency_key r1 = cv_idempotency_key r2 \<and>
      cv_repository r1 = cv_repository r2"
    then have "cv_idempotency_key r1 \<noteq> None \<and> cv_idempotency_key r2 \<noteq> None \<and>
      (cv_repository r1, cv_idempotency_key r1) = (cv_repository r2, cv_idempotency_key r2)" by auto
    with conv_invD(3) [OF inv] assms(2,3) show ?thesis unfolding keys_unique_def unique_on_def by blast
  qed
  with inv assms(2,3) show ?thesis by (rule same_id_same_row)
qed

lemma one_active_convergence_witness:
  "\<exists>r. \<not> cv_terminal r \<and> (\<forall>r' \<in> set (convergences cdemo_created). active_key r' = active_key r \<and> \<not> cv_terminal r' \<longrightarrow> r' = r)"
proof -
  from row_of_SomeD [OF cdemo_created_row(1)] have "cdemo_row \<in> set (convergences cdemo_created)" by simp
  from one_active_convergence [OF cdemo_created_reachable _ this] cdemo_created_row(3) show ?thesis by blast
qed

text \<open>
  C40. Every row of a reachable store is well formed: its phase is one of the known phases, it is
  marked terminal and has a finishing time exactly in a terminal phase, its status is not empty, its
  mode is fast or full, its revisions are not negative and its three object ids are lowercase
  40-character SHAs; no bound id or evidence id is the empty string, and it has one row for each of
  the five analysis stages.
\<close>

theorem convergence_rows_typed:
  assumes "conv_reachable K db" and "r \<in> set (convergences db)"
  shows "cv_phase r \<in> set convergence_phases \<and>
    cv_terminal r = (cv_phase r \<in> set terminal_phases) \<and> (cv_finished_at r \<noteq> None) = cv_terminal r \<and>
    cv_status r \<noteq> [] \<and> cv_mode r \<in> set valid_modes \<and> 0 \<le> cv_session_revision r \<and>
    0 \<le> cv_workspace_revision r \<and> is_sha (cv_head_sha r) \<and> is_sha (cv_tree_sha r) \<and>
    is_sha (cv_base_sha r) \<and> Some [] \<notin> set (cv_evidence r) \<and>
    map an_stage (run_stages db (cv_id r)) = analysis_stages \<and>
    list_all (\<lambda>a. an_state a \<in> set analysis_states) (run_stages db (cv_id r))"
proof -
  note inv = conv_reachable_inv [OF assms(1)]
  have "list_all (\<lambda>a. an_state a \<in> set analysis_states) (run_stages db (cv_id r))"
    using inv by (auto simp: conv_inv_def run_stages_def list_all_iff)
  with conv_invD(4) [OF inv assms(2)] conv_invD(6) [OF inv assms(2)]
  show ?thesis by (simp add: row_ok_def stages_ok_def run_stages_def)
qed

lemma convergence_rows_typed_witness:
  "cdemo_row \<in> set (convergences cdemo_created) \<and>
   map an_stage (run_stages cdemo_created ''c1'') = analysis_stages"
proof -
  from row_of_SomeD [OF cdemo_created_row(1)] have r: "cdemo_row \<in> set (convergences cdemo_created)" by simp
  moreover have "cv_id cdemo_row = ''c1''" by (simp add: cdemo_row_def new_convergence_def)
  ultimately show ?thesis using convergence_rows_typed [OF cdemo_created_reachable r] by simp
qed

section \<open>Idempotency keys\<close>

lemma keyed_row_kept:
  assumes inv: "conv_inv db" and run: "(conv_step K)\<^sup>*\<^sup>* db db'"
    and key: "conv_key repo db key = Some b"
  shows "conv_key repo db' key = Some b"
proof -
  note inv' = conv.steps_inv [OF run inv]
  from key obtain r where k: "keyed_row repo key db = Some r" and b: "b = (cv_identity_hash r, cv_id r)"
    by (auto simp: conv_key_def)
  from keyed_row_SomeD [OF k] have r: "r \<in> set (convergences db)" "cv_repository r = repo"
    "cv_idempotency_key r = Some key" by auto
  from run_progress [OF run inv row_of_distinct [OF conv_invD(1) [OF inv] r(1) refl]] obtain r' where
    row: "row_of cv_id (cv_id r) (convergences db') = Some r'" and p: "cv_ident r' = cv_ident r"
    by (auto simp: progress_def)
  from p have id: "cv_repository r' = repo" "cv_idempotency_key r' = Some key" "cv_id r' = cv_id r"
    "cv_identity_hash r' = cv_identity_hash r" using r by (auto simp: cv_ident_def)
  have r': "r' \<in> set (convergences db')" using row_of_SomeD [OF row] by simp
  then obtain r2 where k2: "keyed_row repo key db' = Some r2"
    using id by (cases "keyed_row repo key db'") (auto simp: keyed_row_None)
  from keyed_row_SomeD [OF k2] id have "cv_idempotency_key r2 \<noteq> None \<and> cv_idempotency_key r' \<noteq> None \<and>
      (cv_repository r2, cv_idempotency_key r2) = (cv_repository r', cv_idempotency_key r')" by simp
  with conv_invD(3) [OF inv'] keyed_row_SomeD [OF k2] r' have "cv_id r2 = cv_id r'"
    unfolding keys_unique_def unique_on_def by blast
  with keyed_row_SomeD [OF k2] r' have "r2 = r'" using same_id_same_row [OF inv'] by blast
  with k2 b id show ?thesis by (simp add: conv_key_def)
qed

text \<open>
  A run created under an idempotency key keeps that key: after any later operations, a create
  with the key and the same request identity returns this run and writes nothing, and a create with
  the key and another identity is refused, provided SHA-256 does not collide on the two canonical
  texts.  The canonical text determines the identity.
\<close>

theorem convergence_key_names_one_run:
  assumes reach: "conv_reachable K db" and key: "key \<noteq> []"
    and first: "create_under K repo key a new db = Inr (i, db1)" "db1 \<noteq> db"
    and later: "(conv_step K)\<^sup>*\<^sup>* db1 db2"
    and no_collision: "sha256 K s = sha256 K t \<longrightarrow> s = t"
      "s = json_text (float_text K) (canonical_json (request_identity (a\<lparr>ca_repository := repo\<rparr>)))"
      "t = json_text (float_text K) (canonical_json (request_identity (b\<lparr>ca_repository := repo\<rparr>)))"
  shows "if request_identity (b\<lparr>ca_repository := repo\<rparr>) = request_identity (a\<lparr>ca_repository := repo\<rparr>)
    then \<forall>j db3. create_under K repo key b new' db2 = Inr (j, db3) \<longrightarrow> j = i \<and> db3 = db2
    else \<exists>e. create_under K repo key b new' db2 = Inl e"
proof -
  from first(1) obtain rp where "create_or_get_convergence K (a\<lparr>ca_repository := repo, ca_idempotency_key := key\<rparr>)
      (fst new) (snd new) db = Inr (rp, db1)"
    by (auto simp: create_under_def split: sum.splits)
  from create_inv [OF conv_reachable_inv [OF reach] this] have inv1: "conv_inv db1" .
  from keyed_row_kept [OF inv1 later insert_binds_key [OF first key]]
  have bound: "conv_key repo db2 key = Some (identity_in K repo a, i)" .
  have fp: "identity_in K repo a = identity_in K repo b \<longleftrightarrow>
      request_identity (b\<lparr>ca_repository := repo\<rparr>) = request_identity (a\<lparr>ca_repository := repo\<rparr>)"
  proof
    assume "identity_in K repo a = identity_in K repo b"
    then have "sha256 K s = sha256 K t"
      unfolding no_collision(2,3) identity_in_def identity_hash_def canonical_hash_def .
    with no_collision(1) have "s = t" by blast
    then show "request_identity (b\<lparr>ca_repository := repo\<rparr>) = request_identity (a\<lparr>ca_repository := repo\<rparr>)"
      unfolding no_collision(2,3) by (rule canonical_text_inject [symmetric])
  next
    assume "request_identity (b\<lparr>ca_repository := repo\<rparr>) = request_identity (a\<lparr>ca_repository := repo\<rparr>)"
    then show "identity_in K repo a = identity_in K repo b"
      by (simp only: identity_in_def identity_hash_def canonical_hash_def)
  qed
  show ?thesis
  proof (cases "request_identity (b\<lparr>ca_repository := repo\<rparr>) = request_identity (a\<lparr>ca_repository := repo\<rparr>)")
    case True
    with fp bound have "conv_key repo db2 key = Some (identity_in K repo b, i)" by simp
    with True show ?thesis using conv_keys.create_replay [OF key] by simp
  next
    case False
    with conv_keys.create_conflict [OF key bound] fp show ?thesis by simp
  qed
qed

lemma cdemo_under:
  "\<exists>db. create_under cdemo_codec ''o/r'' ''k'' cdemo_args (''c1'', 0, 0) empty_conv_db = Inr (''c1'', db) \<and>
    db \<noteq> empty_conv_db"
proof -
  have args: "cdemo_args\<lparr>ca_repository := ''o/r'', ca_idempotency_key := ''k''\<rparr> = cdemo_args"
    by (simp add: cdemo_args_def)
  from cdemo_create obtain rp where
    run: "create_or_get_convergence cdemo_codec cdemo_args ''c1'' (0, 0) empty_conv_db = Inr (rp, cdemo_created)"
    and rows: "convergences cdemo_created = [cdemo_row]" by blast
  have empty: "keyed_row repo key empty_conv_db = None" "active_row k empty_conv_db = None" for repo key k
    by (simp_all add: keyed_row_def active_row_def empty_conv_db_def)
  from create_cases [OF run] empty have "insert_convergence cdemo_codec cdemo_args ''c1'' (0, 0) empty_conv_db = Inr (rp, cdemo_created)"
    by auto
  then have "cv_id (rp_row rp) = ''c1''"
    by (rule insert_convergence_Inr) (simp add: new_convergence_def)
  moreover have "cdemo_created \<noteq> empty_conv_db"
  proof
    assume "cdemo_created = empty_conv_db"
    then have "convergences cdemo_created = convergences empty_conv_db" by (rule arg_cong)
    also have "\<dots> = []" by (simp add: empty_conv_db_def)
    finally have "convergences cdemo_created = []" .
    with rows show False by simp
  qed
  ultimately show ?thesis using run by (simp add: create_under_def args)
qed

lemma empty_reachable: "conv_reachable K empty_conv_db"
  by (simp add: conv_reachable_def)

lemma convergence_key_names_one_run_witness:
  "\<exists>db e. create_under cdemo_codec ''o/r'' ''k'' (cdemo_args\<lparr>ca_mode := ''fast''\<rparr>) (''c2'', 5, 5) db = Inl e"
proof -
  from cdemo_under obtain db where
    db: "create_under cdemo_codec ''o/r'' ''k'' cdemo_args (''c1'', 0, 0) empty_conv_db = Inr (''c1'', db)"
      "db \<noteq> empty_conv_db" by blast
  have "request_identity ((cdemo_args\<lparr>ca_mode := ''fast''\<rparr>)\<lparr>ca_repository := ''o/r''\<rparr>) \<noteq>
      request_identity (cdemo_args\<lparr>ca_repository := ''o/r''\<rparr>)"
    by (simp add: request_identity_def cdemo_args_def)
  with convergence_key_names_one_run [OF empty_reachable _ db rtranclp.rtrancl_refl _ refl refl,
      of "cdemo_args\<lparr>ca_mode := ''fast''\<rparr>" "(''c2'', 5, 5)"]
  show ?thesis by (auto simp: cdemo_codec_def)
qed

lemma insert_convergence_total:
  assumes inv: "conv_inv db" and fresh: "row_of cv_id cid (convergences db) = None"
  shows "\<exists>rp db'. insert_convergence K a cid clock db = Inr (rp, db') \<and> rp_deduplicated rp = Some False \<and>
    cv_id (rp_row rp) = cid"
proof -
  have "\<not> (\<exists>e \<in> set (conv_events db). ce_convergence_id e = cid \<and> ce_revision e = 0)"
    using no_orphan_events(1) [OF inv fresh] by (auto simp: run_events_def filter_empty_conv)
  then show ?thesis
    using fresh by (auto simp: insert_convergence_def Let_def insert_event_def public_def new_convergence_def)
qed

lemma active_answer:
  assumes "create_or_get_convergence K a cid clock db = Inr (rp, db1)"
    and "rp_dedupe_reason rp = Some ''active_identity''" and "ca_idempotency_key a \<noteq> []"
  shows "db1 = db" "validate_create_identity a" "keyed_row (ca_repository a) (ca_idempotency_key a) db = None"
    "active_row (args_key a) db = Some (rp_row rp)"
proof -
  have ins: "rp_dedupe_reason rp' = None" if "insert_convergence K a cid clock db = Inr (rp', db')" for rp' db'
    using that by (auto simp: insert_convergence_def Let_def public_def split: if_splits sum.splits)
  from assms show "db1 = db" "validate_create_identity a"
    "keyed_row (ca_repository a) (ca_idempotency_key a) db = None"
    "active_row (args_key a) db = Some (rp_row rp)"
    by (auto simp: create_or_get_convergence_def public_def split: if_splits option.splits dest: ins)
qed

text \<open>
  A create that is answered with the active run of its identity does not bind its own
  idempotency key to that run.  Once an update has closed the run, a repetition of the very same
  create starts a second run under a new id.
\<close>

theorem deduplicated_key_stays_free:
  assumes reach: "conv_reachable K db" and key: "ca_idempotency_key a \<noteq> []"
    and first: "create_or_get_convergence K a cid clock db = Inr (rp, db1)"
      "rp_dedupe_reason rp = Some ''active_identity''"
    and later: "exec_conv K x db1 = Inr (rpx, db2)"
      "row_of cv_id (cv_id (rp_row rp)) (convergences db2) = Some r" "cv_terminal r"
    and fresh: "row_of cv_id cid' (convergences db2) = None"
  shows "conv_key (ca_repository a) db1 (ca_idempotency_key a) = None \<and>
    (\<exists>rp' db3. create_or_get_convergence K a cid' clock' db2 = Inr (rp', db3) \<and>
       cv_id (rp_row rp') = cid' \<and> cid' \<noteq> cv_id (rp_row rp) \<and> rp_deduplicated rp' = Some False)"
proof -
  note inv = conv_reachable_inv [OF reach]
  note A = active_answer [OF first key]
  from later(1) A(1) have run: "exec_conv K x db = Inr (rpx, db2)" by simp
  have inv2: "conv_inv db2" by (rule exec_conv_inv [OF inv run])
  from active_row_SomeD [OF A(4)] have act: "rp_row rp \<in> set (convergences db)"
    "active_key (rp_row rp) = args_key a" "\<not> cv_terminal (rp_row rp)" by auto
  have "db2 \<noteq> db" using later(2,3) row_of_distinct [OF conv_invD(1) [OF inv] act(1) refl] act(3) by auto
  with exec_conv_effect [OF conv_invD(1) [OF inv] run] obtain r0 where
    rev: "revised db r0 (rp_row rpx) db2" by blast
  have "active_row (args_key a) db2 = None"
    unfolding active_row_None
  proof (intro ballI impI)
    fix r2 assume r2: "r2 \<in> set (convergences db2)" and k: "active_key r2 = args_key a"
    from revised_old [OF rev r2] obtain y where y: "y \<in> set (convergences db)" "cv_id y = cv_id r2"
      "cv_terminal y \<longrightarrow> cv_terminal r2" "active_key y = active_key r2" by blast
    show "cv_terminal r2"
    proof (rule ccontr)
      assume "\<not> cv_terminal r2"
      with y k act conv_invD(2) [OF inv] have "cv_id r2 = cv_id (rp_row rp)"
        unfolding active_unique_def unique_on_def by metis
      with row_of_distinct [OF conv_invD(1) [OF inv2] r2 refl] later(2,3) \<open>\<not> cv_terminal r2\<close>
      show False by simp
    qed
  qed
  moreover have "keyed_row (ca_repository a) (ca_idempotency_key a) db2 = None"
    unfolding keyed_row_None
  proof
    fix r2 assume "r2 \<in> set (convergences db2)"
    from revised_old [OF rev this] A(3) [unfolded keyed_row_None]
    show "\<not> (cv_repository r2 = ca_repository a \<and> cv_idempotency_key r2 = Some (ca_idempotency_key a))"
      by metis
  qed
  moreover obtain rp' db3 where "insert_convergence K a cid' clock' db2 = Inr (rp', db3)"
    "rp_deduplicated rp' = Some False" "cv_id (rp_row rp') = cid'"
    using insert_convergence_total [OF inv2 fresh] by blast
  moreover have "cid' \<noteq> cv_id (rp_row rp)" using fresh later(2) by auto
  ultimately show ?thesis using A by (auto simp: create_or_get_convergence_def conv_key_def)
qed

lemma deduplicated_key_stays_free_witness:
  "\<exists>rp db rp' db3. create_or_get_convergence cdemo_codec (cdemo_args\<lparr>ca_idempotency_key := ''k2''\<rparr>) ''c2'' (1, 1) cdemo_created =
      Inr (rp, cdemo_created) \<and> cv_id (rp_row rp) = ''c1'' \<and> conv_reachable cdemo_codec db \<and>
    create_or_get_convergence cdemo_codec (cdemo_args\<lparr>ca_idempotency_key := ''k2''\<rparr>) ''c3'' (3, 3) db = Inr (rp', db3) \<and>
    cv_id (rp_row rp') = ''c3''"
proof -
  let ?a = "cdemo_args\<lparr>ca_idempotency_key := ''k2''\<rparr>"
  have rows: "convergences cdemo_created = [cdemo_row]" using cdemo_create by blast
  have valid: "validate_create_identity ?a" using cdemo_valid by (simp add: validate_create_identity_def)
  have row: "cv_idempotency_key cdemo_row = Some ''k''" "active_key cdemo_row = args_key ?a"
    "assert_active_identity cdemo_row ?a" "cv_id cdemo_row = ''c1''"
    by (simp_all add: cdemo_row_def new_convergence_def cdemo_args_def or_none_def active_key_def args_key_def
        assert_active_identity_def)
  let ?rp = "(public cdemo_created cdemo_row)\<lparr>rp_deduplicated := Some True, rp_dedupe_reason := Some ''active_identity''\<rparr>"
  have first: "create_or_get_convergence cdemo_codec ?a ''c2'' (1, 1) cdemo_created = Inr (?rp, cdemo_created)"
    using valid row cdemo_created_row(3)
    by (simp add: create_or_get_convergence_def keyed_row_def rows active_row_def)
  have rp: "cv_id (rp_row ?rp) = ''c1''" using row by (simp add: public_def)
  obtain rpx db where close: "exec_conv cdemo_codec cdemo_close cdemo_created = Inr (rpx, db)"
    and db: "conv_reachable cdemo_codec db" "row_of cv_id ''c1'' (convergences db) = Some (rp_row rpx)"
      "cv_terminal (rp_row rpx)" and ids: "map cv_id (convergences db) = [''c1'']"
    by (rule cdemo_closed)
  have fresh: "row_of cv_id ''c3'' (convergences db) = None"
    using ids by (cases "convergences db") auto
  have key: "ca_idempotency_key ?a \<noteq> []" by simp
  have reason: "rp_dedupe_reason ?rp = Some ''active_identity''" by simp
  have closed: "row_of cv_id (cv_id (rp_row ?rp)) (convergences db) = Some (rp_row rpx)"
    unfolding rp by (rule db(2))
  from deduplicated_key_stays_free [OF cdemo_created_reachable key first reason close closed db(3) fresh, of "(3, 3)"]
  obtain rp' db3 where "create_or_get_convergence cdemo_codec ?a ''c3'' (3, 3) db = Inr (rp', db3)"
    "cv_id (rp_row rp') = ''c3''" by blast
  with first rp db(1) show ?thesis by blast
qed

section \<open>Event metadata\<close>

definition ascii :: "string \<Rightarrow> bool" where
  "ascii s \<longleftrightarrow> list_all (\<lambda>c. (of_char c :: nat) < 128) s"

lemma text_bytes_append [simp]: "text_bytes (s @ t) = text_bytes s + text_bytes t"
  by (simp add: text_bytes_def)

lemma text_bytes_cons: "text_bytes (c # s) = (if (of_char c :: nat) < 128 then 1 else 2) + text_bytes s"
  "text_bytes [] = 0"
  by (simp_all add: text_bytes_def)

lemma text_bytes_ascii: "ascii s \<Longrightarrow> text_bytes s = length s"
  by (induction s) (auto simp: ascii_def text_bytes_def)

lemma hex_char_range:
  assumes "c \<in> set hex_digits"
  shows "48 \<le> (of_char c :: nat) \<and> (of_char c :: nat) \<le> 57 \<or> 97 \<le> (of_char c :: nat) \<and> (of_char c :: nat) \<le> 102"
proof -
  have "list_all (\<lambda>c. 48 \<le> (of_char c :: nat) \<and> (of_char c :: nat) \<le> 57 \<or>
      97 \<le> (of_char c :: nat) \<and> (of_char c :: nat) \<le> 102) hex_digits"
    by (simp add: hex_digits_def)
  with assms show ?thesis by (simp add: list_all_iff)
qed

lemma hex_ascii: "list_all (\<lambda>c. c \<in> set hex_digits) s \<Longrightarrow> ascii s"
  unfolding ascii_def list_all_iff using hex_char_range by force

lemma hex_digit_in: "k < 10 \<Longrightarrow> hex_digits ! k \<in> set hex_digits"
  by (rule nth_mem) (simp add: hex_digits_def)

lemma nat_text_hex: "list_all (\<lambda>c. c \<in> set hex_digits) (nat_text n)"
proof (induction n rule: nat_text.induct)
  case (1 n)
  then show ?case using hex_digit_in [of n] hex_digit_in [of "n mod 10"]
    by (subst nat_text.simps) auto
qed

lemma nat_text_length: "n < 10 ^ k \<Longrightarrow> 0 < k \<Longrightarrow> length (nat_text n) \<le> k"
proof (induction k arbitrary: n)
  case (Suc k)
  show ?case
  proof (cases "n < 10")
    case False
    with Suc.prems have "n div 10 < 10 ^ k" "0 < k" by (auto simp: div_less_iff_less_mult intro: Suc_leI gr0I)
    with Suc.IH [of "n div 10"] False show ?thesis by (subst nat_text.simps) simp
  qed (subst nat_text.simps, simp)
qed simp

lemma escape_hex:
  assumes "c \<in> set hex_digits"
  shows "escape_char c = [c]"
proof -
  have q: "(of_char quote :: nat) = 34" "(of_char backslash :: nat) = 92" "(of_char (CHR 0x0A) :: nat) = 10"
    "(of_char (CHR 0x0D) :: nat) = 13" "(of_char (CHR 0x09) :: nat) = 9" "(of_char (CHR 0x0C) :: nat) = 12"
    "(of_char (CHR 0x08) :: nat) = 8" by simp_all
  note r = hex_char_range [OF assms]
  have "c \<noteq> quote" "c \<noteq> backslash" "c \<noteq> CHR 0x0A" "c \<noteq> CHR 0x0D" "c \<noteq> CHR 0x09" "c \<noteq> CHR 0x0C" "c \<noteq> CHR 0x08"
    using r q by auto
  moreover have "\<not> (of_char c :: nat) < 32" using r by auto
  ultimately show ?thesis by (simp add: escape_char_def)
qed

lemma json_quoted_hex: "list_all (\<lambda>c. c \<in> set hex_digits) s \<Longrightarrow> json_quoted s = quote # s @ [quote]"
  by (induction s) (auto simp: json_quoted_def escape_hex)

text \<open>
  The metadata stored with an event is the metadata itself when its text has at most 8192
  bytes, and otherwise a marker with its size and SHA-256; in both cases the stored text has at most
  8192 bytes (for metadata shorter than \<open>10 ^ 1000\<close> bytes, and a digest of 64 hexadecimal digits).
\<close>

theorem event_metadata_bounded:
  assumes "insert_event K cid rv ty f t meta now db = Inr db'"
    and "enc = json_text (float_text K) (JObj meta)"
    and "is_sha256 (sha256 K enc)" and "text_bytes enc < 10 ^ 1000"
  shows "\<exists>e. conv_events db' = conv_events db @ [e] \<and>
    text_bytes (json_text (float_text K) (ce_metadata e)) \<le> 8192 \<and>
    (ce_metadata e = JObj meta \<longleftrightarrow> text_bytes enc \<le> 8192)"
proof -
  let ?h = "sha256 K enc" and ?n = "nat_text (text_bytes enc)"
  from assms(1) obtain e where e: "conv_events db' = conv_events db @ [e]" "ce_metadata e = bounded_metadata K meta"
    by (auto simp: insert_event_def split: if_splits)
  have b: "bounded_metadata K meta = (if text_bytes enc \<le> metadata_limit then JObj meta
      else JObj [(''truncated'', JBool True), (''size_bytes'', JInt (int (text_bytes enc))), (''sha256'', JStr ?h)])"
    by (simp add: bounded_metadata_def Let_def assms(2))
  have h: "json_quoted ?h = quote # ?h @ [quote]" "length ?h = 64" "ascii ?h"
    using assms(3) json_quoted_hex [of ?h] hex_ascii [of ?h] by (simp_all add: is_sha256_def)
  have names: "text_bytes (json_quoted ''truncated'') = 11" "text_bytes (json_quoted ''size_bytes'') = 12"
    "text_bytes (json_quoted ''sha256'') = 8"
    by (simp_all add: json_quoted_def escape_char_def text_bytes_def)
  have n: "int_text (int (text_bytes enc)) = ?n" by (simp add: int_text_def)
  have "text_bytes ?n \<le> 1000"
    using nat_text_length [OF assms(4)] text_bytes_ascii [OF hex_ascii [OF nat_text_hex]] by simp
  moreover have "text_bytes (json_quoted ?h) = 66"
    using h(2) text_bytes_ascii [OF h(3)] by (simp add: h(1) text_bytes_def)
  ultimately have marker: "text_bytes (json_text (float_text K) (JObj [(''truncated'', JBool True),
      (''size_bytes'', JInt (int (text_bytes enc))), (''sha256'', JStr ?h)])) \<le> 8192"
    using names n by (simp add: text_bytes_cons)
  show ?thesis
  proof (cases "text_bytes enc \<le> metadata_limit")
    case True
    with e b assms(2) show ?thesis by (simp add: metadata_limit_def)
  next
    case False
    have "JObj [(''truncated'', JBool True), (''size_bytes'', JInt (int (text_bytes enc))), (''sha256'', JStr ?h)] \<noteq> JObj meta"
    proof
      assume eq: "JObj [(''truncated'', JBool True), (''size_bytes'', JInt (int (text_bytes enc))), (''sha256'', JStr ?h)] = JObj meta"
      from marker have "text_bytes enc \<le> 8192" unfolding eq assms(2) [symmetric] .
      with False [unfolded metadata_limit_def] show False by (rule notE)
    qed
    with False e b marker show ?thesis by (simp add: metadata_limit_def)
  qed
qed

lemma event_metadata_bounded_witness:
  "\<exists>db e. insert_event \<lparr>sha256 = (\<lambda>_. replicate 64 CHR ''0''), float_text = (\<lambda>_. [])\<rparr> ''c1'' 0 ''t'' None (''p'', ''s'')
      [(''k'', JInt 1)] 0 empty_conv_db = Inr db \<and> conv_events db = [e] \<and> ce_metadata e = JObj [(''k'', JInt 1)]"
proof -
  let ?K = "\<lparr>sha256 = (\<lambda>_. replicate 64 CHR ''0''), float_text = (\<lambda>_. [])\<rparr> :: codec"
  let ?enc = "json_text (float_text ?K) (JObj [(''k'', JInt 1)])"
  have enc: "text_bytes ?enc = 7"
    by (simp add: json_quoted_def escape_char_def int_text_def nat_text.simps hex_digits_def text_bytes_def)
  obtain db where ins: "insert_event ?K ''c1'' 0 ''t'' None (''p'', ''s'') [(''k'', JInt 1)] 0 empty_conv_db = Inr db"
    by (simp add: insert_event_def empty_conv_db_def)
  have small: "(7 :: nat) < 10 ^ 1000" by (rule less_le_trans [of _ "10 ^ 1"]) (simp, rule power_increasing, simp_all)
  have "is_sha256 (sha256 ?K ?enc)" by (simp add: is_sha256_def hex_digits_def list_all_iff)
  moreover have "text_bytes ?enc < 10 ^ 1000" unfolding enc by (rule small)
  moreover have "text_bytes ?enc \<le> 8192" unfolding enc by simp
  ultimately obtain e where
    "conv_events db = conv_events empty_conv_db @ [e]" "ce_metadata e = JObj [(''k'', JInt 1)]"
    using event_metadata_bounded [OF ins refl] by blast
  with ins show ?thesis by (auto simp: empty_conv_db_def)
qed

text \<open>
  The convergence history of a session lists at most 100 runs, each of the asked repository,
  branch, session, base and modes, the latest update first; unknown modes and an empty list of modes
  are refused.
\<close>

theorem session_history_listed:
  "case list_convergences_for_session repo branch session base_branch base_sha modes limit db of
    Inl e \<Rightarrow> e = ConvValueError \<and> (modes = [] \<or> \<not> set modes \<subseteq> set valid_modes)
  | Inr rs \<Rightarrow> modes \<noteq> [] \<and> set modes \<subseteq> set valid_modes \<and> length rs \<le> 100 \<and>
      sorted (map (\<lambda>p. - cv_updated_at (rp_row p)) rs) \<and>
      (\<forall>p \<in> set rs. rp_row p \<in> set (convergences db) \<and> cv_repository (rp_row p) = repo \<and>
         cv_branch (rp_row p) = branch \<and> cv_session_id (rp_row p) = session \<and>
         cv_base_branch (rp_row p) = base_branch \<and> cv_base_sha (rp_row p) = base_sha \<and>
         cv_mode (rp_row p) \<in> set modes)"
proof -
  let ?key = "\<lambda>r. (- cv_updated_at r, - cv_created_at r)"
  have ms: "set (first_occurrences modes) = set modes" "first_occurrences modes = [] \<longleftrightarrow> modes = []"
    by (auto simp: first_occurrences_def)
  have sorted: "sorted (map (\<lambda>r. - cv_updated_at r) (sort_key ?key t))" for t :: "convergence list"
    using sorted_sort_key [of ?key t] unfolding sorted_map
    by (rule sorted_wrt_mono_rel [rotated]) auto
  show ?thesis
  proof (cases "modes = [] \<or> \<not> set modes \<subseteq> set valid_modes")
    case True
    then have "list_convergences_for_session repo branch session base_branch base_sha modes limit db = Inl ConvValueError"
      by (auto simp: list_convergences_for_session_def Let_def ms list_ex_iff)
    with True show ?thesis by simp
  next
    case False
    let ?n = "nat (max 1 (min (if limit = 0 then 50 else limit) 100))"
    let ?P = "\<lambda>r. cv_repository r = repo \<and> cv_branch r = branch \<and> cv_session_id r = session \<and>
      cv_base_branch r = base_branch \<and> cv_base_sha r = base_sha \<and> cv_mode r \<in> set modes"
    let ?t = "take ?n (sort_key ?key (filter ?P (convergences db)))"
    have run: "list_convergences_for_session repo branch session base_branch base_sha modes limit db = Inr (map (public db) ?t)"
      using False by (auto simp: list_convergences_for_session_def Let_def ms list_ex_iff)
    define rs where "rs = map (public db) ?t"
    have "length rs \<le> 100" by (simp add: rs_def)
    moreover have "sorted (map (\<lambda>p. - cv_updated_at (rp_row p)) rs)"
      using sorted [of "filter ?P (convergences db)"]
      by (simp add: rs_def public_def comp_def take_map [symmetric] sorted_wrt_take)
    moreover have "rp_row p \<in> set (convergences db) \<and> ?P (rp_row p)" if "p \<in> set rs" for p
    proof -
      from that obtain r where r: "r \<in> set ?t" "p = public db r" unfolding rs_def by auto
      from in_set_takeD [OF r(1)] r(2) show ?thesis by (simp add: public_def)
    qed
    ultimately show ?thesis using False unfolding run rs_def [symmetric] sum.case by blast
  qed
qed

lemma session_history_listed_witness:
  "\<exists>rs. list_convergences_for_session ''o/r'' ''b'' ''s'' ''m'' cdemo_sha [''full''] 0 cdemo_created = Inr rs \<and>
    length rs \<le> 100"
  using session_history_listed [where repo = "''o/r''" and branch = "''b''" and session = "''s''" and
      base_branch = "''m''" and base_sha = cdemo_sha and modes = "[''full'']" and limit = 0 and db = cdemo_created]
  by (cases "list_convergences_for_session ''o/r'' ''b'' ''s'' ''m'' cdemo_sha [''full''] 0 cdemo_created")
    (auto simp: valid_modes_def)

end
