(* ===== verification/Idempotency.thy ===== *)
theory Idempotency
  imports Json_Text Interfaces
begin

text \<open>
  \<open>app/idempotency.py\<close>: the HTTP middleware that answers a repeated request from its store.  A
  request with an \<open>Idempotency-Key\<close> claims the key by inserting a running row, its handler runs,
  and its response completes the row or releases the claim.  All requests share one SQLite
  connection: \<open>saved\<close> is what was committed, \<open>working\<close> what the connection sees.
\<close>

record idem_row =
  ik_key :: string
  ik_hash :: string
  ik_status :: int
  ik_response :: string
  ik_state :: string
  ik_created :: time

record http_request =
  hq_method :: string
  hq_path :: string
  hq_key :: string
  hq_body :: string

record reply =
  rs_status :: int
  rs_body :: string

record connection =
  saved :: "idem_row list"
  working :: "idem_row list"

record middleware =
  mw_conn :: connection
  mw_last_cleanup :: time

definition idempotency_methods :: "string list" where
  "idempotency_methods = [''POST'', ''PUT'', ''PATCH'', ''DELETE'']"

definition max_key_length :: nat where
  "max_key_length = 256"

definition reserved_chars :: "nat list" where
  "reserved_chars = [0x00, 0x0A, 0x0D]"

definition validate_idempotency_key :: "string \<Rightarrow> bool" where
  "validate_idempotency_key key \<longleftrightarrow> key \<noteq> [] \<and> length key \<le> max_key_length \<and>
     list_all (\<lambda>c. (of_char c :: nat) \<notin> set reserved_chars) key"

definition request_hash :: "codec \<Rightarrow> http_request \<Rightarrow> string" where
  "request_hash K q = sha256 K (hq_method q @ '':'' @ hq_path q @ '':'' @ hq_body q)"

section \<open>Statements on the shared connection\<close>

text \<open>\<open>None\<close> is the integrity error of the primary key.\<close>

definition conn_insert :: "idem_row \<Rightarrow> connection \<Rightarrow> connection option" where
  "conn_insert r c =
     (if row_of ik_key (ik_key r) (working c) \<noteq> None then None
      else Some (c\<lparr>working := working c @ [r]\<rparr>))"

definition conn_commit :: "connection \<Rightarrow> connection" where
  "conn_commit c = c\<lparr>saved := working c\<rparr>"

definition conn_rollback :: "connection \<Rightarrow> connection" where
  "conn_rollback c = c\<lparr>working := saved c\<rparr>"

definition conn_delete :: "(idem_row \<Rightarrow> bool) \<Rightarrow> connection \<Rightarrow> connection" where
  "conn_delete P c = c\<lparr>working := filter (\<lambda>r. \<not> P r) (working c)\<rparr>"

definition conn_update :: "(idem_row \<Rightarrow> bool) \<Rightarrow> (idem_row \<Rightarrow> idem_row) \<Rightarrow> connection \<Rightarrow> connection" where
  "conn_update P f c = c\<lparr>working := update_where P f (working c)\<rparr>"

section \<open>The statements of the middleware\<close>

text \<open>\<open>ttl\<close> is \<open>IDEMPOTENCY_TTL_HOURS * 3600\<close>; a clean-up deletes what was created before its cut-off.\<close>

definition delete_expired :: "time \<Rightarrow> connection \<Rightarrow> connection" where
  "delete_expired cutoff c = conn_delete (\<lambda>r. ik_created r < cutoff) c"

definition cleanup_due :: "time \<Rightarrow> middleware \<Rightarrow> bool" where
  "cleanup_due now m \<longleftrightarrow> \<not> now - mw_last_cleanup m < 3600"

definition running_row :: "codec \<Rightarrow> http_request \<Rightarrow> time \<Rightarrow> idem_row" where
  "running_row K q now = \<lparr>ik_key = hq_key q, ik_hash = request_hash K q, ik_status = 0, ik_response = [],
     ik_state = ''running'', ik_created = now\<rparr>"

definition own_running :: "codec \<Rightarrow> http_request \<Rightarrow> idem_row \<Rightarrow> bool" where
  "own_running K q r \<longleftrightarrow> ik_key r = hq_key q \<and> ik_hash r = request_hash K q \<and> ik_state r = ''running''"

definition delete_claim :: "codec \<Rightarrow> http_request \<Rightarrow> connection \<Rightarrow> connection" where
  "delete_claim K q c = conn_delete (own_running K q) c"

definition complete_claim :: "codec \<Rightarrow> http_request \<Rightarrow> reply \<Rightarrow> connection \<Rightarrow> connection" where
  "complete_claim K q p c = conn_update (own_running K q)
     (\<lambda>r. r\<lparr>ik_status := rs_status p, ik_response := rs_body p, ik_state := ''completed''\<rparr>) c"

definition error_reply :: "int \<Rightarrow> string \<Rightarrow> string \<Rightarrow> reply" where
  "error_reply code err msg = \<lparr>rs_status = code,
     rs_body = json_text (\<lambda>_. []) (JObj [(''error'', JStr err), (''message'', JStr msg)])\<rparr>"

text \<open>The answer to a request whose key was taken, from the row that is read then.\<close>

definition stored_answer :: "codec \<Rightarrow> http_request \<Rightarrow> idem_row option \<Rightarrow> reply" where
  "stored_answer K q row =
     (case row of
        None \<Rightarrow> error_reply 409 ''idempotency_unavailable'' ''Idempotency state changed; retry the request''
      | Some r \<Rightarrow>
          if ik_hash r \<noteq> request_hash K q then
            error_reply 422 ''idempotency_key_reuse'' ''Idempotency-Key reused with different request content''
          else if ik_state r = ''running'' then
            error_reply 409 ''idempotency_in_progress'' ''A request with this Idempotency-Key is still running''
          else \<lparr>rs_status = ik_status r, rs_body = ik_response r\<rparr>)"

text \<open>A response is kept when it is no failure of the server.\<close>

definition keeps_response :: "reply \<Rightarrow> bool" where
  "keeps_response p \<longleftrightarrow> 200 \<le> rs_status p \<and> rs_status p < 500"

section \<open>One request with nothing in between\<close>

definition cleanup_if_due :: "time \<Rightarrow> time \<Rightarrow> middleware \<Rightarrow> middleware" where
  "cleanup_if_due ttl now m =
     (if \<not> cleanup_due now m then m
      else m\<lparr>mw_conn := conn_commit (delete_expired (now - ttl) (mw_conn m)), mw_last_cleanup := now\<rparr>)"

definition cleanup :: "time \<Rightarrow> time \<Rightarrow> middleware \<Rightarrow> middleware" where
  "cleanup ttl now m = m\<lparr>mw_conn := conn_commit (delete_expired (now - ttl) (mw_conn m))\<rparr>"

definition release_claim :: "codec \<Rightarrow> http_request \<Rightarrow> middleware \<Rightarrow> middleware" where
  "release_claim K q m = m\<lparr>mw_conn := conn_commit (delete_claim K q (mw_conn m))\<rparr>"

text \<open>What happens before the handler: it is called without a claim, answered, or claimed.\<close>

datatype decision = PassThrough | Reply reply | Claimed

definition dispatch_claim ::
  "codec \<Rightarrow> time \<Rightarrow> http_request \<Rightarrow> time \<Rightarrow> middleware \<Rightarrow> decision \<times> middleware" where
  "dispatch_claim K ttl q now m =
     (if hq_method q \<notin> set idempotency_methods then (PassThrough, m)
      else if hq_key q = [] then (PassThrough, m)
      else if \<not> validate_idempotency_key (hq_key q) then
        (Reply (error_reply 400 ''invalid_idempotency_key'' ''Invalid Idempotency-Key header''), m)
      else let m1 = cleanup_if_due ttl now m
      in (case conn_insert (running_row K q now) (mw_conn m1) of
           Some c \<Rightarrow> (Claimed, m1\<lparr>mw_conn := conn_commit c\<rparr>)
         | None \<Rightarrow>
             let m2 = m1\<lparr>mw_conn := conn_rollback (mw_conn m1)\<rparr>
             in (Reply (stored_answer K q (row_of ik_key (hq_key q) (working (mw_conn m2)))), m2)))"

text \<open>What happens after the handler: \<open>None\<close> is an exception.\<close>

definition dispatch_finish :: "codec \<Rightarrow> http_request \<Rightarrow> reply option \<Rightarrow> middleware \<Rightarrow> middleware" where
  "dispatch_finish K q res m =
     (case res of
        None \<Rightarrow> release_claim K q m
      | Some p \<Rightarrow>
          if keeps_response p then m\<lparr>mw_conn := conn_commit (complete_claim K q p (mw_conn m))\<rparr>
          else release_claim K q m)"

text \<open>One request from claim to answer; \<open>app\<close> is the wrapped application.\<close>

definition dispatch ::
  "codec \<Rightarrow> time \<Rightarrow> (http_request \<Rightarrow> 'w \<Rightarrow> reply option \<times> 'w) \<Rightarrow> http_request \<Rightarrow> time \<Rightarrow>
     middleware \<times> 'w \<Rightarrow> reply option \<times> middleware \<times> 'w" where
  "dispatch K ttl app q now s =
     (case dispatch_claim K ttl q now (fst s) of
        (PassThrough, m) \<Rightarrow> (case app q (snd s) of (res, w) \<Rightarrow> (res, m, w))
      | (Reply p, m) \<Rightarrow> (Some p, m, snd s)
      | (Claimed, m) \<Rightarrow> (case app q (snd s) of (res, w) \<Rightarrow> (res, dispatch_finish K q res m, w)))"

section \<open>Interleaved requests\<close>

text \<open>
  Every statement on the connection is awaited, so statements of other requests run between the
  insert of a claim and its commit, between a failed insert and its rollback, and so on.  A flight
  is a request under way with the time it read and the statement it stands before; flights stay in
  the list when they end.  \<open>fl_undone\<close> records that a rollback ran between the insert of the
  flight and its commit.
\<close>

datatype phase =
    Arrived | Swept | Ready | Inserted | Refused | RolledBack | Running
  | Updated reply | Deleted | Kept reply | Released | Answered reply

record flight =
  fl_request :: http_request
  fl_now :: time
  fl_phase :: phase
  fl_undone :: bool

text \<open>\<open>sys_cleanups\<close> counts the calls of \<open>cleanup\<close> between their delete and their commit.\<close>

record idem_sys =
  sys_mw :: middleware
  sys_flights :: "flight list"
  sys_cleanups :: nat
  sys_clock :: time

definition idem_start :: idem_sys where
  "idem_start = \<lparr>sys_mw = \<lparr>mw_conn = \<lparr>saved = [], working = []\<rparr>, mw_last_cleanup = 0\<rparr>,
     sys_flights = [], sys_cleanups = 0, sys_clock = 0\<rparr>"

definition keyed :: "http_request \<Rightarrow> bool" where
  "keyed q \<longleftrightarrow> hq_method q \<in> set idempotency_methods \<and> validate_idempotency_key (hq_key q)"

definition ended :: "flight \<Rightarrow> bool" where
  "ended f \<longleftrightarrow> (case fl_phase f of Kept p \<Rightarrow> True | Released \<Rightarrow> True | Answered p \<Rightarrow> True | _ \<Rightarrow> False)"

text \<open>No request takes longer than the time to live.\<close>

definition in_time :: "time \<Rightarrow> time \<Rightarrow> idem_sys \<Rightarrow> bool" where
  "in_time ttl now s \<longleftrightarrow> sys_clock s \<le> now \<and> (\<forall>f \<in> set (sys_flights s). \<not> ended f \<longrightarrow> now \<le> fl_now f + ttl)"

definition new_flight :: "http_request \<Rightarrow> idem_sys \<Rightarrow> flight" where
  "new_flight q s = \<lparr>fl_request = q, fl_now = sys_clock s,
     fl_phase = (if cleanup_due (sys_clock s) (sys_mw s) then Arrived else Ready), fl_undone = False\<rparr>"

definition at_phase :: "nat \<Rightarrow> phase \<Rightarrow> idem_sys \<Rightarrow> flight \<Rightarrow> bool" where
  "at_phase i p s f \<longleftrightarrow> i < length (sys_flights s) \<and> sys_flights s ! i = f \<and> fl_phase f = p"

text \<open>Flight \<open>i\<close> executes a statement that leaves the connection \<open>c\<close> and goes to phase \<open>p\<close>.\<close>

definition advance :: "nat \<Rightarrow> phase \<Rightarrow> connection \<Rightarrow> idem_sys \<Rightarrow> idem_sys" where
  "advance i p c s = s\<lparr>sys_mw := (sys_mw s)\<lparr>mw_conn := c\<rparr>,
     sys_flights := (sys_flights s)[i := (sys_flights s ! i)\<lparr>fl_phase := p\<rparr>]\<rparr>"

definition mark_undone :: "flight \<Rightarrow> flight" where
  "mark_undone f = (if fl_phase f = Inserted then f\<lparr>fl_undone := True\<rparr> else f)"

abbreviation conn_of :: "idem_sys \<Rightarrow> connection" where
  "conn_of s \<equiv> mw_conn (sys_mw s)"

inductive idem_step :: "codec \<Rightarrow> time \<Rightarrow> idem_sys \<Rightarrow> idem_sys \<Rightarrow> bool" for K ttl where
  tick: "in_time ttl now s \<Longrightarrow> idem_step K ttl s (s\<lparr>sys_clock := now\<rparr>)"
| arrive: "keyed q \<Longrightarrow> idem_step K ttl s (s\<lparr>sys_flights := sys_flights s @ [new_flight q s]\<rparr>)"
| sweep: "at_phase i Arrived s f \<Longrightarrow>
    idem_step K ttl s (advance i Swept (delete_expired (fl_now f - ttl) (conn_of s)) s)"
| sweep_commit: "at_phase i Swept s f \<Longrightarrow> s1 = advance i Ready (conn_commit (conn_of s)) s \<Longrightarrow>
    idem_step K ttl s (s1\<lparr>sys_mw := (sys_mw s1)\<lparr>mw_last_cleanup := fl_now f\<rparr>\<rparr>)"
| insert: "at_phase i Ready s f \<Longrightarrow> conn_insert (running_row K (fl_request f) (fl_now f)) (conn_of s) = Some c \<Longrightarrow>
    idem_step K ttl s (advance i Inserted c s)"
| refuse: "at_phase i Ready s f \<Longrightarrow> conn_insert (running_row K (fl_request f) (fl_now f)) (conn_of s) = None \<Longrightarrow>
    idem_step K ttl s (advance i Refused (conn_of s) s)"
| commit: "at_phase i Inserted s f \<Longrightarrow> idem_step K ttl s (advance i Running (conn_commit (conn_of s)) s)"
| rollback: "at_phase i Refused s f \<Longrightarrow>
    idem_step K ttl s (advance i RolledBack (conn_rollback (conn_of s))
      (s\<lparr>sys_flights := map mark_undone (sys_flights s)\<rparr>))"
| answer: "at_phase i RolledBack s f \<Longrightarrow>
    p = stored_answer K (fl_request f) (row_of ik_key (hq_key (fl_request f)) (working (conn_of s))) \<Longrightarrow>
    idem_step K ttl s (advance i (Answered p) (conn_of s) s)"
| complete: "at_phase i Running s f \<Longrightarrow> keeps_response p \<Longrightarrow>
    idem_step K ttl s (advance i (Updated p) (complete_claim K (fl_request f) p (conn_of s)) s)"
| fail: "at_phase i Running s f \<Longrightarrow>
    idem_step K ttl s (advance i Deleted (delete_claim K (fl_request f) (conn_of s)) s)"
| keep: "at_phase i (Updated p) s f \<Longrightarrow> idem_step K ttl s (advance i (Kept p) (conn_commit (conn_of s)) s)"
| release: "at_phase i Deleted s f \<Longrightarrow> idem_step K ttl s (advance i Released (conn_commit (conn_of s)) s)"
| clean: "cutoff \<le> sys_clock s - ttl \<Longrightarrow>
    idem_step K ttl s (s\<lparr>sys_mw := (sys_mw s)\<lparr>mw_conn := delete_expired cutoff (conn_of s)\<rparr>,
      sys_cleanups := Suc (sys_cleanups s)\<rparr>)"
| clean_commit: "sys_cleanups s = Suc n \<Longrightarrow>
    idem_step K ttl s (s\<lparr>sys_mw := (sys_mw s)\<lparr>mw_conn := conn_commit (conn_of s)\<rparr>, sys_cleanups := n\<rparr>)"

definition idem_reachable :: "codec \<Rightarrow> time \<Rightarrow> idem_sys \<Rightarrow> bool" where
  "idem_reachable K ttl s \<longleftrightarrow> (idem_step K ttl)\<^sup>*\<^sup>* idem_start s"

end
