(* ===== verification/Idempotency_Invariant.thy ===== *)
theory Idempotency_Invariant
  imports Idempotency
begin

text \<open>
  What holds between the statements of the middleware: as long as no rollback fell into a claim of
  a key, the flights that hold this key have their row in the table and exclude each other.
\<close>

lemmas conn_defs = conn_commit_def conn_rollback_def conn_delete_def conn_update_def
  delete_expired_def delete_claim_def complete_claim_def

lemma running_row_simps [simp]:
  "ik_key (running_row K q c) = hq_key q" "ik_hash (running_row K q c) = request_hash K q"
  "ik_state (running_row K q c) = ''running''" "ik_created (running_row K q c) = c"
  by (simp_all add: running_row_def)

lemma distinct_filter_map: "distinct (map f xs) \<Longrightarrow> distinct (map f (filter P xs))"
  by (induction xs) auto

section \<open>Holding a key\<close>

abbreviation flight_key :: "flight \<Rightarrow> string" where
  "flight_key f \<equiv> hq_key (fl_request f)"

text \<open>A flight that inserted its claim and has not given it up.\<close>

definition claimed :: "flight \<Rightarrow> bool" where
  "claimed f \<longleftrightarrow> (case fl_phase f of Inserted \<Rightarrow> True | Running \<Rightarrow> True | Updated p \<Rightarrow> True | Kept p \<Rightarrow> True | _ \<Rightarrow> False)"

definition in_force :: "time \<Rightarrow> time \<Rightarrow> flight \<Rightarrow> bool" where
  "in_force ttl clock f \<longleftrightarrow> claimed f \<and> clock \<le> fl_now f + ttl"

definition has_row :: "codec \<Rightarrow> flight \<Rightarrow> idem_row list \<Rightarrow> bool" where
  "has_row K f t \<longleftrightarrow>
     (if fl_phase f = Inserted \<or> fl_phase f = Running then running_row K (fl_request f) (fl_now f) \<in> set t
      else \<exists>r \<in> set t. ik_key r = flight_key f \<and> ik_created r = fl_now f)"

definition untouched :: "string \<Rightarrow> flight list \<Rightarrow> bool" where
  "untouched k fs \<longleftrightarrow> (\<forall>f \<in> set fs. flight_key f = k \<longrightarrow> \<not> fl_undone f)"

definition key_ok :: "codec \<Rightarrow> time \<Rightarrow> time \<Rightarrow> string \<Rightarrow> flight list \<Rightarrow> idem_row list \<Rightarrow> idem_row list \<Rightarrow> bool" where
  "key_ok K ttl clock k fs w sv \<longleftrightarrow>
     (\<forall>i < length fs. flight_key (fs ! i) = k \<and> in_force ttl clock (fs ! i) \<longrightarrow>
        has_row K (fs ! i) w \<and> (fl_phase (fs ! i) \<noteq> Inserted \<longrightarrow> has_row K (fs ! i) sv)) \<and>
     (\<forall>i < length fs. \<forall>j < length fs. i \<noteq> j \<and> flight_key (fs ! i) = k \<and> flight_key (fs ! j) = k \<longrightarrow>
        \<not> (in_force ttl clock (fs ! i) \<and> in_force ttl clock (fs ! j)))"

lemma key_okD:
  assumes "key_ok K ttl clock k fs w sv" and "i < length fs" and "flight_key (fs ! i) = k"
    and "in_force ttl clock (fs ! i)"
  shows "has_row K (fs ! i) w" and "fl_phase (fs ! i) \<noteq> Inserted \<Longrightarrow> has_row K (fs ! i) sv"
    and "j < length fs \<Longrightarrow> j \<noteq> i \<Longrightarrow> flight_key (fs ! j) = k \<Longrightarrow> \<not> in_force ttl clock (fs ! j)"
  using assms unfolding key_ok_def by blast+

lemma has_row_key: "has_row K f t \<Longrightarrow> flight_key f \<in> ik_key ` set t"
  by (force simp: has_row_def image_iff split: if_splits)

text \<open>Changing the tables and flight \<open>i\<close> keeps the order of a key.\<close>

lemma key_ok_move:
  assumes ok: "key_ok K ttl clock k fs w sv" and i: "i < length fs"
    and key: "flight_key f' = flight_key (fs ! i)"
    and excl: "in_force ttl clock f' \<Longrightarrow> flight_key f' = k \<Longrightarrow> in_force ttl clock (fs ! i) \<or>
      (\<forall>j < length fs. flight_key (fs ! j) = k \<longrightarrow> \<not> in_force ttl clock (fs ! j))"
    and other: "\<And>j. j < length fs \<Longrightarrow> j \<noteq> i \<Longrightarrow> flight_key (fs ! j) = k \<Longrightarrow> in_force ttl clock (fs ! j) \<Longrightarrow>
      has_row K (fs ! j) w' \<and> (fl_phase (fs ! j) \<noteq> Inserted \<longrightarrow> has_row K (fs ! j) sv')"
    and self: "in_force ttl clock f' \<Longrightarrow> flight_key f' = k \<Longrightarrow>
      has_row K f' w' \<and> (fl_phase f' \<noteq> Inserted \<longrightarrow> has_row K f' sv')"
  shows "key_ok K ttl clock k (fs[i := f']) w' sv'"
  unfolding key_ok_def
proof (intro conjI allI impI)
  fix a assume "a < length (fs[i := f'])" "flight_key (fs[i := f'] ! a) = k \<and> in_force ttl clock (fs[i := f'] ! a)"
  then show "has_row K (fs[i := f'] ! a) w'" "fl_phase (fs[i := f'] ! a) \<noteq> Inserted \<Longrightarrow> has_row K (fs[i := f'] ! a) sv'"
    using other [of a] self i by (cases "a = i"; simp)+
next
  fix a b assume ab: "a < length (fs[i := f'])" "b < length (fs[i := f'])"
    "a \<noteq> b \<and> flight_key (fs[i := f'] ! a) = k \<and> flight_key (fs[i := f'] ! b) = k"
  have *: "\<not> in_force ttl clock (fs ! j)" if "j < length fs" "j \<noteq> i" "flight_key (fs ! j) = k"
      "in_force ttl clock f'" "flight_key f' = k" for j
    using excl [OF that(4,5)] key_okD(3) [OF ok i _ _ that(1,2,3)] that key by auto
  show "\<not> (in_force ttl clock (fs[i := f'] ! a) \<and> in_force ttl clock (fs[i := f'] ! b))"
  proof (cases "a = i")
    case True
    with ab i * [of b] show ?thesis by auto
  next
    case False
    show ?thesis
    proof (cases "b = i")
      case True
      with ab i False * [of a] show ?thesis by auto
    next
      case F: False
      have "in_force ttl clock (fs ! a) \<Longrightarrow> \<not> in_force ttl clock (fs ! b)"
        by (rule key_okD(3) [OF ok, where i = a and j = b]) (use ab False F in auto)
      with False F show ?thesis by simp
    qed
  qed
qed

text \<open>The tables alone.\<close>

lemma key_ok_tables:
  assumes ok: "key_ok K ttl clock k fs w sv"
    and rows: "\<And>f. f \<in> set fs \<Longrightarrow> flight_key f = k \<Longrightarrow> in_force ttl clock f \<Longrightarrow> has_row K f w \<Longrightarrow>
      (fl_phase f \<noteq> Inserted \<Longrightarrow> has_row K f sv) \<Longrightarrow> has_row K f w' \<and> (fl_phase f \<noteq> Inserted \<longrightarrow> has_row K f sv')"
  shows "key_ok K ttl clock k fs w' sv'"
  using ok rows unfolding key_ok_def by (metis nth_mem)

section \<open>The invariant\<close>

definition idem_inv :: "codec \<Rightarrow> time \<Rightarrow> idem_sys \<Rightarrow> bool" where
  "idem_inv K ttl s \<longleftrightarrow> 0 \<le> ttl \<longrightarrow>
     distinct (map ik_key (working (conn_of s))) \<and> distinct (map ik_key (saved (conn_of s))) \<and>
     (\<forall>f \<in> set (sys_flights s). fl_now f \<le> sys_clock s \<and> (\<not> ended f \<longrightarrow> sys_clock s \<le> fl_now f + ttl)) \<and>
     (\<forall>k. untouched k (sys_flights s) \<longrightarrow>
        key_ok K ttl (sys_clock s) k (sys_flights s) (working (conn_of s)) (saved (conn_of s)))"

lemma idem_invD:
  assumes "idem_inv K ttl s" and "0 \<le> ttl"
  shows "distinct (map ik_key (working (conn_of s)))" "distinct (map ik_key (saved (conn_of s)))"
    "f \<in> set (sys_flights s) \<Longrightarrow> fl_now f \<le> sys_clock s"
    "f \<in> set (sys_flights s) \<Longrightarrow> \<not> ended f \<Longrightarrow> sys_clock s \<le> fl_now f + ttl"
    "untouched k (sys_flights s) \<Longrightarrow>
       key_ok K ttl (sys_clock s) k (sys_flights s) (working (conn_of s)) (saved (conn_of s))"
  using assms by (simp_all add: idem_inv_def)

lemma idem_invI:
  assumes "0 \<le> ttl \<Longrightarrow> distinct (map ik_key (working (conn_of s)))" "0 \<le> ttl \<Longrightarrow> distinct (map ik_key (saved (conn_of s)))"
    and "\<And>f. 0 \<le> ttl \<Longrightarrow> f \<in> set (sys_flights s) \<Longrightarrow> fl_now f \<le> sys_clock s"
    and "\<And>f. 0 \<le> ttl \<Longrightarrow> f \<in> set (sys_flights s) \<Longrightarrow> \<not> ended f \<Longrightarrow> sys_clock s \<le> fl_now f + ttl"
    and "\<And>k. 0 \<le> ttl \<Longrightarrow> untouched k (sys_flights s) \<Longrightarrow>
       key_ok K ttl (sys_clock s) k (sys_flights s) (working (conn_of s)) (saved (conn_of s))"
  shows "idem_inv K ttl s"
  using assms by (simp add: idem_inv_def)

lemma idem_inv_start: "idem_inv K ttl idem_start"
  by (simp add: idem_inv_def idem_start_def key_ok_def)

lemma untouched_update:
  assumes "i < length fs"
  shows "untouched k (fs[i := (fs ! i)\<lparr>fl_phase := p\<rparr>]) = untouched k fs"
  using assms unfolding untouched_def all_set_conv_all_nth by (auto simp: nth_list_update split: if_splits)

section \<open>Every statement keeps it\<close>

lemma advance_inv:
  assumes inv: "idem_inv K ttl s" and at: "at_phase i q s f" and q: "\<not> ended f"
    and dist: "0 \<le> ttl \<Longrightarrow> distinct (map ik_key (working c)) \<and> distinct (map ik_key (saved c))"
    and keys: "\<And>k. 0 \<le> ttl \<Longrightarrow> key_ok K ttl (sys_clock s) k (sys_flights s) (working (conn_of s)) (saved (conn_of s)) \<Longrightarrow>
      key_ok K ttl (sys_clock s) k ((sys_flights s)[i := f\<lparr>fl_phase := p\<rparr>]) (working c) (saved c)"
  shows "idem_inv K ttl (advance i p c s)"
  unfolding idem_inv_def
proof (intro impI conjI)
  assume t: "0 \<le> ttl"
  from at have i: "i < length (sys_flights s)" and f: "sys_flights s ! i = f" by (auto simp: at_phase_def)
  then have fs: "f \<in> set (sys_flights s)" by auto
  note D = idem_invD [OF inv t]
  show "distinct (map ik_key (working (conn_of (advance i p c s))))"
    "distinct (map ik_key (saved (conn_of (advance i p c s))))" using dist [OF t] by (simp_all add: advance_def)
  show "\<forall>g \<in> set (sys_flights (advance i p c s)). fl_now g \<le> sys_clock (advance i p c s) \<and>
      (\<not> ended g \<longrightarrow> sys_clock (advance i p c s) \<le> fl_now g + ttl)"
    using D(3,4) fs q f set_update_subset_insert [of "sys_flights s" i "f\<lparr>fl_phase := p\<rparr>"]
    by (auto simp: advance_def)
  show "\<forall>k. untouched k (sys_flights (advance i p c s)) \<longrightarrow>
      key_ok K ttl (sys_clock (advance i p c s)) k (sys_flights (advance i p c s))
        (working (conn_of (advance i p c s))) (saved (conn_of (advance i p c s)))"
    using D(5) keys [OF t] untouched_update [OF i] f by (simp add: advance_def)
qed

text \<open>Rows of other keys are left alone by the statements on a claim, rows in force by a clean-up.\<close>

lemma has_row_filter:
  assumes "has_row K f t" and "\<And>r. ik_key r = flight_key f \<Longrightarrow> ik_created r = fl_now f \<Longrightarrow> P r"
  shows "has_row K f (filter P t)"
  using assms by (auto simp: has_row_def split: if_splits)

lemma has_row_delete_claim:
  "has_row K f w \<Longrightarrow> flight_key f \<noteq> hq_key q \<Longrightarrow> has_row K f (filter (\<lambda>r. \<not> own_running K q r) w)"
  by (rule has_row_filter) (auto simp: own_running_def)

lemma has_row_complete_claim:
  assumes "has_row K f w" and "flight_key f \<noteq> hq_key q"
  shows "has_row K f (update_where (own_running K q) g w)"
proof -
  have "r \<in> set (update_where (own_running K q) g w)" if "r \<in> set w" "ik_key r = flight_key f" for r
    using that assms(2) unfolding set_update_where_iff by (intro bexI [of _ r]) (auto simp: own_running_def)
  with assms(1) show ?thesis by (auto simp: has_row_def split: if_splits)
qed

lemma has_row_expired:
  assumes "has_row K f w" and "in_force ttl clock f" and "cutoff \<le> clock - ttl"
  shows "has_row K f (filter (\<lambda>r. \<not> ik_created r < cutoff) w)"
  using assms by (intro has_row_filter) (auto simp: in_force_def)

lemma has_row_phase:
  "has_row K f t \<Longrightarrow> fl_phase f = Running \<Longrightarrow> has_row K (f\<lparr>fl_phase := p\<rparr>) t"
  by (force simp: has_row_def)

lemma at_phaseD:
  assumes "at_phase i p s f"
  shows "i < length (sys_flights s)" "sys_flights s ! i = f" "fl_phase f = p" "f \<in> set (sys_flights s)"
  using assms by (auto simp: at_phase_def)

text \<open>Flight \<open>i\<close> holds no key before and after.\<close>

lemma key_ok_idle:
  assumes ok: "key_ok K ttl clock k fs w sv" and i: "i < length fs" "fs ! i = f"
    and p: "\<not> claimed (f\<lparr>fl_phase := p\<rparr>)"
    and rows: "\<And>g. g \<in> set fs \<Longrightarrow> flight_key g = k \<Longrightarrow> in_force ttl clock g \<Longrightarrow> has_row K g w \<Longrightarrow>
      (fl_phase g \<noteq> Inserted \<Longrightarrow> has_row K g sv) \<Longrightarrow> has_row K g w' \<and> (fl_phase g \<noteq> Inserted \<longrightarrow> has_row K g sv')"
  shows "key_ok K ttl clock k (fs[i := f\<lparr>fl_phase := p\<rparr>]) w' sv'"
  using key_ok_tables [OF ok rows] i p
  by (intro key_ok_move [of K ttl clock k fs w' sv']) (auto simp: in_force_def key_ok_def)

text \<open>A commit makes every row that is seen a saved one.\<close>

lemma key_ok_commit:
  assumes ok: "key_ok K ttl clock k fs w sv" and i: "i < length fs" "fs ! i = f"
    and p: "claimed (f\<lparr>fl_phase := p\<rparr>) \<Longrightarrow> claimed f \<and> (\<forall>t. has_row K f t \<longrightarrow> has_row K (f\<lparr>fl_phase := p\<rparr>) t)"
  shows "key_ok K ttl clock k (fs[i := f\<lparr>fl_phase := p\<rparr>]) w w"
proof (rule key_ok_move [OF ok i(1)])
  show "flight_key (f\<lparr>fl_phase := p\<rparr>) = flight_key (fs ! i)" using i by simp
  have before: "in_force ttl clock f" if "in_force ttl clock (f\<lparr>fl_phase := p\<rparr>)"
    using that p by (simp add: in_force_def)
  then show "in_force ttl clock (f\<lparr>fl_phase := p\<rparr>) \<Longrightarrow> in_force ttl clock (fs ! i) \<or>
      (\<forall>j < length fs. flight_key (fs ! j) = k \<longrightarrow> \<not> in_force ttl clock (fs ! j))" using i by simp
  show "has_row K (f\<lparr>fl_phase := p\<rparr>) w \<and> (fl_phase (f\<lparr>fl_phase := p\<rparr>) \<noteq> Inserted \<longrightarrow> has_row K (f\<lparr>fl_phase := p\<rparr>) w)"
    if "in_force ttl clock (f\<lparr>fl_phase := p\<rparr>)" "flight_key (f\<lparr>fl_phase := p\<rparr>) = k"
    using key_okD(1) [OF ok i(1)] before [OF that(1)] that p i by (simp add: in_force_def)
qed (use key_okD(1) [OF ok] in blast)

text \<open>The insert succeeds only when no claim of the key is in force.\<close>

lemma insert_free:
  assumes ok: "key_ok K ttl clock k fs w sv" and "conn_insert (running_row K q t) c = Some c'" and "working c = w"
    and "hq_key q = k"
  shows "j < length fs \<Longrightarrow> flight_key (fs ! j) = k \<Longrightarrow> \<not> in_force ttl clock (fs ! j)"
  using key_okD(1) [OF ok] has_row_key [of K "fs ! j" w] assms(2-)
  by (auto simp: conn_insert_def row_of_None_iff split: if_splits)

lemma insert_keeps:
  assumes "idem_inv K ttl s" and at: "at_phase i Ready s f"
    and ins: "conn_insert (running_row K (fl_request f) (fl_now f)) (conn_of s) = Some c"
  shows "idem_inv K ttl (advance i Inserted c s)"
proof (rule advance_inv [OF assms(1) at])
  note A = at_phaseD [OF at]
  from ins have w: "working c = working (conn_of s) @ [running_row K (fl_request f) (fl_now f)]"
    and sv: "saved c = saved (conn_of s)" and new: "row_of ik_key (flight_key f) (working (conn_of s)) = None"
    by (auto simp: conn_insert_def split: if_splits)
  show "\<not> ended f" using A(3) by (simp add: ended_def)
  show "distinct (map ik_key (working c)) \<and> distinct (map ik_key (saved c))" if "0 \<le> ttl"
    using idem_invD(1,2) [OF assms(1) that] new unfolding w sv by (auto simp: row_of_None_iff)
  show "key_ok K ttl (sys_clock s) k ((sys_flights s)[i := f\<lparr>fl_phase := Inserted\<rparr>]) (working c) (saved c)"
    if ok: "key_ok K ttl (sys_clock s) k (sys_flights s) (working (conn_of s)) (saved (conn_of s))" for k
  proof (rule key_ok_move [OF ok A(1)])
    show "has_row K (f\<lparr>fl_phase := Inserted\<rparr>) (working c) \<and>
        (fl_phase (f\<lparr>fl_phase := Inserted\<rparr>) \<noteq> Inserted \<longrightarrow> has_row K (f\<lparr>fl_phase := Inserted\<rparr>) (saved c))"
      by (simp add: has_row_def w)
    show "in_force ttl (sys_clock s) (sys_flights s ! i) \<or>
        (\<forall>j < length (sys_flights s). flight_key (sys_flights s ! j) = k \<longrightarrow> \<not> in_force ttl (sys_clock s) (sys_flights s ! j))"
      if "flight_key (f\<lparr>fl_phase := Inserted\<rparr>) = k"
      using insert_free [OF ok ins refl] that by simp
    show "has_row K (sys_flights s ! j) (working c) \<and>
        (fl_phase (sys_flights s ! j) \<noteq> Inserted \<longrightarrow> has_row K (sys_flights s ! j) (saved c))"
      if "j < length (sys_flights s)" "flight_key (sys_flights s ! j) = k" "in_force ttl (sys_clock s) (sys_flights s ! j)" for j
      using key_okD(1,2) [OF ok that] by (auto simp: w sv has_row_def split: if_splits)
  qed (use A in simp)
qed

lemma in_force_active:
  assumes "idem_inv K ttl s" "0 \<le> ttl" "f \<in> set (sys_flights s)" "\<not> ended f" "claimed f"
  shows "in_force ttl (sys_clock s) f"
  using idem_invD(4) [OF assms(1-4)] assms(5) by (simp add: in_force_def)

lemma complete_keeps:
  assumes "idem_inv K ttl s" and at: "at_phase i Running s f"
  shows "idem_inv K ttl (advance i (Updated p) (complete_claim K (fl_request f) p (conn_of s)) s)"
proof (rule advance_inv [OF assms(1) at])
  note A = at_phaseD [OF at]
  let ?g = "\<lambda>r. r\<lparr>ik_status := rs_status p, ik_response := rs_body p, ik_state := ''completed''\<rparr>"
  let ?w' = "update_where (own_running K (fl_request f)) ?g (working (conn_of s))"
  show e: "\<not> ended f" using A(3) by (simp add: ended_def)
  show "distinct (map ik_key (working (complete_claim K (fl_request f) p (conn_of s)))) \<and>
      distinct (map ik_key (saved (complete_claim K (fl_request f) p (conn_of s))))" if "0 \<le> ttl"
    using idem_invD(1,2) [OF assms(1) that] by (simp add: conn_defs distinct_update_where)
  show "key_ok K ttl (sys_clock s) k ((sys_flights s)[i := f\<lparr>fl_phase := Updated p\<rparr>])
      (working (complete_claim K (fl_request f) p (conn_of s))) (saved (complete_claim K (fl_request f) p (conn_of s)))"
    if t: "0 \<le> ttl" and ok: "key_ok K ttl (sys_clock s) k (sys_flights s) (working (conn_of s)) (saved (conn_of s))" for k
  proof (rule key_ok_move [OF ok A(1)])
    have fo: "in_force ttl (sys_clock s) (sys_flights s ! i)"
      using in_force_active [OF assms(1) t A(4) e] A(2,3) by (simp add: claimed_def)
    show "in_force ttl (sys_clock s) (sys_flights s ! i) \<or>
        (\<forall>j < length (sys_flights s). flight_key (sys_flights s ! j) = k \<longrightarrow> \<not> in_force ttl (sys_clock s) (sys_flights s ! j))"
      using fo by blast
    show "has_row K (sys_flights s ! j) (working (complete_claim K (fl_request f) p (conn_of s))) \<and>
        (fl_phase (sys_flights s ! j) \<noteq> Inserted \<longrightarrow>
          has_row K (sys_flights s ! j) (saved (complete_claim K (fl_request f) p (conn_of s))))"
      if j: "j < length (sys_flights s)" "j \<noteq> i" "flight_key (sys_flights s ! j) = k" "in_force ttl (sys_clock s) (sys_flights s ! j)" for j
    proof -
      have "flight_key f \<noteq> k" using key_okD(3) [OF ok A(1) _ fo j(1,2,3)] j(4) A(2) by auto
      with key_okD(1,2) [OF ok j(1,3,4)] j(3) show ?thesis by (simp add: conn_defs has_row_complete_claim)
    qed
    show "has_row K (f\<lparr>fl_phase := Updated p\<rparr>) (working (complete_claim K (fl_request f) p (conn_of s))) \<and>
        (fl_phase (f\<lparr>fl_phase := Updated p\<rparr>) \<noteq> Inserted \<longrightarrow>
          has_row K (f\<lparr>fl_phase := Updated p\<rparr>) (saved (complete_claim K (fl_request f) p (conn_of s))))"
      if "flight_key (f\<lparr>fl_phase := Updated p\<rparr>) = k"
    proof -
      have k: "flight_key (sys_flights s ! i) = k" using that A(2) by simp
      note rows = key_okD(1,2) [OF ok A(1) k fo, unfolded A(2)]
      from rows(1) A(3) have "running_row K (fl_request f) (fl_now f) \<in> set (working (conn_of s))" by (simp add: has_row_def)
      then have "?g (running_row K (fl_request f) (fl_now f)) \<in> set ?w'"
        unfolding set_update_where_iff by (intro bexI [of _ "running_row K (fl_request f) (fl_now f)"])
          (simp_all add: own_running_def)
      then have "has_row K (f\<lparr>fl_phase := Updated p\<rparr>) ?w'"
        by (force simp: has_row_def)
      with rows(2) A(3) has_row_phase [of K f "saved (conn_of s)" "Updated p"] show ?thesis by (simp add: conn_defs)
    qed
  qed (use A in simp)
qed

lemma fail_keeps:
  assumes "idem_inv K ttl s" and at: "at_phase i Running s f"
  shows "idem_inv K ttl (advance i Deleted (delete_claim K (fl_request f) (conn_of s)) s)"
proof (rule advance_inv [OF assms(1) at])
  note A = at_phaseD [OF at]
  show e: "\<not> ended f" using A(3) by (simp add: ended_def)
  show "distinct (map ik_key (working (delete_claim K (fl_request f) (conn_of s)))) \<and>
      distinct (map ik_key (saved (delete_claim K (fl_request f) (conn_of s))))" if "0 \<le> ttl"
    using idem_invD(1,2) [OF assms(1) that] by (simp add: conn_defs distinct_filter_map)
  show "key_ok K ttl (sys_clock s) k ((sys_flights s)[i := f\<lparr>fl_phase := Deleted\<rparr>])
      (working (delete_claim K (fl_request f) (conn_of s))) (saved (delete_claim K (fl_request f) (conn_of s)))"
    if t: "0 \<le> ttl" and ok: "key_ok K ttl (sys_clock s) k (sys_flights s) (working (conn_of s)) (saved (conn_of s))" for k
  proof (rule key_ok_move [OF ok A(1)])
    have fo: "in_force ttl (sys_clock s) (sys_flights s ! i)"
      using in_force_active [OF assms(1) t A(4) e] A(2,3) by (simp add: claimed_def)
    show "in_force ttl (sys_clock s) (sys_flights s ! i) \<or>
        (\<forall>j < length (sys_flights s). flight_key (sys_flights s ! j) = k \<longrightarrow> \<not> in_force ttl (sys_clock s) (sys_flights s ! j))"
      using fo by blast
    show "has_row K (sys_flights s ! j) (working (delete_claim K (fl_request f) (conn_of s))) \<and>
        (fl_phase (sys_flights s ! j) \<noteq> Inserted \<longrightarrow>
          has_row K (sys_flights s ! j) (saved (delete_claim K (fl_request f) (conn_of s))))"
      if j: "j < length (sys_flights s)" "j \<noteq> i" "flight_key (sys_flights s ! j) = k" "in_force ttl (sys_clock s) (sys_flights s ! j)" for j
    proof -
      have "flight_key f \<noteq> k" using key_okD(3) [OF ok A(1) _ fo j(1,2,3)] j(4) A(2) by auto
      with key_okD(1,2) [OF ok j(1,3,4)] j(3) show ?thesis by (simp add: conn_defs has_row_delete_claim)
    qed
  qed (use A in \<open>simp_all add: in_force_def claimed_def\<close>)
qed

text \<open>A statement by which no flight comes to hold a key and no row in force is lost.\<close>

lemma idle_keeps:
  assumes inv: "idem_inv K ttl s" and at: "at_phase i q s f" and q: "\<not> ended f" and p: "\<not> claimed (f\<lparr>fl_phase := p\<rparr>)"
    and dist: "0 \<le> ttl \<Longrightarrow> distinct (map ik_key (working c)) \<and> distinct (map ik_key (saved c))"
    and rows: "\<And>g. 0 \<le> ttl \<Longrightarrow> in_force ttl (sys_clock s) g \<Longrightarrow> has_row K g (working (conn_of s)) \<Longrightarrow>
      (fl_phase g \<noteq> Inserted \<Longrightarrow> has_row K g (saved (conn_of s))) \<Longrightarrow>
      has_row K g (working c) \<and> (fl_phase g \<noteq> Inserted \<longrightarrow> has_row K g (saved c))"
  shows "idem_inv K ttl (advance i p c s)"
proof (rule advance_inv [OF inv at q dist])
  fix k assume "0 \<le> ttl" "key_ok K ttl (sys_clock s) k (sys_flights s) (working (conn_of s)) (saved (conn_of s))"
  then show "key_ok K ttl (sys_clock s) k ((sys_flights s)[i := f\<lparr>fl_phase := p\<rparr>]) (working c) (saved c)"
    using at_phaseD(1,2) [OF at] p rows by (intro key_ok_idle) auto
qed

lemma commit_keeps:
  assumes inv: "idem_inv K ttl s" and at: "at_phase i q s f" and q: "\<not> ended f"
    and p: "claimed (f\<lparr>fl_phase := p\<rparr>) \<Longrightarrow> claimed f \<and> (\<forall>t. has_row K f t \<longrightarrow> has_row K (f\<lparr>fl_phase := p\<rparr>) t)"
  shows "idem_inv K ttl (advance i p (conn_commit (conn_of s)) s)"
  using idem_invD(1) [OF inv] at_phaseD(1,2) [OF at] p
  by (intro advance_inv [OF inv at q]) (auto simp: conn_commit_def intro: key_ok_commit)

lemma tick_keeps:
  assumes inv: "idem_inv K ttl s" and t: "in_time ttl now s"
  shows "idem_inv K ttl (s\<lparr>sys_clock := now\<rparr>)"
proof (rule idem_invI)
  assume z: "0 \<le> ttl"
  note D = idem_invD [OF inv z]
  from t have le: "sys_clock s \<le> now" by (simp add: in_time_def)
  show "distinct (map ik_key (working (conn_of (s\<lparr>sys_clock := now\<rparr>))))"
    "distinct (map ik_key (saved (conn_of (s\<lparr>sys_clock := now\<rparr>))))" using D(1,2) by simp_all
  show "fl_now f \<le> sys_clock (s\<lparr>sys_clock := now\<rparr>)" if "f \<in> set (sys_flights (s\<lparr>sys_clock := now\<rparr>))" for f
    using D(3) [of f] that le by simp
  show "sys_clock (s\<lparr>sys_clock := now\<rparr>) \<le> fl_now f + ttl"
    if "f \<in> set (sys_flights (s\<lparr>sys_clock := now\<rparr>))" "\<not> ended f" for f using t that by (auto simp: in_time_def)
  have ticked: "key_ok K ttl now k fs w sv" if "key_ok K ttl (sys_clock s) k fs w sv" for k fs w sv
  proof -
    have "in_force ttl now f \<Longrightarrow> in_force ttl (sys_clock s) f" for f using le by (simp add: in_force_def)
    with that show ?thesis unfolding key_ok_def by blast
  qed
  show "key_ok K ttl (sys_clock (s\<lparr>sys_clock := now\<rparr>)) k (sys_flights (s\<lparr>sys_clock := now\<rparr>))
      (working (conn_of (s\<lparr>sys_clock := now\<rparr>))) (saved (conn_of (s\<lparr>sys_clock := now\<rparr>)))"
    if "untouched k (sys_flights (s\<lparr>sys_clock := now\<rparr>))" for k using ticked D(5) that by simp
qed

lemma untouched_append: "untouched k (fs @ [f]) \<Longrightarrow> untouched k fs"
  by (simp add: untouched_def)

lemma key_ok_append:
  assumes ok: "key_ok K ttl clock k fs w sv" and "\<not> claimed f"
  shows "key_ok K ttl clock k (fs @ [f]) w sv"
proof -
  have new: "\<not> in_force ttl clock f" using assms(2) by (simp add: in_force_def)
  have old: "i < length fs \<and> (fs @ [f]) ! i = fs ! i" if "i < length (fs @ [f])" "in_force ttl clock ((fs @ [f]) ! i)" for i
    using that new by (cases "i < length fs") (auto simp: nth_append less_Suc_eq)
  show ?thesis unfolding key_ok_def
  proof (intro conjI allI impI)
    fix i assume "i < length (fs @ [f])" "flight_key ((fs @ [f]) ! i) = k \<and> in_force ttl clock ((fs @ [f]) ! i)"
    with old [of i] key_okD(1,2) [OF ok, of i]
    show "has_row K ((fs @ [f]) ! i) w" "fl_phase ((fs @ [f]) ! i) \<noteq> Inserted \<Longrightarrow> has_row K ((fs @ [f]) ! i) sv" by auto
  next
    fix i j assume "i < length (fs @ [f])" "j < length (fs @ [f])"
      "i \<noteq> j \<and> flight_key ((fs @ [f]) ! i) = k \<and> flight_key ((fs @ [f]) ! j) = k"
    with old [of i] old [of j] key_okD(3) [OF ok, of i j]
    show "\<not> (in_force ttl clock ((fs @ [f]) ! i) \<and> in_force ttl clock ((fs @ [f]) ! j))" by auto
  qed
qed

lemma arrive_keeps:
  assumes inv: "idem_inv K ttl s"
  shows "idem_inv K ttl (s\<lparr>sys_flights := sys_flights s @ [new_flight q s]\<rparr>)"
proof (rule idem_invI)
  assume z: "0 \<le> ttl"
  note D = idem_invD [OF inv z]
  have n: "\<not> claimed (new_flight q s)" "fl_now (new_flight q s) = sys_clock s" by (simp_all add: claimed_def new_flight_def)
  let ?s = "s\<lparr>sys_flights := sys_flights s @ [new_flight q s]\<rparr>"
  show "distinct (map ik_key (working (conn_of ?s)))" "distinct (map ik_key (saved (conn_of ?s)))" using D(1,2) by simp_all
  show "fl_now f \<le> sys_clock ?s" if "f \<in> set (sys_flights ?s)" for f using D(3) [of f] that n by auto
  show "sys_clock ?s \<le> fl_now f + ttl" if "f \<in> set (sys_flights ?s)" "\<not> ended f" for f
    using D(4) [of f] that n z by auto
  show "key_ok K ttl (sys_clock ?s) k (sys_flights ?s) (working (conn_of ?s)) (saved (conn_of ?s))"
    if "untouched k (sys_flights ?s)" for k
    using key_ok_append [OF D(5) n(1)] untouched_append that by simp
qed

lemma in_force_cutoff:
  assumes "idem_inv K ttl s" "0 \<le> ttl" "f \<in> set (sys_flights s)"
  shows "fl_now f - ttl \<le> sys_clock s - ttl"
  using idem_invD(3) [OF assms] by simp

lemma sweep_keeps:
  assumes inv: "idem_inv K ttl s" and at: "at_phase i Arrived s f"
  shows "idem_inv K ttl (advance i Swept (delete_expired (fl_now f - ttl) (conn_of s)) s)"
proof (rule idle_keeps [OF inv at])
  show "\<not> ended f" using at_phaseD(3) [OF at] by (simp add: ended_def)
  fix g assume t: "0 \<le> ttl" and g: "in_force ttl (sys_clock s) g" "has_row K g (working (conn_of s))"
    "fl_phase g \<noteq> Inserted \<Longrightarrow> has_row K g (saved (conn_of s))"
  from has_row_expired [OF g(2,1) in_force_cutoff [OF inv t at_phaseD(4) [OF at]]] g(3)
  show "has_row K g (working (delete_expired (fl_now f - ttl) (conn_of s))) \<and>
      (fl_phase g \<noteq> Inserted \<longrightarrow> has_row K g (saved (delete_expired (fl_now f - ttl) (conn_of s))))"
    by (simp add: conn_defs)
qed (use idem_invD(1,2) [OF inv] in \<open>simp_all add: claimed_def conn_defs distinct_filter_map\<close>)

lemma clean_keeps:
  assumes inv: "idem_inv K ttl s" and cutoff: "cutoff \<le> sys_clock s - ttl"
  shows "idem_inv K ttl (s\<lparr>sys_mw := (sys_mw s)\<lparr>mw_conn := delete_expired cutoff (conn_of s)\<rparr>, sys_cleanups := n\<rparr>)"
proof -
  have "key_ok K ttl (sys_clock s) k fs (filter (\<lambda>r. \<not> ik_created r < cutoff) w) sv"
    if "key_ok K ttl (sys_clock s) k fs w sv" for k fs w sv
    using that by (rule key_ok_tables) (auto intro: has_row_expired [OF _ _ cutoff])
  then show ?thesis using idem_invD [OF inv] by (intro idem_invI) (simp_all add: conn_defs distinct_filter_map)
qed

lemma clean_commit_keeps:
  assumes inv: "idem_inv K ttl s"
  shows "idem_inv K ttl (s\<lparr>sys_mw := (sys_mw s)\<lparr>mw_conn := conn_commit (conn_of s)\<rparr>, sys_cleanups := n\<rparr>)"
proof -
  have "key_ok K ttl (sys_clock s) k (sys_flights s) (working (conn_of s)) (working (conn_of s))"
    if "0 \<le> ttl" "untouched k (sys_flights s)" for k
    using idem_invD(5) [OF inv that] by (rule key_ok_tables) simp
  with idem_invD [OF inv] show ?thesis by (intro idem_invI) (simp_all add: conn_commit_def)
qed

text \<open>A rollback marks the claims it may undo; where none is marked, every row in force is saved.\<close>

lemma mark_undone_simps [simp]:
  "fl_request (mark_undone f) = fl_request f" "fl_now (mark_undone f) = fl_now f" "fl_phase (mark_undone f) = fl_phase f"
  by (simp_all add: mark_undone_def)

lemma marked:
  "ended (mark_undone f) = ended f" "in_force ttl clock (mark_undone f) = in_force ttl clock f"
  "has_row K (mark_undone f) t = has_row K f t"
  by (simp_all add: ended_def in_force_def claimed_def has_row_def)

lemma key_ok_marked:
  assumes "key_ok K ttl clock k fs w sv"
  shows "key_ok K ttl clock k (map mark_undone fs) w sv"
  unfolding key_ok_def length_map
proof (intro conjI allI impI)
  fix i assume "i < length fs" "flight_key (map mark_undone fs ! i) = k \<and> in_force ttl clock (map mark_undone fs ! i)"
  with key_okD(1,2) [OF assms, of i]
  show "has_row K (map mark_undone fs ! i) w"
    "fl_phase (map mark_undone fs ! i) \<noteq> Inserted \<Longrightarrow> has_row K (map mark_undone fs ! i) sv" by (simp_all add: marked)
next
  fix i j assume "i < length fs" "j < length fs"
    "i \<noteq> j \<and> flight_key (map mark_undone fs ! i) = k \<and> flight_key (map mark_undone fs ! j) = k"
  with key_okD(3) [OF assms, of i j]
  show "\<not> (in_force ttl clock (map mark_undone fs ! i) \<and> in_force ttl clock (map mark_undone fs ! j))"
    by (auto simp: marked)
qed

lemma rollback_keeps:
  assumes inv: "idem_inv K ttl s" and at: "at_phase i Refused s f"
  shows "idem_inv K ttl (advance i RolledBack (conn_rollback (conn_of s))
    (s\<lparr>sys_flights := map mark_undone (sys_flights s)\<rparr>))"
proof -
  let ?fs = "map mark_undone (sys_flights s)"
  let ?s = "s\<lparr>sys_mw := (sys_mw s)\<lparr>mw_conn := conn_rollback (conn_of s)\<rparr>, sys_flights := ?fs\<rparr>"
  note A = at_phaseD [OF at]
  have ok: "key_ok K ttl (sys_clock s) k ?fs (saved (conn_of s)) (saved (conn_of s))"
    if t: "0 \<le> ttl" and u: "untouched k ?fs" for k
  proof -
    have marks: "\<not> fl_undone (mark_undone f)" if "f \<in> set (sys_flights s)" "flight_key f = k" for f
      using u that by (simp add: untouched_def)
    have "fl_undone f \<Longrightarrow> fl_undone (mark_undone f)" for f by (simp add: mark_undone_def)
    with marks have "untouched k (sys_flights s)" unfolding untouched_def by blast
    note ok = idem_invD(5) [OF inv t this]
    have "fl_phase (sys_flights s ! j) \<noteq> Inserted" if "j < length (sys_flights s)" "flight_key (sys_flights s ! j) = k" for j
    proof
      assume "fl_phase (sys_flights s ! j) = Inserted"
      then have "fl_undone (mark_undone (sys_flights s ! j))" by (simp add: mark_undone_def)
      with marks [OF nth_mem [OF that(1)] that(2)] show False by blast
    qed
    then have "key_ok K ttl (sys_clock s) k (sys_flights s) (saved (conn_of s)) (saved (conn_of s))"
      using ok unfolding key_ok_def by blast
    then show ?thesis by (rule key_ok_marked)
  qed
  have inv': "idem_inv K ttl ?s"
  proof (rule idem_invI)
    assume z: "0 \<le> ttl"
    note D = idem_invD [OF inv z]
    show "distinct (map ik_key (working (conn_of ?s)))" "distinct (map ik_key (saved (conn_of ?s)))"
      using D(2) by (simp_all add: conn_rollback_def)
    show "fl_now g \<le> sys_clock ?s" if "g \<in> set (sys_flights ?s)" for g using D(3) that by auto
    show "sys_clock ?s \<le> fl_now g + ttl" if "g \<in> set (sys_flights ?s)" "\<not> ended g" for g
      using D(4) that by (auto simp: marked)
    show "key_ok K ttl (sys_clock ?s) k (sys_flights ?s) (working (conn_of ?s)) (saved (conn_of ?s))"
      if "untouched k (sys_flights ?s)" for k using ok [OF z] that by (simp add: conn_rollback_def)
  qed
  have at': "at_phase i Refused ?s (mark_undone f)" using A by (auto simp: at_phase_def)
  have "\<not> ended (mark_undone f)" "\<not> claimed ((mark_undone f)\<lparr>fl_phase := RolledBack\<rparr>)"
    using A(3) by (simp_all add: ended_def claimed_def)
  from idle_keeps [OF inv' at' this, of "conn_of ?s"] idem_invD(1,2) [OF inv']
  have "idem_inv K ttl (advance i RolledBack (conn_of ?s) ?s)" by simp
  then show ?thesis by (simp add: advance_def)
qed

lemma last_cleanup_irrelevant: "idem_inv K ttl s \<Longrightarrow> idem_inv K ttl (s\<lparr>sys_mw := (sys_mw s)\<lparr>mw_last_cleanup := t\<rparr>\<rparr>)"
  by (simp add: idem_inv_def)

lemma idem_step_inv:
  assumes "idem_step K ttl s s'" and inv: "idem_inv K ttl s"
  shows "idem_inv K ttl s'"
  using assms(1)
proof cases
  case (sweep_commit i f s1)
  note A = at_phaseD [OF sweep_commit(2)]
  show ?thesis unfolding sweep_commit
    by (rule last_cleanup_irrelevant, rule commit_keeps [OF inv sweep_commit(2)])
      (use A in \<open>simp_all add: ended_def claimed_def\<close>)
next
  case (refuse i f)
  show ?thesis unfolding refuse(1)
    by (rule idle_keeps [OF inv refuse(2)])
      (use at_phaseD [OF refuse(2)] idem_invD(1,2) [OF inv] in \<open>simp_all add: ended_def claimed_def\<close>)
next
  case (commit i f)
  show ?thesis unfolding commit(1)
    by (rule commit_keeps [OF inv commit(2)])
      (use at_phaseD [OF commit(2)] in \<open>simp_all add: ended_def claimed_def has_row_def\<close>)
next
  case (answer i f p)
  show ?thesis unfolding answer(1)
    by (rule idle_keeps [OF inv answer(2)])
      (use at_phaseD [OF answer(2)] idem_invD(1,2) [OF inv] in \<open>simp_all add: ended_def claimed_def\<close>)
next
  case (keep i p f)
  show ?thesis unfolding keep(1)
    by (rule commit_keeps [OF inv keep(2)])
      (use at_phaseD [OF keep(2)] in \<open>simp_all add: ended_def claimed_def has_row_def\<close>)
next
  case (release i f)
  show ?thesis unfolding release(1)
    by (rule commit_keeps [OF inv release(2)])
      (use at_phaseD [OF release(2)] in \<open>simp_all add: ended_def claimed_def has_row_def\<close>)
qed (use inv in \<open>auto intro: tick_keeps arrive_keeps sweep_keeps insert_keeps rollback_keeps complete_keeps
    fail_keeps clean_keeps clean_commit_keeps\<close>)

interpretation idem: step_invariant "idem_step K ttl" "idem_inv K ttl" for K ttl
  by unfold_locales (rule idem_step_inv)

lemma idem_reachable_inv: "idem_reachable K ttl s \<Longrightarrow> idem_inv K ttl s"
  unfolding idem_reachable_def by (erule idem.steps_inv) (rule idem_inv_start)

end
