(* ===== verification/Idempotency_Properties.thy ===== *)
theory Idempotency_Properties
  imports Idempotency_Invariant
begin

text \<open>
  What a client of the idempotency middleware relies on: a key is not executed twice within its
  time to live, and a kept response is replayed.  The last section shows what the shared
  connection adds when a rollback falls into a claim.
\<close>

lemma keyed_nonempty: "keyed q \<Longrightarrow> hq_key q \<noteq> []"
  by (simp add: keyed_def validate_idempotency_key_def)

lemma claim_of_table:
  assumes "keyed q"
  shows "dispatch_claim K ttl q now m =
    (let m1 = cleanup_if_due ttl now m in
     case conn_insert (running_row K q now) (mw_conn m1) of
       Some c \<Rightarrow> (Claimed, m1\<lparr>mw_conn := conn_commit c\<rparr>)
     | None \<Rightarrow>
         let m2 = m1\<lparr>mw_conn := conn_rollback (mw_conn m1)\<rparr>
         in (Reply (stored_answer K q (row_of ik_key (hq_key q) (working (mw_conn m2)))), m2))"
  using assms keyed_nonempty [OF assms] by (simp add: keyed_def dispatch_claim_def Let_def)

section \<open>A small run\<close>

text \<open>
  A request is kept, its row expires and is swept by a request of another key, which stands
  between its insert and its commit when the key comes again.
\<close>

definition idemo_request :: "string \<Rightarrow> string \<Rightarrow> http_request" where
  "idemo_request key body = \<lparr>hq_method = ''POST'', hq_path = ''/x'', hq_key = key, hq_body = body\<rparr>"

definition idemo_codec :: codec where
  "idemo_codec = \<lparr>sha256 = (\<lambda>s. s), float_text = (\<lambda>_. [])\<rparr>"

definition idemo_reply :: reply where
  "idemo_reply = \<lparr>rs_status = 201, rs_body = ''{}''\<rparr>"

definition idemo_row :: "string \<Rightarrow> time \<Rightarrow> idem_row" where
  "idemo_row key now = running_row idemo_codec (idemo_request key ''a'') now"

definition idemo_kept_row :: "string \<Rightarrow> time \<Rightarrow> idem_row" where
  "idemo_kept_row key now = (idemo_row key now)\<lparr>ik_status := 201, ik_response := ''{}'', ik_state := ''completed''\<rparr>"

definition idemo_flight :: "string \<Rightarrow> time \<Rightarrow> phase \<Rightarrow> flight" where
  "idemo_flight key now p = \<lparr>fl_request = idemo_request key ''a'', fl_now = now, fl_phase = p, fl_undone = False\<rparr>"

definition idemo_state :: "flight list \<Rightarrow> idem_row list \<Rightarrow> idem_row list \<Rightarrow> time \<Rightarrow> time \<Rightarrow> idem_sys" where
  "idemo_state fs sv w cleaned clock = \<lparr>sys_mw = \<lparr>mw_conn = \<lparr>saved = sv, working = w\<rparr>, mw_last_cleanup = cleaned\<rparr>,
     sys_flights = fs, sys_cleanups = 0, sys_clock = clock\<rparr>"

abbreviation idemo_step :: "idem_sys \<Rightarrow> idem_sys \<Rightarrow> bool" where
  "idemo_step \<equiv> idem_step idemo_codec 100"

lemma idemo_keyed: "key \<in> {''k'', ''l''} \<Longrightarrow> keyed (idemo_request key body)"
  by (auto simp: keyed_def idemo_request_def idempotency_methods_def validate_idempotency_key_def max_key_length_def
      reserved_chars_def)

lemmas idemo_defs = idemo_state_def idemo_flight_def idemo_row_def idemo_kept_row_def at_phase_def advance_def

lemma idemo_arrive:
  assumes "key \<in> {''k'', ''l''}"
  shows "idemo_step (idemo_state fs sv w cleaned clock)
    (idemo_state (fs @ [idemo_flight key clock (if clock - cleaned < 3600 then Ready else Arrived)]) sv w cleaned clock)"
  using idem_step.arrive [OF idemo_keyed [OF assms], of idemo_codec 100 "idemo_state fs sv w cleaned clock" "''a''"]
  by (cases "clock - cleaned < 3600") (simp_all add: idemo_defs new_flight_def cleanup_due_def)

lemma idemo_insert:
  assumes "row_of ik_key key w = None"
  shows "idemo_step (idemo_state (fs @ [idemo_flight key t Ready]) sv w cleaned clock)
    (idemo_state (fs @ [idemo_flight key t Inserted]) sv (w @ [idemo_row key t]) cleaned clock)"
  using idem_step.insert [of "length fs" "idemo_state (fs @ [idemo_flight key t Ready]) sv w cleaned clock"
      "idemo_flight key t Ready" idemo_codec "\<lparr>saved = sv, working = w @ [idemo_row key t]\<rparr>" 100] assms
  by (simp add: idemo_defs conn_insert_def idemo_request_def)

lemma idemo_commit:
  "idemo_step (idemo_state (fs @ [idemo_flight key t Inserted]) sv w cleaned clock)
    (idemo_state (fs @ [idemo_flight key t Running]) w w cleaned clock)"
  using idem_step.commit [of "length fs" "idemo_state (fs @ [idemo_flight key t Inserted]) sv w cleaned clock"
      "idemo_flight key t Inserted" idemo_codec 100]
  by (simp add: idemo_defs conn_commit_def)

lemma idemo_complete:
  "idemo_step (idemo_state (fs @ [idemo_flight key t Running]) sv [idemo_row key t] cleaned clock)
    (idemo_state (fs @ [idemo_flight key t (Updated idemo_reply)]) sv [idemo_kept_row key t] cleaned clock)"
  using idem_step.complete [of "length fs" "idemo_state (fs @ [idemo_flight key t Running]) sv [idemo_row key t] cleaned clock"
      "idemo_flight key t Running" idemo_reply idemo_codec 100]
  by (simp add: idemo_defs conn_defs own_running_def keeps_response_def idemo_reply_def update_where_def)

lemma idemo_keep:
  "idemo_step (idemo_state (fs @ [idemo_flight key t (Updated p)]) sv w cleaned clock)
    (idemo_state (fs @ [idemo_flight key t (Kept p)]) w w cleaned clock)"
  using idem_step.keep [of "length fs" p "idemo_state (fs @ [idemo_flight key t (Updated p)]) sv w cleaned clock"
      "idemo_flight key t (Updated p)" idemo_codec 100]
  by (simp add: idemo_defs conn_commit_def)

lemma idemo_sweep:
  assumes "\<forall>r \<in> set w. ik_created r < t - 100"
  shows "idemo_step (idemo_state (fs @ [idemo_flight key t Arrived]) sv w cleaned clock)
      (idemo_state (fs @ [idemo_flight key t Swept]) sv [] cleaned clock)"
    and "idemo_step (idemo_state (fs @ [idemo_flight key t Swept]) sv [] cleaned clock)
      (idemo_state (fs @ [idemo_flight key t Ready]) [] [] t clock)"
  using assms idem_step.sweep [of "length fs" "idemo_state (fs @ [idemo_flight key t Arrived]) sv w cleaned clock"
      "idemo_flight key t Arrived" idemo_codec 100]
    idem_step.sweep_commit [OF _ refl, of "length fs" "idemo_state (fs @ [idemo_flight key t Swept]) sv [] cleaned clock"
      "idemo_flight key t Swept" idemo_codec 100]
  by (simp_all add: idemo_defs conn_defs filter_empty_conv)

definition idemo_waiting :: idem_sys where
  "idemo_waiting = idemo_state [idemo_flight ''k'' 0 (Kept idemo_reply), idemo_flight ''l'' 3700 Inserted,
     idemo_flight ''k'' 3700 Ready] [] [idemo_row ''l'' 3700] 3700 3700"

lemma idemo_reachable: "idem_reachable idemo_codec 100 idemo_waiting"
proof -
  let ?F = "idemo_flight ''k'' 0" and ?G = "idemo_flight ''l'' 3700"
  have start: "idem_start = idemo_state [] [] [] 0 0" by (simp add: idem_start_def idemo_state_def)
  note step = rtranclp.rtrancl_into_rtrancl [of idemo_step]
  have "idemo_step\<^sup>*\<^sup>* idem_start (idemo_state [?F Ready] [] [] 0 0)"
    unfolding start using idemo_arrive [of "''k''" "[]" "[]" "[]" 0 0] by auto
  from step [OF this] idemo_insert [of "''k''" "[]" "[]" 0 "[]" 0 0]
  have "idemo_step\<^sup>*\<^sup>* idem_start (idemo_state [?F Inserted] [] [idemo_row ''k'' 0] 0 0)" by simp
  from step [OF this] idemo_commit [of "[]" "''k''" 0]
  have "idemo_step\<^sup>*\<^sup>* idem_start (idemo_state [?F Running] [idemo_row ''k'' 0] [idemo_row ''k'' 0] 0 0)" by simp
  from step [OF this] idemo_complete [of "[]" "''k''" 0]
  have "idemo_step\<^sup>*\<^sup>* idem_start (idemo_state [?F (Updated idemo_reply)] [idemo_row ''k'' 0] [idemo_kept_row ''k'' 0] 0 0)"
    by simp
  from step [OF this] idemo_keep [of "[]" "''k''" 0]
  have "idemo_step\<^sup>*\<^sup>* idem_start (idemo_state [?F (Kept idemo_reply)] [idemo_kept_row ''k'' 0] [idemo_kept_row ''k'' 0] 0 0)"
    by simp
  moreover have "idemo_step (idemo_state [?F (Kept idemo_reply)] [idemo_kept_row ''k'' 0] [idemo_kept_row ''k'' 0] 0 0)
      (idemo_state [?F (Kept idemo_reply)] [idemo_kept_row ''k'' 0] [idemo_kept_row ''k'' 0] 0 3700)"
    using idem_step.tick [of 100 3700 "idemo_state [?F (Kept idemo_reply)] [idemo_kept_row ''k'' 0] [idemo_kept_row ''k'' 0] 0 0"
        idemo_codec] by (simp add: in_time_def idemo_state_def idemo_flight_def ended_def)
  ultimately have "idemo_step\<^sup>*\<^sup>* idem_start
      (idemo_state [?F (Kept idemo_reply)] [idemo_kept_row ''k'' 0] [idemo_kept_row ''k'' 0] 0 3700)" by (rule step)
  from step [OF this] idemo_arrive [of "''l''" "[?F (Kept idemo_reply)]" _ _ 0 3700]
  have arrived: "idemo_step\<^sup>*\<^sup>* idem_start
      (idemo_state [?F (Kept idemo_reply), ?G Arrived] [idemo_kept_row ''k'' 0] [idemo_kept_row ''k'' 0] 0 3700)" by simp
  have old: "\<forall>r \<in> set [idemo_kept_row ''k'' 0]. ik_created r < 3700 - 100"
    by (simp add: idemo_kept_row_def idemo_row_def)
  note sweep = idemo_sweep [OF old, of "[?F (Kept idemo_reply)]" "''l''" "[idemo_kept_row ''k'' 0]" 0 3700, simplified]
  have "idemo_step\<^sup>*\<^sup>* idem_start (idemo_state [?F (Kept idemo_reply), ?G Ready] [] [] 3700 3700)"
    by (rule step [OF step [OF arrived sweep(1)] sweep(2)])
  from step [OF this] idemo_insert [of "''l''" "[]" "[?F (Kept idemo_reply)]" 3700 "[]" 3700 3700]
  have "idemo_step\<^sup>*\<^sup>* idem_start
      (idemo_state [?F (Kept idemo_reply), ?G Inserted] [] [idemo_row ''l'' 3700] 3700 3700)" by simp
  from step [OF this] idemo_arrive [of "''k''" "[?F (Kept idemo_reply), ?G Inserted]" "[]" "[idemo_row ''l'' 3700]" 3700 3700]
  show ?thesis unfolding idem_reachable_def idemo_waiting_def by simp
qed

section \<open>Properties\<close>

text \<open>
  C23. Whatever statements of concurrent requests interleave on the shared connection, the claim of
  an idempotency key is inserted only later than the time to live after every request with this key
  that was claimed and is kept, and while none with this key is under way: within the time to live a
  key is executed at most once with a kept response.  The condition is that no rollback of another
  request fell between the insert and the commit of a claim with this very key (the code does not
  exclude that), and that no request takes longer than the time to live.
\<close>

theorem idempotency_key_executed_once:
  assumes "0 \<le> ttl" and "idem_reachable K ttl s"
    and at: "at_phase i Ready s f"
    and insert: "conn_insert (running_row K (fl_request f) (fl_now f)) (conn_of s) = Some c"
    and undone: "\<And>g. g \<in> set (sys_flights s) \<Longrightarrow> flight_key g = flight_key f \<Longrightarrow> \<not> fl_undone g"
  shows "\<forall>g \<in> set (sys_flights s). flight_key g = flight_key f \<and> claimed g \<longrightarrow>
    (\<exists>p. fl_phase g = Kept p) \<and> fl_now g + ttl < sys_clock s"
proof (intro ballI impI)
  fix g assume g: "g \<in> set (sys_flights s)" "flight_key g = flight_key f \<and> claimed g"
  note inv = idem_reachable_inv [OF assms(2)]
  have "untouched (flight_key f) (sys_flights s)" using undone by (simp add: untouched_def)
  note ok = idem_invD(5) [OF inv assms(1) this]
  have force: "\<not> in_force ttl (sys_clock s) g"
    using insert_free [OF ok insert refl refl] g by (metis in_set_conv_nth)
  then have late: "fl_now g + ttl < sys_clock s" using g(2) by (simp add: in_force_def)
  then have "ended g" using idem_invD(4) [OF inv assms(1) g(1)] by force
  with g(2) have "\<exists>p. fl_phase g = Kept p" by (auto simp: ended_def claimed_def split: phase.splits)
  with late show "(\<exists>p. fl_phase g = Kept p) \<and> fl_now g + ttl < sys_clock s" by blast
qed

lemma idempotency_key_executed_once_witness:
  "(\<exists>c. conn_insert (idemo_row ''k'' 3700) (conn_of idemo_waiting) = Some c) \<and>
   (\<exists>g. g \<in> set (sys_flights idemo_waiting) \<and> flight_key g = ''k'' \<and> claimed g \<and>
     (\<exists>p. fl_phase g = Kept p) \<and> fl_now g + 100 < sys_clock idemo_waiting)"
proof -
  have at: "at_phase 2 Ready idemo_waiting (idemo_flight ''k'' 3700 Ready)"
    by (simp add: at_phase_def idemo_waiting_def idemo_state_def idemo_flight_def)
  have ins: "conn_insert (running_row idemo_codec (fl_request (idemo_flight ''k'' 3700 Ready))
      (fl_now (idemo_flight ''k'' 3700 Ready))) (conn_of idemo_waiting) =
    Some \<lparr>saved = [], working = [idemo_row ''l'' 3700, idemo_row ''k'' 3700]\<rparr>"
    by (simp add: conn_insert_def idemo_waiting_def idemo_state_def idemo_flight_def idemo_row_def idemo_request_def)
  have key: "flight_key (idemo_flight ''k'' 3700 Ready) = ''k''" by (simp add: idemo_flight_def idemo_request_def)
  have "\<not> fl_undone g" if "g \<in> set (sys_flights idemo_waiting)" for g
    using that by (auto simp: idemo_waiting_def idemo_state_def idemo_flight_def)
  from idempotency_key_executed_once [OF _ idemo_reachable at ins this] key
  have "\<forall>g \<in> set (sys_flights idemo_waiting). flight_key g = ''k'' \<and> claimed g \<longrightarrow>
     (\<exists>p. fl_phase g = Kept p) \<and> fl_now g + 100 < sys_clock idemo_waiting" by simp
  moreover have "idemo_flight ''k'' 0 (Kept idemo_reply) \<in> set (sys_flights idemo_waiting)"
    "flight_key (idemo_flight ''k'' 0 (Kept idemo_reply)) = ''k''" "claimed (idemo_flight ''k'' 0 (Kept idemo_reply))"
    by (simp_all add: idemo_waiting_def idemo_state_def idemo_flight_def idemo_request_def claimed_def)
  moreover have "\<exists>c. conn_insert (idemo_row ''k'' 3700) (conn_of idemo_waiting) = Some c"
    using ins by (simp add: idemo_row_def idemo_flight_def)
  ultimately show ?thesis by blast
qed

text \<open>
  Serving the same request twice, one after the other and within the time to live, runs the
  application once: the second answer is the kept response of the first and the application's state
  does not change.
\<close>

theorem repeated_request_runs_once:
  assumes m: "saved (mw_conn m) = working (mw_conn m)"
    and q: "keyed q" and fresh: "row_of ik_key (hq_key q) (working (mw_conn m)) = None"
    and first: "dispatch K ttl app q now (m, w) = (Some p, m1, w1)" "keeps_response p"
    and later: "now \<le> now'" "now' \<le> now + ttl"
  shows "app q w = (Some p, w1) \<and>
    (\<exists>m2. dispatch K ttl app q now' (m1, w1) = (Some p, m2, w1))"
proof -
  let ?m = "cleanup_if_due ttl now m"
  have free: "row_of ik_key (hq_key q) (working (mw_conn ?m)) = None"
    using fresh unfolding row_of_None_iff by (auto simp: cleanup_if_due_def conn_defs)
  then have claim: "dispatch_claim K ttl q now m =
      (Claimed, ?m\<lparr>mw_conn := conn_commit (mw_conn ?m\<lparr>working := working (mw_conn ?m) @ [running_row K q now]\<rparr>)\<rparr>)"
    unfolding claim_of_table [OF q] Let_def by (simp add: conn_insert_def)
  let ?kept = "(running_row K q now)\<lparr>ik_status := rs_status p, ik_response := rs_body p, ik_state := ''completed''\<rparr>"
  have others: "update_where (own_running K q) g t = t" if "row_of ik_key (hq_key q) t = None" for g t
    using that unfolding row_of_None_iff update_where_def by (intro map_idI) (metis image_eqI own_running_def)
  from first(1) claim obtain run: "app q w = (Some p, w1)" and m1: "mw_conn m1 =
      \<lparr>saved = working (mw_conn ?m) @ [?kept], working = working (mw_conn ?m) @ [?kept]\<rparr>"
    using first(2) others [OF free]
    by (auto simp: dispatch_def dispatch_finish_def conn_defs own_running_def update_where_append
        update_where_def split: prod.splits)
  let ?n = "cleanup_if_due ttl now' m1"
  have "\<exists>t. mw_conn ?n = \<lparr>saved = t @ [?kept], working = t @ [?kept]\<rparr> \<and> row_of ik_key (hq_key q) t = None"
    using m1 free later(2) unfolding row_of_None_iff by (auto simp: cleanup_if_due_def conn_defs)
  then obtain t where t: "mw_conn ?n = \<lparr>saved = t @ [?kept], working = t @ [?kept]\<rparr>"
    "row_of ik_key (hq_key q) t = None" by blast
  then have row: "row_of ik_key (hq_key q) (t @ [?kept]) = Some ?kept" by (simp add: row_of_append)
  have "fst (dispatch_claim K ttl q now' m1) = Reply p"
    unfolding claim_of_table [OF q] Let_def using t row
    by (simp add: conn_insert_def conn_rollback_def stored_answer_def)
  then show ?thesis using run by (auto simp: dispatch_def split: prod.splits)
qed

lemma repeated_request_runs_once_witness:
  "\<exists>m2. dispatch idemo_codec 100 (\<lambda>q n. (Some idemo_reply, Suc n)) (idemo_request ''k'' ''a'') 50
     (fst (snd (dispatch idemo_codec 100 (\<lambda>q n. (Some idemo_reply, Suc n)) (idemo_request ''k'' ''a'') 1
       (sys_mw idem_start, 0))), 1) = (Some idemo_reply, m2, 1)"
proof -
  let ?app = "\<lambda>(q :: http_request) n. (Some idemo_reply, Suc n)"
  have k: "keyed (idemo_request ''k'' ''a'')" by (rule idemo_keyed) simp
  obtain m1 where first: "dispatch idemo_codec 100 ?app (idemo_request ''k'' ''a'') 1 (sys_mw idem_start, 0) =
      (Some idemo_reply, m1, 1)"
    unfolding dispatch_def fst_conv claim_of_table [OF k] Let_def
    by (simp add: cleanup_if_due_def cleanup_due_def idem_start_def conn_insert_def)
  have "keeps_response idemo_reply" by (simp add: keeps_response_def idemo_reply_def)
  from repeated_request_runs_once [OF _ k _ first this, of 50] first
  show ?thesis by (simp add: idem_start_def)
qed

section \<open>A rollback inside a claim\<close>

text \<open>
  The claim is two statements on the connection that all requests share.  When a duplicate of
  another key fails its insert, a second request inserts its row, and the rollback of the first one
  runs before the commit of the second, the row of the second is gone although its insert succeeded:
  the next request with that key is granted the claim again.
\<close>

theorem shared_rollback_loses_claim:
  assumes "saved c = working c" and "conn_insert r0 c = None" and "conn_insert r1 c = Some c1"
  shows "conn_commit (conn_rollback c1) = c \<and>
    conn_insert r1 (conn_commit (conn_rollback c1)) = Some c1"
  using assms by (auto simp: conn_insert_def conn_commit_def conn_rollback_def split: if_splits)

end
