(* ===== verification/Request_Preparation.thy ===== *)
theory Request_Preparation
  imports Request_Contracts Json_Text
begin

text \<open>
  \<open>app/ci_request_dispatch.py\<close>: the background preparation of an accepted request.  It moves the
  request to preparing, checks its Git identity, base and configuration, and then dispatches it to
  a worker job or ends it as a preflight failure.  What GitHub and the planner answer is a
  parameter: the answers of \<open>plan_private_ci_job\<close>, \<open>resolve_identity\<close> and
  \<open>get_github_changed_files_result\<close>, each of which may fail with a code or unexpectedly.
\<close>

section \<open>The environment\<close>

datatype 'a answer = Answer 'a | Fails string | Crashes

record ci_plan =
  pl_applicable :: bool
  pl_reason :: "string option"
  pl_commit_sha :: "string option"
  pl_tree_sha :: "string option"
  pl_policy_source :: json
  pl_detected_stacks :: "json list"
  pl_selected_profiles :: "json list"
  pl_workspaces :: nat

record changed_result =
  cf_ok :: bool
  cf_error_code :: "string option"
  cf_changed_files :: "string list"
  cf_total_count :: int
  cf_truncated :: bool

record preflight_env =
  env_plan :: "string \<Rightarrow> string \<Rightarrow> string \<Rightarrow> ci_plan answer"
  env_resolve_ref :: "string \<Rightarrow> string \<Rightarrow> (string \<times> string) answer"
  env_resolve_commit :: "string \<Rightarrow> string \<Rightarrow> (string \<times> string) answer"
  env_changed_files :: "string \<Rightarrow> string \<Rightarrow> string \<Rightarrow> changed_result answer"
  env_policy_source :: "string \<Rightarrow> json"
  env_repository_config :: "string \<Rightarrow> json"
  env_codec :: codec

definition effective_ci_config_digest :: "preflight_env \<Rightarrow> string \<Rightarrow> string" where
  "effective_ci_config_digest E repo =
     sha256 (env_codec E) (json_text (float_text (env_codec E)) (sort_keys
       (JObj [(''policy_source'', env_policy_source E repo),
              (''repository_config'', env_repository_config E repo)])))"

section \<open>Failure codes\<close>

text \<open>\<open>str.upper\<close> on Latin-1 text, as far as letters A to Z come out of it.\<close>

definition upper_char :: "char \<Rightarrow> string" where
  "upper_char c = (let n = (of_char c :: nat) in
     if 97 \<le> n \<and> n \<le> 122 then [char_of (n - 32)] else if n = 223 then ''SS'' else [c])"

definition code_char :: "char \<Rightarrow> bool" where
  "code_char c = (let n = (of_char c :: nat) in
     65 \<le> n \<and> n \<le> 90 \<or> 48 \<le> n \<and> n \<le> 57 \<or> c = CHR ''_'')"

text \<open>\<open>re.sub\<close> of every run of other characters by one underscore; the flag says that a run is open.\<close>

fun sub_other :: "bool \<Rightarrow> string \<Rightarrow> string" where
  "sub_other open_run [] = []"
| "sub_other open_run (c # cs) =
     (if code_char c then c # sub_other False cs
      else if open_run then sub_other True cs
      else CHR ''_'' # sub_other True cs)"

definition strip_underscores :: "string \<Rightarrow> string" where
  "strip_underscores s =
     rev (dropWhile (\<lambda>c. c = CHR ''_'') (rev (dropWhile (\<lambda>c. c = CHR ''_'') s)))"

definition prefixed_code :: "string \<Rightarrow> string" where
  "prefixed_code code =
     (let safe = strip_underscores (sub_other False
        (concat (map upper_char (if code = [] then ''UNKNOWN'' else code))))
      in ''CI_PREFLIGHT_'' @ (if safe = [] then ''UNKNOWN'' else safe))"

section \<open>The preflight\<close>

text \<open>A failure carries its code and reason; \<open>Crashed\<close> is any other exception.\<close>

datatype preflight = Ready dispatch_args | Rejected string string | Crashed

definition or_empty :: "string option \<Rightarrow> string" where
  "or_empty s = (case s of None \<Rightarrow> [] | Some t \<Rightarrow> t)"

definition auto_profiles :: "string list" where
  "auto_profiles = [''repo-auto-check'', ''repo-fast-check'']"

definition no_changes :: changed_result where
  "no_changes = \<lparr>cf_ok = True, cf_error_code = None, cf_changed_files = [], cf_total_count = 0,
     cf_truncated = False\<rparr>"

definition ready_args :: "ci_plan \<Rightarrow> string \<Rightarrow> changed_result \<Rightarrow> dispatch_args" where
  "ready_args p tree c =
     \<lparr>da_tree_sha = tree, da_changed_files = cf_changed_files c,
      da_changed_files_total = cf_total_count c, da_changed_files_truncated = cf_truncated c,
      da_event_data = [(''policy_source'', pl_policy_source p),
        (''detected_stacks'', JList (pl_detected_stacks p)),
        (''selected_profiles'', JList (pl_selected_profiles p)),
        (''workspaces_total'', JInt (int (pl_workspaces p)))]\<rparr>"

text \<open>The checks after the plan was accepted: branch head, base, configuration, changed files.\<close>

definition check_changed_files ::
  "preflight_env \<Rightarrow> ci_request \<Rightarrow> ci_plan \<Rightarrow> string \<Rightarrow> string \<Rightarrow> preflight" where
  "check_changed_files E r p tree base =
     (if r_profile r \<notin> set auto_profiles then Ready (ready_args p tree no_changes)
      else (case env_changed_files E (r_repository r) base (r_commit_sha r) of
          Answer c \<Rightarrow>
            (if \<not> cf_ok c
             then Rejected (prefixed_code (case cf_error_code c of
                    None \<Rightarrow> ''CHANGED_FILES_FAILED''
                  | Some e \<Rightarrow> if e = [] then ''CHANGED_FILES_FAILED'' else e))
                ''changed_files_preflight_failed''
             else Ready (ready_args p tree c))
        | _ \<Rightarrow> Crashed))"

definition check_configuration ::
  "preflight_env \<Rightarrow> ci_request \<Rightarrow> ci_plan \<Rightarrow> string \<Rightarrow> string \<Rightarrow> preflight" where
  "check_configuration E r p tree base =
     (if Some (effective_ci_config_digest E (r_repository r)) \<noteq> r_effective_config_digest r
      then Rejected ''CI_PREFLIGHT_CONFIG_CHANGED'' ''effective_ci_config_changed''
      else check_changed_files E r p tree base)"

definition check_base ::
  "preflight_env \<Rightarrow> ci_request \<Rightarrow> ci_plan \<Rightarrow> string \<Rightarrow> ci_db \<Rightarrow> preflight" where
  "check_base E r p tree db =
     (let base = json_string (map_of (get_ci_request_payload_in_db (r_request_id r) db) ''base_sha'')
      in if base = [] then check_configuration E r p tree base
         else (case env_resolve_commit E (r_repository r) base of
             Answer _ \<Rightarrow> check_configuration E r p tree base
           | Fails code \<Rightarrow> Rejected (prefixed_code code) ''base_identity_unavailable''
           | Crashes \<Rightarrow> Crashed))"

definition check_branch ::
  "preflight_env \<Rightarrow> ci_request \<Rightarrow> ci_plan \<Rightarrow> string \<Rightarrow> ci_db \<Rightarrow> preflight" where
  "check_branch E r p tree db =
     (case env_resolve_ref E (r_repository r) (r_branch r) of
        Fails code \<Rightarrow> Rejected (prefixed_code code) ''branch_identity_unavailable''
      | Crashes \<Rightarrow> Crashed
      | Answer (commit, btree) \<Rightarrow>
          if commit \<noteq> r_commit_sha r
          then Rejected ''CI_PREFLIGHT_BRANCH_HEAD_MISMATCH'' ''branch_no_longer_points_to_exact_commit''
          else if btree \<noteq> tree
          then Rejected ''CI_PREFLIGHT_TREE_MISMATCH'' ''branch_tree_identity_mismatch''
          else check_base E r p tree db)"

definition perform_ci_request_preflight :: "preflight_env \<Rightarrow> ci_request \<Rightarrow> ci_db \<Rightarrow> preflight" where
  "perform_ci_request_preflight E r db =
     (case env_plan E (r_repository r) (r_commit_sha r) (r_profile r) of
        Fails code \<Rightarrow> Rejected (prefixed_code code) ''exact_git_identity_unavailable''
      | Crashes \<Rightarrow> Crashed
      | Answer p \<Rightarrow>
          let reason = (if truthy (pl_reason p) then or_empty (pl_reason p) else ''not_applicable'')
          in if \<not> pl_applicable p then Rejected (prefixed_code reason) reason
          else if pl_commit_sha p \<noteq> Some (r_commit_sha r)
          then Rejected ''CI_PREFLIGHT_COMMIT_MISMATCH'' ''exact_commit_mismatch''
          else if \<not> is_sha (or_empty (pl_tree_sha p))
          then Rejected ''CI_PREFLIGHT_TREE_UNAVAILABLE'' ''exact_tree_unavailable''
          else check_branch E r p (or_empty (pl_tree_sha p)) db)"

section \<open>Processing one request\<close>

text \<open>
  Each function returns the answer, or the error it raises, with the store after the transactions
  it committed.  \<open>eid\<close> is the fresh id of a preflight error, \<open>jid\<close> the one of a new job.
\<close>

definition failure_args :: "string \<Rightarrow> string \<Rightarrow> string \<Rightarrow> transition_args" where
  "failure_args eid code reason = no_transition_args\<lparr>ta_preflight_error_id := Some eid,
     ta_preflight_error_code := Some code, ta_terminal_reason := Some reason,
     ta_event_data := [(''preflight_error_id'', JStr eid), (''preflight_error_code'', JStr code)]\<rparr>"

definition mark_preflight_failed ::
  "ci_request \<Rightarrow> string \<Rightarrow> string \<Rightarrow> string \<Rightarrow> time \<Rightarrow> ci_db \<Rightarrow>
     (ci_error + ci_request option) \<times> ci_db" where
  "mark_preflight_failed r code reason eid now db =
     (case transition_ci_request (r_request_id r) (int (r_revision r)) (PhTerminal, RqPreflightFailed)
             (failure_args eid code reason) now db of
        Inr (r', db') \<Rightarrow> (Inr (Some r'), db')
      | Inl e \<Rightarrow> if e = CIRequestRevisionConflict then (Inr (request_row (r_request_id r) db), db)
                  else (Inl e, db))"

definition begin_preparation :: "string \<Rightarrow> time \<Rightarrow> ci_db \<Rightarrow> (ci_error + ci_request option) \<times> ci_db" where
  "begin_preparation rid now db =
     (case request_row rid db of
        None \<Rightarrow> (Inr None, db)
      | Some r \<Rightarrow>
          if r_phase r \<noteq> PhAccepted then (Inr (Some r), db)
          else (case transition_ci_request rid (int (r_revision r)) (PhPreparing, RqPreparing)
                  (no_transition_args\<lparr>ta_event_data :=
                     [(''source'', JStr ''durable_preflight_dispatcher'')]\<rparr>) now db of
              Inr (r', db') \<Rightarrow> (Inr (Some r'), db')
            | Inl e \<Rightarrow> if e = CIRequestRevisionConflict then (Inr (request_row rid db), db)
                        else (Inl e, db)))"

definition finish_preparation ::
  "preflight_env \<Rightarrow> ci_request \<Rightarrow> string \<Rightarrow> string \<Rightarrow> time \<Rightarrow> ci_db \<Rightarrow>
     (ci_error + ci_request option) \<times> ci_db" where
  "finish_preparation E r eid jid now db =
     (case perform_ci_request_preflight E r db of
        Rejected code reason \<Rightarrow> mark_preflight_failed r code reason eid now db
      | Crashed \<Rightarrow> mark_preflight_failed r ''CI_PREFLIGHT_INTERNAL_ERROR'' ''preflight_internal_error'' eid now db
      | Ready d \<Rightarrow>
          (case dispatch_ci_request (r_request_id r) (int (r_revision r)) d jid now db of
             Inr ((r', _), db') \<Rightarrow> (Inr (Some r'), db')
           | Inl e \<Rightarrow> (Inr (request_row (r_request_id r) db), db)))"

definition process_ci_request ::
  "preflight_env \<Rightarrow> string \<Rightarrow> string \<Rightarrow> string \<Rightarrow> time \<Rightarrow> time \<Rightarrow> ci_db \<Rightarrow>
     (ci_error + ci_request option) \<times> ci_db" where
  "process_ci_request E rid eid jid now now' db =
     (case begin_preparation rid now db of
        (Inl e, db1) \<Rightarrow> (Inl e, db1)
      | (Inr None, db1) \<Rightarrow> (Inr None, db1)
      | (Inr (Some r), db1) \<Rightarrow>
          if r_phase r \<noteq> PhPreparing then (Inr (Some r), db1)
          else finish_preparation E r eid jid now' db1)"

section \<open>The scheduler\<close>

text \<open>The in-process queue and the set of requests that are queued or in work.\<close>

record scheduler =
  sc_queue :: "string list"
  sc_scheduled :: "string list"

definition schedule_ci_request_preparation :: "string \<Rightarrow> scheduler \<Rightarrow> bool \<times> scheduler" where
  "schedule_ci_request_preparation rid s =
     (if rid \<in> set (sc_scheduled s) then (False, s)
      else (True, s\<lparr>sc_scheduled := sc_scheduled s @ [rid], sc_queue := sc_queue s @ [rid]\<rparr>))"

fun schedule_all :: "string list \<Rightarrow> scheduler \<Rightarrow> nat \<times> scheduler" where
  "schedule_all [] s = (0, s)"
| "schedule_all (rid # rids) s =
     (case schedule_ci_request_preparation rid s of
        (b, s1) \<Rightarrow> (case schedule_all rids s1 of (n, s2) \<Rightarrow> (of_bool b + n, s2)))"

text \<open>The result counts the pending and the newly scheduled requests.\<close>

definition recover_pending_ci_requests :: "int \<Rightarrow> ci_db \<Rightarrow> scheduler \<Rightarrow> (nat \<times> nat) \<times> scheduler" where
  "recover_pending_ci_requests limit db s =
     (let pending = list_pending_ci_requests limit db;
          res = schedule_all (map r_request_id pending) s
      in ((length pending, fst res), snd res))"

text \<open>
  One worker thread serving the queue until it is empty.  \<open>fresh\<close> gives each request its error id
  and job id, \<open>clock\<close> its two readings; an error of one request is logged and the loop goes on.
\<close>

fun drain_queue ::
  "preflight_env \<Rightarrow> (string \<Rightarrow> string \<times> string) \<Rightarrow> (string \<Rightarrow> time \<times> time) \<Rightarrow> string list \<Rightarrow> string list \<Rightarrow>
     ci_db \<Rightarrow> string list \<times> ci_db" where
  "drain_queue E fresh clock [] scheduled db = (scheduled, db)"
| "drain_queue E fresh clock (rid # rids) scheduled db =
     drain_queue E fresh clock rids (removeAll rid scheduled)
       (snd (process_ci_request E rid (fst (fresh rid)) (snd (fresh rid)) (fst (clock rid)) (snd (clock rid)) db))"

definition worker_loop ::
  "preflight_env \<Rightarrow> (string \<Rightarrow> string \<times> string) \<Rightarrow> (string \<Rightarrow> time \<times> time) \<Rightarrow> scheduler \<Rightarrow> ci_db \<Rightarrow>
     scheduler \<times> ci_db" where
  "worker_loop E fresh clock s db =
     (case drain_queue E fresh clock (sc_queue s) (sc_scheduled s) db of
        (scheduled, db') \<Rightarrow> (s\<lparr>sc_queue := [], sc_scheduled := scheduled\<rparr>, db'))"

end
