(* ===== verification/Preparation_Facts.thy ===== *)
theory Preparation_Facts
  imports Request_Preparation
begin

text \<open>
  The preparation of a request: its transitions cannot fail on a consistent store, a preflight
  that passes has compared every exact identity, and serving the queue leaves no accepted request.
\<close>

section \<open>Failure codes\<close>

lemma prefixed_code_nonempty [simp]: "prefixed_code c \<noteq> []"
  by (simp add: prefixed_code_def Let_def)

lemma rejected_code:
  "perform_ci_request_preflight E r db = Rejected code reason \<Longrightarrow> code \<noteq> []"
  by (auto simp: perform_ci_request_preflight_def check_branch_def check_base_def check_configuration_def
      check_changed_files_def Let_def split: answer.splits if_splits prod.splits)

text \<open>What a preflight that passes has established.\<close>

definition preflight_passed :: "preflight_env \<Rightarrow> ci_request \<Rightarrow> string \<Rightarrow> bool" where
  "preflight_passed E r tree \<longleftrightarrow> is_sha tree \<and>
     (\<exists>p. env_plan E (r_repository r) (r_commit_sha r) (r_profile r) = Answer p \<and> pl_applicable p \<and>
        pl_commit_sha p = Some (r_commit_sha r) \<and> pl_tree_sha p = Some tree) \<and>
     env_resolve_ref E (r_repository r) (r_branch r) = Answer (r_commit_sha r, tree) \<and>
     r_effective_config_digest r = Some (effective_ci_config_digest E (r_repository r))"

lemma checked_files_ready:
  "check_changed_files E r p tree base = Ready d \<Longrightarrow> da_tree_sha d = tree"
  by (auto simp: check_changed_files_def ready_args_def split: answer.splits if_splits)

lemma preflight_ready:
  assumes "perform_ci_request_preflight E r db = Ready d"
  shows "preflight_passed E r (da_tree_sha d)"
proof -
  from assms obtain p where p: "env_plan E (r_repository r) (r_commit_sha r) (r_profile r) = Answer p"
    "pl_applicable p" "pl_commit_sha p = Some (r_commit_sha r)" "is_sha (or_empty (pl_tree_sha p))"
    and branch: "check_branch E r p (or_empty (pl_tree_sha p)) db = Ready d"
    by (auto simp: perform_ci_request_preflight_def Let_def split: answer.splits if_splits)
  from p(4) obtain tree where tree: "pl_tree_sha p = Some tree"
    by (cases "pl_tree_sha p") (auto simp: or_empty_def is_sha_def)
  from branch tree have ref: "env_resolve_ref E (r_repository r) (r_branch r) = Answer (r_commit_sha r, tree)"
    and base: "check_base E r p tree db = Ready d"
    by (auto simp: check_branch_def or_empty_def split: answer.splits if_splits prod.splits)
  from base obtain b where "check_configuration E r p tree b = Ready d"
    by (auto simp: check_base_def Let_def split: answer.splits if_splits)
  then have "r_effective_config_digest r = Some (effective_ci_config_digest E (r_repository r))"
    and "check_changed_files E r p tree b = Ready d"
    by (auto simp: check_configuration_def split: if_splits)
  with checked_files_ready p tree ref show ?thesis by (auto simp: preflight_passed_def or_empty_def)
qed

section \<open>Transitions of a consistent store succeed\<close>

lemma transition_total:
  assumes inv: "ci_inv db" and row: "request_row rid db = Some r"
    and allowed: "target \<in> set (allowed_transitions (request_state r))" "fst target \<notin> {PhQueued, PhRunning}"
    and a: "ta_worker_job_id a = None" "ta_expected_identity a = []" "validate_transition_metadata target a"
  shows "\<exists>ev db'. transition_ci_request rid (int (r_revision r)) target a now db =
      Inr (apply_transition target a ev now r, db') \<and>
    request_row rid db' = Some (apply_transition target a ev now r) \<and>
    ci_requests db' = update_where (\<lambda>x. r_request_id x = rid \<and> (int (r_revision x) = int (r_revision r) \<and>
      request_state x = request_state r)) (apply_transition target a ev now) (ci_requests db)"
proof -
  note parts = ci_invD [OF inv]
  note dist = requests_invD(1) [OF parts(2)]
  from row_of_SomeD [OF row] have r: "r \<in> set (ci_requests db)" "r_request_id r = rid" by auto
  let ?Q = "\<lambda>x. int (r_revision x) = int (r_revision r) \<and> request_state x = request_state r"
  obtain db1 where ins: "insert_request_event rid (r_revision r + 1) ''transition'' (Some (request_state r))
      target (JObj (ta_event_data a)) db = Inr (next_request_event_id db, db1)"
    using next_event_free [OF parts(2) row] by blast
  let ?f = "apply_transition target a (next_request_event_id db) now"
  have same: "ci_requests db1 = ci_requests db" using insert_request_event_frame [OF ins] by simp
  have bound: "truthy (r_worker_job_id r) \<Longrightarrow> assert_worker_job_identity db r (the (r_worker_job_id r)) = None"
    using bindings_invD(2) [OF parts(3) r(1)]
    by (auto simp: bound_ok_def assert_worker_job_identity_def elim!: truthyE)
  have guard: "transition_guard db r target a = None"
    using allowed a bound by (auto simp: transition_guard_def Let_def)
  have hit: "row_count (\<lambda>x. r_request_id x = rid \<and> ?Q x) (ci_requests db) = 1"
    by (subst row_count_key_1 [OF dist]) (rule exI [of _ r], simp add: row)
  have valid: "target \<in> set valid_phase_status" by (rule allowed_targets_valid [OF allowed(1)])
  have run: "transition_ci_request rid (int (r_revision r)) target a now db =
      Inr (?f r, db1\<lparr>ci_requests := update_where (\<lambda>x. r_request_id x = rid \<and> ?Q x) ?f (ci_requests db)\<rparr>)"
    using valid row guard ins hit a(1) same
    by (simp add: transition_ci_request_def Let_def worker_binding_ok_def)
  have "request_row rid (db1\<lparr>ci_requests := update_where (\<lambda>x. r_request_id x = rid \<and> ?Q x) ?f (ci_requests db)\<rparr>) = Some (?f r)"
    using row r(2) by (simp add: row_of_update_where)
  with run show ?thesis by auto
qed

section \<open>Accepted requests\<close>

definition accepted_ids :: "ci_db \<Rightarrow> string set" where
  "accepted_ids db = r_request_id ` {r \<in> set (ci_requests db). r_phase r = PhAccepted}"

lemma accepted_update:
  assumes "\<And>x. r_request_id (f x) = r_request_id x" "\<And>x. r_phase (f x) \<noteq> PhAccepted"
  shows "accepted_ids (db\<lparr>ci_requests := update_where P f (ci_requests db)\<rparr>) \<subseteq> accepted_ids db"
  using assms by (auto simp: accepted_ids_def set_update_where)

lemma accepted_subset:
  assumes "ci_requests db' = update_where P f (ci_requests db)"
    and "\<And>x. r_request_id (f x) = r_request_id x" "\<And>x. r_phase (f x) \<noteq> PhAccepted"
  shows "accepted_ids db' \<subseteq> accepted_ids db"
  using assms by (auto simp: accepted_ids_def set_update_where)

lemma accepted_not:
  assumes "requests_inv db" and "request_row rid db = Some r" and "r_phase r \<noteq> PhAccepted"
  shows "rid \<notin> accepted_ids db"
proof
  assume "rid \<in> accepted_ids db"
  then obtain x where x: "x \<in> set (ci_requests db)" "r_phase x = PhAccepted" "rid = r_request_id x"
    by (auto simp: accepted_ids_def)
  from row_of_distinct [OF requests_invD(1) [OF assms(1)] x(1) x(3) [symmetric]] assms(2,3) x(2)
  show False by simp
qed

lemma accepted_none: "request_row rid db = None \<Longrightarrow> rid \<notin> accepted_ids db"
  by (auto simp: accepted_ids_def row_of_None_iff)

lemma apply_transition_phase [simp]: "r_phase (apply_transition t a ev now r) = fst t"
  by (simp add: apply_transition_def)

lemma dispatched_phase [simp]: "r_phase (dispatched tree wid ev now x) = PhQueued"
  by (simp add: dispatched_def)

lemma phase_state:
  assumes "requests_inv db" and "request_row rid db = Some r"
  shows "r_phase r = PhAccepted \<Longrightarrow> request_state r = (PhAccepted, RqAccepted)"
    and "r_phase r = PhPreparing \<Longrightarrow> request_state r = (PhPreparing, RqPreparing)"
  using requests_invD(2) [OF assms(1)] row_of_SomeD [OF assms(2)]
  by (force simp: request_state_def valid_phase_status_def)+

section \<open>Processing\<close>

lemma begin_accepted:
  assumes inv: "ci_inv db" and row: "request_row rid db = Some r" and acc: "r_phase r = PhAccepted"
  obtains r1 db1 where "begin_preparation rid now db = (Inr (Some r1), db1)" "ci_inv db1"
    "request_row rid db1 = Some r1" "r_phase r1 = PhPreparing" "request_ident r1 = request_ident r"
    "r_effective_config_digest r1 = r_effective_config_digest r"
    "accepted_ids db1 \<subseteq> accepted_ids db"
proof -
  let ?a = "no_transition_args\<lparr>ta_event_data := [(''source'', JStr ''durable_preflight_dispatcher'')]\<rparr>"
  note st = phase_state(1) [OF ci_invD(2) [OF inv] row acc]
  obtain ev db1 where tr: "transition_ci_request rid (int (r_revision r)) (PhPreparing, RqPreparing) ?a now db =
      Inr (apply_transition (PhPreparing, RqPreparing) ?a ev now r, db1)"
    and row1: "request_row rid db1 = Some (apply_transition (PhPreparing, RqPreparing) ?a ev now r)"
    and reqs: "ci_requests db1 = update_where (\<lambda>x. r_request_id x = rid \<and> (int (r_revision x) = int (r_revision r) \<and>
      request_state x = request_state r)) (apply_transition (PhPreparing, RqPreparing) ?a ev now) (ci_requests db)"
    using transition_total [OF inv row, of "(PhPreparing, RqPreparing)" ?a now]
    by (auto simp: st allowed_transitions_def no_transition_args_def validate_transition_metadata_def)
  have "accepted_ids db1 \<subseteq> accepted_ids db" by (rule accepted_subset [OF reqs]) simp_all
  moreover have "begin_preparation rid now db = (Inr (Some (apply_transition (PhPreparing, RqPreparing) ?a ev now r)), db1)"
    using row acc tr by (simp add: begin_preparation_def)
  ultimately show thesis
    by (intro that [OF _ transition_ci_inv [OF inv tr] row1])
      (simp_all add: apply_transition_def request_ident_def no_transition_args_def)
qed

lemma mark_preparing:
  assumes inv: "ci_inv db" and row: "request_row rid db = Some r" and prep: "r_phase r = PhPreparing"
    and code: "code \<noteq> []"
  obtains r1 db1 where "mark_preflight_failed r code reason eid now db = (Inr (Some r1), db1)" "ci_inv db1"
    "request_row rid db1 = Some r1" "request_state r1 = (PhTerminal, RqPreflightFailed)"
    "r_preflight_error_code r1 = Some code" "r_terminal_reason r1 = Some reason"
    "r_preflight_error_id r1 = Some eid" "accepted_ids db1 \<subseteq> accepted_ids db"
proof -
  let ?a = "failure_args eid code reason" and ?t = "(PhTerminal, RqPreflightFailed)"
  note st = phase_state(2) [OF ci_invD(2) [OF inv] row prep]
  obtain ev db1 where tr: "transition_ci_request rid (int (r_revision r)) ?t ?a now db =
      Inr (apply_transition ?t ?a ev now r, db1)"
    and row1: "request_row rid db1 = Some (apply_transition ?t ?a ev now r)"
    and reqs: "ci_requests db1 = update_where (\<lambda>x. r_request_id x = rid \<and> (int (r_revision x) = int (r_revision r) \<and>
      request_state x = request_state r)) (apply_transition ?t ?a ev now) (ci_requests db)"
    using transition_total [OF inv row, of ?t ?a now] code
    by (auto simp: st allowed_transitions_def failure_args_def no_transition_args_def validate_transition_metadata_def)
  have "r_request_id r = rid" using row_of_key [OF row] .
  then have mark: "mark_preflight_failed r code reason eid now db = (Inr (Some (apply_transition ?t ?a ev now r)), db1)"
    using tr by (simp add: mark_preflight_failed_def)
  have sub: "accepted_ids db1 \<subseteq> accepted_ids db" by (rule accepted_subset [OF reqs]) simp_all
  show thesis
    by (rule that [OF mark transition_ci_inv [OF inv tr] row1 _ _ _ _ sub])
      (simp_all add: apply_transition_def failure_args_def request_state_def)
qed

text \<open>A dispatch that succeeds queues the request or finds it dispatched before.\<close>

lemma dispatch_accepted:
  assumes run: "dispatch_ci_request rid n d jid now db = Inr ((r', dd), db')"
  shows "accepted_ids db' \<subseteq> accepted_ids db"
  using dispatch_commit [OF run]
proof (elim disjE conjE exE)
  fix r :: ci_request and sa :: start_args and res :: start_result and db1 db2 :: ci_db and ev :: nat
  assume job: "create_ci_request_job_in_transaction rid sa jid now db = Inr (res, db1)"
    and ins: "insert_request_event rid (r_revision r + 1) ''worker_queued''
         (Some (PhPreparing, RqPreparing)) (PhQueued, RqQueued)
         (JObj (da_event_data d @ [(''worker_job_id'', JStr (j_job_id (sr_job res))),
            (''git_tree_sha'', JStr (da_tree_sha d))])) db1 = Inr (ev, db2)"
    and db': "db' = db2\<lparr>ci_requests := update_where (\<lambda>x. r_request_id x = rid \<and>
          (int (r_revision x) = n \<and> request_state x = (PhPreparing, RqPreparing)))
            (dispatched (da_tree_sha d) (j_job_id (sr_job res)) ev now) (ci_requests db2)\<rparr>"
  have "ci_requests db2 = ci_requests db"
    using create_job_frame [OF job [unfolded create_ci_request_job_in_transaction_def]]
      insert_request_event_frame [OF ins] by simp
  then have "ci_requests db' = update_where (\<lambda>x. r_request_id x = rid \<and>
          (int (r_revision x) = n \<and> request_state x = (PhPreparing, RqPreparing)))
            (dispatched (da_tree_sha d) (j_job_id (sr_job res)) ev now) (ci_requests db)" by (simp add: db')
  then show ?thesis by (rule accepted_subset) simp_all
qed simp

lemma dispatch_queued:
  assumes inv: "ci_inv db" and row: "request_row rid db = Some r" and prep: "r_phase r = PhPreparing"
    and run: "dispatch_ci_request rid n d jid now db = Inr ((r', dd), db')"
  shows "request_row rid db' = Some r' \<and> request_state r' = (PhQueued, RqQueued) \<and>
    r_tree_sha r' = Some (da_tree_sha d) \<and> (\<exists>wid. r_worker_job_id r' = Some wid)"
  using dispatch_commit [OF run]
proof (elim disjE conjE exE)
  fix x :: ci_request and sa :: start_args and res :: start_result and db1 db2 :: ci_db and ev :: nat
  let ?f = "dispatched (da_tree_sha d) (j_job_id (sr_job res)) ev now"
  assume x: "request_row rid db = Some x" "request_state x = (PhPreparing, RqPreparing)" "int (r_revision x) = n"
    and job: "create_ci_request_job_in_transaction rid sa jid now db = Inr (res, db1)"
    and ins: "insert_request_event rid (r_revision x + 1) ''worker_queued''
         (Some (PhPreparing, RqPreparing)) (PhQueued, RqQueued)
         (JObj (da_event_data d @ [(''worker_job_id'', JStr (j_job_id (sr_job res))),
            (''git_tree_sha'', JStr (da_tree_sha d))])) db1 = Inr (ev, db2)"
    and r': "r' = ?f x"
    and db': "db' = db2\<lparr>ci_requests := update_where (\<lambda>x. r_request_id x = rid \<and>
          (int (r_revision x) = n \<and> request_state x = (PhPreparing, RqPreparing))) ?f (ci_requests db2)\<rparr>"
  have "ci_requests db2 = ci_requests db"
    using create_job_frame [OF job [unfolded create_ci_request_job_in_transaction_def]]
      insert_request_event_frame [OF ins] by simp
  then show ?thesis using x row_of_key [OF x(1)] by (simp add: db' r' row_of_update_where)
qed (use row prep in simp)

lemma finish_preparing:
  assumes inv: "ci_inv db" and row: "request_row rid db = Some r" and prep: "r_phase r = PhPreparing"
    and jid: "jid \<noteq> []"
  obtains r1 db1 where "finish_preparation E r eid jid now db = (Inr (Some r1), db1)" "ci_inv db1"
    "request_row rid db1 = Some r1" "accepted_ids db1 \<subseteq> accepted_ids db"
    "case perform_ci_request_preflight E r db of
       Rejected code reason \<Rightarrow> request_state r1 = (PhTerminal, RqPreflightFailed) \<and>
         r_preflight_error_code r1 = Some code \<and> r_terminal_reason r1 = Some reason
     | Crashed \<Rightarrow> request_state r1 = (PhTerminal, RqPreflightFailed) \<and>
         r_preflight_error_code r1 = Some ''CI_PREFLIGHT_INTERNAL_ERROR'' \<and>
         r_terminal_reason r1 = Some ''preflight_internal_error''
     | Ready d \<Rightarrow> request_state r1 = (PhQueued, RqQueued) \<and> r_tree_sha r1 = Some (da_tree_sha d) \<and>
           (\<exists>wid. r_worker_job_id r1 = Some wid) \<or> r1 = r \<and> db1 = db"
proof (cases "perform_ci_request_preflight E r db")
  case (Ready d)
  have id: "r_request_id r = rid" using row_of_key [OF row] .
  show thesis
  proof (cases "dispatch_ci_request rid (int (r_revision r)) d jid now db")
    case (Inl e)
    have "finish_preparation E r eid jid now db = (Inr (Some r), db)"
      using Ready Inl id row by (simp add: finish_preparation_def)
    with that [OF _ inv row] Ready show thesis by simp
  next
    case (Inr p)
    obtain r' dd db' where p: "p = ((r', dd), db')" by (metis prod.collapse)
    note run = Inr [unfolded p]
    have "finish_preparation E r eid jid now db = (Inr (Some r'), db')"
      using Ready run id by (simp add: finish_preparation_def)
    with that [OF _ dispatch_ci_inv [OF inv jid run]] dispatch_queued [OF inv row prep run]
      dispatch_accepted [OF run] Ready show thesis by auto
  qed
next
  case (Rejected code reason)
  obtain r1 db1 where 1: "mark_preflight_failed r code reason eid now db = (Inr (Some r1), db1)" "ci_inv db1"
    "request_row rid db1 = Some r1" "request_state r1 = (PhTerminal, RqPreflightFailed)"
    "r_preflight_error_code r1 = Some code" "r_terminal_reason r1 = Some reason" "accepted_ids db1 \<subseteq> accepted_ids db"
    by (rule mark_preparing [OF inv row prep rejected_code [OF Rejected]])
  show thesis
    by (rule that [of r1 db1]) (use 1 Rejected in \<open>simp_all add: finish_preparation_def\<close>)
next
  case Crashed
  obtain r1 db1 where 1: "mark_preflight_failed r ''CI_PREFLIGHT_INTERNAL_ERROR'' ''preflight_internal_error'' eid now db =
      (Inr (Some r1), db1)" "ci_inv db1"
    "request_row rid db1 = Some r1" "request_state r1 = (PhTerminal, RqPreflightFailed)"
    "r_preflight_error_code r1 = Some ''CI_PREFLIGHT_INTERNAL_ERROR''"
    "r_terminal_reason r1 = Some ''preflight_internal_error''" "accepted_ids db1 \<subseteq> accepted_ids db"
    by (rule mark_preparing [OF inv row prep, of "''CI_PREFLIGHT_INTERNAL_ERROR''"]) simp
  show thesis
    by (rule that [of r1 db1]) (use 1 Crashed in \<open>simp_all add: finish_preparation_def\<close>)
qed

text \<open>Serving a request keeps the store consistent and leaves it no longer accepted.\<close>

lemma process_leaves_accepted:
  assumes inv: "ci_inv db" and jid: "jid \<noteq> []"
  shows "ci_inv (snd (process_ci_request E rid eid jid now now' db)) \<and>
    accepted_ids (snd (process_ci_request E rid eid jid now now' db)) \<subseteq> accepted_ids db - {rid}"
proof (cases "request_row rid db")
  case None
  with accepted_none [OF None] inv show ?thesis by (simp add: process_ci_request_def begin_preparation_def)
next
  case (Some r)
  have leave: "ci_inv db2 \<and> accepted_ids db2 \<subseteq> accepted_ids db - {rid}"
    if "ci_inv db2" "request_row rid db2 = Some r2" "r_phase r2 \<noteq> PhAccepted" "accepted_ids db2 \<subseteq> accepted_ids db"
    for db2 r2
    using accepted_not [OF ci_invD(2) [OF that(1)] that(2,3)] that by blast
  have prepare: ?thesis
    if bg: "begin_preparation rid now db = (Inr (Some r1), db1)" "ci_inv db1" "request_row rid db1 = Some r1"
      "r_phase r1 = PhPreparing" "accepted_ids db1 \<subseteq> accepted_ids db" for r1 db1
  proof -
    obtain r2 db2 where f: "finish_preparation E r1 eid jid now' db1 = (Inr (Some r2), db2)" "ci_inv db2"
      "request_row rid db2 = Some r2" "accepted_ids db2 \<subseteq> accepted_ids db1"
      and res: "case perform_ci_request_preflight E r1 db1 of
       Rejected code reason \<Rightarrow> request_state r2 = (PhTerminal, RqPreflightFailed) \<and>
         r_preflight_error_code r2 = Some code \<and> r_terminal_reason r2 = Some reason
     | Crashed \<Rightarrow> request_state r2 = (PhTerminal, RqPreflightFailed) \<and>
         r_preflight_error_code r2 = Some ''CI_PREFLIGHT_INTERNAL_ERROR'' \<and>
         r_terminal_reason r2 = Some ''preflight_internal_error''
     | Ready d \<Rightarrow> request_state r2 = (PhQueued, RqQueued) \<and> r_tree_sha r2 = Some (da_tree_sha d) \<and>
           (\<exists>wid. r_worker_job_id r2 = Some wid) \<or> r2 = r1 \<and> db2 = db1"
      by (rule finish_preparing [OF bg(2-4) jid, of E eid now'])
    have "r_phase r2 \<noteq> PhAccepted"
      using res bg(4) by (auto simp: request_state_def split: preflight.splits)
    with leave [OF f(2,3)] f(4) bg(5) show ?thesis
      using bg(1,4) f(1) by (simp add: process_ci_request_def)
  qed
  show ?thesis
  proof (cases "r_phase r = PhAccepted")
    case True
    obtain r1 db1 where "begin_preparation rid now db = (Inr (Some r1), db1)" "ci_inv db1"
      "request_row rid db1 = Some r1" "r_phase r1 = PhPreparing" "accepted_ids db1 \<subseteq> accepted_ids db"
      by (rule begin_accepted [OF inv Some True])
    then show ?thesis by (rule prepare)
  next
    case False
    then have bg: "begin_preparation rid now db = (Inr (Some r), db)" using Some by (simp add: begin_preparation_def)
    show ?thesis
    proof (cases "r_phase r = PhPreparing")
      case True
      from prepare [OF bg inv Some True] show ?thesis by simp
    next
      case other: False
      with leave [OF inv Some False] bg show ?thesis by (simp add: process_ci_request_def)
    qed
  qed
qed

section \<open>The queue\<close>

lemma drain_leaves:
  assumes "ci_inv db" and "\<And>rid. snd (fresh rid) \<noteq> []"
  shows "ci_inv (snd (drain_queue E fresh clock rids sch db)) \<and>
    accepted_ids (snd (drain_queue E fresh clock rids sch db)) \<subseteq> accepted_ids db - set rids \<and>
    set (fst (drain_queue E fresh clock rids sch db)) = set sch - set rids"
  using assms(1)
proof (induction rids arbitrary: sch db)
  case (Cons rid rids)
  let ?db1 = "snd (process_ci_request E rid (fst (fresh rid)) (snd (fresh rid)) (fst (clock rid)) (snd (clock rid)) db)"
  from process_leaves_accepted [OF Cons.prems assms(2), of E rid] have
    "ci_inv ?db1" "accepted_ids ?db1 \<subseteq> accepted_ids db - {rid}" by blast+
  with Cons.IH [of ?db1 "removeAll rid sch"] show ?case by auto
qed simp

lemma schedule_all_fresh:
  assumes "distinct rids" and "set rids \<inter> set (sc_scheduled s) = {}"
  shows "schedule_all rids s = (length rids, s\<lparr>sc_scheduled := sc_scheduled s @ rids, sc_queue := sc_queue s @ rids\<rparr>)"
  using assms
  by (induction rids arbitrary: s) (auto simp: schedule_ci_request_preparation_def)

text \<open>Marking a failure never queues a request that was preparing.\<close>

lemma mark_never_queues:
  assumes row: "request_row (r_request_id r) db = Some r0" "r_phase r0 = PhPreparing"
    and mark: "mark_preflight_failed r code reason eid now db = (res, db')"
    and after: "request_row (r_request_id r) db' = Some r1" "r_phase r1 = PhQueued"
  shows False
proof (cases "transition_ci_request (r_request_id r) (int (r_revision r)) (PhTerminal, RqPreflightFailed)
    (failure_args eid code reason) now db")
  case (Inl e)
  with mark have "db' = db" by (auto simp: mark_preflight_failed_def split: if_splits)
  with row after show False by simp
next
  case (Inr p)
  obtain r' db2 where p: "p = (r', db2)" by (cases p)
  note tr = Inr [unfolded p]
  from mark tr have db2: "db' = db2" by (simp add: mark_preflight_failed_def)
  from tr show False
  proof (rule transition_commit)
    let ?f = "apply_transition (PhTerminal, RqPreflightFailed) (failure_args eid code reason)"
    fix x ev db1
    assume x: "request_row (r_request_id r) db = Some x" "int (r_revision x) = int (r_revision r)"
      and ins: "insert_request_event (r_request_id r) (r_revision x + 1) ''transition'' (Some (request_state x))
        (PhTerminal, RqPreflightFailed) (JObj (ta_event_data (failure_args eid code reason))) db = Inr (ev, db1)"
      and db2': "db2 = db1\<lparr>ci_requests := update_where (\<lambda>y. r_request_id y = r_request_id r \<and>
        (int (r_revision y) = int (r_revision r) \<and> request_state y = request_state x)) (?f ev now) (ci_requests db1)\<rparr>"
    have "ci_requests db1 = ci_requests db" using insert_request_event_frame [OF ins] by simp
    with x have "request_row (r_request_id r) db' = Some (?f ev now x)"
      using row_of_key [OF x(1)] by (simp add: db2 db2' row_of_update_where)
    with after have "r1 = ?f ev now x" by simp
    with after(2) show False by simp
  qed
qed

end
