(* ===== verification/Preparation_Properties.thy ===== *)
theory Preparation_Properties
  imports Preparation_Facts Request_Demo
begin

text \<open>The properties of the background preparation, with witnesses on the run of one request.\<close>

section \<open>Environments of the witnesses\<close>

definition plan_of :: "string \<Rightarrow> ci_plan" where
  "plan_of sha = \<lparr>pl_applicable = True, pl_reason = None, pl_commit_sha = Some sha,
     pl_tree_sha = Some demo_tree, pl_policy_source = JNull, pl_detected_stacks = [],
     pl_selected_profiles = [], pl_workspaces = 0\<rparr>"

text \<open>The digest of this environment is the one of the demonstration request.\<close>

definition good_env :: preflight_env where
  "good_env = \<lparr>env_plan = (\<lambda>repo sha prof. Answer (plan_of sha)),
     env_resolve_ref = (\<lambda>repo br. Answer (demo_sha, demo_tree)),
     env_resolve_commit = (\<lambda>repo sha. Answer (sha, demo_tree)),
     env_changed_files = (\<lambda>repo base sha. Crashes), env_policy_source = (\<lambda>_. JNull),
     env_repository_config = (\<lambda>_. JNull), env_codec = \<lparr>sha256 = (\<lambda>_. ''d''), float_text = (\<lambda>_. [])\<rparr>\<rparr>"

definition moved_env :: preflight_env where
  "moved_env = good_env\<lparr>env_resolve_ref := (\<lambda>repo br. Answer (demo_tree, demo_tree))\<rparr>"

lemma demo_prepared_fields:
  "r_request_id demo_prepared = ''r''" "r_repository demo_prepared = ''o/r''" "r_branch demo_prepared = ''b''"
  "r_commit_sha demo_prepared = demo_sha" "r_profile demo_prepared = ''p''" "r_phase demo_prepared = PhPreparing"
  "r_effective_config_digest demo_prepared = Some ''d''" "r_revision demo_prepared = 1"
  by (simp_all add: demo_prepared_def apply_transition_def demo_request_simps)

lemma demo_payload_in: "get_ci_request_payload_in_db ''r'' demo_preparing = demo_payload"
  by (simp add: get_ci_request_payload_in_db_def demo_preparing_def demo_event0_def)

lemma demo_differ: "demo_tree \<noteq> demo_sha"
  by (simp add: demo_tree_def demo_sha_def)

lemma good_preflight:
  "perform_ci_request_preflight good_env demo_prepared demo_preparing =
    Ready (demo_dispatch_args\<lparr>da_event_data := [(''policy_source'', JNull), (''detected_stacks'', JList []),
      (''selected_profiles'', JList []), (''workspaces_total'', JInt 0)]\<rparr>)"
  by (simp add: perform_ci_request_preflight_def good_env_def plan_of_def or_empty_def demo_shas check_branch_def
      check_base_def demo_payload_in demo_payload_def check_configuration_def effective_ci_config_digest_def
      check_changed_files_def auto_profiles_def ready_args_def no_changes_def demo_dispatch_args_def
      demo_prepared_fields Let_def)

lemma moved_preflight:
  "perform_ci_request_preflight moved_env demo_prepared demo_preparing =
    Rejected ''CI_PREFLIGHT_BRANCH_HEAD_MISMATCH'' ''branch_no_longer_points_to_exact_commit''"
  by (simp add: perform_ci_request_preflight_def moved_env_def good_env_def plan_of_def or_empty_def demo_shas
      check_branch_def demo_prepared_fields demo_differ Let_def)

lemma demo_preparing_inv: "ci_inv demo_preparing" "ci_inv demo_requested"
  using demo_states_reachable reachable_inv by blast+

lemma demo_preparing_row: "request_row ''r'' demo_preparing = Some demo_prepared"
  by (simp add: demo_preparing_def demo_prepared_fields)

section \<open>Properties\<close>

text \<open>
  C24. The preparation queues a request only after the exact checks: the planner and the branch head
  name the commit of the request as it was read, both with one well-formed tree, and the effective
  configuration still has the digest the request was accepted with; the queued request records this
  tree and a worker job.  Other writers may have changed the store since the request was read.
\<close>

theorem queued_only_after_preflight:
  assumes inv: "ci_inv db" and row: "request_row (r_request_id r) db = Some r0" "r_phase r0 = PhPreparing"
    and run: "finish_preparation E r eid jid now db = (res, db')"
    and after: "request_row (r_request_id r) db' = Some r1" "r_phase r1 = PhQueued"
  shows "\<exists>tree. preflight_passed E r tree \<and> r_tree_sha r1 = Some tree \<and> (\<exists>wid. r_worker_job_id r1 = Some wid)"
proof (cases "perform_ci_request_preflight E r db")
    case (Ready d)
    show ?thesis
    proof (cases "dispatch_ci_request (r_request_id r) (int (r_revision r)) d jid now db")
      case (Inl e)
      with run Ready have "db' = db" by (simp add: finish_preparation_def)
      with row after show ?thesis by simp
    next
      case (Inr p)
      obtain r' dd db2 where p: "p = ((r', dd), db2)" by (metis prod.collapse)
      with run Ready Inr have "db' = db2" by (simp add: finish_preparation_def)
      with dispatch_queued [OF inv row Inr [unfolded p]] after preflight_ready [OF Ready] show ?thesis by auto
    qed
next
  case (Rejected code reason)
  with run have "mark_preflight_failed r code reason eid now db = (res, db')" by (simp add: finish_preparation_def)
  from mark_never_queues [OF row this after] show ?thesis ..
next
  case Crashed
  with run have "mark_preflight_failed r ''CI_PREFLIGHT_INTERNAL_ERROR'' ''preflight_internal_error'' eid now db = (res, db')"
    by (simp add: finish_preparation_def)
  from mark_never_queues [OF row this after] show ?thesis ..
qed

lemma good_dispatch:
  "\<exists>r db. finish_preparation good_env demo_prepared ''e'' ''j'' 7 demo_preparing = (Inr (Some r), db) \<and>
    request_row ''r'' db = Some r \<and> r_phase r = PhQueued"
proof -
  let ?d = "demo_dispatch_args\<lparr>da_event_data := [(''policy_source'', JNull), (''detected_stacks'', JList []),
      (''selected_profiles'', JList []), (''workspaces_total'', JInt 0)]\<rparr>"
  have "\<exists>r db. dispatch_ci_request ''r'' 1 ?d ''j'' 7 demo_preparing = Inr ((r, False), db)"
    by (simp add: dispatch_ci_request_def demo_dispatch_args_def demo_shas demo_preparing_def
      demo_prepared_def demo_request_simps apply_transition_def no_transition_args_def
      dispatch_guard_def request_state_def get_ci_request_payload_in_db_def payload_fields_def
      demo_payload_def create_ci_request_job_in_transaction_def create_or_get_job_in_transaction_def
      reusable_job_def dispatch_start_args_def upsert_repo_queue_state_def Let_def
      assert_worker_job_identity_def same_job_identity_def new_job_def insert_request_event_def
      worker_binding_ok_def)
  then obtain r dd db where run: "dispatch_ci_request ''r'' 1 ?d ''j'' 7 demo_preparing = Inr ((r, dd), db)"
    by blast
  from dispatch_queued [OF demo_preparing_inv(1) demo_preparing_row demo_prepared_fields(6) run]
  have "request_row ''r'' db = Some r" "r_phase r = PhQueued" by (auto simp: request_state_def)
  with run show ?thesis by (simp add: finish_preparation_def good_preflight demo_prepared_fields)
qed

lemma queued_only_after_preflight_witness:
  "\<exists>r db tree. finish_preparation good_env demo_prepared ''e'' ''j'' 7 demo_preparing = (Inr (Some r), db) \<and>
    preflight_passed good_env demo_prepared tree \<and> r_tree_sha r = Some tree"
proof -
  obtain r db where run: "finish_preparation good_env demo_prepared ''e'' ''j'' 7 demo_preparing = (Inr (Some r), db)"
    and after: "request_row ''r'' db = Some r" "r_phase r = PhQueued" using good_dispatch by blast
  have rows: "request_row (r_request_id demo_prepared) demo_preparing = Some demo_prepared"
    "request_row (r_request_id demo_prepared) db = Some r"
    using demo_preparing_row after by (simp_all add: demo_prepared_fields)
  from queued_only_after_preflight [OF demo_preparing_inv(1) rows(1) demo_prepared_fields(6) run rows(2) after(2)] run
  show ?thesis by blast
qed

text \<open>
  Processing an accepted request of a reachable store never raises and never leaves it accepted.
  With the answers of the preflight on the prepared request, it ends as a preflight failure with the
  code and reason of the first failing check, as an internal preflight failure when a check crashes,
  and otherwise queued with the checked tree and a worker job, or still preparing when the dispatch
  transaction was rolled back.
\<close>

theorem preparation_settles:
  assumes reach: "ci_reachable H db" and row: "request_row rid db = Some r" "r_phase r = PhAccepted"
    and jid: "jid \<noteq> []" and run: "process_ci_request E rid eid jid now now' db = (res, db')"
  shows "\<exists>r1 p db1. res = Inr (Some r1) \<and> request_row rid db' = Some r1 \<and> request_ident p = request_ident r \<and>
    (case perform_ci_request_preflight E p db1 of
       Rejected code reason \<Rightarrow> request_state r1 = (PhTerminal, RqPreflightFailed) \<and>
         r_preflight_error_code r1 = Some code \<and> r_terminal_reason r1 = Some reason
     | Crashed \<Rightarrow> request_state r1 = (PhTerminal, RqPreflightFailed) \<and>
         r_preflight_error_code r1 = Some ''CI_PREFLIGHT_INTERNAL_ERROR'' \<and>
         r_terminal_reason r1 = Some ''preflight_internal_error''
     | Ready d \<Rightarrow> request_state r1 = (PhQueued, RqQueued) \<and> r_tree_sha r1 = Some (da_tree_sha d) \<and>
           (\<exists>wid. r_worker_job_id r1 = Some wid) \<or> r_phase r1 = PhPreparing)"
proof -
  obtain p db1 where bg: "begin_preparation rid now db = (Inr (Some p), db1)" "ci_inv db1"
    "request_row rid db1 = Some p" "r_phase p = PhPreparing" "request_ident p = request_ident r"
    by (rule begin_accepted [OF reachable_inv [OF reach] row])
  obtain r1 db2 where fin: "finish_preparation E p eid jid now' db1 = (Inr (Some r1), db2)"
    "request_row rid db2 = Some r1"
    and res: "case perform_ci_request_preflight E p db1 of
       Rejected code reason \<Rightarrow> request_state r1 = (PhTerminal, RqPreflightFailed) \<and>
         r_preflight_error_code r1 = Some code \<and> r_terminal_reason r1 = Some reason
     | Crashed \<Rightarrow> request_state r1 = (PhTerminal, RqPreflightFailed) \<and>
         r_preflight_error_code r1 = Some ''CI_PREFLIGHT_INTERNAL_ERROR'' \<and>
         r_terminal_reason r1 = Some ''preflight_internal_error''
     | Ready d \<Rightarrow> request_state r1 = (PhQueued, RqQueued) \<and> r_tree_sha r1 = Some (da_tree_sha d) \<and>
           (\<exists>wid. r_worker_job_id r1 = Some wid) \<or> r1 = p \<and> db2 = db1"
    by (rule finish_preparing [OF bg(2-4) jid, of E eid now'])
  from bg fin(1) run have "res = Inr (Some r1)" "db' = db2" by (simp_all add: process_ci_request_def)
  then show ?thesis using fin(2) res bg(4,5)
    by (intro exI [of _ r1] exI [of _ p] exI [of _ db1]) (auto split: preflight.splits)
qed

lemma preparation_settles_witness:
  "\<exists>r1. fst (process_ci_request moved_env ''r'' ''e'' ''j'' 6 7 demo_requested) = Inr (Some r1) \<and>
    r_phase r1 \<noteq> PhAccepted"
proof -
  have row: "request_row ''r'' demo_requested = Some demo_accepted" "r_phase demo_accepted = PhAccepted"
    by (simp_all add: demo_request_simps)
  obtain res db' where run: "process_ci_request moved_env ''r'' ''e'' ''j'' 6 7 demo_requested = (res, db')" by fastforce
  from preparation_settles [OF demo_states_reachable(2) row _ run] obtain r1 p db1 where r1: "res = Inr (Some r1)"
    and out: "case perform_ci_request_preflight moved_env p db1 of
       Rejected code reason \<Rightarrow> request_state r1 = (PhTerminal, RqPreflightFailed) \<and>
         r_preflight_error_code r1 = Some code \<and> r_terminal_reason r1 = Some reason
     | Crashed \<Rightarrow> request_state r1 = (PhTerminal, RqPreflightFailed) \<and>
         r_preflight_error_code r1 = Some ''CI_PREFLIGHT_INTERNAL_ERROR'' \<and>
         r_terminal_reason r1 = Some ''preflight_internal_error''
     | Ready d \<Rightarrow> request_state r1 = (PhQueued, RqQueued) \<and> r_tree_sha r1 = Some (da_tree_sha d) \<and>
           (\<exists>wid. r_worker_job_id r1 = Some wid) \<or> r_phase r1 = PhPreparing" by auto
  have "r_phase r1 \<noteq> PhAccepted"
    using out by (cases "perform_ci_request_preflight moved_env p db1") (auto simp: request_state_def)
  with r1 show ?thesis by (simp add: run)
qed

text \<open>
  C34. After a restart the recovery schedules every accepted or preparing request (when there are at
  most 1000), and once one worker thread has served the queue no request of the store is accepted any
  more: the queue is empty, and nothing stays marked as scheduled.
\<close>

theorem recovery_serves_all:
  assumes reach: "ci_reachable H db" and few: "length (filter (\<lambda>r. r_phase r \<in> {PhAccepted, PhPreparing}) (ci_requests db)) \<le> 1000"
    and jobs: "\<And>rid. snd (fresh rid) \<noteq> []"
    and recover: "recover_pending_ci_requests 1000 db \<lparr>sc_queue = [], sc_scheduled = []\<rparr> = (counts, s)"
    and serve: "worker_loop E fresh clock s db = (s', db')"
  shows "counts = (length (filter (\<lambda>r. r_phase r \<in> {PhAccepted, PhPreparing}) (ci_requests db)),
      length (filter (\<lambda>r. r_phase r \<in> {PhAccepted, PhPreparing}) (ci_requests db))) \<and>
    sc_queue s' = [] \<and> sc_scheduled s' = [] \<and> (\<forall>r \<in> set (ci_requests db'). r_phase r \<noteq> PhAccepted)"
proof -
  let ?open = "filter (\<lambda>r. r_phase r \<in> {PhAccepted, PhPreparing}) (ci_requests db)"
  let ?ids = "map r_request_id (sort_key (\<lambda>r. (r_created_at r, r_request_id r)) ?open)"
  note inv = reachable_inv [OF reach]
  have pending: "list_pending_ci_requests 1000 db = sort_key (\<lambda>r. (r_created_at r, r_request_id r)) ?open"
    using few by (simp add: list_pending_ci_requests_def)
  have set_ids: "set ?ids = r_request_id ` set ?open" by simp
  have "distinct (map r_request_id ?open)"
    using requests_invD(1) [OF ci_invD(2) [OF inv]] by (rule distinct_map_filter)
  then have "card (set ?ids) = length ?ids"
    by (simp only: set_ids length_map length_sort) (metis distinct_card length_map set_map)
  then have dist: "distinct ?ids" by (rule card_distinct)
  have sched: "schedule_all ?ids \<lparr>sc_queue = [], sc_scheduled = []\<rparr> =
      (length ?ids, \<lparr>sc_queue = ?ids, sc_scheduled = ?ids\<rparr>)"
    using schedule_all_fresh [OF dist, of "\<lparr>sc_queue = [], sc_scheduled = []\<rparr>"] by simp
  from recover have s: "counts = (length ?open, length ?open)" "s = \<lparr>sc_queue = ?ids, sc_scheduled = ?ids\<rparr>"
    unfolding recover_pending_ci_requests_def pending Let_def sched fst_conv snd_conv length_sort length_map
    by (simp_all only: prod.inject)
  from drain_leaves [OF inv jobs, where E = E and clock = clock and rids = ?ids and sch = ?ids] have
    acc: "accepted_ids (snd (drain_queue E fresh clock ?ids ?ids db)) \<subseteq> accepted_ids db - set ?ids"
    and sch: "set (fst (drain_queue E fresh clock ?ids ?ids db)) = {}" by auto
  from serve s(2) sch acc have "sc_queue s' = []" "sc_scheduled s' = []" "accepted_ids db' \<subseteq> accepted_ids db - set ?ids"
    by (auto simp: worker_loop_def split: prod.splits)
  moreover have "accepted_ids db - set ?ids = {}" by (auto simp: accepted_ids_def)
  ultimately show ?thesis using s(1) by (auto simp: accepted_ids_def)
qed

lemma recovery_serves_all_witness:
  "\<exists>s s' db'. recover_pending_ci_requests 1000 demo_requested \<lparr>sc_queue = [], sc_scheduled = []\<rparr> = ((1, 1), s) \<and>
    worker_loop moved_env (\<lambda>_. (''e'', ''j'')) (\<lambda>_. (6, 7)) s demo_requested = (s', db') \<and>
    (\<forall>r \<in> set (ci_requests db'). r_phase r \<noteq> PhAccepted)"
proof -
  obtain counts s where rec: "recover_pending_ci_requests 1000 demo_requested \<lparr>sc_queue = [], sc_scheduled = []\<rparr> = (counts, s)"
    by fastforce
  obtain s' db' where serve: "worker_loop moved_env (\<lambda>_. (''e'', ''j'')) (\<lambda>_. (6, 7)) s demo_requested = (s', db')"
    by fastforce
  have rows: "ci_requests demo_requested = [demo_accepted]" "r_phase demo_accepted = PhAccepted"
    by (simp_all add: demo_request_simps)
  from recovery_serves_all [OF demo_states_reachable(2) _ _ rec serve] rec serve rows show ?thesis by auto
qed

end
