(* ===== verification/Text_Lines.thy ===== *)
theory Text_Lines
  imports Json_Text
begin

text \<open>
  Lines and decimal numerals as the text tools of \<open>app/mygithub10.py\<close> use them:
  \<open>str.splitlines(keepends=True)\<close>, \<open>startswith\<close>, \<open>rstrip\<close>, \<open>removesuffix\<close> and \<open>int\<close>.  A line
  that ends in a line feed and has no other line boundary is \<open>plain_line\<close>; a text made of such
  lines splits into exactly these.
\<close>

section \<open>Splitting\<close>

abbreviation LF :: char where "LF \<equiv> CHR 0x0A"
abbreviation CR :: char where "CR \<equiv> CHR 0x0D"

text \<open>The line boundaries of \<open>str.splitlines\<close> among the first 256 code points.\<close>

definition line_break :: "char \<Rightarrow> bool" where
  "line_break c \<longleftrightarrow> (let n = (of_char c :: nat) in
     10 \<le> n \<and> n \<le> 13 \<or> 28 \<le> n \<and> n \<le> 30 \<or> n = 133)"

fun splitlines :: "string \<Rightarrow> string list" where
  "splitlines [] = []"
| "splitlines [c] = [[c]]"
| "splitlines (c # d # s) =
     (if c = CR \<and> d = LF then [c, d] # splitlines s
      else if line_break c then [c] # splitlines (d # s)
      else (case splitlines (d # s) of
        [] \<Rightarrow> [[c]]
      | l # ls \<Rightarrow> (c # l) # ls))"

lemma line_break_LF [simp]: "line_break LF"
  by (simp add: line_break_def)

lemma line_break_CR [simp]: "line_break CR"
  by (simp add: line_break_def)

lemma splitlines_eq_Nil [simp]: "splitlines s = [] \<longleftrightarrow> s = []"
  by (cases s rule: splitlines.cases) (auto split: list.splits)

lemma concat_splitlines [simp]: "concat (splitlines s) = s"
  by (induction s rule: splitlines.induct) (auto split: list.splits)

lemma splitlines_nonempty: "l \<in> set (splitlines s) \<Longrightarrow> l \<noteq> []"
  by (induction s arbitrary: l rule: splitlines.induct)
    (auto split: if_splits list.splits)

definition no_breaks :: "string \<Rightarrow> bool" where
  "no_breaks s \<longleftrightarrow> list_all (\<lambda>c. \<not> line_break c) s"

lemma no_breaks_simps [simp]:
  "no_breaks []"
  "no_breaks (c # s) \<longleftrightarrow> \<not> line_break c \<and> no_breaks s"
  "no_breaks (s @ t) \<longleftrightarrow> no_breaks s \<and> no_breaks t"
  by (auto simp: no_breaks_def)

text \<open>A line that ends in a line feed, with or without a carriage return before it.\<close>

definition line_body :: "string \<Rightarrow> string" where
  "line_body l = (let b = butlast l in if b \<noteq> [] \<and> last b = CR then butlast b else b)"

definition plain_line :: "string \<Rightarrow> bool" where
  "plain_line l \<longleftrightarrow> l \<noteq> [] \<and> last l = LF \<and> no_breaks (line_body l)"

lemma plain_lineI [intro]:
  "no_breaks b \<Longrightarrow> plain_line (b @ [LF])"
  "no_breaks b \<Longrightarrow> plain_line (b @ [CR, LF])"
proof -
  assume b: "no_breaks b"
  have "b \<noteq> [] \<Longrightarrow> last b \<noteq> CR"
    using b by (cases b rule: rev_cases) auto
  then show "plain_line (b @ [LF])" using b by (auto simp: plain_line_def line_body_def)
  show "plain_line (b @ [CR, LF])" using b by (simp add: plain_line_def line_body_def butlast_append)
qed

lemma plain_lineE:
  assumes "plain_line l"
  obtains b where "no_breaks b" and "l = b @ [LF]"
  | b where "no_breaks b" and "l = b @ [CR, LF]"
proof -
  from assms have l: "l = butlast l @ [LF]" by (simp add: plain_line_def) (metis append_butlast_last_id)
  show ?thesis
  proof (cases "butlast l \<noteq> [] \<and> last (butlast l) = CR")
    case True
    then have "butlast l = butlast (butlast l) @ [CR]" by (metis append_butlast_last_id)
    with l have "l = butlast (butlast l) @ [CR, LF]" by (metis append.assoc append_Cons append_Nil)
    with True assms show ?thesis by (intro that(2)) (auto simp: plain_line_def line_body_def)
  next
    case False
    with l assms show ?thesis by (intro that(1)) (auto simp: plain_line_def line_body_def Let_def)
  qed
qed

lemma splitlines_body:
  assumes "no_breaks b"
  shows "splitlines (b @ LF # s) = (b @ [LF]) # splitlines s"
    and "splitlines (b @ CR # LF # s) = (b @ [CR, LF]) # splitlines s"
proof -
  have step: "splitlines (c # x @ d # t) = (c # l) # ls"
    if "\<not> line_break c" and "splitlines (x @ d # t) = l # ls" for c x d t l ls
    using that by (cases x) auto
  show "splitlines (b @ LF # s) = (b @ [LF]) # splitlines s"
    using assms
  proof (induction b)
    case Nil
    then show ?case by (cases s) auto
  qed (simp add: step)
  show "splitlines (b @ CR # LF # s) = (b @ [CR, LF]) # splitlines s"
    using assms by (induction b) (simp_all add: step)
qed

lemma splitlines_plain [simp]: "plain_line l \<Longrightarrow> splitlines (l @ s) = l # splitlines s"
  by (erule plain_lineE) (simp_all add: splitlines_body)

lemma splitlines_concat:
  "list_all plain_line ls \<Longrightarrow> splitlines (concat ls @ s) = ls @ splitlines s"
  by (induction ls) auto

corollary splitlines_lines: "list_all plain_line ls \<Longrightarrow> splitlines (concat ls) = ls"
  using splitlines_concat [of ls "[]"] by simp

lemma splitlines_last:
  assumes "no_breaks b" and "b \<noteq> []"
  shows "splitlines b = [b]"
  using assms by (induction b rule: splitlines.induct) auto

section \<open>Prefixes and suffixes\<close>

definition starts_with :: "string \<Rightarrow> string \<Rightarrow> bool" where
  "starts_with p s \<longleftrightarrow> take (length p) s = p"

lemma starts_with_simps [simp]:
  "starts_with [] s"
  "\<not> starts_with (c # p) []"
  "starts_with (c # p) (d # s) \<longleftrightarrow> c = d \<and> starts_with p s"
  by (auto simp: starts_with_def)

lemma starts_with_append [simp]: "starts_with p (p @ s)"
  by (simp add: starts_with_def)

definition rstrip_crlf :: "string \<Rightarrow> string" where
  "rstrip_crlf s = rev (dropWhile (\<lambda>c. c = CR \<or> c = LF) (rev s))"

definition remove_suffix :: "char \<Rightarrow> string \<Rightarrow> string" where
  "remove_suffix c s = (if s \<noteq> [] \<and> last s = c then butlast s else s)"

definition drop_newline :: "string \<Rightarrow> string" where
  "drop_newline s = remove_suffix CR (remove_suffix LF s)"

lemma drop_newline_body:
  assumes "no_breaks b"
  shows "drop_newline (b @ [LF]) = b"
proof -
  have "b = [] \<or> last b \<noteq> CR" using assms by (cases b rule: rev_cases) auto
  then show ?thesis by (auto simp: drop_newline_def remove_suffix_def)
qed

section \<open>Decimal numerals\<close>

definition is_digit :: "char \<Rightarrow> bool" where
  "is_digit c \<longleftrightarrow> (let n = (of_char c :: nat) in 48 \<le> n \<and> n \<le> 57)"

definition digits_value :: "string \<Rightarrow> nat" where
  "digits_value s = foldl (\<lambda>n c. 10 * n + (of_char c - 48)) 0 s"

lemma digit_char:
  assumes "n < 10"
  shows "is_digit (hex_digits ! n)" "of_char (hex_digits ! n) = 48 + n"
proof -
  have "list_all (\<lambda>n. is_digit (hex_digits ! n) \<and> of_char (hex_digits ! n) = 48 + n) [0..<10]"
    by (simp add: is_digit_def hex_digits_def upt_rec)
  with assms show "is_digit (hex_digits ! n)" "of_char (hex_digits ! n) = 48 + n"
    by (simp_all add: list_all_iff)
qed

lemma nat_text_digits: "list_all is_digit (nat_text n)"
  by (induction n rule: nat_text.induct) (subst nat_text.simps, auto simp: digit_char)

lemma nat_text_nonempty [simp]: "nat_text n \<noteq> []"
  by (subst nat_text.simps) auto

lemma digits_value_nat_text [simp]: "digits_value (nat_text n) = n"
  by (induction n rule: nat_text.induct)
    (subst nat_text.simps, auto simp: digits_value_def digit_char)

lemma span_digits:
  assumes "list_all is_digit ds" and "s = [] \<or> \<not> is_digit (hd s)"
  shows "takeWhile is_digit (ds @ s) = ds" "dropWhile is_digit (ds @ s) = s"
  using assms by (induction ds) (cases s; auto)+

end
