(* ===== verification/Diff_Match.thy ===== *)
theory Diff_Match
  imports Prelude
begin

text \<open>
  \<open>difflib.SequenceMatcher(None, a, b, autojunk=False)\<close> of the Python library, as
  \<open>app/mygithub10.py\<close> uses it: matching blocks, opcodes and \<open>get_grouped_opcodes(n)\<close>.  What a
  diff relies on is the contract \<open>line_differ\<close>: the groups are edit scripts in order, and what
  they leave out is the same on both sides.
\<close>

section \<open>Matching blocks\<close>

type_synonym block = "nat \<times> nat \<times> nat"

definition run_length :: "'a list \<Rightarrow> 'a list \<Rightarrow> nat \<Rightarrow> nat \<Rightarrow> nat \<Rightarrow> nat \<Rightarrow> nat" where
  "run_length a b i ahi j bhi =
     length (takeWhile (\<lambda>(x, y). x = y) (zip (take (ahi - i) (drop i a)) (take (bhi - j) (drop j b))))"

definition longer_match ::
  "'a list \<Rightarrow> 'a list \<Rightarrow> nat \<Rightarrow> nat \<Rightarrow> block \<Rightarrow> nat \<times> nat \<Rightarrow> block" where
  "longer_match a b ahi bhi best = (\<lambda>(i, j).
     let k = run_length a b i ahi j bhi in if k > snd (snd best) then (i, j, k) else best)"

text \<open>
  The longest match inside \<open>a[alo:ahi]\<close> and \<open>b[blo:bhi]\<close>; of several the first in \<open>a\<close>, and of
  these the first in \<open>b\<close>.
\<close>

definition find_longest_match ::
  "'a list \<Rightarrow> 'a list \<Rightarrow> nat \<Rightarrow> nat \<Rightarrow> nat \<Rightarrow> nat \<Rightarrow> block" where
  "find_longest_match a b alo ahi blo bhi =
     foldl (longer_match a b ahi bhi) (alo, blo, 0) (List.product [alo..<ahi] [blo..<bhi])"

definition block_in :: "'a list \<Rightarrow> 'a list \<Rightarrow> nat \<Rightarrow> nat \<Rightarrow> nat \<Rightarrow> nat \<Rightarrow> block \<Rightarrow> bool" where
  "block_in a b alo ahi blo bhi = (\<lambda>(i, j, k).
     alo \<le> i \<and> blo \<le> j \<and> (k > 0 \<longrightarrow> i + k \<le> ahi \<and> j + k \<le> bhi) \<and> k \<le> run_length a b i ahi j bhi)"

lemma run_length_le: "run_length a b i ahi j bhi \<le> ahi - i" "run_length a b i ahi j bhi \<le> bhi - j"
proof -
  have "run_length a b i ahi j bhi \<le> min (ahi - i) (bhi - j)"
    unfolding run_length_def by (rule order.trans [OF length_takeWhile_le]) auto
  then show "run_length a b i ahi j bhi \<le> ahi - i" "run_length a b i ahi j bhi \<le> bhi - j" by auto
qed

lemma find_longest_match_in: "block_in a b alo ahi blo bhi (find_longest_match a b alo ahi blo bhi)"
proof -
  have "block_in a b alo ahi blo bhi (foldl (longer_match a b ahi bhi) best xs)"
    if "block_in a b alo ahi blo bhi best" and "set xs \<subseteq> {alo..<ahi} \<times> {blo..<bhi}" for best xs
    using that
  proof (induction xs arbitrary: best)
    case (Cons x xs)
    obtain i j where x: "x = (i, j)" by (cases x)
    have "block_in a b alo ahi blo bhi (longer_match a b ahi bhi best x)"
      using Cons.prems run_length_le [of a b i ahi j bhi]
      by (auto simp: block_in_def longer_match_def x Let_def)
    with Cons show ?case by simp
  qed simp
  moreover have "block_in a b alo ahi blo bhi (alo, blo, 0)" by (simp add: block_in_def)
  ultimately show ?thesis unfolding find_longest_match_def by auto
qed

lemma find_longest_match_bounds:
  assumes "find_longest_match a b alo ahi blo bhi = (i, j, k)" and "0 < k"
  shows "alo \<le> i \<and> i + k \<le> ahi \<and> blo \<le> j \<and> j + k \<le> bhi \<and> k \<le> run_length a b i ahi j bhi"
  using find_longest_match_in [of a b alo ahi blo bhi] assms by (simp add: block_in_def)

text \<open>The matches to the left and to the right of the longest one, in order.\<close>

function matches :: "'a list \<Rightarrow> 'a list \<Rightarrow> nat \<Rightarrow> nat \<Rightarrow> nat \<Rightarrow> nat \<Rightarrow> block list" where
  "matches a b alo ahi blo bhi =
     (case find_longest_match a b alo ahi blo bhi of (i, j, k) \<Rightarrow>
        if k = 0 then []
        else (if alo < i \<and> blo < j then matches a b alo i blo j else []) @ [(i, j, k)] @
          (if i + k < ahi \<and> j + k < bhi then matches a b (i + k) ahi (j + k) bhi else []))"
  by pat_completeness auto
termination
  by (relation "measure (\<lambda>(a, b, alo, ahi, blo, bhi). ahi - alo)")
    (auto dest!: find_longest_match_bounds [OF sym])

declare matches.simps [simp del]

fun collapse :: "block \<Rightarrow> block list \<Rightarrow> block list" where
  "collapse (i, j, k) [] = (if k > 0 then [(i, j, k)] else [])"
| "collapse (i, j, k) ((i', j', k') # bs) =
     (if i + k = i' \<and> j + k = j' then collapse (i, j, k + k') bs
      else (if k > 0 then [(i, j, k)] else []) @ collapse (i', j', k') bs)"

definition get_matching_blocks :: "'a list \<Rightarrow> 'a list \<Rightarrow> block list" where
  "get_matching_blocks a b =
     collapse (0, 0, 0) (matches a b 0 (length a) 0 (length b)) @ [(length a, length b, 0)]"

section \<open>Opcodes\<close>

datatype tag = Equal | Replace | Delete | Insert

datatype opcode = Opcode (op_tag: tag) (op_i1: nat) (op_i2: nat) (op_j1: nat) (op_j2: nat)

definition gap :: "nat \<Rightarrow> nat \<Rightarrow> nat \<Rightarrow> nat \<Rightarrow> opcode list" where
  "gap i ai j bj =
     (if i < ai \<and> j < bj then [Opcode Replace i ai j bj]
      else if i < ai then [Opcode Delete i ai j bj]
      else if j < bj then [Opcode Insert i ai j bj]
      else [])"

fun opcodes_from :: "nat \<Rightarrow> nat \<Rightarrow> block list \<Rightarrow> opcode list" where
  "opcodes_from i j [] = []"
| "opcodes_from i j ((ai, bj, k) # bs) =
     gap i ai j bj @ (if k > 0 then [Opcode Equal ai (ai + k) bj (bj + k)] else []) @
     opcodes_from (ai + k) (bj + k) bs"

definition get_opcodes :: "'a list \<Rightarrow> 'a list \<Rightarrow> opcode list" where
  "get_opcodes a b = opcodes_from 0 0 (get_matching_blocks a b)"

definition trim_first :: "nat \<Rightarrow> opcode list \<Rightarrow> opcode list" where
  "trim_first n codes =
     (case codes of
        Opcode Equal i1 i2 j1 j2 # cs \<Rightarrow> Opcode Equal (max i1 (i2 - n)) i2 (max j1 (j2 - n)) j2 # cs
      | _ \<Rightarrow> codes)"

definition trim_last :: "nat \<Rightarrow> opcode list \<Rightarrow> opcode list" where
  "trim_last n codes =
     (if codes = [] then codes
      else (case last codes of
        Opcode Equal i1 i2 j1 j2 \<Rightarrow> butlast codes @ [Opcode Equal i1 (min i2 (i1 + n)) j1 (min j2 (j1 + n))]
      | _ \<Rightarrow> codes))"

fun group_codes :: "nat \<Rightarrow> opcode list \<Rightarrow> opcode list \<Rightarrow> opcode list list" where
  "group_codes n g [] = (if g = [] \<or> length g = 1 \<and> op_tag (hd g) = Equal then [] else [g])"
| "group_codes n g (Opcode t i1 i2 j1 j2 # cs) =
     (if t = Equal \<and> i2 - i1 > n + n
      then (g @ [Opcode t i1 (min i2 (i1 + n)) j1 (min j2 (j1 + n))]) #
        group_codes n [Opcode t (max i1 (i2 - n)) i2 (max j1 (j2 - n)) j2] cs
      else group_codes n (g @ [Opcode t i1 i2 j1 j2]) cs)"

definition get_grouped_opcodes :: "nat \<Rightarrow> 'a list \<Rightarrow> 'a list \<Rightarrow> opcode list list" where
  "get_grouped_opcodes n a b =
     (let codes = get_opcodes a b;
          codes = (if codes = [] then [Opcode Equal 0 1 0 1] else codes)
      in group_codes n [] (trim_last n (trim_first n codes)))"

end
