(* ===== verification/Diff_Groups.thy ===== *)
theory Diff_Groups
  imports Diff_Match
begin

text \<open>
  The contract of a line differ, \<open>line_differ\<close>, and its proof for the model of \<open>difflib\<close>: matching
  blocks are in order and equal on both sides, the opcodes are an edit script from the first text
  to the second, and the groups cut out of it leave out only equal stretches.
\<close>

section \<open>Equal stretches\<close>

definition same :: "'a list \<Rightarrow> 'a list \<Rightarrow> nat \<Rightarrow> nat \<Rightarrow> nat \<Rightarrow> nat \<Rightarrow> bool" where
  "same a b i k j m \<longleftrightarrow> i \<le> k \<and> k \<le> length a \<and> j \<le> m \<and> m \<le> length b \<and> k - i = m - j \<and>
     (\<forall>t < k - i. a ! (i + t) = b ! (j + t))"

definition segment :: "'a list \<Rightarrow> nat \<Rightarrow> nat \<Rightarrow> 'a list" where
  "segment xs i k = take (k - i) (drop i xs)"

lemma same_refl: "i \<le> length a \<Longrightarrow> j \<le> length b \<Longrightarrow> same a b i i j j"
  by (simp add: same_def)

lemma same_trans:
  assumes "same a b i k j m" and "same a b k l m n"
  shows "same a b i l j n"
proof -
  have "a ! (i + t) = b ! (j + t)" if "t < l - i" for t
  proof (cases "t < k - i")
    case True
    with assms show ?thesis by (simp add: same_def)
  next
    case False
    then have "t - (k - i) < l - k" using that by simp
    moreover have "\<forall>u < l - k. a ! (k + u) = b ! (m + u)" using assms(2) by (simp add: same_def)
    ultimately have "a ! (k + (t - (k - i))) = b ! (m + (t - (k - i)))" by blast
    moreover have "k + (t - (k - i)) = i + t" "m + (t - (k - i)) = j + t"
      using False assms by (auto simp: same_def)
    ultimately show ?thesis by metis
  qed
  with assms show ?thesis by (auto simp: same_def)
qed

lemma same_part:
  assumes "same a b i k j m" and "x + y \<le> k - i"
  shows "same a b (i + x) (k - y) (j + x) (m - y)"
proof -
  have "a ! (i + x + t) = b ! (j + x + t)" if "t < k - y - (i + x)" for t
  proof -
    from that assms have "x + t < k - i" by auto
    with assms(1) have "a ! (i + (x + t)) = b ! (j + (x + t))" by (simp add: same_def)
    then show ?thesis by (simp add: add.assoc)
  qed
  with assms show ?thesis by (auto simp: same_def)
qed

lemma same_prefix: "same a b i k j m \<Longrightarrow> d \<le> k - i \<Longrightarrow> same a b i (i + d) j (j + d)"
  by (auto simp: same_def)

lemma same_suffix:
  assumes "same a b i k j m" and "d \<le> k - i"
  shows "same a b (k - d) k (m - d) m"
proof -
  have "i + (k - i - d) = k - d" "j + (k - i - d) = m - d" using assms by (auto simp: same_def)
  with same_part [OF assms(1), of "k - i - d" 0] show ?thesis by simp
qed

lemma same_segment: "same a b i k j m \<Longrightarrow> segment a i k = segment b j m"
  unfolding segment_def same_def by (intro nth_equalityI; simp; linarith)

lemma same_rest: "same a b i (length a) j (length b) \<Longrightarrow> drop i a = drop j b"
  by (drule same_segment) (simp add: segment_def)

lemma segment_append:
  assumes "i \<le> k" and "k \<le> l"
  shows "segment xs i k @ segment xs k l = segment xs i l"
proof -
  obtain d e where "k = i + d" "l = i + d + e" using assms by (metis le_Suc_ex)
  then show ?thesis using take_add [of d e "drop i xs"] by (simp add: segment_def add.commute)
qed

lemma segment_self [simp]: "segment xs i i = []"
  by (simp add: segment_def)

lemma segment_drop:
  assumes "i \<le> k"
  shows "segment xs i k @ drop k xs = drop i xs"
  using append_take_drop_id [of "k - i" "drop i xs"] assms by (simp add: segment_def)

lemma length_segment [simp]: "k \<le> length xs \<Longrightarrow> length (segment xs i k) = k - i"
  by (simp add: segment_def)

section \<open>Edit scripts\<close>

fun op_ok :: "'a list \<Rightarrow> 'a list \<Rightarrow> opcode \<Rightarrow> bool" where
  "op_ok a b (Opcode t i1 i2 j1 j2) \<longleftrightarrow>
     i1 \<le> i2 \<and> i2 \<le> length a \<and> j1 \<le> j2 \<and> j2 \<le> length b \<and>
     (t = Equal \<longrightarrow> i1 < i2 \<and> same a b i1 i2 j1 j2) \<and> (t = Delete \<longrightarrow> j1 = j2) \<and> (t = Insert \<longrightarrow> i1 = i2)"

fun chained :: "'a list \<Rightarrow> 'a list \<Rightarrow> opcode list \<Rightarrow> nat \<Rightarrow> nat \<Rightarrow> nat \<Rightarrow> nat \<Rightarrow> bool" where
  "chained a b [] i j k m \<longleftrightarrow> i = k \<and> j = m"
| "chained a b (Opcode t i1 i2 j1 j2 # cs) i j k m \<longleftrightarrow>
     i1 = i \<and> j1 = j \<and> op_ok a b (Opcode t i1 i2 j1 j2) \<and> chained a b cs i2 j2 k m"

lemma chained_append [simp]:
  "chained a b (xs @ ys) i j k m \<longleftrightarrow> (\<exists>k' m'. chained a b xs i j k' m' \<and> chained a b ys k' m' k m)"
proof (induction xs arbitrary: i j)
  case (Cons x xs)
  then show ?case by (cases x) auto
qed simp

lemma chained_mono:
  "chained a b cs i j k m \<Longrightarrow> i \<le> k \<and> j \<le> m"
proof (induction cs arbitrary: i j)
  case (Cons c cs)
  then show ?case by (cases c) fastforce
qed simp

text \<open>The groups of a diff from line \<open>p\<close> of \<open>a\<close> and line \<open>q\<close> of \<open>b\<close> on.\<close>

fun groups_ok :: "'a list \<Rightarrow> 'a list \<Rightarrow> nat \<Rightarrow> nat \<Rightarrow> opcode list list \<Rightarrow> bool" where
  "groups_ok a b p q [] \<longleftrightarrow> same a b p (length a) q (length b)"
| "groups_ok a b p q (g # gs) \<longleftrightarrow> g \<noteq> [] \<and>
     (let i1 = op_i1 (hd g); i2 = op_i2 (last g); j1 = op_j1 (hd g); j2 = op_j2 (last g) in
      same a b p i1 q j1 \<and> chained a b g i1 j1 i2 j2 \<and> (i1 < i2 \<or> a = []) \<and>
      i2 \<le> length a \<and> j2 \<le> length b \<and> groups_ok a b i2 j2 gs)"

locale line_differ =
  fixes diff_groups :: "nat \<Rightarrow> 'a list \<Rightarrow> 'a list \<Rightarrow> opcode list list"
  assumes diff_groups_ok: "0 < n \<Longrightarrow> groups_ok a b 0 0 (diff_groups n a b)"

section \<open>Matching blocks are in order\<close>

fun blocks_ok :: "'a list \<Rightarrow> 'a list \<Rightarrow> nat \<Rightarrow> nat \<Rightarrow> block list \<Rightarrow> nat \<Rightarrow> nat \<Rightarrow> bool" where
  "blocks_ok a b i j [] k m \<longleftrightarrow> i \<le> k \<and> j \<le> m"
| "blocks_ok a b i j ((ai, bj, s) # bs) k m \<longleftrightarrow>
     i \<le> ai \<and> j \<le> bj \<and> same a b ai (ai + s) bj (bj + s) \<and> blocks_ok a b (ai + s) (bj + s) bs k m"

lemma blocks_ok_weaken:
  "blocks_ok a b i' j' bs k m \<Longrightarrow> i \<le> i' \<Longrightarrow> j \<le> j' \<Longrightarrow> blocks_ok a b i j bs k m"
  by (cases bs) auto

lemma blocks_ok_append:
  "blocks_ok a b i j xs k m \<Longrightarrow> blocks_ok a b k m ys k' m' \<Longrightarrow> blocks_ok a b i j (xs @ ys) k' m'"
proof (induction xs arbitrary: i j)
  case Nil
  then show ?case by (auto intro: blocks_ok_weaken)
qed auto

lemma same_run:
  assumes "k \<le> run_length a b i ahi j bhi" and "i + k \<le> ahi" "j + k \<le> bhi"
    and "ahi \<le> length a" "bhi \<le> length b"
  shows "same a b i (i + k) j (j + k)"
proof -
  let ?z = "zip (take (ahi - i) (drop i a)) (take (bhi - j) (drop j b))"
  have "a ! (i + t) = b ! (j + t)" if "t < k" for t
  proof -
    from that assms have t: "t < length (takeWhile (\<lambda>(x, y). x = y) ?z)" by (simp add: run_length_def)
    then have "(\<lambda>(x, y). x = y) (?z ! t)" by (metis nth_mem set_takeWhileD takeWhile_nth)
    with that assms show ?thesis by simp
  qed
  with assms show ?thesis by (simp add: same_def)
qed

lemma matches_ok:
  "alo \<le> ahi \<Longrightarrow> ahi \<le> length a \<Longrightarrow> blo \<le> bhi \<Longrightarrow> bhi \<le> length b \<Longrightarrow>
   blocks_ok a b alo blo (matches a b alo ahi blo bhi) ahi bhi"
proof (induction a b alo ahi blo bhi rule: matches.induct)
  case (1 a b alo ahi blo bhi)
  obtain i j k where m: "find_longest_match a b alo ahi blo bhi = (i, j, k)"
    by (cases "find_longest_match a b alo ahi blo bhi") auto
  show ?case
  proof (cases "k = 0")
    case True
    with m 1 show ?thesis by (simp add: matches.simps)
  next
    case False
    note b = find_longest_match_bounds [OF m]
    from False b 1 have same: "same a b i (i + k) j (j + k)" by (intro same_run) auto
    let ?l = "if alo < i \<and> blo < j then matches a b alo i blo j else []"
    let ?r = "if i + k < ahi \<and> j + k < bhi then matches a b (i + k) ahi (j + k) bhi else []"
    have "blocks_ok a b alo blo ?l i j"
      using 1 b False m by auto
    moreover have "blocks_ok a b (i + k) (j + k) ?r ahi bhi"
      using 1 b False m by auto
    ultimately have "blocks_ok a b alo blo (?l @ [(i, j, k)] @ ?r) ahi bhi"
      using same by (intro blocks_ok_append) auto
    then show ?thesis using m False by (subst matches.simps) simp
  qed
qed

lemma collapse_ok:
  "blocks_ok a b p q ((i, j, k) # bs) ai bj \<Longrightarrow> blocks_ok a b p q (collapse (i, j, k) bs) ai bj"
proof (induction "(i, j, k)" bs arbitrary: i j k p q rule: collapse.induct)
  case (1 i j k)
  then show ?case by (auto intro: blocks_ok_weaken)
next
  case (2 i j k i' j' k' bs)
  show ?case
  proof (cases "i + k = i' \<and> j + k = j'")
    case True
    with "2.prems" have "same a b i (i + (k + k')) j (j + (k + k'))"
      by (auto simp: add.assoc intro: same_trans)
    with True 2 show ?thesis by (auto simp: add.assoc)
  next
    case False
    from "2.prems" have "blocks_ok a b (i + k) (j + k) ((i', j', k') # bs) ai bj" by simp
    with False 2 have "blocks_ok a b (i + k) (j + k) (collapse (i', j', k') bs) ai bj" by blast
    with False "2.prems" show ?thesis by (auto intro: blocks_ok_weaken)
  qed
qed

lemma get_matching_blocks_ok:
  "\<exists>bs. get_matching_blocks a b = bs @ [(length a, length b, 0)] \<and>
     blocks_ok a b 0 0 bs (length a) (length b)"
proof -
  have "blocks_ok a b 0 0 ((0, 0, 0) # matches a b 0 (length a) 0 (length b)) (length a) (length b)"
    using matches_ok [of 0 "length a" a 0 "length b" b] by (simp add: same_refl)
  then show ?thesis unfolding get_matching_blocks_def by (blast intro: collapse_ok)
qed

section \<open>Opcodes are an edit script\<close>

lemma gap_chained:
  "i \<le> ai \<Longrightarrow> j \<le> bj \<Longrightarrow> ai \<le> length a \<Longrightarrow> bj \<le> length b \<Longrightarrow> chained a b (gap i ai j bj) i j ai bj"
  by (auto simp: gap_def)

lemma opcodes_from_chained:
  assumes "blocks_ok a b i j bs (length a) (length b)"
  shows "chained a b (opcodes_from i j (bs @ [(length a, length b, 0)])) i j (length a) (length b)"
  using assms
proof (induction bs arbitrary: i j)
  case Nil
  then show ?case by (simp add: gap_chained)
next
  case (Cons x bs)
  obtain ai bj s where x: "x = (ai, bj, s)" by (cases x)
  with Cons.prems have s: "i \<le> ai" "j \<le> bj" "same a b ai (ai + s) bj (bj + s)"
    "blocks_ok a b (ai + s) (bj + s) bs (length a) (length b)" by auto
  then have "chained a b (gap i ai j bj) i j ai bj"
    by (intro gap_chained) (auto simp: same_def)
  moreover have "chained a b (if s > 0 then [Opcode Equal ai (ai + s) bj (bj + s)] else []) ai bj (ai + s) (bj + s)"
    using s by (auto simp: same_def)
  ultimately show ?case using Cons.IH [OF s(4)] unfolding x append_Cons opcodes_from.simps chained_append
    by blast
qed

lemma get_opcodes_chained: "chained a b (get_opcodes a b) 0 0 (length a) (length b)"
  using get_matching_blocks_ok [of a b] opcodes_from_chained by (metis get_opcodes_def)

section \<open>Groups\<close>

lemma chained_ends:
  assumes "chained a b g i j k m" and "g \<noteq> []"
  shows "op_i1 (hd g) = i" "op_j1 (hd g) = j" "op_i2 (last g) = k" "op_j2 (last g) = m"
proof -
  show "op_i1 (hd g) = i" "op_j1 (hd g) = j" using assms by (cases g; cases "hd g"; auto)+
  obtain g' c where g: "g = g' @ [c]" using assms(2) by (cases g rule: rev_cases) auto
  with assms(1) show "op_i2 (last g) = k" "op_j2 (last g) = m" by (cases c; auto)+
qed

lemma groups_okI:
  assumes "g \<noteq> []" and "chained a b g i j k m" and "same a b p i q j" and "i < k \<or> a = []"
    and "k \<le> length a" "m \<le> length b" and "groups_ok a b k m gs"
  shows "groups_ok a b p q (g # gs)"
  using assms chained_ends [OF assms(2,1)] by (simp add: Let_def)

lemma chained_equal: "chained a b [c] i j k m \<Longrightarrow> op_tag c = Equal \<Longrightarrow> same a b i k j m"
  by (cases c) auto

lemma group_codes_ok:
  assumes "0 < n" and "chained a b codes i j (length a - x) (length b - y)"
    and "same a b (length a - x) (length a) (length b - y) (length b)"
    and "chained a b g i0 j0 i j" and "same a b p i0 q j0" and "i0 < length a - x \<or> a = []"
  shows "groups_ok a b p q (group_codes n g codes)"
  using assms
proof (induction n g codes arbitrary: i j i0 j0 p q rule: group_codes.induct)
  case (1 n g)
  then have g: "chained a b g i0 j0 (length a - x) (length b - y)" by simp
  show ?case
  proof (cases "g = [] \<or> length g = 1 \<and> op_tag (hd g) = Equal")
    case True
    then have "same a b i0 (length a - x) j0 (length b - y)"
      using g 1 chained_equal by (auto simp: length_Suc_conv same_refl)
    with 1 True show ?thesis by (auto intro: same_trans)
  next
    case False
    then have "groups_ok a b p q [g]"
      using 1 by (intro groups_okI [OF _ g]) simp_all
    with False show ?thesis by (simp only: group_codes.simps if_False)
  qed
next
  case (2 n g t i1 i2 j1 j2 cs)
  note pos = "2.prems"(1)
  from 2 have c: "i1 = i" "j1 = j" "chained a b cs i2 j2 (length a - x) (length b - y)"
    "op_ok a b (Opcode t i i2 j j2)" by auto
  show ?case
  proof (cases "t = Equal \<and> i2 - i1 > n + n")
    case True
    then have s: "same a b i i2 j j2" and n: "n + n < i2 - i" using c by auto
    from same_prefix [OF s, of n] n have first: "same a b i (i + n) j (j + n)" by simp
    from same_part [OF s, of n n] n have mid: "same a b (i + n) (i2 - n) (j + n) (j2 - n)" by simp
    from same_suffix [OF s, of n] n have rest: "same a b (i2 - n) i2 (j2 - n) j2" by simp
    have e: "min i2 (i1 + n) = i + n" "min j2 (j1 + n) = j + n" "max i1 (i2 - n) = i2 - n"
      "max j1 (j2 - n) = j2 - n" using n s c by (auto simp: same_def)
    have "groups_ok a b (i + n) (j + n) (group_codes n [Opcode t (i2 - n) i2 (j2 - n) j2] cs)"
    proof (rule "2.IH"(1)[OF True, unfolded e])
      show "0 < n" by (rule pos)
      show "chained a b cs i2 j2 (length a - x) (length b - y)" by (rule c(3))
      show "same a b (length a - x) (length a) (length b - y) (length b)" by (rule "2.prems"(3))
      show "chained a b [Opcode t (i2 - n) i2 (j2 - n) j2] (i2 - n) (j2 - n) i2 j2"
        using rest True pos n by (auto simp: same_def)
      show "same a b (i + n) (i2 - n) (j + n) (j2 - n)" by (rule mid)
      show "i2 - n < length a - x \<or> a = []" using chained_mono [OF c(3)] pos n by linarith
    qed
    moreover have "chained a b (g @ [Opcode t i (i + n) j (j + n)]) i0 j0 (i + n) (j + n)"
      using "2.prems"(4) first True pos by (auto simp: same_def simp del: group_codes.simps)
    ultimately have "groups_ok a b p q ((g @ [Opcode t i (i + n) j (j + n)]) #
        group_codes n [Opcode t (i2 - n) i2 (j2 - n) j2] cs)"
    proof (intro groups_okI [where i = i0 and j = j0])
      show "same a b p i0 q j0" by (rule "2.prems"(5))
      show "i0 < i + n \<or> a = []" using chained_mono [OF "2.prems"(4)] pos by linarith
      show "i + n \<le> length a" "j + n \<le> length b" using first by (auto simp: same_def)
    qed simp_all
    with True e c(1,2) show ?thesis by simp
  next
    case False
    have "groups_ok a b p q (group_codes n (g @ [Opcode t i1 i2 j1 j2]) cs)"
    proof (rule "2.IH"(2)[OF False pos c(3) "2.prems"(3) _ "2.prems"(5,6)])
      show "chained a b (g @ [Opcode t i1 i2 j1 j2]) i0 j0 i2 j2"
        using "2.prems"(4) c by (simp del: op_ok.simps)
    qed
    with False show ?thesis by (simp only: group_codes.simps if_False)
  qed
qed

lemma trim_first_ok:
  assumes "chained a b codes 0 0 k m" and "codes \<noteq> []" and "0 < n"
  shows "\<exists>i j. same a b 0 i 0 j \<and> chained a b (trim_first n codes) i j k m \<and> (i < k \<or> i = 0)"
proof (cases "\<exists>i1 i2 j1 j2 cs. codes = Opcode Equal i1 i2 j1 j2 # cs")
  case True
  then obtain i2 j2 cs where c: "codes = Opcode Equal 0 i2 0 j2 # cs" and s: "same a b 0 i2 0 j2"
    and cs: "chained a b cs i2 j2 k m" and p: "0 < i2" using assms(1) by auto
  have ij: "i2 = j2" using s by (simp add: same_def)
  have t: "trim_first n codes = Opcode Equal (i2 - n) i2 (i2 - n) i2 # cs"
    using c ij by (simp add: trim_first_def)
  have "same a b 0 (i2 - n) 0 (i2 - n)" "same a b (i2 - n) i2 (i2 - n) i2"
    using same_prefix [OF s, of "i2 - n"] same_part [OF s, of "i2 - n" 0] ij by auto
  then show ?thesis using t cs p ij chained_mono [OF cs] assms(3)
    by (intro exI [of _ "i2 - n"]) (auto simp: same_def)
next
  case False
  then have "trim_first n codes = codes"
    by (auto simp: trim_first_def split: list.splits opcode.splits tag.splits)
  with assms show ?thesis by (auto intro!: exI [of _ 0] simp: same_refl)
qed

lemma trim_last_ok:
  assumes "chained a b codes i j (length a) (length b)" and "codes \<noteq> []" and "0 < n"
  shows "\<exists>x y. same a b (length a - x) (length a) (length b - y) (length b) \<and>
    chained a b (trim_last n codes) i j (length a - x) (length b - y) \<and>
    (i < length a \<longrightarrow> i < length a - x)"
proof -
  obtain cs t i1 i2 j1 j2 where c: "codes = cs @ [Opcode t i1 i2 j1 j2]"
    using assms(2) by (metis opcode.exhaust rev_exhaust)
  with assms(1) have cs: "chained a b cs i j i1 j1" and o: "op_ok a b (Opcode t i1 i2 j1 j2)"
    and e: "i2 = length a" "j2 = length b" by auto
  show ?thesis
  proof (cases "t = Equal")
    case False
    with c have "trim_last n codes = codes" by (cases t) (auto simp: trim_last_def)
    with assms show ?thesis by (auto intro!: exI [of _ 0] simp: same_refl)
  next
    case True
    define d where "d = min n (i2 - i1)"
    from True o have s: "same a b i1 i2 j1 j2" and p: "i1 < i2" by auto
    then have eq: "i2 - i1 = j2 - j1" "j1 \<le> j2" by (auto simp: same_def)
    have t: "trim_last n codes = cs @ [Opcode Equal i1 (i1 + d) j1 (j1 + d)]"
      using True c eq p by (auto simp: trim_last_def d_def min_def)
    have part: "same a b (i1 + d) i2 (j1 + d) j2" "same a b i1 (i1 + d) j1 (j1 + d)"
      using same_part [OF s, of d 0] same_prefix [OF s, of d] by (simp_all add: d_def)
    have d: "length a - (length a - (i1 + d)) = i1 + d" "length b - (length b - (j1 + d)) = j1 + d"
      using part e by (auto simp: same_def)
    show ?thesis
      using t part cs e p assms(3) d chained_mono [OF cs]
      by (intro exI [of _ "length a - (i1 + d)"] exI [of _ "length b - (j1 + d)"])
        (auto simp: d_def)
  qed
qed

lemma trim_first_nonempty: "codes \<noteq> [] \<Longrightarrow> trim_first n codes \<noteq> []"
  by (auto simp: trim_first_def split: list.splits opcode.splits tag.splits)

theorem get_grouped_opcodes_ok:
  assumes "0 < n"
  shows "groups_ok a b 0 0 (get_grouped_opcodes n a b)"
proof (cases "get_opcodes a b = []")
  case True
  with get_opcodes_chained [of a b] have "a = []" "b = []" by auto
  with True show ?thesis
    by (simp add: get_grouped_opcodes_def trim_first_def trim_last_def same_refl)
next
  case False
  obtain i j where i: "same a b 0 i 0 j" "chained a b (trim_first n (get_opcodes a b)) i j (length a) (length b)"
    "i < length a \<or> i = 0"
    using trim_first_ok [OF get_opcodes_chained False assms] by blast
  obtain x y where x: "same a b (length a - x) (length a) (length b - y) (length b)"
    "chained a b (trim_last n (trim_first n (get_opcodes a b))) i j (length a - x) (length b - y)"
    "i < length a \<longrightarrow> i < length a - x"
    using trim_last_ok [OF i(2) trim_first_nonempty [OF False] assms] by blast
  have "groups_ok a b 0 0 (group_codes n [] (trim_last n (trim_first n (get_opcodes a b))))"
    using i x assms by (intro group_codes_ok [where i0 = i and j0 = j]) auto
  with False show ?thesis by (simp add: get_grouped_opcodes_def)
qed

interpretation difflib: line_differ get_grouped_opcodes
  by unfold_locales (rule get_grouped_opcodes_ok)

end
