(* ===== verification/Patch_Text.thy ===== *)
theory Patch_Text
  imports Text_Lines Diff_Groups
begin

text \<open>
  Unified diffs of \<open>app/mygithub10.py\<close>: the builder \<open>_minimal_unified_diff\<close>, the parser
  \<open>_parse_patch_details\<close> and the strict application \<open>_apply_file_patch\<close>.  Files are texts (the
  code decodes UTF-8 before and encodes it after).  Parsers take the lines not read yet instead of
  an index and return the rest.
\<close>

section \<open>Errors and paths\<close>

record mismatch =
  mm_path :: string
  mm_hunk_index :: nat
  mm_old_start :: nat
  mm_candidate :: "nat option"
  mm_match_count :: nat
  mm_relative_line :: nat
  mm_expected :: string
  mm_actual :: string

datatype patch_error =
    PatchInvalidFormat string
  | PatchTooLarge
  | PatchUnsafePath
  | PatchRenameUnsupported
  | PatchEmpty
  | PatchDoesNotApply mismatch
  | PatchContextAmbiguous mismatch
  | PatchTextMismatch nat
  | PatchScopeExceeded
  | PatchRangeOverlap
  | IdempotencyRefused string
  | ToolError string json
  | ClientFailure

text \<open>\<open>str.split\<close> with one separator character.\<close>

fun split_on :: "char \<Rightarrow> string \<Rightarrow> string list" where
  "split_on c [] = [[]]"
| "split_on c (d # s) =
     (if d = c then [] # split_on c s
      else (case split_on c s of [] \<Rightarrow> [[d]] | p # ps \<Rightarrow> (d # p) # ps))"

definition safe_path :: "string \<Rightarrow> bool" where
  "safe_path path \<longleftrightarrow>
     path \<noteq> [] \<and> \<not> starts_with ''/'' path \<and> backslash \<notin> set path \<and>
     list_all (\<lambda>p. p \<notin> {'''', ''.'', ''..''}) (split_on (CHR ''/'') path) \<and>
     list_all (\<lambda>c. \<not> (of_char c :: nat) < 32) path"

section \<open>Building a diff\<close>

datatype patch_op = OpModify | OpAdd | OpDelete

definition operation_of_text :: "string \<Rightarrow> patch_op option" where
  "operation_of_text s =
     (if s = ''modify'' then Some OpModify else if s = ''add'' then Some OpAdd
      else if s = ''delete'' then Some OpDelete else None)"

definition format_unified_range :: "nat \<Rightarrow> nat \<Rightarrow> string" where
  "format_unified_range start stop =
     (let len = stop - start;
          beginning = start + 1;
          beginning = (if len = 0 then beginning - 1 else beginning)
      in if len = 1 then nat_text beginning else nat_text beginning @ '','' @ nat_text len)"

definition no_newline_marker :: string where
  "no_newline_marker = backslash # '' No newline at end of file''"

definition diff_line :: "char \<Rightarrow> string \<Rightarrow> string list" where
  "diff_line prefix line =
     (if line \<noteq> [] \<and> last line = LF then [prefix # line]
      else [prefix # line @ [LF], no_newline_marker @ [LF]])"

definition prefixed :: "char \<Rightarrow> string list \<Rightarrow> string list" where
  "prefixed prefix lines = concat (map (diff_line prefix) lines)"

fun opcode_output :: "string list \<Rightarrow> string list \<Rightarrow> opcode \<Rightarrow> string list" where
  "opcode_output a b (Opcode t i1 i2 j1 j2) =
     (if t = Equal then prefixed (CHR '' '') (segment a i1 i2) else []) @
     (if t \<in> {Replace, Delete} then prefixed (CHR ''-'') (segment a i1 i2) else []) @
     (if t \<in> {Replace, Insert} then prefixed (CHR ''+'') (segment b j1 j2) else [])"

definition group_header :: "opcode list \<Rightarrow> string" where
  "group_header g =
     ''@@ -'' @ format_unified_range (op_i1 (hd g)) (op_i2 (last g)) @
     '' +'' @ format_unified_range (op_j1 (hd g)) (op_j2 (last g)) @ '' @@'' @ [LF]"

definition group_output :: "string list \<Rightarrow> string list \<Rightarrow> opcode list \<Rightarrow> string list" where
  "group_output a b g = group_header g # concat (map (opcode_output a b) g)"

definition lines_added :: "opcode list list \<Rightarrow> nat" where
  "lines_added groups = sum_list (map (\<lambda>c. op_j2 c - op_j1 c)
     (filter (\<lambda>c. op_tag c \<in> {Replace, Insert}) (concat groups)))"

definition lines_deleted :: "opcode list list \<Rightarrow> nat" where
  "lines_deleted groups = sum_list (map (\<lambda>c. op_i2 c - op_i1 c)
     (filter (\<lambda>c. op_tag c \<in> {Replace, Delete}) (concat groups)))"

fun file_header :: "patch_op \<Rightarrow> string \<Rightarrow> string list" where
  "file_header OpAdd path =
     [''diff --git a/'' @ path @ '' b/'' @ path @ [LF], ''new file mode 100644'' @ [LF],
      ''--- /dev/null'' @ [LF], ''+++ b/'' @ path @ [LF]]"
| "file_header OpDelete path =
     [''diff --git a/'' @ path @ '' b/'' @ path @ [LF], ''deleted file mode 100644'' @ [LF],
      ''--- a/'' @ path @ [LF], ''+++ /dev/null'' @ [LF]]"
| "file_header OpModify path = [''--- a/'' @ path @ [LF], ''+++ b/'' @ path @ [LF]]"

definition minimal_unified_diff ::
  "string \<Rightarrow> string \<Rightarrow> string \<Rightarrow> nat \<Rightarrow> string \<Rightarrow> patch_error + (string \<times> nat \<times> nat)" where
  "minimal_unified_diff path old_text new_text ctxt operation =
     (if \<not> safe_path path then Inl PatchUnsafePath
      else (case operation_of_text operation of
        None \<Rightarrow> Inl (PatchInvalidFormat ''operation must be modify, add, or delete'')
      | Some kind \<Rightarrow>
          (let a = splitlines old_text;
               b = splitlines new_text;
               groups = get_grouped_opcodes ctxt a b
           in if groups = []
              then Inr (if kind = OpModify then '''' else concat (file_header kind path), 0, 0)
              else Inr (concat (file_header kind path @ concat (map (group_output a b) groups)),
                        lines_added groups, lines_deleted groups))))"

section \<open>Parsing a diff\<close>

type_synonym hunk = "nat \<times> nat \<times> string list \<times> string list"
type_synonym file_patch = "string \<times> patch_op \<times> hunk list"

record normalized_hunk =
  nh_path :: string
  nh_index :: nat
  nh_original :: string
  nh_normalized :: string
  nh_corrected :: bool

definition strip_prefix :: "string \<Rightarrow> string \<Rightarrow> string option" where
  "strip_prefix p s = (if starts_with p s then Some (drop (length p) s) else None)"

definition read_number :: "string \<Rightarrow> (nat \<times> string) option" where
  "read_number s =
     (let ds = takeWhile is_digit s in
      if ds = [] then None else Some (digits_value ds, dropWhile is_digit s))"

text \<open>\<open>(\d+)(?:,(\d+))?\<close>, an absent count being \<open>1\<close>.\<close>

definition read_range :: "string \<Rightarrow> (nat \<times> nat \<times> string) option" where
  "read_range s =
     (case read_number s of
        None \<Rightarrow> None
      | Some (n, r) \<Rightarrow>
          (case strip_prefix '','' r of
             None \<Rightarrow> Some (n, 1, r)
           | Some r' \<Rightarrow> map_option (\<lambda>(m, r''). (n, m, r'')) (read_number r')))"

text \<open>\<open>_HUNK_RE\<close> on one line: \<open>(old start, old count, new start, new count)\<close>.\<close>

definition hunk_tail :: "string \<Rightarrow> bool" where
  "hunk_tail s \<longleftrightarrow> s \<in> {[], [LF], [CR, LF]} \<or> (starts_with '' '' s \<and> LF \<notin> set (butlast s))"

definition hunk_re :: "string \<Rightarrow> (nat \<times> nat \<times> nat \<times> nat) option" where
  "hunk_re line =
     (case strip_prefix ''@@ -'' line of None \<Rightarrow> None | Some r1 \<Rightarrow>
     (case read_range r1 of None \<Rightarrow> None | Some (os, oc, r2) \<Rightarrow>
     (case strip_prefix '' +'' r2 of None \<Rightarrow> None | Some r3 \<Rightarrow>
     (case read_range r3 of None \<Rightarrow> None | Some (ns, nc, r4) \<Rightarrow>
     (case strip_prefix '' @@'' r4 of None \<Rightarrow> None | Some r5 \<Rightarrow>
       if hunk_tail r5 then Some (os, oc, ns, nc) else None)))))"

datatype side = NoSide | OldSide | NewSide | BothSides

definition side_of :: "char \<Rightarrow> side" where
  "side_of c = (if c = CHR ''-'' then OldSide else if c = CHR ''+'' then NewSide else BothSides)"

definition ends_hunk :: "string \<Rightarrow> bool" where
  "ends_hunk line \<longleftrightarrow>
     starts_with ''diff --git '' line \<or> starts_with ''--- '' line \<or> starts_with ''@@ '' line"

definition cut_last_newline :: "string list \<Rightarrow> string list" where
  "cut_last_newline xs = (if xs = [] then [] else butlast xs @ [drop_newline (last xs)])"

fun hunk_body ::
  "side \<Rightarrow> string list \<Rightarrow> string list \<Rightarrow> string list \<Rightarrow>
   patch_error + (string list \<times> string list \<times> string list)" where
  "hunk_body side old new [] = Inr (old, new, [])"
| "hunk_body side old new (line # rest) =
     (if ends_hunk line then Inr (old, new, line # rest)
      else if starts_with no_newline_marker line then
        hunk_body side
          (if side \<in> {OldSide, BothSides} then cut_last_newline old else old)
          (if side \<in> {NewSide, BothSides} then cut_last_newline new else new) rest
      else (case line of
        [] \<Rightarrow> Inl (PatchInvalidFormat ''invalid unified diff line'')
      | c # t \<Rightarrow>
          if c \<notin> {CHR '' '', CHR ''+'', CHR ''-''}
          then Inl (PatchInvalidFormat ''invalid unified diff line'')
          else hunk_body (side_of c)
            (if c \<in> {CHR '' '', CHR ''-''} then old @ [t] else old)
            (if c \<in> {CHR '' '', CHR ''+''} then new @ [t] else new) rest))"

lemma hunk_body_rest: "hunk_body side old new ls = Inr (old', new', rest) \<Longrightarrow> length rest \<le> length ls"
  by (induction side old new ls rule: hunk_body.induct) (fastforce split: if_splits list.splits)+

definition normalized_header :: "nat \<Rightarrow> nat \<Rightarrow> nat \<Rightarrow> nat \<Rightarrow> string" where
  "normalized_header os oc ns nc =
     ''@@ -'' @ nat_text os @ '','' @ nat_text oc @ '' +'' @ nat_text ns @ '','' @ nat_text nc @ '' @@''"

text \<open>The hunks of one file; \<open>k\<close> is the index of the next one.\<close>

function parse_hunks ::
  "string \<Rightarrow> nat \<Rightarrow> string list \<Rightarrow>
   patch_error + (hunk list \<times> normalized_hunk list \<times> string list)" where
  "parse_hunks path k [] = Inr ([], [], [])"
| "parse_hunks path k (line # rest) =
     (if \<not> starts_with ''@@ '' line then Inr ([], [], line # rest)
      else (case hunk_re line of
        None \<Rightarrow> Inl (PatchInvalidFormat ''invalid unified diff hunk'')
      | Some (os, oc, ns, nc) \<Rightarrow>
          (case hunk_body NoSide [] [] rest of
             Inl e \<Rightarrow> Inl e
           | Inr (old, new, rest') \<Rightarrow>
               (case parse_hunks path (k + 1) rest' of
                  Inl e \<Rightarrow> Inl e
                | Inr (hs, ns', rest'') \<Rightarrow>
                    Inr ((os, ns, old, new) # hs,
                      \<lparr>nh_path = path, nh_index = k, nh_original = rstrip_crlf line,
                       nh_normalized = normalized_header os (length old) ns (length new),
                       nh_corrected = (oc \<noteq> length old \<or> nc \<noteq> length new)\<rparr> # ns', rest'')))))"
  by pat_completeness auto
termination
  by (relation "measure (\<lambda>(path, k, ls). length ls)") (auto dest!: hunk_body_rest)

lemma parse_hunks_step:
  assumes "parse_hunks path k (line # ls) = Inr (hs, ns, rest)" and "starts_with ''@@ '' line"
  obtains os oc n nc old new rest' hs' ns' nh where "hunk_re line = Some (os, oc, n, nc)"
    and "hunk_body NoSide [] [] ls = Inr (old, new, rest')"
    and "parse_hunks path (k + 1) rest' = Inr (hs', ns', rest)"
    and "hs = (os, n, old, new) # hs'" and "ns = nh # ns'"
  using assms by (auto split: option.splits sum.splits)

lemma parse_hunks_rest: "parse_hunks path k ls = Inr (hs, ns, rest) \<Longrightarrow> length rest \<le> length ls"
proof (induction path k ls arbitrary: hs ns rest rule: parse_hunks.induct)
  case (2 path k line ls)
  show ?case
  proof (cases "starts_with ''@@ '' line")
    case True
    from 2(2) True show ?thesis
    proof (rule parse_hunks_step)
      fix os oc n nc old new rest' hs' ns'
      assume s: "hunk_re line = Some (os, oc, n, nc)" "hunk_body NoSide [] [] ls = Inr (old, new, rest')"
        "parse_hunks path (k + 1) rest' = Inr (hs', ns', rest)"
      have "length rest \<le> length rest'" using "2.IH" True s by auto
      with hunk_body_rest [OF s(2)] show ?thesis by simp
    qed
  next
    case False
    with 2(2) show ?thesis by simp
  qed
qed simp

definition tab :: char where "tab = CHR 0x09"

text \<open>The path of a header line, without its marker and what follows a tab.\<close>

definition header_path :: "string \<Rightarrow> string" where
  "header_path line = takeWhile (\<lambda>c. c \<noteq> tab) (py_strip (drop 4 line))"

definition drop_side :: "string \<Rightarrow> string \<Rightarrow> string" where
  "drop_side p path = (if starts_with p path then drop (length p) path else path)"

definition dev_null :: string where "dev_null = ''/dev/null''"

definition header_target :: "string \<Rightarrow> string \<Rightarrow> patch_error + (string \<times> patch_op)" where
  "header_target line1 line2 =
     (let old = drop_side ''a/'' (header_path line1);
          new = drop_side ''b/'' (header_path line2);
          (path, kind) = (if old = dev_null then (new, OpAdd)
                          else if new = dev_null then (old, OpDelete) else (new, OpModify))
      in if \<not> safe_path path then Inl PatchUnsafePath
         else if old \<noteq> dev_null \<and> new \<noteq> dev_null \<and> old \<noteq> new then Inl PatchRenameUnsupported
         else Inr (path, kind))"

definition metadata_prefixes :: "string list" where
  "metadata_prefixes =
     [''diff --git '', ''index '', ''new file mode '', ''deleted file mode '', ''old mode '',
      ''new mode '', ''similarity index '', ''rename from '', ''rename to '']"

definition metadata_line :: "string \<Rightarrow> bool" where
  "metadata_line line \<longleftrightarrow> list_ex (\<lambda>p. starts_with p line) metadata_prefixes"

text \<open>The file patches with text headers; \<open>started\<close>: one was read before.\<close>

function parse_files ::
  "bool \<Rightarrow> string list \<Rightarrow> patch_error + (file_patch list \<times> normalized_hunk list)" where
  "parse_files started [] = Inr ([], [])"
| "parse_files started (line # rest) =
     (if \<not> starts_with ''--- '' line then
        (if started \<and> py_strip line \<noteq> [] \<and> \<not> metadata_line line
         then Inl (PatchInvalidFormat ''unexpected content outside unified diff hunk'')
         else parse_files started rest)
      else if rest = [] \<or> \<not> starts_with ''+++ '' (hd rest)
        then Inl (PatchInvalidFormat ''unified diff header is incomplete'')
      else (case header_target line (hd rest) of
        Inl e \<Rightarrow> Inl e
      | Inr (path, kind) \<Rightarrow>
          (case parse_hunks path 1 (tl rest) of
             Inl e \<Rightarrow> Inl e
           | Inr (hs, ns, rest') \<Rightarrow>
               if hs = [] \<and> kind = OpModify
               then Inl (PatchInvalidFormat ''file patch has no hunks'')
               else (case parse_files True rest' of
                 Inl e \<Rightarrow> Inl e
               | Inr (fs, ns') \<Rightarrow> Inr ((path, kind, hs) # fs, ns @ ns')))))"
  by pat_completeness auto
termination
  by (relation "measure (\<lambda>(started, ls). length ls)")
    (auto dest!: parse_hunks_rest simp: le_imp_less_Suc)

text \<open>\<open>diff --git a/(.+) b/\1\<close> on a whole header line.\<close>

definition git_header_path :: "string \<Rightarrow> string option" where
  "git_header_path header =
     (case strip_prefix ''diff --git a/'' header of
        None \<Rightarrow> None
      | Some r \<Rightarrow>
          (let p = take ((length r - 3) div 2) r in
           if p \<noteq> [] \<and> LF \<notin> set p \<and> r = p @ '' b/'' @ p then Some p else None))"

text \<open>The deletions of a patch that have no text headers.\<close>

function metadata_deletes :: "string list \<Rightarrow> patch_error + file_patch list" where
  "metadata_deletes [] = Inr []"
| "metadata_deletes (line # rest) =
     (if \<not> starts_with ''diff --git '' line then metadata_deletes rest
      else
        (let block = line # takeWhile (\<lambda>l. \<not> starts_with ''diff --git '' l) rest;
             rest' = dropWhile (\<lambda>l. \<not> starts_with ''diff --git '' l) rest
         in if list_ex (starts_with ''deleted file mode '') block \<and> \<not> list_ex (starts_with ''--- '') block
            then (case git_header_path (rstrip_crlf line) of
                None \<Rightarrow> Inl (PatchInvalidFormat ''metadata-only delete must use matching a/ and b/ paths'')
              | Some path \<Rightarrow>
                  if \<not> safe_path path then Inl PatchUnsafePath
                  else map_sum id ((#) (path, OpDelete, [])) (metadata_deletes rest'))
            else metadata_deletes rest'))"
  by pat_completeness auto
termination
  by (relation "measure length") (auto simp: le_imp_less_Suc length_dropWhile_le)

definition max_patch_bytes :: nat where
  "max_patch_bytes = 262144"

definition parse_patch_details ::
  "string \<Rightarrow> patch_error + (file_patch list \<times> normalized_hunk list)" where
  "parse_patch_details patch =
     (if patch = [] then Inl (PatchInvalidFormat ''patch is empty'')
      else if text_bytes patch > max_patch_bytes then Inl PatchTooLarge
      else (let ls = splitlines patch in
        case metadata_deletes ls of
          Inl e \<Rightarrow> Inl e
        | Inr deletes \<Rightarrow>
            (case parse_files False ls of
               Inl e \<Rightarrow> Inl e
             | Inr (fs, ns) \<Rightarrow>
                 if fs @ deletes = [] then Inl PatchEmpty else Inr (fs @ deletes, ns))))"

definition patch_normalized :: "normalized_hunk list \<Rightarrow> bool" where
  "patch_normalized ns \<longleftrightarrow> list_ex nh_corrected ns"

section \<open>Applying a file patch\<close>

definition context_at :: "string list \<Rightarrow> string list \<Rightarrow> nat \<Rightarrow> bool" where
  "context_at source expected i \<longleftrightarrow> segment source i (i + length expected) = expected"

text \<open>The first line where the source differs from the expected lines.\<close>

fun first_difference :: "string list \<Rightarrow> string list \<Rightarrow> nat \<Rightarrow> nat \<times> string" where
  "first_difference source [] k = (if k = 0 then 1 else k, [])"
| "first_difference source (e # es) k =
     (let actual = (case source of [] \<Rightarrow> [] | s # _ \<Rightarrow> s) in
      if actual \<noteq> e then (k + 1, actual)
      else first_difference (drop 1 source) es (k + 1))"

definition mismatch_details ::
  "string list \<Rightarrow> nat \<Rightarrow> string list \<Rightarrow> nat \<Rightarrow> nat \<Rightarrow> string \<Rightarrow> mismatch" where
  "mismatch_details source position expected old_start k path =
     (let candidates =
            (if length expected \<le> length source
             then filter (context_at source expected) [0..<length source - length expected + 1] else []);
          (relative, actual) = first_difference (drop position source) expected 0
      in \<lparr>mm_path = path, mm_hunk_index = k, mm_old_start = old_start,
          mm_candidate = (case candidates of [c] \<Rightarrow> Some (c + 1) | _ \<Rightarrow> None),
          mm_match_count = length candidates, mm_relative_line = relative,
          mm_expected = (if expected \<noteq> [] then expected ! (relative - 1) else []),
          mm_actual = actual\<rparr>)"

fun apply_hunks ::
  "string \<Rightarrow> bool \<Rightarrow> string list \<Rightarrow> nat \<Rightarrow> nat \<Rightarrow> hunk list \<Rightarrow> patch_error + string list" where
  "apply_hunks path allow_empty source cursor k [] = Inr (drop cursor source)"
| "apply_hunks path allow_empty source cursor k ((old_start, new_start, expected, replacement) # hs) =
     (if allow_empty \<and> (source \<noteq> [] \<or> old_start \<noteq> 0 \<or> expected \<noteq> [])
      then Inl (PatchInvalidFormat ''new-file patch must start at old line 0 with an empty old file'')
      else if \<not> allow_empty \<and> old_start < 1
      then Inl (PatchInvalidFormat ''old line 0 is valid only for a new-file patch'')
      else (let position = (if allow_empty then 0 else old_start - 1) in
        if position < cursor \<or> position > length source \<or> \<not> context_at source expected position
        then (let m = mismatch_details source position expected old_start k path in
              Inl (if mm_match_count m > 1 then PatchContextAmbiguous m else PatchDoesNotApply m))
        else map_sum id (\<lambda>out. segment source cursor position @ replacement @ out)
          (apply_hunks path allow_empty source (position + length expected) (k + 1) hs)))"

definition apply_file_patch ::
  "string \<Rightarrow> hunk list \<Rightarrow> bool \<Rightarrow> string \<Rightarrow> patch_error + string" where
  "apply_file_patch old hunks allow_empty_old path =
     map_sum id concat (apply_hunks path allow_empty_old (splitlines old) 0 1 hunks)"

end
