(* ===== verification/Patch_Roundtrip.thy ===== *)
theory Patch_Roundtrip
  imports Patch_Text
begin

text \<open>
  A built diff means what it was built from: the parser reads back the hunks of the groups, with
  counts that need no correction, and applying them to the old text gives the new one.
\<close>

section \<open>Applying the groups of a diff\<close>

definition range_start :: "nat \<Rightarrow> nat \<Rightarrow> nat" where
  "range_start i k = (if k - i = 0 then i else i + 1)"

definition hunk_of :: "string list \<Rightarrow> string list \<Rightarrow> opcode list \<Rightarrow> hunk" where
  "hunk_of a b g =
     (let i1 = op_i1 (hd g); i2 = op_i2 (last g); j1 = op_j1 (hd g); j2 = op_j2 (last g)
      in (range_start i1 i2, range_start j1 j2, segment a i1 i2, segment b j1 j2))"

lemma apply_groups:
  assumes "groups_ok a b p q gs"
  shows "apply_hunks path (a = []) a p k (map (hunk_of a b) gs) = Inr (drop q b)"
  using assms
proof (induction gs arbitrary: p q k)
  case Nil
  then show ?case by (simp add: same_rest)
next
  case (Cons g gs)
  define i1 i2 j1 j2 where d: "i1 = op_i1 (hd g)" "i2 = op_i2 (last g)" "j1 = op_j1 (hd g)" "j2 = op_j2 (last g)"
  from Cons.prems have s: "same a b p i1 q j1" and c: "chained a b g i1 j1 i2 j2"
    and n: "i1 < i2 \<or> a = []" and l: "i2 \<le> length a" "j2 \<le> length b" and gs: "groups_ok a b i2 j2 gs"
    by (auto simp: Let_def d)
  have m: "i1 \<le> i2" "j1 \<le> j2" using chained_mono [OF c] by auto
  have h: "hunk_of a b g = (range_start i1 i2, range_start j1 j2, segment a i1 i2, segment b j1 j2)"
    by (simp add: hunk_of_def d Let_def)
  have pos: "(if a = [] then 0 else range_start i1 i2 - 1) = i1"
    using n l m by (auto simp: range_start_def)
  have end_pos: "i1 + length (segment a i1 i2) = i2" using l m by simp
  have ctxt: "context_at a (segment a i1 i2) i1" using l m by (simp add: context_at_def)
  have out: "segment a p i1 @ segment b j1 j2 @ drop j2 b = drop q b"
    using same_segment [OF s] s m by (simp add: segment_drop same_def)
  note ih = Cons.IH [OF gs, of "k + 1"]
  have p: "p \<le> i1" "i1 \<le> length a" using s by (auto simp: same_def)
  show ?case
  proof (cases "a = []")
    case True
    then have "range_start i1 i2 = 0" "segment a i1 i2 = []" "i1 = 0" "i2 = 0" "p = 0"
      using l m p by (auto simp: range_start_def segment_def)
    with True ih ctxt out h show ?thesis by simp
  next
    case False
    then have "range_start i1 i2 \<ge> 1" using n by (auto simp: range_start_def)
    with False ih pos ctxt end_pos out p show ?thesis by (simp add: h)
  qed
qed

locale text_differ = line_differ diff_groups
  for diff_groups :: "nat \<Rightarrow> string list \<Rightarrow> string list \<Rightarrow> opcode list list"
begin

lemma diff_applies:
  assumes "0 < n"
  shows "apply_hunks path (a = []) a 0 k (map (hunk_of a b) (diff_groups n a b)) = Inr b"
  using apply_groups diff_groups_ok [OF assms] by fastforce

lemma no_groups_same: "0 < n \<Longrightarrow> diff_groups n a b = [] \<Longrightarrow> a = b"
  using diff_groups_ok [of n a b] same_rest [of a b 0 0] by simp

end

interpretation difflib_text: text_differ get_grouped_opcodes
  by unfold_locales

section \<open>Reading hunks back\<close>

text \<open>A line the patch format can carry: it ends in a line feed, or it is an unterminated last line.\<close>

definition carried_line :: "string \<Rightarrow> bool" where
  "carried_line l \<longleftrightarrow> l \<noteq> [] \<and> (plain_line l \<or> no_breaks l)"

lemma hunk_body_line:
  assumes "carried_line l" and "p \<in> {CHR '' '', CHR ''+'', CHR ''-''}"
    and "p = CHR ''-'' \<Longrightarrow> \<not> starts_with ''-- '' l"
  shows "hunk_body side old new (diff_line p l @ rest) =
    hunk_body (side_of p) (if p \<in> {CHR '' '', CHR ''-''} then old @ [l] else old)
      (if p \<in> {CHR '' '', CHR ''+''} then new @ [l] else new) rest"
proof (cases "last l = LF")
  case True
  with assms show ?thesis
    by (auto simp: carried_line_def diff_line_def ends_hunk_def no_newline_marker_def)
next
  case False
  then have b: "no_breaks l" using assms(1) by (auto simp: carried_line_def plain_line_def)
  have "\<not> starts_with ''-- '' (l @ [LF])" if "\<not> starts_with ''-- '' l"
    using that b by (cases l; cases "tl l"; cases "tl (tl l)") auto
  with False assms drop_newline_body [OF b] show ?thesis
    by (auto simp: diff_line_def ends_hunk_def no_newline_marker_def cut_last_newline_def side_of_def)
qed

lemma hunk_body_lines:
  assumes "list_all carried_line ls" and "p \<in> {CHR '' '', CHR ''+'', CHR ''-''}"
    and "p = CHR ''-'' \<Longrightarrow> list_all (\<lambda>l. \<not> starts_with ''-- '' l) ls"
  shows "\<exists>side'. hunk_body side old new (prefixed p ls @ rest) =
    hunk_body side' (if p \<in> {CHR '' '', CHR ''-''} then old @ ls else old)
      (if p \<in> {CHR '' '', CHR ''+''} then new @ ls else new) rest"
  using assms
proof (induction ls arbitrary: side old new)
  case Nil
  then show ?case by (auto simp: prefixed_def)
next
  case (Cons l ls)
  let ?old = "if p \<in> {CHR '' '', CHR ''-''} then old @ [l] else old"
  let ?new = "if p \<in> {CHR '' '', CHR ''+''} then new @ [l] else new"
  have "hunk_body side old new (prefixed p (l # ls) @ rest) =
      hunk_body (side_of p) ?old ?new (prefixed p ls @ rest)"
    using Cons.prems hunk_body_line [of l p side old new "prefixed p ls @ rest"]
    by (simp add: prefixed_def)
  with Cons.IH [of "side_of p" ?old ?new] Cons.prems show ?case by auto
qed

lemma list_all_segment: "list_all P xs \<Longrightarrow> list_all P (segment xs i k)"
  by (auto simp: list_all_iff segment_def dest!: in_set_takeD in_set_dropD)

lemma hunk_body_opcode:
  assumes "op_ok a b (Opcode t i1 i2 j1 j2)"
    and "list_all carried_line a" "list_all carried_line b" "list_all (\<lambda>l. \<not> starts_with ''-- '' l) a"
  shows "\<exists>side'. hunk_body side old new (opcode_output a b (Opcode t i1 i2 j1 j2) @ rest) =
    hunk_body side' (old @ segment a i1 i2) (new @ segment b j1 j2) rest"
proof (cases t)
  case Equal
  with assms have "segment a i1 i2 = segment b j1 j2" by (auto intro: same_segment)
  with Equal show ?thesis
    using hunk_body_lines [of "segment a i1 i2" "CHR '' ''" side old new rest] assms
    by (auto simp: list_all_segment)
next
  case Replace
  have d: "\<exists>s. hunk_body side old new (prefixed (CHR ''-'') (segment a i1 i2) @ r) =
      hunk_body s (old @ segment a i1 i2) new r" for r
    using hunk_body_lines [of "segment a i1 i2" "CHR ''-''" side old new r] assms
    by (auto simp: list_all_segment)
  have i: "\<exists>s'. hunk_body s o' new (prefixed (CHR ''+'') (segment b j1 j2) @ rest) =
      hunk_body s' o' (new @ segment b j1 j2) rest" for s o'
    using hunk_body_lines [of "segment b j1 j2" "CHR ''+''" s o' new rest] assms
    by (auto simp: list_all_segment)
  from d [of "prefixed (CHR ''+'') (segment b j1 j2) @ rest"] i Replace show ?thesis
    by simp metis
next
  case Delete
  then show ?thesis
    using hunk_body_lines [of "segment a i1 i2" "CHR ''-''" side old new rest] assms
    by (auto simp: list_all_segment)
next
  case Insert
  then show ?thesis
    using hunk_body_lines [of "segment b j1 j2" "CHR ''+''" side old new rest] assms
    by (auto simp: list_all_segment)
qed

lemma hunk_body_group:
  assumes "chained a b g i j k m" and "rest = [] \<or> ends_hunk (hd rest)"
    and "list_all carried_line a" "list_all carried_line b" "list_all (\<lambda>l. \<not> starts_with ''-- '' l) a"
  shows "hunk_body side old new (concat (map (opcode_output a b) g) @ rest) =
    Inr (old @ segment a i k, new @ segment b j m, rest)"
  using assms(1)
proof (induction g arbitrary: side old new i j)
  case Nil
  then show ?case using assms(2) by (cases rest) auto
next
  case (Cons c g)
  obtain t i2 j2 where c: "c = Opcode t i i2 j j2" "op_ok a b c" "chained a b g i2 j2 k m"
    using Cons.prems by (cases c) auto
  obtain side' where "hunk_body side old new (opcode_output a b c @ concat (map (opcode_output a b) g) @ rest) =
      hunk_body side' (old @ segment a i i2) (new @ segment b j j2) (concat (map (opcode_output a b) g) @ rest)"
    using hunk_body_opcode [OF c(2)[unfolded c(1)] assms(3,4,5)] c(1) by blast
  moreover have "i \<le> i2" "i2 \<le> k" "j \<le> j2" "j2 \<le> m" using c chained_mono [OF c(3)] by auto
  ultimately show ?case using Cons.IH [OF c(3)] by (simp add: segment_append)
qed

section \<open>Reading headers back\<close>

lemma read_number_text:
  "r = [] \<or> \<not> is_digit (hd r) \<Longrightarrow> read_number (nat_text n @ r) = Some (n, r)"
  using span_digits [OF nat_text_digits, of r n] by (simp add: read_number_def Let_def)

lemma read_range_text:
  assumes "i \<le> k" and "\<not> is_digit c" and "c \<noteq> CHR '',''"
  shows "read_range (format_unified_range i k @ c # r) = Some (range_start i k, k - i, c # r)"
proof -
  have comma: "\<not> is_digit (CHR '','')" by (simp add: is_digit_def)
  show ?thesis
    using assms comma
    by (auto simp: read_range_def format_unified_range_def range_start_def strip_prefix_def
        read_number_text Let_def)
qed

lemma hunk_re_text:
  assumes "i \<le> k" and "j \<le> m"
  shows "hunk_re (''@@ -'' @ format_unified_range i k @ '' +'' @ format_unified_range j m @ '' @@'' @ [LF]) =
    Some (range_start i k, k - i, range_start j m, m - j)"
  using assms read_range_text [OF assms(1), of "CHR '' ''"] read_range_text [OF assms(2), of "CHR '' ''"]
  by (simp add: hunk_re_def strip_prefix_def hunk_tail_def is_digit_def starts_with_def)

definition clear_rest :: "string list \<Rightarrow> bool" where
  "clear_rest rest \<longleftrightarrow> rest = [] \<or> starts_with ''diff --git '' (hd rest) \<or> starts_with ''--- '' (hd rest)"

lemma clear_rest_cases:
  assumes "clear_rest rest"
  shows "rest = [] \<or> ends_hunk (hd rest)" "parse_hunks path k rest = Inr ([], [], rest)"
proof -
  show "rest = [] \<or> ends_hunk (hd rest)" using assms by (auto simp: clear_rest_def ends_hunk_def)
  have "rest \<noteq> [] \<Longrightarrow> \<not> starts_with ''@@ '' (hd rest)"
    using assms by (cases "hd rest") (auto simp: clear_rest_def)
  then show "parse_hunks path k rest = Inr ([], [], rest)" by (cases rest) auto
qed

lemma parse_hunks_groups:
  assumes "groups_ok a b p q gs" and "clear_rest rest"
    and "list_all carried_line a" "list_all carried_line b" "list_all (\<lambda>l. \<not> starts_with ''-- '' l) a"
  shows "\<exists>ns. parse_hunks path k (concat (map (group_output a b) gs) @ rest) =
    Inr (map (hunk_of a b) gs, ns, rest) \<and> \<not> patch_normalized ns"
  using assms(1)
proof (induction gs arbitrary: p q k)
  case Nil
  then show ?case using clear_rest_cases(2) [OF assms(2)] by (simp add: patch_normalized_def)
next
  case (Cons g gs)
  define i1 i2 j1 j2 where d: "i1 = op_i1 (hd g)" "i2 = op_i2 (last g)" "j1 = op_j1 (hd g)" "j2 = op_j2 (last g)"
  from Cons.prems have c: "chained a b g i1 j1 i2 j2" and l: "i2 \<le> length a" "j2 \<le> length b"
    and gs: "groups_ok a b i2 j2 gs" by (auto simp: Let_def d)
  have m: "i1 \<le> i2" "j1 \<le> j2" using chained_mono [OF c] by auto
  let ?rest = "concat (map (group_output a b) gs) @ rest"
  have "?rest = [] \<or> ends_hunk (hd ?rest)"
    using clear_rest_cases(1) [OF assms(2)]
    by (cases gs) (auto simp: group_output_def group_header_def ends_hunk_def)
  then have body: "hunk_body NoSide [] [] (concat (map (opcode_output a b) g) @ ?rest) =
      Inr (segment a i1 i2, segment b j1 j2, ?rest)"
    using hunk_body_group [OF c _ assms(3-5), of ?rest NoSide "[]" "[]"] by simp
  have head: "hunk_re (group_header g) = Some (range_start i1 i2, i2 - i1, range_start j1 j2, j2 - j1)"
    using hunk_re_text [OF m] by (simp add: group_header_def d)
  have "starts_with ''@@ '' (group_header g)" by (simp add: group_header_def)
  moreover obtain ns where "parse_hunks path (k + 1) ?rest = Inr (map (hunk_of a b) gs, ns, rest)"
    "\<not> patch_normalized ns" using Cons.IH [OF gs] by blast
  moreover have "hunk_of a b g = (range_start i1 i2, range_start j1 j2, segment a i1 i2, segment b j1 j2)"
    by (simp add: hunk_of_def d Let_def)
  moreover have "concat (map (group_output a b) (g # gs)) @ rest =
      group_header g # (concat (map (opcode_output a b) g) @ ?rest)" by (simp add: group_output_def)
  ultimately show ?case using head body l by (auto simp: patch_normalized_def)
qed

section \<open>Reading files back\<close>

text \<open>A path the headers can carry: no line boundary in it and no white space at its end.\<close>

definition carried_path :: "string \<Rightarrow> bool" where
  "carried_path path \<longleftrightarrow> safe_path path \<and> no_breaks path \<and> \<not> py_space (last path)"

lemma safe_path_facts:
  assumes "safe_path path"
  shows "path \<noteq> []" "tab \<notin> set path" "path \<noteq> dev_null" "\<not> starts_with ''/'' path"
proof -
  show "path \<noteq> []" "\<not> starts_with ''/'' path" using assms by (auto simp: safe_path_def)
  then show "path \<noteq> dev_null" by (auto simp: dev_null_def)
  show "tab \<notin> set path" using assms by (auto simp: safe_path_def tab_def list_all_iff)
qed

lemma header_path_text:
  assumes "\<not> py_space c" and "s \<noteq> []" and "\<not> py_space (last s)" and "c \<noteq> tab" and "tab \<notin> set s"
    and "length m = 4"
  shows "header_path (m @ c # s @ [LF]) = c # s"
proof -
  have lf: "py_space LF" by (simp add: py_space_def)
  have "dropWhile py_space (rev s @ [c]) = rev s @ [c]"
    using assms by (cases s rule: rev_cases) auto
  then have "py_strip (c # s @ [LF]) = c # s" using assms lf by (simp add: py_strip_def)
  moreover have "takeWhile (\<lambda>d. d \<noteq> tab) (c # s) = c # s"
    using assms by (auto simp: takeWhile_eq_all_conv)
  ultimately show ?thesis using assms by (simp add: header_path_def)
qed

definition header_lines :: "patch_op \<Rightarrow> string \<Rightarrow> string \<times> string" where
  "header_lines kind path =
     (case kind of
        OpAdd \<Rightarrow> (''--- /dev/null'' @ [LF], ''+++ b/'' @ path @ [LF])
      | OpDelete \<Rightarrow> (''--- a/'' @ path @ [LF], ''+++ /dev/null'' @ [LF])
      | OpModify \<Rightarrow> (''--- a/'' @ path @ [LF], ''+++ b/'' @ path @ [LF]))"

lemma header_paths:
  assumes "carried_path path"
  shows "header_path (''--- a/'' @ path @ [LF]) = ''a/'' @ path"
    "header_path (''+++ b/'' @ path @ [LF]) = ''b/'' @ path"
    "header_path (''--- /dev/null'' @ [LF]) = dev_null"
    "header_path (''+++ /dev/null'' @ [LF]) = dev_null"
proof -
  have s: "\<not> py_space (CHR ''a'')" "\<not> py_space (CHR ''b'')" "\<not> py_space (CHR ''/'')" "\<not> py_space (CHR ''l'')"
    by (simp_all add: py_space_def)
  have t: "tab \<notin> set ''/dev/null''" "CHR ''a'' \<noteq> tab" "CHR ''b'' \<noteq> tab" "CHR ''/'' \<noteq> tab"
    by (simp_all add: tab_def)
  note f = safe_path_facts [of path] assms [unfolded carried_path_def]
  show "header_path (''--- a/'' @ path @ [LF]) = ''a/'' @ path"
    using header_path_text [of "CHR ''a''" "CHR ''/'' # path" "''--- ''"] s t f by simp
  show "header_path (''+++ b/'' @ path @ [LF]) = ''b/'' @ path"
    using header_path_text [of "CHR ''b''" "CHR ''/'' # path" "''+++ ''"] s t f by simp
  show "header_path (''--- /dev/null'' @ [LF]) = dev_null" "header_path (''+++ /dev/null'' @ [LF]) = dev_null"
    using header_path_text [of "CHR ''/''" "''dev/null''" "''--- ''"]
      header_path_text [of "CHR ''/''" "''dev/null''" "''+++ ''"] s t by (simp_all add: dev_null_def)
qed

lemma header_target_text:
  assumes "carried_path path"
  shows "header_target (fst (header_lines kind path)) (snd (header_lines kind path)) = Inr (path, kind)"
proof -
  have safe: "safe_path path" using assms by (simp add: carried_path_def)
  then have "path \<noteq> dev_null" "drop_side ''a/'' (''a/'' @ path) = path" "drop_side ''b/'' (''b/'' @ path) = path"
    "drop_side ''a/'' dev_null = dev_null" "drop_side ''b/'' dev_null = dev_null"
    using safe_path_facts by (simp_all add: drop_side_def dev_null_def)
  with header_paths [OF assms] safe show ?thesis
    by (cases kind) (simp_all add: header_target_def header_lines_def del: append_Cons)
qed

lemma file_header_text:
  "file_header kind path = (if kind = OpModify then [] else
     [''diff --git a/'' @ path @ '' b/'' @ path @ [LF],
      (if kind = OpAdd then ''new'' else ''deleted'') @ '' file mode 100644'' @ [LF]]) @
   [fst (header_lines kind path), snd (header_lines kind path)]"
  by (cases kind) (simp_all add: header_lines_def)

lemma header_lines_start:
  "starts_with ''--- '' (fst (header_lines kind path))" "starts_with ''+++ '' (snd (header_lines kind path))"
  by (cases kind; simp add: header_lines_def)+

lemma parse_files_header:
  assumes "carried_path path" and "parse_hunks path 1 ls = Inr (hs, ns, rest)"
    and "hs \<noteq> [] \<or> kind \<noteq> OpModify" and "parse_files True rest = Inr (fs, ns')"
  shows "parse_files started (file_header kind path @ ls) = Inr ((path, kind, hs) # fs, ns @ ns')"
proof -
  have h: "parse_files started' (fst (header_lines kind path) # snd (header_lines kind path) # ls) =
      Inr ((path, kind, hs) # fs, ns @ ns')" for started'
    using header_lines_start assms header_target_text [OF assms(1)] by auto
  have skip: "parse_files started' (line # l) = parse_files started' l"
    if "metadata_line line" "\<not> starts_with ''--- '' line" for started' line l using that by simp
  have m: "metadata_line (''diff --git a/'' @ path @ '' b/'' @ path @ [LF])"
    "metadata_line (''new file mode 100644'' @ [LF])" "metadata_line (''deleted file mode 100644'' @ [LF])"
    by (simp_all add: metadata_line_def metadata_prefixes_def)
  show ?thesis
    using m h by (cases kind) (simp_all add: file_header_text skip del: parse_files.simps)
qed

definition diff_lines :: "patch_op \<Rightarrow> string \<Rightarrow> string list \<Rightarrow> string list \<Rightarrow> string list" where
  "diff_lines kind path a b =
     file_header kind path @ concat (map (group_output a b) (get_grouped_opcodes 3 a b))"

definition diff_hunks :: "string list \<Rightarrow> string list \<Rightarrow> hunk list" where
  "diff_hunks a b = map (hunk_of a b) (get_grouped_opcodes 3 a b)"

lemma parse_files_diff:
  assumes "carried_path path" and "clear_rest rest"
    and "list_all carried_line a" "list_all carried_line b" "list_all (\<lambda>l. \<not> starts_with ''-- '' l) a"
    and "a \<noteq> b \<or> kind \<noteq> OpModify" and "parse_files True rest = Inr (fs, ns)" and "\<not> patch_normalized ns"
  shows "\<exists>ns. parse_files started (diff_lines kind path a b @ rest) =
    Inr ((path, kind, diff_hunks a b) # fs, ns) \<and> \<not> patch_normalized ns"
proof -
  have g: "groups_ok a b 0 0 (get_grouped_opcodes 3 a b)" by (rule difflib.diff_groups_ok) simp
  obtain ns1 where h: "parse_hunks path 1 (concat (map (group_output a b) (get_grouped_opcodes 3 a b)) @ rest) =
      Inr (diff_hunks a b, ns1, rest)" "\<not> patch_normalized ns1"
    using parse_hunks_groups [OF g assms(2-5), of path 1] unfolding diff_hunks_def by blast
  have "diff_hunks a b \<noteq> [] \<or> kind \<noteq> OpModify"
    using assms(6) difflib_text.no_groups_same [of 3 a b] by (auto simp: diff_hunks_def)
  from parse_files_header [OF assms(1) h(1) this assms(7), of started]
  have "parse_files started (diff_lines kind path a b @ rest) =
      Inr ((path, kind, diff_hunks a b) # fs, ns1 @ ns)"
    by (simp only: diff_lines_def append.assoc)
  moreover have "\<not> patch_normalized (ns1 @ ns)" using h(2) assms(8) by (simp add: patch_normalized_def)
  ultimately show ?thesis by blast
qed

section \<open>The lines of a diff\<close>

lemma plain_line_Cons: "plain_line l \<Longrightarrow> \<not> line_break c \<Longrightarrow> plain_line (c # l)"
  by (erule plain_lineE) (use plain_lineI [of "c # b" for b] in \<open>auto simp del: plain_lineI\<close>)

lemma no_breaks_nat_text [simp]: "no_breaks (nat_text n)"
proof -
  have "is_digit c \<Longrightarrow> \<not> line_break c" for c
    by (auto simp: is_digit_def line_break_def Let_def)
  with nat_text_digits [of n] show ?thesis by (auto simp: no_breaks_def list_all_iff)
qed

lemma line_break_printable: "32 \<le> (of_char c :: nat) \<Longrightarrow> (of_char c :: nat) < 127 \<Longrightarrow> \<not> line_break c"
  by (simp add: line_break_def Let_def)

lemma plain_header: "plain_line (group_header g)"
proof -
  have "no_breaks (format_unified_range i k)" for i k
    by (simp add: format_unified_range_def Let_def line_break_printable)
  then have "plain_line ((''@@ -'' @ format_unified_range (op_i1 (hd g)) (op_i2 (last g)) @
      '' +'' @ format_unified_range (op_j1 (hd g)) (op_j2 (last g)) @ '' @@'') @ [LF])"
    by (intro plain_lineI) (simp add: line_break_printable)
  then show ?thesis by (simp add: group_header_def)
qed

lemma no_breaks_butlast: "no_breaks s \<Longrightarrow> no_breaks (butlast s)"
  by (auto simp: no_breaks_def list_all_iff dest: in_set_butlastD)

lemma plain_file_header: "no_breaks path \<Longrightarrow> list_all plain_line (file_header kind path)"
  by (cases kind) (simp_all add: no_breaks_butlast line_break_printable plain_line_def line_body_def
      butlast_append Let_def)

lemma plain_diff_line:
  assumes "carried_line l" and "\<not> line_break p"
  shows "list_all plain_line (diff_line p l)"
proof (cases "last l = LF")
  case True
  then have "plain_line l" using assms(1) by (cases l rule: rev_cases) (auto simp: carried_line_def)
  with True assms show ?thesis by (auto simp: diff_line_def carried_line_def plain_line_Cons)
next
  case False
  then have "no_breaks l" using assms(1) by (auto simp: carried_line_def plain_line_def)
  then have "plain_line ((p # l) @ [LF])" using assms(2) by (intro plain_lineI) simp
  moreover have "plain_line (no_newline_marker @ [LF])"
    by (intro plain_lineI) (simp add: no_newline_marker_def line_break_printable)
  ultimately show ?thesis using False by (simp add: diff_line_def)
qed

lemma plain_prefixed:
  assumes "list_all carried_line ls" and "\<not> line_break p"
  shows "list_all plain_line (prefixed p ls)"
  using assms by (induction ls) (auto simp: prefixed_def plain_diff_line)

lemma plain_diff_lines:
  assumes "no_breaks path" and "list_all carried_line a" "list_all carried_line b"
  shows "list_all plain_line (diff_lines kind path a b)"
proof -
  have "list_all plain_line (opcode_output a b c)" for c
    using assms(2,3) by (cases c) (simp add: plain_prefixed list_all_segment line_break_printable)
  then have "list_all plain_line (group_output a b g)" for g
    by (auto simp: group_output_def plain_header list_all_iff)
  with plain_file_header [OF assms(1)] show ?thesis
    by (auto simp: diff_lines_def list_all_iff)
qed

text \<open>A diff with text headers has no deletion without them.\<close>

lemma metadata_deletes_skip:
  "metadata_deletes (dropWhile (\<lambda>l. \<not> starts_with ''diff --git '' l) ls) = metadata_deletes ls"
  by (induction ls) auto

lemma metadata_deletes_other:
  "list_all (\<lambda>l. \<not> starts_with ''diff --git '' l) ls \<Longrightarrow> metadata_deletes (ls @ rest) = metadata_deletes rest"
  by (induction ls) auto

lemma metadata_deletes_block:
  assumes "list_all (\<lambda>l. \<not> starts_with ''diff --git '' l) ls" and "list_ex (starts_with ''--- '') ls"
  shows "metadata_deletes (line # ls @ rest) = metadata_deletes rest"
proof (cases "starts_with ''diff --git '' line")
  case True
  have t: "takeWhile (\<lambda>l. \<not> starts_with ''diff --git '' l) (ls @ rest) =
      ls @ takeWhile (\<lambda>l. \<not> starts_with ''diff --git '' l) rest"
    and d: "dropWhile (\<lambda>l. \<not> starts_with ''diff --git '' l) (ls @ rest) =
      dropWhile (\<lambda>l. \<not> starts_with ''diff --git '' l) rest"
    using assms(1) by (induction ls) auto
  show ?thesis using True assms(2) by (simp add: t d metadata_deletes_skip Let_def)
next
  case False
  with metadata_deletes_other [OF assms(1)] show ?thesis by simp
qed

lemma metadata_deletes_diff:
  "metadata_deletes (diff_lines kind path a b @ rest) = metadata_deletes rest"
proof -
  have line: "list_all (\<lambda>l. \<not> starts_with ''diff --git '' l) (prefixed p ls)"
    if "p \<in> {CHR '' '', CHR ''+'', CHR ''-''}" for p ls
    using that by (induction ls) (auto simp: prefixed_def diff_line_def no_newline_marker_def)
  have op_out: "list_all (\<lambda>l. \<not> starts_with ''diff --git '' l) (opcode_output a b c)" for c
    by (cases c) (simp add: line)
  have body: "list_all (\<lambda>l. \<not> starts_with ''diff --git '' l)
      (concat (map (group_output a b) (get_grouped_opcodes 3 a b)))"
    using op_out by (auto simp: list_all_iff group_output_def group_header_def)
  show ?thesis
  proof (cases "kind = OpModify")
    case True
    have "list_all (\<lambda>l. \<not> starts_with ''diff --git '' l) (diff_lines kind path a b)"
      using body True by (simp add: diff_lines_def)
    then show ?thesis by (rule metadata_deletes_other)
  next
    case False
    define ls where "ls = tl (file_header kind path) @ concat (map (group_output a b) (get_grouped_opcodes 3 a b))"
    have "diff_lines kind path a b = hd (file_header kind path) # ls"
      using False by (cases kind) (simp_all add: ls_def diff_lines_def)
    moreover have "list_all (\<lambda>l. \<not> starts_with ''diff --git '' l) ls" "list_ex (starts_with ''--- '') ls"
      using False body by (cases kind; simp add: ls_def)+
    ultimately show ?thesis using metadata_deletes_block by simp
  qed
qed

section \<open>Sets of file edits\<close>

type_synonym file_edit = "string \<times> patch_op \<times> string \<times> string"

fun operation_text :: "patch_op \<Rightarrow> string" where
  "operation_text OpModify = ''modify''"
| "operation_text OpAdd = ''add''"
| "operation_text OpDelete = ''delete''"

text \<open>The diff of an edit, empty where the builder refuses it.\<close>

fun diff_text :: "file_edit \<Rightarrow> string" where
  "diff_text (path, kind, old, new) =
     (case minimal_unified_diff path old new 3 (operation_text kind) of
        Inl e \<Rightarrow> []
      | Inr (t, added, deleted) \<Rightarrow> t)"

text \<open>
  The edits the format can carry: a modification changes a file that is not empty, an addition
  starts from nothing, a deletion leaves nothing, no line of the old text begins with two dashes
  and a blank, and the only line boundaries are line feeds, with or without a carriage return.
\<close>

fun edit_ok :: "file_edit \<Rightarrow> bool" where
  "edit_ok (path, kind, old, new) \<longleftrightarrow>
     carried_path path \<and> list_all carried_line (splitlines old) \<and> list_all carried_line (splitlines new) \<and>
     list_all (\<lambda>l. \<not> starts_with ''-- '' l) (splitlines old) \<and>
     (case kind of
        OpModify \<Rightarrow> old \<noteq> [] \<and> old \<noteq> new
      | OpAdd \<Rightarrow> old = []
      | OpDelete \<Rightarrow> new = [])"

fun edit_lines :: "file_edit \<Rightarrow> string list" where
  "edit_lines (path, kind, old, new) = diff_lines kind path (splitlines old) (splitlines new)"

fun edit_patch :: "file_edit \<Rightarrow> file_patch" where
  "edit_patch (path, kind, old, new) = (path, kind, diff_hunks (splitlines old) (splitlines new))"

lemma splitlines_inject [simp]: "splitlines s = splitlines t \<longleftrightarrow> s = t"
  by (metis concat_splitlines)

lemma operation_of_text_operation_text [simp]: "operation_of_text (operation_text kind) = Some kind"
  by (cases kind) (simp_all add: operation_of_text_def)

lemma diff_text_lines:
  assumes "edit_ok e"
  shows "diff_text e = concat (edit_lines e)"
proof -
  obtain path kind old new where e: "e = (path, kind, old, new)" by (cases e) auto
  have "kind \<noteq> OpModify \<or> get_grouped_opcodes 3 (splitlines old) (splitlines new) \<noteq> []"
    using assms difflib_text.no_groups_same [of 3 "splitlines old" "splitlines new"] by (auto simp: e)
  with assms show ?thesis
    by (auto simp: e minimal_unified_diff_def carried_path_def diff_lines_def Let_def)
qed

lemma plain_edit_lines: "edit_ok e \<Longrightarrow> list_all plain_line (edit_lines e)"
  by (cases e) (simp add: plain_diff_lines carried_path_def)

lemma clear_edit_lines: "clear_rest (concat (map edit_lines es))"
proof (cases es)
  case (Cons e es')
  then show ?thesis by (cases e; cases "fst (snd e)") (auto simp: clear_rest_def diff_lines_def)
qed (simp add: clear_rest_def)

lemma parse_files_edits:
  "list_all edit_ok es \<Longrightarrow>
   \<exists>ns. parse_files started (concat (map edit_lines es)) = Inr (map edit_patch es, ns) \<and> \<not> patch_normalized ns"
proof (induction es arbitrary: started)
  case Nil
  then show ?case by (simp add: patch_normalized_def)
next
  case (Cons e es)
  obtain path kind old new where e: "e = (path, kind, old, new)" by (cases e) auto
  obtain ns where ns: "parse_files True (concat (map edit_lines es)) = Inr (map edit_patch es, ns)"
    "\<not> patch_normalized ns" using Cons by auto
  have "splitlines old \<noteq> splitlines new \<or> kind \<noteq> OpModify" using Cons.prems by (auto simp: e)
  with ns parse_files_diff [OF _ clear_edit_lines _ _ _ _ ns, where path = path and kind = kind
      and a = "splitlines old" and b = "splitlines new"] Cons.prems
  show ?case by (simp add: e)
qed

lemma metadata_deletes_edits: "metadata_deletes (concat (map edit_lines es)) = Inr []"
proof (induction es)
  case (Cons e es)
  then show ?case by (cases e) (simp add: metadata_deletes_diff)
qed simp

lemma parse_edits:
  assumes "es \<noteq> []" and "list_all edit_ok es" and "text_bytes (concat (map diff_text es)) \<le> max_patch_bytes"
  shows "\<exists>ns. parse_patch_details (concat (map diff_text es)) = Inr (map edit_patch es, ns) \<and>
    \<not> patch_normalized ns"
proof -
  let ?ls = "concat (map edit_lines es)"
  have joined: "concat (map diff_text es) = concat ?ls"
    using assms(2) by (induction es) (auto simp: diff_text_lines)
  have "list_all plain_line ?ls" using assms(2) by (induction es) (auto simp: plain_edit_lines)
  then have split: "splitlines (concat ?ls) = ?ls" by (rule splitlines_lines)
  obtain ns where ns: "parse_files False ?ls = Inr (map edit_patch es, ns)" "\<not> patch_normalized ns"
    using parse_files_edits [OF assms(2)] by blast
  then have "?ls \<noteq> []" using assms(1) by (cases ?ls) auto
  then have "concat ?ls \<noteq> []" using split by (metis splitlines_eq_Nil)
  with ns assms split show ?thesis
    by (simp add: parse_patch_details_def joined metadata_deletes_edits)
qed

lemma apply_edit:
  "apply_file_patch old (diff_hunks (splitlines old) (splitlines new)) (old = []) path = Inr new"
  using difflib_text.diff_applies [of 3 path "splitlines old" 1 "splitlines new"]
  by (simp add: apply_file_patch_def diff_hunks_def)

end
