(* ===== verification/Patch_Application.thy ===== *)
theory Patch_Application
  imports Patch_Roundtrip
begin

text \<open>
  What applying a patch does: the hunks fit the source in order and without overlap, and the result
  is the source with each hunk spliced in.  Every path a parsed patch names is safe.
\<close>

section \<open>Splicing\<close>

definition splice :: "'a list \<Rightarrow> nat \<Rightarrow> nat \<Rightarrow> 'a list \<Rightarrow> 'a list" where
  "splice xs i k ys = take i xs @ ys @ drop k xs"

lemma splice_drop: "c \<le> i \<Longrightarrow> i \<le> k \<Longrightarrow> k \<le> length xs \<Longrightarrow> drop c (splice xs i k ys) = segment xs c i @ ys @ drop k xs"
  by (simp add: splice_def segment_def drop_take)

lemma splice_take: "c \<le> i \<Longrightarrow> i \<le> length xs \<Longrightarrow> take c (splice xs i k ys) = take c xs"
  by (simp add: splice_def)

lemma splice_length: "i \<le> length xs \<Longrightarrow> i \<le> length (splice xs i k ys)"
  by (simp add: splice_def)

text \<open>The positions of the hunks: in order, in the file, each on exactly its old lines.\<close>

fun hunks_fit :: "string list \<Rightarrow> nat \<Rightarrow> hunk list \<Rightarrow> bool" where
  "hunks_fit source cursor [] \<longleftrightarrow> True"
| "hunks_fit source cursor ((old_start, new_start, expected, replacement) # hs) \<longleftrightarrow>
     old_start \<ge> 1 \<and> cursor < old_start \<and> old_start - 1 \<le> length source \<and>
     segment source (old_start - 1) (old_start - 1 + length expected) = expected \<and>
     hunks_fit source (old_start - 1 + length expected) hs"

text \<open>The hunks spliced into the source one after the other, the last one first.\<close>

fun splice_hunks :: "hunk list \<Rightarrow> string list \<Rightarrow> string list" where
  "splice_hunks [] source = source"
| "splice_hunks ((old_start, new_start, expected, replacement) # hs) source =
     splice (splice_hunks hs source) (old_start - 1) (old_start - 1 + length expected) replacement"

lemma segment_length_eq: "segment xs i (i + length ys) = ys \<Longrightarrow> i \<le> length xs \<Longrightarrow> i + length ys \<le> length xs"
  by (drule arg_cong [of _ _ length]) (simp add: segment_def)

lemma splice_hunks_prefix:
  "hunks_fit source cursor hs \<Longrightarrow> cursor \<le> length source \<Longrightarrow>
   take cursor (splice_hunks hs source) = take cursor source \<and> cursor \<le> length (splice_hunks hs source)"
proof (induction hs arbitrary: cursor)
  case (Cons h hs)
  obtain os n e r where h: "h = (os, n, e, r)" by (cases h) auto
  from Cons.prems have p: "cursor \<le> os - 1" "os - 1 \<le> length source"
    "segment source (os - 1) (os - 1 + length e) = e" "hunks_fit source (os - 1 + length e) hs"
    by (auto simp: h)
  note e = segment_length_eq [OF p(3,2)]
  from Cons.IH [OF p(4) e] have ih: "take (os - 1 + length e) (splice_hunks hs source) = take (os - 1 + length e) source"
    "os - 1 + length e \<le> length (splice_hunks hs source)" by auto
  have "take cursor (take (os - 1 + length e) (splice_hunks hs source)) = take cursor (take (os - 1 + length e) source)"
    using ih(1) by simp
  with p(1) have "take cursor (splice_hunks hs source) = take cursor source" by simp
  with p ih(2) splice_take [of cursor "os - 1" "splice_hunks hs source"] splice_length [of "os - 1" "splice_hunks hs source"]
  show ?case by (auto simp: h) (meson le_trans)+
qed simp

lemma apply_hunks_splices:
  assumes "cursor \<le> length source"
  shows "apply_hunks path False source cursor k hs = Inr out \<longleftrightarrow>
    hunks_fit source cursor hs \<and> out = drop cursor (splice_hunks hs source)"
  using assms
proof (induction hs arbitrary: cursor k out)
  case (Cons h hs)
  obtain os n e r where h: "h = (os, n, e, r)" by (cases h) auto
  show ?case
  proof (cases "os \<ge> 1 \<and> cursor < os \<and> os - 1 \<le> length source \<and> context_at source e (os - 1)")
    case True
    then have p: "cursor \<le> os - 1" "os - 1 \<le> length source"
      "segment source (os - 1) (os - 1 + length e) = e" by (auto simp: context_at_def)
    note e = segment_length_eq [OF p(3,2)]
    have "apply_hunks path False source cursor k (h # hs) = Inr out \<longleftrightarrow>
        (\<exists>o'. apply_hunks path False source (os - 1 + length e) (k + 1) hs = Inr o' \<and>
          out = segment source cursor (os - 1) @ r @ o')"
      using True p by (cases "apply_hunks path False source (os - 1 + length e) (k + 1) hs") (auto simp: h Let_def)
    also have "\<dots> \<longleftrightarrow> hunks_fit source (os - 1 + length e) hs \<and>
        out = segment source cursor (os - 1) @ r @ drop (os - 1 + length e) (splice_hunks hs source)"
      using Cons.IH [OF e, of "k + 1"] by auto
    also have "\<dots> \<longleftrightarrow> hunks_fit source cursor (h # hs) \<and> out = drop cursor (splice_hunks (h # hs) source)"
    proof (cases "hunks_fit source (os - 1 + length e) hs")
      case fit: True
      note pre = splice_hunks_prefix [OF fit e]
      have "segment source cursor (os - 1) = segment (splice_hunks hs source) cursor (os - 1)"
      proof -
        have "take (os - 1) (take (os - 1 + length e) (splice_hunks hs source)) =
            take (os - 1) (take (os - 1 + length e) source)" using pre by simp
        then have "take (os - 1) (splice_hunks hs source) = take (os - 1) source" by simp
        then show ?thesis by (metis drop_take segment_def)
      qed
      with splice_drop [of cursor "os - 1" "os - 1 + length e" "splice_hunks hs source" r] pre p True fit
      show ?thesis by (auto simp: h)
    next
      case False
      then show ?thesis by (simp add: h)
    qed
    finally show ?thesis .
  next
    case False
    then show ?thesis by (auto simp: h Let_def context_at_def)
  qed
qed auto

section \<open>Safe paths\<close>

lemma header_target_safe: "header_target l1 l2 = Inr (path, kind) \<Longrightarrow> safe_path path"
  by (auto simp: header_target_def Let_def split: if_splits prod.splits)

lemma parse_files_safe: "parse_files started ls = Inr (fs, ns) \<Longrightarrow> f \<in> set fs \<Longrightarrow> safe_path (fst f)"
proof (induction started ls arbitrary: fs ns rule: parse_files.induct)
  case (2 started line rest)
  show ?case
  proof (cases "starts_with ''--- '' line")
    case False
    with 2 show ?thesis by (auto split: if_splits)
  next
    case True
    with "2.prems"(1) have r: "rest \<noteq> []" "starts_with ''+++ '' (hd rest)" by (auto split: if_splits)
    from True r "2.prems"(1) obtain path kind where t: "header_target line (hd rest) = Inr (path, kind)"
      by (cases "header_target line (hd rest)") auto
    from True r t "2.prems"(1) obtain hs ns1 rest' where p: "parse_hunks path 1 (tl rest) = Inr (hs, ns1, rest')"
      by (cases "parse_hunks path 1 (tl rest)") auto
    from True r t p "2.prems"(1) obtain fs' ns' where f: "parse_files True rest' = Inr (fs', ns')"
      "fs = (path, kind, hs) # fs'" "\<not> (hs = [] \<and> kind = OpModify)"
      by (cases "parse_files True rest'") (auto split: if_splits)
    have "f = (path, kind, hs) \<or> f \<in> set fs'" using "2.prems"(2) f(2) by auto
    with "2.IH"(2) [OF _ _ t refl p refl refl f(3) f(1)] True r header_target_safe [OF t] show ?thesis by auto
  qed
qed simp

lemma metadata_deletes_safe: "metadata_deletes ls = Inr fs \<Longrightarrow> f \<in> set fs \<Longrightarrow> safe_path (fst f)"
proof (induction ls arbitrary: fs rule: metadata_deletes.induct)
  case (2 line rest)
  then show ?case
    by (auto simp: Let_def split: if_splits option.splits)
      (cases "metadata_deletes (dropWhile (\<lambda>l. \<not> starts_with ''diff --git '' l) rest)"; auto)+
qed simp

end
