(* ===== verification/Patch_Properties.thy ===== *)
theory Patch_Properties
  imports Patch_Application "HOL-Library.Code_Target_Nat"
begin

text \<open>The properties of the diff tools, with witnesses on a change of two small files.\<close>

section \<open>A small change\<close>

definition pdemo_old :: string where "pdemo_old = ''one'' @ [LF] @ ''two'' @ [LF] @ ''three''"
definition pdemo_new :: string where "pdemo_new = ''one'' @ [LF] @ ''2'' @ [LF] @ ''three'' @ [LF]"

definition pdemo_edits :: "file_edit list" where
  "pdemo_edits =
     [(''a/x.txt'', OpModify, pdemo_old, pdemo_new), (''y.txt'', OpAdd, [], ''new'' @ [CR, LF]),
      (''z.txt'', OpDelete, ''gone'', [])]"

section \<open>Round trip\<close>

text \<open>
  C2. For edits the format can carry, a patch joined from built diffs is read back as these file
  patches, no hunk count needs a correction, and each of them turns the old text of its file into
  the new one, byte for byte.  Such an edit has a safe path without line boundaries or a trailing
  blank, a modification changes a file that is not empty, and the texts have no line boundary but
  line feeds, with or without a carriage return; no line of the old text begins with two dashes and
  a blank; and the whole patch keeps the limit of bytes.  The code does not check these conditions:
  \<open>dashed_line_refused\<close> and \<open>carriage_return_lost\<close> below show edits outside of them that are lost.
\<close>

theorem diffs_round_trip:
  assumes "edits \<noteq> []" and "list_all edit_ok edits"
    and "text_bytes (concat (map diff_text edits)) \<le> max_patch_bytes"
  shows "\<exists>patches ns. parse_patch_details (concat (map diff_text edits)) = Inr (patches, ns) \<and>
    \<not> patch_normalized ns \<and>
    list_all2 (\<lambda>(path, kind, old, new) (path', kind', hunks).
      path' = path \<and> kind' = kind \<and> apply_file_patch old hunks (old = []) path = Inr new) edits patches"
proof -
  obtain ns where "parse_patch_details (concat (map diff_text edits)) = Inr (map edit_patch edits, ns)"
    "\<not> patch_normalized ns" using parse_edits [OF assms] by blast
  moreover have "list_all2 (\<lambda>(path, kind, old, new) (path', kind', hunks).
      path' = path \<and> kind' = kind \<and> apply_file_patch old hunks (old = []) path = Inr new)
      edits (map edit_patch edits)"
    by (auto simp: list_all2_map2 list_all2_same apply_edit)
  ultimately show ?thesis by blast
qed

lemma diffs_round_trip_witness:
  "\<exists>patches ns. parse_patch_details (concat (map diff_text pdemo_edits)) = Inr (patches, ns) \<and>
    \<not> patch_normalized ns \<and>
    list_all2 (\<lambda>(path, kind, old, new) (path', kind', hunks).
      path' = path \<and> kind' = kind \<and> apply_file_patch old hunks (old = []) path = Inr new) pdemo_edits patches"
proof (rule diffs_round_trip)
  show "pdemo_edits \<noteq> []" by (simp add: pdemo_edits_def)
  show "list_all edit_ok pdemo_edits" by code_simp
  show "text_bytes (concat (map diff_text pdemo_edits)) \<le> max_patch_bytes" by code_simp
qed

section \<open>Application\<close>

text \<open>
  C14. A patch of an existing file applies exactly when its hunks are in order, do not overlap and
  each stands on its old lines; the result is the file with the hunks spliced in, every other line
  as it was.
\<close>

theorem patch_application_is_splicing:
  "apply_file_patch old hunks False path = Inr new \<longleftrightarrow>
     hunks_fit (splitlines old) 0 hunks \<and> new = concat (splice_hunks hunks (splitlines old))"
proof -
  have "apply_file_patch old hunks False path = Inr new \<longleftrightarrow>
      (\<exists>out. apply_hunks path False (splitlines old) 0 1 hunks = Inr out \<and> new = concat out)"
    by (cases "apply_hunks path False (splitlines old) 0 1 hunks") (auto simp: apply_file_patch_def)
  then show ?thesis by (auto simp: apply_hunks_splices)
qed

section \<open>Paths\<close>

text \<open>
  Every path of an accepted patch is a relative path inside the repository: not empty, not
  absolute, without backslash or control character, and without an empty, \<open>.\<close> or \<open>..\<close> component.
\<close>

theorem parsed_paths_safe:
  assumes "parse_patch_details patch = Inr (patches, ns)" and "(path, kind, hunks) \<in> set patches"
  shows "safe_path path"
proof -
  from assms(1) obtain fs deletes where "parse_files False (splitlines patch) = Inr (fs, ns)"
    "metadata_deletes (splitlines patch) = Inr deletes" "patches = fs @ deletes"
    by (auto simp: parse_patch_details_def Let_def split: if_splits sum.splits)
  with assms(2) show ?thesis
    using parse_files_safe [of False "splitlines patch" fs ns "(path, kind, hunks)"]
      metadata_deletes_safe [of "splitlines patch" deletes "(path, kind, hunks)"] by auto
qed

definition pdemo_patch :: string where
  "pdemo_patch = concat (map (\<lambda>l. l @ [LF]) [''--- a/x'', ''+++ b/x'', ''@@ -1 +1 @@'', ''-old'', ''+new''])"

lemma parsed_paths_safe_witness: "safe_path ''x''"
proof (rule parsed_paths_safe)
  show "parse_patch_details pdemo_patch =
    Inr ([(''x'', OpModify, [(1, 1, [''old'' @ [LF]], [''new'' @ [LF]])])],
      [\<lparr>nh_path = ''x'', nh_index = 1, nh_original = ''@@ -1 +1 @@'',
        nh_normalized = ''@@ -1,1 +1,1 @@'', nh_corrected = False\<rparr>])"
    by code_simp
qed simp

section \<open>Lines a diff cannot carry\<close>

text \<open>
  A removed line that begins with two dashes and a blank is written as \<open>--- \<close> and ends its hunk:
  the built patch is refused or, as here, read as another file patch.  A line that ends in a bare
  carriage return loses it.
\<close>

lemma dashed_line_refused:
  "parse_patch_details (diff_text (''q.sql'', OpModify, ''-- a'' @ [LF] @ ''b'' @ [LF], ''b'' @ [LF])) =
    Inl (PatchInvalidFormat ''unified diff header is incomplete'')"
  by code_simp

lemma carriage_return_lost:
  "map_sum id (\<lambda>(fs, ns). map (\<lambda>(p, kind, hs). apply_file_patch ''a'' hs False p) fs)
     (parse_patch_details (diff_text (''m.txt'', OpModify, ''a'', ''b'' @ [CR]))) = Inr [Inr ''b'']"
  by code_simp

end
