(* ===== verification/Operation_Journal.thy ===== *)
theory Operation_Journal
  imports Interfaces Patch_Text "HOL-Library.AList"
begin

text \<open>
  The operation journal of \<open>app/mygithub10.py\<close> (table \<open>mygithub10_operations\<close>): every write tool
  starts an operation under the caller's idempotency key and finishes it with its outcome.  Each
  function opens its own connection, so each is one or two committed transactions; a refusal may
  come after a commit, hence the results are pairs of an answer and the table.
\<close>

section \<open>Rows\<close>

text \<open>A column that holds \<open>NULL\<close> or any JSON scalar is a \<open>json\<close>; \<open>JNull\<close> is \<open>NULL\<close>.\<close>

record op_row =
  op_id :: string
  op_storage_key :: string
  op_caller_key :: "string option"
  op_request_sha256 :: string
  op_tool :: string
  op_repository :: json
  op_branch :: json
  op_expected_head :: json
  op_status :: string
  op_result_commit :: json
  op_created_at :: time
  op_finished_at :: "time option"
  op_error_code :: "string option"
  op_result :: "json option"
  op_request :: json
  op_trace_id :: string
  op_workspace_id :: string
  op_workspace_revision :: int
  op_previous_head :: json
  op_computed_commit :: json
  op_expected_tree :: json
  op_observed_branch :: json
  op_observed_commit :: json
  op_observed_tree :: json
  op_failed_stage :: json

type_synonym journal = "op_row list"

record audit_context =
  au_trace_id :: string
  au_workspace_id :: string
  au_workspace_revision :: int

section \<open>Starting an operation\<close>

definition key_matches :: "string \<Rightarrow> op_row \<Rightarrow> bool" where
  "key_matches key r \<longleftrightarrow> op_caller_key r = Some key \<or> (op_caller_key r = None \<and> op_storage_key r = key)"

text \<open>\<open>ORDER BY created_at DESC LIMIT 1\<close>.\<close>

definition idempotent_existing :: "string \<Rightarrow> journal \<Rightarrow> op_row option" where
  "idempotent_existing key db =
     (if key = [] then None
      else (case sort_key (\<lambda>r. - op_created_at r) (filter (key_matches key) db) of
        [] \<Rightarrow> None
      | r # _ \<Rightarrow> Some r))"

definition idempotent_existing_by_operation :: "string \<Rightarrow> journal \<Rightarrow> op_row option" where
  "idempotent_existing_by_operation i db = (if i = [] then None else row_of op_id i db)"

definition request_sha :: "codec \<Rightarrow> json \<Rightarrow> string" where
  "request_sha K request = sha256 K (json_text (float_text K) (sort_keys request))"

definition json_field :: "string \<Rightarrow> json \<Rightarrow> json \<Rightarrow> json" where
  "json_field k d v = (case json_get k v of None \<Rightarrow> d | Some x \<Rightarrow> x)"

definition new_operation ::
  "codec \<Rightarrow> string \<Rightarrow> string \<Rightarrow> json \<Rightarrow> audit_context \<Rightarrow> string \<Rightarrow> time \<Rightarrow> op_row" where
  "new_operation K tool key request audit i now =
     \<lparr>op_id = i, op_storage_key = (if key = [] then ''__audit__:'' @ i else key),
      op_caller_key = (if key = [] then None else Some key),
      op_request_sha256 = request_sha K request, op_tool = tool,
      op_repository = json_field ''repository'' (JStr []) request,
      op_branch = json_field ''branch'' (JStr []) request,
      op_expected_head = json_field ''expected_head_sha'' (JStr []) request,
      op_status = ''in_progress'', op_result_commit = JNull, op_created_at = now,
      op_finished_at = None, op_error_code = None, op_result = None, op_request = request,
      op_trace_id = (if au_trace_id audit = [] then i else au_trace_id audit),
      op_workspace_id = au_workspace_id audit, op_workspace_revision = au_workspace_revision audit,
      op_previous_head = JNull, op_computed_commit = JNull, op_expected_tree = JNull,
      op_observed_branch = JNull, op_observed_commit = JNull, op_observed_tree = JNull,
      op_failed_stage = JNull\<rparr>"

text \<open>\<open>result["replayed"] = True; result["operation_id"] = ..\<close>\<close>

fun json_put :: "string \<Rightarrow> json \<Rightarrow> json \<Rightarrow> json" where
  "json_put k v (JObj kvs) = JObj (AList.update k v kvs)"
| "json_put k v x = x"

definition mark_indeterminate :: "time \<Rightarrow> op_row \<Rightarrow> op_row" where
  "mark_indeterminate now r = r\<lparr>op_status := ''indeterminate'', op_finished_at := Some now,
     op_error_code := Some ''IDEMPOTENCY_INDETERMINATE''\<rparr>"

text \<open>The answer for a key that is already in the table.\<close>

definition answer_existing ::
  "op_row \<Rightarrow> string \<Rightarrow> time \<Rightarrow> journal \<Rightarrow> (patch_error + (string \<times> json option)) \<times> journal" where
  "answer_existing old hash now db =
     (if op_request_sha256 old \<noteq> hash then (Inl (IdempotencyRefused ''IDEMPOTENCY_CONFLICT''), db)
      else if op_status old = ''success_verified'' then
        (case op_result old of
           Some result \<Rightarrow>
             (Inr (''replay'', Some (json_put ''operation_id'' (JStr (op_id old))
                (json_put ''replayed'' (JBool True) result))), db)
         | None \<Rightarrow> (Inl (IdempotencyRefused ''IDEMPOTENCY_RESULT_UNAVAILABLE''), db))
      else if op_status old = ''succeeded'' then
        (Inl (IdempotencyRefused ''IDEMPOTENCY_RESULT_UNVERIFIED''), db)
      else if op_status old \<in> {''running'', ''in_progress''} then
        (if now - op_created_at old > 300
         then (Inl (IdempotencyRefused ''IDEMPOTENCY_INDETERMINATE''),
               update_where (\<lambda>r. op_id r = op_id old) (mark_indeterminate now) db)
         else (Inl (IdempotencyRefused ''IDEMPOTENCY_IN_PROGRESS''), db))
      else if op_status old \<in> {''git_verified'', ''indeterminate''} then
        (Inl (IdempotencyRefused ''IDEMPOTENCY_INDETERMINATE''), db)
      else (Inl (IdempotencyRefused (case op_error_code old of
              None \<Rightarrow> ''IDEMPOTENCY_FAILED''
            | Some c \<Rightarrow> if c = [] then ''IDEMPOTENCY_FAILED'' else c)), db))"

definition idempotent_start ::
  "codec \<Rightarrow> string \<Rightarrow> string \<Rightarrow> json \<Rightarrow> audit_context \<Rightarrow> string \<Rightarrow> time \<Rightarrow> journal \<Rightarrow>
   (patch_error + (string \<times> json option)) \<times> journal" where
  "idempotent_start K tool key request audit i now db =
     (case idempotent_existing key db of
        Some old \<Rightarrow> answer_existing old (request_sha K request) now db
      | None \<Rightarrow>
          (let row = new_operation K tool key request audit i now in
           if list_ex (\<lambda>r. op_id r = i \<or> op_storage_key r = op_storage_key row) db
           then (Inl (IdempotencyRefused ''IDEMPOTENCY_IN_PROGRESS''), db)
           else (Inr (i, None), db @ [row])))"

section \<open>Finishing an operation\<close>

text \<open>\<open>a or b\<close> on values.\<close>

definition json_or :: "json \<Rightarrow> json \<Rightarrow> json" where
  "json_or a b = (if json_truthy a then a else b)"

definition dict_or_empty :: "json option \<Rightarrow> json" where
  "dict_or_empty v = (case v of Some (JObj kvs) \<Rightarrow> JObj kvs | _ \<Rightarrow> JObj [])"

record audit_fields =
  af_previous_head :: json
  af_computed_commit :: json
  af_expected_tree :: json
  af_observed_branch :: json
  af_observed_commit :: json
  af_observed_tree :: json
  af_failed_stage :: json

definition result_audit_fields :: "json option \<Rightarrow> audit_fields" where
  "result_audit_fields result =
     (let result = (case result of None \<Rightarrow> JObj [] | Some v \<Rightarrow> v);
          details = dict_or_empty (json_get ''details'' (dict_or_empty (json_get ''error'' result)));
          r = (\<lambda>k. json_field k JNull result); d = (\<lambda>k. json_field k JNull details)
      in \<lparr>af_previous_head = json_or (r ''old_head_sha'') (json_or (r ''previous_head_sha'') (d ''expected_previous_head'')),
          af_computed_commit = json_or (r ''commit_sha'') (json_or (r ''new_head_sha'') (d ''new_commit_sha'')),
          af_expected_tree = json_or (r ''tree_sha'') (d ''expected_tree_sha''),
          af_observed_branch = json_or (r ''verified_branch_head_sha'') (d ''observed_branch_head''),
          af_observed_commit = json_or (r ''verified_commit_sha'') (d ''observed_commit_sha''),
          af_observed_tree = json_or (r ''verified_tree_sha'') (d ''observed_tree_sha''),
          af_failed_stage = json_or (r ''failed_stage'') (d ''failed_stage'')\<rparr>)"

text \<open>\<open>COALESCE(?, column)\<close>\<close>

definition coalesce_json :: "json \<Rightarrow> json \<Rightarrow> json" where
  "coalesce_json new old = (if new = JNull then old else new)"

definition idempotent_finish ::
  "string \<Rightarrow> string \<Rightarrow> json \<Rightarrow> string option \<Rightarrow> json option \<Rightarrow> time \<Rightarrow> journal \<Rightarrow> journal" where
  "idempotent_finish i status commit_sha error_code result now db =
     (if i = [] \<or> i = ''replay'' then db
      else
        (let status = (if status = ''succeeded'' then ''success_verified'' else status);
             f = result_audit_fields result
         in update_where (\<lambda>r. op_id r = i) (\<lambda>r. r\<lparr>
              op_status := status,
              op_result_commit := json_or commit_sha (af_computed_commit f),
              op_finished_at :=
                (if status \<in> {''success_verified'', ''failed'', ''indeterminate''} then Some now else None),
              op_error_code := error_code, op_result := result,
              op_previous_head := coalesce_json (af_previous_head f) (op_previous_head r),
              op_computed_commit := coalesce_json (af_computed_commit f) (op_computed_commit r),
              op_expected_tree := coalesce_json (af_expected_tree f) (op_expected_tree r),
              op_observed_branch := coalesce_json (af_observed_branch f) (op_observed_branch r),
              op_observed_commit := coalesce_json (af_observed_commit f) (op_observed_commit r),
              op_observed_tree := coalesce_json (af_observed_tree f) (op_observed_tree r),
              op_failed_stage := coalesce_json (af_failed_stage f) (op_failed_stage r)\<rparr>) db))"

definition idempotent_mark_git_verified :: "string \<Rightarrow> json \<Rightarrow> time \<Rightarrow> journal \<Rightarrow> journal" where
  "idempotent_mark_git_verified i result now db =
     idempotent_finish i ''git_verified'' (json_field ''commit_sha'' JNull result) None (Some result) now db"

definition bind_operation_workspace ::
  "string \<Rightarrow> string \<Rightarrow> int \<Rightarrow> journal \<Rightarrow> patch_error option \<times> journal" where
  "bind_operation_workspace i workspace revision db =
     (if i = [] \<or> i = ''replay'' \<or> workspace = [] then (None, db)
      else (let P = (\<lambda>r. op_id r = i \<and> op_status r = ''in_progress'') in
        (if row_count P db \<noteq> 1 then Some (IdempotencyRefused ''IDEMPOTENCY_INDETERMINATE'') else None,
         update_where P (\<lambda>r. r\<lparr>op_workspace_id := workspace, op_workspace_revision := revision\<rparr>) db)))"

end
