(* ===== verification/Journal_Facts.thy ===== *)
theory Journal_Facts
  imports Operation_Journal
begin

text \<open>
  The journal over any sequence of starts, outcomes and workspace bindings: ids and keys stay
  unique, an operation keeps its key and request, so a key starts at most one operation.
\<close>

definition op_core :: "op_row \<Rightarrow> string \<times> string \<times> string option \<times> string" where
  "op_core r = (op_id r, op_storage_key r, op_caller_key r, op_request_sha256 r)"

definition journal_inv :: "journal \<Rightarrow> bool" where
  "journal_inv db \<longleftrightarrow> distinct (map op_id db) \<and> distinct (map op_storage_key db) \<and>
     (\<forall>r \<in> set db. \<forall>k. op_caller_key r = Some k \<longrightarrow> k \<noteq> [] \<and> op_storage_key r = k)"

inductive journal_step :: "codec \<Rightarrow> journal \<Rightarrow> journal \<Rightarrow> bool" for K where
  start: "idempotent_start K tool key request audit i now db = (answer, db') \<Longrightarrow> journal_step K db db'"
| finish: "journal_step K db (idempotent_finish i status commit_sha code result now db)"
| bind: "bind_operation_workspace i workspace revision db = (answer, db') \<Longrightarrow> journal_step K db db'"

definition journal_reachable :: "codec \<Rightarrow> journal \<Rightarrow> bool" where
  "journal_reachable K = (journal_step K)\<^sup>*\<^sup>* []"

section \<open>What a step writes\<close>

lemma finish_core: "map op_core (idempotent_finish i status c code result now db) = map op_core db"
  by (simp add: idempotent_finish_def Let_def op_core_def map_update_where)

lemma bind_core: "bind_operation_workspace i w n db = (a, db') \<Longrightarrow> map op_core db' = map op_core db"
  by (auto simp: bind_operation_workspace_def Let_def op_core_def map_update_where split: if_splits)

lemma answer_existing_core: "answer_existing old h now db = (a, db') \<Longrightarrow> map op_core db' = map op_core db"
  by (auto simp: answer_existing_def mark_indeterminate_def op_core_def map_update_where
      split: if_splits option.splits)

lemma answer_existing_not_fresh: "fst (answer_existing old h now db) \<noteq> Inr (i, None)"
  by (auto simp: answer_existing_def split: option.splits)

lemma start_cases:
  assumes "idempotent_start K tool key request audit i now db = (a, db')"
  obtains (kept) "map op_core db' = map op_core db" "a \<noteq> Inr (i, None)"
  | (fresh) "a = Inr (i, None)" "db' = db @ [new_operation K tool key request audit i now]"
      "idempotent_existing key db = None" "i \<notin> op_id ` set db"
      "op_storage_key (new_operation K tool key request audit i now) \<notin> op_storage_key ` set db"
proof (cases "idempotent_existing key db")
  case (Some old)
  with assms answer_existing_core [of old] answer_existing_not_fresh [of old] show ?thesis
    by (intro kept) (auto simp: idempotent_start_def, metis fst_conv)
next
  case None
  let ?row = "new_operation K tool key request audit i now"
  show ?thesis
  proof (cases "list_ex (\<lambda>r. op_id r = i \<or> op_storage_key r = op_storage_key ?row) db")
    case True
    with None assms show ?thesis by (intro kept) (auto simp: idempotent_start_def Let_def)
  next
    case False
    then have "i \<notin> op_id ` set db" "op_storage_key ?row \<notin> op_storage_key ` set db"
      by (auto simp: list_ex_iff)
    with None False assms show ?thesis by (intro fresh) (auto simp: idempotent_start_def Let_def)
  qed
qed

lemma step_cases:
  assumes "journal_step K db db'"
  obtains (kept) "map op_core db' = map op_core db"
  | (fresh) tool key request audit i now where "db' = db @ [new_operation K tool key request audit i now]"
      "i \<notin> op_id ` set db"
      "op_storage_key (new_operation K tool key request audit i now) \<notin> op_storage_key ` set db"
  using assms
proof cases
  case start
  then show ?thesis by (cases rule: start_cases) (auto intro: kept fresh)
qed (auto intro: kept finish_core bind_core)

section \<open>The invariant\<close>

lemma journal_inv_core:
  assumes "map op_core db' = map op_core db" and "journal_inv db"
  shows "journal_inv db'"
proof -
  have ids: "map op_id db' = map op_id db" "map op_storage_key db' = map op_storage_key db"
    using arg_cong [OF assms(1), of "map fst"] arg_cong [OF assms(1), of "map (fst \<circ> snd)"]
    by (simp_all add: op_core_def comp_def)
  have "\<exists>s \<in> set db. op_core s = op_core r" if "r \<in> set db'" for r
    using that arg_cong [OF assms(1), of set] by (metis image_iff list.set_map)
  with ids assms(2) show ?thesis unfolding journal_inv_def op_core_def by (metis prod.inject)
qed

lemma journal_step_inv: "journal_step K db db' \<Longrightarrow> journal_inv db \<Longrightarrow> journal_inv db'"
  by (erule step_cases) (auto simp: journal_inv_core, auto simp: journal_inv_def new_operation_def)

interpretation journal: step_invariant "journal_step K" journal_inv for K
  by unfold_locales (rule journal_step_inv)

lemma journal_reachable_inv: "journal_reachable K db \<Longrightarrow> journal_inv db"
  unfolding journal_reachable_def by (erule journal.steps_inv) (simp add: journal_inv_def)

section \<open>Claims stay\<close>

lemma core_stays: "(journal_step K)\<^sup>*\<^sup>* db db' \<Longrightarrow> op_core ` set db \<subseteq> op_core ` set db'"
proof (induction rule: rtranclp_induct)
  case (step db1 db2)
  from step(2) have "op_core ` set db1 \<subseteq> op_core ` set db2"
  proof (cases rule: step_cases)
    case kept
    then have "set (map op_core db2) = set (map op_core db1)" by (rule arg_cong)
    then show ?thesis by simp
  qed auto
  with step.IH show ?case by blast
qed simp

lemma start_fresh_row:
  assumes "idempotent_start K tool key request audit i now db = (Inr (i, None), db')"
  shows "new_operation K tool key request audit i now \<in> set db'"
  by (rule start_cases [OF assms]) simp_all

lemma filter_singleton:
  assumes "distinct xs" and "x \<in> set xs" and "P x" and "\<And>y. y \<in> set xs \<Longrightarrow> P y \<Longrightarrow> y = x"
  shows "filter P xs = [x]"
proof -
  have "filter P xs = filter (\<lambda>y. y = x) xs" using assms(3,4) by (intro filter_cong) auto
  also have "\<dots> = [x]" using assms(1,2)
  proof (induction xs)
    case (Cons z zs)
    then show ?case by (cases "z = x") (auto simp: filter_empty_conv)
  qed simp
  finally show ?thesis .
qed

lemma existing_of_core:
  assumes "journal_inv db" and "r \<in> set db" and "op_caller_key r = Some key"
  shows "idempotent_existing key db = Some r"
proof -
  have key: "key \<noteq> []" "op_storage_key r = key"
    using assms unfolding journal_inv_def by blast+
  have inj: "inj_on op_storage_key (set db)" using assms(1) by (simp add: journal_inv_def distinct_map)
  have same: "s = r" if "s \<in> set db" "key_matches key s" for s
  proof -
    have "op_storage_key s = key" using that assms(1) unfolding key_matches_def journal_inv_def by blast
    then show ?thesis using inj_onD [OF inj _ that(1) assms(2)] key(2) by simp
  qed
  have "distinct db" using assms(1) by (simp add: journal_inv_def distinct_map)
  moreover have "key_matches key r" using assms(3) by (simp add: key_matches_def)
  ultimately have "filter (key_matches key) db = [r]" using assms(2) same by (intro filter_singleton)
  then show ?thesis using key(1) by (simp add: idempotent_existing_def)
qed

text \<open>A started operation keeps its row, with its key and request, in every later journal.\<close>

lemma started_row:
  assumes "journal_reachable K db" and "key \<noteq> []"
    and "idempotent_start K tool key request audit i now db = (Inr (i, None), db1)"
    and "(journal_step K)\<^sup>*\<^sup>* db1 db2"
  obtains r where "journal_inv db2" "r \<in> set db2" "op_caller_key r = Some key"
    "op_request_sha256 r = request_sha K request" "op_id r = i"
proof -
  have inv: "journal_inv db2"
    using journal_step.start [OF assms(3)] assms(1,4) journal_reachable_inv
    unfolding journal_reachable_def by (meson converse_rtranclp_into_rtranclp rtranclp_trans)
  obtain r where "r \<in> set db2" "op_core r = op_core (new_operation K tool key request audit i now)"
    using core_stays [OF assms(4)] start_fresh_row [OF assms(3)] by (auto simp: image_iff)
  with inv assms(2) that show ?thesis by (auto simp: op_core_def new_operation_def)
qed

lemma finish_succeeded:
  assumes "r \<in> set db" and "op_id r = i" and "i \<noteq> []" "i \<noteq> ''replay''"
  shows "\<exists>r' \<in> set (idempotent_finish i ''succeeded'' c code (Some result) t db).
    op_core r' = op_core r \<and> op_status r' = ''success_verified'' \<and> op_result r' = Some result"
  using assms(1)
proof (induction db)
  case (Cons s db)
  then show ?case using assms(2-4) by (auto simp: idempotent_finish_def Let_def op_core_def)
qed simp

end
