(* ===== verification/Journal_Properties.thy ===== *)
theory Journal_Properties
  imports Journal_Facts "HOL-Library.Code_Target_Nat"
begin

text \<open>The properties of the operation journal, with witnesses on one operation.\<close>

definition jdemo_codec :: codec where
  "jdemo_codec = \<lparr>sha256 = (\<lambda>s. s), float_text = (\<lambda>r. ''0.0'')\<rparr>"

definition jdemo_request :: "string \<Rightarrow> json" where
  "jdemo_request branch = JObj [(''repository'', JStr ''o/r''), (''branch'', JStr branch)]"

definition jdemo_audit :: audit_context where
  "jdemo_audit = \<lparr>au_trace_id = [], au_workspace_id = [], au_workspace_revision = 0\<rparr>"

definition jdemo_db :: journal where
  "jdemo_db = [new_operation jdemo_codec ''apply_github_patch'' ''k1'' (jdemo_request ''b'') jdemo_audit ''op1'' 0]"

lemma jdemo_start:
  "idempotent_start jdemo_codec ''apply_github_patch'' ''k1'' (jdemo_request ''b'') jdemo_audit ''op1'' 0 [] =
    (Inr (''op1'', None), jdemo_db)"
  by (simp add: idempotent_start_def idempotent_existing_def jdemo_db_def)

lemma jdemo_reachable: "journal_reachable K []"
  by (simp add: journal_reachable_def)

section \<open>A key starts one operation\<close>

text \<open>
  C3. Once an operation was started under a key, no later start under this key starts another one,
  whatever other starts, outcomes and workspace bindings come between; a different request under
  the key is a conflict.
\<close>

theorem operation_key_used_once:
  assumes "journal_reachable K db" and "key \<noteq> []"
    and "idempotent_start K tool key request audit i now db = (Inr (i, None), db1)"
    and "(journal_step K)\<^sup>*\<^sup>* db1 db2"
  shows "fst (idempotent_start K tool' key request' audit' j now' db2) \<noteq> Inr (j, None) \<and>
    (request_sha K request' \<noteq> request_sha K request \<longrightarrow>
      idempotent_start K tool' key request' audit' j now' db2 =
        (Inl (IdempotencyRefused ''IDEMPOTENCY_CONFLICT''), db2))"
proof -
  obtain r where inv: "journal_inv db2" and r: "r \<in> set db2" "op_caller_key r = Some key"
    "op_request_sha256 r = request_sha K request" using started_row [OF assms(1,2,3,4)] by blast
  from existing_of_core [OF inv r(1,2)] r(3) answer_existing_not_fresh [of r] show ?thesis
    by (auto simp: idempotent_start_def answer_existing_def)
qed

lemma operation_key_used_once_witness:
  "fst (idempotent_start jdemo_codec ''edit'' ''k1'' (jdemo_request ''c'') jdemo_audit ''op2'' 9 jdemo_db)
      \<noteq> Inr (''op2'', None) \<and>
    idempotent_start jdemo_codec ''edit'' ''k1'' (jdemo_request ''c'') jdemo_audit ''op2'' 9 jdemo_db =
      (Inl (IdempotencyRefused ''IDEMPOTENCY_CONFLICT''), jdemo_db)"
proof -
  have "request_sha jdemo_codec (jdemo_request ''c'') \<noteq> request_sha jdemo_codec (jdemo_request ''b'')"
    by code_simp
  with operation_key_used_once [OF jdemo_reachable _ jdemo_start rtranclp.rtrancl_refl,
      where tool' = "''edit''" and request' = "jdemo_request ''c''" and audit' = jdemo_audit
        and j = "''op2''" and now' = 9] show ?thesis by simp
qed

section \<open>A succeeded operation is replayed\<close>

text \<open>
  When an operation was finished as succeeded with its result, repeating its request under its
  key gives this result, marked as a replay with the id of the operation, and writes nothing.
\<close>

theorem succeeded_operation_replayed:
  assumes "journal_reachable K db" and "key \<noteq> []"
    and "idempotent_start K tool key request audit i now db = (Inr (i, None), db1)"
    and "(journal_step K)\<^sup>*\<^sup>* db1 db2" and "i \<noteq> []" "i \<noteq> ''replay''"
    and "db3 = idempotent_finish i ''succeeded'' commit_sha code (Some result) t db2"
  shows "idempotent_start K tool' key request audit' j now' db3 =
    (Inr (''replay'', Some (json_put ''operation_id'' (JStr i) (json_put ''replayed'' (JBool True) result))), db3)"
proof -
  obtain r where inv2: "journal_inv db2" and r: "r \<in> set db2" and c: "op_caller_key r = Some key"
    "op_request_sha256 r = request_sha K request" "op_id r = i"
    using started_row [OF assms(1,2,3,4)] by blast
  have inv: "journal_inv db3"
    using journal_step_inv [OF journal_step.finish inv2] assms(7) by simp
  obtain r' where r': "r' \<in> set db3" "op_core r' = op_core r" "op_status r' = ''success_verified''"
    "op_result r' = Some result"
    using finish_succeeded [OF r c(3) assms(5,6)] assms(7) by blast
  with c have "op_caller_key r' = Some key" "op_request_sha256 r' = request_sha K request" "op_id r' = i"
    by (auto simp: op_core_def)
  with existing_of_core [OF inv r'(1)] r'(3,4) show ?thesis
    by (simp add: idempotent_start_def answer_existing_def)
qed

lemma succeeded_operation_replayed_witness:
  "idempotent_start jdemo_codec ''again'' ''k1'' (jdemo_request ''b'') jdemo_audit ''op2'' 5
      (idempotent_finish ''op1'' ''succeeded'' JNull None (Some (JObj [])) 3 jdemo_db) =
    (Inr (''replay'', Some (json_put ''operation_id'' (JStr ''op1'') (json_put ''replayed'' (JBool True) (JObj [])))),
     idempotent_finish ''op1'' ''succeeded'' JNull None (Some (JObj [])) 3 jdemo_db)"
  by (rule succeeded_operation_replayed [OF jdemo_reachable _ jdemo_start rtranclp.rtrancl_refl _ _ refl]) simp_all

end
