(* ===== verification/Text_Edits.thy ===== *)
theory Text_Edits
  imports Patch_Application
begin

text \<open>
  The text edits of \<open>app/mygithub10.py\<close> on one file: the range operations of \<open>edit_ranges\<close> and
  the search and replacement of \<open>replace_text_once\<close>.  Range operations are JSON objects; line
  numbers go through \<open>int\<close>.  The field \<open>order\<close> only breaks ties that are refused anyway; that
  comparing \<open>order\<close> values of different types raises \<open>TypeError\<close> is not represented.
\<close>

section \<open>Line numbers\<close>

text \<open>\<open>int\<close> of a text: white space around, a sign, digits with single underscores between them.\<close>

fun int_digits :: "string \<Rightarrow> bool" where
  "int_digits [] = False"
| "int_digits [c] = is_digit c"
| "int_digits (c # d # s) = (is_digit c \<and> (if d = CHR ''_'' then s \<noteq> [] \<and> int_digits s else int_digits (d # s)))"

definition py_int_text :: "string \<Rightarrow> int option" where
  "py_int_text s =
     (let t = py_strip s;
          neg = starts_with ''-'' t;
          u = (if neg \<or> starts_with ''+'' t then tl t else t)
      in if int_digits u
         then Some ((if neg then - 1 else 1) * int (digits_value (filter (\<lambda>c. c \<noteq> CHR ''_'') u)))
         else None)"

fun py_int :: "json \<Rightarrow> int option" where
  "py_int (JInt i) = Some i"
| "py_int (JBool b) = Some (of_bool b)"
| "py_int (JReal r) = Some (if r < 0 then \<lceil>r\<rceil> else \<lfloor>r\<rfloor>)"
| "py_int (JStr s) = py_int_text s"
| "py_int _ = None"

section \<open>Range operations\<close>

datatype range_kind = RReplace | RDelete | RInsertBefore | RInsertAfter

definition range_kind_of :: "json option \<Rightarrow> range_kind option" where
  "range_kind_of v =
     (if v = Some (JStr ''replace'') then Some RReplace
      else if v = Some (JStr ''delete'') then Some RDelete
      else if v = Some (JStr ''insert_before'') then Some RInsertBefore
      else if v = Some (JStr ''insert_after'') then Some RInsertAfter
      else None)"

definition range_inside :: "range_kind \<Rightarrow> int \<Rightarrow> int \<Rightarrow> nat \<Rightarrow> bool" where
  "range_inside kind start stop n \<longleftrightarrow>
     (case kind of
        RInsertBefore \<Rightarrow> \<not> (start < 1 \<or> stop \<noteq> start \<or> start > int n + 1)
      | _ \<Rightarrow> \<not> (start < 1 \<or> stop < start \<or> stop > int n))"

definition line_or_empty :: "string list \<Rightarrow> nat \<Rightarrow> string" where
  "line_or_empty ls k = (if k \<le> length ls then ls ! (k - 1) else [])"

text \<open>The first line, counted from one, at which two texts differ.\<close>

definition mismatch_line :: "string \<Rightarrow> string \<Rightarrow> nat" where
  "mismatch_line expected actual =
     (let e = splitlines expected; a = splitlines actual in
      case find (\<lambda>k. line_or_empty e k \<noteq> line_or_empty a k) [1..<max (length e) (length a) + 1] of
        None \<Rightarrow> 1
      | Some k \<Rightarrow> k)"

definition sha256_field :: "json \<Rightarrow> bool" where
  "sha256_field v = (case v of JStr s \<Rightarrow> is_sha256 s | JInt i \<Rightarrow> is_sha256 (int_text i) | _ \<Rightarrow> False)"

text \<open>The expectation of a replacement or deletion on the lines it names; \<open>H\<close> is SHA-256.\<close>

definition check_old_text :: "(string \<Rightarrow> string) \<Rightarrow> json \<Rightarrow> string \<Rightarrow> patch_error option" where
  "check_old_text H item old_text =
     (case (json_get ''expected_old_text'' item, json_get ''expected_old_text_sha256'' item) of
        (None, None) \<Rightarrow>
          Some (PatchInvalidFormat ''operation requires expected_old_text or expected_old_text_sha256'')
      | (e, h) \<Rightarrow>
          (case e of
             Some (JStr s) \<Rightarrow>
               (case h of
                  Some v \<Rightarrow>
                    if \<not> sha256_field v then Some (PatchInvalidFormat ''expected_old_text_sha256 must be a lowercase SHA-256'')
                    else if s \<noteq> old_text then Some (PatchTextMismatch (mismatch_line s old_text))
                    else if v \<noteq> JStr (H old_text) then Some (PatchTextMismatch 1) else None
                | None \<Rightarrow> if s \<noteq> old_text then Some (PatchTextMismatch (mismatch_line s old_text)) else None)
           | Some _ \<Rightarrow> Some (PatchInvalidFormat ''expected_old_text must be a string'')
           | None \<Rightarrow>
               (case h of
                  Some v \<Rightarrow>
                    if \<not> sha256_field v then Some (PatchInvalidFormat ''expected_old_text_sha256 must be a lowercase SHA-256'')
                    else if v \<noteq> JStr (H old_text) then Some (PatchTextMismatch 1) else None
                | None \<Rightarrow> None)))"

type_synonym position = "nat \<times> nat \<times> json"

definition range_position ::
  "(string \<Rightarrow> string) \<Rightarrow> string list \<Rightarrow> json \<Rightarrow> patch_error + position" where
  "range_position H lines item =
     (case range_kind_of (json_get ''operation'' item) of
        None \<Rightarrow> Inl (PatchInvalidFormat ''operation is invalid'')
      | Some kind \<Rightarrow>
          (case (map_option py_int (json_get ''start_line'' item),
                 py_int (case json_get ''end_line'' item of
                   Some v \<Rightarrow> v | None \<Rightarrow> (case json_get ''start_line'' item of Some v \<Rightarrow> v | None \<Rightarrow> JNull))) of
             (Some (Some start), Some stop) \<Rightarrow>
               if \<not> range_inside kind start stop (length lines) then Inl PatchScopeExceeded
               else (let i = nat start - 1; k = nat stop in
                 if kind \<in> {RReplace, RDelete}
                 then (case check_old_text H item (concat (segment lines i k)) of
                     Some e \<Rightarrow> Inl e
                   | None \<Rightarrow> Inr (i, k, item))
                 else if kind = RInsertBefore then Inr (i, i, item)
                 else Inr (k, k, item))
           | _ \<Rightarrow> Inl (PatchInvalidFormat ''operation line numbers must be integers'')))"

fun range_positions ::
  "(string \<Rightarrow> string) \<Rightarrow> string list \<Rightarrow> json list \<Rightarrow> patch_error + position list" where
  "range_positions H lines [] = Inr []"
| "range_positions H lines (item # items) =
     (case range_position H lines item of
        Inl e \<Rightarrow> Inl e
      | Inr p \<Rightarrow> map_sum id ((#) p) (range_positions H lines items))"

definition position_key :: "position \<Rightarrow> nat \<times> nat" where
  "position_key p = (fst p, fst (snd p))"

definition range_conflict :: "position \<Rightarrow> position \<Rightarrow> bool" where
  "range_conflict prev cur =
     (let (ps, pe) = position_key prev; (cs, ce) = position_key cur in
      (ps = pe \<and> cs = ce \<and> ps = cs) \<or> (ps = pe \<and> cs < ps \<and> ps < ce) \<or>
      (cs = ce \<and> ps < cs \<and> cs < pe) \<or> (ps \<noteq> pe \<and> cs \<noteq> ce \<and> cs < pe))"

fun any_conflict :: "position list \<Rightarrow> bool" where
  "any_conflict (p # q # ps) \<longleftrightarrow> range_conflict p q \<or> any_conflict (q # ps)"
| "any_conflict _ \<longleftrightarrow> False"

definition replacement_of :: "json \<Rightarrow> string option" where
  "replacement_of item =
     (case (case json_get ''replacement_text'' item of
        Some v \<Rightarrow> v
      | None \<Rightarrow> (case json_get ''replacement'' item of Some v \<Rightarrow> v | None \<Rightarrow> JStr '''')) of
        JStr s \<Rightarrow> Some (if json_get ''operation'' item = Some (JStr ''delete'') then '''' else s)
      | _ \<Rightarrow> None)"

text \<open>\<open>lines[i:k] = [replacement] if replacement else []\<close> for each position in turn.\<close>

fun apply_positions :: "position list \<Rightarrow> string list \<Rightarrow> patch_error + string list" where
  "apply_positions [] lines = Inr lines"
| "apply_positions ((i, k, item) # ps) lines =
     (case replacement_of item of
        None \<Rightarrow> Inl (PatchInvalidFormat ''replacement_text must be a string'')
      | Some r \<Rightarrow> apply_positions ps (splice lines i k (if r = [] then [] else [r])))"

text \<open>\<open>sorted(.., reverse=True)\<close> keeps the order of equal keys.\<close>

definition sorted_reverse :: "position list \<Rightarrow> position list" where
  "sorted_reverse ps = rev (sort_key position_key (rev ps))"

definition edit_file :: "(string \<Rightarrow> string) \<Rightarrow> string \<Rightarrow> json list \<Rightarrow> patch_error + string" where
  "edit_file H content items =
     (let lines = splitlines content in
      case range_positions H lines items of
        Inl e \<Rightarrow> Inl e
      | Inr positions \<Rightarrow>
          if any_conflict (sort_key position_key positions) then Inl PatchRangeOverlap
          else map_sum id concat (apply_positions (sorted_reverse positions) lines))"

section \<open>Exact replacement\<close>

text \<open>\<open>str.find\<close> from an offset; a negative answer is \<open>None\<close>.\<close>

definition find_from :: "string \<Rightarrow> string \<Rightarrow> nat \<Rightarrow> nat option" where
  "find_from s old i = find (\<lambda>k. starts_with old (drop k s)) [i..<Suc (length s - length old)]"

text \<open>The \<open>while True\<close> loop over all matches, overlapping ones included.\<close>

partial_function (option) match_offsets :: "string \<Rightarrow> string \<Rightarrow> nat \<Rightarrow> nat list \<Rightarrow> nat list option" where
  "match_offsets s old i acc =
     (case find_from s old i of
        None \<Rightarrow> Some acc
      | Some k \<Rightarrow> match_offsets s old (k + 1) (acc @ [k]))"

definition replace_once :: "string \<Rightarrow> string \<Rightarrow> string \<Rightarrow> (patch_error + nat \<times> string) option" where
  "replace_once content old new =
     (case match_offsets content old 0 [] of
        None \<Rightarrow> None
      | Some offsets \<Rightarrow> Some
          (if length offsets \<noteq> 1 then Inl (PatchTextMismatch (length offsets))
           else (let k = hd offsets in
             Inr (length (filter (\<lambda>c. c = LF) (take k content)) + 1,
                  take k content @ new @ drop (k + length old) content))))"

end
