(* ===== verification/Write_Verify.thy ===== *)
theory Write_Verify
  imports Prelude
begin

text \<open>
  \<open>app/github_write_verify.py\<close>: a write to GitHub counts only after the branch, the commit, its
  tree and every changed path were read back.  What the adapter reads in one attempt is a
  \<open>readback\<close>, the argument of the model; a call that raises is \<open>Raised\<close> with the name of its
  exception.  An attempt ends with evidence or with the details of what differed.
\<close>

datatype 'a reading = Got 'a | Raised string

record readback =
  rb_branch_head :: "string option reading"
  rb_commit_state :: "(string \<times> string) option reading"
  rb_tree :: "string option reading"
  rb_file_sha :: "string \<Rightarrow> string option reading"
  rb_file_mode :: "string \<Rightarrow> string option reading"

record write_target =
  wt_repository :: string
  wt_branch :: string
  wt_previous_head :: string
  wt_commit :: string
  wt_tree :: string

section \<open>Details of a failed attempt\<close>

definition write_details ::
  "write_target \<Rightarrow> string \<Rightarrow> string \<Rightarrow> string \<Rightarrow> string \<Rightarrow> (string \<times> json) list" where
  "write_details w stage head commit tree =
     [(''repository'', JStr (wt_repository w)), (''branch'', JStr (wt_branch w)),
      (''expected_previous_head'', JStr (wt_previous_head w)), (''new_commit_sha'', JStr (wt_commit w)),
      (''observed_branch_head'', JStr head), (''expected_tree_sha'', JStr (wt_tree w)),
      (''observed_tree_sha'', JStr tree), (''failed_stage'', JStr stage)] @
     (if commit \<noteq> [] then [(''observed_commit_sha'', JStr commit)] else [])"

text \<open>The fields of a path; an empty path adds none.\<close>

definition path_details ::
  "string \<Rightarrow> string option \<Rightarrow> string option \<Rightarrow> string option \<Rightarrow> string option \<Rightarrow> (string \<times> json) list" where
  "path_details path blob observed mode observed_mode =
     (if path = [] then []
      else [(''path'', JStr path), (''expected_blob_sha'', json_opt blob), (''observed_blob_sha'', json_opt observed)] @
        (case mode of
           None \<Rightarrow> []
         | Some m \<Rightarrow> [(''expected_mode'', JStr m), (''observed_mode'', json_opt observed_mode)]))"

definition raised_details :: "write_target \<Rightarrow> string \<Rightarrow> string \<Rightarrow> string \<Rightarrow> string \<Rightarrow> json" where
  "raised_details w cause head commit tree =
     JObj (write_details w (if head = [] then ''branch_ref_readback'' else ''commit_readback'') head commit tree @
       [(''cause_type'', JStr cause)])"

section \<open>One attempt\<close>

abbreviation text_or_empty :: "string option \<Rightarrow> string" where
  "text_or_empty s \<equiv> (case s of None \<Rightarrow> [] | Some t \<Rightarrow> t)"

fun verify_paths ::
  "write_target \<Rightarrow> readback \<Rightarrow> (string \<Rightarrow> string option) \<Rightarrow> (string \<times> string option) list \<Rightarrow> json + json list" where
  "verify_paths w rb modes [] = Inr []"
| "verify_paths w rb modes ((path, blob) # rest) =
     (let details = (\<lambda>stage observed mode observed_mode.
            JObj (write_details w stage (wt_commit w) (wt_commit w) (wt_tree w) @
              path_details path blob observed mode observed_mode));
          raised = (\<lambda>cause. raised_details w cause (wt_commit w) (wt_commit w) (wt_tree w)) in
      case rb_file_sha rb path of
        Raised c \<Rightarrow> Inl (raised c)
      | Got observed \<Rightarrow>
          if observed \<noteq> blob then Inl (details ''path_readback'' observed None None)
          else (case modes path of
              None \<Rightarrow> map_sum id ((#) (JObj [(''path'', JStr path), (''blob_sha'', json_opt observed)]))
                (verify_paths w rb modes rest)
            | Some mode \<Rightarrow>
                (case rb_file_mode rb path of
                   Raised c \<Rightarrow> Inl (raised c)
                 | Got observed_mode \<Rightarrow>
                     if observed_mode \<noteq> Some mode
                     then Inl (details ''path_mode_readback'' observed (Some mode) observed_mode)
                     else map_sum id ((#) (JObj [(''path'', JStr path), (''blob_sha'', json_opt observed),
                         (''mode'', JStr mode)])) (verify_paths w rb modes rest))))"

definition write_evidence :: "write_target \<Rightarrow> nat \<Rightarrow> json list \<Rightarrow> json" where
  "write_evidence w attempt verified =
     JObj [(''write_verified'', JBool True), (''repository'', JStr (wt_repository w)),
       (''branch'', JStr (wt_branch w)), (''previous_head_sha'', JStr (wt_previous_head w)),
       (''commit_sha'', JStr (wt_commit w)), (''tree_sha'', JStr (wt_tree w)),
       (''verified_branch_head_sha'', JStr (wt_commit w)), (''verified_commit_sha'', JStr (wt_commit w)),
       (''verified_tree_sha'', JStr (wt_tree w)), (''verified_paths'', JList verified),
       (''verify_attempts'', JInt (int attempt))]"

definition verify_attempt ::
  "write_target \<Rightarrow> (string \<times> string option) list \<Rightarrow> (string \<Rightarrow> string option) \<Rightarrow> readback \<Rightarrow> nat \<Rightarrow>
   json + json" where
  "verify_attempt w paths modes rb attempt =
     (case rb_branch_head rb of
        Raised c \<Rightarrow> Inl (raised_details w c [] [] [])
      | Got h \<Rightarrow>
          (let head = text_or_empty h in
           if head \<noteq> wt_commit w then Inl (JObj (write_details w ''branch_ref_readback'' head [] []))
           else (case rb_commit_state rb of
             Raised c \<Rightarrow> Inl (raised_details w c head [] [])
           | Got None \<Rightarrow> Inl (JObj (write_details w ''commit_readback'' head [] []))
           | Got (Some (commit, tree)) \<Rightarrow>
               if commit \<noteq> wt_commit w then Inl (JObj (write_details w ''commit_readback'' head commit tree))
               else if tree \<noteq> wt_tree w then Inl (JObj (write_details w ''tree_readback'' head commit tree))
               else (case rb_tree rb of
                   Raised c \<Rightarrow> Inl (raised_details w c head commit tree)
                 | Got t \<Rightarrow>
                     if text_or_empty t \<noteq> wt_tree w
                     then Inl (JObj (write_details w ''tree_readback'' head commit (text_or_empty t)))
                     else map_sum id (write_evidence w attempt)
                       (verify_paths w rb modes (sort_key fst paths))))))"

section \<open>Attempts\<close>

text \<open>Attempt \<open>k\<close> and the following ones, \<open>n\<close> in all; the details are those of the last one.\<close>

fun verify_from ::
  "write_target \<Rightarrow> (string \<times> string option) list \<Rightarrow> (string \<Rightarrow> string option) \<Rightarrow> (nat \<Rightarrow> readback) \<Rightarrow>
   nat \<Rightarrow> nat \<Rightarrow> json \<Rightarrow> json + json" where
  "verify_from w paths modes rb k 0 details = Inl details"
| "verify_from w paths modes rb k (Suc n) details =
     (case verify_attempt w paths modes (rb k) k of
        Inr e \<Rightarrow> Inr e
      | Inl d \<Rightarrow> verify_from w paths modes rb (k + 1) n d)"

definition post_write_verify ::
  "write_target \<Rightarrow> (string \<times> string option) list \<Rightarrow> (string \<Rightarrow> string option) \<Rightarrow> (nat \<Rightarrow> readback) \<Rightarrow>
   int \<Rightarrow> json + json" where
  "post_write_verify w paths modes rb attempts =
     verify_from w paths modes rb 1 (nat (max 1 (min attempts 3)))
       (JObj (write_details w ''branch_ref_readback'' [] [] []))"

section \<open>What a verified write was seen to be\<close>

definition confirmed ::
  "write_target \<Rightarrow> (string \<times> string option) list \<Rightarrow> (string \<Rightarrow> string option) \<Rightarrow> readback \<Rightarrow> bool" where
  "confirmed w paths modes rb \<longleftrightarrow>
     rb_branch_head rb = Got (Some (wt_commit w)) \<and>
     rb_commit_state rb = Got (Some (wt_commit w, wt_tree w)) \<and>
     rb_tree rb = Got (Some (wt_tree w)) \<and>
     (\<forall>(path, blob) \<in> set paths. rb_file_sha rb path = Got blob \<and>
       (case modes path of None \<Rightarrow> True | Some m \<Rightarrow> rb_file_mode rb path = Got (Some m)))"

lemma verify_paths_iff:
  "(\<exists>v. verify_paths w rb modes ps = Inr v) \<longleftrightarrow>
     (\<forall>(path, blob) \<in> set ps. rb_file_sha rb path = Got blob \<and>
       (case modes path of None \<Rightarrow> True | Some m \<Rightarrow> rb_file_mode rb path = Got (Some m)))"
proof (induction ps)
  case (Cons p ps)
  obtain path blob where p: "p = (path, blob)" by (cases p)
  show ?case
  proof (cases "verify_paths w rb modes ps")
    case (Inl d)
    with Cons.IH have "\<not> (\<forall>(path, blob) \<in> set ps. rb_file_sha rb path = Got blob \<and>
       (case modes path of None \<Rightarrow> True | Some m \<Rightarrow> rb_file_mode rb path = Got (Some m)))" by simp
    with Inl show ?thesis
      by (auto simp: p Let_def split: reading.splits option.splits)
  next
    case (Inr v)
    with Cons.IH have "\<forall>(path, blob) \<in> set ps. rb_file_sha rb path = Got blob \<and>
       (case modes path of None \<Rightarrow> True | Some m \<Rightarrow> rb_file_mode rb path = Got (Some m))" by simp
    with Inr show ?thesis
      by (auto simp: p Let_def split: reading.splits option.splits)
  qed
qed simp

lemma verify_attempt_iff:
  assumes "wt_commit w \<noteq> []" and "wt_tree w \<noteq> []"
  shows "(\<exists>e. verify_attempt w paths modes rb k = Inr e) \<longleftrightarrow> confirmed w paths modes rb"
proof -
  have filled: "text_or_empty s = t \<longleftrightarrow> s = Some t" if "t \<noteq> []" for s t
    using that by (auto split: option.splits)
  have paths: "(\<exists>v. verify_paths w rb modes (sort_key fst paths) = Inr v) \<longleftrightarrow>
      (\<forall>(path, blob) \<in> set paths. rb_file_sha rb path = Got blob \<and>
       (case modes path of None \<Rightarrow> True | Some m \<Rightarrow> rb_file_mode rb path = Got (Some m)))"
    using verify_paths_iff [of w rb modes "sort_key fst paths"] by simp
  show ?thesis
    unfolding verify_attempt_def confirmed_def paths [symmetric]
    using filled [OF assms(1)] filled [OF assms(2)]
    by (auto simp: Let_def map_sum_Inr split: reading.splits option.splits if_splits)
qed

lemma verify_from_iff:
  "(\<exists>e. verify_from w paths modes rb k n d = Inr e) \<longleftrightarrow>
     (\<exists>j. k \<le> j \<and> j < k + n \<and> (\<exists>e. verify_attempt w paths modes (rb j) j = Inr e))"
proof (induction n arbitrary: k d)
  case (Suc n)
  have iff: "(k \<le> j \<and> j < k + Suc n) = (j = k \<or> k + 1 \<le> j \<and> j < k + 1 + n)" for j by auto
  have split: "(\<exists>j. k \<le> j \<and> j < k + Suc n \<and> P j) \<longleftrightarrow> P k \<or> (\<exists>j. k + 1 \<le> j \<and> j < k + 1 + n \<and> P j)" for P
    unfolding conj_assoc [symmetric] iff by blast
  show ?case
  proof (cases "verify_attempt w paths modes (rb k) k")
    case (Inl d')
    then show ?thesis unfolding split using Suc.IH [of "k + 1" d'] by simp
  next
    case (Inr e)
    then show ?thesis unfolding split by auto
  qed
qed simp

lemma post_write_verify_iff:
  assumes "wt_commit w \<noteq> []" and "wt_tree w \<noteq> []"
  shows "(\<exists>e. post_write_verify w paths modes rb attempts = Inr e) \<longleftrightarrow>
    (\<exists>k \<in> {1..nat (max 1 (min attempts 3))}. confirmed w paths modes (rb k))"
  unfolding post_write_verify_def verify_from_iff verify_attempt_iff [OF assms]
  by (auto simp: less_Suc_eq_le)

lemma post_write_verify_confirmed:
  assumes "wt_commit w \<noteq> []" and "wt_tree w \<noteq> []" and "post_write_verify w paths modes rb 3 = Inr e"
  shows "\<exists>k \<in> {1..3}. confirmed w paths modes (rb k)"
  using post_write_verify_iff [OF assms(1,2), of paths modes rb 3] assms(3) by auto

end
