(* ===== verification/Github_Writes.thy ===== *)
theory Github_Writes
  imports Text_Edits Write_Verify Operation_Journal
begin

text \<open>
  How the write tools of \<open>app/mygithub10.py\<close> read and write a repository: \<open>_resolve_commit\<close>,
  \<open>_read_blob\<close>, \<open>_preflight_file_write\<close>, \<open>_read_file_modes\<close> and \<open>_commit_files\<close>.  GitHub is not
  part of the program: its answers are the fields of \<open>github\<close>, an argument of every definition,
  and the requests that write are returned as a list in the order they were sent.
\<close>

section \<open>GitHub\<close>

datatype 'a answer = Answer 'a | NotFound | Failed

definition is_answer :: "'a answer \<Rightarrow> bool" where
  "is_answer a \<longleftrightarrow> (case a of Answer x \<Rightarrow> True | _ \<Rightarrow> False)"

datatype content = Directory | FileEntry string

text \<open>The bytes of a blob: a text in UTF-8, or something else of a size.\<close>

datatype blob = TextBlob string | BinaryBlob nat

fun blob_size :: "blob \<Rightarrow> nat" where
  "blob_size (TextBlob t) = text_bytes t"
| "blob_size (BinaryBlob n) = n"

text \<open>\<open>_text\<close>: \<open>FILE_BINARY_UNSUPPORTED\<close> when the bytes are not UTF-8.\<close>

definition blob_text :: "blob \<Rightarrow> patch_error + string" where
  "blob_text b = (case b of TextBlob t \<Rightarrow> Inr t | BinaryBlob n \<Rightarrow> Inl (ToolError ''FILE_BINARY_UNSUPPORTED'' (JObj [])))"

type_synonym tree_element = "string \<times> string \<times> string option"

text \<open>
  \<open>gh_update_ref\<close> answers the update of the branch to a commit, forced or not: with the commit the
  branch stood at when GitHub moved it, or by raising.
\<close>

record github =
  gh_commit :: "string \<Rightarrow> string answer"
  gh_contents :: "string \<Rightarrow> string \<Rightarrow> content answer"
  gh_blob :: "string \<Rightarrow> blob answer"
  gh_write_allowed :: bool
  gh_ref :: "string answer"
  gh_mode :: "string \<Rightarrow> string \<Rightarrow> string option answer"
  gh_create_blob :: "string \<Rightarrow> string answer"
  gh_base_tree :: "string \<Rightarrow> string answer"
  gh_create_tree :: "tree_element list \<Rightarrow> string \<Rightarrow> string answer"
  gh_create_commit :: "string \<Rightarrow> string \<Rightarrow> string \<Rightarrow> string answer"
  gh_update_ref :: "string \<Rightarrow> bool \<Rightarrow> string answer"
  gh_latest_head :: "string option"
  gh_readback :: "nat \<Rightarrow> readback"
  gh_get_file :: "string \<Rightarrow> string \<Rightarrow> (string option \<times> string \<times> nat) answer"

datatype git_write =
    CreateBlob string
  | CreateTree "tree_element list" string
  | CreateCommit string string string
  | UpdateRef string string bool

record repo_branch =
  rp_repository :: string
  rp_branch :: string

section \<open>Reading\<close>

definition resolve_commit :: "github \<Rightarrow> string \<Rightarrow> patch_error + string" where
  "resolve_commit g ref =
     (case gh_commit g ref of
        Answer sha \<Rightarrow> Inr sha
      | NotFound \<Rightarrow> Inl (ToolError ''REF_NOT_FOUND'' (JObj [(''ref'', JStr ref), (''retryable'', JBool False)]))
      | Failed \<Rightarrow> Inl (ToolError ''GITHUB_READ_FAILED'' (JObj [(''ref'', JStr ref), (''retryable'', JBool True)])))"

definition file_missing :: "string \<Rightarrow> string \<Rightarrow> patch_error" where
  "file_missing path ref = ToolError ''FILE_NOT_FOUND''
     (JObj [(''path'', JStr path), (''ref'', JStr ref), (''retryable'', JBool False)])"

definition read_failed :: "string \<Rightarrow> string \<Rightarrow> patch_error" where
  "read_failed path ref = ToolError ''GITHUB_READ_FAILED''
     (JObj [(''path'', JStr path), (''ref'', JStr ref), (''retryable'', JBool True)])"

text \<open>The blob, its id and the commit it was read at.\<close>

definition read_blob :: "github \<Rightarrow> string \<Rightarrow> string \<Rightarrow> patch_error + blob \<times> string \<times> string" where
  "read_blob g path ref =
     (if \<not> safe_path path then Inl PatchUnsafePath
      else (case resolve_commit g ref of
        Inl e \<Rightarrow> Inl e
      | Inr commit \<Rightarrow>
          (case gh_contents g path commit of
             Answer Directory \<Rightarrow> Inl (ToolError ''FILE_NOT_FOUND'' (JObj []))
           | Answer (FileEntry sha) \<Rightarrow>
               (case gh_blob g sha of
                  Answer b \<Rightarrow> Inr (b, sha, commit)
                | NotFound \<Rightarrow> Inl (file_missing path ref)
                | Failed \<Rightarrow> Inl (read_failed path ref))
           | NotFound \<Rightarrow> Inl (file_missing path ref)
           | Failed \<Rightarrow> Inl (read_failed path ref))))"

section \<open>Checks before a write\<close>

type_synonym old_shas = "(string \<times> string option) list"

definition head_changed :: "repo_branch \<Rightarrow> string \<Rightarrow> string \<Rightarrow> patch_error" where
  "head_changed rb expected actual = ToolError ''PATCH_HEAD_CHANGED''
     (JObj [(''expected'', JStr expected), (''actual'', JStr actual),
       (''repository'', JStr (rp_repository rb)), (''branch'', JStr (rp_branch rb)),
       (''phase'', JStr ''before_write''), (''error_code'', JStr ''HEAD_CHANGED'')])"

text \<open>\<open>expected and expected != (old_sha or "")\<close> for an expectation that may be any value.\<close>

definition blob_differs :: "json option \<Rightarrow> string option \<Rightarrow> bool" where
  "blob_differs expected old \<longleftrightarrow>
     (case expected of None \<Rightarrow> False | Some v \<Rightarrow> json_truthy v \<and> v \<noteq> JStr (text_or_empty old))"

definition old_sha_at :: "github \<Rightarrow> repo_branch \<Rightarrow> string \<Rightarrow> string \<Rightarrow> patch_error + string option" where
  "old_sha_at g rb path head =
     (case gh_contents g path head of
        Answer Directory \<Rightarrow> Inr None
      | Answer (FileEntry sha) \<Rightarrow> Inr (Some sha)
      | NotFound \<Rightarrow> Inr None
      | Failed \<Rightarrow> Inl (ToolError ''GITHUB_READ_FAILED'' (JObj [(''path'', JStr path),
          (''repository'', JStr (rp_repository rb)), (''branch'', JStr (rp_branch rb)), (''retryable'', JBool True)])))"

fun preflight_paths ::
  "github \<Rightarrow> repo_branch \<Rightarrow> string \<Rightarrow> json \<Rightarrow> string list \<Rightarrow> patch_error + old_shas" where
  "preflight_paths g rb head expected [] = Inr []"
| "preflight_paths g rb head expected (path # paths) =
     (if \<not> safe_path path then Inl PatchUnsafePath
      else (case old_sha_at g rb path head of
        Inl e \<Rightarrow> Inl e
      | Inr old \<Rightarrow>
          if blob_differs (json_get path expected) old
          then Inl (ToolError ''BLOB_CHANGED'' (JObj [(''expected'', json_field path JNull expected),
            (''actual'', json_opt old), (''repository'', JStr (rp_repository rb)),
            (''branch'', JStr (rp_branch rb)), (''path'', JStr path)]))
          else map_sum id ((#) (path, old)) (preflight_paths g rb head expected paths)))"

definition preflight_file_write ::
  "github \<Rightarrow> repo_branch \<Rightarrow> string \<Rightarrow> string list \<Rightarrow> json \<Rightarrow> patch_error + string \<times> old_shas" where
  "preflight_file_write g rb expected_head paths expected =
     (if \<not> gh_write_allowed g then Inl ClientFailure
      else (case gh_ref g of
        Answer head \<Rightarrow>
          if expected_head \<noteq> [] \<and> head \<noteq> expected_head then Inl (head_changed rb expected_head head)
          else map_sum id (Pair head) (preflight_paths g rb head expected paths)
      | _ \<Rightarrow> Inl ClientFailure))"

definition regular_modes :: "string list" where "regular_modes = [''100644'', ''100755'']"

fun read_file_modes :: "github \<Rightarrow> repo_branch \<Rightarrow> string \<Rightarrow> old_shas \<Rightarrow> patch_error + (string \<times> string option) list" where
  "read_file_modes g rb head [] = Inr []"
| "read_file_modes g rb head ((path, old) # rest) =
     (case gh_mode g path head of
        Answer mode \<Rightarrow>
          if truthy old \<and> mode \<notin> Some ` set regular_modes
          then Inl (ToolError ''FILE_MODE_UNSUPPORTED'' (JObj [(''path'', JStr path), (''mode'', json_opt mode),
            (''repository'', JStr (rp_repository rb)), (''branch'', JStr (rp_branch rb))]))
          else if truthy old \<noteq> truthy mode
          then Inl (ToolError ''GITHUB_READ_FAILED'' (JObj [(''path'', JStr path), (''blob_sha'', json_opt old),
            (''mode'', json_opt mode), (''retryable'', JBool True)]))
          else map_sum id ((#) (path, mode)) (read_file_modes g rb head rest)
      | _ \<Rightarrow> Inl ClientFailure)"

section \<open>The commit\<close>

type_synonym changes = "(string \<times> string option) list"

definition mode_or_default :: "string option \<Rightarrow> string option \<Rightarrow> string" where
  "mode_or_default requested old =
     (case py_or requested old of Some m \<Rightarrow> if m = [] then ''100644'' else m | None \<Rightarrow> ''100644'')"

definition lookup :: "(string \<times> 'v option) list \<Rightarrow> string \<Rightarrow> 'v option" where
  "lookup xs k = (case map_of xs k of Some v \<Rightarrow> v | None \<Rightarrow> None)"

text \<open>One path: its tree element, the id of a new blob, its final mode.\<close>

definition path_element ::
  "github \<Rightarrow> changes \<Rightarrow> (string \<times> string) list \<Rightarrow> json \<Rightarrow> old_shas \<Rightarrow> (string \<times> string option) list \<Rightarrow> string \<Rightarrow>
   (patch_error + tree_element \<times> string option \<times> string) \<times> git_write list" where
  "path_element g changed modes expected old_shas old_modes path =
     (let requested = map_of modes path; old_mode = lookup old_modes path;
          final = mode_or_default requested old_mode in
      if requested \<noteq> None \<and> the requested \<notin> set regular_modes
      then (Inl (ToolError ''FILE_MODE_INVALID'' (JObj [(''path'', JStr path), (''mode'', json_opt requested)])), [])
      else (case map_of changed path of
        None \<Rightarrow>
          if \<not> truthy (lookup old_shas path)
          then (Inl (ToolError ''FILE_NOT_FOUND'' (JObj [(''path'', JStr path)])), [])
          else if \<not> json_truthy (json_field path JNull expected)
          then (Inl (ToolError ''BLOB_EXPECTATION_REQUIRED'' (JObj [(''path'', JStr path)])), [])
          else (Inr ((path, final, lookup old_shas path), None, final), [])
      | Some None \<Rightarrow> (Inr ((path, mode_or_default None old_mode, None), None, final), [])
      | Some (Some content) \<Rightarrow>
          (case gh_create_blob g content of
             Answer sha \<Rightarrow> (Inr ((path, final, Some sha), Some sha, final), [CreateBlob content])
           | _ \<Rightarrow> (Inl ClientFailure, [CreateBlob content]))))"

fun path_elements ::
  "github \<Rightarrow> changes \<Rightarrow> (string \<times> string) list \<Rightarrow> json \<Rightarrow> old_shas \<Rightarrow> (string \<times> string option) list \<Rightarrow> string list \<Rightarrow>
   (patch_error + (string \<times> tree_element \<times> string option \<times> string) list) \<times> git_write list" where
  "path_elements g changed modes expected old_shas old_modes [] = (Inr [], [])"
| "path_elements g changed modes expected old_shas old_modes (path # paths) =
     (case path_element g changed modes expected old_shas old_modes path of
        (Inl e, ws) \<Rightarrow> (Inl e, ws)
      | (Inr x, ws) \<Rightarrow>
          (case path_elements g changed modes expected old_shas old_modes paths of
             (Inl e, ws') \<Rightarrow> (Inl e, ws @ ws')
           | (Inr xs, ws') \<Rightarrow> (Inr ((path, x) # xs), ws @ ws')))"

text \<open>\<open>list(dict.fromkeys(..))\<close>: the first occurrence of each key.\<close>

definition dict_keys :: "string list \<Rightarrow> string list" where
  "dict_keys xs = rev (remdups (rev xs))"

definition change_paths :: "changes \<Rightarrow> (string \<times> string) list \<Rightarrow> string list" where
  "change_paths changed modes = dict_keys (map fst changed @ map fst modes)"

text \<open>
  The update of the branch: an error, or the tree and commit that the branch points to.  The update
  is not forced; when it raises, a fresh reading of the branch decides.
\<close>

definition update_branch ::
  "github \<Rightarrow> repo_branch \<Rightarrow> string \<Rightarrow> tree_element list \<Rightarrow> string \<Rightarrow>
   (patch_error + string \<times> string) \<times> git_write list" where
  "update_branch g rb head elements message =
     (case gh_base_tree g head of
        Answer base \<Rightarrow>
          (case gh_create_tree g elements base of
             Answer tree \<Rightarrow>
               (case gh_create_commit g message tree head of
                  Answer commit \<Rightarrow>
                    (let ws = [CreateTree elements base, CreateCommit message tree head,
                           UpdateRef (rp_branch rb) commit False];
                         latest = gh_latest_head g
                     in if \<not> is_answer (gh_update_ref g commit False) \<and> latest \<noteq> Some commit
                        then (Inl (ToolError
                            (if truthy latest \<and> latest \<noteq> Some head then ''PATCH_HEAD_CHANGED'' else ''WRITE_VERIFY_FAILED'')
                            (JObj [(''repository'', JStr (rp_repository rb)), (''branch'', JStr (rp_branch rb)),
                              (''expected_previous_head'', JStr head), (''new_commit_sha'', JStr commit),
                              (''observed_branch_head'', JStr (text_or_empty latest)), (''expected_tree_sha'', JStr tree),
                              (''observed_tree_sha'', JStr []), (''failed_stage'', JStr ''branch_ref_update'')])), ws)
                        else (Inr (tree, commit), ws))
                | _ \<Rightarrow> (Inl ClientFailure, [CreateTree elements base, CreateCommit message tree head]))
           | _ \<Rightarrow> (Inl ClientFailure, [CreateTree elements base]))
      | _ \<Rightarrow> (Inl ClientFailure, []))"

definition json_fields :: "json \<Rightarrow> (string \<times> json) list" where
  "json_fields v = (case v of JObj kvs \<Rightarrow> kvs | _ \<Rightarrow> [])"

text \<open>The reading back of one path after the commit and its entry in the result.\<close>

definition file_result ::
  "(string \<Rightarrow> string) \<Rightarrow> github \<Rightarrow> changes \<Rightarrow> old_shas \<Rightarrow> (string \<times> string option) list \<Rightarrow> string \<Rightarrow> json \<Rightarrow>
   string \<times> tree_element \<times> string option \<times> string \<Rightarrow> patch_error + json" where
  "file_result H g changed old_shas old_modes commit evidence entry =
     (let (path, element, new_sha, final) = entry;
          old = json_opt (lookup old_shas path); old_mode = json_opt (lookup old_modes path) in
      case map_of changed path of
        None \<Rightarrow> Inr (JObj [(''path'', JStr path), (''operation'', JStr ''mode_change''), (''old_blob_sha'', old),
          (''new_blob_sha'', old), (''old_mode'', old_mode), (''new_mode'', JStr final),
          (''blob_identity_preserved'', JBool True)])
      | Some None \<Rightarrow> Inr (JObj [(''path'', JStr path), (''operation'', JStr ''delete''), (''old_blob_sha'', old),
          (''new_blob_sha'', JNull), (''old_mode'', old_mode), (''new_mode'', JNull), (''content_sha256'', JNull),
          (''size_bytes'', JInt 0)])
      | Some (Some content) \<Rightarrow>
          (case gh_get_file g path commit of
             Answer (text, actual_blob, nbytes) \<Rightarrow>
               if Some actual_blob \<noteq> new_sha \<or> text_or_empty text \<noteq> content
               then Inl (ToolError ''WRITE_VERIFY_FAILED'' (JObj (json_fields evidence @
                 [(''path'', JStr path), (''failed_stage'', JStr ''path_content_readback''),
                  (''expected_content_sha256'', JStr (H content)),
                  (''actual_content_sha256'', JStr (H (text_or_empty text))),
                  (''expected_blob_sha'', json_opt new_sha), (''actual_blob_sha'', JStr actual_blob)])))
               else Inr (JObj [(''path'', JStr path),
                 (''operation'', JStr (if truthy (lookup old_shas path) then ''modify'' else ''add'')),
                 (''old_blob_sha'', old), (''new_blob_sha'', JStr actual_blob), (''old_mode'', old_mode),
                 (''new_mode'', JStr final), (''content_sha256'', JStr (H content)), (''size_bytes'', JInt (int nbytes))])
           | _ \<Rightarrow> Inl (ToolError ''WRITE_VERIFY_FAILED'' (JObj (json_fields evidence @
                 [(''path'', JStr path), (''failed_stage'', JStr ''path_content_readback'')])))))"

fun file_results ::
  "(string \<times> tree_element \<times> string option \<times> string \<Rightarrow> patch_error + json) \<Rightarrow>
   (string \<times> tree_element \<times> string option \<times> string) list \<Rightarrow> patch_error + json list" where
  "file_results f [] = Inr []"
| "file_results f (x # xs) =
     (case f x of Inl e \<Rightarrow> Inl e | Inr r \<Rightarrow> map_sum id ((#) r) (file_results f xs))"

definition commit_files ::
  "(string \<Rightarrow> string) \<Rightarrow> github \<Rightarrow> repo_branch \<Rightarrow> string \<Rightarrow> changes \<Rightarrow> json \<Rightarrow> string \<Rightarrow>
   (string \<times> string) list \<Rightarrow> (patch_error + (string \<times> json) list) \<times> git_write list" where
  "commit_files H g rb expected_head changed expected message modes =
     (let paths = change_paths changed modes in
      case preflight_file_write g rb expected_head paths expected of
        Inl e \<Rightarrow> (Inl e, [])
      | Inr (head, old_shas) \<Rightarrow>
     (case read_file_modes g rb head old_shas of
        Inl e \<Rightarrow> (Inl e, [])
      | Inr old_modes \<Rightarrow>
     (case path_elements g changed modes expected old_shas old_modes paths of
        (Inl e, ws) \<Rightarrow> (Inl e, ws)
      | (Inr entries, ws) \<Rightarrow>
     (case update_branch g rb head (map (\<lambda>(path, element, _). element) entries) message of
        (Inl e, ws') \<Rightarrow> (Inl e, ws @ ws')
      | (Inr (tree, commit), ws') \<Rightarrow>
          (let w = \<lparr>wt_repository = rp_repository rb, wt_branch = rp_branch rb, wt_previous_head = head,
                 wt_commit = commit, wt_tree = tree\<rparr>;
               expected_paths = map (\<lambda>(path, (p, mode, sha), _). (path, sha)) entries;
               expected_modes = map_of (concat (map (\<lambda>(path, (p, mode, sha), new_sha, final).
                 if sha = None then [] else [(path, final)]) entries))
           in case post_write_verify w expected_paths expected_modes (gh_readback g) 3 of
                Inl d \<Rightarrow> (Inl (ToolError ''WRITE_VERIFY_FAILED'' d), ws @ ws')
              | Inr evidence \<Rightarrow>
                  (case file_results (file_result H g changed old_shas old_modes commit evidence) entries of
                     Inl e \<Rightarrow> (Inl e, ws @ ws')
                   | Inr files \<Rightarrow>
                       (Inr ([(''commit_sha'', JStr commit), (''new_head_sha'', JStr commit),
                          (''old_head_sha'', JStr head), (''tree_sha'', JStr tree),
                          (''branch'', JStr (rp_branch rb)), (''repository'', JStr (rp_repository rb)),
                          (''changed_files'', JList files)] @ json_fields evidence), ws @ ws')))))))"

end
