(* ===== verification/Write_Tools.thy ===== *)
theory Write_Tools
  imports Github_Writes
begin

text \<open>
  The write tools \<open>apply_patch\<close>, \<open>edit_ranges\<close> and \<open>replace_text_once\<close> of \<open>app/mygithub10.py\<close>.
  A run gives an answer, the write requests it sent to GitHub and the journal after it.  JSON
  arguments are values already read by \<open>json.loads\<close>, \<open>None\<close> when it refused them; \<open>i\<close> is the
  fresh operation id, \<open>t0\<close> and \<open>t1\<close> are the clock at the start and at the outcome.
\<close>

record hashing = codec +
  sha1 :: "string \<Rightarrow> string"

definition git_blob_sha :: "hashing \<Rightarrow> string \<Rightarrow> string" where
  "git_blob_sha K data = sha1 K (''blob '' @ nat_text (text_bytes data) @ [CHR 0x00] @ data)"

type_synonym tool_run = "(patch_error + json) \<times> git_write list \<times> journal"

section \<open>Shared parts\<close>

definition error_code :: "patch_error \<Rightarrow> string" where
  "error_code e =
     (case e of
        PatchInvalidFormat m \<Rightarrow> ''PATCH_INVALID_FORMAT''
      | PatchTooLarge \<Rightarrow> ''PATCH_TOO_LARGE''
      | PatchUnsafePath \<Rightarrow> ''PATCH_UNSAFE_PATH''
      | PatchRenameUnsupported \<Rightarrow> ''PATCH_RENAME_UNSUPPORTED''
      | PatchEmpty \<Rightarrow> ''PATCH_EMPTY''
      | PatchDoesNotApply m \<Rightarrow> ''PATCH_DOES_NOT_APPLY''
      | PatchContextAmbiguous m \<Rightarrow> ''PATCH_CONTEXT_AMBIGUOUS''
      | PatchTextMismatch n \<Rightarrow> ''PATCH_TEXT_MISMATCH''
      | PatchScopeExceeded \<Rightarrow> ''PATCH_SCOPE_EXCEEDED''
      | PatchRangeOverlap \<Rightarrow> ''PATCH_SCOPE_EXCEEDED''
      | IdempotencyRefused c \<Rightarrow> c
      | ToolError c d \<Rightarrow> c
      | ClientFailure \<Rightarrow> ''CLIENT_FAILURE'')"

definition error_details :: "patch_error \<Rightarrow> json" where
  "error_details e = (case e of ToolError c d \<Rightarrow> d | _ \<Rightarrow> JObj [])"

definition error_entry :: "patch_error \<Rightarrow> string \<times> json" where
  "error_entry e = (''error'', JObj [(''code'', JStr (error_code e)), (''details'', error_details e)])"

definition max_inline_bytes :: nat where "max_inline_bytes = 65536"
definition max_text_edit_bytes :: nat where "max_text_edit_bytes = 4194304"
definition max_edit_operations :: nat where "max_edit_operations = 1000"

text \<open>\<open>_truncate_utf8\<close>: the longest prefix that fits, never a part of a character.\<close>

fun fitting_prefix :: "nat \<Rightarrow> string \<Rightarrow> string" where
  "fitting_prefix n [] = []"
| "fitting_prefix n (c # s) =
     (if text_bytes [c] \<le> n then c # fitting_prefix (n - text_bytes [c]) s else [])"

definition truncate_utf8 :: "string \<Rightarrow> nat \<Rightarrow> string \<times> bool" where
  "truncate_utf8 s limit = (if text_bytes s \<le> limit then (s, False) else (fitting_prefix limit s, True))"

text \<open>\<open>d.update(..)\<close>\<close>

definition json_update :: "json \<Rightarrow> (string \<times> json) list \<Rightarrow> json" where
  "json_update d kvs = foldl (\<lambda>d (k, v). json_put k v d) d kvs"

definition fingerprint :: "hashing \<Rightarrow> json \<Rightarrow> string" where
  "fingerprint K v = sha256 K (json_text (float_text K) (sort_keys v))"

definition too_large :: "string \<Rightarrow> patch_error" where
  "too_large path = ToolError ''FILE_TOO_LARGE''
     (JObj [(''path'', JStr path), (''limit_bytes'', JInt (int max_text_edit_bytes))])"

definition begin_operation ::
  "hashing \<Rightarrow> bool \<Rightarrow> string \<Rightarrow> string \<Rightarrow> json \<Rightarrow> audit_context \<Rightarrow> string \<Rightarrow> time \<Rightarrow> journal \<Rightarrow>
   (patch_error + (string \<times> json option)) \<times> journal" where
  "begin_operation K dry_run tool key request audit i t0 db =
     (if dry_run then (Inr ([], None), db)
      else idempotent_start (codec.truncate K) tool key request audit i t0 db)"

text \<open>The commit of the changes and the outcome of the operation.\<close>

definition commit_stage ::
  "hashing \<Rightarrow> github \<Rightarrow> repo_branch \<Rightarrow> string \<Rightarrow> changes \<Rightarrow> json \<Rightarrow> string \<Rightarrow> string \<Rightarrow> json \<Rightarrow> time \<Rightarrow>
   journal \<Rightarrow> tool_run" where
  "commit_stage K g rb expected_head changed expected message op result t1 db =
     (case commit_files (sha256 K) g rb expected_head changed expected message [] of
        (Inr committed_fields, ws) \<Rightarrow>
          (let r = json_update result committed_fields in
           (Inr (json_put ''_operation_id'' (JStr op) r), ws, idempotent_mark_git_verified op r t1 db))
      | (Inl e, ws) \<Rightarrow>
          (Inl e, ws,
           if e = ClientFailure then db
           else idempotent_finish op ''failed'' JNull (Some (error_code e))
             (Some (JObj [(''failed_stage'', json_field ''failed_stage'' JNull (error_details e)), error_entry e]))
             t1 db))"

section \<open>Applying a patch\<close>

definition hunk_json :: "hunk \<Rightarrow> json" where
  "hunk_json h = (case h of (old_start, new_start, old, new) \<Rightarrow>
     JObj [(''old_start'', JInt (int old_start)), (''new_start'', JInt (int new_start)),
       (''old_lines'', JList (map JStr old)), (''new_lines'', JList (map JStr new))])"

definition canonical_patch_request ::
  "repo_branch \<Rightarrow> string \<Rightarrow> json \<Rightarrow> file_patch list \<Rightarrow> string \<Rightarrow> json option \<Rightarrow> json" where
  "canonical_patch_request rb expected_head expected parsed message artifact =
     JObj ([(''tool_name'', JStr ''apply_github_patch''), (''repository'', JStr (rp_repository rb)),
       (''branch'', JStr (rp_branch rb)), (''expected_head_sha'', JStr expected_head),
       (''commit_message'', JStr message),
       (''files'', JList (map (\<lambda>(path, kind, hunks).
          JObj [(''path'', JStr path), (''operation'', JStr (operation_text kind)),
            (''expected_blob_sha'', json_field path (JStr []) expected),
            (''hunks'', JList (map hunk_json hunks))]) (sort_key fst parsed)))] @
       (case artifact of None \<Rightarrow> [] | Some a \<Rightarrow> if json_truthy a then [(''patch_artifact'', a)] else []))"

text \<open>The text that \<open>_apply_file_patch\<close> starts from; empty bytes are not decoded.\<close>

definition patch_source :: "blob \<Rightarrow> patch_error + string" where
  "patch_source b = (if blob_size b = 0 then Inr [] else blob_text b)"

definition apply_to_blob :: "blob \<Rightarrow> hunk list \<Rightarrow> bool \<Rightarrow> string \<Rightarrow> patch_error + string" where
  "apply_to_blob b hunks allow_empty path =
     (case patch_source b of Inl e \<Rightarrow> Inl e | Inr old \<Rightarrow> apply_file_patch old hunks allow_empty path)"

definition read_for_patch ::
  "github \<Rightarrow> repo_branch \<Rightarrow> string \<Rightarrow> json \<Rightarrow> string \<Rightarrow> patch_op \<Rightarrow> patch_error + blob \<times> string option" where
  "read_for_patch g rb head expected path kind =
     (if kind = OpAdd then
        (case gh_contents g path head of
           Answer c \<Rightarrow> Inl (ToolError ''PATCH_TARGET_EXISTS''
             (JObj [(''path'', JStr path), (''error_code'', JStr ''FILE_ALREADY_EXISTS'')]))
         | NotFound \<Rightarrow> Inr (TextBlob [], None)
         | Failed \<Rightarrow> Inl (ToolError ''GITHUB_READ_FAILED'' (JObj [(''path'', JStr path), (''retryable'', JBool True)])))
      else (case read_blob g path head of
        Inl e \<Rightarrow> Inl e
      | Inr (b, sha, commit) \<Rightarrow>
          if blob_size b > max_text_edit_bytes then Inl (too_large path)
          else if json_truthy (json_field path JNull expected) \<and> json_field path JNull expected \<noteq> JStr sha
          then Inl (ToolError ''BLOB_CHANGED'' (JObj [(''expected'', json_field path JNull expected),
            (''actual'', JStr sha), (''repository'', JStr (rp_repository rb)), (''branch'', JStr (rp_branch rb)),
            (''path'', JStr path)]))
          else Inr (b, Some sha)))"

text \<open>The new text of a patched file, \<open>None\<close> when it is deleted.\<close>

definition patched_text :: "blob \<Rightarrow> file_patch \<Rightarrow> patch_error + string option" where
  "patched_text b p =
     (case p of (path, kind, hunks) \<Rightarrow>
        if kind = OpDelete then
          (if hunks \<noteq> []
           then (case apply_to_blob b hunks (blob_size b = 0) path of
               Inl e \<Rightarrow> Inl e
             | Inr rest \<Rightarrow>
                 if rest \<noteq> [] then Inl (PatchInvalidFormat ''delete patch must remove all file content'')
                 else Inr None)
           else if blob_size b \<noteq> 0
           then Inl (PatchInvalidFormat ''metadata-only delete is valid only for an empty tracked file'')
           else Inr None)
        else map_sum id Some (apply_to_blob b hunks (kind = OpAdd) path))"

definition patch_preview :: "hashing \<Rightarrow> file_patch \<Rightarrow> string option \<Rightarrow> string option \<Rightarrow> json" where
  "patch_preview K p old_sha new =
     (case p of (path, kind, hunks) \<Rightarrow>
        JObj [(''path'', JStr path), (''operation'', JStr (operation_text kind)), (''old_blob_sha'', json_opt old_sha),
          (''new_blob_sha'', json_opt (map_option (git_blob_sha K) new)),
          (''new_content_sha256'', json_opt (map_option (sha256 K) new)),
          (''added_lines'', JInt (int (sum_list (map (\<lambda>(os, ns, old, new). length new) hunks)))),
          (''deleted_lines'', JInt (int (sum_list (map (\<lambda>(os, ns, old, new). length old) hunks))))])"

text \<open>The changes by path, a later patch of the same path replacing an earlier one, and the previews.\<close>

fun patch_changes ::
  "hashing \<Rightarrow> github \<Rightarrow> repo_branch \<Rightarrow> string \<Rightarrow> json \<Rightarrow> file_patch list \<Rightarrow> changes \<Rightarrow>
   patch_error + changes \<times> json list" where
  "patch_changes K g rb head expected [] changed = Inr (changed, [])"
| "patch_changes K g rb head expected (p # ps) changed =
     (case read_for_patch g rb head expected (fst p) (fst (snd p)) of
        Inl e \<Rightarrow> Inl e
      | Inr (b, old_sha) \<Rightarrow>
          (case patched_text b p of
             Inl e \<Rightarrow> Inl e
           | Inr new \<Rightarrow>
               map_sum id (\<lambda>(ch, previews). (ch, patch_preview K p old_sha new # previews))
                 (patch_changes K g rb head expected ps (AList.update (fst p) new changed))))"

definition normalized_json :: "normalized_hunk \<Rightarrow> json" where
  "normalized_json h = JObj [(''path'', JStr (nh_path h)), (''hunk_index'', JInt (int (nh_index h))),
     (''original'', JStr (nh_original h)), (''normalized'', JStr (nh_normalized h))]"

definition normalization_warning :: "normalized_hunk \<Rightarrow> json" where
  "normalization_warning h = JObj [(''path'', JStr (nh_path h)), (''hunk_index'', JInt (int (nh_index h))),
     (''message'', JStr ''hunk line counts were corrected from parsed content'')]"

definition patch_result ::
  "hashing \<Rightarrow> repo_branch \<Rightarrow> bool \<Rightarrow> string \<Rightarrow> string \<Rightarrow> json \<Rightarrow> json list \<Rightarrow> normalized_hunk list \<Rightarrow>
   json option \<Rightarrow> audit_context \<Rightarrow> json" where
  "patch_result K rb dry_run expected_head patch request previews ns artifact audit =
     (let (preview, truncated) = truncate_utf8 patch max_inline_bytes;
          base = JObj [(''ok'', JBool True), (''dry_run'', JBool dry_run), (''repository'', JStr (rp_repository rb)),
            (''branch'', JStr (rp_branch rb)), (''expected_head_sha'', JStr expected_head),
            (''changed_files'', JList previews), (''diff_preview'', JStr preview), (''diff_truncated'', JBool truncated),
            (''operation_fingerprint'', JStr (fingerprint K request)), (''patch_normalized'', JBool (patch_normalized ns)),
            (''normalized_hunks'', JList (map normalized_json ns)),
            (''normalization_warnings'', JList (map normalization_warning (filter nh_corrected ns)))]
      in case artifact of
           None \<Rightarrow> base
         | Some a \<Rightarrow>
             if json_truthy a
             then json_update base (json_fields a @
               (if au_workspace_id audit = [] then []
                else [(''workspace_id'', JStr (au_workspace_id audit)),
                      (''workspace_revision'', JInt (au_workspace_revision audit))]))
             else base)"

definition patch_request ::
  "repo_branch \<Rightarrow> string \<Rightarrow> json \<Rightarrow> file_patch list \<Rightarrow> string \<Rightarrow> json option \<Rightarrow> bool \<Rightarrow> audit_context \<Rightarrow> json" where
  "patch_request rb expected_head expected parsed message artifact dry_run audit =
     (let request = canonical_patch_request rb expected_head expected parsed message artifact in
      case artifact of
        None \<Rightarrow> request
      | Some a \<Rightarrow>
          if json_truthy a
          then json_update request [(''dry_run'', JBool dry_run), (''workspace_id'', JStr (au_workspace_id audit)),
            (''expected_workspace_revision'', JInt (au_workspace_revision audit))]
          else request)"

definition apply_patch ::
  "hashing \<Rightarrow> github \<Rightarrow> repo_branch \<Rightarrow> string \<Rightarrow> json option \<Rightarrow> string \<Rightarrow> string \<Rightarrow> bool \<Rightarrow> string \<Rightarrow>
   audit_context \<Rightarrow> json option \<Rightarrow> string \<Rightarrow> time \<Rightarrow> time \<Rightarrow> journal \<Rightarrow> tool_run" where
  "apply_patch K g rb expected_head expected_json patch message dry_run key audit artifact i t0 t1 db =
     (case parse_patch_details patch of
        Inl e \<Rightarrow> (Inl e, [], db)
      | Inr (parsed, ns) \<Rightarrow>
     (case expected_json of
        Some (JObj expected_fields) \<Rightarrow>
          (let expected = JObj expected_fields;
               request = patch_request rb expected_head expected parsed message artifact dry_run audit in
           case begin_operation K dry_run ''apply_github_patch'' key request audit i t0 db of
             (Inl e, db1) \<Rightarrow> (Inl e, [], db1)
           | (Inr (op, Some replay), db1) \<Rightarrow> (Inr replay, [], db1)
           | (Inr (op, None), db1) \<Rightarrow>
          (case resolve_commit g (rp_branch rb) of
             Inl e \<Rightarrow> (Inl e, [], db1)
           | Inr head \<Rightarrow>
               if expected_head \<noteq> [] \<and> head \<noteq> expected_head
               then (Inl (head_changed rb expected_head head), [],
                     idempotent_finish op ''failed'' JNull (Some ''HEAD_CHANGED'') None t1 db1)
               else (case patch_changes K g rb head expected parsed [] of
                 Inl e \<Rightarrow> (Inl e, [], db1)
               | Inr (changed, previews) \<Rightarrow>
                   (let result = patch_result K rb dry_run expected_head patch request previews ns artifact audit in
                    if dry_run then (Inr result, [], db1)
                    else commit_stage K g rb expected_head changed expected message op result t1 db1))))
      | Some other \<Rightarrow> (Inl (PatchInvalidFormat ''expected_blob_shas_json must be an object''), [], db)
      | None \<Rightarrow> (Inl (PatchInvalidFormat ''expected_blob_shas_json must be valid JSON''), [], db)))"

section \<open>Editing line ranges\<close>

definition item_path :: "json \<Rightarrow> string option" where
  "item_path item = (case json_get ''path'' item of Some (JStr p) \<Rightarrow> Some p | _ \<Rightarrow> None)"

text \<open>\<open>sorted({item["path"] for item in operations})\<close>\<close>

definition edit_paths :: "json list \<Rightarrow> string list" where
  "edit_paths items = sort (remdups (List.map_filter item_path items))"

definition items_of :: "string \<Rightarrow> json list \<Rightarrow> json list" where
  "items_of path items = filter (\<lambda>item. item_path item = Some path) items"

text \<open>The expected blob ids that are set and are not the id read.\<close>

definition blob_expectations :: "json list \<Rightarrow> json list" where
  "blob_expectations items = filter json_truthy (map (json_field ''expected_blob_sha'' JNull) items)"

definition expectation_text :: "json \<Rightarrow> string" where
  "expectation_text v = (case v of JStr s \<Rightarrow> s | _ \<Rightarrow> [])"

text \<open>One file: its blob id, its old text and its new one.\<close>

definition edit_path ::
  "hashing \<Rightarrow> github \<Rightarrow> string \<Rightarrow> json list \<Rightarrow> string \<Rightarrow> patch_error + string \<times> string \<times> string" where
  "edit_path K g head items path =
     (case read_blob g path head of
        Inl e \<Rightarrow> Inl e
      | Inr (b, sha, commit) \<Rightarrow>
          if blob_size b > max_text_edit_bytes then Inl (too_large path)
          else (let mine = items_of path items; expectations = blob_expectations mine in
            if list_ex (\<lambda>v. v \<noteq> JStr sha) expectations
            then Inl (ToolError ''BLOB_CHANGED'' (JObj [(''path'', JStr path),
              (''expected'', JStr (hd (sort (map expectation_text expectations)))), (''actual'', JStr sha)]))
            else (case blob_text b of
                Inl e \<Rightarrow> Inl e
              | Inr old \<Rightarrow> map_sum id (\<lambda>new. (sha, old, new)) (edit_file (sha256 K) old mine))))"

fun edit_all ::
  "hashing \<Rightarrow> github \<Rightarrow> string \<Rightarrow> json list \<Rightarrow> string list \<Rightarrow>
   patch_error + (string \<times> string \<times> string \<times> string) list" where
  "edit_all K g head items [] = Inr []"
| "edit_all K g head items (path # paths) =
     (case edit_path K g head items path of
        Inl e \<Rightarrow> Inl e
      | Inr f \<Rightarrow> map_sum id ((#) (path, f)) (edit_all K g head items paths))"

text \<open>The diffs of the changed files and their counts.\<close>

fun edit_diffs ::
  "(string \<times> string \<times> string \<times> string) list \<Rightarrow> patch_error + (string \<times> nat \<times> nat) list" where
  "edit_diffs [] = Inr []"
| "edit_diffs ((path, sha, old, new) # fs) =
     (case minimal_unified_diff path old new 3 ''modify'' of
        Inl e \<Rightarrow> Inl e
      | Inr d \<Rightarrow> map_sum id ((#) d) (edit_diffs fs))"

definition changed_file_json :: "hashing \<Rightarrow> string \<times> string \<times> string \<times> string \<Rightarrow> string \<times> nat \<times> nat \<Rightarrow> json" where
  "changed_file_json K = (\<lambda>(path, sha, old, new) (diff, added, deleted).
     JObj [(''path'', JStr path), (''operation'', JStr ''modify''), (''old_blob_sha'', JStr sha),
       (''new_blob_sha'', JStr (git_blob_sha K new)), (''content_sha256'', JStr (sha256 K new)),
       (''size_bytes'', JInt (int (text_bytes new))), (''added_lines'', JInt (int added)),
       (''deleted_lines'', JInt (int deleted))])"

definition edit_request :: "repo_branch \<Rightarrow> string \<Rightarrow> json list \<Rightarrow> string \<Rightarrow> json" where
  "edit_request rb expected_head items message =
     JObj [(''tool_name'', JStr ''edit_github_file_ranges''), (''repository'', JStr (rp_repository rb)),
       (''branch'', JStr (rp_branch rb)), (''expected_head_sha'', JStr expected_head),
       (''operations'', JList items), (''commit_message'', JStr message)]"

definition edit_result ::
  "hashing \<Rightarrow> repo_branch \<Rightarrow> bool \<Rightarrow> string \<Rightarrow> string \<Rightarrow> json list \<Rightarrow> string \<Rightarrow>
   (string \<times> string \<times> string \<times> string) list \<Rightarrow> (string \<times> nat \<times> nat) list \<Rightarrow> json" where
  "edit_result K rb dry_run expected_head head items message files file_diffs =
     (let (preview, truncated) = truncate_utf8 (concat (map fst file_diffs)) max_inline_bytes in
      JObj [(''ok'', JBool True), (''dry_run'', JBool dry_run), (''repository'', JStr (rp_repository rb)),
        (''branch'', JStr (rp_branch rb)), (''expected_head_sha'', JStr expected_head),
        (''resolved_head_sha'', JStr head),
        (''changed_files'', JList (map2 (changed_file_json K) files file_diffs)),
        (''new_content_sha256'', JObj (map (\<lambda>(path, sha, old, new). (path, JStr (sha256 K new))) files)),
        (''diff_preview'', JStr preview), (''diff_truncated'', JBool truncated),
        (''operation_count'', JInt (int (length items))),
        (''operation_fingerprint'', JStr (fingerprint K (edit_request rb expected_head items message)))])"

definition edit_ranges ::
  "hashing \<Rightarrow> github \<Rightarrow> repo_branch \<Rightarrow> string \<Rightarrow> json option \<Rightarrow> string \<Rightarrow> bool \<Rightarrow> string \<Rightarrow>
   audit_context \<Rightarrow> string \<Rightarrow> time \<Rightarrow> time \<Rightarrow> journal \<Rightarrow> tool_run" where
  "edit_ranges K g rb expected_head operations message dry_run key audit i t0 t1 db =
     (case operations of
        None \<Rightarrow> (Inl (PatchInvalidFormat ''operations_json must be valid JSON''), [], db)
      | Some (JList items) \<Rightarrow>
          if items = [] then (Inl PatchEmpty, [], db)
          else if length items > max_edit_operations then (Inl PatchScopeExceeded, [], db)
          else (case begin_operation K dry_run ''edit_github_file_ranges'' key
                  (edit_request rb expected_head items message) audit i t0 db of
              (Inl e, db1) \<Rightarrow> (Inl e, [], db1)
            | (Inr (op, Some replay), db1) \<Rightarrow> (Inr replay, [], db1)
            | (Inr (op, None), db1) \<Rightarrow>
           (case resolve_commit g (rp_branch rb) of
              Inl e \<Rightarrow> (Inl e, [], db1)
            | Inr head \<Rightarrow>
                if expected_head \<noteq> [] \<and> head \<noteq> expected_head
                then (Inl (head_changed rb expected_head head), [],
                      idempotent_finish op ''failed'' JNull (Some ''HEAD_CHANGED'') None t1 db1)
                else if list_ex (\<lambda>item. item_path item = None) items
                then (Inl (PatchInvalidFormat ''every operation must contain a path''), [], db1)
                else (case edit_all K g head items (edit_paths items) of
                  Inl e \<Rightarrow> (Inl e, [], db1)
                | Inr files \<Rightarrow>
                    (case edit_diffs files of
                       Inl e \<Rightarrow> (Inl e, [], db1)
                     | Inr file_diffs \<Rightarrow>
                         (let result = edit_result K rb dry_run expected_head head items message files file_diffs in
                          if dry_run then (Inr result, [], db1)
                          else commit_stage K g rb expected_head
                            (map (\<lambda>(path, sha, old, new). (path, Some new)) files)
                            (JObj (map (\<lambda>(path, sha, old, new). (path, JStr sha)) files))
                            message op result t1 db1)))))
      | Some other \<Rightarrow> (Inl PatchEmpty, [], db))"

section \<open>Replacing a text that occurs once\<close>

definition replace_request ::
  "hashing \<Rightarrow> repo_branch \<Rightarrow> string \<Rightarrow> string \<Rightarrow> string \<Rightarrow> string \<Rightarrow> string \<Rightarrow> string \<Rightarrow> json" where
  "replace_request K rb expected_head path expected_blob old new message =
     JObj [(''tool_name'', JStr ''replace_github_text_once''), (''repository'', JStr (rp_repository rb)),
       (''branch'', JStr (rp_branch rb)), (''expected_head_sha'', JStr expected_head), (''path'', JStr path),
       (''expected_blob_sha'', JStr expected_blob), (''old_text_sha256'', JStr (sha256 K old)),
       (''new_text_sha256'', JStr (sha256 K new)), (''old_text_size_bytes'', JInt (int (text_bytes old))),
       (''new_text_size_bytes'', JInt (int (text_bytes new))), (''expected_match_count'', JInt 1),
       (''commit_message'', JStr message)]"

definition replace_result ::
  "hashing \<Rightarrow> repo_branch \<Rightarrow> bool \<Rightarrow> string \<Rightarrow> string \<Rightarrow> string \<Rightarrow> nat \<Rightarrow> string \<Rightarrow> string \<Rightarrow>
   string \<times> nat \<times> nat \<Rightarrow> string \<Rightarrow> json" where
  "replace_result K rb dry_run expected_head head path start_line sha changed_text diff print =
     (let (preview, truncated) = truncate_utf8 (fst diff) max_inline_bytes in
      JObj [(''ok'', JBool True), (''dry_run'', JBool dry_run), (''repository'', JStr (rp_repository rb)),
        (''branch'', JStr (rp_branch rb)), (''expected_head_sha'', JStr expected_head),
        (''resolved_head_sha'', JStr head), (''path'', JStr path), (''expected_match_count'', JInt 1),
        (''exact_match_count'', JInt 1), (''match_start_line'', JInt (int start_line)),
        (''changed_files'', JList [changed_file_json K (path, sha, [], changed_text) diff]),
        (''diff_preview'', JStr preview), (''diff_truncated'', JBool truncated),
        (''operation_fingerprint'', JStr print)])"

text \<open>The part inside the \<open>try\<close> up to the commit; \<open>None\<close> when the search does not end.\<close>

definition replace_plan ::
  "hashing \<Rightarrow> github \<Rightarrow> repo_branch \<Rightarrow> string \<Rightarrow> string \<Rightarrow> string \<Rightarrow> string \<Rightarrow> string \<Rightarrow>
   (patch_error + string \<times> string \<times> nat \<times> string \<times> (string \<times> nat \<times> nat)) option" where
  "replace_plan K g rb expected_head path expected_blob old new =
     (case resolve_commit g (rp_branch rb) of
        Inl e \<Rightarrow> Some (Inl e)
      | Inr head \<Rightarrow>
          if expected_head \<noteq> [] \<and> head \<noteq> expected_head then Some (Inl (head_changed rb expected_head head))
          else (case read_blob g path head of
            Inl e \<Rightarrow> Some (Inl e)
          | Inr (b, sha, commit) \<Rightarrow>
              if blob_size b > max_text_edit_bytes then Some (Inl (too_large path))
              else if sha \<noteq> expected_blob
              then Some (Inl (ToolError ''BLOB_CHANGED'' (JObj [(''path'', JStr path),
                (''expected'', JStr expected_blob), (''actual'', JStr sha)])))
              else (case blob_text b of
                Inl e \<Rightarrow> Some (Inl e)
              | Inr content \<Rightarrow>
                  map_option (\<lambda>r. case r of
                    Inl (PatchTextMismatch n) \<Rightarrow>
                      Inl (ToolError ''PATCH_TEXT_MISMATCH'' (JObj [(''path'', JStr path),
                        (''expected_match_count'', JInt 1), (''exact_match_count'', JInt (int n)),
                        (''old_text_sha256'', JStr (sha256 K old))]))
                  | Inl e \<Rightarrow> Inl e
                  | Inr (line, changed_text) \<Rightarrow>
                      map_sum id (\<lambda>d. (head, sha, line, changed_text, d))
                        (minimal_unified_diff path content changed_text 3 ''modify''))
                  (replace_once content old new))))"

definition replace_failed :: "string \<Rightarrow> patch_error \<Rightarrow> time \<Rightarrow> journal \<Rightarrow> journal" where
  "replace_failed op e t1 db =
     (if op = [] \<or> e = ClientFailure then db
      else idempotent_finish op ''failed'' JNull (Some (error_code e)) (Some (JObj [error_entry e])) t1 db)"

definition replace_arguments :: "string \<Rightarrow> string \<Rightarrow> string \<Rightarrow> string \<Rightarrow> string \<Rightarrow> json \<Rightarrow> patch_error option" where
  "replace_arguments path expected_head expected_blob old new match_count =
     (if \<not> safe_path path then Some PatchUnsafePath
      else if \<not> is_sha expected_head
      then Some (PatchInvalidFormat ''expected_head_sha must be a full lowercase Git commit SHA'')
      else if old = [] then Some (PatchInvalidFormat ''old_text must not be empty'')
      else if old = new then Some PatchEmpty
      else if match_count \<noteq> JInt 1 then Some (PatchInvalidFormat ''expected_match_count must be exactly 1'')
      else if \<not> is_sha expected_blob
      then Some (PatchInvalidFormat ''expected_blob_sha must be a full lowercase Git blob SHA'')
      else None)"

definition replace_text_once ::
  "hashing \<Rightarrow> github \<Rightarrow> repo_branch \<Rightarrow> string \<Rightarrow> string \<Rightarrow> string \<Rightarrow> string \<Rightarrow> string \<Rightarrow> string \<Rightarrow>
   json \<Rightarrow> bool \<Rightarrow> string \<Rightarrow> audit_context \<Rightarrow> string \<Rightarrow> time \<Rightarrow> time \<Rightarrow> journal \<Rightarrow> tool_run option" where
  "replace_text_once K g rb expected_head path expected_blob old new message match_count dry_run key audit i t0 t1 db =
     (case replace_arguments path expected_head expected_blob old new match_count of
        Some e \<Rightarrow> Some (Inl e, [], db)
      | None \<Rightarrow>
          (let request = replace_request K rb expected_head path expected_blob old new message in
           case begin_operation K dry_run ''replace_github_text_once'' key request audit i t0 db of
             (Inl e, db1) \<Rightarrow> Some (Inl e, [], db1)
           | (Inr (op, Some replay), db1) \<Rightarrow> Some (Inr replay, [], db1)
           | (Inr (op, None), db1) \<Rightarrow>
               map_option (\<lambda>plan.
                 case plan of
                   Inl e \<Rightarrow> (Inl e, [], replace_failed op e t1 db1)
                 | Inr (head, sha, line, changed_text, diff) \<Rightarrow>
                     (let result = replace_result K rb dry_run expected_head head path line sha changed_text diff
                            (fingerprint K request) in
                      if dry_run then (Inr result, [], db1)
                      else (case commit_files (sha256 K) g rb expected_head [(path, Some changed_text)]
                              (JObj [(path, JStr sha)]) message [] of
                          (Inl e, ws) \<Rightarrow> (Inl e, ws, replace_failed op e t1 db1)
                        | (Inr committed_fields, ws) \<Rightarrow>
                            (let r = json_update result committed_fields in
                             (Inr (json_put ''_operation_id'' (JStr op) r), ws,
                              idempotent_mark_git_verified op r t1 db1)))))
                 (replace_plan K g rb expected_head path expected_blob old new)))"

end
