(* ===== verification/Text_Edit_Facts.thy ===== *)
theory Text_Edit_Facts
  imports Text_Edits "HOL-Library.Multiset"
begin

text \<open>
  Accepted range edits are disjoint, and applying them from the last to the first gives the text
  with all of them done at once; the search of \<open>replace_text_once\<close> ends and finds every match.
\<close>

section \<open>Edits at once\<close>

definition replacement_lines :: "json \<Rightarrow> string list" where
  "replacement_lines item = (case replacement_of item of Some r \<Rightarrow> if r = [] then [] else [r] | None \<Rightarrow> [])"

text \<open>The lines with every range replaced, read from the front.\<close>

fun assemble :: "string list \<Rightarrow> nat \<Rightarrow> position list \<Rightarrow> string list" where
  "assemble lines c [] = drop c lines"
| "assemble lines c ((i, k, item) # ps) = segment lines c i @ replacement_lines item @ assemble lines k ps"

fun disjoint_from :: "nat \<Rightarrow> nat \<Rightarrow> position list \<Rightarrow> bool" where
  "disjoint_from n c [] \<longleftrightarrow> c \<le> n"
| "disjoint_from n c ((i, k, item) # ps) \<longleftrightarrow> c \<le> i \<and> i \<le> k \<and> disjoint_from n k ps"

lemma disjoint_from_le: "disjoint_from n c ps \<Longrightarrow> c \<le> n"
proof (induction ps arbitrary: c)
  case (Cons p ps)
  then show ?case by (cases p) fastforce
qed simp

lemma apply_positions_append:
  "apply_positions (ps @ qs) lines =
     (case apply_positions ps lines of Inl e \<Rightarrow> Inl e | Inr l \<Rightarrow> apply_positions qs l)"
  by (induction ps lines rule: apply_positions.induct) (auto split: option.splits)

lemma apply_positions_assemble:
  assumes "disjoint_from (length lines) c ps" and "list_all (\<lambda>(i, k, item). replacement_of item \<noteq> None) ps"
  shows "\<exists>l. apply_positions (rev ps) lines = Inr l \<and> take c l = take c lines \<and>
    drop c l = assemble lines c ps \<and> c \<le> length l"
  using assms
proof (induction ps arbitrary: c)
  case (Cons p ps)
  obtain i k item where p: "p = (i, k, item)" by (cases p)
  from Cons.prems obtain r where o: "c \<le> i" "i \<le> k" "disjoint_from (length lines) k ps"
    and r: "replacement_of item = Some r" by (auto simp: p)
  from Cons.IH [OF o(3)] Cons.prems obtain l where l: "apply_positions (rev ps) lines = Inr l"
    "take k l = take k lines" "drop k l = assemble lines k ps" "k \<le> length l" by (auto simp: p)
  let ?l = "splice l i k (replacement_lines item)"
  have pre: "take m l = take m lines" if "m \<le> k" for m
    using arg_cong [OF l(2), of "take m"] that by simp
  have seg: "segment l c i = segment lines c i"
    using pre [OF o(2)] by (metis drop_take segment_def)
  have "apply_positions (rev (p # ps)) lines = Inr ?l"
    using l(1) r by (simp add: p apply_positions_append replacement_lines_def)
  moreover have "take c ?l = take c lines" using o l(4) pre [of c] by (simp add: splice_take)
  moreover have "drop c ?l = assemble lines c (p # ps)"
    using o l seg by (simp add: p splice_drop)
  moreover have "c \<le> length ?l" using o l(4) splice_length [of i l k] by (meson le_trans)
  ultimately show ?case by blast
qed simp

lemma apply_positions_replacements:
  "apply_positions ps lines = Inr l \<Longrightarrow> list_all (\<lambda>(i, k, item). replacement_of item \<noteq> None) ps"
  by (induction ps lines rule: apply_positions.induct) (auto split: option.splits)

section \<open>Accepted ranges are disjoint\<close>

definition in_file :: "nat \<Rightarrow> position \<Rightarrow> bool" where
  "in_file n = (\<lambda>(i, k, item). i \<le> k \<and> k \<le> n)"

lemma no_conflict_step:
  assumes "\<not> range_conflict p q" and "position_key p \<le> position_key q" and "in_file n p" "in_file n q"
  shows "fst (snd p) \<le> fst q" "position_key p < position_key q"
proof -
  obtain pi pk pj where p: "p = (pi, pk, pj)" by (cases p)
  obtain qi qk qj where q: "q = (qi, qk, qj)" by (cases q)
  show "fst (snd p) \<le> fst q" "position_key p < position_key q"
    using assms by (auto simp: p q range_conflict_def position_key_def in_file_def less_prod_def less_eq_prod_def)
qed

lemma no_conflict_disjoint:
  assumes "sorted (map position_key ps)" and "\<not> any_conflict ps" and "list_all (in_file n) ps"
    and "ps \<noteq> [] \<Longrightarrow> c \<le> fst (hd ps)" and "c \<le> n"
  shows "disjoint_from n c ps"
  using assms
proof (induction ps arbitrary: c rule: any_conflict.induct)
  case (1 p q ps)
  obtain i k item where p: "p = (i, k, item)" by (cases p)
  have step: "k \<le> fst q" using 1 no_conflict_step(1) [of p q n] by (auto simp: p)
  have "disjoint_from n k (q # ps)"
    using 1 step by (intro "1.IH") (auto simp: p in_file_def)
  with 1 show ?case by (auto simp: p in_file_def)
qed (auto simp: in_file_def split: prod.splits)

lemma no_conflict_strict:
  assumes "sorted (map position_key ps)" and "\<not> any_conflict ps" and "list_all (in_file n) ps"
  shows "sorted_wrt (<) (map position_key ps)"
  using assms
proof (induction ps rule: any_conflict.induct)
  case (1 p q ps)
  then have "sorted_wrt (<) (map position_key (q # ps))" by auto
  moreover have "position_key p < position_key q" using 1 no_conflict_step(2) [of p q n] by auto
  ultimately show ?case by (auto dest: order.strict_trans)
qed auto

lemma sorted_reverse_eq:
  assumes "\<not> any_conflict (sort_key position_key ps)" and "list_all (in_file n) ps"
  shows "sorted_reverse ps = rev (sort_key position_key ps)"
proof -
  have "sorted_wrt (<) (map position_key (sort_key position_key ps))"
    using assms(2) by (intro no_conflict_strict [OF _ assms(1), of n]) (simp_all add: list_all_iff)
  then have "distinct (map position_key (sort_key position_key ps))"
    by (simp add: strict_sorted_iff)
  then have "inj_on position_key (set ps)" by (simp add: distinct_map)
  then have "sort_key position_key (rev ps) = sort_key position_key ps"
    by (intro sort_key_eq_sort_key) simp_all
  then show ?thesis by (simp add: sorted_reverse_def)
qed

text \<open>An accepted position lies in the file; a replacement or deletion stands on its old text.\<close>

lemma range_position_in_file:
  assumes "range_position H lines item = Inr p"
  shows "in_file (length lines) p \<and> snd (snd p) = item"
  using assms
  by (auto simp: range_position_def range_inside_def in_file_def Let_def
      split: option.splits range_kind.splits if_splits)

lemma range_positions_in_file:
  "range_positions H lines items = Inr ps \<Longrightarrow> list_all (in_file (length lines)) ps \<and> map (snd \<circ> snd) ps = items"
proof (induction items arbitrary: ps)
  case (Cons item items)
  then obtain p qs where "range_position H lines item = Inr p" "range_positions H lines items = Inr qs"
    "ps = p # qs"
    by (cases "range_positions H lines items") (auto split: sum.splits)
  with Cons.IH range_position_in_file show ?case by fastforce
qed simp

lemma edit_file_cases:
  "edit_file H content items = Inr out \<longleftrightarrow>
     (\<exists>ps. range_positions H (splitlines content) items = Inr ps \<and>
       \<not> any_conflict (sort_key position_key ps) \<and> list_all (\<lambda>item. replacement_of item \<noteq> None) items \<and>
       disjoint_from (length (splitlines content)) 0 (sort_key position_key ps) \<and>
       out = concat (assemble (splitlines content) 0 (sort_key position_key ps)))"
proof (cases "range_positions H (splitlines content) items")
  case (Inl e)
  then show ?thesis by (simp add: edit_file_def)
next
  case (Inr ps)
  let ?lines = "splitlines content" and ?qs = "sort_key position_key ps"
  note p = range_positions_in_file [OF Inr]
  show ?thesis
  proof (cases "any_conflict ?qs")
    case True
    with Inr show ?thesis by (simp add: edit_file_def)
  next
    case False
    have d: "disjoint_from (length ?lines) 0 ?qs"
      using p by (intro no_conflict_disjoint [OF _ False]) (simp_all add: list_all_iff)
    have r: "list_all (\<lambda>item. replacement_of item \<noteq> None) items \<longleftrightarrow>
        list_all (\<lambda>(i, k, item). replacement_of item \<noteq> None) ?qs"
      using p by (fastforce simp: list_all_iff case_prod_unfold)
    have e: "edit_file H content items = map_sum id concat (apply_positions (rev ?qs) ?lines)"
      using Inr False sorted_reverse_eq [OF False conjunct1 [OF p]] by (simp add: edit_file_def)
    show ?thesis
    proof (cases "list_all (\<lambda>(i, k, item). replacement_of item \<noteq> None) ?qs")
      case True
      obtain l where l: "apply_positions (rev ?qs) ?lines = Inr l" "drop 0 l = assemble ?lines 0 ?qs"
        using apply_positions_assemble [OF d True] by blast
      then have "edit_file H content items = Inr (concat (assemble ?lines 0 ?qs))" using e by simp
      moreover have "list_all (\<lambda>item. replacement_of item \<noteq> None) items" using r True by blast
      ultimately show ?thesis using Inr False d by auto
    next
      case unset: False
      then have "\<nexists>l. apply_positions (rev ?qs) ?lines = Inr l"
        using apply_positions_replacements [of "rev ?qs" ?lines] by (fastforce simp: list_all_iff case_prod_unfold)
      then obtain x where "apply_positions (rev ?qs) ?lines = Inl x"
        by (cases "apply_positions (rev ?qs) ?lines") auto
      then have "edit_file H content items = Inl x" using e by simp
      moreover have "\<not> list_all (\<lambda>item. replacement_of item \<noteq> None) items" using r unset by blast
      ultimately show ?thesis by simp
    qed
  qed
qed

section \<open>The search\<close>

lemma filter_upt_find:
  assumes "find P [i..<n] = Some k"
  shows "filter P [i..<n] = k # filter P [Suc k..<n]" "i \<le> k" "k < n"
proof -
  from assms obtain m where m: "m < n - i" "k = i + m" "P k" "\<forall>j < m. \<not> P (i + j)"
    by (auto simp: find_Some_iff)
  then show k: "i \<le> k" "k < n" by auto
  have "[i..<k + (n - k)] = [i..<k] @ [k..<k + (n - k)]" by (rule upt_add_eq_append) (rule k)
  then have "[i..<n] = [i..<k] @ k # [Suc k..<n]" using k by (simp add: upt_conv_Cons)
  moreover have "filter P [i..<k] = []"
    using m(2,4) by (auto simp: filter_empty_conv) (metis add_diff_inverse_nat linorder_not_less nat_add_left_cancel_less)
  ultimately show "filter P [i..<n] = k # filter P [Suc k..<n]" using m(3) by simp
qed

lemma distinct_single: "distinct xs \<Longrightarrow> set xs = {k} \<Longrightarrow> xs = [k]"
  by (cases xs; cases "tl xs") auto

definition occurrences :: "string \<Rightarrow> string \<Rightarrow> nat \<Rightarrow> nat list" where
  "occurrences old s i = filter (\<lambda>k. starts_with old (drop k s)) [i..<Suc (length s - length old)]"

lemma match_offsets_all: "match_offsets s old i acc = Some (acc @ occurrences old s i)"
proof (induction "Suc (length s - length old) - i" arbitrary: i acc rule: less_induct)
  case less
  show ?case
  proof (cases "find_from s old i")
    case None
    then have "occurrences old s i = []"
      by (auto simp: find_from_def occurrences_def find_None_iff filter_empty_conv)
    with None show ?thesis by (subst match_offsets.simps) simp
  next
    case (Some k)
    note f = filter_upt_find [OF Some [unfolded find_from_def]]
    have "match_offsets s old (k + 1) (acc @ [k]) = Some ((acc @ [k]) @ occurrences old s (k + 1))"
      using f(2,3) by (intro less) auto
    with Some f(1) show ?thesis by (subst match_offsets.simps) (simp add: occurrences_def)
  qed
qed

lemma starts_with_iff: "starts_with p s \<longleftrightarrow> (\<exists>t. s = p @ t)"
  by (metis append_eq_conv_conj append_take_drop_id starts_with_def)

lemma occurrences_iff: "k \<in> set (occurrences old s 0) \<longleftrightarrow> (\<exists>pre post. s = pre @ old @ post \<and> length pre = k)"
proof
  assume "k \<in> set (occurrences old s 0)"
  then obtain t where t: "drop k s = old @ t" "k \<le> length s - length old"
    by (auto simp: occurrences_def starts_with_iff simp del: upt_Suc)
  have "length old \<le> length s" using arg_cong [OF t(1), of length] by simp
  then have "length (take k s) = k" using t(2) by simp
  with t(1) show "\<exists>pre post. s = pre @ old @ post \<and> length pre = k"
    by (metis append_take_drop_id)
qed (auto simp: occurrences_def simp del: upt_Suc)

end
