(* ===== verification/Write_Facts.thy ===== *)
theory Write_Facts
  imports Write_Tools Text_Edit_Facts Journal_Facts
begin

text \<open>
  What the write tools send to GitHub: nothing before the checks of the head and of the expected
  blobs have passed, and only blobs of the changed texts, one commit on the checked head and one
  update of the branch.  Success is reported only after a confirmed reading back.
\<close>

lemma finish_no_operation [simp]: "idempotent_finish [] status c code r t db = db"
  by (simp add: idempotent_finish_def)

lemma begin_dry [simp]: "begin_operation K True tool key request audit i t0 db = (Inr ([], None), db)"
  by (simp add: begin_operation_def)

section \<open>The exact replacement returns\<close>

lemma replace_returns:
  "\<exists>run. replace_text_once K g rb h path blob old new m n dry key audit i t0 t1 db = Some run"
proof -
  have r: "\<exists>r. replace_once content old new = Some r" for content
    by (simp add: replace_once_def match_offsets_all)
  have "\<exists>plan. replace_plan K g rb h path blob old new = Some plan"
    using r by (auto simp: replace_plan_def split: sum.splits) 
  then obtain plan where p: "replace_plan K g rb h path blob old new = Some plan" by blast
  let ?b = "begin_operation K dry ''replace_github_text_once'' key
    (replace_request K rb h path blob old new m) audit i t0 db"
  have "replace_text_once K g rb h path blob old new m n dry key audit i t0 t1 db \<noteq> None"
  proof (cases "replace_arguments path h blob old new n")
    case None
    obtain x db1 where b: "?b = (x, db1)" by (cases ?b)
    show ?thesis
    proof (cases x)
      case (Inr y)
      then show ?thesis using None b p by (cases y; cases "snd y") (auto simp: replace_text_once_def Let_def)
    qed (use None b in \<open>simp add: replace_text_once_def Let_def\<close>)
  qed (simp add: replace_text_once_def)
  then show ?thesis by blast
qed

section \<open>Dry runs\<close>

lemma dry_apply_patch:
  "snd (apply_patch K g rb h e patch m True key audit artifact i t0 t1 db) = ([], db)"
  by (auto simp: apply_patch_def Let_def split: sum.splits option.splits json.splits prod.splits)

lemma dry_edit_ranges:
  "snd (edit_ranges K g rb h ops m True key audit i t0 t1 db) = ([], db)"
  by (auto simp: edit_ranges_def Let_def split: sum.splits option.splits json.splits prod.splits)

lemma dry_replace:
  assumes "replace_text_once K g rb h path blob old new m n True key audit i t0 t1 db = Some run"
  shows "snd run = ([], db)"
proof (cases "replace_arguments path h blob old new n")
  case None
  with assms obtain plan where "replace_plan K g rb h path blob old new = Some plan"
    by (auto simp: replace_text_once_def Let_def)
  with assms None show ?thesis
    by (cases plan) (auto simp: replace_text_once_def replace_failed_def Let_def)
qed (use assms in \<open>auto simp: replace_text_once_def\<close>)

section \<open>What the checks of a commit read\<close>

lemma lookup_in: "p \<in> fst ` set xs \<Longrightarrow> (p, lookup xs p) \<in> set xs"
  by (cases "map_of xs p") (auto simp: lookup_def map_of_eq_None_iff dest: map_of_SomeD)

lemma preflight_head:
  "preflight_file_write g rb expected_head paths expected = Inr (head, olds) \<Longrightarrow>
   gh_write_allowed g \<and> gh_ref g = Answer head \<and> (expected_head \<noteq> [] \<longrightarrow> head = expected_head) \<and>
   preflight_paths g rb head expected paths = Inr olds"
  by (auto simp: preflight_file_write_def map_sum_Inr split: answer.splits if_splits)

lemma preflight_paths_checked:
  "preflight_paths g rb head expected paths = Inr olds \<Longrightarrow> path \<in> set paths \<Longrightarrow>
   old_sha_at g rb path head = Inr (lookup olds path) \<and> \<not> blob_differs (json_get path expected) (lookup olds path) \<and>
   safe_path path"
proof (induction paths arbitrary: olds)
  case (Cons p paths)
  then show ?case by (cases "p = path") (auto simp: map_sum_Inr lookup_def split: if_splits sum.splits)
qed simp

lemma preflight_paths_keys: "preflight_paths g rb head expected paths = Inr olds \<Longrightarrow> map fst olds = paths"
  by (induction paths arbitrary: olds) (auto simp: map_sum_Inr split: if_splits sum.splits)

lemma read_file_modes_read:
  "read_file_modes g rb head olds = Inr ms \<Longrightarrow> path \<in> fst ` set olds \<Longrightarrow> gh_mode g path head = Answer (lookup ms path)"
proof (induction olds arbitrary: ms)
  case (Cons x olds)
  then show ?case
    by (cases x; cases "fst x = path") (auto simp: map_sum_Inr lookup_def split: if_splits answer.splits)
qed simp

section \<open>The requests of a commit\<close>

type_synonym commit_entry = "string \<times> tree_element \<times> string option \<times> string"

lemma set_dict_keys [simp]: "set (dict_keys xs) = set xs" "distinct (dict_keys xs)"
  by (simp_all add: dict_keys_def)

text \<open>Before the tree only blobs of changed texts are sent.\<close>

lemma path_element_writes:
  "path_element g changed modes expected olds old_modes path = (r, ws) \<Longrightarrow>
   ws = [] \<or> (\<exists>c. ws = [CreateBlob c] \<and> map_of changed path = Some (Some c))"
  by (auto simp: path_element_def Let_def split: if_splits option.splits answer.splits)

lemma path_elements_writes:
  "path_elements g changed modes expected olds old_modes paths = (r, ws) \<Longrightarrow> w \<in> set ws \<Longrightarrow>
   \<exists>c path. w = CreateBlob c \<and> map_of changed path = Some (Some c)"
proof (induction paths arbitrary: r ws)
  case (Cons path paths)
  obtain r1 ws1 where e: "path_element g changed modes expected olds old_modes path = (r1, ws1)"
    by (cases "path_element g changed modes expected olds old_modes path") auto
  obtain r2 ws2 where es: "path_elements g changed modes expected olds old_modes paths = (r2, ws2)"
    by (cases "path_elements g changed modes expected olds old_modes paths") auto
  from Cons.prems(1) e es have "ws = ws1 \<or> ws = ws1 @ ws2" by (auto split: sum.splits)
  with Cons.prems(2) have "w \<in> set ws1 \<or> w \<in> set ws2" by auto
  then show ?case
  proof
    assume "w \<in> set ws1"
    with path_element_writes [OF e] show ?case by (cases "ws1 = []") auto
  qed (rule Cons.IH [OF es])
qed simp

lemma path_elements_each:
  "path_elements g changed modes expected olds old_modes paths = (Inr entries, ws) \<Longrightarrow>
   map fst entries = paths \<and> (\<forall>(path, x) \<in> set entries.
     \<exists>ws'. path_element g changed modes expected olds old_modes path = (Inr x, ws') \<and> set ws' \<subseteq> set ws)"
proof (induction paths arbitrary: entries ws)
  case (Cons path paths)
  obtain r1 ws1 where e: "path_element g changed modes expected olds old_modes path = (r1, ws1)"
    by (cases "path_element g changed modes expected olds old_modes path") auto
  obtain r2 ws2 where es: "path_elements g changed modes expected olds old_modes paths = (r2, ws2)"
    by (cases "path_elements g changed modes expected olds old_modes paths") auto
  from Cons.prems e es obtain x xs where r: "r1 = Inr x" "r2 = Inr xs" "entries = (path, x) # xs" "ws = ws1 @ ws2"
    by (auto split: sum.splits)
  from Cons.IH [OF es [unfolded r(2)]] e r show ?case by fastforce
qed simp

text \<open>What one path contributes: its own element, and for a new text the blob that was created.\<close>

lemma path_element_result:
  assumes "path_element g changed modes expected olds old_modes path = (Inr ((p, mode, sha), new_sha, final), ws)"
  shows "p = path" and "final = mode_or_default (map_of modes path) (lookup old_modes path)"
    and "case map_of changed path of
      None \<Rightarrow> sha = lookup olds path \<and> truthy sha \<and> mode = final
    | Some None \<Rightarrow> sha = None \<and> mode = mode_or_default None (lookup old_modes path)
    | Some (Some c) \<Rightarrow> (\<exists>s. gh_create_blob g c = Answer s \<and> sha = Some s \<and> new_sha = Some s) \<and> mode = final \<and>
        ws = [CreateBlob c]"
  using assms by (auto simp: path_element_def Let_def split: if_splits option.splits answer.splits)

text \<open>The rest of the requests: tree, commit on the head, and the update of the branch that is not forced.\<close>

lemma update_branch_requests:
  assumes "update_branch g rb head elements message = (r, ws)" and "w \<in> set ws"
  shows "case w of
      CreateBlob c \<Rightarrow> False
    | CreateTree els base \<Rightarrow> els = elements \<and> gh_base_tree g head = Answer base
    | CreateCommit m tree parent \<Rightarrow> m = message \<and> parent = head \<and>
        (\<exists>base. CreateTree elements base \<in> set ws \<and> gh_create_tree g elements base = Answer tree)
    | UpdateRef branch commit force \<Rightarrow> branch = rp_branch rb \<and> \<not> force \<and> w = last ws \<and>
        (\<exists>tree. CreateCommit message tree head \<in> set ws \<and> gh_create_commit g message tree head = Answer commit)"
  using assms by (auto simp: update_branch_def Let_def split: answer.splits if_splits)

lemma commit_files_stages:
  assumes "commit_files H g rb expected_head changed expected message modes = (r, ws)" and "ws \<noteq> []"
  obtains head olds old_modes ws1 ws2 and er :: "patch_error + commit_entry list" where
    "preflight_file_write g rb expected_head (change_paths changed modes) expected = Inr (head, olds)"
    "read_file_modes g rb head olds = Inr old_modes"
    "path_elements g changed modes expected olds old_modes (change_paths changed modes) = (er, ws1)"
    "ws = ws1 @ ws2"
    "ws2 = [] \<or> (\<exists>(entries :: commit_entry list) ur. er = Inr entries \<and>
       update_branch g rb head (map (\<lambda>(path, element, _). element) entries) message = (ur, ws2))"
proof -
  let ?paths = "change_paths changed modes"
  from assms obtain head olds where p: "preflight_file_write g rb expected_head ?paths expected = Inr (head, olds)"
    by (auto simp: commit_files_def Let_def split: sum.splits)
  from assms p obtain old_modes where m: "read_file_modes g rb head olds = Inr old_modes"
    by (auto simp: commit_files_def Let_def split: sum.splits)
  obtain er ws1 where e: "path_elements g changed modes expected olds old_modes ?paths = (er, ws1)"
    by (cases "path_elements g changed modes expected olds old_modes ?paths") auto
  show ?thesis
  proof (cases er)
    case (Inl x)
    with assms p m e have "ws = ws1 @ []" by (simp add: commit_files_def)
    from that [OF p m e this] show ?thesis by simp
  next
    case (Inr entries)
    let ?els = "map (\<lambda>(path, element, _). element) entries"
    obtain ur ws2 where u: "update_branch g rb head ?els message = (ur, ws2)"
      by (cases "update_branch g rb head ?els message") auto
    have "ws = ws1 @ ws2"
      using assms(1) p m e Inr u by (auto simp: commit_files_def Let_def split: sum.splits)
    from that [OF p m e this] Inr u show ?thesis by blast
  qed
qed

text \<open>The requests of a commit on \<open>head\<close>, one after the other.\<close>

lemma commit_files_requests:
  assumes "commit_files H g rb expected_head changed expected message modes = (r, ws)" and "ws \<noteq> []"
  obtains head where "gh_write_allowed g" "gh_ref g = Answer head" "expected_head \<noteq> [] \<Longrightarrow> head = expected_head"
    "\<And>w. w \<in> set ws \<Longrightarrow> case w of
      CreateBlob c \<Rightarrow> \<exists>path. map_of changed path = Some (Some c)
    | CreateTree els base \<Rightarrow> gh_base_tree g head = Answer base
    | CreateCommit m tree parent \<Rightarrow> m = message \<and> parent = head \<and>
        (\<exists>els base. CreateTree els base \<in> set ws \<and> gh_create_tree g els base = Answer tree)
    | UpdateRef branch commit force \<Rightarrow> branch = rp_branch rb \<and> \<not> force \<and> w = last ws \<and>
        (\<exists>tree. CreateCommit message tree head \<in> set ws \<and> gh_create_commit g message tree head = Answer commit)"
proof -
  from commit_files_stages [OF assms] obtain head olds old_modes ws1 ws2 and er :: "patch_error + commit_entry list" where
    s: "preflight_file_write g rb expected_head (change_paths changed modes) expected = Inr (head, olds)"
    "path_elements g changed modes expected olds old_modes (change_paths changed modes) = (er, ws1)" "ws = ws1 @ ws2"
    "ws2 = [] \<or> (\<exists>(entries :: commit_entry list) ur. er = Inr entries \<and>
       update_branch g rb head (map (\<lambda>(path, element, _). element) entries) message = (ur, ws2))" by metis
  have "case w of
      CreateBlob c \<Rightarrow> \<exists>path. map_of changed path = Some (Some c)
    | CreateTree els base \<Rightarrow> gh_base_tree g head = Answer base
    | CreateCommit m tree parent \<Rightarrow> m = message \<and> parent = head \<and>
        (\<exists>els base. CreateTree els base \<in> set ws \<and> gh_create_tree g els base = Answer tree)
    | UpdateRef branch commit force \<Rightarrow> branch = rp_branch rb \<and> \<not> force \<and> w = last ws \<and>
        (\<exists>tree. CreateCommit message tree head \<in> set ws \<and> gh_create_commit g message tree head = Answer commit)"
    if "w \<in> set ws" for w
  proof (cases "w \<in> set ws1")
    case True
    from path_elements_writes [OF s(2) this] show ?thesis by auto
  next
    case False
    with that s(3) have w2: "w \<in> set ws2" by simp
    then have ne: "ws2 \<noteq> []" by auto
    with s(4) obtain entries :: "commit_entry list" and ur where
      "update_branch g rb head (map (\<lambda>(path, element, _). element) entries) message = (ur, ws2)" by blast
    from update_branch_requests [OF this w2] s(3) ne show ?thesis
      by (cases w) auto
  qed
  with preflight_head [OF s(1)] that show ?thesis by blast
qed

text \<open>The tree of a commit: one element for each path, with what the path contributes.\<close>

lemma commit_files_tree:
  assumes "commit_files H g rb expected_head changed expected message modes = (r, ws)"
    and "CreateTree elements base \<in> set ws"
  obtains head olds old_modes where "gh_ref g = Answer head"
    "preflight_paths g rb head expected (change_paths changed modes) = Inr olds"
    "read_file_modes g rb head olds = Inr old_modes"
    "map fst elements = change_paths changed modes"
    "\<And>path mode sha. (path, mode, sha) \<in> set elements \<Longrightarrow> \<exists>new_sha final ws'.
       path_element g changed modes expected olds old_modes path = (Inr ((path, mode, sha), new_sha, final), ws') \<and>
       set ws' \<subseteq> set ws"
proof -
  from assms(2) have "ws \<noteq> []" by auto
  from commit_files_stages [OF assms(1) this] obtain head olds old_modes ws1 ws2 and er :: "patch_error + commit_entry list" where
    s: "preflight_file_write g rb expected_head (change_paths changed modes) expected = Inr (head, olds)"
    "read_file_modes g rb head olds = Inr old_modes"
    "path_elements g changed modes expected olds old_modes (change_paths changed modes) = (er, ws1)" "ws = ws1 @ ws2"
    "ws2 = [] \<or> (\<exists>(entries :: commit_entry list) ur. er = Inr entries \<and>
       update_branch g rb head (map (\<lambda>(path, element, _). element) entries) message = (ur, ws2))" by metis
  have t2: "CreateTree elements base \<in> set ws2" using assms(2) s(4) path_elements_writes [OF s(3)] by auto
  then have "ws2 \<noteq> []" by auto
  with s(5) obtain entries :: "commit_entry list" and ur where e: "er = Inr entries"
    and u: "update_branch g rb head (map (\<lambda>(path, element, _). element) entries) message = (ur, ws2)" by blast
  from update_branch_requests [OF u t2] have els: "elements = map (\<lambda>(path, element, _). element) entries" by simp
  note each = path_elements_each [OF s(3) [unfolded e]]
  have own: "fst element = path" if "(path, element, new_sha, final) \<in> set entries" for path element new_sha final
    using each that path_element_result(1) by (cases element) fastforce
  have "map fst elements = map fst entries"
    unfolding els map_map by (rule map_cong [OF refl]) (use own in auto)
  moreover have "\<exists>new_sha final ws'.
       path_element g changed modes expected olds old_modes path = (Inr ((path, mode, sha), new_sha, final), ws') \<and>
       set ws' \<subseteq> set ws" if "(path, mode, sha) \<in> set elements" for path mode sha
  proof -
    from that els obtain q new_sha final where q: "(q, (path, mode, sha), new_sha, final) \<in> set entries" by auto
    from own [OF q] have "q = path" by simp
    with q each s(4) show ?thesis by fastforce
  qed
  ultimately show ?thesis using preflight_head [OF s(1)] each by (intro that [OF _ _ s(2)]) auto
qed

section \<open>Success means read back\<close>

lemma file_results_each:
  "file_results f xs = Inr rs \<Longrightarrow> x \<in> set xs \<Longrightarrow> \<exists>r. f x = Inr r"
  by (induction xs arbitrary: rs) (auto simp: map_sum_Inr split: sum.splits)

lemma file_result_content:
  assumes "file_result H g changed olds old_modes commit evidence (path, element, new_sha, final) = Inr r"
    and "map_of changed path = Some (Some content)"
  shows "\<exists>text blob n. gh_get_file g path commit = Answer (text, blob, n) \<and> text_or_empty text = content \<and> new_sha = Some blob"
  using assms by (auto simp: file_result_def Let_def split: answer.splits if_splits)

text \<open>The mode that is expected of a path in the tree.\<close>

lemma expected_mode:
  fixes entries :: "commit_entry list"
  assumes "distinct (map fst entries)" and "(path, (p, mode, sha), new_sha, final) \<in> set entries" and "sha \<noteq> None"
  shows "map_of (concat (map (\<lambda>(path, (p, mode, sha), new_sha, final).
      if sha = None then [] else [(path, final)]) entries)) path = Some final"
  using assms
proof (induction entries)
  case (Cons x xs)
  obtain q p' m' s' n' f' where x: "x = (q, (p', m', s'), n', f')" by (metis prod_cases3 surj_pair)
  show ?case
  proof (cases "x = (path, (p, mode, sha), new_sha, final)")
    case False
    with Cons have "(path, (p, mode, sha), new_sha, final) \<in> set xs" "q \<noteq> path" unfolding x by force+
    with Cons x show ?thesis by simp
  qed (use Cons.prems in simp)
qed simp

lemma commit_files_success:
  assumes "commit_files H g rb expected_head changed expected message modes = (Inr result, ws)"
  obtains head tree commit evidence olds old_modes ws1 and entries :: "commit_entry list" where
    "preflight_paths g rb head expected (change_paths changed modes) = Inr olds"
    "read_file_modes g rb head olds = Inr old_modes"
    "path_elements g changed modes expected olds old_modes (change_paths changed modes) = (Inr entries, ws1)"
    "post_write_verify \<lparr>wt_repository = rp_repository rb, wt_branch = rp_branch rb, wt_previous_head = head,
       wt_commit = commit, wt_tree = tree\<rparr> (map (\<lambda>(path, (p, mode, sha), _). (path, sha)) entries)
       (map_of (concat (map (\<lambda>(path, (p, mode, sha), new_sha, final).
          if sha = None then [] else [(path, final)]) entries))) (gh_readback g) 3 = Inr evidence"
    "\<And>x. x \<in> set entries \<Longrightarrow> \<exists>r. file_result H g changed olds old_modes commit evidence x = Inr r"
    "CreateCommit message tree head \<in> set ws" "UpdateRef (rp_branch rb) commit False \<in> set ws"
    "gh_create_commit g message tree head = Answer commit" "\<exists>els base. gh_create_tree g els base = Answer tree"
proof -
  let ?paths = "change_paths changed modes"
  from assms obtain head olds where p: "preflight_file_write g rb expected_head ?paths expected = Inr (head, olds)"
    by (auto simp: commit_files_def Let_def split: sum.splits)
  from assms p obtain old_modes where m: "read_file_modes g rb head olds = Inr old_modes"
    by (auto simp: commit_files_def Let_def split: sum.splits)
  from assms p m obtain entries ws1 where e: "path_elements g changed modes expected olds old_modes ?paths = (Inr entries, ws1)"
    by (auto simp: commit_files_def Let_def split: sum.splits prod.splits)
  from assms p m e obtain tree commit ws2 where
    u: "update_branch g rb head (map (\<lambda>(path, element, _). element) entries) message = (Inr (tree, commit), ws2)"
    by (auto simp: commit_files_def Let_def split: sum.splits prod.splits)
  let ?w = "\<lparr>wt_repository = rp_repository rb, wt_branch = rp_branch rb, wt_previous_head = head,
     wt_commit = commit, wt_tree = tree\<rparr>"
  let ?ps = "map (\<lambda>(path, (p, mode, sha), _). (path, sha)) entries"
  let ?ms = "map_of (concat (map (\<lambda>(path, (p, mode, sha), new_sha, final).
          if sha = None then [] else [(path, final)]) entries))"
  from assms p m e u obtain evidence where v: "post_write_verify ?w ?ps ?ms (gh_readback g) 3 = Inr evidence"
    by (auto simp: commit_files_def Let_def split: sum.splits)
  from assms p m e u v obtain files where
    f: "file_results (file_result H g changed olds old_modes commit evidence) entries = Inr files"
    and ws: "ws = ws1 @ ws2"
    by (auto simp: commit_files_def Let_def split: sum.splits)
  from u have b: "gh_create_commit g message tree head = Answer commit" "\<exists>els base. gh_create_tree g els base = Answer tree"
    "CreateCommit message tree head \<in> set ws2" "UpdateRef (rp_branch rb) commit False \<in> set ws2"
    by (auto simp: update_branch_def Let_def split: answer.splits if_splits)
  show ?thesis
  proof (rule that [OF _ m e v _ _ _ b(1,2)])
    show "preflight_paths g rb head expected ?paths = Inr olds" using preflight_head [OF p] by blast
    show "CreateCommit message tree head \<in> set ws" "UpdateRef (rp_branch rb) commit False \<in> set ws"
      using ws b(3,4) by auto
  qed (rule file_results_each [OF f])
qed

text \<open>What a confirming reading saw of one path.\<close>

lemma confirmed_path:
  fixes entries :: "commit_entry list"
  assumes "confirmed w (map (\<lambda>(path, (p, mode, sha), _). (path, sha)) entries)
      (map_of (concat (map (\<lambda>(path, (p, mode, sha), new_sha, final).
        if sha = None then [] else [(path, final)]) entries))) rb"
    and "distinct (map fst entries)" and "(path, (p, mode, sha), new_sha, final) \<in> set entries"
  shows "rb_file_sha rb path = Got sha" and "sha \<noteq> None \<Longrightarrow> rb_file_mode rb path = Got (Some final)"
proof -
  have "(path, sha) \<in> set (map (\<lambda>(path, (p, mode, sha), _). (path, sha)) entries)" using assms(3) by force
  with assms(1) have r: "rb_file_sha rb path = Got sha" "case map_of (concat (map (\<lambda>(path, (p, mode, sha), new_sha, final).
        if sha = None then [] else [(path, final)]) entries)) path of
      None \<Rightarrow> True | Some m \<Rightarrow> rb_file_mode rb path = Got (Some m)"
    unfolding confirmed_def by auto
  then show "rb_file_sha rb path = Got sha" by blast
  show "rb_file_mode rb path = Got (Some final)" if "sha \<noteq> None"
    using r(2) unfolding expected_mode [OF assms(2,3) that] by simp
qed

text \<open>What the commit gives one path was seen, whether it changed the text, the mode or deleted it.\<close>

lemma path_seen:
  fixes entries :: "commit_entry list"
  assumes e: "(path, (r, mode, sha), new_sha, final) \<in> set entries" and dist: "distinct (map fst entries)"
    and el: "path_element g changed modes expected olds old_modes path = (Inr ((r, mode, sha), new_sha, final), ws)"
    and conf: "confirmed w (map (\<lambda>(path, (p, mode, sha), _). (path, sha)) entries)
       (map_of (concat (map (\<lambda>(path, (p, mode, sha), new_sha, final).
          if sha = None then [] else [(path, final)]) entries))) rb"
    and fr: "file_result H g changed olds old_modes commit evidence (path, (r, mode, sha), new_sha, final) = Inr file"
  shows "case map_of changed path of
      None \<Rightarrow> rb_file_sha rb path = Got (lookup olds path) \<and> truthy (lookup olds path) \<and>
        rb_file_mode rb path = Got (Some final)
    | Some None \<Rightarrow> rb_file_sha rb path = Got None
    | Some (Some content) \<Rightarrow> \<exists>blob text n. gh_create_blob g content = Answer blob \<and>
        rb_file_sha rb path = Got (Some blob) \<and> rb_file_mode rb path = Got (Some final) \<and>
        gh_get_file g path commit = Answer (text, blob, n) \<and> text_or_empty text = content"
proof -
  note own = path_element_result [OF el] and seen = confirmed_path [OF conf dist e]
  show ?thesis
  proof (cases "map_of changed path")
    case None
    with own(3) have "sha = lookup olds path" "truthy (lookup olds path)" by auto
    with None seen show ?thesis by (cases "lookup olds path") auto
  next
    case (Some change)
    note ch = this
    show ?thesis
    proof (cases change)
      case (Some content)
      with ch own(3) obtain b where
        b: "gh_create_blob g content = Answer b" "sha = Some b" "new_sha = Some b" by auto
      from file_result_content [OF fr] ch Some b(3) obtain t n where
        "gh_get_file g path commit = Answer (t, b, n)" "text_or_empty t = content" by auto
      with ch Some b seen show ?thesis by auto
    qed (use ch own(3) seen in simp)
  qed
qed

text \<open>Every path of a successful commit was seen in the state the commit gives it.\<close>

lemma commit_files_read_back:
  assumes "commit_files H g rb expected_head changed expected message modes = (Inr result, ws)"
    and "\<And>m tree parent. gh_create_commit g m tree parent \<noteq> Answer []"
    and "\<And>elements base. gh_create_tree g elements base \<noteq> Answer []"
  obtains head tree commit k where "k \<in> {1..3}"
    "CreateCommit message tree head \<in> set ws" "gh_create_commit g message tree head = Answer commit"
    "UpdateRef (rp_branch rb) commit False \<in> set ws"
    "rb_branch_head (gh_readback g k) = Got (Some commit)"
    "rb_commit_state (gh_readback g k) = Got (Some (commit, tree))" "rb_tree (gh_readback g k) = Got (Some tree)"
    "\<And>path. path \<in> set (change_paths changed modes) \<Longrightarrow> \<exists>old old_mode.
       old_sha_at g rb path head = Inr old \<and> gh_mode g path head = Answer old_mode \<and>
       (let sha = rb_file_sha (gh_readback g k) path;
            kept_mode = rb_file_mode (gh_readback g k) path = Got (Some (mode_or_default (map_of modes path) old_mode))
        in case map_of changed path of
             None \<Rightarrow> sha = Got old \<and> truthy old \<and> kept_mode
           | Some None \<Rightarrow> sha = Got None
           | Some (Some content) \<Rightarrow> \<exists>blob text n. gh_create_blob g content = Answer blob \<and> sha = Got (Some blob) \<and>
               kept_mode \<and> gh_get_file g path commit = Answer (text, blob, n) \<and> text_or_empty text = content)"
proof (rule commit_files_success [OF assms(1)])
  fix head tree commit evidence olds old_modes ws1 and entries :: "commit_entry list"
  let ?w = "\<lparr>wt_repository = rp_repository rb, wt_branch = rp_branch rb, wt_previous_head = head,
     wt_commit = commit, wt_tree = tree\<rparr>"
  let ?paths = "change_paths changed modes"
  assume c: "preflight_paths g rb head expected ?paths = Inr olds" "read_file_modes g rb head olds = Inr old_modes"
      "path_elements g changed modes expected olds old_modes ?paths = (Inr entries, ws1)"
    and v: "post_write_verify ?w (map (\<lambda>(path, (p, mode, sha), _). (path, sha)) entries)
       (map_of (concat (map (\<lambda>(path, (p, mode, sha), new_sha, final).
          if sha = None then [] else [(path, final)]) entries))) (gh_readback g) 3 = Inr evidence"
    and f: "\<And>x. x \<in> set entries \<Longrightarrow> \<exists>r. file_result H g changed olds old_modes commit evidence x = Inr r"
    and w: "CreateCommit message tree head \<in> set ws" "UpdateRef (rp_branch rb) commit False \<in> set ws"
    and s: "gh_create_commit g message tree head = Answer commit" "\<exists>els base. gh_create_tree g els base = Answer tree"
  have "wt_commit ?w \<noteq> []" "wt_tree ?w \<noteq> []" using s assms(2,3) by auto
  from post_write_verify_confirmed [OF this v] obtain k where k: "k \<in> {1..3}"
    and conf: "confirmed ?w (map (\<lambda>(path, (p, mode, sha), _). (path, sha)) entries)
       (map_of (concat (map (\<lambda>(path, (p, mode, sha), new_sha, final).
          if sha = None then [] else [(path, final)]) entries))) (gh_readback g k)" by blast
  note each = path_elements_each [OF c(3)]
  have dist: "distinct (map fst entries)" using each by (simp add: change_paths_def)
  show thesis
  proof (rule that [OF k w(1) s(1) w(2)])
    fix path assume p: "path \<in> set ?paths"
    then have "path \<in> set (map fst entries)" unfolding conjunct1 [OF each] .
    then obtain r mode sha new_sha final where e1: "(path, (r, mode, sha), new_sha, final) \<in> set entries" by auto
    from bspec [OF conjunct2 [OF each] e1] obtain ws' where e: "(path, (r, mode, sha), new_sha, final) \<in> set entries"
      "path_element g changed modes expected olds old_modes path = (Inr ((r, mode, sha), new_sha, final), ws')"
      using e1 by auto
    from preflight_paths_checked [OF c(1) p] have old: "old_sha_at g rb path head = Inr (lookup olds path)" by blast
    from preflight_paths_keys [OF c(1)] p have "path \<in> fst ` set olds" by (metis list.set_map)
    from read_file_modes_read [OF c(2) this] have mode: "gh_mode g path head = Answer (lookup old_modes path)" .
    from f [OF e(1)] obtain fr where
      fr: "file_result H g changed olds old_modes commit evidence (path, (r, mode, sha), new_sha, final) = Inr fr" by blast
    note seen = path_seen [OF e(1) dist e(2) conf fr]
    with old mode show "\<exists>old old_mode. old_sha_at g rb path head = Inr old \<and> gh_mode g path head = Answer old_mode \<and>
       (let sha = rb_file_sha (gh_readback g k) path;
            kept_mode = rb_file_mode (gh_readback g k) path = Got (Some (mode_or_default (map_of modes path) old_mode))
        in case map_of changed path of
             None \<Rightarrow> sha = Got old \<and> truthy old \<and> kept_mode
           | Some None \<Rightarrow> sha = Got None
           | Some (Some content) \<Rightarrow> \<exists>blob text n. gh_create_blob g content = Answer blob \<and> sha = Got (Some blob) \<and>
               kept_mode \<and> gh_get_file g path commit = Answer (text, blob, n) \<and> text_or_empty text = content)"
      using seen unfolding Let_def path_element_result(2) [OF e(2)] by blast
  qed (use conf in \<open>simp_all add: confirmed_def\<close>)
qed

section \<open>What a patch writes\<close>

lemma patch_changes_from:
  "patch_changes K g rb head expected ps changed = Inr (result, previews) \<Longrightarrow>
   map_of result path = Some new \<Longrightarrow>
   map_of changed path = Some new \<or>
   (\<exists>kind hunks b old. (path, kind, hunks) \<in> set ps \<and>
     read_for_patch g rb head expected path kind = Inr (b, old) \<and> patched_text b (path, kind, hunks) = Inr new)"
proof (induction ps arbitrary: changed previews)
  case (Cons p ps)
  obtain q kind hunks where p: "p = (q, kind, hunks)" by (cases p) auto
  from Cons.prems(1) obtain b old t previews' where
    r: "read_for_patch g rb head expected q kind = Inr (b, old)" and t: "patched_text b p = Inr t"
    and rest: "patch_changes K g rb head expected ps (AList.update q t changed) = Inr (result, previews')"
    by (auto simp: p map_sum_Inr split: sum.splits)
  from Cons.IH [OF rest Cons.prems(2)] r t show ?case
    by (auto simp: p update_conv split: if_splits)
qed simp

text \<open>Every path of the patches has its change, the one of its last section.\<close>

lemma patch_changes_keys:
  "patch_changes K g rb head expected ps changed = Inr (result, previews) \<Longrightarrow> distinct (map fst changed) \<Longrightarrow>
   distinct (map fst result) \<and> fst ` set result = fst ` set changed \<union> fst ` set ps"
proof (induction ps arbitrary: changed previews)
  case (Cons p ps)
  from Cons.prems(1) obtain t previews' where
    rest: "patch_changes K g rb head expected ps (AList.update (fst p) t changed) = Inr (result, previews')"
    by (auto simp: map_sum_Inr split: sum.splits)
  have "distinct (map fst (AList.update (fst p) t changed))" using Cons.prems(2) by (rule distinct_update)
  from Cons.IH [OF rest this] show ?case by (auto simp: dom_update)
qed simp

lemma patch_changes_last:
  "patch_changes K g rb head expected ps changed = Inr (result, previews) \<Longrightarrow>
   case map_of (rev ps) path of
     None \<Rightarrow> map_of result path = map_of changed path
   | Some (kind, hunks) \<Rightarrow> \<exists>b old new. read_for_patch g rb head expected path kind = Inr (b, old) \<and>
       patched_text b (path, kind, hunks) = Inr new \<and> map_of result path = Some new"
proof (induction ps arbitrary: changed previews)
  case (Cons p ps)
  obtain q kind hunks where p: "p = (q, kind, hunks)" by (cases p) auto
  from Cons.prems(1) obtain b old t previews' where
    r: "read_for_patch g rb head expected q kind = Inr (b, old)" and t: "patched_text b p = Inr t"
    and rest: "patch_changes K g rb head expected ps (AList.update q t changed) = Inr (result, previews')"
    by (auto simp: p map_sum_Inr split: sum.splits)
  from Cons.IH [OF rest] r t show ?case
    by (auto simp: p update_conv map_add_def split: option.splits)
qed simp

lemma commit_stage_writes:
  "commit_stage K g rb h changed expected message op result t1 db = (answer, ws, db') \<Longrightarrow>
   \<exists>r. commit_files (sha256 K) g rb h changed expected message [] = (r, ws)"
  by (auto simp: commit_stage_def Let_def split: sum.splits prod.splits)

text \<open>When \<open>apply_patch\<close> sends any request, its checks have passed and the commit is that of its changes.\<close>

lemma apply_patch_writes:
  assumes "apply_patch K g rb h ej patch message dry key audit artifact i t0 t1 db = (answer, ws, db')"
    and "ws \<noteq> []"
  obtains patches ns fields head changed previews r where
    "parse_patch_details patch = Inr (patches, ns)" "ej = Some (JObj fields)"
    "gh_commit g (rp_branch rb) = Answer head" "h \<noteq> [] \<Longrightarrow> head = h"
    "patch_changes K g rb head (JObj fields) patches [] = Inr (changed, previews)"
    "commit_files (sha256 K) g rb h changed (JObj fields) message [] = (r, ws)" "\<not> dry"
proof -
  obtain patches ns where 1: "parse_patch_details patch = Inr (patches, ns)"
    by (cases "parse_patch_details patch") (use assms in \<open>auto simp: apply_patch_def\<close>)
  note run = assms(1)[unfolded apply_patch_def 1 sum.case prod.case]
  obtain v where v: "ej = Some v" by (cases ej) (use run assms(2) in auto)
  obtain fields where 2: "ej = Some (JObj fields)"
    by (cases v) (use run v assms(2) in auto)
  let ?req = "patch_request rb h (JObj fields) patches message artifact dry audit"
  note run = run[unfolded 2 option.case json.case Let_def]
  obtain x db1 where x: "begin_operation K dry ''apply_github_patch'' key ?req audit i t0 db = (x, db1)"
    by (cases "begin_operation K dry ''apply_github_patch'' key ?req audit i t0 db")
  note run = run[unfolded x prod.case]
  obtain op where 3: "x = Inr (op, None)"
    by (cases x) (use run assms(2) in \<open>auto split: prod.splits option.splits\<close>)
  note run = run[unfolded 3 sum.case prod.case option.case]
  obtain head where 4: "resolve_commit g (rp_branch rb) = Inr head"
    by (cases "resolve_commit g (rp_branch rb)") (use run assms(2) in auto)
  note run = run[unfolded 4 sum.case]
  have h: "h \<noteq> [] \<Longrightarrow> head = h" using run assms(2) by (auto split: if_splits)
  then have "\<not> (h \<noteq> [] \<and> head \<noteq> h)" by blast
  note run = run[unfolded if_not_P [OF this]]
  obtain changed previews where 5: "patch_changes K g rb head (JObj fields) patches [] = Inr (changed, previews)"
    by (cases "patch_changes K g rb head (JObj fields) patches []") (use run assms(2) in auto)
  have 6: "\<not> dry"
  proof
    assume dry
    then have "snd (answer, ws, db') = ([], db)"
      using assms(1) dry_apply_patch [of K g rb h ej patch message key audit artifact i t0 t1 db] by simp
    with assms(2) show False by simp
  qed
  obtain r where "commit_files (sha256 K) g rb h changed (JObj fields) message [] = (r, ws)"
    using commit_stage_writes [OF run[unfolded 5 sum.case prod.case if_not_P [OF 6]]] by (rule exE)
  moreover have "gh_commit g (rp_branch rb) = Answer head"
    using 4 by (auto simp: resolve_commit_def split: answer.splits)
  ultimately show ?thesis using that [OF 1 2 _ h 5 _ 6] by simp
qed

lemma commit_files_blob:
  assumes "commit_files H g rb h changed expected message modes = (r, ws)" and w: "CreateBlob c \<in> set ws"
  shows "\<exists>path. map_of changed path = Some (Some c)"
proof -
  have ne: "ws \<noteq> []" using w by auto
  show ?thesis
  proof (rule commit_files_requests [OF assms(1) ne])
    fix parent
    assume "\<And>w. w \<in> set ws \<Longrightarrow> case w of
        CreateBlob c \<Rightarrow> \<exists>path. map_of changed path = Some (Some c)
      | CreateTree els base \<Rightarrow> gh_base_tree g parent = Answer base
      | CreateCommit msg tree q \<Rightarrow> msg = message \<and> q = parent \<and>
          (\<exists>els base. CreateTree els base \<in> set ws \<and> gh_create_tree g els base = Answer tree)
      | UpdateRef branch commit force \<Rightarrow> branch = rp_branch rb \<and> \<not> force \<and> w = last ws \<and>
          (\<exists>tree. CreateCommit message tree parent \<in> set ws \<and> gh_create_commit g message tree parent = Answer commit)"
    from this [OF w] show ?thesis by simp
  qed
qed

lemma patched_text_outcome:
  "patched_text b (path, kind, hunks) = Inr new \<longleftrightarrow>
     (if kind = OpDelete
      then new = None \<and> (hunks = [] \<and> blob_size b = 0 \<or>
        hunks \<noteq> [] \<and> apply_to_blob b hunks (blob_size b = 0) path = Inr [])
      else \<exists>content. apply_to_blob b hunks (kind = OpAdd) path = Inr content \<and> new = Some content)"
  by (auto simp: patched_text_def map_sum_Inr split: sum.splits if_splits)

text \<open>The tree of a patch: one element for each of its paths, as its last section has it.\<close>

lemma patch_tree_element:
  assumes "patch_changes K g rb head expected patches [] = Inr (changed, previews)"
    and "commit_files H g rb h changed expected message [] = (r, ws)" and "CreateTree elements base \<in> set ws"
  shows "distinct (map fst elements)" and "fst ` set elements = fst ` set patches"
    and "gh_ref g = Answer parent \<Longrightarrow> x \<in> set elements \<Longrightarrow> case x of (path, mode, sha) \<Rightarrow>
      \<exists>kind hunks b old_sha old_mode. map_of (rev patches) path = Some (kind, hunks) \<and>
      read_for_patch g rb head expected path kind = Inr (b, old_sha) \<and>
      gh_mode g path parent = Answer old_mode \<and> mode = mode_or_default None old_mode \<and>
      (if kind = OpDelete
       then sha = None \<and> (hunks = [] \<and> blob_size b = 0 \<or>
         hunks \<noteq> [] \<and> apply_to_blob b hunks (blob_size b = 0) path = Inr [])
       else \<exists>content s. apply_to_blob b hunks (kind = OpAdd) path = Inr content \<and>
         CreateBlob content \<in> set ws \<and> gh_create_blob g content = Answer s \<and> sha = Some s)"
proof -
  from commit_files_tree [OF assms(2,3)] obtain parent' olds old_modes where
    t: "gh_ref g = Answer parent'" "preflight_paths g rb parent' expected (change_paths changed []) = Inr olds"
      "read_file_modes g rb parent' olds = Inr old_modes" "map fst elements = change_paths changed []"
    and el: "\<And>path mode sha. (path, mode, sha) \<in> set elements \<Longrightarrow> \<exists>new_sha final ws'.
       path_element g changed [] expected olds old_modes path = (Inr ((path, mode, sha), new_sha, final), ws') \<and>
       set ws' \<subseteq> set ws" by blast
  have keys: "fst ` set changed = fst ` set patches" using patch_changes_keys [OF assms(1)] by simp
  have "set (map fst elements) = fst ` set patches"
    unfolding t(4) using keys by (simp add: change_paths_def)
  then show paths: "fst ` set elements = fst ` set patches" by simp
  show "distinct (map fst elements)" unfolding t(4) by (simp add: change_paths_def)
  assume "gh_ref g = Answer parent" and x: "x \<in> set elements"
  with t(1) have pp: "parent' = parent" by simp
  obtain path mode sha where xx: "x = (path, mode, sha)" by (cases x)
  note m = x [unfolded xx]
  from el [OF m] obtain new_sha final ws' where
    e: "path_element g changed [] expected olds old_modes path = (Inr ((path, mode, sha), new_sha, final), ws')"
    "set ws' \<subseteq> set ws" by blast
  note own = path_element_result [OF e(1)]
  from m paths have "path \<in> fst ` set patches" by force
  then have "map_of (rev patches) path \<noteq> None" by (simp add: map_of_eq_None_iff)
  then obtain kind hunks where k: "map_of (rev patches) path = Some (kind, hunks)" by auto
  from patch_changes_last [OF assms(1), of path] k obtain b old new where
    n: "read_for_patch g rb head expected path kind = Inr (b, old)" "patched_text b (path, kind, hunks) = Inr new"
      "map_of changed path = Some new" by auto
  have "path \<in> fst ` set olds"
    using m paths t(4) preflight_paths_keys [OF t(2)] by (metis image_eqI fst_conv list.set_map)
  from read_file_modes_read [OF t(3) this] have om: "gh_mode g path parent = Answer (lookup old_modes path)"
    unfolding pp .
  have "mode = mode_or_default None (lookup old_modes path) \<and> (case new of None \<Rightarrow> sha = None
     | Some content \<Rightarrow> CreateBlob content \<in> set ws \<and> (\<exists>s. gh_create_blob g content = Answer s \<and> sha = Some s))"
    using own(2,3) n(3) e(2) by (cases new) auto
  then show "case x of (path, mode, sha) \<Rightarrow>
      \<exists>kind hunks b old_sha old_mode. map_of (rev patches) path = Some (kind, hunks) \<and>
      read_for_patch g rb head expected path kind = Inr (b, old_sha) \<and>
      gh_mode g path parent = Answer old_mode \<and> mode = mode_or_default None old_mode \<and>
      (if kind = OpDelete
       then sha = None \<and> (hunks = [] \<and> blob_size b = 0 \<or>
         hunks \<noteq> [] \<and> apply_to_blob b hunks (blob_size b = 0) path = Inr [])
       else \<exists>content s. apply_to_blob b hunks (kind = OpAdd) path = Inr content \<and>
         CreateBlob content \<in> set ws \<and> gh_create_blob g content = Answer s \<and> sha = Some s)"
    unfolding xx prod.case using k n(1) om n(2) [unfolded patched_text_outcome]
    by (intro exI [of _ kind] exI [of _ hunks] exI [of _ b] exI [of _ old] exI [of _ "lookup old_modes path"])
      (cases "kind = OpDelete"; auto)
qed

end
