(* ===== verification/Write_Properties.thy ===== *)
theory Write_Properties
  imports Write_Facts "HOL-Library.Code_Target_Nat"
begin

text \<open>The properties of the text edits and of the write tools, with witnesses on one small repository.\<close>

section \<open>A small repository\<close>

definition wdemo_text :: string where
  "wdemo_text = ''one'' @ [LF] @ ''two'' @ [LF] @ ''three'' @ [LF]"

definition wdemo_patch :: string where
  "wdemo_patch = concat (map (\<lambda>l. l @ [LF])
     [''--- a/x'', ''+++ b/x'', ''@@ -1,3 +1,3 @@'', '' one'', ''-two'', ''+2'', '' three''])"

definition wdemo_new :: string where
  "wdemo_new = ''one'' @ [LF] @ ''2'' @ [LF] @ ''three'' @ [LF]"

definition wdemo_readback :: readback where
  "wdemo_readback = \<lparr>rb_branch_head = Got (Some ''c2''), rb_commit_state = Got (Some (''c2'', ''t2'')),
     rb_tree = Got (Some ''t2''), rb_file_sha = (\<lambda>p. Got (Some ''b2'')), rb_file_mode = (\<lambda>p. Got (Some ''100644''))\<rparr>"

definition wdemo_github :: github where
  "wdemo_github = \<lparr>gh_commit = (\<lambda>r. Answer ''c1''), gh_contents = (\<lambda>p c. Answer (FileEntry ''b1'')),
     gh_blob = (\<lambda>s. Answer (TextBlob wdemo_text)), gh_write_allowed = True, gh_ref = Answer ''c1'',
     gh_mode = (\<lambda>p c. Answer (Some ''100644'')), gh_create_blob = (\<lambda>t. Answer ''b2''),
     gh_base_tree = (\<lambda>c. Answer ''t1''), gh_create_tree = (\<lambda>es b. Answer ''t2''),
     gh_create_commit = (\<lambda>m t p. if p = ''c1'' then Answer ''c2'' else Failed),
     gh_update_ref = (\<lambda>c force. if c = ''c2'' then Answer ''c1'' else Failed), gh_latest_head = None,
     gh_readback = (\<lambda>k. wdemo_readback), gh_get_file = (\<lambda>p c. Answer (Some wdemo_new, ''b2'', 12))\<rparr>"

definition wdemo_hashing :: hashing where
  "wdemo_hashing = \<lparr>sha256 = (\<lambda>s. ''d''), float_text = (\<lambda>r. ''0.0''), sha1 = (\<lambda>s. ''b'')\<rparr>"

definition wdemo_branch :: repo_branch where
  "wdemo_branch = \<lparr>rp_repository = ''o/r'', rp_branch = ''topic''\<rparr>"

definition wdemo_audit :: audit_context where
  "wdemo_audit = \<lparr>au_trace_id = [], au_workspace_id = [], au_workspace_revision = 0\<rparr>"

abbreviation wdemo_run :: "bool \<Rightarrow> tool_run" where
  "wdemo_run dry \<equiv> apply_patch wdemo_hashing wdemo_github wdemo_branch ''c1'' (Some (JObj [])) wdemo_patch
     ''change'' dry [] wdemo_audit None ''op1'' 0 1 []"

lemma wdemo_writes:
  "fst (snd (wdemo_run False)) = [CreateBlob wdemo_new, CreateTree [(''x'', ''100644'', Some ''b2'')] ''t1'',
     CreateCommit ''change'' ''t2'' ''c1'', UpdateRef ''topic'' ''c2'' False]"
  by code_simp

section \<open>Line ranges\<close>

text \<open>
  C25. Range edits of a file are accepted exactly when every item is valid, no two ranges conflict
  and every replacement is a text; then the ranges are disjoint, and the result is the text with
  all of them replaced at once, although the code applies them from the last to the first.
\<close>

theorem range_edits_at_once:
  "edit_file H content items = Inr out \<longleftrightarrow>
     (\<exists>ps. range_positions H (splitlines content) items = Inr ps \<and>
       \<not> any_conflict (sort_key position_key ps) \<and> list_all (\<lambda>item. replacement_of item \<noteq> None) items \<and>
       disjoint_from (length (splitlines content)) 0 (sort_key position_key ps) \<and>
       out = concat (assemble (splitlines content) 0 (sort_key position_key ps)))"
  by (rule edit_file_cases)

text \<open>
  A range that is replaced or deleted under \<open>expected_old_text\<close> holds exactly this text.
\<close>

theorem range_stands_on_old_text:
  assumes "range_position H lines item = Inr (i, k, item')"
    and "range_kind_of (json_get ''operation'' item) \<in> {Some RReplace, Some RDelete}"
    and "json_get ''expected_old_text'' item = Some (JStr expected)"
  shows "concat (segment lines i k) = expected"
  using assms
  by (auto simp: range_position_def check_old_text_def Let_def split: option.splits if_splits)

definition wdemo_item :: json where
  "wdemo_item = JObj [(''path'', JStr ''x''), (''operation'', JStr ''replace''), (''start_line'', JInt 2),
     (''expected_old_text'', JStr (''two'' @ [LF])), (''replacement_text'', JStr (''2'' @ [LF]))]"

lemma range_stands_on_old_text_witness: "concat (segment (splitlines wdemo_text) 1 2) = ''two'' @ [LF]"
proof (rule range_stands_on_old_text)
  show "range_position (\<lambda>s. s) (splitlines wdemo_text) wdemo_item = Inr (1, 2, wdemo_item)" by code_simp
  show "range_kind_of (json_get ''operation'' wdemo_item) \<in> {Some RReplace, Some RDelete}" by code_simp
  show "json_get ''expected_old_text'' wdemo_item = Some (JStr (''two'' @ [LF]))" by code_simp
qed

section \<open>Exact replacement\<close>

text \<open>
  C32. The replacement of an exact text always returns: its search loop over the matches ends on
  every text, the empty one included.
\<close>

theorem replace_text_returns:
  "\<exists>run. replace_text_once K g rb h path blob old new m n dry key audit i t0 t1 db = Some run"
  by (rule replace_returns)

text \<open>
  C33. A text is replaced exactly when it occurs at one place of the content, overlapping places
  counted; the result is the content with this occurrence replaced, and the line is the one where
  it begins.
\<close>

theorem replaces_the_only_occurrence:
  "replace_once content old new = Some (Inr (line, out)) \<longleftrightarrow>
     (\<exists>pre post. content = pre @ old @ post \<and> out = pre @ new @ post \<and>
       line = length (filter (\<lambda>c. c = LF) pre) + 1 \<and>
       {k. \<exists>pre post. content = pre @ old @ post \<and> length pre = k} = {length pre})"
proof -
  let ?occ = "occurrences old content 0"
  let ?at = "{k. \<exists>pre post. content = pre @ old @ post \<and> length pre = k}"
  have at: "set ?occ = ?at" by (rule set_eqI) (simp only: occurrences_iff mem_Collect_eq)
  have single: "?occ = [k] \<longleftrightarrow> ?at = {k}" for k
  proof
    assume "?at = {k}"
    then have "set ?occ = {k}" using at by simp
    moreover have "distinct ?occ" by (simp add: occurrences_def)
    ultimately show "?occ = [k]" by (intro distinct_single)
  next
    assume "?occ = [k]"
    then show "?at = {k}" unfolding at [symmetric] by (simp only: list.set)
  qed
  have once: "replace_once content old new = Some (Inr (line, out)) \<longleftrightarrow>
      (\<exists>k. ?occ = [k] \<and> line = length (filter (\<lambda>c. c = LF) (take k content)) + 1 \<and>
        out = take k content @ new @ drop (k + length old) content)"
    by (cases ?occ; cases "tl ?occ") (auto simp: replace_once_def match_offsets_all Let_def)
  show ?thesis
  proof
    assume "replace_once content old new = Some (Inr (line, out))"
    then obtain k where k: "?occ = [k]" "line = length (filter (\<lambda>c. c = LF) (take k content)) + 1"
      "out = take k content @ new @ drop (k + length old) content" using once by blast
    then have "k \<in> ?at" using single by blast
    then obtain pre post where "content = pre @ old @ post" "length pre = k" by blast
    moreover from this k have "out = pre @ new @ post" "line = length (filter (\<lambda>c. c = LF) pre) + 1" by auto
    moreover have "?at = {k}" using single k(1) by blast
    ultimately show "\<exists>pre post. content = pre @ old @ post \<and> out = pre @ new @ post \<and>
       line = length (filter (\<lambda>c. c = LF) pre) + 1 \<and> ?at = {length pre}" by blast
  next
    assume "\<exists>pre post. content = pre @ old @ post \<and> out = pre @ new @ post \<and>
       line = length (filter (\<lambda>c. c = LF) pre) + 1 \<and> ?at = {length pre}"
    then obtain pre post where "content = pre @ old @ post" "out = pre @ new @ post"
      "line = length (filter (\<lambda>c. c = LF) pre) + 1" "?at = {length pre}" by blast
    then show "replace_once content old new = Some (Inr (line, out))"
      using once single [of "length pre"] by auto
  qed
qed

section \<open>Write tools\<close>

text \<open>
  A dry run of each write tool sends no request that writes and leaves the journal as it is,
  whatever it answers.
\<close>

theorem dry_run_writes_nothing:
  "snd (apply_patch K g rb h e patch m True key audit artifact i t0 t1 db) = ([], db) \<and>
   snd (edit_ranges K g rb h operations m True key audit i t0 t1 db) = ([], db) \<and>
   (\<exists>answer. replace_text_once K g rb h path blob old new m n True key audit i t0 t1 db = Some (answer, [], db))"
proof (intro conjI)
  obtain run where r: "replace_text_once K g rb h path blob old new m n True key audit i t0 t1 db = Some run"
    using replace_returns by blast
  with dry_replace [OF r] show "\<exists>answer.
      replace_text_once K g rb h path blob old new m n True key audit i t0 t1 db = Some (answer, [], db)"
    by (cases run) auto
qed (rule dry_apply_patch dry_edit_ranges)+

text \<open>
  What GitHub documents of commits and branches: a created commit has the given parent and no
  other, and an update of a branch that is not forced is accepted only when the commit it stands
  at is the new commit or one of its ancestors.
\<close>

definition fast_forward :: "github \<Rightarrow> (string \<times> string) set \<Rightarrow> bool" where
  "fast_forward g parents \<longleftrightarrow>
     (\<forall>m tree parent commit. gh_create_commit g m tree parent = Answer commit \<longrightarrow>
       (\<forall>p. (commit, p) \<in> parents \<longleftrightarrow> p = parent)) \<and>
     (\<forall>commit old. gh_update_ref g commit False = Answer old \<longrightarrow> (commit, old) \<in> parents\<^sup>*)"

lemma fast_forward_moved:
  assumes "fast_forward g parents" and "gh_create_commit g m tree head = Answer commit"
    and "gh_update_ref g commit False = Answer old"
  shows "old = commit \<or> (head, old) \<in> parents\<^sup>*"
proof -
  from assms have "(commit, old) \<in> parents\<^sup>*" and one: "\<And>p. (commit, p) \<in> parents \<longleftrightarrow> p = head"
    unfolding fast_forward_def by blast+
  then show ?thesis by (metis converse_rtranclE)
qed

text \<open>
  C8. When \<open>apply_patch\<close> sends any request that writes, writing was allowed and the branch stood
  at a head that is the expected one, when one is given, both when the files were read and just
  before the write.  The commit has the caller's message, the tree that was created on the tree
  of this head, and this head as parent; the last request alone moves a branch, the named one, to
  this commit, and never by force.  So GitHub, which accepts such an update only as a fast-forward,
  moves it from the checked head or a commit before it, and nothing pushed meanwhile is lost.
\<close>

theorem patch_commits_on_checked_head:
  assumes "apply_patch K g rb h e patch m dry key audit artifact i t0 t1 db = (answer, ws, db')"
    and "ws \<noteq> []"
  shows "\<exists>head. gh_write_allowed g \<and> gh_ref g = Answer head \<and>
    (h \<noteq> [] \<longrightarrow> head = h \<and> gh_commit g (rp_branch rb) = Answer h) \<and>
    (\<forall>w \<in> set ws. case w of
        CreateBlob content \<Rightarrow> True
      | CreateTree elements base \<Rightarrow> gh_base_tree g head = Answer base
      | CreateCommit msg tree parent \<Rightarrow> msg = m \<and> parent = head \<and>
          (\<exists>elements base. CreateTree elements base \<in> set ws \<and> gh_create_tree g elements base = Answer tree)
      | UpdateRef branch commit force \<Rightarrow> branch = rp_branch rb \<and> \<not> force \<and> w = last ws \<and>
          (\<exists>tree. CreateCommit m tree head \<in> set ws \<and> gh_create_commit g m tree head = Answer commit) \<and>
          (\<forall>parents old. fast_forward g parents \<longrightarrow> gh_update_ref g commit False = Answer old \<longrightarrow>
            old = commit \<or> (head, old) \<in> parents\<^sup>*))"
proof -
  from apply_patch_writes [OF assms] obtain fields changed head r where
    c: "gh_commit g (rp_branch rb) = Answer head" "h \<noteq> [] \<Longrightarrow> head = h"
      "commit_files (sha256 K) g rb h changed (JObj fields) m [] = (r, ws)" by metis
  show ?thesis
  proof (rule commit_files_requests [OF c(3) assms(2)])
    fix parent
    assume p: "gh_write_allowed g" "gh_ref g = Answer parent" "h \<noteq> [] \<Longrightarrow> parent = h"
      and w: "\<And>w. w \<in> set ws \<Longrightarrow> case w of
          CreateBlob c \<Rightarrow> \<exists>path. map_of changed path = Some (Some c)
        | CreateTree els base \<Rightarrow> gh_base_tree g parent = Answer base
        | CreateCommit msg tree q \<Rightarrow> msg = m \<and> q = parent \<and>
            (\<exists>els base. CreateTree els base \<in> set ws \<and> gh_create_tree g els base = Answer tree)
        | UpdateRef branch commit force \<Rightarrow> branch = rp_branch rb \<and> \<not> force \<and> w = last ws \<and>
            (\<exists>tree. CreateCommit m tree parent \<in> set ws \<and> gh_create_commit g m tree parent = Answer commit)"
    have "case w of
        CreateBlob content \<Rightarrow> True
      | CreateTree elements base \<Rightarrow> gh_base_tree g parent = Answer base
      | CreateCommit msg tree q \<Rightarrow> msg = m \<and> q = parent \<and>
          (\<exists>elements base. CreateTree elements base \<in> set ws \<and> gh_create_tree g elements base = Answer tree)
      | UpdateRef branch commit force \<Rightarrow> branch = rp_branch rb \<and> \<not> force \<and> w = last ws \<and>
          (\<exists>tree. CreateCommit m tree parent \<in> set ws \<and> gh_create_commit g m tree parent = Answer commit) \<and>
          (\<forall>parents old. fast_forward g parents \<longrightarrow> gh_update_ref g commit False = Answer old \<longrightarrow>
            old = commit \<or> (parent, old) \<in> parents\<^sup>*)" if "w \<in> set ws" for w
    proof (cases w)
      case (UpdateRef branch commit force)
      from w [OF that] obtain tree where u: "branch = rp_branch rb" "\<not> force" "w = last ws"
        "CreateCommit m tree parent \<in> set ws" "gh_create_commit g m tree parent = Answer commit"
        unfolding UpdateRef git_write.case by blast
      have "\<forall>parents old. fast_forward g parents \<longrightarrow> gh_update_ref g commit False = Answer old \<longrightarrow>
          old = commit \<or> (parent, old) \<in> parents\<^sup>*"
        using fast_forward_moved [OF _ u(5)] by blast
      with u show ?thesis unfolding UpdateRef git_write.case by blast
    qed (use w [OF that] in simp_all)
    with p c(1,2) show ?thesis by blast
  qed
qed

lemma wdemo_fast_forward: "fast_forward wdemo_github {(''c2'', ''c1'')}"
  by (auto simp: fast_forward_def wdemo_github_def split: if_splits)

lemma patch_commits_on_checked_head_witness:
  "gh_ref wdemo_github = Answer ''c1'' \<and> gh_update_ref wdemo_github ''c2'' False = Answer ''c1'' \<and>
    (\<exists>tree. CreateCommit ''change'' tree ''c1'' \<in> set (fst (snd (wdemo_run False))) \<and>
      gh_create_commit wdemo_github ''change'' tree ''c1'' = Answer ''c2'') \<and>
    (''c1'' = ''c2'' \<or> (''c1'', ''c1'') \<in> {(''c2'', ''c1'')}\<^sup>*)"
proof -
  have run: "wdemo_run False = (fst (wdemo_run False), fst (snd (wdemo_run False)), snd (snd (wdemo_run False)))" by simp
  have "fst (snd (wdemo_run False)) \<noteq> []" by (simp add: wdemo_writes)
  note moved = patch_commits_on_checked_head [OF run this]
  have "UpdateRef ''topic'' ''c2'' False \<in> set (fst (snd (wdemo_run False)))" by (simp add: wdemo_writes)
  with moved obtain head where h: "gh_ref wdemo_github = Answer head"
    and u: "\<exists>tree. CreateCommit ''change'' tree head \<in> set (fst (snd (wdemo_run False))) \<and>
        gh_create_commit wdemo_github ''change'' tree head = Answer ''c2''"
      "\<forall>parents old. fast_forward wdemo_github parents \<longrightarrow>
        gh_update_ref wdemo_github ''c2'' False = Answer old \<longrightarrow> old = ''c2'' \<or> (head, old) \<in> parents\<^sup>*" by fastforce
  have "head = ''c1''" "gh_update_ref wdemo_github ''c2'' False = Answer ''c1''"
    using h by (simp_all add: wdemo_github_def)
  with h u wdemo_fast_forward show ?thesis by blast
qed

text \<open>
  C15. What \<open>apply_patch\<close> creates is what the patch says of the files as GitHub had them at the
  head, each with its expected blob id.  Every blob is the text of one file with the hunks of a
  section applied.  The tree has one element for every path of the patch and no other; of several
  sections for one path the last one counts.  The element of a deleted path removes it, and the
  hunks of its section removed the whole text; any other element carries the mode the path has
  and the blob that was created of the patched text.
\<close>

theorem patch_writes_patched_texts:
  assumes "apply_patch K g rb h e patch m dry key audit artifact i t0 t1 db = (answer, ws, db')"
    and "ws \<noteq> []"
  shows "\<exists>patches ns fields head parent. parse_patch_details patch = Inr (patches, ns) \<and> e = Some (JObj fields) \<and>
    gh_commit g (rp_branch rb) = Answer head \<and> gh_ref g = Answer parent \<and>
    (\<forall>content. CreateBlob content \<in> set ws \<longrightarrow> (\<exists>path kind hunks b old_sha.
      (path, kind, hunks) \<in> set patches \<and> kind \<noteq> OpDelete \<and>
      read_for_patch g rb head (JObj fields) path kind = Inr (b, old_sha) \<and>
      apply_to_blob b hunks (kind = OpAdd) path = Inr content)) \<and>
    (\<forall>elements base. CreateTree elements base \<in> set ws \<longrightarrow>
      distinct (map fst elements) \<and> fst ` set elements = fst ` set patches \<and>
      (\<forall>(path, mode, sha) \<in> set elements. \<exists>kind hunks b old_sha old_mode.
        map_of (rev patches) path = Some (kind, hunks) \<and>
        read_for_patch g rb head (JObj fields) path kind = Inr (b, old_sha) \<and>
        gh_mode g path parent = Answer old_mode \<and> mode = mode_or_default None old_mode \<and>
        (if kind = OpDelete
         then sha = None \<and> (hunks = [] \<and> blob_size b = 0 \<or>
           hunks \<noteq> [] \<and> apply_to_blob b hunks (blob_size b = 0) path = Inr [])
         else \<exists>content s. apply_to_blob b hunks (kind = OpAdd) path = Inr content \<and>
           CreateBlob content \<in> set ws \<and> gh_create_blob g content = Answer s \<and> sha = Some s)))"
proof -
  from apply_patch_writes [OF assms] obtain patches ns fields head changed previews r where
    p: "parse_patch_details patch = Inr (patches, ns)" "e = Some (JObj fields)" "gh_commit g (rp_branch rb) = Answer head"
    and c: "patch_changes K g rb head (JObj fields) patches [] = Inr (changed, previews)"
      "commit_files (sha256 K) g rb h changed (JObj fields) m [] = (r, ws)" by metis
  obtain parent where parent: "gh_ref g = Answer parent"
    using commit_files_requests [OF c(2) assms(2)] by metis
  have blobs: "\<exists>path kind hunks b old_sha. (path, kind, hunks) \<in> set patches \<and> kind \<noteq> OpDelete \<and>
      read_for_patch g rb head (JObj fields) path kind = Inr (b, old_sha) \<and>
      apply_to_blob b hunks (kind = OpAdd) path = Inr content" if w: "CreateBlob content \<in> set ws" for content
  proof -
    from commit_files_blob [OF c(2) w] obtain path where "map_of changed path = Some (Some content)" by blast
    from patch_changes_from [OF c(1) this] obtain kind hunks b old where
      "(path, kind, hunks) \<in> set patches" "read_for_patch g rb head (JObj fields) path kind = Inr (b, old)"
      "patched_text b (path, kind, hunks) = Inr (Some content)" by auto
    moreover from this(3) have "kind \<noteq> OpDelete" "apply_to_blob b hunks (kind = OpAdd) path = Inr content"
      unfolding patched_text_outcome by (simp_all split: if_splits)
    ultimately show ?thesis by blast
  qed
  have tree: "case x of (path, mode, sha) \<Rightarrow> \<exists>kind hunks b old_sha old_mode.
      map_of (rev patches) path = Some (kind, hunks) \<and>
      read_for_patch g rb head (JObj fields) path kind = Inr (b, old_sha) \<and>
      gh_mode g path parent = Answer old_mode \<and> mode = mode_or_default None old_mode \<and>
      (if kind = OpDelete
       then sha = None \<and> (hunks = [] \<and> blob_size b = 0 \<or>
         hunks \<noteq> [] \<and> apply_to_blob b hunks (blob_size b = 0) path = Inr [])
       else \<exists>content s. apply_to_blob b hunks (kind = OpAdd) path = Inr content \<and>
         CreateBlob content \<in> set ws \<and> gh_create_blob g content = Answer s \<and> sha = Some s)"
    if t: "CreateTree elements base \<in> set ws" and x: "x \<in> set elements" for elements base x
    using patch_tree_element(3) [OF c t parent x] .
  show ?thesis
    by (rule exI [of _ patches], rule exI [of _ ns], rule exI [of _ fields], rule exI [of _ head], rule exI [of _ parent],
      intro conjI allI impI ballI)
      (rule p parent | erule blobs | erule (1) tree | erule patch_tree_element(1,2) [OF c])+
qed

lemma patch_writes_patched_texts_witness:
  "\<exists>patches ns fields head. parse_patch_details wdemo_patch = Inr (patches, ns) \<and>
    Some (JObj []) = Some (JObj fields) \<and> gh_commit wdemo_github (rp_branch wdemo_branch) = Answer head \<and>
    fst ` {(''x'', ''100644'', Some ''b2'')} = fst ` set patches \<and>
    (\<exists>kind hunks b old_sha. map_of (rev patches) ''x'' = Some (kind, hunks) \<and>
      read_for_patch wdemo_github wdemo_branch head (JObj fields) ''x'' kind = Inr (b, old_sha))"
proof -
  have run: "wdemo_run False = (fst (wdemo_run False), fst (snd (wdemo_run False)), snd (snd (wdemo_run False)))" by simp
  have "fst (snd (wdemo_run False)) \<noteq> []" by (simp add: wdemo_writes)
  note texts = patch_writes_patched_texts [OF run this]
  have tree: "CreateTree [(''x'', ''100644'', Some ''b2'')] ''t1'' \<in> set (fst (snd (wdemo_run False)))"
    by (simp add: wdemo_writes)
  from texts show ?thesis
  proof (elim exE conjE)
    fix patches ns fields head parent
    assume p: "parse_patch_details wdemo_patch = Inr (patches, ns)" "Some (JObj []) = Some (JObj fields)"
      "gh_commit wdemo_github (rp_branch wdemo_branch) = Answer head"
    and t: "\<forall>elements base. CreateTree elements base \<in> set (fst (snd (wdemo_run False))) \<longrightarrow>
      distinct (map fst elements) \<and> fst ` set elements = fst ` set patches \<and>
      (\<forall>(path, mode, sha) \<in> set elements. \<exists>kind hunks b old_sha old_mode.
        map_of (rev patches) path = Some (kind, hunks) \<and>
        read_for_patch wdemo_github wdemo_branch head (JObj fields) path kind = Inr (b, old_sha) \<and>
        gh_mode wdemo_github path parent = Answer old_mode \<and> mode = mode_or_default None old_mode \<and>
        (if kind = OpDelete
         then sha = None \<and> (hunks = [] \<and> blob_size b = 0 \<or>
           hunks \<noteq> [] \<and> apply_to_blob b hunks (blob_size b = 0) path = Inr [])
         else \<exists>content s. apply_to_blob b hunks (kind = OpAdd) path = Inr content \<and>
           CreateBlob content \<in> set (fst (snd (wdemo_run False))) \<and>
           gh_create_blob wdemo_github content = Answer s \<and> sha = Some s))"
    from t [rule_format, OF tree] have "fst ` {(''x'', ''100644'', Some ''b2'')} = fst ` set patches" by simp
    moreover from t [rule_format, OF tree] have "\<exists>kind hunks b old_sha. map_of (rev patches) ''x'' = Some (kind, hunks) \<and>
        read_for_patch wdemo_github wdemo_branch head (JObj fields) ''x'' kind = Inr (b, old_sha)"
      by (simp only: list.set ball_simps prod.case) blast
    ultimately show ?thesis using p by blast
  qed
qed

text \<open>
  C19. A commit is reported as successful only when one of at most three readings found all of it:
  the branch at the new commit, the commit with its tree, the tree itself, and every path that
  was to change.  A path with a new text was there with the blob of this text and its mode, and
  its content was read once more and is this text; a deleted path was absent; a path whose mode
  alone changes had the blob it had before and its new mode.
\<close>

theorem successful_commit_was_read_back:
  assumes "commit_files H g rb h changed expected m modes = (Inr result, ws)"
    and "\<And>m tree parent. gh_create_commit g m tree parent \<noteq> Answer []"
    and "\<And>elements base. gh_create_tree g elements base \<noteq> Answer []"
  shows "\<exists>head tree commit k. k \<in> {1..3} \<and>
    CreateCommit m tree head \<in> set ws \<and> gh_create_commit g m tree head = Answer commit \<and>
    UpdateRef (rp_branch rb) commit False \<in> set ws \<and>
    rb_branch_head (gh_readback g k) = Got (Some commit) \<and>
    rb_commit_state (gh_readback g k) = Got (Some (commit, tree)) \<and> rb_tree (gh_readback g k) = Got (Some tree) \<and>
    (\<forall>path \<in> fst ` set changed \<union> fst ` set modes. \<exists>old old_mode.
      old_sha_at g rb path head = Inr old \<and> gh_mode g path head = Answer old_mode \<and>
      (let sha = rb_file_sha (gh_readback g k) path;
           kept_mode = rb_file_mode (gh_readback g k) path = Got (Some (mode_or_default (map_of modes path) old_mode))
       in case map_of changed path of
            None \<Rightarrow> sha = Got old \<and> truthy old \<and> kept_mode
          | Some None \<Rightarrow> sha = Got None
          | Some (Some content) \<Rightarrow> \<exists>blob text n. gh_create_blob g content = Answer blob \<and> sha = Got (Some blob) \<and>
              kept_mode \<and> gh_get_file g path commit = Answer (text, blob, n) \<and> text_or_empty text = content))"
proof (rule commit_files_read_back [OF assms])
  fix head tree commit k
  assume run: "k \<in> {1..3}" "CreateCommit m tree head \<in> set ws" "gh_create_commit g m tree head = Answer commit"
      "UpdateRef (rp_branch rb) commit False \<in> set ws" "rb_branch_head (gh_readback g k) = Got (Some commit)"
      "rb_commit_state (gh_readback g k) = Got (Some (commit, tree))" "rb_tree (gh_readback g k) = Got (Some tree)"
    and each: "\<And>path. path \<in> set (change_paths changed modes) \<Longrightarrow> \<exists>old old_mode.
      old_sha_at g rb path head = Inr old \<and> gh_mode g path head = Answer old_mode \<and>
      (let sha = rb_file_sha (gh_readback g k) path;
           kept_mode = rb_file_mode (gh_readback g k) path = Got (Some (mode_or_default (map_of modes path) old_mode))
       in case map_of changed path of
            None \<Rightarrow> sha = Got old \<and> truthy old \<and> kept_mode
          | Some None \<Rightarrow> sha = Got None
          | Some (Some content) \<Rightarrow> \<exists>blob text n. gh_create_blob g content = Answer blob \<and> sha = Got (Some blob) \<and>
              kept_mode \<and> gh_get_file g path commit = Answer (text, blob, n) \<and> text_or_empty text = content)"
  have "set (change_paths changed modes) = fst ` set changed \<union> fst ` set modes" by (auto simp: change_paths_def)
  with run each show ?thesis by blast
qed

text \<open>A commit that replaces one file, deletes another and makes a third one executable.\<close>

definition wdemo_changes :: changes where
  "wdemo_changes = [(''x'', Some wdemo_new), (''y'', None)]"

definition wdemo_github3 :: github where
  "wdemo_github3 = wdemo_github\<lparr>gh_readback := (\<lambda>k. wdemo_readback\<lparr>
     rb_file_sha := (\<lambda>p. Got (if p = ''y'' then None else if p = ''z'' then Some ''b1'' else Some ''b2'')),
     rb_file_mode := (\<lambda>p. Got (Some (if p = ''z'' then ''100755'' else ''100644'')))\<rparr>)\<rparr>"

lemma wdemo_commit:
  "\<exists>result ws. commit_files (\<lambda>s. s) wdemo_github3 wdemo_branch ''c1'' wdemo_changes (JObj [(''z'', JStr ''b1'')]) ''change''
     [(''z'', ''100755'')] = (Inr result, ws)"
proof -
  have "\<not> isl (fst (commit_files (\<lambda>s. s) wdemo_github3 wdemo_branch ''c1'' wdemo_changes
      (JObj [(''z'', JStr ''b1'')]) ''change'' [(''z'', ''100755'')]))"
    by code_simp
  then show ?thesis by (metis prod.collapse sum.collapse(2))
qed

lemma successful_commit_was_read_back_witness:
  "\<exists>ws tree commit k old old_mode text blob n. UpdateRef (rp_branch wdemo_branch) commit False \<in> set ws \<and> k \<in> {1..3} \<and>
    rb_tree (gh_readback wdemo_github3 k) = Got (Some tree) \<and>
    gh_get_file wdemo_github3 ''x'' commit = Answer (text, blob, n) \<and> text_or_empty text = wdemo_new \<and>
    rb_file_sha (gh_readback wdemo_github3 k) ''y'' = Got None \<and>
    rb_file_sha (gh_readback wdemo_github3 k) ''z'' = Got old \<and> truthy old \<and>
    rb_file_mode (gh_readback wdemo_github3 k) ''z'' = Got (Some (mode_or_default (Some ''100755'') old_mode))"
proof -
  obtain result ws where run: "commit_files (\<lambda>s. s) wdemo_github3 wdemo_branch ''c1'' wdemo_changes
      (JObj [(''z'', JStr ''b1'')]) ''change'' [(''z'', ''100755'')] = (Inr result, ws)"
    using wdemo_commit by blast
  have nonempty: "gh_create_commit wdemo_github3 m tree parent \<noteq> Answer []"
    "gh_create_tree wdemo_github3 elements base \<noteq> Answer []" for m tree parent elements base
    by (simp_all add: wdemo_github3_def wdemo_github_def)
  from successful_commit_was_read_back [OF run nonempty] obtain tree commit k where
    c: "k \<in> {1..3}" "UpdateRef (rp_branch wdemo_branch) commit False \<in> set ws"
      "rb_tree (gh_readback wdemo_github3 k) = Got (Some tree)"
    and each: "\<forall>path \<in> {''x'', ''y'', ''z''}. \<exists>old old_mode.
      (let sha = rb_file_sha (gh_readback wdemo_github3 k) path;
           kept_mode = rb_file_mode (gh_readback wdemo_github3 k) path =
             Got (Some (mode_or_default (map_of [(''z'', ''100755'')] path) old_mode))
       in case map_of wdemo_changes path of
            None \<Rightarrow> sha = Got old \<and> truthy old \<and> kept_mode
          | Some None \<Rightarrow> sha = Got None
          | Some (Some content) \<Rightarrow> \<exists>blob text n. gh_create_blob wdemo_github3 content = Answer blob \<and> sha = Got (Some blob) \<and>
              kept_mode \<and> gh_get_file wdemo_github3 path commit = Answer (text, blob, n) \<and> text_or_empty text = content)"
    unfolding wdemo_changes_def by fastforce
  have "\<exists>old old_mode. rb_file_sha (gh_readback wdemo_github3 k) ''z'' = Got old \<and> truthy old \<and>
      rb_file_mode (gh_readback wdemo_github3 k) ''z'' = Got (Some (mode_or_default (Some ''100755'') old_mode))"
    using bspec [OF each, of "''z''"] by (simp add: wdemo_changes_def Let_def)
  moreover have "rb_file_sha (gh_readback wdemo_github3 k) ''y'' = Got None"
    using bspec [OF each, of "''y''"] by (simp add: wdemo_changes_def Let_def)
  moreover have "\<exists>blob text n. gh_get_file wdemo_github3 ''x'' commit = Answer (text, blob, n) \<and> text_or_empty text = wdemo_new"
    using bspec [OF each, of "''x''"] by (auto simp: wdemo_changes_def Let_def)
  ultimately show ?thesis using c by blast
qed

end
