(* ===== verification/Artifact_Store.thy ===== *)
theory Artifact_Store
  imports Interfaces Json_Text
begin

text \<open>
  The artifact store of \<open>app/artifact_store.py\<close>: immutable byte files with a row in
  \<open>runtime_artifacts\<close>.  Bytes are strings of characters below 256; the disk maps paths to files.
  A function may commit a change (an expiry, a corruption mark) and then raise, so each gives an
  answer and the store; \<open>now\<close> is its reading of the clock.
\<close>

section \<open>Rows and files\<close>

datatype artifact_error =
    ArtifactNotFound
  | ArtifactExpired
  | ArtifactUnavailable
  | ArtifactScopeMismatch
  | ArtifactTooLarge
  | ArtifactBadArgument
  | WriterClosed
  | StorageFailure

record artifact_ref =
  ar_id :: string
  ar_kind :: string
  ar_size :: nat
  ar_sha256 :: string
  ar_git_blob_sha :: string
  ar_file_name :: string
  ar_mime_type :: string
  ar_source_transport :: string
  ar_created_at :: time
  ar_expires_at :: time
  ar_status :: string
  ar_repository_scope :: string
  ar_principal_scope :: string
  ar_session_scope :: string

text \<open>The row: the public reference with the columns that \<open>_row_to_ref\<close> removes.\<close>

record artifact = artifact_ref +
  ar_locator :: string
  ar_consumed_at :: "time option"

datatype disk_file = RegularFile string | OtherFile

type_synonym disk = "string \<Rightarrow> disk_file option"

record artifact_db =
  ad_rows :: "artifact list"
  ad_disk :: disk

record digests =
  dg_sha256 :: "string \<Rightarrow> string"
  dg_sha1 :: "string \<Rightarrow> string"

text \<open>\<open>[A-Za-z0-9_-]{24,80}\<close> after a prefix, the random part of \<open>secrets.token_urlsafe\<close>.\<close>

definition token_char :: "char \<Rightarrow> bool" where
  "token_char c \<longleftrightarrow> (let n = (of_char c :: nat) in
     65 \<le> n \<and> n \<le> 90 \<or> 97 \<le> n \<and> n \<le> 122 \<or> 48 \<le> n \<and> n \<le> 57 \<or> n = 95 \<or> n = 45)"

definition token_id :: "string \<Rightarrow> string \<Rightarrow> bool" where
  "token_id p i \<longleftrightarrow> take (length p) i = p \<and> list_all token_char (drop (length p) i) \<and>
     24 \<le> length (drop (length p) i) \<and> length (drop (length p) i) \<le> 80"

definition valid_artifact_id :: "string \<Rightarrow> bool" where
  "valid_artifact_id i = token_id ''art_'' i"

definition storage_path :: "string \<Rightarrow> string \<Rightarrow> string" where
  "storage_path dir i = dir @ ''/'' @ i @ ''.bin''"

definition blob_digest :: "digests \<Rightarrow> string \<Rightarrow> string" where
  "blob_digest D data = dg_sha1 D (''blob '' @ nat_text (length data) @ [CHR 0x00] @ data)"

definition live_status :: "string \<Rightarrow> bool" where
  "live_status s \<longleftrightarrow> s \<in> {''READY'', ''FROZEN''}"

section \<open>Reading and ending artifacts\<close>

definition artifact_row :: "string \<Rightarrow> artifact_db \<Rightarrow> artifact_error + artifact" where
  "artifact_row i db =
     (if \<not> valid_artifact_id i then Inl ArtifactNotFound
      else (case row_of ar_id i (ad_rows db) of None \<Rightarrow> Inl ArtifactNotFound | Some r \<Rightarrow> Inr r))"

definition unlink_storage :: "string \<Rightarrow> disk \<Rightarrow> disk" where
  "unlink_storage path d = (case d path of Some (RegularFile data) \<Rightarrow> d(path := None) | _ \<Rightarrow> d)"

definition terminalize :: "string \<Rightarrow> string \<Rightarrow> time \<Rightarrow> artifact_db \<Rightarrow> artifact_error option \<times> artifact_db" where
  "terminalize i status now db =
     (case artifact_row i db of
        Inl e \<Rightarrow> (Some e, db)
      | Inr r \<Rightarrow> (None, db\<lparr>
          ad_rows := update_where (\<lambda>r. ar_id r = i) (\<lambda>r. r\<lparr>ar_status := status, ar_consumed_at := Some now\<rparr>) (ad_rows db),
          ad_disk := unlink_storage (ar_locator r) (ad_disk db)\<rparr>))"

definition consume_artifact :: "string \<Rightarrow> time \<Rightarrow> artifact_db \<Rightarrow> artifact_error option \<times> artifact_db" where
  "consume_artifact i = terminalize i ''CONSUMED''"

definition expire_artifact :: "string \<Rightarrow> time \<Rightarrow> artifact_db \<Rightarrow> artifact_error option \<times> artifact_db" where
  "expire_artifact i = terminalize i ''EXPIRED''"

definition mark_corrupt :: "string \<Rightarrow> time \<Rightarrow> artifact_db \<Rightarrow> artifact_error option \<times> artifact_db" where
  "mark_corrupt i = terminalize i ''CORRUPT''"

definition get_artifact ::
  "string \<Rightarrow> bool \<Rightarrow> time \<Rightarrow> artifact_db \<Rightarrow> (artifact_error + artifact_ref) \<times> artifact_db" where
  "get_artifact i allow_terminal now db =
     (case artifact_row i db of
        Inl e \<Rightarrow> (Inl e, db)
      | Inr r \<Rightarrow>
          if live_status (ar_status r) \<and> ar_expires_at r \<le> now
          then (Inl ArtifactExpired, snd (expire_artifact i now db))
          else if \<not> allow_terminal \<and> \<not> live_status (ar_status r)
          then (Inl (if ar_status r = ''EXPIRED'' then ArtifactExpired else ArtifactUnavailable), db)
          else (Inr (artifact_ref.truncate r), db))"

section \<open>Writing artifacts\<close>

record artifact_args =
  ag_kind :: string
  ag_max_bytes :: int
  ag_source_transport :: string
  ag_file_name :: string
  ag_mime_type :: string
  ag_repository_scope :: string
  ag_principal_scope :: string
  ag_session_scope :: string
  ag_ttl_seconds :: int

record artifact_writer =
  wr_id :: string
  wr_args :: artifact_args
  wr_data :: string
  wr_closed :: bool

definition normal_args :: "artifact_args \<Rightarrow> artifact_args" where
  "normal_args a = a\<lparr>
     ag_kind := (if ag_kind a = [] then ''opaque'' else ag_kind a),
     ag_file_name := take 255 (ag_file_name a), ag_mime_type := take 255 (ag_mime_type a),
     ag_source_transport := take 80 (if ag_source_transport a = [] then ''unknown'' else ag_source_transport a),
     ag_repository_scope := take 255 (ag_repository_scope a),
     ag_principal_scope := take 255 (ag_principal_scope a), ag_session_scope := take 255 (ag_session_scope a),
     ag_ttl_seconds := max 60 (min (ag_ttl_seconds a) (24 * 60 * 60))\<rparr>"

definition open_writer :: "string \<Rightarrow> artifact_args \<Rightarrow> artifact_error + artifact_writer" where
  "open_writer i a =
     (if ag_max_bytes a \<le> 0 then Inl ArtifactBadArgument
      else Inr \<lparr>wr_id = i, wr_args = normal_args a, wr_data = [], wr_closed = False\<rparr>)"

definition writer_write :: "string \<Rightarrow> artifact_writer \<Rightarrow> artifact_error + artifact_writer" where
  "writer_write chunk w =
     (if wr_closed w then Inl WriterClosed
      else if int (length (wr_data w) + length chunk) > ag_max_bytes (wr_args w) then Inl ArtifactTooLarge
      else Inr (w\<lparr>wr_data := wr_data w @ chunk\<rparr>))"

definition new_artifact :: "digests \<Rightarrow> string \<Rightarrow> artifact_writer \<Rightarrow> time \<Rightarrow> artifact" where
  "new_artifact D dir w now =
     (let a = wr_args w in
      \<lparr>ar_id = wr_id w, ar_kind = ag_kind a, ar_size = length (wr_data w),
       ar_sha256 = dg_sha256 D (wr_data w), ar_git_blob_sha = blob_digest D (wr_data w),
       ar_file_name = ag_file_name a, ar_mime_type = ag_mime_type a,
       ar_source_transport = ag_source_transport a, ar_created_at = now,
       ar_expires_at = now + of_int (ag_ttl_seconds a), ar_status = ''READY'',
       ar_repository_scope = ag_repository_scope a, ar_principal_scope = ag_principal_scope a,
       ar_session_scope = ag_session_scope a, ar_locator = storage_path dir (wr_id w), ar_consumed_at = None\<rparr>)"

text \<open>
  \<open>disk_ok\<close> is false when an operation of the file system fails.  \<open>os.link\<close> refuses an existing
  path, and every failure removes the file again.
\<close>

definition writer_commit ::
  "digests \<Rightarrow> string \<Rightarrow> bool \<Rightarrow> artifact_writer \<Rightarrow> time \<Rightarrow> artifact_db \<Rightarrow>
   (artifact_error + artifact_ref) \<times> artifact_db" where
  "writer_commit D dir disk_ok w now db =
     (let path = storage_path dir (wr_id w) in
      if wr_closed w then (Inl WriterClosed, db)
      else if \<not> disk_ok \<or> ad_disk db path \<noteq> None \<or> row_of ar_id (wr_id w) (ad_rows db) \<noteq> None
      then (Inl StorageFailure, db\<lparr>ad_disk := unlink_storage path (ad_disk db)\<rparr>)
      else get_artifact (wr_id w) False now
        (db\<lparr>ad_rows := ad_rows db @ [new_artifact D dir w now],
            ad_disk := (ad_disk db)(path := Some (RegularFile (wr_data w)))\<rparr>))"

definition store_bytes ::
  "digests \<Rightarrow> string \<Rightarrow> bool \<Rightarrow> string \<Rightarrow> artifact_args \<Rightarrow> string \<Rightarrow> time \<Rightarrow> artifact_db \<Rightarrow>
   (artifact_error + artifact_ref) \<times> artifact_db" where
  "store_bytes D dir disk_ok data a i now db =
     (case open_writer i a of
        Inl e \<Rightarrow> (Inl e, db)
      | Inr w \<Rightarrow>
          (case writer_write data w of
             Inl e \<Rightarrow> (Inl e, db)
           | Inr w' \<Rightarrow> writer_commit D dir disk_ok w' now db))"

section \<open>Freezing, reading, cleaning\<close>

definition freeze_artifact ::
  "string \<Rightarrow> string \<Rightarrow> string \<Rightarrow> time \<Rightarrow> time \<Rightarrow> artifact_db \<Rightarrow>
   (artifact_error + artifact_ref) \<times> artifact_db" where
  "freeze_artifact i repository session expires_at now db =
     (case get_artifact i False now db of
        (Inl e, db1) \<Rightarrow> (Inl e, db1)
      | (Inr a, db1) \<Rightarrow>
          (let P = (\<lambda>r. ar_id r = i \<and> live_status (ar_status r)) in
           if row_count P (ad_rows db1) \<noteq> 1 then (Inl ArtifactUnavailable, db1)
           else get_artifact i False now (db1\<lparr>ad_rows := update_where P
             (\<lambda>r. r\<lparr>ar_status := ''FROZEN'', ar_repository_scope := repository, ar_session_scope := session,
               ar_expires_at := min expires_at (ar_expires_at a)\<rparr>) (ad_rows db1)\<rparr>)))"

definition read_artifact_bytes ::
  "digests \<Rightarrow> string \<Rightarrow> string \<Rightarrow> string \<Rightarrow> string \<Rightarrow> time \<Rightarrow> artifact_db \<Rightarrow>
   (artifact_error + string) \<times> artifact_db" where
  "read_artifact_bytes D dir i repository session now db =
     (case get_artifact i False now db of
        (Inl e, db1) \<Rightarrow> (Inl e, db1)
      | (Inr a, db1) \<Rightarrow>
          if repository \<noteq> [] \<and> ar_repository_scope a \<notin> {[], repository} then (Inl ArtifactScopeMismatch, db1)
          else if session \<noteq> [] \<and> ar_session_scope a \<notin> {[], session} then (Inl ArtifactScopeMismatch, db1)
          else (case ad_disk db1 (storage_path dir i) of
              Some (RegularFile data) \<Rightarrow>
                if length data = ar_size a \<and> dg_sha256 D data = ar_sha256 a then (Inr data, db1)
                else (Inl ArtifactUnavailable, snd (mark_corrupt i now db1))
            | _ \<Rightarrow> (Inl ArtifactUnavailable, snd (mark_corrupt i now db1))))"

definition artifact_due :: "time \<Rightarrow> artifact \<Rightarrow> bool" where
  "artifact_due now r \<longleftrightarrow> live_status (ar_status r) \<and> ar_expires_at r \<le> now"

definition cleanup_artifacts :: "time \<Rightarrow> artifact_db \<Rightarrow> nat \<times> artifact_db" where
  "cleanup_artifacts now db =
     (let due = filter (artifact_due now) (ad_rows db) in
      (length due, db\<lparr>
        ad_rows := update_where (artifact_due now) (\<lambda>r. r\<lparr>ar_status := ''EXPIRED'', ar_consumed_at := Some now\<rparr>) (ad_rows db),
        ad_disk := foldl (\<lambda>d r. unlink_storage (ar_locator r) d) (ad_disk db) due\<rparr>))"

end
