(* ===== verification/Change_Sets.thy ===== *)
theory Change_Sets
  imports Artifact_Store Operation_Journal
begin

text \<open>
  The prepared change sets of \<open>app/development_change_set_store.py\<close>: a frozen artifact that one
  caller may claim for a Git write.  A function may commit and then raise, so each gives an answer
  and the store; \<open>now\<close> is its reading of the clock.  The paths in change sets and dry-run results
  are texts.
\<close>

section \<open>Rows\<close>

datatype prepared_error =
    PreparedNotFound
  | PreparedExpired
  | PreparedConsumed
  | PreparedConflict
  | PreparedInProgress
  | PreparedRecoveryRequired
  | PreparedIntegrity
  | ArtifactRefused artifact_error

text \<open>The columns that \<open>_public\<close> keeps, and the row.\<close>

record prepared_public =
  pc_id :: string
  pc_artifact_id :: string
  pc_repository :: string
  pc_branch :: string
  pc_raw_size :: nat
  pc_raw_sha256 :: string
  pc_raw_git_blob_sha :: string
  pc_canonical_hash :: string
  pc_session_id :: string
  pc_session_revision :: int
  pc_workspace_id :: string
  pc_workspace_revision :: int
  pc_expected_head :: string
  pc_affected_paths :: "string list"
  pc_expected_blobs :: "(string \<times> json) list"
  pc_created_at :: time
  pc_expires_at :: time
  pc_status :: string
  pc_failure_code :: "string option"
  pc_executing_at :: "time option"
  pc_committed_at :: "time option"
  pc_terminal_at :: "time option"

record prepared = prepared_public +
  pc_execution_key :: "string option"
  pc_execution_fingerprint :: "string option"
  pc_committed_result :: "json option"
  pc_post_write_identity :: "json option"
  pc_prepare_key :: "string option"
  pc_prepare_fingerprint :: "string option"

record change_sets =
  cs_rows :: "prepared list"
  cs_artifacts :: artifact_db

definition prepared_ttl :: int where "prepared_ttl = 1800"
definition execution_stale_seconds :: time where "execution_stale_seconds = 300"

definition valid_prepared_id :: "string \<Rightarrow> bool" where
  "valid_prepared_id i = token_id ''pcs_'' i"

definition prepared_row :: "string \<Rightarrow> change_sets \<Rightarrow> prepared_error + prepared" where
  "prepared_row i s =
     (if \<not> valid_prepared_id i then Inl PreparedNotFound
      else (case row_of pc_id i (cs_rows s) of None \<Rightarrow> Inl PreparedNotFound | Some r \<Rightarrow> Inr r))"

section \<open>Expiry\<close>

definition prepared_due :: "time \<Rightarrow> prepared \<Rightarrow> bool" where
  "prepared_due now r \<longleftrightarrow>
     pc_status r \<in> {''PREPARED'', ''COMMITTED'', ''FAILED_TERMINAL''} \<and> pc_expires_at r \<le> now"

text \<open>The rows are expired in one transaction, then their artifacts; a missing artifact is ignored.\<close>

definition cleanup_prepared :: "time \<Rightarrow> change_sets \<Rightarrow> nat \<times> change_sets" where
  "cleanup_prepared now s =
     (let due = filter (prepared_due now) (cs_rows s) in
      (length due, s\<lparr>
        cs_rows := update_where (prepared_due now) (\<lambda>r. r\<lparr>pc_status := ''EXPIRED'', pc_terminal_at := Some now\<rparr>) (cs_rows s),
        cs_artifacts := foldl (\<lambda>db r. snd (expire_artifact (pc_artifact_id r) now db)) (cs_artifacts s) due\<rparr>))"

definition get_prepared_change_set ::
  "string \<Rightarrow> time \<Rightarrow> change_sets \<Rightarrow> (prepared_error + prepared_public) \<times> change_sets" where
  "get_prepared_change_set i now s =
     (case prepared_row i s of
        Inl e \<Rightarrow> (Inl e, s)
      | Inr r \<Rightarrow>
          if pc_status r \<noteq> ''EXECUTING'' \<and> pc_expires_at r \<le> now
          then (Inl PreparedExpired, snd (cleanup_prepared now s))
          else if pc_status r = ''EXPIRED'' then (Inl PreparedExpired, s)
          else (Inr (prepared_public.truncate r), s))"

section \<open>Preparing\<close>

record session_scope =
  sc_repository :: string
  sc_branch :: string
  sc_session_id :: string
  sc_session_revision :: int
  sc_workspace_id :: string
  sc_workspace_revision :: int

definition items_in :: "string \<Rightarrow> json \<Rightarrow> json list" where
  "items_in k v = (case json_get k v of Some (JList xs) \<Rightarrow> xs | _ \<Rightarrow> [])"

definition path_in :: "json \<Rightarrow> string option" where
  "path_in item = (case json_get ''path'' item of Some (JStr p) \<Rightarrow> if p = [] then None else Some p | _ \<Rightarrow> None)"

text \<open>\<open>str(value) or None\<close> for a text, and the assignments \<open>d[k] = v\<close> and \<open>d.setdefault(k, v)\<close>.\<close>

definition text_or_null :: "json option \<Rightarrow> json" where
  "text_or_null v = (case v of Some (JStr s) \<Rightarrow> if s = [] then JNull else JStr s | _ \<Rightarrow> JNull)"

definition set_default :: "string \<Rightarrow> json \<Rightarrow> (string \<times> json) list \<Rightarrow> (string \<times> json) list" where
  "set_default k v d = (if map_of d k = None then d @ [(k, v)] else d)"

definition affected_paths :: "json \<Rightarrow> string list" where
  "affected_paths result = sort (remdups (List.map_filter path_in (items_in ''changed_files'' result)))"

definition observed_blobs :: "json \<Rightarrow> (string \<times> json) list" where
  "observed_blobs result =
     foldl (\<lambda>d item. case (path_in item, json_get ''old_blob_sha'' item) of
         (Some p, Some v) \<Rightarrow> AList.update p v d | _ \<Rightarrow> d) []
       (items_in ''changed_files'' result)"

definition declared_blobs :: "string \<Rightarrow> json \<Rightarrow> (string \<times> json) list" where
  "declared_blobs mode change =
     (if mode = ''patch'' then
        (case json_get ''expected_blob_shas'' change of
           Some (JObj kvs) \<Rightarrow> map (\<lambda>(p, v). (p, text_or_null (Some v))) kvs | _ \<Rightarrow> [])
      else if mode = ''range'' then
        List.map_filter (\<lambda>item. case (path_in item, text_or_null (json_get ''expected_blob_sha'' item)) of
            (Some p, JStr s) \<Rightarrow> Some (p, JStr s) | _ \<Rightarrow> None) (items_in ''range_operations'' change)
      else if mode = ''upload'' then
        List.map_filter (\<lambda>item. map_option (\<lambda>p. (p, text_or_null (json_get ''expected_blob_sha'' item))) (path_in item))
          (items_in ''uploaded_files'' change)
      else [])"

definition expected_blobs :: "string \<Rightarrow> json \<Rightarrow> json \<Rightarrow> string list \<times> (string \<times> json) list" where
  "expected_blobs mode change result =
     (affected_paths result,
      foldl (\<lambda>d (p, v). set_default p v d) (observed_blobs result) (declared_blobs mode change))"

definition prepare_fingerprint ::
  "codec \<Rightarrow> session_scope \<Rightarrow> artifact_ref \<Rightarrow> string \<Rightarrow> string \<Rightarrow> string list \<Rightarrow> (string \<times> json) list \<Rightarrow> string" where
  "prepare_fingerprint K sc a canonical head paths blobs =
     request_sha K (JObj [(''repository'', JStr (sc_repository sc)), (''branch'', JStr (sc_branch sc)),
       (''development_session_id'', JStr (sc_session_id sc)), (''session_revision'', JInt (sc_session_revision sc)),
       (''workspace_id'', JStr (sc_workspace_id sc)), (''workspace_revision'', JInt (sc_workspace_revision sc)),
       (''expected_head_sha'', JStr head), (''raw_size_bytes'', JInt (int (ar_size a))),
       (''raw_sha256'', JStr (ar_sha256 a)), (''raw_git_blob_sha'', JStr (ar_git_blob_sha a)),
       (''canonical_change_set_hash'', JStr canonical), (''affected_paths'', JList (map JStr paths)),
       (''expected_blob_identities'', JObj blobs)])"

definition new_prepared ::
  "session_scope \<Rightarrow> artifact_ref \<Rightarrow> string \<Rightarrow> string \<Rightarrow> string list \<Rightarrow> (string \<times> json) list \<Rightarrow> string \<Rightarrow>
   string \<Rightarrow> string \<Rightarrow> time \<Rightarrow> time \<Rightarrow> prepared" where
  "new_prepared sc a canonical head paths blobs key fp i now expires =
     \<lparr>pc_id = i, pc_artifact_id = ar_id a, pc_repository = sc_repository sc, pc_branch = sc_branch sc,
      pc_raw_size = ar_size a, pc_raw_sha256 = ar_sha256 a, pc_raw_git_blob_sha = ar_git_blob_sha a,
      pc_canonical_hash = canonical, pc_session_id = sc_session_id sc,
      pc_session_revision = sc_session_revision sc, pc_workspace_id = sc_workspace_id sc,
      pc_workspace_revision = sc_workspace_revision sc, pc_expected_head = head,
      pc_affected_paths = paths, pc_expected_blobs = blobs, pc_created_at = now, pc_expires_at = expires,
      pc_status = ''PREPARED'', pc_failure_code = None, pc_executing_at = None, pc_committed_at = None,
      pc_terminal_at = None, pc_execution_key = None, pc_execution_fingerprint = None,
      pc_committed_result = None, pc_post_write_identity = None,
      pc_prepare_key = (if key = [] then None else Some key), pc_prepare_fingerprint = Some fp\<rparr>"

text \<open>The row that the partial unique index finds for a session and a prepare key.\<close>

definition prepared_under :: "string \<Rightarrow> string \<Rightarrow> prepared list \<Rightarrow> prepared option" where
  "prepared_under session key rows =
     List.find (\<lambda>r. pc_session_id r = session \<and> pc_prepare_key r = Some key) rows"

text \<open>The answer to a repeated prepare: the row and the mark \<open>replayed\<close>.\<close>

definition replay_prepare ::
  "prepared \<Rightarrow> string \<Rightarrow> string \<Rightarrow> time \<Rightarrow> change_sets \<Rightarrow>
   (prepared_error + prepared_public \<times> bool) \<times> change_sets" where
  "replay_prepare r fp artifact_id now s =
     (if pc_prepare_fingerprint r \<noteq> Some fp then (Inl PreparedConflict, s)
      else if pc_status r \<noteq> ''PREPARED'' \<or> pc_expires_at r \<le> now then (Inl PreparedConsumed, s)
      else (case consume_artifact artifact_id now (cs_artifacts s) of
          (Some e, db) \<Rightarrow> (Inl (ArtifactRefused e), s\<lparr>cs_artifacts := db\<rparr>)
        | (None, db) \<Rightarrow> (Inr (prepared_public.truncate r, True), s\<lparr>cs_artifacts := db\<rparr>)))"

text \<open>The insertion, refused by the primary key and the partial unique index.\<close>

definition insert_refused :: "prepared \<Rightarrow> prepared list \<Rightarrow> bool" where
  "insert_refused row rows \<longleftrightarrow> row_of pc_id (pc_id row) rows \<noteq> None \<or>
     (case pc_prepare_key row of None \<Rightarrow> False | Some key \<Rightarrow> prepared_under (pc_session_id row) key rows \<noteq> None)"

text \<open>The row is inserted, the artifact frozen; when that fails the row is deleted again.\<close>

definition insert_prepared ::
  "prepared \<Rightarrow> time \<Rightarrow> change_sets \<Rightarrow> (prepared_error + prepared_public \<times> bool) \<times> change_sets" where
  "insert_prepared row now s =
     (if insert_refused row (cs_rows s) then (Inl PreparedIntegrity, s)
      else (let s1 = s\<lparr>cs_rows := cs_rows s @ [row]\<rparr> in
        case freeze_artifact (pc_artifact_id row) (pc_repository row) (pc_session_id row) (pc_expires_at row)
            now (cs_artifacts s1) of
          (Inl e, db) \<Rightarrow> (Inl (ArtifactRefused e),
             s1\<lparr>cs_rows := filter (\<lambda>r. pc_id r \<noteq> pc_id row) (cs_rows s1), cs_artifacts := db\<rparr>)
        | (Inr a, db) \<Rightarrow>
            (case get_prepared_change_set (pc_id row) now (s1\<lparr>cs_artifacts := db\<rparr>) of
               (Inl e, s2) \<Rightarrow> (Inl e, s2)
             | (Inr p, s2) \<Rightarrow> (Inr (p, False), s2))))"

definition create_prepared_change_set ::
  "codec \<Rightarrow> artifact_ref \<Rightarrow> string \<Rightarrow> json \<Rightarrow> string \<Rightarrow> json \<Rightarrow> session_scope \<Rightarrow> string \<Rightarrow> string \<Rightarrow> int \<Rightarrow>
   string \<Rightarrow> time \<Rightarrow> change_sets \<Rightarrow> (prepared_error + prepared_public \<times> bool) \<times> change_sets" where
  "create_prepared_change_set K a mode change canonical result sc head key ttl i now s =
     (let s1 = snd (cleanup_prepared now s) in
      case get_artifact (ar_id a) False now (cs_artifacts s1) of
        (Inl e, db) \<Rightarrow> (Inl (ArtifactRefused e), s1\<lparr>cs_artifacts := db\<rparr>)
      | (Inr current, db) \<Rightarrow>
          if current \<noteq> a then (Inl PreparedNotFound, s1\<lparr>cs_artifacts := db\<rparr>)
          else (let s2 = s1\<lparr>cs_artifacts := db\<rparr>;
                    expires = min (now + of_int (max 60 (min ttl prepared_ttl))) (ar_expires_at a);
                    (paths, blobs) = expected_blobs mode change result;
                    fp = prepare_fingerprint K sc a canonical head paths blobs
                in case (if key = [] then None else prepared_under (sc_session_id sc) key (cs_rows s2)) of
                     Some r \<Rightarrow> replay_prepare r fp (ar_id a) now s2
                   | None \<Rightarrow> insert_prepared (new_prepared sc a canonical head paths blobs key fp i now expires) now s2))"

section \<open>Reading for the write\<close>

definition load_prepared_bytes ::
  "digests \<Rightarrow> string \<Rightarrow> string \<Rightarrow> time \<Rightarrow> change_sets \<Rightarrow>
   (prepared_error + prepared_public \<times> string) \<times> change_sets" where
  "load_prepared_bytes D dir i now s =
     (case get_prepared_change_set i now s of
        (Inl e, s1) \<Rightarrow> (Inl e, s1)
      | (Inr p, s1) \<Rightarrow>
          if pc_status p \<noteq> ''PREPARED'' then (Inl PreparedConsumed, s1)
          else (case read_artifact_bytes D dir (pc_artifact_id p) (pc_repository p) (pc_session_id p) now (cs_artifacts s1) of
              (Inl e, db) \<Rightarrow>
                (Inl (if e = ArtifactExpired then PreparedExpired else PreparedNotFound), s1\<lparr>cs_artifacts := db\<rparr>)
            | (Inr raw, db) \<Rightarrow>
                if length raw \<noteq> pc_raw_size p then (Inl PreparedNotFound, s1\<lparr>cs_artifacts := db\<rparr>)
                else (case get_artifact (pc_artifact_id p) False now db of
                    (Inl e, db') \<Rightarrow> (Inl (ArtifactRefused e), s1\<lparr>cs_artifacts := db'\<rparr>)
                  | (Inr a, db') \<Rightarrow>
                      if ar_sha256 a \<noteq> pc_raw_sha256 p then (Inl PreparedNotFound, s1\<lparr>cs_artifacts := db'\<rparr>)
                      else (Inr (p, raw), s1\<lparr>cs_artifacts := db'\<rparr>))))"

section \<open>Claiming and recovering\<close>

definition replay_write ::
  "string \<Rightarrow> string \<Rightarrow> string \<Rightarrow> time \<Rightarrow> change_sets \<Rightarrow> (prepared_error + json option) \<times> change_sets" where
  "replay_write i key fp now s =
     (case prepared_row i s of
        Inl e \<Rightarrow> (Inl e, s)
      | Inr r \<Rightarrow>
          if pc_status r = ''PREPARED'' then
            (if pc_expires_at r \<le> now then (Inl PreparedExpired, snd (cleanup_prepared now s)) else (Inr None, s))
          else if pc_status r = ''EXPIRED'' then (Inl PreparedExpired, s)
          else (let same_key = (pc_execution_key r = Some key) in
            if same_key \<and> pc_execution_fingerprint r \<noteq> Some fp then (Inl PreparedConflict, s)
            else (case (same_key \<and> pc_status r = ''COMMITTED'', pc_committed_result r) of
                (True, Some result) \<Rightarrow> (Inr (Some (json_put ''replayed'' (JBool True) result)), s)
              | _ \<Rightarrow> (Inl (if same_key \<and> pc_status r = ''EXECUTING'' then PreparedInProgress else PreparedConsumed), s))))"

definition claimable :: "string \<Rightarrow> time \<Rightarrow> prepared \<Rightarrow> bool" where
  "claimable i now r \<longleftrightarrow> pc_id r = i \<and> pc_status r = ''PREPARED'' \<and> pc_expires_at r > now"

definition claim_row :: "string \<Rightarrow> string \<Rightarrow> time \<Rightarrow> prepared \<Rightarrow> prepared" where
  "claim_row key fp now r = r\<lparr>pc_status := ''EXECUTING'', pc_execution_key := Some key,
     pc_execution_fingerprint := Some fp, pc_executing_at := Some now\<rparr>"

text \<open>\<open>Inr None\<close>: the caller holds the claim.\<close>

definition claim_for_write ::
  "string \<Rightarrow> string \<Rightarrow> string \<Rightarrow> time \<Rightarrow> change_sets \<Rightarrow> (prepared_error + json option) \<times> change_sets" where
  "claim_for_write i key fp now s =
     (case replay_write i key fp now s of
        (Inl e, s1) \<Rightarrow> (Inl e, s1)
      | (Inr (Some result), s1) \<Rightarrow> (Inr (Some result), s1)
      | (Inr None, s1) \<Rightarrow>
          (let s2 = s1\<lparr>cs_rows := update_where (claimable i now) (claim_row key fp now) (cs_rows s1)\<rparr> in
           if row_count (claimable i now) (cs_rows s1) = 1 then (Inr None, s2)
           else replay_write i key fp now s2))"

datatype recovery =
    RetryUnstarted
  | ResumeGitVerified string json
  | ResumeSuccessVerified string json

definition executing_since :: "prepared \<Rightarrow> time" where
  "executing_since r = (case pc_executing_at r of Some t \<Rightarrow> if t \<noteq> 0 then t else pc_created_at r | None \<Rightarrow> pc_created_at r)"

definition held_claim :: "string \<Rightarrow> string \<Rightarrow> string \<Rightarrow> prepared \<Rightarrow> bool" where
  "held_claim i key fp r \<longleftrightarrow> pc_id r = i \<and> pc_status r = ''EXECUTING'' \<and>
     pc_execution_key r = Some key \<and> pc_execution_fingerprint r = Some fp"

definition release_row :: "prepared \<Rightarrow> prepared" where
  "release_row r = r\<lparr>pc_status := ''PREPARED'', pc_execution_key := None,
     pc_execution_fingerprint := None, pc_executing_at := None\<rparr>"

definition release_stale_claim ::
  "string \<Rightarrow> string \<Rightarrow> string \<Rightarrow> change_sets \<Rightarrow> (prepared_error + recovery option) \<times> change_sets" where
  "release_stale_claim i key fp s =
     (if row_count (held_claim i key fp) (cs_rows s) \<noteq> 1 then (Inl PreparedRecoveryRequired, s)
      else (Inr (Some RetryUnstarted), s\<lparr>cs_rows := update_where (held_claim i key fp) release_row (cs_rows s)\<rparr>))"

text \<open>
  A recovery reads the row, then the journal, and releases the claim in a transaction of its own;
  other callers run in between.  Reading the row answers, or gives the time since which the claim
  is held.
\<close>

definition recovery_row ::
  "string \<Rightarrow> string \<Rightarrow> string \<Rightarrow> change_sets \<Rightarrow> (prepared_error + recovery option) + time" where
  "recovery_row i key fp s =
     (case prepared_row i s of
        Inl e \<Rightarrow> Inl (Inl e)
      | Inr r \<Rightarrow>
          if pc_status r \<noteq> ''EXECUTING'' then Inl (Inr None)
          else if pc_execution_key r \<noteq> Some key then Inl (Inl PreparedConsumed)
          else if pc_execution_fingerprint r \<noteq> Some fp then Inl (Inl PreparedConflict)
          else Inr (executing_since r))"

text \<open>Reading the journal answers, or decides to release: \<open>None\<close>.\<close>

definition recovery_operation :: "string \<Rightarrow> time \<Rightarrow> time \<Rightarrow> journal \<Rightarrow> (prepared_error + recovery option) option" where
  "recovery_operation key since now J =
     (let age = max 0 (now - since) in
      case idempotent_existing key J of
        None \<Rightarrow> if age \<le> execution_stale_seconds then Some (Inl PreparedInProgress) else None
      | Some oper \<Rightarrow>
          Some (case (op_status oper \<in> {''git_verified'', ''success_verified''}, op_result oper) of
             (True, Some result) \<Rightarrow>
               Inr (Some (if op_status oper = ''success_verified''
                  then ResumeSuccessVerified (op_id oper) result
                  else ResumeGitVerified (op_id oper) result))
           | _ \<Rightarrow>
               Inl (if op_status oper \<in> {''in_progress'', ''running''} \<and> age \<le> execution_stale_seconds
                  then PreparedInProgress else PreparedRecoveryRequired)))"

text \<open>A recovery with nothing in between.\<close>

definition recover_executing_write ::
  "string \<Rightarrow> string \<Rightarrow> string \<Rightarrow> time \<Rightarrow> journal \<Rightarrow> change_sets \<Rightarrow>
   (prepared_error + recovery option) \<times> change_sets" where
  "recover_executing_write i key fp now J s =
     (case recovery_row i key fp s of
        Inl answer \<Rightarrow> (answer, s)
      | Inr since \<Rightarrow>
          (case recovery_operation key since now J of
             Some answer \<Rightarrow> (answer, s)
           | None \<Rightarrow> release_stale_claim i key fp s))"

section \<open>Outcomes\<close>

definition unsafe_result_keys :: "string list" where
  "unsafe_result_keys =
     [''diff_preview'', ''patch'', ''content'', ''change_set_json'', ''download_url'', ''storage_locator'']"

definition safe_result :: "(string \<times> json) list \<Rightarrow> (string \<times> json) list" where
  "safe_result kvs = filter (\<lambda>(k, v). k \<notin> set unsafe_result_keys) kvs"

definition post_write_keys :: "string list" where
  "post_write_keys = [''commit_sha'', ''tree_sha'', ''verified_branch_head_sha'', ''verified_commit_sha'',
     ''verified_tree_sha'', ''write_verified'']"

definition post_write_identity :: "(string \<times> json) list \<Rightarrow> json" where
  "post_write_identity safe =
     JObj (List.map_filter (\<lambda>k. map_option (Pair k) (map_of safe k)) post_write_keys)"

definition executing :: "string \<Rightarrow> prepared \<Rightarrow> bool" where
  "executing i r \<longleftrightarrow> pc_id r = i \<and> pc_status r = ''EXECUTING''"

definition commit_row :: "(string \<times> json) list \<Rightarrow> time \<Rightarrow> prepared \<Rightarrow> prepared" where
  "commit_row safe now r = r\<lparr>pc_status := ''COMMITTED'', pc_committed_result := Some (JObj safe),
     pc_post_write_identity := Some (post_write_identity safe), pc_committed_at := Some now,
     pc_terminal_at := Some now\<rparr>"

definition mark_committed ::
  "string \<Rightarrow> (string \<times> json) list \<Rightarrow> time \<Rightarrow> change_sets \<Rightarrow> prepared_error option \<times> change_sets" where
  "mark_committed i kvs now s =
     (case prepared_row i s of
        Inl e \<Rightarrow> (Some e, s)
      | Inr r \<Rightarrow>
          if row_count (executing i) (cs_rows s) \<noteq> 1 then (Some PreparedConsumed, s)
          else (None, s\<lparr>cs_rows := update_where (executing i) (commit_row (safe_result kvs) now) (cs_rows s),
              cs_artifacts := snd (consume_artifact (pc_artifact_id r) now (cs_artifacts s))\<rparr>))"

definition fail_row :: "string \<Rightarrow> time \<Rightarrow> prepared \<Rightarrow> prepared" where
  "fail_row code now r = r\<lparr>pc_status := ''FAILED_TERMINAL'', pc_failure_code := Some code, pc_terminal_at := Some now\<rparr>"

definition mark_failed_terminal ::
  "string \<Rightarrow> string \<Rightarrow> time \<Rightarrow> change_sets \<Rightarrow> prepared_error option \<times> change_sets" where
  "mark_failed_terminal i code now s =
     (case prepared_row i s of
        Inl e \<Rightarrow> (Some e, s)
      | Inr r \<Rightarrow> (None, s\<lparr>cs_rows := update_where (executing i) (fail_row code now) (cs_rows s),
          cs_artifacts := snd (consume_artifact (pc_artifact_id r) now (cs_artifacts s))\<rparr>))"

end
