(* ===== verification/Change_Set_Facts.thy ===== *)
theory Change_Set_Facts
  imports Change_Sets Journal_Facts
begin

text \<open>
  The life of a prepared change set: the moves of one row, that every function only makes such
  moves, and what a row keeps over any interleaving with the operation journal.
\<close>

section \<open>The moves of a row\<close>

text \<open>\<open>L\<close> are the ids and keys whose claims a recovery has decided to release.\<close>

inductive prepared_move :: "(string \<times> string) set \<Rightarrow> prepared \<Rightarrow> prepared \<Rightarrow> bool" for L where
  claim: "pc_status r = ''PREPARED'' \<Longrightarrow> prepared_move L r (claim_row key fp now r)"
| release: "pc_status r = ''EXECUTING'' \<Longrightarrow> pc_execution_key r = Some key \<Longrightarrow>
    (pc_id r, key) \<in> L \<Longrightarrow> prepared_move L r (release_row r)"
| commit: "pc_status r = ''EXECUTING'' \<Longrightarrow> prepared_move L r (commit_row safe now r)"
| fail: "pc_status r = ''EXECUTING'' \<Longrightarrow> prepared_move L r (fail_row code now r)"
| expire: "prepared_due now r \<Longrightarrow> prepared_move L r (r\<lparr>pc_status := ''EXPIRED'', pc_terminal_at := Some now\<rparr>)"

text \<open>What no move touches: the row with the columns of its life blanked.\<close>

definition prepared_identity :: "prepared \<Rightarrow> prepared" where
  "prepared_identity r = r\<lparr>pc_status := [], pc_failure_code := None, pc_executing_at := None,
     pc_committed_at := None, pc_terminal_at := None, pc_execution_key := None,
     pc_execution_fingerprint := None, pc_committed_result := None, pc_post_write_identity := None\<rparr>"

lemmas move_defs = claim_row_def release_row_def commit_row_def fail_row_def

lemma move_identity: "prepared_move L r r' \<Longrightarrow> prepared_identity r' = prepared_identity r"
  by (induction rule: prepared_move.induct) (simp_all add: prepared_identity_def move_defs)

lemma identity_fields:
  assumes "prepared_identity r' = prepared_identity r"
  shows "pc_id r' = pc_id r" "pc_artifact_id r' = pc_artifact_id r" "pc_repository r' = pc_repository r"
    "pc_raw_size r' = pc_raw_size r" "pc_raw_sha256 r' = pc_raw_sha256 r" "pc_expires_at r' = pc_expires_at r"
    "pc_session_id r' = pc_session_id r" "pc_prepare_key r' = pc_prepare_key r"
    "pc_prepare_fingerprint r' = pc_prepare_fingerprint r" "pc_expected_head r' = pc_expected_head r"
    "pc_canonical_hash r' = pc_canonical_hash r"
  using arg_cong [OF assms, of pc_id] arg_cong [OF assms, of pc_artifact_id] arg_cong [OF assms, of pc_repository]
    arg_cong [OF assms, of pc_raw_size] arg_cong [OF assms, of pc_raw_sha256] arg_cong [OF assms, of pc_expires_at]
    arg_cong [OF assms, of pc_session_id] arg_cong [OF assms, of pc_prepare_key]
    arg_cong [OF assms, of pc_prepare_fingerprint] arg_cong [OF assms, of pc_expected_head]
    arg_cong [OF assms, of pc_canonical_hash]
  by (simp_all add: prepared_identity_def)

text \<open>A table evolves when every row makes moves and ids stay unique.\<close>

definition moves :: "(string \<times> string) set \<Rightarrow> prepared \<Rightarrow> prepared \<Rightarrow> bool" where
  "moves L = (prepared_move L)\<^sup>*\<^sup>*"

definition rows_evolve :: "(string \<times> string) set \<Rightarrow> prepared list \<Rightarrow> prepared list \<Rightarrow> bool" where
  "rows_evolve L xs ys \<longleftrightarrow> (\<forall>r \<in> set xs. \<exists>r' \<in> set ys. moves L r r') \<and>
     (distinct (map pc_id xs) \<longrightarrow> distinct (map pc_id ys))"

lemma moves_refl [simp, intro]: "moves L r r"
  by (simp add: moves_def)

lemma moves_trans: "moves L a b \<Longrightarrow> moves L b c \<Longrightarrow> moves L a c"
  by (simp add: moves_def)

lemma moves_identity: "moves L r r' \<Longrightarrow> prepared_identity r' = prepared_identity r"
  unfolding moves_def by (induction rule: rtranclp_induct) (auto dest: move_identity)

lemma evolve_refl [simp, intro]: "rows_evolve L xs xs"
  by (auto simp: rows_evolve_def)

lemma evolve_trans: "rows_evolve L xs ys \<Longrightarrow> rows_evolve L ys zs \<Longrightarrow> rows_evolve L xs zs"
  unfolding rows_evolve_def by (meson moves_trans)

lemma evolve_update:
  assumes "\<And>r. P r \<Longrightarrow> prepared_move L r (f r)"
  shows "rows_evolve L xs (update_where P f xs)"
proof -
  have "\<exists>r' \<in> set (update_where P f xs). moves L r r'" if "r \<in> set xs" for r
  proof -
    have "moves L r (if P r then f r else r)" using assms by (auto simp: moves_def)
    with that show ?thesis unfolding set_update_where by blast
  qed
  moreover have "map pc_id (update_where P f xs) = map pc_id xs"
    using identity_fields(1) [OF move_identity [OF assms]] by (simp add: map_update_where)
  ultimately show ?thesis by (simp add: rows_evolve_def)
qed

lemma evolve_insert: "row_of pc_id (pc_id r) xs = None \<Longrightarrow> rows_evolve L xs (xs @ [r])"
  unfolding rows_evolve_def by (auto simp: row_of_None_iff)

section \<open>Every function makes only moves\<close>

lemma cleanup_evolves: "cleanup_prepared now s = (n, s') \<Longrightarrow> rows_evolve L (cs_rows s) (cs_rows s')"
  by (auto simp: cleanup_prepared_def Let_def intro!: evolve_update prepared_move.expire)

lemma cleanup_snd_evolves: "rows_evolve L (cs_rows s) (cs_rows (snd (cleanup_prepared now s)))"
  by (cases "cleanup_prepared now s") (auto intro: cleanup_evolves)

lemma get_evolves: "get_prepared_change_set i now s = (a, s') \<Longrightarrow> rows_evolve L (cs_rows s) (cs_rows s')"
  by (auto simp: get_prepared_change_set_def cleanup_snd_evolves split: sum.splits if_splits)

lemma load_evolves:
  assumes "load_prepared_bytes D dir i now s = (a, s')"
  shows "rows_evolve L (cs_rows s) (cs_rows s')"
proof -
  obtain b s1 where g: "get_prepared_change_set i now s = (b, s1)" by fastforce
  with assms have "cs_rows s' = cs_rows s1"
    by (auto simp: load_prepared_bytes_def split: sum.splits prod.splits if_splits)
  with get_evolves [OF g] show ?thesis by simp
qed

lemma replay_evolves: "replay_write i key fp now s = (a, s') \<Longrightarrow> rows_evolve L (cs_rows s) (cs_rows s')"
  by (auto simp: replay_write_def Let_def cleanup_snd_evolves split: sum.splits if_splits option.splits bool.splits)

lemma claim_evolves:
  assumes "claim_for_write i key fp now s = (a, s')"
  shows "rows_evolve L (cs_rows s) (cs_rows s')"
proof -
  obtain b s1 where r: "replay_write i key fp now s = (b, s1)" by fastforce
  let ?s2 = "s1\<lparr>cs_rows := update_where (claimable i now) (claim_row key fp now) (cs_rows s1)\<rparr>"
  have "rows_evolve L (cs_rows s1) (cs_rows ?s2)"
    by (auto intro!: evolve_update prepared_move.claim simp: claimable_def)
  with replay_evolves [OF r] have e: "rows_evolve L (cs_rows s) (cs_rows ?s2)" by (rule evolve_trans)
  from assms r consider "s' = s1" | "s' = ?s2" | "replay_write i key fp now ?s2 = (a, s')"
    by (auto simp: claim_for_write_def Let_def split: sum.splits option.splits if_splits)
  then show ?thesis
  proof cases
    case 3
    from evolve_trans [OF e replay_evolves [OF 3]] show ?thesis .
  qed (use e replay_evolves [OF r] in auto)
qed

lemma release_evolves:
  "release_stale_claim i key fp s = (a, s') \<Longrightarrow> (i, key) \<in> L \<Longrightarrow> rows_evolve L (cs_rows s) (cs_rows s')"
  by (auto simp: release_stale_claim_def held_claim_def intro!: evolve_update prepared_move.release split: if_splits)

lemma commit_evolves: "mark_committed i kvs now s = (e, s') \<Longrightarrow> rows_evolve L (cs_rows s) (cs_rows s')"
  by (auto simp: mark_committed_def executing_def intro!: evolve_update prepared_move.commit
      split: sum.splits if_splits)

lemma fail_evolves: "mark_failed_terminal i code now s = (e, s') \<Longrightarrow> rows_evolve L (cs_rows s) (cs_rows s')"
  by (auto simp: mark_failed_terminal_def executing_def intro!: evolve_update prepared_move.fail
      split: sum.splits)

lemma insert_evolves:
  assumes "insert_prepared row now s = (a, s')"
  shows "rows_evolve L (cs_rows s) (cs_rows s')"
proof (cases "insert_refused row (cs_rows s)")
  case False
  then have fresh: "row_of pc_id (pc_id row) (cs_rows s) = None" by (simp add: insert_refused_def)
  then have f: "filter (\<lambda>r. pc_id r \<noteq> pc_id row) (cs_rows s) = cs_rows s"
    by (auto simp: row_of_None_iff image_iff intro!: filter_True)
  from evolve_insert [OF fresh] have ins: "rows_evolve L (cs_rows s) (cs_rows s @ [row])" .
  show ?thesis
  proof (cases "freeze_artifact (pc_artifact_id row) (pc_repository row) (pc_session_id row) (pc_expires_at row)
      now (cs_artifacts s)")
    case fr: (Pair b db)
    show ?thesis
    proof (cases b)
      case (Inl e)
      with assms False fr f show ?thesis by (auto simp: insert_prepared_def)
    next
      case (Inr x)
      obtain c s2 where g: "get_prepared_change_set (pc_id row) now
          (s\<lparr>cs_rows := cs_rows s @ [row], cs_artifacts := db\<rparr>) = (c, s2)" by fastforce
      with assms False fr Inr have "s' = s2"
        by (auto simp: insert_prepared_def split: sum.splits)
      with get_evolves [OF g, of L] ins show ?thesis by (auto intro: evolve_trans)
    qed
  qed
qed (use assms in \<open>simp add: insert_prepared_def\<close>)

lemma replay_prepare_rows: "replay_prepare r fp i now s = (a, s') \<Longrightarrow> cs_rows s' = cs_rows s"
  by (auto simp: replay_prepare_def split: if_splits prod.splits option.splits)

lemma prepared_create_cases:
  assumes "create_prepared_change_set K a mode change canonical result sc head key ttl i now s = (out, s')"
  obtains (kept) "cs_rows s' = cs_rows (snd (cleanup_prepared now s))" "\<And>p. out \<noteq> Inr (p, False)"
  | (inserted) row s2 where "cs_rows s2 = cs_rows (snd (cleanup_prepared now s))" "insert_prepared row now s2 = (out, s')"
      "pc_id row = i" "pc_raw_sha256 row = ar_sha256 a" "pc_raw_size row = ar_size a"
      "pc_status row = ''PREPARED''" "pc_artifact_id row = ar_id a"
proof -
  let ?s1 = "snd (cleanup_prepared now s)"
  obtain b db where g: "get_artifact (ar_id a) False now (cs_artifacts ?s1) = (b, db)" by fastforce
  let ?s2 = "?s1\<lparr>cs_artifacts := db\<rparr>"
  show ?thesis
  proof (cases b)
    case (Inl e)
    with assms g show ?thesis by (intro kept) (auto simp: create_prepared_change_set_def Let_def)
  next
    case (Inr current)
    show ?thesis
    proof (cases "current = a")
      case False
      with assms g Inr show ?thesis by (intro kept) (auto simp: create_prepared_change_set_def Let_def)
    next
      case True
      obtain paths blobs where pb: "expected_blobs mode change result = (paths, blobs)" by fastforce
      let ?fp = "prepare_fingerprint K sc a canonical head paths blobs"
      let ?exp = "min (now + of_int (max 60 (min ttl prepared_ttl))) (ar_expires_at a)"
      let ?row = "new_prepared sc a canonical head paths blobs key ?fp i now ?exp"
      show ?thesis
      proof (cases "if key = [] then None else prepared_under (sc_session_id sc) key (cs_rows ?s2)")
        case None
        with assms g Inr True pb have "insert_prepared ?row now ?s2 = (out, s')"
          by (simp add: create_prepared_change_set_def Let_def)
        then show ?thesis by (rule inserted [rotated]) (simp_all add: new_prepared_def)
      next
        case (Some r)
        with assms g Inr True pb have "replay_prepare r ?fp (ar_id a) now ?s2 = (out, s')"
          by (simp add: create_prepared_change_set_def Let_def)
        with replay_prepare_rows [OF this] show ?thesis
          by (intro kept) (auto simp: replay_prepare_def split: if_splits prod.splits option.splits)
      qed
    qed
  qed
qed

lemma create_evolves:
  assumes "create_prepared_change_set K a mode change canonical result sc head key ttl i now s = (out, s')"
  shows "rows_evolve L (cs_rows s) (cs_rows s')"
  using assms
proof (cases rule: prepared_create_cases)
  case kept
  then show ?thesis by (simp add: cleanup_snd_evolves)
next
  case (inserted row s2)
  then show ?thesis using cleanup_snd_evolves [of L s now] insert_evolves [OF inserted(2), of L]
    by (auto intro: evolve_trans)
qed

section \<open>Interleaving with the journal\<close>

text \<open>
  The recoveries under way: after the reading of the row, and after the decision to release.
  \<close>

datatype recovering =
    Checked string string string time
  | Releasing string string string

type_synonym prepared_sys = "change_sets \<times> journal \<times> recovering list"

text \<open>
  One function of the change set store, one of the journal, one of the three statements of a
  recovery, or anything that happens to the artifacts: a rule for each.  A recovery that answers
  leaves the list.
\<close>

inductive prepared_step :: "codec \<Rightarrow> digests \<Rightarrow> string \<Rightarrow> prepared_sys \<Rightarrow> prepared_sys \<Rightarrow> bool"
  for K D dir where
  create: "create_prepared_change_set K a mode change canonical result sc head key ttl i now s = (out, s') \<Longrightarrow>
    prepared_step K D dir (s, J, R) (s', J, R)"
| get: "get_prepared_change_set i now s = (got, s') \<Longrightarrow> prepared_step K D dir (s, J, R) (s', J, R)"
| load: "load_prepared_bytes D dir i now s = (raw, s') \<Longrightarrow> prepared_step K D dir (s, J, R) (s', J, R)"
| replay: "replay_write i key fp now s = (answer, s') \<Longrightarrow> prepared_step K D dir (s, J, R) (s', J, R)"
| claim: "claim_for_write i key fp now s = (answer, s') \<Longrightarrow> prepared_step K D dir (s, J, R) (s', J, R)"
| recover_row: "recovery_row i key fp s = Inr since \<Longrightarrow>
    prepared_step K D dir (s, J, R) (s, J, Checked i key fp since # R)"
| recover_release: "Checked i key fp since \<in> set R \<Longrightarrow> recovery_operation key since now J = None \<Longrightarrow>
    prepared_step K D dir (s, J, R) (s, J, Releasing i key fp # remove1 (Checked i key fp since) R)"
| recover_answer: "Checked i key fp since \<in> set R \<Longrightarrow> recovery_operation key since now J = Some answer \<Longrightarrow>
    prepared_step K D dir (s, J, R) (s, J, remove1 (Checked i key fp since) R)"
| release: "Releasing i key fp \<in> set R \<Longrightarrow> release_stale_claim i key fp s = (rec, s') \<Longrightarrow>
    prepared_step K D dir (s, J, R) (s', J, remove1 (Releasing i key fp) R)"
| commit: "mark_committed i kvs now s = (e, s') \<Longrightarrow> prepared_step K D dir (s, J, R) (s', J, R)"
| fail: "mark_failed_terminal i code now s = (e, s') \<Longrightarrow> prepared_step K D dir (s, J, R) (s', J, R)"
| cleanup: "cleanup_prepared now s = (n, s') \<Longrightarrow> prepared_step K D dir (s, J, R) (s', J, R)"
| artifacts: "prepared_step K D dir (s, J, R) (s\<lparr>cs_artifacts := db\<rparr>, J, R)"
| journal: "journal_step K J J' \<Longrightarrow> prepared_step K D dir (s, J, R) (s, J', R)"

text \<open>A recovery that finds no operation and an old claim goes through the three statements.\<close>

lemma recover_executing_write_steps:
  assumes "recover_executing_write i key fp now J s = (answer, s')"
  shows "(prepared_step K D dir)\<^sup>*\<^sup>* (s, J, R) (s', J, R)"
proof (cases "recovery_row i key fp s")
  case (Inr since)
  note row = prepared_step.recover_row [OF Inr, of K D dir J R]
  show ?thesis
  proof (cases "recovery_operation key since now J")
    case None
    with assms Inr have "release_stale_claim i key fp s = (answer, s')" by (simp add: recover_executing_write_def)
    from prepared_step.release [OF _ this, of "Releasing i key fp # R" K D dir J]
    have "prepared_step K D dir (s, J, Releasing i key fp # R) (s', J, R)" by simp
    with prepared_step.recover_release [OF _ None, of i fp "Checked i key fp since # R" K D dir s] row show ?thesis
      by (auto intro: converse_rtranclp_into_rtranclp r_into_rtranclp)
  next
    case (Some a)
    with assms Inr have "s' = s" by (simp add: recover_executing_write_def)
    with prepared_step.recover_answer [OF _ Some, of i fp "Checked i key fp since # R" K D dir s] row show ?thesis
      by (auto intro: converse_rtranclp_into_rtranclp r_into_rtranclp)
  qed
qed (use assms in \<open>simp add: recover_executing_write_def\<close>)

definition prepared_start :: "prepared_sys \<Rightarrow> bool" where
  "prepared_start x \<longleftrightarrow> cs_rows (fst x) = [] \<and> snd x = ([], [])"

definition prepared_inv :: "prepared_sys \<Rightarrow> bool" where
  "prepared_inv x \<longleftrightarrow> distinct (map pc_id (cs_rows (fst x))) \<and> journal_inv (fst (snd x))"

definition releasable :: "recovering list \<Rightarrow> (string \<times> string) set" where
  "releasable R = {(i, key). \<exists>fp. Releasing i key fp \<in> set R}"

text \<open>What a step does beside the rows: a step of the journal, or a decision to release what has no operation.\<close>

definition beside :: "codec \<Rightarrow> journal \<times> recovering list \<Rightarrow> journal \<times> recovering list \<Rightarrow> bool" where
  "beside K y z \<longleftrightarrow> (fst z = fst y \<or> journal_step K (fst y) (fst z)) \<and>
     (\<forall>i key. (i, key) \<in> releasable (snd z) \<longrightarrow>
        (i, key) \<in> releasable (snd y) \<or> idempotent_existing key (fst y) = None)"

lemma releasable_simps [simp]:
  "releasable (Checked i key fp t # R) = releasable R"
  "releasable (Releasing i key fp # R) = insert (i, key) (releasable R)"
  by (auto simp: releasable_def)

lemma releasable_remove1: "x \<in> releasable (remove1 y R) \<Longrightarrow> x \<in> releasable R"
  by (auto simp: releasable_def dest: notin_set_remove1 [rotated] set_remove1_subset [THEN subsetD])

lemma releasing_releasable: "Releasing i key fp \<in> set R \<Longrightarrow> (i, key) \<in> releasable R"
  by (auto simp: releasable_def)

lemma release_decided: "recovery_operation key since now J = None \<Longrightarrow> idempotent_existing key J = None"
  by (auto simp: recovery_operation_def Let_def split: option.splits)

lemma beside_refl [simp, intro]: "beside K y y"
  by (simp add: beside_def)

lemma step_evolves:
  assumes "prepared_step K D dir x y"
  shows "rows_evolve (releasable (snd (snd x))) (cs_rows (fst x)) (cs_rows (fst y)) \<and> beside K (snd x) (snd y)"
  using assms
proof cases
  case (recover_release i key fp since R now J s)
  then show ?thesis using release_decided [OF recover_release(4)]
    by (auto simp: beside_def dest: releasable_remove1)
next
  case (release i key fp R s rec s' J)
  then show ?thesis using release_evolves [OF release(4) releasing_releasable [OF release(3)]]
    by (auto simp: beside_def dest: releasable_remove1)
qed (auto simp: beside_def dest: releasable_remove1 intro: create_evolves get_evolves load_evolves replay_evolves
    claim_evolves commit_evolves fail_evolves cleanup_evolves)

lemma prepared_step_inv: "prepared_step K D dir x y \<Longrightarrow> prepared_inv x \<Longrightarrow> prepared_inv y"
  using step_evolves [of K D dir x y] journal_step_inv [of K "fst (snd x)" "fst (snd y)"]
  by (auto simp: prepared_inv_def rows_evolve_def beside_def)

interpretation prepared_store: step_invariant "prepared_step K D dir" prepared_inv for K D dir
  by unfold_locales (rule prepared_step_inv)

lemma start_inv: "prepared_start x \<Longrightarrow> prepared_inv x"
  by (simp add: prepared_start_def prepared_inv_def journal_inv_def)

text \<open>A fact about rows that moves keep while \<open>Q\<close> holds beside them holds on, when steps keep \<open>Q\<close>.\<close>

lemma row_run:
  assumes run: "(prepared_step K D dir)\<^sup>*\<^sup>* x y" and inv: "prepared_inv x"
    and row: "row_of pc_id i (cs_rows (fst x)) = Some r" and P: "P r" and Q: "Q (snd x)"
    and keep: "\<And>z r r'. Q z \<Longrightarrow> prepared_move (releasable (snd z)) r r' \<Longrightarrow> pc_id r = i \<Longrightarrow> P r \<Longrightarrow> P r'"
    and aside: "\<And>z z'. beside K z z' \<Longrightarrow> Q z \<Longrightarrow> Q z'"
  shows "\<exists>r'. row_of pc_id i (cs_rows (fst y)) = Some r' \<and> P r' \<and> prepared_identity r' = prepared_identity r \<and> Q (snd y)"
  using run
proof (induction rule: rtranclp_induct)
  case base
  from row P Q show ?case by blast
next
  case (step y z)
  from step.IH obtain r1 where r1: "row_of pc_id i (cs_rows (fst y)) = Some r1" "P r1" "Q (snd y)"
    "prepared_identity r1 = prepared_identity r" by blast
  from step_evolves [OF step(2)] have e: "rows_evolve (releasable (snd (snd y))) (cs_rows (fst y)) (cs_rows (fst z))"
    and b: "beside K (snd y) (snd z)" by auto
  have "r1 \<in> set (cs_rows (fst y))" using row_of_SomeD [OF r1(1)] by blast
  with e obtain r2 where r2: "r2 \<in> set (cs_rows (fst z))" "moves (releasable (snd (snd y))) r1 r2"
    unfolding rows_evolve_def by blast
  have i1: "pc_id r1 = i" using row_of_key [OF r1(1)] .
  have "P r2 \<and> pc_id r2 = i"
    using r2(2) unfolding moves_def
  proof (induction rule: rtranclp_induct)
    case (step a c)
    then show ?case using keep [OF r1(3) step(2)] identity_fields(1) [OF move_identity [OF step(2)]] by simp
  qed (use r1(2) i1 in simp)
  moreover have id: "prepared_identity r2 = prepared_identity r1" using moves_identity [OF r2(2)] .
  moreover have "row_of pc_id i (cs_rows (fst z)) = Some r2"
  proof (rule row_of_distinct [OF _ r2(1)])
    show "distinct (map pc_id (cs_rows (fst z)))"
      using prepared_store.steps_inv [OF rtranclp.rtrancl_into_rtrancl [OF step(1,2)] inv]
      by (simp add: prepared_inv_def)
  qed (use calculation in simp)
  moreover have "Q (snd z)" using aside [OF b r1(3)] .
  ultimately show ?case using r1(4) by auto
qed

lemma replay_free:
  assumes "replay_write i key fp now s = (Inr None, s')"
  shows "\<exists>r. row_of pc_id i (cs_rows s) = Some r \<and> pc_status r = ''PREPARED'' \<and> pc_expires_at r > now"
  using assms
  by (auto simp: replay_write_def prepared_row_def Let_def split: sum.splits if_splits option.splits bool.splits)

lemma claim_free:
  assumes "claim_for_write i key fp now s = (Inr None, s')"
  shows "\<exists>r. row_of pc_id i (cs_rows s) = Some r \<and> pc_status r = ''PREPARED'' \<and> pc_expires_at r > now"
proof -
  obtain b s1 where r: "replay_write i key fp now s = (b, s1)" by fastforce
  with assms have "b = Inr None" by (auto simp: claim_for_write_def split: sum.splits option.splits)
  with r replay_free show ?thesis by blast
qed

lemma replay_claimed:
  assumes "row_of pc_id i (cs_rows s) = Some r" and "pc_status r \<noteq> ''PREPARED''"
  shows "fst (claim_for_write i key fp now s) \<noteq> Inr None"
proof
  assume "fst (claim_for_write i key fp now s) = Inr None"
  then have "claim_for_write i key fp now s = (Inr None, snd (claim_for_write i key fp now s))"
    by (metis prod.collapse)
  from claim_free [OF this] assms show False by auto
qed

section \<open>What a load and a prepare give\<close>

lemma get_artifact_Inr:
  "get_artifact i t now db = (Inr a, db') \<Longrightarrow> db' = db"
  by (auto simp: get_artifact_def split: sum.splits if_splits)

lemma read_artifact_digest:
  assumes "read_artifact_bytes D dir i repo session now db = (Inr raw, db')"
  shows "\<exists>a. get_artifact i False now db = (Inr a, db) \<and> db' = db \<and> length raw = ar_size a \<and>
    dg_sha256 D raw = ar_sha256 a"
  using assms get_artifact_Inr [of i False now db]
  by (auto simp: read_artifact_bytes_def split: prod.splits sum.splits if_splits option.splits disk_file.splits)

lemma get_prepared_Inr:
  assumes "get_prepared_change_set i now s = (Inr p, s')"
  shows "\<exists>r. row_of pc_id i (cs_rows s) = Some r \<and> p = prepared_public.truncate r \<and> s' = s"
  using assms by (auto simp: get_prepared_change_set_def prepared_row_def split: sum.splits if_splits option.splits)

lemma load_gives:
  assumes "load_prepared_bytes D dir i now s = (Inr (p, raw), s')"
  shows "\<exists>r. row_of pc_id i (cs_rows s) = Some r \<and> p = prepared_public.truncate r \<and>
    pc_status r = ''PREPARED'' \<and> length raw = pc_raw_size r \<and> dg_sha256 D raw = pc_raw_sha256 r"
proof -
  obtain b s1 where g: "get_prepared_change_set i now s = (b, s1)" by fastforce
  with assms obtain q where b: "b = Inr q" by (cases b) (auto simp: load_prepared_bytes_def)
  from get_prepared_Inr [OF g [unfolded b]] obtain r where
    r: "row_of pc_id i (cs_rows s) = Some r" "q = prepared_public.truncate r" "s1 = s" by blast
  obtain c db where rd: "read_artifact_bytes D dir (pc_artifact_id q) (pc_repository q) (pc_session_id q) now
      (cs_artifacts s) = (c, db)" by fastforce
  from assms g b r(3) rd have c: "c = Inr raw" "p = q" and st: "pc_status q = ''PREPARED''"
    and len: "length raw = pc_raw_size q"
    by (auto simp: load_prepared_bytes_def split: sum.splits prod.splits if_splits)
  from read_artifact_digest [OF rd [unfolded c(1)]] obtain a where
    a: "get_artifact (pc_artifact_id q) False now (cs_artifacts s) = (Inr a, cs_artifacts s)" "db = cs_artifacts s"
       "dg_sha256 D raw = ar_sha256 a" by blast
  with assms g b r(3) rd c st len have "ar_sha256 a = pc_raw_sha256 q"
    by (auto simp: load_prepared_bytes_def split: if_splits)
  with r c st len a(3) show ?thesis by (auto simp: prepared_public.truncate_def)
qed

lemma insert_gives:
  assumes "insert_prepared row now s = (Inr (p, replayed), s')"
  shows "row_of pc_id (pc_id row) (cs_rows s') = Some row \<and> p = prepared_public.truncate row \<and> \<not> replayed"
proof -
  have nr: "\<not> insert_refused row (cs_rows s)" using assms by (auto simp: insert_prepared_def)
  obtain b db where fr: "freeze_artifact (pc_artifact_id row) (pc_repository row) (pc_session_id row)
      (pc_expires_at row) now (cs_artifacts s) = (b, db)" by fastforce
  with assms nr obtain a where b: "b = Inr a" by (cases b) (auto simp: insert_prepared_def)
  let ?s1 = "s\<lparr>cs_rows := cs_rows s @ [row], cs_artifacts := db\<rparr>"
  from assms nr fr b have g: "get_prepared_change_set (pc_id row) now ?s1 = (Inr p, s')" and "\<not> replayed"
    by (auto simp: insert_prepared_def split: prod.splits sum.splits)
  moreover have "row_of pc_id (pc_id row) (cs_rows ?s1) = Some row"
    using nr by (simp add: insert_refused_def row_of_append)
  ultimately show ?thesis using get_prepared_Inr [OF g] by auto
qed

lemma create_gives:
  assumes "create_prepared_change_set K a mode change canonical result sc head key ttl i now s = (Inr (p, False), s')"
  shows "\<exists>r. row_of pc_id i (cs_rows s') = Some r \<and> p = prepared_public.truncate r \<and>
    pc_raw_sha256 r = ar_sha256 a \<and> pc_raw_size r = ar_size a \<and> pc_status r = ''PREPARED''"
  using assms
proof (cases rule: prepared_create_cases)
  case (inserted row s2)
  from insert_gives [OF inserted(2)] inserted(3-) show ?thesis by auto
qed blast

lemma committed_row:
  assumes "mark_committed i kvs now s = (None, s')" and "distinct (map pc_id (cs_rows s))"
  shows "\<exists>r. row_of pc_id i (cs_rows s) = Some r \<and> pc_status r = ''EXECUTING'' \<and> valid_prepared_id i \<and>
    row_of pc_id i (cs_rows s') = Some (commit_row (safe_result kvs) now r)"
proof -
  from assms(1) obtain r where r: "row_of pc_id i (cs_rows s) = Some r" "valid_prepared_id i"
    and c: "row_count (executing i) (cs_rows s) = 1"
    and s': "cs_rows s' = update_where (executing i) (commit_row (safe_result kvs) now) (cs_rows s)"
    by (auto simp: mark_committed_def prepared_row_def split: sum.splits if_splits option.splits)
  have ex: "executing i = (\<lambda>r. pc_id r = i \<and> pc_status r = ''EXECUTING'')" by (auto simp: executing_def)
  from c r(1) have "pc_status r = ''EXECUTING''"
    unfolding ex row_count_key_1 [OF assms(2)] by auto
  moreover have "pc_id (commit_row safe t x) = pc_id x" for safe t x by (simp add: commit_row_def)
  ultimately show ?thesis
    using r s' row_of_key [OF r(1)] by (simp add: row_of_update_where executing_def)
qed

end
