(* ===== verification/Artifact_Facts.thy ===== *)
theory Artifact_Facts
  imports Artifact_Store
begin

text \<open>
  The artifacts and their files, as long as only the store touches the files: every live artifact
  has its file, with the recorded length and digest.
\<close>

definition backed :: "digests \<Rightarrow> string \<Rightarrow> disk \<Rightarrow> artifact \<Rightarrow> bool" where
  "backed D dir d r \<longleftrightarrow> ar_locator r = storage_path dir (ar_id r) \<and>
     (live_status (ar_status r) \<longrightarrow> (\<exists>data. d (ar_locator r) = Some (RegularFile data) \<and>
        length data = ar_size r \<and> dg_sha256 D data = ar_sha256 r))"

definition artifact_inv :: "digests \<Rightarrow> string \<Rightarrow> artifact_db \<Rightarrow> bool" where
  "artifact_inv D dir db \<longleftrightarrow> distinct (map ar_id (ad_rows db)) \<and> list_all (backed D dir (ad_disk db)) (ad_rows db)"

text \<open>The operations; a writer draws an id that no row has.\<close>

inductive artifact_step :: "digests \<Rightarrow> string \<Rightarrow> artifact_db \<Rightarrow> artifact_db \<Rightarrow> bool" for D dir where
  store: "row_of ar_id i (ad_rows db) = None \<Longrightarrow> store_bytes D dir ok data a i now db = (out, db') \<Longrightarrow>
    artifact_step D dir db db'"
| get: "get_artifact i terminal now db = (got, db') \<Longrightarrow> artifact_step D dir db db'"
| freeze: "freeze_artifact i repo session expires now db = (got, db') \<Longrightarrow> artifact_step D dir db db'"
| read: "read_artifact_bytes D dir i repo session now db = (raw, db') \<Longrightarrow> artifact_step D dir db db'"
| consume: "consume_artifact i now db = (e, db') \<Longrightarrow> artifact_step D dir db db'"
| expire: "expire_artifact i now db = (e, db') \<Longrightarrow> artifact_step D dir db db'"
| clean: "cleanup_artifacts now db = (n, db') \<Longrightarrow> artifact_step D dir db db'"

lemma storage_path_inj [simp]: "storage_path dir i = storage_path dir j \<longleftrightarrow> i = j"
  by (simp add: storage_path_def)

lemma not_live [simp]: "\<not> live_status ''CONSUMED''" "\<not> live_status ''EXPIRED''" "\<not> live_status ''CORRUPT''"
  by (simp_all add: live_status_def)

lemma unlink_other [simp]: "path \<noteq> path' \<Longrightarrow> unlink_storage path d path' = d path'"
  by (simp add: unlink_storage_def split: option.splits disk_file.splits)

lemma unlink_all_other:
  "(\<And>r. r \<in> set rs \<Longrightarrow> ar_locator r \<noteq> path) \<Longrightarrow> foldl (\<lambda>d r. unlink_storage (ar_locator r) d) d rs path = d path"
  by (induction rs arbitrary: d) auto

lemma invD:
  assumes "artifact_inv D dir db" and "row_of ar_id i (ad_rows db) = Some r"
  shows "backed D dir (ad_disk db) r" "ar_locator r = storage_path dir i"
  using assms row_of_SomeD [OF assms(2)] by (auto simp: artifact_inv_def list_all_iff backed_def)

lemma backed_frame: "backed D dir d r \<Longrightarrow> d' (ar_locator r) = d (ar_locator r) \<Longrightarrow> backed D dir d' r"
  unfolding backed_def by metis

lemma terminalize_inv:
  assumes "artifact_inv D dir db" and "\<not> live_status status" and "terminalize i status now db = (e, db')"
  shows "artifact_inv D dir db'"
proof (cases "artifact_row i db")
  case (Inr r)
  then have r: "row_of ar_id i (ad_rows db) = Some r"
    by (auto simp: artifact_row_def split: if_splits option.splits)
  let ?f = "\<lambda>r. r\<lparr>ar_status := status, ar_consumed_at := Some now\<rparr>"
  have db': "db' = db\<lparr>ad_rows := update_where (\<lambda>r. ar_id r = i) ?f (ad_rows db),
      ad_disk := unlink_storage (ar_locator r) (ad_disk db)\<rparr>"
    using assms(3) Inr by (simp add: terminalize_def)
  have "backed D dir (ad_disk db') s'" if "s' \<in> set (ad_rows db')" for s'
  proof -
    from that db' obtain s where s: "s \<in> set (ad_rows db)" "s' = (if ar_id s = i then ?f s else s)"
      by (auto simp: set_update_where)
    with assms(1) have b: "backed D dir (ad_disk db) s" by (simp add: artifact_inv_def list_all_iff)
    show ?thesis
    proof (cases "ar_id s = i")
      case True
      with s(2) b assms(2) show ?thesis by (simp add: backed_def)
    next
      case False
      with invD(2) [OF assms(1) r] b have "ar_locator r \<noteq> ar_locator s" by (auto simp: backed_def)
      then have "ad_disk db' (ar_locator s) = ad_disk db (ar_locator s)" by (simp add: db')
      with s(2) backed_frame [OF b] False show ?thesis by simp
    qed
  qed
  moreover have "map ar_id (ad_rows db') = map ar_id (ad_rows db)" by (simp add: db' map_update_where)
  ultimately show ?thesis using assms(1) by (simp add: artifact_inv_def list_all_iff)
qed (use assms in \<open>simp add: terminalize_def\<close>)

lemma terminal_invs:
  assumes "artifact_inv D dir db"
  shows "artifact_inv D dir (snd (consume_artifact i now db))"
    "artifact_inv D dir (snd (expire_artifact i now db))" "artifact_inv D dir (snd (mark_corrupt i now db))"
  using terminalize_inv [OF assms not_live(1) prod.collapse [symmetric]]
    terminalize_inv [OF assms not_live(2) prod.collapse [symmetric]]
    terminalize_inv [OF assms not_live(3) prod.collapse [symmetric]]
  by (simp_all add: consume_artifact_def expire_artifact_def mark_corrupt_def)

lemma get_inv: "artifact_inv D dir db \<Longrightarrow> get_artifact i t now db = (out, db') \<Longrightarrow> artifact_inv D dir db'"
  by (auto simp: get_artifact_def terminal_invs split: sum.splits if_splits)

lemma freeze_inv:
  assumes "artifact_inv D dir db" and "freeze_artifact i repo session expires now db = (out, db')"
  shows "artifact_inv D dir db'"
proof -
  obtain b db1 where g: "get_artifact i False now db = (b, db1)" by fastforce
  note inv1 = get_inv [OF assms(1) g]
  let ?f = "\<lambda>x r. r\<lparr>ar_status := ''FROZEN'', ar_repository_scope := repo, ar_session_scope := session,
     ar_expires_at := x\<rparr> :: artifact"
  let ?P = "\<lambda>r. ar_id r = i \<and> live_status (ar_status r)"
  have "artifact_inv D dir (db1\<lparr>ad_rows := update_where ?P (?f x) (ad_rows db1)\<rparr>)" for x
    using inv1 by (auto simp: artifact_inv_def list_all_iff map_update_where set_update_where backed_def)
  from get_inv [OF this] assms(2) g inv1 show ?thesis
    by (auto simp: freeze_artifact_def Let_def split: sum.splits if_splits)
qed

lemma read_inv:
  assumes "artifact_inv D dir db" and "read_artifact_bytes D dir i repo session now db = (out, db')"
  shows "artifact_inv D dir db'"
proof -
  obtain b db1 where g: "get_artifact i False now db = (b, db1)" by fastforce
  note inv1 = get_inv [OF assms(1) g]
  from assms(2) g have "db' = db1 \<or> db' = snd (mark_corrupt i now db1)"
    by (auto simp: read_artifact_bytes_def split: sum.splits if_splits option.splits disk_file.splits)
  with inv1 show ?thesis by (auto simp: terminal_invs)
qed

lemma clean_inv:
  assumes "artifact_inv D dir db" and "cleanup_artifacts now db = (n, db')"
  shows "artifact_inv D dir db'"
proof -
  let ?f = "\<lambda>r. r\<lparr>ar_status := ''EXPIRED'', ar_consumed_at := Some now\<rparr>"
  have db': "db' = db\<lparr>ad_rows := update_where (artifact_due now) ?f (ad_rows db),
      ad_disk := foldl (\<lambda>d r. unlink_storage (ar_locator r) d) (ad_disk db) (filter (artifact_due now) (ad_rows db))\<rparr>"
    using assms(2) by (simp add: cleanup_artifacts_def Let_def)
  have b: "backed D dir (ad_disk db) s" if "s \<in> set (ad_rows db)" for s
    using that assms(1) by (simp add: artifact_inv_def list_all_iff)
  have inj: "inj_on ar_id (set (ad_rows db))" using assms(1) by (simp add: artifact_inv_def distinct_map)
  have "backed D dir (ad_disk db') s'" if "s' \<in> set (ad_rows db')" for s'
  proof -
    from that db' obtain s where s: "s \<in> set (ad_rows db)" "s' = (if artifact_due now s then ?f s else s)"
      by (auto simp: set_update_where)
    show ?thesis
    proof (cases "artifact_due now s")
      case True
      with s b [OF s(1)] show ?thesis by (simp add: backed_def)
    next
      case False
      have "ar_locator r \<noteq> ar_locator s" if "r \<in> set (filter (artifact_due now) (ad_rows db))" for r
        using that False b [of r] b [OF s(1)] inj_onD [OF inj, of r s] s(1) by (auto simp: backed_def)
      then have "ad_disk db' (ar_locator s) = ad_disk db (ar_locator s)"
        using unlink_all_other [of "filter (artifact_due now) (ad_rows db)" "ar_locator s" "ad_disk db"] db' by simp
      with False s backed_frame [OF b [OF s(1)]] show ?thesis by simp
    qed
  qed
  moreover have "map ar_id (ad_rows db') = map ar_id (ad_rows db)" by (simp add: db' map_update_where)
  ultimately show ?thesis using assms(1) by (simp add: artifact_inv_def list_all_iff)
qed

lemma commit_inv:
  assumes "artifact_inv D dir db" and "row_of ar_id (wr_id w) (ad_rows db) = None"
    and "writer_commit D dir ok w now db = (out, db')"
  shows "artifact_inv D dir db'"
proof -
  let ?path = "storage_path dir (wr_id w)"
  have kept: "backed D dir d r" if "r \<in> set (ad_rows db)" "\<And>p. p \<noteq> ?path \<Longrightarrow> d p = ad_disk db p" for r d
  proof -
    have b: "backed D dir (ad_disk db) r" using that(1) assms(1) by (simp add: artifact_inv_def list_all_iff)
    have "ar_id r \<noteq> wr_id w" using that(1) assms(2) by (metis row_of_None_iff image_eqI)
    with b have "ar_locator r \<noteq> ?path" by (simp add: backed_def)
    with backed_frame [OF b] that(2) show ?thesis by blast
  qed
  have failed: "artifact_inv D dir (db\<lparr>ad_disk := unlink_storage ?path (ad_disk db)\<rparr>)"
    using assms(1) kept [of _ "unlink_storage ?path (ad_disk db)"] by (simp add: artifact_inv_def list_all_iff)
  have "backed D dir (d(?path := Some (RegularFile (wr_data w)))) (new_artifact D dir w now)" for d
    by (simp add: backed_def new_artifact_def Let_def)
  then have "artifact_inv D dir (db\<lparr>ad_rows := ad_rows db @ [new_artifact D dir w now],
      ad_disk := (ad_disk db)(?path := Some (RegularFile (wr_data w)))\<rparr>)"
    using assms(1,2) kept [of _ "(ad_disk db)(?path := Some (RegularFile (wr_data w)))"]
    by (simp add: artifact_inv_def list_all_iff row_of_None_iff new_artifact_def Let_def)
  from get_inv [OF this] assms(1,3) failed show ?thesis
    by (auto simp: writer_commit_def Let_def split: if_splits)
qed

lemma writer_id: "open_writer i a = Inr w \<Longrightarrow> writer_write data w = Inr w' \<Longrightarrow> wr_id w' = i"
  by (auto simp: open_writer_def writer_write_def split: if_splits)

lemma store_inv:
  assumes "artifact_inv D dir db" and "row_of ar_id i (ad_rows db) = None"
    and "store_bytes D dir ok data a i now db = (out, db')"
  shows "artifact_inv D dir db'"
  using assms commit_inv [OF assms(1)] writer_id
  by (fastforce simp: store_bytes_def split: sum.splits)

lemma artifact_step_inv: "artifact_step D dir db db' \<Longrightarrow> artifact_inv D dir db \<Longrightarrow> artifact_inv D dir db'"
proof (induction rule: artifact_step.induct)
  case (consume i now db e db')
  with terminal_invs(1) [OF consume(2), of i now] show ?case by simp
next
  case (expire i now db e db')
  with terminal_invs(2) [OF expire(2), of i now] show ?case by simp
qed (auto intro: store_inv get_inv freeze_inv read_inv clean_inv)

interpretation artifacts: step_invariant "artifact_step D dir" "artifact_inv D dir" for D dir
  by unfold_locales (rule artifact_step_inv)

lemma read_live:
  assumes "artifact_inv D dir db" and "valid_artifact_id i" and "row_of ar_id i (ad_rows db) = Some r"
    and "live_status (ar_status r)" and "ar_expires_at r > now"
    and "repo = [] \<or> ar_repository_scope r \<in> {[], repo}" and "session = [] \<or> ar_session_scope r \<in> {[], session}"
  shows "\<exists>raw. read_artifact_bytes D dir i repo session now db = (Inr raw, db) \<and>
    dg_sha256 D raw = ar_sha256 r \<and> length raw = ar_size r"
proof -
  have g: "get_artifact i False now db = (Inr (artifact_ref.truncate r), db)"
    using assms(2-5) by (simp add: get_artifact_def artifact_row_def)
  from invD [OF assms(1,3)] assms(4) obtain data where
    "ad_disk db (storage_path dir i) = Some (RegularFile data)" "length data = ar_size r" "dg_sha256 D data = ar_sha256 r"
    by (auto simp: backed_def)
  with g assms(6,7) show ?thesis
    by (auto simp: read_artifact_bytes_def artifact_ref.truncate_def)
qed

end
