(* ===== verification/Change_Set_Properties.thy ===== *)
theory Change_Set_Properties
  imports Change_Set_Facts Artifact_Facts "HOL-Library.Code_Target_Nat"
begin

text \<open>The properties of the prepared change sets, with witnesses on one change set.\<close>

definition csdemo_digests :: digests where
  "csdemo_digests = \<lparr>dg_sha256 = (\<lambda>s. s), dg_sha1 = (\<lambda>s. s)\<rparr>"

definition csdemo_codec :: codec where
  "csdemo_codec = \<lparr>sha256 = (\<lambda>s. s), float_text = (\<lambda>r. ''0.0'')\<rparr>"

definition csdemo_artifact_id :: string where "csdemo_artifact_id = ''art_aaaaaaaaaaaaaaaaaaaaaaaa''"
definition csdemo_id :: string where "csdemo_id = ''pcs_aaaaaaaaaaaaaaaaaaaaaaaa''"

definition csdemo_args :: artifact_args where
  "csdemo_args = \<lparr>ag_kind = ''change_set'', ag_max_bytes = 100, ag_source_transport = ''inline'', ag_file_name = [],
     ag_mime_type = [], ag_repository_scope = [], ag_principal_scope = [], ag_session_scope = [], ag_ttl_seconds = 600\<rparr>"

definition csdemo_scope :: session_scope where
  "csdemo_scope = \<lparr>sc_repository = ''o/r'', sc_branch = ''b'', sc_session_id = ''s'', sc_session_revision = 1,
     sc_workspace_id = ''w'', sc_workspace_revision = 1\<rparr>"

definition csdemo_stored :: "(artifact_error + artifact_ref) \<times> artifact_db" where
  "csdemo_stored = store_bytes csdemo_digests ''/a'' True ''data'' csdemo_args csdemo_artifact_id 1
     \<lparr>ad_rows = [], ad_disk = (\<lambda>_. None)\<rparr>"

definition csdemo_ref :: artifact_ref where
  "csdemo_ref = projr (fst csdemo_stored)"

definition csdemo_prepared :: "(prepared_error + prepared_public \<times> bool) \<times> change_sets" where
  "csdemo_prepared = create_prepared_change_set csdemo_codec csdemo_ref ''patch'' (JObj []) ''h'' (JObj []) csdemo_scope
     ''head'' ''k'' 600 csdemo_id 2 \<lparr>cs_rows = [], cs_artifacts = snd csdemo_stored\<rparr>"

lemma Inr_shape: "map_sum id snd (fst x) = Inr b \<Longrightarrow> x = (Inr (fst (projr (fst x)), b), snd x)"
  by (cases x; cases "fst x") auto

lemma csdemo_created:
  "create_prepared_change_set csdemo_codec csdemo_ref ''patch'' (JObj []) ''h'' (JObj []) csdemo_scope
     ''head'' ''k'' 600 csdemo_id 2 \<lparr>cs_rows = [], cs_artifacts = snd csdemo_stored\<rparr> =
   (Inr (fst (projr (fst csdemo_prepared)), False), snd csdemo_prepared)"
proof -
  have "map_sum id snd (fst csdemo_prepared) = Inr False" by code_simp
  from trans [OF csdemo_prepared_def [symmetric] Inr_shape [OF this]] show ?thesis .
qed

definition csdemo_start :: prepared_sys where
  "csdemo_start = (\<lparr>cs_rows = [], cs_artifacts = snd csdemo_stored\<rparr>, [], [])"

definition csdemo_claimed :: change_sets where
  "csdemo_claimed = snd (claim_for_write csdemo_id ''k'' ''f'' 3 (snd csdemo_prepared))"

definition csdemo_journal :: journal where
  "csdemo_journal = snd (idempotent_start csdemo_codec ''apply_github_patch'' ''k'' (JObj [])
     \<lparr>au_trace_id = [], au_workspace_id = [], au_workspace_revision = 0\<rparr> ''op'' 4 [])"

lemma csdemo_start_ok: "prepared_start csdemo_start"
  by (simp add: prepared_start_def csdemo_start_def)

lemma csdemo_run_prepared:
  "(prepared_step csdemo_codec csdemo_digests ''/a'')\<^sup>*\<^sup>* csdemo_start (snd csdemo_prepared, [], [])"
  unfolding csdemo_start_def by (rule r_into_rtranclp, rule prepared_step.create [OF csdemo_created])

lemma csdemo_run_claimed:
  "(prepared_step csdemo_codec csdemo_digests ''/a'')\<^sup>*\<^sup>* csdemo_start (csdemo_claimed, [], [])"
  by (rule rtranclp.rtrancl_into_rtrancl [OF csdemo_run_prepared])
     (rule prepared_step.claim [where answer = "fst (claim_for_write csdemo_id ''k'' ''f'' 3 (snd csdemo_prepared))"],
      simp add: csdemo_claimed_def)

lemma csdemo_run_journaled:
  "(prepared_step csdemo_codec csdemo_digests ''/a'')\<^sup>*\<^sup>* csdemo_start (csdemo_claimed, csdemo_journal, [])"
  by (rule rtranclp.rtrancl_into_rtrancl [OF csdemo_run_claimed])
     (unfold csdemo_journal_def, rule prepared_step.journal, rule journal_step.start, rule prod.collapse [symmetric])

lemma csdemo_claimed_row:
  "\<exists>r. row_of pc_id csdemo_id (cs_rows csdemo_claimed) = Some r \<and> pc_status r = ''EXECUTING'' \<and>
     pc_execution_key r = Some ''k'' \<and> pc_execution_fingerprint r = Some ''f''"
proof -
  have "map_option (\<lambda>r. (pc_status r, pc_execution_key r, pc_execution_fingerprint r))
      (row_of pc_id csdemo_id (cs_rows csdemo_claimed)) = Some (''EXECUTING'', Some ''k'', Some ''f'')" by code_simp
  then show ?thesis by auto
qed

section \<open>A claim that reached the journal\<close>

text \<open>
  C4. A change set that executes under a key for which the operation journal has an operation is
  never given out again, unless a recovery under this key had read the journal before the operation
  was in it and has yet to release: over any interleaving of both stores and of the statements of
  any recoveries, expiries and changes of the artifacts, it keeps its key, no write can claim it, and
  every later call is refused or answered with the stored result.
\<close>

theorem journaled_claim_kept:
  assumes "prepared_start x" and "(prepared_step K D dir)\<^sup>*\<^sup>* x (s, J, R)"
    and row: "row_of pc_id i (cs_rows s) = Some r" "pc_status r = ''EXECUTING''" "pc_execution_key r = Some key"
    and oper: "oper \<in> set J" "op_caller_key oper = Some key"
    and decided: "\<And>fp. Releasing i key fp \<notin> set R"
    and later: "(prepared_step K D dir)\<^sup>*\<^sup>* (s, J, R) (s', J', R')"
  shows "\<exists>r'. row_of pc_id i (cs_rows s') = Some r' \<and> pc_execution_key r' = Some key \<and>
    pc_status r' \<in> {''EXECUTING'', ''COMMITTED'', ''FAILED_TERMINAL'', ''EXPIRED''} \<and>
    row_count (claimable i now) (cs_rows s') = 0 \<and> fst (claim_for_write i key' fp now s') \<noteq> Inr None"
proof -
  let ?P = "\<lambda>r. pc_execution_key r = Some key \<and>
    pc_status r \<in> {''EXECUTING'', ''COMMITTED'', ''FAILED_TERMINAL'', ''EXPIRED''}"
  let ?Q = "\<lambda>z. journal_inv (fst z) \<and> op_core oper \<in> op_core ` set (fst z) \<and> (i, key) \<notin> releasable (snd z)"
  have inv: "prepared_inv (s, J, R)"
    using prepared_store.steps_inv [OF assms(2) start_inv [OF assms(1)]] .
  have reached: "idempotent_existing key (fst z) \<noteq> None" if "?Q z" for z
  proof -
    from that obtain o2 where o2: "o2 \<in> set (fst z)" "op_core o2 = op_core oper" by auto
    with oper(2) have "op_caller_key o2 = Some key" by (simp add: op_core_def)
    with that o2 existing_of_core [of "fst z" o2 key] show ?thesis by simp
  qed
  have "\<exists>r'. row_of pc_id i (cs_rows (fst (s', J', R'))) = Some r' \<and> ?P r' \<and>
      prepared_identity r' = prepared_identity r \<and> ?Q (snd (s', J', R'))"
  proof (rule row_run [OF later inv])
    show "row_of pc_id i (cs_rows (fst (s, J, R))) = Some r" "?P r" using row by auto
    show "?Q (snd (s, J, R))" using inv oper decided by (auto simp: prepared_inv_def releasable_def)
    fix z r r' assume Q: "?Q z" and m: "prepared_move (releasable (snd z)) r r'" and i: "pc_id r = i" and P: "?P r"
    from m P Q i show "?P r'" by cases (auto simp: move_defs)
  next
    fix z z' assume b: "beside K z z'" and Q: "?Q z"
    then have "journal_inv (fst z') \<and> op_core oper \<in> op_core ` set (fst z')"
      using journal_step_inv [of K "fst z" "fst z'"] core_stays [of K "fst z" "fst z'"] by (auto simp: beside_def)
    moreover have "(i, key) \<notin> releasable (snd z')" using b Q reached [OF Q] unfolding beside_def by metis
    ultimately show "?Q z'" by blast
  qed
  then obtain r' where r': "row_of pc_id i (cs_rows s') = Some r'" "?P r'" by auto
  then have np: "pc_status r' \<noteq> ''PREPARED''" by auto
  have "distinct (map pc_id (cs_rows s'))"
    using prepared_store.steps_inv [OF later inv] by (simp add: prepared_inv_def)
  with r'(1) np have "row_count (claimable i now) (cs_rows s') = 0"
    by (auto simp: row_count_def filter_empty_conv claimable_def dest: row_of_distinct)
  with replay_claimed [OF r'(1) np] r' show ?thesis by blast
qed

lemma journaled_claim_kept_witness:
  "\<exists>r'. row_of pc_id csdemo_id (cs_rows csdemo_claimed) = Some r' \<and> pc_execution_key r' = Some ''k'' \<and>
    pc_status r' \<in> {''EXECUTING'', ''COMMITTED'', ''FAILED_TERMINAL'', ''EXPIRED''} \<and>
    row_count (claimable csdemo_id 1000) (cs_rows csdemo_claimed) = 0 \<and>
    fst (claim_for_write csdemo_id ''k2'' ''f2'' 1000 csdemo_claimed) \<noteq> Inr None"
proof -
  obtain r where r: "row_of pc_id csdemo_id (cs_rows csdemo_claimed) = Some r" "pc_status r = ''EXECUTING''"
    "pc_execution_key r = Some ''k''" using csdemo_claimed_row by blast
  have "map op_caller_key csdemo_journal = [Some ''k'']" by code_simp
  then have "Some ''k'' \<in> set (map op_caller_key csdemo_journal)" by simp
  then obtain oper where oper: "oper \<in> set csdemo_journal" "op_caller_key oper = Some ''k''" by auto
  have look: "recovery_row csdemo_id ''k'' ''f'' csdemo_claimed = Inr 3" by code_simp
  have run: "(prepared_step csdemo_codec csdemo_digests ''/a'')\<^sup>*\<^sup>*
      csdemo_start (csdemo_claimed, csdemo_journal, [Checked csdemo_id ''k'' ''f'' 3])"
    by (rule rtranclp.rtrancl_into_rtrancl [OF csdemo_run_journaled prepared_step.recover_row [OF look]])
  have "(case recovery_operation ''k'' 3 1000 csdemo_journal of None \<Rightarrow> False | Some a \<Rightarrow> True)" by code_simp
  then obtain a where "recovery_operation ''k'' 3 1000 csdemo_journal = Some a" by (auto split: option.splits)
  from prepared_step.recover_answer [OF _ this, of csdemo_id "''f''" "[Checked csdemo_id ''k'' ''f'' 3]"]
  have later: "prepared_step csdemo_codec csdemo_digests ''/a''
      (csdemo_claimed, csdemo_journal, [Checked csdemo_id ''k'' ''f'' 3]) (csdemo_claimed, csdemo_journal, [])" by simp
  from journaled_claim_kept [OF csdemo_start_ok run r oper _ r_into_rtranclp [of "prepared_step _ _ _", OF later]]
  show ?thesis by simp
qed

text \<open>
  The condition is needed: a recovery that read the journal before the operation was in it releases
  the claim afterwards, and the change set can be claimed again.
\<close>

lemma early_recovery_releases_journaled_claim:
  "\<exists>s'. (prepared_step csdemo_codec csdemo_digests ''/a'')\<^sup>*\<^sup>* csdemo_start (s', csdemo_journal, []) \<and>
    map op_caller_key csdemo_journal = [Some ''k''] \<and>
    fst (claim_for_write csdemo_id ''k2'' ''f2'' 500 s') = Inr None"
proof -
  let ?step = "prepared_step csdemo_codec csdemo_digests ''/a''"
  let ?c = "Checked csdemo_id ''k'' ''f'' 3" and ?l = "Releasing csdemo_id ''k'' ''f''"
  let ?run = "release_stale_claim csdemo_id ''k'' ''f'' csdemo_claimed"
  have row: "recovery_row csdemo_id ''k'' ''f'' csdemo_claimed = Inr 3" by code_simp
  have "(case recovery_operation ''k'' 3 400 [] of None \<Rightarrow> True | Some a \<Rightarrow> False)" by code_simp
  then have none: "recovery_operation ''k'' 3 400 [] = None" by (auto split: option.splits)
  have 1: "?step\<^sup>*\<^sup>* csdemo_start (csdemo_claimed, [], [?c])"
    by (rule rtranclp.rtrancl_into_rtrancl [OF csdemo_run_claimed prepared_step.recover_row [OF row]])
  have 2: "?step (csdemo_claimed, [], [?c]) (csdemo_claimed, [], [?l])"
    using prepared_step.recover_release [OF _ none, of csdemo_id "''f''" "[?c]"] by simp
  have 3: "?step (csdemo_claimed, [], [?l]) (csdemo_claimed, csdemo_journal, [?l])"
    unfolding csdemo_journal_def by (rule prepared_step.journal, rule journal_step.start, rule prod.collapse [symmetric])
  have 4: "?step (csdemo_claimed, csdemo_journal, [?l]) (snd ?run, csdemo_journal, [])"
    using prepared_step.release [OF _ prod.collapse [symmetric, of ?run], of "[?l]"] by simp
  have "map op_caller_key csdemo_journal = [Some ''k'']" by code_simp
  moreover have "(case fst (claim_for_write csdemo_id ''k2'' ''f2'' 500 (snd ?run)) of Inr None \<Rightarrow> True | _ \<Rightarrow> False)"
    by code_simp
  then have "fst (claim_for_write csdemo_id ''k2'' ''f2'' 500 (snd ?run)) = Inr None"
    by (auto split: sum.splits option.splits)
  ultimately show ?thesis using 1 2 3 4 by (meson rtranclp.rtrancl_into_rtrancl)
qed

section \<open>The bytes of a change set\<close>

text \<open>
  C7. The bytes loaded for the write are those the change set was prepared with: whatever happened
  to the stores and to the files in between, they have the length and the SHA-256 of the prepared
  artifact, and the change set is the prepared one, still unclaimed.
\<close>

theorem prepared_bytes_loaded:
  assumes "prepared_start x" and "(prepared_step K D dir)\<^sup>*\<^sup>* x (s, J, R)"
    and "create_prepared_change_set K a mode change canonical result sc head key ttl i now s = (Inr (p, False), s1)"
    and "(prepared_step K D dir)\<^sup>*\<^sup>* (s1, J, R) (s2, J2, R2)"
    and "load_prepared_bytes D dir i t s2 = (Inr (q, raw), s3)"
  shows "dg_sha256 D raw = ar_sha256 a \<and> length raw = ar_size a \<and> pc_status q = ''PREPARED'' \<and>
    pc_expected_head q = pc_expected_head p \<and> pc_canonical_hash q = pc_canonical_hash p"
proof -
  have inv: "prepared_inv (s1, J, R)"
    using prepared_store.steps_inv [OF rtranclp.rtrancl_into_rtrancl [OF assms(2) prepared_step.create [OF assms(3)]]
        start_inv [OF assms(1)]] .
  from create_gives [OF assms(3)] obtain r where r: "row_of pc_id i (cs_rows s1) = Some r"
    "p = prepared_public.truncate r" "pc_raw_sha256 r = ar_sha256 a" "pc_raw_size r = ar_size a" by blast
  have "\<exists>r'. row_of pc_id i (cs_rows (fst (s2, J2, R2))) = Some r' \<and> True \<and>
      prepared_identity r' = prepared_identity r \<and> True"
    by (rule row_run [OF assms(4) inv, where P = "\<lambda>_. True" and Q = "\<lambda>_. True"]) (simp_all add: r(1))
  then obtain r' where r': "row_of pc_id i (cs_rows s2) = Some r'" "prepared_identity r' = prepared_identity r"
    by auto
  from load_gives [OF assms(5)] r'(1) identity_fields [OF r'(2)] r(2-) show ?thesis
    by (auto simp: prepared_public.truncate_def)
qed

lemma prepared_bytes_loaded_witness:
  "dg_sha256 csdemo_digests ''data'' = ar_sha256 csdemo_ref \<and> length ''data'' = ar_size csdemo_ref"
proof -
  let ?load = "load_prepared_bytes csdemo_digests ''/a'' csdemo_id 3 (snd csdemo_prepared)"
  have "map_sum id snd (fst ?load) = Inr ''data''" by code_simp
  note loaded = Inr_shape [OF this]
  from prepared_bytes_loaded [OF csdemo_start_ok [unfolded csdemo_start_def] rtranclp.rtrancl_refl csdemo_created
      rtranclp.rtrancl_refl loaded] show ?thesis by blast
qed

section \<open>Replaying a commit\<close>



section \<open>Live artifacts\<close>

text \<open>
  C35. As long as only the store touches its files, a live artifact that has not expired can be read
  within its scope, and the bytes read have its length and digest.
\<close>

theorem live_artifact_readable:
  assumes "(artifact_step D dir)\<^sup>*\<^sup>* \<lparr>ad_rows = [], ad_disk = d\<rparr> db"
    and "valid_artifact_id i" and "row_of ar_id i (ad_rows db) = Some r"
    and "live_status (ar_status r)" and "ar_expires_at r > now"
    and "repo = [] \<or> ar_repository_scope r \<in> {[], repo}" and "session = [] \<or> ar_session_scope r \<in> {[], session}"
  shows "\<exists>raw. read_artifact_bytes D dir i repo session now db = (Inr raw, db) \<and>
    dg_sha256 D raw = ar_sha256 r \<and> length raw = ar_size r"
proof (rule read_live [OF _ assms(2-)])
  show "artifact_inv D dir db"
    by (rule artifacts.steps_inv [OF assms(1)]) (simp add: artifact_inv_def)
qed

lemma live_artifact_readable_witness:
  "\<exists>raw. read_artifact_bytes csdemo_digests ''/a'' csdemo_artifact_id ''o/r'' ''s'' 2 (snd csdemo_stored) =
      (Inr raw, snd csdemo_stored) \<and> dg_sha256 csdemo_digests raw = ''data'' \<and> length raw = 4"
proof -
  have "map_option (\<lambda>r. (ar_status r, ar_repository_scope r, ar_session_scope r, ar_sha256 r, ar_size r))
      (row_of ar_id csdemo_artifact_id (ad_rows (snd csdemo_stored))) = Some (''READY'', [], [], ''data'', 4)"
    by code_simp
  then obtain r where r: "row_of ar_id csdemo_artifact_id (ad_rows (snd csdemo_stored)) = Some r"
    "ar_status r = ''READY''" "ar_repository_scope r = []" "ar_session_scope r = []" "ar_sha256 r = ''data''"
    "ar_size r = 4" by auto
  have "map_option (\<lambda>r. ar_expires_at r > 2) (row_of ar_id csdemo_artifact_id (ad_rows (snd csdemo_stored))) = Some True"
    by code_simp
  with r(1) have e: "ar_expires_at r > 2" by simp
  have run: "(artifact_step csdemo_digests ''/a'')\<^sup>*\<^sup>* \<lparr>ad_rows = [], ad_disk = (\<lambda>_. None)\<rparr> (snd csdemo_stored)"
    unfolding csdemo_stored_def
    by (rule r_into_rtranclp, rule artifact_step.store [OF _ prod.collapse [symmetric]]) simp
  have "valid_artifact_id csdemo_artifact_id" by code_simp
  from live_artifact_readable [OF run this r(1) _ e, of "''o/r''" "''s''"] r show ?thesis
    by (simp add: live_status_def)
qed

end
