(* ===== verification/Sessions.thy ===== *)
theory Sessions
  imports Operation_Journal
begin

text \<open>
  The development sessions of \<open>app/development_session_store.py\<close> and the workspace rows of
  \<open>app/mygithub12.py\<close> they are tied to.  An operation is a transaction: \<open>Inl\<close> is an error after a
  rollback.  Reads before a transaction are part of it, because the update compares the revision
  that was read; \<open>now\<close> is the reading of the clock.
\<close>

section \<open>Tables\<close>

datatype session_error =
    SessionNotFound
  | SessionRevisionMismatch
  | SessionClosed
  | SessionStateInvalid
  | SessionWorkspaceMismatch
  | SessionKeyConflict
  | SessionRecoveryRequired
  | SessionIntegrity
  | WorkspaceNotFound
  | WorkspaceRevisionMismatch
  | WorkspaceDrifted
  | WorkspaceLeaseRequired
  | WorkspaceClosed
  | WorkspaceScopeConflict
  | WorkspaceLeaseConflict
  | WorkspaceVerifyFailed
  | MergeEvidenceIncomplete
  | ManagedPrMismatch
  | SessionValueError
  | WorkspaceRefNotFound
  | WorkspacePathInvalid

record workspace =
  ws_id :: string
  ws_repository :: string
  ws_branch :: string
  ws_base_branch :: string
  ws_base_commit :: string
  ws_head :: string
  ws_tree :: string
  ws_status :: string
  ws_revision :: int
  ws_owner :: string
  ws_lease_expires :: time
  ws_index_commit :: "string option"
  ws_scope :: json
  ws_drift_reason :: "string option"
  ws_pr_number :: "int option"
  ws_created_at :: time
  ws_updated_at :: time

record dev_session =
  ss_id :: string
  ss_workspace_id :: string
  ss_repository :: string
  ss_branch :: string
  ss_base_branch :: string
  ss_base_commit :: string
  ss_head :: string
  ss_tree :: string
  ss_revision :: nat
  ss_workspace_revision :: int
  ss_status :: string
  ss_owner :: string
  ss_lease_expires :: time
  ss_index_commit :: "string option"
  ss_pull_number :: "int option"
  ss_fast_job :: "string option"
  ss_full_job :: "string option"
  ss_attestation :: "string option"
  ss_failure_uri :: "string option"
  ss_key :: "string option"
  ss_metadata :: json
  ss_created_at :: time
  ss_updated_at :: time
  ss_closed_at :: "time option"

record session_event =
  se_id :: nat
  se_session :: string
  se_type :: string
  se_from :: "string option"
  se_to :: "string option"
  se_revision :: nat
  se_data :: json
  se_created_at :: time

record validation =
  va_id :: nat
  va_session :: string
  va_revision :: int
  va_mode :: string
  va_commit :: string
  va_tree :: string
  va_request :: "string option"
  va_job :: "string option"
  va_status :: string
  va_merge_eligible :: bool
  va_attestation :: "string option"
  va_evidence :: json
  va_created_at :: time
  va_finished_at :: "time option"

record dev_db =
  dd_workspaces :: "workspace list"
  dd_sessions :: "dev_session list"
  dd_events :: "session_event list"
  dd_validations :: "validation list"

definition active_states :: "string list" where
  "active_states = [''preparing'', ''active'', ''validating_fast'', ''validating_full'', ''pr_ready'',
     ''drifted'', ''blocked'', ''closing'']"

definition session_terminal_states :: "string list" where
  "session_terminal_states = [''merged'', ''closed'', ''abandoned'', ''prepare_failed'']"

definition session_active :: "dev_session \<Rightarrow> bool" where
  "session_active r \<longleftrightarrow> ss_status r \<in> set active_states"

definition session_terminal :: "dev_session \<Rightarrow> bool" where
  "session_terminal r \<longleftrightarrow> ss_status r \<in> set session_terminal_states"

text \<open>The partial unique index on the workspaces of active sessions.\<close>

definition one_active :: "dev_session list \<Rightarrow> bool" where
  "one_active rows \<longleftrightarrow> distinct (map ss_workspace_id (filter session_active rows))"

text \<open>\<open>AUTOINCREMENT\<close>: no row of these tables is ever deleted.\<close>

definition append_event ::
  "string \<Rightarrow> string \<Rightarrow> string option \<Rightarrow> string option \<Rightarrow> nat \<Rightarrow> json \<Rightarrow> time \<Rightarrow> dev_db \<Rightarrow> dev_db" where
  "append_event sid etype from_status to_status revision data now db = db\<lparr>dd_events := dd_events db @
     [\<lparr>se_id = length (dd_events db) + 1, se_session = sid, se_type = etype, se_from = from_status,
       se_to = to_status, se_revision = revision, se_data = (if json_truthy data then data else JObj []),
       se_created_at = now\<rparr>]\<rparr>"

section \<open>Reading\<close>

definition session_row :: "string \<Rightarrow> dev_db \<Rightarrow> session_error + dev_session" where
  "session_row sid db = (case row_of ss_id sid (dd_sessions db) of None \<Rightarrow> Inl SessionNotFound | Some r \<Rightarrow> Inr r)"

definition find_active_session_for_workspace ::
  "string \<Rightarrow> dev_db \<Rightarrow> session_error + dev_session option" where
  "find_active_session_for_workspace wid db =
     (case sort_key (\<lambda>r. - ss_updated_at r)
         (filter (\<lambda>r. ss_workspace_id r = wid \<and> session_active r) (dd_sessions db)) of
        [] \<Rightarrow> Inr None
      | [r] \<Rightarrow> Inr (Some r)
      | _ \<Rightarrow> Inl SessionWorkspaceMismatch)"

definition require_session :: "string \<Rightarrow> int \<Rightarrow> bool \<Rightarrow> dev_db \<Rightarrow> session_error + dev_session" where
  "require_session sid expected writable db =
     (case session_row sid db of
        Inl e \<Rightarrow> Inl e
      | Inr r \<Rightarrow>
          if int (ss_revision r) \<noteq> expected then Inl SessionRevisionMismatch
          else if writable \<and> session_terminal r then Inl SessionClosed
          else Inr r)"

definition session_under :: "string \<Rightarrow> string \<Rightarrow> dev_session list \<Rightarrow> dev_session option" where
  "session_under repository key rows =
     List.find (\<lambda>r. ss_repository r = repository \<and> ss_key r = Some key) rows"

definition find_session_by_idempotency :: "string \<Rightarrow> string \<Rightarrow> dev_db \<Rightarrow> dev_session option" where
  "find_session_by_idempotency repository key db =
     (if key = [] then None else session_under repository key (dd_sessions db))"

definition list_session_events :: "string \<Rightarrow> int \<Rightarrow> dev_db \<Rightarrow> session_error + session_event list" where
  "list_session_events sid limit db =
     (case session_row sid db of
        Inl e \<Rightarrow> Inl e
      | Inr r \<Rightarrow> Inr (rev (take (nat (max 1 (min limit 500)))
          (rev (sort_key se_id (filter (\<lambda>e. se_session e = sid) (dd_events db)))))))"

section \<open>Creating\<close>

definition new_session ::
  "workspace \<Rightarrow> string \<Rightarrow> string \<Rightarrow> json \<Rightarrow> string \<Rightarrow> string \<Rightarrow> time \<Rightarrow> dev_session" where
  "new_session w owner key metadata status sid now =
     \<lparr>ss_id = sid, ss_workspace_id = ws_id w, ss_repository = ws_repository w, ss_branch = ws_branch w,
      ss_base_branch = ws_base_branch w, ss_base_commit = ws_base_commit w, ss_head = ws_head w,
      ss_tree = ws_tree w, ss_revision = 1, ss_workspace_revision = ws_revision w, ss_status = status,
      ss_owner = owner, ss_lease_expires = ws_lease_expires w, ss_index_commit = ws_index_commit w,
      ss_pull_number = ws_pr_number w, ss_fast_job = None, ss_full_job = None, ss_attestation = None,
      ss_failure_uri = None, ss_key = (if key = [] then None else Some key),
      ss_metadata = (if json_truthy metadata then metadata else JObj []), ss_created_at = now,
      ss_updated_at = now, ss_closed_at = None\<rparr>"

text \<open>The answer for a key that has a session, with the mark \<open>replayed\<close>.\<close>

definition replay_session ::
  "dev_session \<Rightarrow> workspace \<Rightarrow> dev_db \<Rightarrow> session_error + (dev_session \<times> bool) \<times> dev_db" where
  "replay_session r w db =
     (if ss_workspace_id r \<noteq> ws_id w \<or> ss_branch r \<noteq> ws_branch w then Inl SessionKeyConflict
      else Inr ((r, True), db))"

definition key_taken :: "dev_session \<Rightarrow> dev_session list \<Rightarrow> bool" where
  "key_taken r rows = (case ss_key r of None \<Rightarrow> False | Some key \<Rightarrow> session_under (ss_repository r) key rows \<noteq> None)"

text \<open>The insertion; a violated index is answered from the row that another caller put there.\<close>

definition insert_session ::
  "dev_session \<Rightarrow> workspace \<Rightarrow> string \<Rightarrow> time \<Rightarrow> dev_db \<Rightarrow> session_error + (dev_session \<times> bool) \<times> dev_db" where
  "insert_session r w key now db =
     (if row_of ss_id (ss_id r) (dd_sessions db) \<noteq> None \<or> key_taken r (dd_sessions db) \<or>
        \<not> one_active (dd_sessions db @ [r])
      then (case find_session_by_idempotency (ws_repository w) key db of
          Some old \<Rightarrow> replay_session old w db
        | None \<Rightarrow> Inl SessionWorkspaceMismatch)
      else Inr ((r, False), append_event (ss_id r) ''session_created'' None (Some (ss_status r)) 1
        (JObj [(''workspace_revision'', JInt (ws_revision w))]) now (db\<lparr>dd_sessions := dd_sessions db @ [r]\<rparr>)))"

definition create_session ::
  "workspace \<Rightarrow> string \<Rightarrow> string \<Rightarrow> json \<Rightarrow> string \<Rightarrow> string \<Rightarrow> time \<Rightarrow> dev_db \<Rightarrow>
   session_error + (dev_session \<times> bool) \<times> dev_db" where
  "create_session w owner key metadata status sid now db =
     (if status \<notin> set active_states then Inl SessionStateInvalid
      else (case find_session_by_idempotency (ws_repository w) key db of
          Some old \<Rightarrow> replay_session old w db
        | None \<Rightarrow> insert_session (new_session w owner key metadata status sid now) w key now db))"

section \<open>Updating under the revision\<close>

text \<open>\<open>UPDATE .. SET .., session_revision=session_revision+1 WHERE session_id=? AND session_revision=?\<close>\<close>

definition update_session ::
  "string \<Rightarrow> int \<Rightarrow> (dev_session \<Rightarrow> dev_session) \<Rightarrow> dev_db \<Rightarrow> session_error + dev_session \<times> dev_db" where
  "update_session sid expected f db =
     (let P = (\<lambda>r. ss_id r = sid \<and> int (ss_revision r) = expected);
          rows = update_where P (\<lambda>r. (f r)\<lparr>ss_revision := ss_revision r + 1\<rparr>) (dd_sessions db)
      in if row_count P (dd_sessions db) \<noteq> 1 then Inl SessionRevisionMismatch
         else if \<not> one_active rows then Inl SessionIntegrity
         else (case row_of ss_id sid rows of
             None \<Rightarrow> Inl SessionNotFound
           | Some updated \<Rightarrow> Inr (updated, db\<lparr>dd_sessions := rows\<rparr>)))"

text \<open>The update and its event in one transaction.\<close>

definition write_session ::
  "string \<Rightarrow> int \<Rightarrow> (dev_session \<Rightarrow> dev_session) \<Rightarrow> string \<Rightarrow> string \<Rightarrow> json \<Rightarrow> time \<Rightarrow> dev_db \<Rightarrow>
   session_error + dev_session \<times> dev_db" where
  "write_session sid expected f etype from_status data now db =
     map_sum id (\<lambda>(updated, db1).
         (updated, append_event sid etype (Some from_status) (Some (ss_status updated)) (ss_revision updated) data now db1))
       (update_session sid expected f db)"

definition merge_fields :: "json \<Rightarrow> (string \<times> json) list \<Rightarrow> json" where
  "merge_fields d kvs = foldl (\<lambda>d (k, v). json_put k v d) d kvs"

definition sync_fields :: "workspace \<Rightarrow> string \<Rightarrow> json \<Rightarrow> time \<Rightarrow> dev_session \<Rightarrow> dev_session" where
  "sync_fields w status metadata now r = r\<lparr>ss_head := ws_head w, ss_tree := ws_tree w,
     ss_workspace_revision := ws_revision w, ss_status := status, ss_lease_expires := ws_lease_expires w,
     ss_index_commit := ws_index_commit w, ss_pull_number := ws_pr_number w, ss_metadata := metadata,
     ss_updated_at := now\<rparr>"

definition sync_from_workspace ::
  "string \<Rightarrow> int \<Rightarrow> workspace \<Rightarrow> string \<Rightarrow> string option \<Rightarrow> (string \<times> json) list \<Rightarrow> time \<Rightarrow> dev_db \<Rightarrow>
   session_error + dev_session \<times> dev_db" where
  "sync_from_workspace sid expected w etype status patch now db =
     (case require_session sid expected True db of
        Inl e \<Rightarrow> Inl e
      | Inr r \<Rightarrow>
          if ss_workspace_id r \<noteq> ws_id w \<or> ss_repository r \<noteq> ws_repository w \<or> ss_branch r \<noteq> ws_branch w
          then Inl SessionWorkspaceMismatch
          else (let new_status = (if truthy status then the status
                    else if ws_status w = ''drifted'' then ''drifted'' else ss_status r)
                in write_session sid expected (sync_fields w new_status (merge_fields (ss_metadata r) patch) now)
                     etype (ss_status r) (JObj patch) now db))"

definition append_recovery_event ::
  "string \<Rightarrow> int \<Rightarrow> string \<Rightarrow> json \<Rightarrow> time \<Rightarrow> dev_db \<Rightarrow> session_error + dev_session \<times> dev_db" where
  "append_recovery_event sid expected etype data now db =
     (if etype \<notin> {''external_drift_detected'', ''recovery_refused''} then Inl SessionStateInvalid
      else (case require_session sid expected False db of
          Inl e \<Rightarrow> Inl e
        | Inr r \<Rightarrow> Inr (r, append_event sid etype (Some (ss_status r)) (Some (ss_status r)) (ss_revision r) data now db)))"

section \<open>Transitions\<close>

text \<open>The columns a transition may set, and a value of the type of the column.\<close>

definition transition_columns :: "string list" where
  "transition_columns = [''pull_number'', ''last_fast_ci_job_id'', ''last_full_ci_job_id'', ''last_attestation_id'',
     ''last_failure_resource_uri'', ''index_commit_sha'', ''workspace_revision'', ''head_commit_sha'', ''tree_sha'',
     ''lease_expires_at'']"

fun text_column :: "json \<Rightarrow> string option" where
  "text_column (JStr s) = Some s"
| "text_column _ = None"

fun int_column :: "json \<Rightarrow> int option" where
  "int_column (JInt i) = Some i"
| "int_column _ = None"

fun real_column :: "json \<Rightarrow> time option" where
  "real_column (JReal x) = Some x"
| "real_column (JInt i) = Some (of_int i)"
| "real_column _ = None"

definition set_column :: "string \<times> json \<Rightarrow> dev_session \<Rightarrow> dev_session" where
  "set_column kv r = (case kv of (k, v) \<Rightarrow>
     if k = ''pull_number'' then r\<lparr>ss_pull_number := int_column v\<rparr>
     else if k = ''last_fast_ci_job_id'' then r\<lparr>ss_fast_job := text_column v\<rparr>
     else if k = ''last_full_ci_job_id'' then r\<lparr>ss_full_job := text_column v\<rparr>
     else if k = ''last_attestation_id'' then r\<lparr>ss_attestation := text_column v\<rparr>
     else if k = ''last_failure_resource_uri'' then r\<lparr>ss_failure_uri := text_column v\<rparr>
     else if k = ''index_commit_sha'' then r\<lparr>ss_index_commit := text_column v\<rparr>
     else if k = ''workspace_revision'' then r\<lparr>ss_workspace_revision := the (int_column v)\<rparr>
     else if k = ''head_commit_sha'' then r\<lparr>ss_head := the (text_column v)\<rparr>
     else if k = ''tree_sha'' then r\<lparr>ss_tree := the (text_column v)\<rparr>
     else if k = ''lease_expires_at'' then r\<lparr>ss_lease_expires := the (real_column v)\<rparr>
     else r)"

text \<open>The columns that are \<open>NOT NULL\<close>.\<close>

definition column_null :: "string \<times> json \<Rightarrow> bool" where
  "column_null kv = (case kv of (k, v) \<Rightarrow>
     k = ''workspace_revision'' \<and> int_column v = None \<or>
     k \<in> {''head_commit_sha'', ''tree_sha''} \<and> text_column v = None \<or>
     k = ''lease_expires_at'' \<and> real_column v = None)"

definition transition_fields :: "string \<Rightarrow> (string \<times> json) list \<Rightarrow> time \<Rightarrow> dev_session \<Rightarrow> dev_session" where
  "transition_fields to_status kvs now r =
     fold set_column kvs (r\<lparr>ss_status := to_status, ss_updated_at := now,
       ss_closed_at := (if to_status \<in> set session_terminal_states then Some now else ss_closed_at r)\<rparr>)"

definition transition_session ::
  "string \<Rightarrow> int \<Rightarrow> string \<Rightarrow> string \<Rightarrow> string list option \<Rightarrow> (string \<times> json) list \<Rightarrow> time \<Rightarrow> dev_db \<Rightarrow>
   session_error + dev_session \<times> dev_db" where
  "transition_session sid expected to_status etype allowed_from kvs now db =
     (case require_session sid expected (to_status \<notin> set session_terminal_states) db of
        Inl e \<Rightarrow> Inl e
      | Inr r \<Rightarrow>
          if (case allowed_from of None \<Rightarrow> False | Some allowed \<Rightarrow> ss_status r \<notin> set allowed) then Inl SessionStateInvalid
          else if list_ex (\<lambda>(k, v). k \<notin> set transition_columns) kvs then Inl SessionStateInvalid
          else if list_ex column_null kvs then Inl SessionIntegrity
          else write_session sid expected (transition_fields to_status kvs now) etype (ss_status r) (JObj kvs) now db)"

definition recover_sessions :: "(string \<Rightarrow> workspace option) \<Rightarrow> time \<Rightarrow> dev_db \<Rightarrow> (nat \<times> nat) \<times> dev_db" where
  "recover_sessions getter now db =
     (let rows = filter (\<lambda>r. ss_status r \<in> {''preparing'', ''validating_fast'', ''validating_full'', ''closing''})
            (dd_sessions db);
          one = (\<lambda>r (n, db).
            case getter (ss_workspace_id r) of
              None \<Rightarrow> (n, db)
            | Some w \<Rightarrow>
                if ss_status r \<in> {''preparing'', ''closing''} then
                  (case transition_session (ss_id r) (int (ss_revision r)) ''blocked'' ''restart_recovery_required'' None
                      [(''workspace_revision'', JInt (ws_revision w)), (''head_commit_sha'', JStr (ws_head w)),
                       (''tree_sha'', JStr (ws_tree w))] now db of
                     Inl e \<Rightarrow> (n, db)
                   | Inr (s, db') \<Rightarrow> (n + 1, db'))
                else (n, db));
          (recovered, db') = fold one rows (0, db)
      in ((length rows, recovered), db'))"

end
