(* ===== verification/Session_Workspaces.thy ===== *)
theory Session_Workspaces
  imports Sessions
begin

text \<open>
  The operations of \<open>app/development_session_store.py\<close> that read or change a session together with
  the workspace it is tied to: recovery of a stale session, renewal of the lease, and the
  finalisation of a merge.
\<close>

section \<open>Values out of JSON\<close>

text \<open>\<open>int(x)\<close>; the error of a value that is not a number is \<open>None\<close>.\<close>

fun json_int :: "json \<Rightarrow> int option" where
  "json_int (JInt i) = Some i"
| "json_int (JBool b) = Some (if b then 1 else 0)"
| "json_int (JReal x) = Some (if x < 0 then \<lceil>x\<rceil> else \<lfloor>x\<rfloor>)"
| "json_int _ = None"

text \<open>\<open>int(d.get(k) or v)\<close>\<close>

definition int_or :: "string \<Rightarrow> int \<Rightarrow> json \<Rightarrow> int option" where
  "int_or k v d = (case json_get k d of None \<Rightarrow> Some v | Some x \<Rightarrow> if json_truthy x then json_int x else Some v)"

text \<open>\<open>x == d.get(k)\<close> for a number and for a string.\<close>

definition number_at :: "string \<Rightarrow> json \<Rightarrow> real \<Rightarrow> bool" where
  "number_at k d x \<longleftrightarrow> Option.bind (json_get k d) real_column = Some x"

definition string_at :: "string \<Rightarrow> json \<Rightarrow> string \<Rightarrow> bool" where
  "string_at k d s \<longleftrightarrow> json_get k d = Some (JStr s)"

text \<open>\<open>x if isinstance(x, dict) else {}\<close>\<close>

definition dict_at :: "string \<Rightarrow> json \<Rightarrow> json" where
  "dict_at k d = (case json_get k d of Some (JObj kvs) \<Rightarrow> JObj kvs | _ \<Rightarrow> JObj [])"

definition field_or_null :: "string \<Rightarrow> json \<Rightarrow> json" where
  "field_or_null k d = (case json_get k d of None \<Rightarrow> JNull | Some x \<Rightarrow> x)"

text \<open>\<open>str(c or "")\<close> and \<open>s or None\<close>\<close>

definition or_blank :: "string option \<Rightarrow> string" where
  "or_blank c = (case c of None \<Rightarrow> [] | Some s \<Rightarrow> s)"

definition keep_or_null :: "string \<Rightarrow> string option" where
  "keep_or_null s = (if s = [] then None else Some s)"

section \<open>Identities\<close>

definition same_identity :: "dev_session \<Rightarrow> workspace \<Rightarrow> bool" where
  "same_identity r w \<longleftrightarrow> ss_workspace_id r = ws_id w \<and> ss_repository r = ws_repository w \<and>
     ss_branch r = ws_branch w \<and> ss_base_branch r = ws_base_branch w \<and> ss_base_commit r = ws_base_commit w"

definition same_code :: "dev_session \<Rightarrow> workspace \<Rightarrow> bool" where
  "same_code r w \<longleftrightarrow> ss_head r = ws_head w \<and> ss_tree r = ws_tree w"

section \<open>Recovering a stale session\<close>

record session_recovery =
  sr_session :: dev_session
  sr_recovered :: bool
  sr_replayed :: bool
  sr_before :: json
  sr_after :: json
  sr_audit :: json

text \<open>The workspace that was verified is still the one in the table, active and leased.\<close>

definition recovery_workspace_error :: "workspace \<Rightarrow> time \<Rightarrow> workspace option \<Rightarrow> session_error option" where
  "recovery_workspace_error w now persisted = (case persisted of
       None \<Rightarrow> Some WorkspaceNotFound
     | Some p \<Rightarrow>
         if ws_revision p \<noteq> ws_revision w \<or> ws_head p \<noteq> ws_head w \<or> ws_tree p \<noteq> ws_tree w \<or>
            ws_base_branch p \<noteq> ws_base_branch w \<or> ws_base_commit p \<noteq> ws_base_commit w \<or>
            ws_owner p \<noteq> ws_owner w \<or> ws_lease_expires p \<noteq> ws_lease_expires w
         then Some WorkspaceRevisionMismatch
         else if ws_status p \<noteq> ''active'' \<or> truthy (ws_drift_reason p) then Some WorkspaceDrifted
         else if ws_lease_expires p \<le> now then Some WorkspaceLeaseRequired
         else None)"

definition last_recovery :: "string \<Rightarrow> json \<Rightarrow> json option" where
  "last_recovery key metadata = (case json_get ''last_session_recovery'' metadata of
       Some (JObj kvs) \<Rightarrow>
         if key \<noteq> [] \<and> map_of kvs ''idempotency_key'' = Some (JStr key) then Some (JObj kvs) else None
     | _ \<Rightarrow> None)"

text \<open>The answer to a key whose recovery the session remembers.\<close>

definition replay_recovery :: "dev_session \<Rightarrow> workspace \<Rightarrow> json \<Rightarrow> session_error + session_recovery" where
  "replay_recovery r w prior = (let after = dict_at ''after'' prior in
     case (case json_get ''session_revision'' after of None \<Rightarrow> Some (-1) | Some x \<Rightarrow> json_int x) of
       None \<Rightarrow> Inl SessionValueError
     | Some revision \<Rightarrow>
         if int (ss_revision r) = revision \<and> same_code r w \<and>
            string_at ''head_commit_sha'' after (ws_head w) \<and> string_at ''tree_sha'' after (ws_tree w) \<and>
            ss_workspace_revision r = ws_revision w \<and>
            number_at ''workspace_revision'' after (of_int (ws_revision w)) \<and>
            ss_lease_expires r = ws_lease_expires w \<and>
            number_at ''lease_expires_at'' after (ws_lease_expires w)
         then Inr \<lparr>sr_session = r,
             sr_recovered = (case json_get ''recovered'' prior of None \<Rightarrow> False | Some x \<Rightarrow> json_truthy x),
             sr_replayed = True, sr_before = field_or_null ''before'' prior, sr_after = after,
             sr_audit = field_or_null ''audit'' prior\<rparr>
         else Inl SessionKeyConflict)"

definition recovery_view :: "string \<Rightarrow> string \<Rightarrow> int \<Rightarrow> nat \<Rightarrow> time \<Rightarrow> string option \<Rightarrow> json" where
  "recovery_view head tree workspace_revision revision lease index = JObj
     [(''head_commit_sha'', JStr head), (''tree_sha'', JStr tree),
      (''workspace_revision'', JInt workspace_revision), (''session_revision'', JInt (int revision)),
      (''lease_expires_at'', JReal lease), (''index_commit_sha'', json_opt index)]"

definition session_view :: "dev_session \<Rightarrow> json" where
  "session_view r = recovery_view (ss_head r) (ss_tree r) (ss_workspace_revision r) (ss_revision r)
     (ss_lease_expires r) (ss_index_commit r)"

definition needs_recovery :: "dev_session \<Rightarrow> workspace \<Rightarrow> string option \<Rightarrow> bool" where
  "needs_recovery r w index \<longleftrightarrow> \<not> same_code r w \<or> ss_workspace_revision r \<noteq> ws_revision w \<or>
     \<bar>ss_lease_expires r - ws_lease_expires w\<bar> > 1 / 1000 \<or> ss_index_commit r \<noteq> index"

definition has_evidence :: "dev_session \<Rightarrow> bool" where
  "has_evidence r \<longleftrightarrow> truthy (ss_fast_job r) \<or> truthy (ss_full_job r) \<or> truthy (ss_attestation r) \<or>
     truthy (ss_failure_uri r)"

definition recovery_audit :: "string \<Rightarrow> dev_session \<Rightarrow> workspace \<Rightarrow> json \<Rightarrow> json \<Rightarrow> json" where
  "recovery_audit key r w after evidence = JObj
     [(''idempotency_key'', if key = [] then JNull else JStr key), (''before'', session_view r), (''after'', after),
      (''head_changed'', JBool (\<not> same_code r w)),
      (''stale_ci_evidence_cleared'', JBool (\<not> same_code r w \<and> has_evidence r)),
      (''evidence'', if json_truthy evidence then evidence else JObj [])]"

text \<open>The columns of the update; the references to CI evidence fall with the head they are about.\<close>

definition recovery_fields :: "workspace \<Rightarrow> string option \<Rightarrow> json \<Rightarrow> time \<Rightarrow> dev_session \<Rightarrow> dev_session" where
  "recovery_fields w index metadata now r = (let keep = (\<lambda>c. if same_code r w then c else None) in
     r\<lparr>ss_head := ws_head w, ss_tree := ws_tree w, ss_workspace_revision := ws_revision w,
       ss_lease_expires := ws_lease_expires w, ss_index_commit := index,
       ss_fast_job := keep (ss_fast_job r), ss_full_job := keep (ss_full_job r),
       ss_attestation := keep (ss_attestation r), ss_failure_uri := keep (ss_failure_uri r),
       ss_metadata := metadata, ss_updated_at := now\<rparr>)"

definition commit_recovery ::
  "dev_session \<Rightarrow> int \<Rightarrow> workspace \<Rightarrow> string \<Rightarrow> string option \<Rightarrow> json \<Rightarrow> time \<Rightarrow> dev_db \<Rightarrow>
   session_error + session_recovery \<times> dev_db" where
  "commit_recovery r expected w key index evidence now db =
     (let before = session_view r;
          after = recovery_view (ws_head w) (ws_tree w) (ws_revision w) (ss_revision r + 1) (ws_lease_expires w) index;
          audit = recovery_audit key r w after evidence;
          metadata = (if key = [] then ss_metadata r
            else json_put ''last_session_recovery'' (JObj
              [(''idempotency_key'', JStr key), (''recovered'', JBool True), (''before'', before), (''after'', after),
               (''audit'', audit)]) (ss_metadata r))
      in map_sum id (\<lambda>(updated, db1).
           (\<lparr>sr_session = updated, sr_recovered = True, sr_replayed = False, sr_before = before, sr_after = after,
             sr_audit = audit\<rparr>, db1))
         (write_session (ss_id r) expected (recovery_fields w index metadata now) ''session_recovered'' (ss_status r)
            audit now db))"

definition recover_stale_session_from_workspace ::
  "string \<Rightarrow> int \<Rightarrow> workspace \<Rightarrow> string \<Rightarrow> string option \<Rightarrow> json \<Rightarrow> time \<Rightarrow> dev_db \<Rightarrow>
   session_error + session_recovery \<times> dev_db" where
  "recover_stale_session_from_workspace sid expected w key index evidence now db =
     (case session_row sid db of
        Inl e \<Rightarrow> Inl e
      | Inr r \<Rightarrow>
          (case recovery_workspace_error w now (row_of ws_id (ws_id w) (dd_workspaces db)) of
             Some e \<Rightarrow> Inl e
           | None \<Rightarrow>
               if \<not> same_identity r w \<or> ss_owner r \<noteq> ws_owner w then Inl SessionWorkspaceMismatch
               else (case last_recovery key (ss_metadata r) of
                   Some prior \<Rightarrow> map_sum id (\<lambda>x. (x, db)) (replay_recovery r w prior)
                 | None \<Rightarrow>
                     if int (ss_revision r) \<noteq> expected then Inl SessionRevisionMismatch
                     else if session_terminal r then Inl SessionClosed
                     else if truthy index \<and> index \<noteq> Some (ws_head w) then Inl SessionRecoveryRequired
                     else if \<not> needs_recovery r w index
                     then Inr (\<lparr>sr_session = r, sr_recovered = False, sr_replayed = False, sr_before = session_view r,
                         sr_after = session_view r, sr_audit = JNull\<rparr>, db)
                     else commit_recovery r expected w key index evidence now db)))"

section \<open>Renewing the lease of session and workspace\<close>

definition max_lease_seconds :: int where
  "max_lease_seconds = 30 * 24 * 60 * 60"

definition bounded_lease :: "int \<Rightarrow> int" where
  "bounded_lease seconds = max 60 (min seconds max_lease_seconds)"

definition renew_error :: "dev_session \<Rightarrow> workspace \<Rightarrow> int \<Rightarrow> int \<Rightarrow> time \<Rightarrow> session_error option" where
  "renew_error r w expected expected_workspace now =
     (if int (ss_revision r) \<noteq> expected then Some SessionRevisionMismatch
      else if session_terminal r then Some SessionClosed
      else if ss_workspace_id r \<noteq> ws_id w then Some SessionWorkspaceMismatch
      else if ws_revision w \<noteq> expected_workspace then Some WorkspaceRevisionMismatch
      else if ss_workspace_revision r \<noteq> expected_workspace then Some SessionWorkspaceMismatch
      else if ws_status w = ''drifted'' then Some WorkspaceDrifted
      else if ws_status w \<noteq> ''active'' \<or> ws_lease_expires w \<le> now \<or> ss_lease_expires r \<le> now
      then Some WorkspaceLeaseRequired
      else if \<not> same_code r w then Some SessionWorkspaceMismatch
      else if \<bar>ss_lease_expires r - ws_lease_expires w\<bar> > 1 / 1000 then Some SessionWorkspaceMismatch
      else None)"

text \<open>\<open>UPDATE workspaces SET .., revision=revision+1 WHERE workspace_id=? AND revision=? AND status='active' ..\<close>\<close>

definition update_workspace ::
  "string \<Rightarrow> int \<Rightarrow> (workspace \<Rightarrow> bool) \<Rightarrow> (workspace \<Rightarrow> workspace) \<Rightarrow> dev_db \<Rightarrow> session_error + dev_db" where
  "update_workspace wid expected P f db =
     (let Q = (\<lambda>w. ws_id w = wid \<and> ws_revision w = expected \<and> ws_status w = ''active'' \<and> P w)
      in if row_count Q (dd_workspaces db) \<noteq> 1 then Inl WorkspaceRevisionMismatch
         else Inr (db\<lparr>dd_workspaces := update_where Q (\<lambda>w. (f w)\<lparr>ws_revision := ws_revision w + 1\<rparr>) (dd_workspaces db)\<rparr>))"

definition renew_audit :: "(string \<times> json) list \<Rightarrow> time \<Rightarrow> time \<Rightarrow> int \<Rightarrow> json" where
  "renew_audit event_data before_expiry new_expiry workspace_revision = merge_fields (JObj event_data)
     [(''before_expiry'', JReal before_expiry), (''after_expiry'', JReal new_expiry),
      (''before_workspace_revision'', JInt workspace_revision),
      (''after_workspace_revision'', JInt (workspace_revision + 1))]"

definition auto_renew_session_workspace_lease ::
  "string \<Rightarrow> int \<Rightarrow> string \<Rightarrow> int \<Rightarrow> int \<Rightarrow> (string \<times> json) list \<Rightarrow> time \<Rightarrow> dev_db \<Rightarrow>
   session_error + (dev_session \<times> json) \<times> dev_db" where
  "auto_renew_session_workspace_lease sid expected wid expected_workspace lease_seconds event_data now db =
     (case session_row sid db of
        Inl e \<Rightarrow> Inl e
      | Inr r \<Rightarrow>
          (case row_of ws_id wid (dd_workspaces db) of
             None \<Rightarrow> Inl WorkspaceNotFound
           | Some w \<Rightarrow>
               (case renew_error r w expected expected_workspace now of
                  Some e \<Rightarrow> Inl e
                | None \<Rightarrow>
                    (let expiry = now + of_int (bounded_lease lease_seconds);
                         audit = renew_audit event_data (ws_lease_expires w) expiry expected_workspace
                     in case update_workspace wid expected_workspace (\<lambda>w. ws_lease_expires w > now)
                          (\<lambda>w. w\<lparr>ws_lease_expires := expiry, ws_updated_at := now\<rparr>) db of
                          Inl e \<Rightarrow> Inl e
                        | Inr db1 \<Rightarrow> map_sum id (\<lambda>(updated, db2). ((updated, audit), db2))
                            (write_session sid expected (\<lambda>r. r\<lparr>ss_workspace_revision := expected_workspace + 1,
                                 ss_lease_expires := expiry, ss_updated_at := now\<rparr>)
                               ''workspace_lease_auto_renewed'' (ss_status r) audit now db1)))))"

section \<open>Finalising a merge\<close>

definition finalize_error :: "dev_session \<Rightarrow> workspace \<Rightarrow> int \<Rightarrow> int \<Rightarrow> session_error option" where
  "finalize_error r w expected expected_workspace =
     (if int (ss_revision r) \<noteq> expected then Some SessionRevisionMismatch
      else if ws_revision w \<noteq> expected_workspace then Some WorkspaceRevisionMismatch
      else if ss_workspace_id r \<noteq> ws_id w \<or> ss_workspace_revision r \<noteq> expected_workspace
      then Some SessionWorkspaceMismatch
      else if ss_status r \<notin> {''active'', ''pr_ready''} then Some SessionStateInvalid
      else if ws_status w \<noteq> ''active'' then Some WorkspaceClosed
      else if \<not> same_identity r w \<or> \<not> same_code r w then Some SessionWorkspaceMismatch
      else None)"

text \<open>The verified pull request of the evidence, which may not differ from the one of the session.\<close>

definition merge_pull_number :: "(string \<times> json) list \<Rightarrow> dev_session \<Rightarrow> session_error + int" where
  "merge_pull_number evidence r = (case int_or ''pull_number'' 0 (JObj evidence) of
       None \<Rightarrow> Inl SessionValueError
     | Some n \<Rightarrow>
         if n \<le> 0 then Inl MergeEvidenceIncomplete
         else if ss_pull_number r \<noteq> None \<and> ss_pull_number r \<noteq> Some n then Inl ManagedPrMismatch
         else Inr n)"

definition finalize_audit :: "string \<Rightarrow> int \<Rightarrow> int \<Rightarrow> bool \<Rightarrow> (string \<times> json) list \<Rightarrow> json" where
  "finalize_audit wid expected_workspace n backfilled evidence = JObj
     [(''workspace_id'', JStr wid), (''workspace_closed'', JBool True),
      (''old_workspace_revision'', JInt expected_workspace), (''new_workspace_revision'', JInt (expected_workspace + 1)),
      (''pull_number'', JInt n), (''pull_number_backfilled'', JBool backfilled), (''merge'', JObj evidence)]"

definition merged_fields :: "int \<Rightarrow> int \<Rightarrow> time \<Rightarrow> dev_session \<Rightarrow> dev_session" where
  "merged_fields n workspace_revision now r = r\<lparr>ss_status := ''merged'', ss_pull_number := Some n,
     ss_workspace_revision := workspace_revision, ss_lease_expires := 0, ss_updated_at := now,
     ss_closed_at := Some now\<rparr>"

definition closed_fields :: "time \<Rightarrow> workspace \<Rightarrow> workspace" where
  "closed_fields now w = w\<lparr>ws_status := ''closed'', ws_lease_expires := 0, ws_index_commit := None,
     ws_drift_reason := None, ws_updated_at := now\<rparr>"

definition finalize_merged_session_workspace ::
  "string \<Rightarrow> int \<Rightarrow> string \<Rightarrow> int \<Rightarrow> (string \<times> json) list \<Rightarrow> time \<Rightarrow> dev_db \<Rightarrow>
   session_error + (dev_session \<times> workspace option) \<times> dev_db" where
  "finalize_merged_session_workspace sid expected wid expected_workspace evidence now db =
     (case session_row sid db of
        Inl e \<Rightarrow> Inl e
      | Inr r \<Rightarrow>
          (case row_of ws_id wid (dd_workspaces db) of
             None \<Rightarrow> Inl WorkspaceNotFound
           | Some w \<Rightarrow>
               (case finalize_error r w expected expected_workspace of
                  Some e \<Rightarrow> Inl e
                | None \<Rightarrow>
                    (case merge_pull_number evidence r of
                       Inl e \<Rightarrow> Inl e
                     | Inr n \<Rightarrow>
                         (case update_workspace wid expected_workspace (\<lambda>_. True) (closed_fields now) db of
                            Inl e \<Rightarrow> Inl e
                          | Inr db1 \<Rightarrow> map_sum id (\<lambda>(updated, db2).
                                ((updated, row_of ws_id wid (dd_workspaces db2)), db2))
                              (write_session sid expected (merged_fields n (expected_workspace + 1) now)
                                 ''pull_request_merged'' (ss_status r)
                                 (finalize_audit wid expected_workspace n (ss_pull_number r = None) evidence)
                                 now db1))))))"

end
