(* ===== verification/Workspaces.thy ===== *)
theory Workspaces
  imports Session_Workspaces
begin

text \<open>
  The rows of \<open>workspaces\<close> (\<open>app/mygithub12_workspace.py\<close>): the lease of a branch, its renewal,
  resumption, refresh and release, and the guards around a write.  \<open>recover_stale_session\<close> of
  \<open>app/development_orchestrator.py\<close> is here too, because the renewal of a managed workspace calls
  it.  GitHub is a \<open>git_view\<close>; the answer of the repository index is an argument.
\<close>

section \<open>Reading a workspace\<close>

text \<open>What GitHub answers: the head of a branch, the tree of a commit, and how a commit relates to a
  head (tree of the commit, merge base, commits ahead and behind; \<open>None\<close> for a failed comparison).\<close>

record git_view =
  gv_branch :: "string \<Rightarrow> string \<Rightarrow> string option"
  gv_tree :: "string \<Rightarrow> string \<Rightarrow> string"
  gv_compare :: "string \<Rightarrow> string \<Rightarrow> string \<Rightarrow> (string \<times> string \<times> int \<times> int) option"

definition workspace_row :: "string \<Rightarrow> dev_db \<Rightarrow> session_error + workspace" where
  "workspace_row wid db = (case row_of ws_id wid (dd_workspaces db) of None \<Rightarrow> Inl WorkspaceNotFound | Some w \<Rightarrow> Inr w)"

definition effective_workspace_status :: "workspace \<Rightarrow> time \<Rightarrow> string" where
  "effective_workspace_status w now =
     (if ws_status w = ''active'' \<and> ws_lease_expires w \<le> now then ''expired'' else ws_status w)"

definition lease_valid :: "workspace \<Rightarrow> time \<Rightarrow> bool" where
  "lease_valid w now \<longleftrightarrow> ws_lease_expires w > now \<and> effective_workspace_status w now = ''active''"

definition workspace_cas :: "string \<Rightarrow> int \<Rightarrow> dev_db \<Rightarrow> session_error + workspace" where
  "workspace_cas wid expected db =
     (case workspace_row wid db of
        Inl e \<Rightarrow> Inl e
      | Inr w \<Rightarrow> if ws_revision w \<noteq> expected then Inl WorkspaceRevisionMismatch else Inr w)"

text \<open>The partial unique index on the branch.\<close>

definition branch_held :: "workspace \<Rightarrow> bool" where
  "branch_held w \<longleftrightarrow> ws_status w \<in> {''active'', ''drifted''}"

definition branch_unique :: "workspace list \<Rightarrow> bool" where
  "branch_unique rows \<longleftrightarrow> distinct (map (\<lambda>w. (ws_repository w, ws_branch w)) (filter branch_held rows))"

text \<open>\<open>UPDATE workspaces SET .., revision=revision+1 WHERE workspace_id=? AND revision=?\<close>; \<open>taken\<close> is the
  error of a violated index.\<close>

definition write_workspace ::
  "string \<Rightarrow> int \<Rightarrow> session_error \<Rightarrow> (workspace \<Rightarrow> workspace) \<Rightarrow> dev_db \<Rightarrow> session_error + workspace \<times> dev_db" where
  "write_workspace wid expected taken f db =
     (let P = (\<lambda>w. ws_id w = wid \<and> ws_revision w = expected);
          rows = update_where P (\<lambda>w. (f w)\<lparr>ws_revision := ws_revision w + 1\<rparr>) (dd_workspaces db);
          db1 = db\<lparr>dd_workspaces := rows\<rparr>
      in if \<not> branch_unique rows then Inl taken
         else if row_count P (dd_workspaces db) \<noteq> 1 then Inl WorkspaceRevisionMismatch
         else map_sum id (\<lambda>w. (w, db1)) (workspace_row wid db1))"

section \<open>Taking a branch\<close>

definition converge_expired_branch_owner :: "string \<Rightarrow> string \<Rightarrow> time \<Rightarrow> dev_db \<Rightarrow> dev_db" where
  "converge_expired_branch_owner repository branch now db = db\<lparr>dd_workspaces := update_where
     (\<lambda>w. ws_repository w = repository \<and> ws_branch w = branch \<and> ws_status w = ''active'' \<and> ws_lease_expires w \<le> now)
     (\<lambda>w. w\<lparr>ws_status := ''expired'', ws_revision := ws_revision w + 1, ws_updated_at := now\<rparr>) (dd_workspaces db)\<rparr>"

definition new_workspace ::
  "string \<Rightarrow> string \<Rightarrow> string \<Rightarrow> string \<Rightarrow> string \<Rightarrow> string \<Rightarrow> string \<Rightarrow> string \<Rightarrow> int \<Rightarrow> time \<Rightarrow> workspace" where
  "new_workspace wid repository branch base_branch base_commit head tree owner lease_seconds now =
     \<lparr>ws_id = wid, ws_repository = repository, ws_branch = branch, ws_base_branch = base_branch,
      ws_base_commit = base_commit, ws_head = head, ws_tree = tree, ws_status = ''active'', ws_revision = 1,
      ws_owner = owner, ws_lease_expires = now + of_int (bounded_lease lease_seconds), ws_index_commit = Some head,
      ws_scope = JObj [], ws_drift_reason = None, ws_pr_number = None, ws_created_at = now, ws_updated_at = now\<rparr>"

text \<open>The expired owner is released in a transaction of its own, which a refused insertion keeps.\<close>

definition insert_workspace :: "workspace \<Rightarrow> time \<Rightarrow> dev_db \<Rightarrow> (session_error + workspace) \<times> dev_db" where
  "insert_workspace w now db =
     (let db1 = converge_expired_branch_owner (ws_repository w) (ws_branch w) now db;
          rows = dd_workspaces db1 @ [w]
      in if row_of ws_id (ws_id w) (dd_workspaces db1) \<noteq> None \<or> \<not> branch_unique rows
         then (Inl WorkspaceLeaseConflict, db1)
         else (Inr w, db1\<lparr>dd_workspaces := rows\<rparr>))"

section \<open>Resuming, refreshing, releasing\<close>

definition resume_workspace ::
  "git_view \<Rightarrow> string \<Rightarrow> int \<Rightarrow> int \<Rightarrow> time \<Rightarrow> dev_db \<Rightarrow> session_error + workspace \<times> dev_db" where
  "resume_workspace G wid expected lease_seconds now db =
     (case workspace_cas wid expected db of
        Inl e \<Rightarrow> Inl e
      | Inr w \<Rightarrow>
          if effective_workspace_status w now = ''drifted'' then Inl WorkspaceDrifted
          else if effective_workspace_status w now = ''closed'' then Inl WorkspaceClosed
          else if effective_workspace_status w now \<noteq> ''expired'' then Inl WorkspaceLeaseRequired
          else (case gv_branch G (ws_repository w) (ws_branch w) of
              None \<Rightarrow> Inl WorkspaceDrifted
            | Some head \<Rightarrow>
                if head \<noteq> ws_head w \<or> gv_tree G (ws_repository w) head \<noteq> ws_tree w then Inl WorkspaceDrifted
                else if gv_branch G (ws_repository w) (ws_base_branch w) = None then Inl WorkspaceRefNotFound
                else write_workspace wid expected WorkspaceLeaseConflict (\<lambda>w. w\<lparr>ws_status := ''active'',
                  ws_lease_expires := now + of_int (bounded_lease lease_seconds), ws_drift_reason := None,
                  ws_updated_at := now\<rparr>) db))"

text \<open>The state a refresh finds: status, reason, head and tree.\<close>

definition refreshed_state ::
  "git_view \<Rightarrow> workspace \<Rightarrow> time \<Rightarrow> string \<times> string option \<times> string \<times> string" where
  "refreshed_state G w now = (case gv_branch G (ws_repository w) (ws_branch w) of
       None \<Rightarrow> (''drifted'', Some ''branch_deleted'', ws_head w, ws_tree w)
     | Some head \<Rightarrow>
         (if head \<noteq> ws_head w then ''drifted'' else if ws_lease_expires w \<le> now then ''expired'' else ''active'',
          if head \<noteq> ws_head w then Some ''branch_moved_externally'' else None,
          head, gv_tree G (ws_repository w) head))"

definition refresh_workspace ::
  "git_view \<Rightarrow> string \<Rightarrow> int \<Rightarrow> time \<Rightarrow> dev_db \<Rightarrow> session_error + workspace \<times> dev_db" where
  "refresh_workspace G wid expected now db =
     (case workspace_cas wid expected db of
        Inl e \<Rightarrow> Inl e
      | Inr w \<Rightarrow>
          if ws_status w = ''closed'' then Inl WorkspaceClosed
          else (case refreshed_state G w now of (status, reason, head, tree) \<Rightarrow>
            write_workspace wid expected SessionIntegrity (\<lambda>w. w\<lparr>ws_head := head, ws_tree := tree, ws_status := status,
              ws_drift_reason := reason, ws_updated_at := now\<rparr>) db))"

text \<open>The update of a release; its row count is not looked at.\<close>

definition release_workspace :: "string \<Rightarrow> int \<Rightarrow> time \<Rightarrow> dev_db \<Rightarrow> dev_db" where
  "release_workspace wid expected now db = db\<lparr>dd_workspaces := update_where
     (\<lambda>w. ws_id w = wid \<and> ws_revision w = expected)
     (\<lambda>w. w\<lparr>ws_status := ''closed'', ws_lease_expires := 0, ws_index_commit := None,
        ws_revision := ws_revision w + 1, ws_updated_at := now\<rparr>) (dd_workspaces db)\<rparr>"

text \<open>\<open>db1\<close> is the store the check reads, \<open>db\<close> the one the update finds.\<close>

definition close_workspace :: "string \<Rightarrow> int \<Rightarrow> time \<Rightarrow> dev_db \<Rightarrow> dev_db \<Rightarrow> session_error + workspace \<times> dev_db" where
  "close_workspace wid expected now db1 db =
     (case workspace_cas wid expected db1 of
        Inl e \<Rightarrow> Inl e
      | Inr _ \<Rightarrow> (let db2 = release_workspace wid expected now db
          in map_sum id (\<lambda>w. (w, db2)) (workspace_row wid db2)))"

section \<open>Scope and writes\<close>

definition scope_json ::
  "string list \<Rightarrow> json \<Rightarrow> json \<Rightarrow> json \<Rightarrow> json \<Rightarrow> json \<Rightarrow> bool \<Rightarrow> json" where
  "scope_json paths symbols apis tables migrations configs exclusive = JObj
     [(''paths'', JList (map JStr paths)), (''symbols'', symbols), (''apis'', apis), (''tables'', tables),
      (''migrations'', migrations), (''configs'', configs), (''exclusive'', JBool exclusive)]"

definition declare_workspace_scope ::
  "string \<Rightarrow> int \<Rightarrow> string list \<Rightarrow> json \<Rightarrow> json \<Rightarrow> json \<Rightarrow> json \<Rightarrow> json \<Rightarrow> bool \<Rightarrow> time \<Rightarrow> dev_db \<Rightarrow>
   session_error + workspace \<times> dev_db" where
  "declare_workspace_scope wid expected paths symbols apis tables migrations configs exclusive now db =
     (case workspace_cas wid expected db of
        Inl e \<Rightarrow> Inl e
      | Inr w \<Rightarrow>
          (let status = effective_workspace_status w now
           in if status = ''drifted'' then Inl WorkspaceDrifted
              else if status = ''expired'' then Inl WorkspaceLeaseRequired
              else if status \<noteq> ''active'' then Inl WorkspaceClosed
              else if \<not> list_all safe_path paths then Inl WorkspacePathInvalid
              else write_workspace wid expected SessionIntegrity (\<lambda>w. w\<lparr>ws_scope :=
                scope_json paths symbols apis tables migrations configs exclusive, ws_updated_at := now\<rparr>) db))"

definition workspace_write_preflight ::
  "git_view \<Rightarrow> bool \<Rightarrow> string \<Rightarrow> string \<Rightarrow> string \<Rightarrow> string \<Rightarrow> int \<Rightarrow> time \<Rightarrow> dev_db \<Rightarrow>
   session_error + workspace option" where
  "workspace_write_preflight G required repository branch expected_head wid expected now db =
     (if wid = [] then (if required \<and> starts_with ''ai/'' branch then Inl WorkspaceLeaseRequired else Inr None)
      else if expected \<le> 0 then Inl WorkspaceRevisionMismatch
      else (case workspace_row wid db of
          Inl e \<Rightarrow> Inl e
        | Inr w \<Rightarrow>
            (let status = effective_workspace_status w now;
                 actual = or_blank (gv_branch G repository branch)
             in if ws_repository w \<noteq> repository \<or> ws_branch w \<noteq> branch then Inl WorkspaceScopeConflict
                else if status = ''drifted'' then Inl WorkspaceDrifted
                else if status = ''expired'' then Inl WorkspaceLeaseRequired
                else if status \<noteq> ''active'' then Inl WorkspaceClosed
                else if \<not> lease_valid w now then Inl WorkspaceLeaseRequired
                else if ws_revision w \<noteq> expected then Inl WorkspaceRevisionMismatch
                else if actual \<noteq> ws_head w \<or> (expected_head \<noteq> [] \<and> actual \<noteq> expected_head)
                then Inl WorkspaceDrifted
                else Inr (Some w))))"

text \<open>Only a write that GitHub shows again moves the head of the workspace.\<close>

definition write_evidence_ok :: "workspace \<Rightarrow> string \<Rightarrow> string \<Rightarrow> json \<Rightarrow> bool" where
  "write_evidence_ok w head tree verification \<longleftrightarrow>
     string_at ''repository'' verification (ws_repository w) \<and> string_at ''branch'' verification (ws_branch w) \<and>
     string_at ''verified_commit_sha'' verification head \<and> string_at ''verified_branch_head_sha'' verification head \<and>
     string_at ''verified_tree_sha'' verification tree"

definition workspace_write_complete ::
  "string \<Rightarrow> int \<Rightarrow> string \<Rightarrow> string \<Rightarrow> json \<Rightarrow> time \<Rightarrow> dev_db \<Rightarrow> session_error + workspace \<times> dev_db" where
  "workspace_write_complete wid expected head tree verification now db =
     (if json_get ''write_verified'' verification \<noteq> Some (JBool True) then Inl WorkspaceVerifyFailed
      else (case workspace_cas wid expected db of
          Inl e \<Rightarrow> Inl e
        | Inr w \<Rightarrow>
            if \<not> write_evidence_ok w head tree verification then Inl WorkspaceVerifyFailed
            else write_workspace wid expected SessionIntegrity (\<lambda>w. w\<lparr>ws_head := head, ws_tree := tree,
              ws_index_commit := Some head, ws_updated_at := now\<rparr>) db))"

section \<open>Recovering and renewing a managed workspace\<close>

text \<open>\<open>refuse\<close>: an event, unless it cannot be written, and the error.\<close>

definition refuse_recovery ::
  "dev_session \<Rightarrow> workspace \<Rightarrow> string \<Rightarrow> string \<Rightarrow> string \<Rightarrow> session_error \<Rightarrow> (string \<times> json) list \<Rightarrow> time \<Rightarrow> dev_db \<Rightarrow>
   (session_error + session_recovery) \<times> dev_db" where
  "refuse_recovery r w key etype code e details now db =
     (let payload = merge_fields (JObj [(''idempotency_key'', json_opt (keep_or_null key)), (''reason_code'', JStr code),
            (''session_head'', JStr (ss_head r)), (''session_tree'', JStr (ss_tree r)),
            (''workspace_head'', JStr (ws_head w)), (''workspace_tree'', JStr (ws_tree w))]) details
      in (Inl e, case append_recovery_event (ss_id r) (int (ss_revision r)) etype payload now db of
            Inl _ \<Rightarrow> db | Inr (_, db1) \<Rightarrow> db1))"

definition replay_candidate :: "dev_session \<Rightarrow> string \<Rightarrow> bool" where
  "replay_candidate r key \<longleftrightarrow> (case last_recovery key (ss_metadata r) of
       None \<Rightarrow> False
     | Some prior \<Rightarrow> int_or ''session_revision'' (-1) (dict_at ''after'' prior) = Some (int (ss_revision r)))"

text \<open>Why a recovery is refused before GitHub is asked: event, code, error and details.\<close>

definition recovery_refusal ::
  "dev_session \<Rightarrow> workspace \<Rightarrow> int \<Rightarrow> string \<Rightarrow> bool \<Rightarrow> time \<Rightarrow>
   (string \<times> string \<times> session_error \<times> (string \<times> json) list) option" where
  "recovery_refusal r w expected_workspace expected_head replay now =
     (if expected_workspace \<noteq> 0 \<and> expected_workspace \<notin> {ss_workspace_revision r, ws_revision w} \<and> \<not> replay
      then Some (''recovery_refused'', ''WORKSPACE_REVISION_MISMATCH'', WorkspaceRevisionMismatch,
        [(''expected'', JInt expected_workspace), (''actual'', JInt (ws_revision w))])
      else if expected_head \<noteq> [] \<and> expected_head \<notin> {ss_head r, ws_head w} \<and> \<not> replay
      then Some (''recovery_refused'', ''DEVELOPMENT_SESSION_RECOVERY_REQUIRED'', SessionRecoveryRequired,
        [(''expected_head'', JStr expected_head)])
      else if ws_status w = ''drifted'' \<or> truthy (ws_drift_reason w)
      then Some (''external_drift_detected'', ''WORKSPACE_BRANCH_DRIFTED'', WorkspaceDrifted,
        [(''workspace_id'', JStr (ws_id w)), (''drift_reason'', json_opt (ws_drift_reason w))])
      else if effective_workspace_status w now = ''expired'' \<or> \<not> lease_valid w now
      then Some (''recovery_refused'', ''WORKSPACE_LEASE_REQUIRED'', WorkspaceLeaseRequired,
        [(''workspace_id'', JStr (ws_id w)), (''requires_resume'', JBool True)])
      else None)"

text \<open>The head of the session is an ancestor of that of the workspace: \<open>Inl\<close> the details of a refusal.\<close>

definition ancestry_json :: "bool \<Rightarrow> bool \<Rightarrow> (string \<times> json) list \<Rightarrow> json" where
  "ancestry_json required verified kvs = JObj ([(''required'', JBool required), (''verified'', JBool verified)] @ kvs)"

definition session_ancestry :: "git_view \<Rightarrow> dev_session \<Rightarrow> workspace \<Rightarrow> (string \<times> json) list + json" where
  "session_ancestry G r w =
     (if ss_head r = ws_head w then Inr (ancestry_json False True [])
      else (case gv_compare G (ss_repository r) (ss_head r) (ws_head w) of
          None \<Rightarrow> Inl [(''cause_type'', JStr ''Exception'')]
        | Some (old_tree, merge_base, ahead, behind) \<Rightarrow>
            (let verified = (old_tree = ss_tree r \<and> merge_base = ss_head r \<and> ahead > 0 \<and> behind = 0);
                 ancestry = ancestry_json True verified [(''merge_base'', JStr merge_base), (''ahead_by'', JInt ahead),
                   (''behind_by'', JInt behind), (''session_commit_tree'', JStr old_tree)]
             in if verified then Inr ancestry else Inl [(''ancestry'', ancestry)])))"

text \<open>The commit of the index the session gets; \<open>ready\<close> tells that the exact head is indexed.\<close>

definition recovered_index :: "dev_session \<Rightarrow> workspace \<Rightarrow> bool \<Rightarrow> string option" where
  "recovered_index r w ready =
     (if ready then Some (ws_head w)
      else if ss_head r \<noteq> ws_head w then None
      else if ss_index_commit r = Some (ws_head w) \<and> ws_index_commit w = Some (ws_head w) then Some (ws_head w)
      else None)"

definition recover_stale_session ::
  "git_view \<Rightarrow> bool \<Rightarrow> json \<Rightarrow> string \<Rightarrow> int \<Rightarrow> int \<Rightarrow> string \<Rightarrow> string \<Rightarrow> time \<Rightarrow> dev_db \<Rightarrow>
   (session_error + session_recovery) \<times> dev_db" where
  "recover_stale_session G ready index_evidence sid expected expected_workspace expected_head key now db =
     (case session_row sid db of
        Inl e \<Rightarrow> (Inl e, db)
      | Inr r \<Rightarrow>
          (case workspace_row (ss_workspace_id r) db of
             Inl e \<Rightarrow> (Inl e, db)
           | Inr w \<Rightarrow>
               (let actual = or_blank (gv_branch G (ss_repository r) (ss_branch r));
                    tree = (if actual = [] then [] else gv_tree G (ss_repository r) actual)
                in case recovery_refusal r w expected_workspace expected_head (replay_candidate r key) now of
                     Some (etype, code, e, details) \<Rightarrow> refuse_recovery r w key etype code e details now db
                   | None \<Rightarrow>
                       if effective_workspace_status w now \<noteq> ''active''
                       then refuse_recovery r w key ''recovery_refused'' ''WORKSPACE_CLOSED'' WorkspaceClosed
                         [(''workspace_id'', JStr (ws_id w))] now db
                       else if actual \<noteq> ws_head w \<or> tree \<noteq> ws_tree w
                       then refuse_recovery r w key ''external_drift_detected'' ''WORKSPACE_BRANCH_DRIFTED'' WorkspaceDrifted
                         [(''actual_head'', JStr actual), (''actual_tree'', JStr tree)] now db
                       else (case session_ancestry G r w of
                           Inl details \<Rightarrow> refuse_recovery r w key ''recovery_refused''
                             ''DEVELOPMENT_SESSION_RECOVERY_REQUIRED'' SessionRecoveryRequired details now db
                         | Inr ancestry \<Rightarrow>
                             (let evidence = merge_fields (JObj [(''github_head_sha'', JStr actual),
                                    (''github_tree_sha'', JStr tree), (''ancestry'', ancestry)])
                                    (case index_evidence of JObj kvs \<Rightarrow> kvs | _ \<Rightarrow> [])
                              in case recover_stale_session_from_workspace sid expected w key (recovered_index r w ready)
                                     evidence now db of
                                   Inl e \<Rightarrow> (Inl e, db)
                                 | Inr (x, db1) \<Rightarrow> (Inr x, db1))))))"

definition renewable_states :: "string list" where
  "renewable_states = [''preparing'', ''active'', ''pr_ready'', ''validating_fast'', ''validating_full'']"

definition reconcile_key :: "dev_session \<Rightarrow> workspace \<Rightarrow> int \<Rightarrow> string" where
  "reconcile_key r w expected = ''managed-lease-reconcile:'' @ ss_id r @ '':'' @ nat_text (ss_revision r) @ '':'' @
     int_text expected @ '':'' @ ws_head w"

text \<open>A managed workspace is renewed with its session, after a split of their leases is repaired.\<close>

definition renew_managed ::
  "git_view \<Rightarrow> bool \<Rightarrow> json \<Rightarrow> dev_session \<Rightarrow> workspace \<Rightarrow> int \<Rightarrow> int \<Rightarrow> time \<Rightarrow> dev_db \<Rightarrow>
   (session_error + workspace) \<times> dev_db" where
  "renew_managed G ready index_evidence r w expected lease_seconds now db =
     (let actual = or_blank (gv_branch G (ws_repository w) (ws_branch w));
          tree = (if actual = [] then [] else gv_tree G (ws_repository w) actual);
          (repaired, db1) = (if ss_workspace_revision r \<noteq> expected \<or> \<bar>ss_lease_expires r - ws_lease_expires w\<bar> > 1 / 1000
            then (let (x, db1) = recover_stale_session G ready index_evidence (ss_id r) (int (ss_revision r)) expected
                    (ws_head w) (reconcile_key r w expected) now db
                  in (map_sum id sr_session x, db1))
            else (Inr r, db))
      in if ss_status r \<notin> set renewable_states then (Inl SessionStateInvalid, db)
         else if \<not> same_identity r w \<or> ss_owner r \<noteq> ws_owner w \<or> \<not> same_code r w then (Inl SessionWorkspaceMismatch, db)
         else if actual \<noteq> ws_head w \<or> tree \<noteq> ws_tree w then (Inl WorkspaceDrifted, db)
         else (case repaired of
             Inl e \<Rightarrow> (Inl e, db1)
           | Inr s \<Rightarrow>
               (case auto_renew_session_workspace_lease (ss_id s) (int (ss_revision s)) (ws_id w) expected lease_seconds
                   [(''source'', JStr ''renew_development_workspace_lease''), (''writer_owner'', JStr (ss_owner s))] now db1 of
                  Inl e \<Rightarrow> (Inl e, db1)
                | Inr (_, db2) \<Rightarrow> (workspace_row (ws_id w) db2, db2))))"

definition renew_workspace_lease ::
  "git_view \<Rightarrow> bool \<Rightarrow> json \<Rightarrow> string \<Rightarrow> int \<Rightarrow> int \<Rightarrow> time \<Rightarrow> dev_db \<Rightarrow> (session_error + workspace) \<times> dev_db" where
  "renew_workspace_lease G ready index_evidence wid expected lease_seconds now db =
     (case workspace_cas wid expected db of
        Inl e \<Rightarrow> (Inl e, db)
      | Inr w \<Rightarrow>
          (let status = effective_workspace_status w now
           in if status = ''drifted'' then (Inl WorkspaceDrifted, db)
              else if status = ''expired'' then (Inl WorkspaceLeaseRequired, db)
              else if status \<noteq> ''active'' then (Inl WorkspaceClosed, db)
              else (case find_active_session_for_workspace wid db of
                  Inl e \<Rightarrow> (Inl e, db)
                | Inr (Some r) \<Rightarrow> renew_managed G ready index_evidence r w expected lease_seconds now db
                | Inr None \<Rightarrow>
                    (case write_workspace wid expected SessionIntegrity (\<lambda>w. w\<lparr>ws_lease_expires :=
                         now + of_int (bounded_lease lease_seconds), ws_updated_at := now\<rparr>) db of
                       Inl e \<Rightarrow> (Inl e, db)
                     | Inr (w', db1) \<Rightarrow> (Inr w', db1)))))"

end
