(* ===== verification/Session_Validations.thy ===== *)
theory Session_Validations
  imports Session_Workspaces
begin

text \<open>
  The validations of a session (\<open>app/development_session_store.py\<close>): the rows that tie a revision of
  a session to a CI request and its job, how a row is recorded, and what of the past of a session a
  row still speaks for.  The evidence of a row is a JSON object whose \<open>request_id\<close> is a string.
\<close>

section \<open>Rows of the table\<close>

text \<open>The partial unique index on the request of a session.\<close>

definition request_keys :: "validation list \<Rightarrow> (string \<times> string) list" where
  "request_keys rows = map (\<lambda>v. (va_session v, the (va_request v))) (filter (\<lambda>v. truthy (va_request v)) rows)"

definition request_unique :: "validation list \<Rightarrow> bool" where
  "request_unique rows \<longleftrightarrow> distinct (request_keys rows)"

text \<open>\<open>ORDER BY id DESC\<close>, and with \<open>LIMIT 1\<close>.\<close>

definition latest_first :: "(validation \<Rightarrow> bool) \<Rightarrow> validation list \<Rightarrow> validation list" where
  "latest_first P rows = rev (sort_key va_id (filter P rows))"

definition newest :: "(validation \<Rightarrow> bool) \<Rightarrow> validation list \<Rightarrow> validation option" where
  "newest P rows = (case latest_first P rows of [] \<Rightarrow> None | v # _ \<Rightarrow> Some v)"

definition text_at :: "string \<Rightarrow> json \<Rightarrow> string" where
  "text_at k d = (case json_get k d of Some (JStr s) \<Rightarrow> s | _ \<Rightarrow> [])"

definition validation_request_id :: "validation \<Rightarrow> string" where
  "validation_request_id v = (if truthy (va_request v) then the (va_request v) else text_at ''request_id'' (va_evidence v))"

definition about :: "string \<Rightarrow> string \<Rightarrow> string \<Rightarrow> validation \<Rightarrow> bool" where
  "about mode commit tree v \<longleftrightarrow> va_mode v = mode \<and> va_commit v = commit \<and> va_tree v \<in> {tree, []}"

definition validation_terminal_states :: "string list" where
  "validation_terminal_states = [''passed'', ''failed'', ''timed_out'', ''cancelled'', ''superseded'', ''worker_lost'',
     ''internal_error'', ''preflight_failed'']"

section \<open>Recording a validation\<close>

text \<open>A row from before the request was a column, found by the request in its evidence.\<close>

definition legacy_placeholder ::
  "string \<Rightarrow> string \<Rightarrow> string \<Rightarrow> string \<Rightarrow> string \<Rightarrow> validation list \<Rightarrow> validation option" where
  "legacy_placeholder sid mode commit tree request rows =
     List.find (\<lambda>v. validation_request_id v = request)
       (latest_first (\<lambda>v. va_session v = sid \<and> about mode commit tree v \<and> \<not> truthy (va_request v)) rows)"

definition recorded_validation ::
  "string \<Rightarrow> int \<Rightarrow> string \<Rightarrow> string \<Rightarrow> string \<Rightarrow> string \<Rightarrow> string \<Rightarrow> validation list \<Rightarrow>
   session_error + validation option" where
  "recorded_validation sid revision mode commit tree request job rows =
     (if request \<noteq> [] then
        (let found = (case newest (\<lambda>v. va_session v = sid \<and> va_request v = Some request) rows of
               Some v \<Rightarrow> Some v
             | None \<Rightarrow> legacy_placeholder sid mode commit tree request rows)
         in case found of
              None \<Rightarrow> Inr None
            | Some v \<Rightarrow>
                if va_mode v \<noteq> mode \<or> va_commit v \<noteq> commit \<or> (tree \<noteq> [] \<and> va_tree v \<notin> {[], tree}) \<or>
                  va_revision v > revision
                then Inl SessionRecoveryRequired else Inr (Some v))
      else
        (let same = (\<lambda>v. va_session v = sid \<and> va_revision v = revision \<and> va_mode v = mode \<and>
               va_commit v = commit \<and> va_tree v = tree)
         in Inr (if job \<noteq> [] then newest (\<lambda>v. same v \<and> va_job v = Some job) rows
                 else newest (\<lambda>v. same v \<and> va_job v = None \<and> va_request v = None) rows)))"

definition finished_or :: "time \<Rightarrow> time option \<Rightarrow> time option" where
  "finished_or now c = (case c of None \<Rightarrow> Some now | Some t \<Rightarrow> if t = 0 then Some now else Some t)"

text \<open>What the row becomes: a terminal status stays, its eligibility and attestation only grow.\<close>

definition merge_status ::
  "validation \<Rightarrow> string \<Rightarrow> bool \<Rightarrow> string \<Rightarrow> bool \<Rightarrow> time \<Rightarrow> validation \<Rightarrow> validation" where
  "merge_status v status eligible attestation finish now r =
     (let old = va_status v \<in> set validation_terminal_states;
          new = status \<in> set validation_terminal_states;
          attested = (if attestation = [] then or_blank (va_attestation v) else attestation)
      in if old \<and> \<not> new then r\<lparr>va_status := va_status v, va_merge_eligible := va_merge_eligible v,
            va_attestation := keep_or_null (or_blank (va_attestation v)), va_finished_at := finished_or now (va_finished_at v)\<rparr>
         else if old then r\<lparr>va_status := va_status v, va_merge_eligible := va_merge_eligible v \<or> eligible,
            va_attestation := keep_or_null attested, va_finished_at := finished_or now (va_finished_at v)\<rparr>
         else r\<lparr>va_status := status, va_merge_eligible := eligible, va_attestation := keep_or_null attested,
            va_finished_at := (if finish \<or> new then Some now else va_finished_at v)\<rparr>)"

definition merge_validation ::
  "validation \<Rightarrow> string \<Rightarrow> string \<Rightarrow> string \<Rightarrow> string \<Rightarrow> bool \<Rightarrow> string \<Rightarrow> (string \<times> json) list \<Rightarrow> bool \<Rightarrow> time \<Rightarrow>
   session_error + validation" where
  "merge_validation v request job tree status eligible attestation payload finish now =
     (if or_blank (va_job v) \<noteq> [] \<and> job \<noteq> [] \<and> va_job v \<noteq> Some job then Inl SessionRecoveryRequired
      else if va_status v \<in> set validation_terminal_states \<and> status \<in> set validation_terminal_states \<and> va_status v \<noteq> status
      then Inl SessionRecoveryRequired
      else Inr (merge_status v status eligible attestation finish now
        (v\<lparr>va_request := (if request = [] then va_request v else Some request),
           va_job := (if job = [] then va_job v else Some job),
           va_tree := (if va_tree v = [] then tree else va_tree v),
           va_evidence := merge_fields (case va_evidence v of JObj kvs \<Rightarrow> JObj kvs | _ \<Rightarrow> JObj []) payload\<rparr>)))"

definition new_validation ::
  "nat \<Rightarrow> string \<Rightarrow> int \<Rightarrow> string \<Rightarrow> string \<Rightarrow> string \<Rightarrow> string \<Rightarrow> string \<Rightarrow> string \<Rightarrow> bool \<Rightarrow> string \<Rightarrow>
   (string \<times> json) list \<Rightarrow> bool \<Rightarrow> time \<Rightarrow> validation" where
  "new_validation i sid revision mode commit tree request job status eligible attestation payload finish now =
     \<lparr>va_id = i, va_session = sid, va_revision = revision, va_mode = mode, va_commit = commit, va_tree = tree,
      va_request = keep_or_null request, va_job = keep_or_null job, va_status = status, va_merge_eligible = eligible,
      va_attestation = keep_or_null attestation, va_evidence = JObj payload, va_created_at = now,
      va_finished_at = (if finish then Some now else None)\<rparr>"

definition write_validations :: "validation list \<Rightarrow> nat \<Rightarrow> dev_db \<Rightarrow> session_error + nat \<times> dev_db" where
  "write_validations rows i db =
     (if request_unique rows then Inr (i, db\<lparr>dd_validations := rows\<rparr>) else Inl SessionIntegrity)"

definition record_validation ::
  "string \<Rightarrow> int \<Rightarrow> string \<Rightarrow> string \<Rightarrow> string \<Rightarrow> string \<Rightarrow> string \<Rightarrow> string \<Rightarrow> bool \<Rightarrow> string \<Rightarrow>
   (string \<times> json) list \<Rightarrow> bool \<Rightarrow> time \<Rightarrow> dev_db \<Rightarrow> session_error + nat \<times> dev_db" where
  "record_validation sid revision mode commit tree request_arg job status eligible attestation evidence finish now db =
     (let request = (if request_arg = [] then text_at ''request_id'' (JObj evidence) else request_arg);
          payload = (if request = [] then evidence else AList.update ''request_id'' (JStr request) evidence);
          rows = dd_validations db
      in case require_session sid revision True db of
           Inl e \<Rightarrow> Inl e
         | Inr r \<Rightarrow>
             (case recorded_validation sid revision mode commit tree request job rows of
                Inl e \<Rightarrow> Inl e
              | Inr None \<Rightarrow>
                  (let i = length rows + 1
                   in write_validations (rows @ [new_validation i sid revision mode commit tree request job status eligible
                        attestation payload finish now]) i db)
              | Inr (Some v) \<Rightarrow>
                  (case merge_validation v request job tree status eligible attestation payload finish now of
                     Inl e \<Rightarrow> Inl e
                   | Inr v' \<Rightarrow> write_validations (update_where (\<lambda>x. va_id x = va_id v) (\<lambda>_. v') rows) (va_id v) db)))"

section \<open>The correlations of an identity\<close>

definition request_id_source :: "validation \<Rightarrow> string" where
  "request_id_source v = (if truthy (va_request v) then ''column''
     else if validation_request_id v \<noteq> [] then ''legacy_evidence''
     else if truthy (va_job v) then ''legacy_job'' else ''missing'')"

definition validation_correlations ::
  "string \<Rightarrow> int \<Rightarrow> string \<Rightarrow> string \<Rightarrow> string \<Rightarrow> bool \<Rightarrow> dev_db \<Rightarrow> session_error + (validation \<times> string) list" where
  "validation_correlations sid revision mode commit tree exact db =
     (case session_row sid db of
        Inl e \<Rightarrow> Inl e
      | Inr r \<Rightarrow> Inr (map (\<lambda>v. (v\<lparr>va_request := keep_or_null (validation_request_id v)\<rparr>, request_id_source v))
          (latest_first (\<lambda>v. va_session v = sid \<and> (if exact then va_revision v = revision else va_revision v \<le> revision) \<and>
             about mode commit tree v) (dd_validations db))))"

section \<open>The generation of a validation\<close>

definition maintenance_types :: "string list" where
  "maintenance_types = [''session_recovered'', ''workspace_lease_auto_renewed'', ''validation_observed'']"

definition audit_types :: "string list" where
  "audit_types = [''validation_correlation_backfilled'', ''external_drift_detected'', ''recovery_refused'']"

definition validating_status :: "string \<Rightarrow> string" where
  "validating_status mode = (if mode = ''fast'' then ''validating_fast'' else ''validating_full'')"

definition event_fields :: "session_event \<Rightarrow> json" where
  "event_fields e = (case se_data e of JObj kvs \<Rightarrow> JObj kvs | _ \<Rightarrow> JObj [])"

record maintenance =
  mt_revision :: nat
  mt_type :: string
  mt_before :: int
  mt_after :: int

record generation =
  gn_revision :: nat
  gn_workspace_revision :: int
  gn_current :: nat
  gn_current_workspace :: int
  gn_source :: string
  gn_maintenance :: "maintenance list"

text \<open>The revision the running validation started at.\<close>

definition generation_anchor ::
  "dev_session \<Rightarrow> string \<Rightarrow> string \<Rightarrow> string \<Rightarrow> session_event list \<Rightarrow> validation list \<Rightarrow> session_error + nat \<times> string" where
  "generation_anchor r mode commit tree events rows =
     (case rev (filter (\<lambda>e. se_type e = ''validation_started'' \<and> se_to e = Some (validating_status mode)) events) of
        e # _ \<Rightarrow>
          if se_revision e > ss_revision r then Inl SessionRecoveryRequired
          else Inr (se_revision e, ''validation_started_event'')
      | [] \<Rightarrow>
          if list_ex (\<lambda>v. va_session v = ss_id r \<and> va_revision v = int (ss_revision r) \<and> about mode commit tree v) rows
          then Inr (ss_revision r, ''legacy_current_revision'')
          else Inl SessionRecoveryRequired)"

text \<open>The recovery of a session under the validated identity, at one revision.\<close>

definition recovered_step :: "string \<Rightarrow> string \<Rightarrow> nat \<Rightarrow> json \<Rightarrow> session_error + int \<times> int" where
  "recovered_step commit tree revision data =
     (let before = dict_at ''before'' data; after = dict_at ''after'' data
      in case (int_or ''workspace_revision'' (-1) before, int_or ''workspace_revision'' (-1) after) of
           (Some b, Some a) \<Rightarrow>
             if json_get ''head_changed'' data \<noteq> Some (JBool False) then Inl SessionRecoveryRequired
             else (case (int_or ''session_revision'' (-1) before, int_or ''session_revision'' (-1) after) of
                 (None, _) \<Rightarrow> Inl SessionValueError
               | (Some n, m) \<Rightarrow>
                   if n \<noteq> int revision - 1 then Inl SessionRecoveryRequired
                   else if m = None then Inl SessionValueError
                   else if m = Some (int revision) \<and> string_at ''head_commit_sha'' before commit \<and>
                     string_at ''head_commit_sha'' after commit \<and> string_at ''tree_sha'' before tree \<and>
                     string_at ''tree_sha'' after tree
                   then Inr (b, a) else Inl SessionRecoveryRequired)
         | _ \<Rightarrow> Inl SessionValueError)"

definition renewed_step :: "json \<Rightarrow> session_error + int \<times> int" where
  "renewed_step data =
     (case (int_or ''before_workspace_revision'' (-1) data, int_or ''after_workspace_revision'' (-1) data) of
        (Some b, Some a) \<Rightarrow> if b < 0 \<or> a \<noteq> b + 1 then Inl SessionRecoveryRequired else Inr (b, a)
      | _ \<Rightarrow> Inl SessionValueError)"

definition observed_step :: "int \<Rightarrow> json \<Rightarrow> session_error + int \<times> int" where
  "observed_step workspace_revision data =
     (case data of
        JObj kvs \<Rightarrow>
          if set (map fst kvs) \<subseteq> {''last_fast_ci_job_id'', ''last_full_ci_job_id'', ''last_attestation_id'',
            ''last_failure_resource_uri''}
          then Inr (workspace_revision, workspace_revision) else Inl SessionRecoveryRequired
      | _ \<Rightarrow> Inr (workspace_revision, workspace_revision))"

text \<open>The one maintenance event of a revision, and the workspace revision before it.\<close>

definition maintenance_step ::
  "string \<Rightarrow> string \<Rightarrow> string \<Rightarrow> session_event list \<Rightarrow> nat \<Rightarrow> int \<Rightarrow> session_error + maintenance" where
  "maintenance_step phase commit tree events revision workspace_revision =
     (let here = filter (\<lambda>e. se_revision e = revision) events;
          upkeep = filter (\<lambda>e. se_type e \<in> set maintenance_types) here;
          benign = (\<lambda>e. se_type e \<in> set audit_types \<and> se_from e = Some phase \<and> se_to e = Some phase);
          unknown = filter (\<lambda>e. se_type e \<notin> set maintenance_types \<and> \<not> benign e) here
      in case upkeep of
           [e] \<Rightarrow>
             if unknown \<noteq> [] then Inl SessionRecoveryRequired
             else if se_from e \<noteq> Some phase \<or> se_to e \<noteq> Some phase then Inl SessionRecoveryRequired
             else (case (if se_type e = ''session_recovered'' then recovered_step commit tree revision (event_fields e)
                    else if se_type e = ''workspace_lease_auto_renewed'' then renewed_step (event_fields e)
                    else observed_step workspace_revision (event_fields e)) of
                 Inl x \<Rightarrow> Inl x
               | Inr (b, a) \<Rightarrow>
                   if a \<noteq> workspace_revision then Inl SessionRecoveryRequired
                   else Inr \<lparr>mt_revision = revision, mt_type = se_type e, mt_before = b, mt_after = a\<rparr>)
         | _ \<Rightarrow> Inl SessionRecoveryRequired)"

text \<open>The revisions from the newest to the oldest; the audit is given from the oldest on.\<close>

fun maintenance_chain ::
  "string \<Rightarrow> string \<Rightarrow> string \<Rightarrow> session_event list \<Rightarrow> nat list \<Rightarrow> int \<Rightarrow> session_error + maintenance list \<times> int" where
  "maintenance_chain phase commit tree events [] workspace_revision = Inr ([], workspace_revision)"
| "maintenance_chain phase commit tree events (n # ns) workspace_revision =
     (case maintenance_step phase commit tree events n workspace_revision of
        Inl e \<Rightarrow> Inl e
      | Inr m \<Rightarrow>
          (case maintenance_chain phase commit tree events ns (mt_before m) of
             Inl e \<Rightarrow> Inl e
           | Inr (ms, w) \<Rightarrow> Inr (ms @ [m], w)))"

definition generation_context ::
  "dev_session \<Rightarrow> string \<Rightarrow> string \<Rightarrow> string \<Rightarrow> dev_db \<Rightarrow> session_error + generation" where
  "generation_context r mode commit tree db =
     (let events = sort_key se_id (filter (\<lambda>e. se_session e = ss_id r \<and> se_revision e \<le> ss_revision r) (dd_events db))
      in if mode \<notin> {''fast'', ''full''} then Inl SessionRecoveryRequired
         else if ss_status r \<noteq> validating_status mode then Inl SessionStateInvalid
         else if ss_head r \<noteq> commit \<or> ss_tree r \<noteq> tree then Inl SessionRecoveryRequired
         else (case generation_anchor r mode commit tree events (dd_validations db) of
             Inl e \<Rightarrow> Inl e
           | Inr (start, source) \<Rightarrow>
               (let later = filter (\<lambda>e. start < se_revision e \<and> se_revision e \<le> ss_revision r) events;
                    expected = [start + 1 ..< ss_revision r + 1]
                in if list_ex (\<lambda>v. va_session v = ss_id r \<and> va_revision v > int start \<and>
                        va_revision v \<le> int (ss_revision r)) (dd_validations db)
                   then Inl SessionRecoveryRequired
                   else if sort (remdups (map se_revision later)) \<noteq> expected then Inl SessionRecoveryRequired
                   else (case maintenance_chain (validating_status mode) commit tree later (rev expected)
                           (ss_workspace_revision r) of
                       Inl e \<Rightarrow> Inl e
                     | Inr (ms, w) \<Rightarrow> Inr \<lparr>gn_revision = start, gn_workspace_revision = w, gn_current = ss_revision r,
                         gn_current_workspace = ss_workspace_revision r, gn_source = source, gn_maintenance = ms\<rparr>))))"

definition validation_generation_context ::
  "string \<Rightarrow> int \<Rightarrow> string \<Rightarrow> string \<Rightarrow> string \<Rightarrow> dev_db \<Rightarrow> session_error + generation" where
  "validation_generation_context sid expected mode commit tree db =
     (case require_session sid expected False db of
        Inl e \<Rightarrow> Inl e
      | Inr r \<Rightarrow> generation_context r mode commit tree db)"

end
