(* ===== verification/Session_Settlement.thy ===== *)
theory Session_Settlement
  imports Session_Validations
begin

text \<open>
  The two functions of \<open>app/development_session_store.py\<close> that settle validations after the fact:
  binding the row of a request to its job (or to a terminal status of a request that never had one),
  and settling a whole set of terminal correlations, which makes none of them evidence for a merge.
\<close>

definition request_only_terminal_statuses :: "string list" where
  "request_only_terminal_statuses = [''preflight_failed'', ''cancelled'', ''superseded'', ''internal_error'']"

section \<open>The scope of a settlement\<close>

text \<open>The branch moved while a validation ran and the caller allows to settle it all the same.\<close>

definition drift_reconciliation :: "bool \<Rightarrow> dev_session \<Rightarrow> workspace \<Rightarrow> int \<Rightarrow> bool" where
  "drift_reconciliation allow r w expected_workspace \<longleftrightarrow> allow \<and> ws_status w = ''drifted'' \<and>
     ws_drift_reason w = Some ''branch_moved_externally'' \<and> ss_workspace_revision r < expected_workspace \<and>
     \<not> same_code r w"

definition settlement_error ::
  "dev_session \<Rightarrow> workspace option \<Rightarrow> int \<Rightarrow> string \<Rightarrow> string \<Rightarrow> string \<Rightarrow> bool \<Rightarrow> time \<Rightarrow> session_error option" where
  "settlement_error r found expected_workspace mode commit tree allow now =
     (if ss_status r \<noteq> validating_status mode then Some SessionStateInvalid
      else if ss_head r \<noteq> commit \<or> ss_tree r \<noteq> tree then Some SessionRecoveryRequired
      else (case found of
          None \<Rightarrow> Some WorkspaceNotFound
        | Some w \<Rightarrow>
            (let drift = drift_reconciliation allow r w expected_workspace
             in if ws_revision w \<noteq> expected_workspace then Some WorkspaceRevisionMismatch
                else if ss_workspace_revision r \<noteq> expected_workspace \<and> \<not> drift then Some SessionWorkspaceMismatch
                else if \<not> drift \<and> (ws_status w \<noteq> ''active'' \<or> truthy (ws_drift_reason w)) then Some WorkspaceDrifted
                else if \<not> drift \<and> ws_lease_expires w \<le> now then Some WorkspaceLeaseRequired
                else if \<not> same_identity r w \<or> (\<not> drift \<and> \<not> same_code r w) then Some SessionWorkspaceMismatch
                else None)))"

definition settlement_scope ::
  "string \<Rightarrow> int \<Rightarrow> int \<Rightarrow> string \<Rightarrow> string \<Rightarrow> string \<Rightarrow> bool \<Rightarrow> time \<Rightarrow> dev_db \<Rightarrow>
   session_error + dev_session \<times> bool" where
  "settlement_scope sid expected expected_workspace mode commit tree allow now db =
     (case require_session sid expected False db of
        Inl e \<Rightarrow> Inl e
      | Inr r \<Rightarrow>
          (let found = row_of ws_id (ss_workspace_id r) (dd_workspaces db)
           in case settlement_error r found expected_workspace mode commit tree allow now of
                Some e \<Rightarrow> Inl e
              | None \<Rightarrow> Inr (r, case found of None \<Rightarrow> False
                  | Some w \<Rightarrow> drift_reconciliation allow r w expected_workspace)))"

text \<open>The generation is the one the caller named.\<close>

definition named_generation ::
  "dev_session \<Rightarrow> string \<Rightarrow> string \<Rightarrow> string \<Rightarrow> int \<Rightarrow> int \<Rightarrow> dev_db \<Rightarrow> session_error + generation" where
  "named_generation r mode commit tree revision workspace_revision db =
     (case generation_context r mode commit tree db of
        Inl e \<Rightarrow> Inl e
      | Inr g \<Rightarrow>
          if int (gn_revision g) \<noteq> revision \<or> gn_workspace_revision g \<noteq> workspace_revision
          then Inl SessionRecoveryRequired else Inr g)"

section \<open>Binding a request to its job\<close>

definition job_of :: "validation \<Rightarrow> string" where
  "job_of v = or_blank (va_job v)"

definition correlation_rows ::
  "dev_session \<Rightarrow> int \<Rightarrow> string \<Rightarrow> string \<Rightarrow> string \<Rightarrow> int \<Rightarrow> int \<Rightarrow> dev_db \<Rightarrow> session_error + validation list" where
  "correlation_rows r expected mode commit tree revision workspace_revision db =
     (if revision > 0 then
        (case named_generation r mode commit tree revision workspace_revision db of
           Inl e \<Rightarrow> Inl e
         | Inr g \<Rightarrow> Inr (latest_first (\<lambda>v. va_session v = ss_id r \<and> va_revision v = revision \<and> about mode commit tree v)
             (dd_validations db)))
      else Inr (latest_first (\<lambda>v. va_session v = ss_id r \<and> va_revision v \<le> expected \<and> about mode commit tree v)
        (dd_validations db)))"

text \<open>The rows of the pair, newest first, when the persisted correlations allow only this pair.\<close>

definition pair_candidates :: "string \<Rightarrow> string \<Rightarrow> bool \<Rightarrow> validation list \<Rightarrow> session_error + validation list" where
  "pair_candidates request job only rows =
     (let requests = filter (\<lambda>q. q \<noteq> []) (map validation_request_id rows);
          jobs = filter (\<lambda>j. j \<noteq> []) (map job_of rows);
          candidates = filter (\<lambda>v. validation_request_id v = request \<or>
            \<not> only \<and> validation_request_id v = [] \<and> job_of v = job) rows
      in if rows = [] then Inl SessionRecoveryRequired
         else if list_ex (\<lambda>q. q \<noteq> request) requests then Inl SessionRecoveryRequired
         else if only \<and> jobs \<noteq> [] then Inl SessionRecoveryRequired
         else if \<not> only \<and> list_ex (\<lambda>j. j \<noteq> job) jobs then Inl SessionRecoveryRequired
         else if list_ex (\<lambda>v. validation_request_id v = [] \<and> job_of v = []) rows then Inl SessionRecoveryRequired
         else if candidates = [] then Inl SessionRecoveryRequired
         else Inr candidates)"

text \<open>The newest row with the request in its column, or else the newest row.\<close>

definition canonical_row :: "string \<Rightarrow> validation list \<Rightarrow> validation" where
  "canonical_row request candidates =
     (case filter (\<lambda>v. or_blank (va_request v) = request) candidates of [] \<Rightarrow> hd candidates | v # _ \<Rightarrow> v)"

definition duplicate_ids :: "string \<Rightarrow> validation list \<Rightarrow> nat list" where
  "duplicate_ids request candidates =
     filter (\<lambda>i. i \<noteq> va_id (canonical_row request candidates)) (map va_id candidates)"

definition bound_row :: "string \<Rightarrow> string \<Rightarrow> bool \<Rightarrow> string \<Rightarrow> time \<Rightarrow> validation \<Rightarrow> validation" where
  "bound_row request job only terminal_status now v =
     (if only then v\<lparr>va_request := Some request, va_status := terminal_status,
        va_finished_at := coalesce (va_finished_at v) (Some now)\<rparr>
      else v\<lparr>va_request := Some request, va_job := Some job\<rparr>)"

definition binding_audit :: "string \<Rightarrow> string \<Rightarrow> string \<Rightarrow> nat \<Rightarrow> nat list \<Rightarrow> bool \<Rightarrow> bool \<Rightarrow> string \<Rightarrow> json" where
  "binding_audit mode request job canonical duplicates drift only terminal_status = JObj
     [(''mode'', JStr mode), (''request_id'', JStr request), (''job_id'', json_opt (keep_or_null job)),
      (''canonical_validation_id'', JInt (int canonical)),
      (''duplicate_validation_ids'', JList (map (\<lambda>i. JInt (int i)) duplicates)),
      (''logical_duplicate_count'', JInt (int (length duplicates))), (''workspace_drift_reconciliation'', JBool drift),
      (''request_only_terminal'', JBool only), (''request_terminal_status'', json_opt (keep_or_null terminal_status))]"

text \<open>The last check, the update of the canonical row and the event.\<close>

definition commit_binding ::
  "dev_session \<Rightarrow> bool \<Rightarrow> string \<Rightarrow> string \<Rightarrow> string \<Rightarrow> bool \<Rightarrow> string \<Rightarrow> validation list \<Rightarrow> time \<Rightarrow> dev_db \<Rightarrow>
   session_error + json \<times> dev_db" where
  "commit_binding r drift mode request job only terminal_status candidates now db =
     (let canonical = canonical_row request candidates;
          audit = binding_audit mode request job (va_id canonical) (duplicate_ids request candidates) drift only terminal_status;
          rows = update_where (\<lambda>v. va_id v = va_id canonical) (bound_row request job only terminal_status now)
            (dd_validations db)
      in if only \<and> job_of canonical \<noteq> [] then Inl SessionRecoveryRequired
         else if \<not> only \<and> job_of canonical \<noteq> [] \<and> job_of canonical \<noteq> job then Inl SessionRecoveryRequired
         else if \<not> request_unique rows then Inl SessionRecoveryRequired
         else Inr (audit, append_event (ss_id r) ''validation_correlation_backfilled'' (Some (ss_status r))
           (Some (ss_status r)) (ss_revision r) audit now (db\<lparr>dd_validations := rows\<rparr>)))"

definition bind_validation_request_worker ::
  "string \<Rightarrow> int \<Rightarrow> int \<Rightarrow> string \<Rightarrow> string \<Rightarrow> string \<Rightarrow> string \<Rightarrow> string \<Rightarrow> int \<Rightarrow> int \<Rightarrow> bool \<Rightarrow> string \<Rightarrow> time \<Rightarrow>
   dev_db \<Rightarrow> session_error + json \<times> dev_db" where
  "bind_validation_request_worker sid expected expected_workspace mode commit tree request job revision
     workspace_revision allow terminal_status now db =
     (let only = (job = [] \<and> terminal_status \<in> set request_only_terminal_statuses)
      in if mode \<notin> {''fast'', ''full''} \<or> request = [] \<or> (job = [] \<and> \<not> only) then Inl SessionRecoveryRequired
         else (case settlement_scope sid expected expected_workspace mode commit tree allow now db of
             Inl e \<Rightarrow> Inl e
           | Inr (r, drift) \<Rightarrow>
               (case correlation_rows r expected mode commit tree revision workspace_revision db of
                  Inl e \<Rightarrow> Inl e
                | Inr rows \<Rightarrow>
                    (case pair_candidates request job only rows of
                       Inl e \<Rightarrow> Inl e
                     | Inr candidates \<Rightarrow>
                         commit_binding r drift mode request job only terminal_status candidates now db))))"

section \<open>Settling a terminal set\<close>

text \<open>A correlation the caller proved: request, job and terminal status.\<close>

type_synonym correlation = "string \<times> string \<times> string"

definition settled_statuses :: "string list" where
  "settled_statuses = [''passed'', ''failed'', ''timed_out'', ''cancelled'', ''worker_lost'', ''internal_error'']"

definition correlation_set_ok :: "string \<Rightarrow> correlation list \<Rightarrow> bool" where
  "correlation_set_ok mode pairs \<longleftrightarrow> mode \<in> {''fast'', ''full''} \<and> length pairs \<ge> 2 \<and>
     list_all (\<lambda>(request, job, status). request \<noteq> [] \<and> job \<noteq> [] \<and> status \<in> set settled_statuses) pairs \<and>
     distinct (map fst pairs) \<and> distinct (map (fst \<circ> snd) pairs)"

text \<open>Every row of the generation is about this identity and has a request; together they name the set.\<close>

definition generation_rows_ok :: "string \<Rightarrow> string \<Rightarrow> string \<Rightarrow> correlation list \<Rightarrow> validation list \<Rightarrow> bool" where
  "generation_rows_ok mode commit tree pairs rows \<longleftrightarrow> rows \<noteq> [] \<and>
     list_all (\<lambda>v. about mode commit tree v \<and> validation_request_id v \<noteq> []) rows \<and>
     set (map validation_request_id rows) = set (map fst pairs)"

definition settled_row :: "correlation \<Rightarrow> string \<Rightarrow> time \<Rightarrow> validation \<Rightarrow> validation" where
  "settled_row pair tree now v = (case pair of (request, job, status) \<Rightarrow>
     v\<lparr>va_request := Some request, va_job := Some job, va_tree := (if va_tree v = [] then tree else va_tree v),
       va_status := status, va_merge_eligible := False, va_attestation := None,
       va_finished_at := coalesce (va_finished_at v) (Some now)\<rparr>)"

definition settled_duplicate :: "string \<Rightarrow> time \<Rightarrow> validation \<Rightarrow> validation" where
  "settled_duplicate status now v = v\<lparr>va_status := status, va_merge_eligible := False, va_attestation := None,
     va_finished_at := coalesce (va_finished_at v) (Some now)\<rparr>"

text \<open>One pair: its rows agree with it, the canonical one takes it over and its duplicates its status.\<close>

definition settle_pair ::
  "correlation \<Rightarrow> string \<Rightarrow> time \<Rightarrow> validation list \<Rightarrow> validation list \<Rightarrow>
   session_error + (nat \<times> nat list) \<times> validation list" where
  "settle_pair pair tree now decorated rows = (case pair of (request, job, status) \<Rightarrow>
     (let candidates = filter (\<lambda>v. validation_request_id v = request) decorated;
          canonical = va_id (canonical_row request candidates);
          duplicates = duplicate_ids request candidates;
          rows1 = update_where (\<lambda>v. va_id v = canonical) (settled_row pair tree now) rows
      in if candidates = [] then Inl SessionRecoveryRequired
         else if list_ex (\<lambda>v. job_of v \<noteq> [] \<and> job_of v \<noteq> job) candidates then Inl SessionRecoveryRequired
         else if list_ex (\<lambda>v. va_status v \<in> set settled_statuses \<and> va_status v \<noteq> status) candidates
         then Inl SessionRecoveryRequired
         else if \<not> request_unique rows1 then Inl SessionRecoveryRequired
         else Inr ((canonical, duplicates),
           update_where (\<lambda>v. va_id v \<in> set duplicates) (settled_duplicate status now) rows1)))"

fun settle_pairs ::
  "correlation list \<Rightarrow> string \<Rightarrow> time \<Rightarrow> validation list \<Rightarrow> validation list \<Rightarrow>
   session_error + (nat \<times> nat list) list \<times> validation list" where
  "settle_pairs [] tree now decorated rows = Inr ([], rows)"
| "settle_pairs (pair # pairs) tree now decorated rows =
     (case settle_pair pair tree now decorated rows of
        Inl e \<Rightarrow> Inl e
      | Inr (ids, rows1) \<Rightarrow>
          (case settle_pairs pairs tree now decorated rows1 of
             Inl e \<Rightarrow> Inl e
           | Inr (others, rows2) \<Rightarrow> Inr (ids # others, rows2)))"

definition maintenance_json :: "maintenance \<Rightarrow> json" where
  "maintenance_json m = JObj [(''session_revision'', JInt (int (mt_revision m))), (''event_type'', JStr (mt_type m)),
     (''before_workspace_revision'', JInt (mt_before m)), (''after_workspace_revision'', JInt (mt_after m))]"

definition settlement_audit ::
  "string \<Rightarrow> string \<Rightarrow> string \<Rightarrow> dev_session \<Rightarrow> bool \<Rightarrow> correlation list \<Rightarrow> (nat \<times> nat list) list \<Rightarrow> generation \<Rightarrow> json" where
  "settlement_audit mode commit tree r drift pairs ids g = JObj
     [(''mode'', JStr mode), (''request_ids'', JList (map JStr (sort (map fst pairs)))),
      (''job_ids'', JList (map JStr (sort (map (fst \<circ> snd) pairs)))),
      (''terminal_correlations'', JList (map (\<lambda>(request, job, status). JObj
        [(''request_id'', JStr request), (''job_id'', JStr job), (''status'', JStr status)]) (sort_key fst pairs))),
      (''validation_ids'', JList (map (\<lambda>(i, _). JInt (int i)) ids)),
      (''duplicate_validation_ids'', JList (map (\<lambda>i. JInt (int i)) (sort (concat (map snd ids))))),
      (''validation_generation_revision'', JInt (int (gn_revision g))),
      (''validation_generation_workspace_revision'', JInt (gn_workspace_revision g)),
      (''validation_generation_source'', JStr (gn_source g)),
      (''validation_generation_maintenance_events'', JList (map maintenance_json (gn_maintenance g))),
      (''workspace_drift_reconciliation'', JBool drift), (''commit_sha'', JStr commit), (''tree_sha'', JStr tree),
      (''base_sha'', JStr (ss_base_commit r))]"

text \<open>The session leaves its validation; the update also asks for the status that was checked.\<close>

definition settled_fields :: "string \<Rightarrow> time \<Rightarrow> dev_session \<Rightarrow> dev_session" where
  "settled_fields mode now r = r\<lparr>ss_status := ''active'', ss_updated_at := now,
     ss_fast_job := (if mode = ''fast'' then None else ss_fast_job r),
     ss_full_job := (if mode = ''fast'' then ss_full_job r else None),
     ss_attestation := None, ss_failure_uri := None\<rparr>"

definition reconcile_terminal_validation_set ::
  "string \<Rightarrow> int \<Rightarrow> int \<Rightarrow> string \<Rightarrow> string \<Rightarrow> string \<Rightarrow> correlation list \<Rightarrow> int \<Rightarrow> int \<Rightarrow> bool \<Rightarrow> time \<Rightarrow> dev_db \<Rightarrow>
   session_error + (dev_session \<times> json) \<times> dev_db" where
  "reconcile_terminal_validation_set sid expected expected_workspace mode commit tree pairs revision
     workspace_revision allow now db =
     (if \<not> correlation_set_ok mode pairs then Inl SessionRecoveryRequired
      else (case settlement_scope sid expected expected_workspace mode commit tree allow now db of
          Inl e \<Rightarrow> Inl e
        | Inr (r, drift) \<Rightarrow>
            (case named_generation r mode commit tree revision workspace_revision db of
               Inl e \<Rightarrow> Inl e
             | Inr g \<Rightarrow>
                 (let decorated = latest_first (\<lambda>v. va_session v = sid \<and> va_revision v = revision) (dd_validations db)
                  in if \<not> generation_rows_ok mode commit tree pairs decorated then Inl SessionRecoveryRequired
                     else (case settle_pairs (sort_key fst pairs) tree now decorated (dd_validations db) of
                         Inl e \<Rightarrow> Inl e
                       | Inr (ids, rows) \<Rightarrow>
                           (let audit = settlement_audit mode commit tree r drift pairs ids g
                            in map_sum id (\<lambda>(updated, db1). ((updated, audit), db1))
                                 (write_session sid expected (settled_fields mode now)
                                    ''validation_terminal_correlation_set_reconciled'' (validating_status mode) audit now
                                    (db\<lparr>dd_validations := rows\<rparr>))))))))"

end
