(* ===== verification/Session_Facts.thy ===== *)
theory Session_Facts
  imports Workspaces Session_Settlement
begin

text \<open>
  What every operation does to the sessions and their events: it makes moves, each of which takes
  one session to its next revision under an event, or notes an event.  Over the moves: the log of a
  session is its history, and what a session keeps.
\<close>

section \<open>Histories\<close>

definition session_log :: "string \<Rightarrow> dev_db \<Rightarrow> session_event list" where
  "session_log sid db = filter (\<lambda>e. se_session e = sid) (dd_events db)"

text \<open>A list of events that tells how a session got to a status and a revision.\<close>

inductive session_history :: "session_event list \<Rightarrow> string \<Rightarrow> nat \<Rightarrow> bool" where
  created: "se_from e = None \<Longrightarrow> se_to e = Some s \<Longrightarrow> se_revision e = 1 \<Longrightarrow> session_history [e] s 1"
| moved: "session_history es s n \<Longrightarrow> se_from e = Some s \<Longrightarrow> se_to e = Some s' \<Longrightarrow> se_revision e = Suc n \<Longrightarrow>
    session_history (es @ [e]) s' (Suc n)"
| noted: "session_history es s n \<Longrightarrow> se_from e = Some s \<Longrightarrow> se_to e = Some s \<Longrightarrow> se_revision e = n \<Longrightarrow>
    session_history (es @ [e]) s n"

lemma history_bounds: "session_history es s n \<Longrightarrow> 1 \<le> n \<and> (\<forall>e \<in> set es. 1 \<le> se_revision e \<and> se_revision e \<le> n)"
  by (induction rule: session_history.induct) auto

lemma history_revisions: "session_history es s n \<Longrightarrow> se_revision ` set es = {1..n}"
  by (induction rule: session_history.induct) (auto simp: atLeastAtMostSuc_conv dest: history_bounds)

lemma history_last: "session_history es s n \<Longrightarrow> es \<noteq> [] \<and> se_to (last es) = Some s \<and> se_revision (last es) = n"
  by (induction rule: session_history.induct) auto

section \<open>Moves\<close>

definition session_fixed :: "dev_session \<Rightarrow> string \<times> string \<times> string \<times> string \<times> string option \<times> string \<times> string \<times> string" where
  "session_fixed r = (ss_id r, ss_workspace_id r, ss_repository r, ss_branch r, ss_key r, ss_owner r, ss_base_branch r,
     ss_base_commit r)"

lemma fixedD:
  assumes "session_fixed r = session_fixed s"
  shows "ss_id r = ss_id s" "ss_workspace_id r = ss_workspace_id s" "ss_repository r = ss_repository s"
    "ss_branch r = ss_branch s" "ss_key r = ss_key s" "ss_owner r = ss_owner s" "ss_base_branch r = ss_base_branch s"
    "ss_base_commit r = ss_base_commit s"
  using assms by (simp_all add: session_fixed_def)

text \<open>One row goes to the next revision; the row is named by its id and revision.\<close>

definition at_revision :: "string \<Rightarrow> nat \<Rightarrow> dev_session \<Rightarrow> bool" where
  "at_revision sid n r \<longleftrightarrow> ss_id r = sid \<and> ss_revision r = n"

definition next_row :: "(dev_session \<Rightarrow> dev_session) \<Rightarrow> dev_session \<Rightarrow> dev_session" where
  "next_row f r = (f r)\<lparr>ss_revision := ss_revision r + 1\<rparr>"

inductive session_move :: "dev_db \<Rightarrow> dev_db \<Rightarrow> bool" where
  kept: "dd_sessions db' = dd_sessions db \<Longrightarrow> dd_events db' = dd_events db \<Longrightarrow> session_move db db'"
| created: "row_of ss_id (ss_id r) (dd_sessions db) = None \<Longrightarrow> \<not> key_taken r (dd_sessions db) \<Longrightarrow>
    one_active (dd_sessions db @ [r]) \<Longrightarrow> ss_revision r = 1 \<Longrightarrow> se_session e = ss_id r \<Longrightarrow> se_from e = None \<Longrightarrow>
    se_id e = length (dd_events db) + 1 \<Longrightarrow> se_to e = Some (ss_status r) \<Longrightarrow> se_revision e = 1 \<Longrightarrow> dd_sessions db' = dd_sessions db @ [r] \<Longrightarrow>
    dd_events db' = dd_events db @ [e] \<Longrightarrow> session_move db db'"
| updated: "row_of ss_id (ss_id r) (dd_sessions db) = Some r \<Longrightarrow> (\<And>x. session_fixed (f x) = session_fixed x) \<Longrightarrow>
    (session_terminal r \<Longrightarrow> session_terminal (f r)) \<Longrightarrow>
    dd_sessions db' = update_where (at_revision (ss_id r) (ss_revision r)) (next_row f) (dd_sessions db) \<Longrightarrow>
    one_active (dd_sessions db') \<Longrightarrow> se_session e = ss_id r \<Longrightarrow>
    se_id e = length (dd_events db) + 1 \<Longrightarrow> se_from e = Some (ss_status r) \<Longrightarrow>
    se_to e = Some (ss_status (f r)) \<Longrightarrow> se_revision e = Suc (ss_revision r) \<Longrightarrow> dd_events db' = dd_events db @ [e] \<Longrightarrow>
    session_move db db'"
| noted: "row_of ss_id (ss_id r) (dd_sessions db) = Some r \<Longrightarrow> se_session e = ss_id r \<Longrightarrow>
    se_id e = length (dd_events db) + 1 \<Longrightarrow> se_from e = Some (ss_status r) \<Longrightarrow> se_to e = Some (ss_status r) \<Longrightarrow> se_revision e = ss_revision r \<Longrightarrow>
    dd_sessions db' = dd_sessions db \<Longrightarrow> dd_events db' = dd_events db @ [e] \<Longrightarrow> session_move db db'"

lemma move_refl [simp, intro]: "session_move db db"
  by (rule session_move.kept) simp_all

lemma next_row_simps [simp]:
  "ss_revision (next_row f r) = Suc (ss_revision r)" "ss_status (next_row f r) = ss_status (f r)"
  "session_terminal (next_row f r) = session_terminal (f r)" "session_active (next_row f r) = session_active (f r)"
  by (simp_all add: next_row_def session_terminal_def session_active_def)

lemma next_row_fixed: "session_fixed (f r) = session_fixed r \<Longrightarrow> session_fixed (next_row f r) = session_fixed r"
  by (simp add: next_row_def session_fixed_def)

lemma next_row_id: "(\<And>x. session_fixed (f x) = session_fixed x) \<Longrightarrow> ss_id (next_row f r) = ss_id r"
  using fixedD(1) [OF next_row_fixed] .

section \<open>The invariant of sessions and events\<close>

definition session_keys :: "dev_session list \<Rightarrow> (string \<times> string) list" where
  "session_keys rows = map (\<lambda>r. (ss_repository r, the (ss_key r))) (filter (\<lambda>r. ss_key r \<noteq> None) rows)"

definition session_inv :: "dev_db \<Rightarrow> bool" where
  "session_inv db \<longleftrightarrow> distinct (map ss_id (dd_sessions db)) \<and> distinct (session_keys (dd_sessions db)) \<and>
     one_active (dd_sessions db) \<and> map se_id (dd_events db) = [1..<length (dd_events db) + 1] \<and>
     (\<forall>r \<in> set (dd_sessions db). session_history (session_log (ss_id r) db) (ss_status r) (ss_revision r)) \<and>
     (\<forall>e \<in> set (dd_events db). se_session e \<in> ss_id ` set (dd_sessions db))"

lemma session_invD:
  assumes "session_inv db"
  shows "distinct (map ss_id (dd_sessions db))" "distinct (session_keys (dd_sessions db))"
    "one_active (dd_sessions db)"
    "row_of ss_id i (dd_sessions db) = Some r \<Longrightarrow> session_history (session_log i db) (ss_status r) (ss_revision r)"
    "e \<in> set (dd_events db) \<Longrightarrow> se_session e \<in> ss_id ` set (dd_sessions db)"
    "map se_id (dd_events db) = [1..<length (dd_events db) + 1]"
  using assms by (auto simp: session_inv_def dest: row_of_SomeD)

lemma log_append:
  "dd_events db' = dd_events db @ [e] \<Longrightarrow>
    session_log i db' = session_log i db @ (if se_session e = i then [e] else [])"
  by (simp add: session_log_def)

lemma log_same: "dd_events db' = dd_events db \<Longrightarrow> session_log i db' = session_log i db"
  by (simp add: session_log_def)

lemma log_fresh: "session_inv db \<Longrightarrow> row_of ss_id i (dd_sessions db) = None \<Longrightarrow> session_log i db = []"
  by (auto simp: session_log_def filter_empty_conv row_of_None_iff dest: session_invD(5))

lemma row_unique:
  assumes "session_inv db" and "x \<in> set (dd_sessions db)" and "ss_id x = i" and "row_of ss_id i (dd_sessions db) = Some r"
  shows "x = r"
  using row_of_distinct [OF session_invD(1) [OF assms(1)] assms(2,3)] assms(4) by (metis option.inject)

lemma keys_append: "\<not> key_taken r rows \<Longrightarrow> distinct (session_keys rows) \<Longrightarrow> distinct (session_keys (rows @ [r]))"
  by (cases "ss_key r") (force simp: session_keys_def key_taken_def session_under_def find_None_iff)+

lemma keys_update:
  assumes "\<And>x. session_fixed (f x) = session_fixed x"
  shows "session_keys (update_where P (next_row f) rows) = session_keys rows"
proof -
  have "ss_key (next_row f x) = ss_key x" "ss_repository (next_row f x) = ss_repository x" for x
    using next_row_fixed [of f x, OF assms] by (simp_all add: session_fixed_def)
  then show ?thesis by (induction rows) (auto simp: session_keys_def)
qed

lemma ids_update:
  assumes "\<And>x. session_fixed (f x) = session_fixed x"
  shows "map ss_id (update_where P (next_row f) rows) = map ss_id rows"
  by (rule map_update_where) (rule next_row_id [OF assms])

lemma move_inv:
  assumes "session_move db db'" and inv: "session_inv db"
  shows "session_inv db'"
  using assms(1)
proof cases
  case kept
  with inv show ?thesis by (simp add: session_inv_def session_log_def)
next
  case (created r e)
  have old: "session_log (ss_id x) db' = session_log (ss_id x) db" if "x \<in> set (dd_sessions db)" for x
    using created that by (auto simp: log_append row_of_None_iff)
  have new: "session_log (ss_id r) db' = [e]"
    using created log_fresh [OF inv] by (simp add: log_append)
  show ?thesis
    unfolding session_inv_def
  proof (intro conjI)
    show "distinct (map ss_id (dd_sessions db'))"
      using created session_invD(1) [OF inv] by (simp add: row_of_None_iff)
    show "distinct (session_keys (dd_sessions db'))"
      using created keys_append session_invD(2) [OF inv] by simp
    show "one_active (dd_sessions db')" using created by simp
    show "map se_id (dd_events db') = [1..<length (dd_events db') + 1]"
      using created session_invD(6) [OF inv] by simp
    show "\<forall>x \<in> set (dd_sessions db'). session_history (session_log (ss_id x) db') (ss_status x) (ss_revision x)"
      using created old new inv session_history.created [of e "ss_status r"] by (auto simp: session_inv_def)
    show "\<forall>x \<in> set (dd_events db'). se_session x \<in> ss_id ` set (dd_sessions db')"
      using created session_invD(5) [OF inv] by auto
  qed
next
  case (updated r f e)
  note ids = ids_update [OF updated(2), of "at_revision (ss_id r) (ss_revision r)" "dd_sessions db"]
  have "session_history (session_log (ss_id x') db') (ss_status x') (ss_revision x')" if "x' \<in> set (dd_sessions db')" for x'
  proof -
    from that updated(4) obtain x where x: "x \<in> set (dd_sessions db)"
      "x' = (if at_revision (ss_id r) (ss_revision r) x then next_row f x else x)" by (auto simp: set_update_where)
    from inv x(1) have h: "session_history (session_log (ss_id x) db) (ss_status x) (ss_revision x)"
      by (simp add: session_inv_def)
    have id: "ss_id x' = ss_id x" using x(2) next_row_id [OF updated(2)] by simp
    show ?thesis
    proof (cases "ss_id x = ss_id r")
      case True
      from row_unique [OF inv x(1) True updated(1)] have r: "x = r" .
      with x(2) have x': "x' = next_row f r" by (simp add: at_revision_def)
      have "session_log (ss_id r) db' = session_log (ss_id r) db @ [e]"
        using updated(6) by (simp add: log_append [OF updated(11)])
      with session_history.moved [OF h [unfolded r] updated(8-10)] show ?thesis
        using id unfolding r x' by simp
    next
      case False
      with x(2) have "x' = x" by (simp add: at_revision_def)
      with h False updated(6) show ?thesis by (simp add: log_append [OF updated(11)])
    qed
  qed
  moreover have same: "map ss_id (dd_sessions db') = map ss_id (dd_sessions db)" using ids updated(4) by simp
  moreover from same have "ss_id ` set (dd_sessions db') = ss_id ` set (dd_sessions db)" by (metis image_set)
  moreover have "session_keys (dd_sessions db') = session_keys (dd_sessions db)"
    unfolding updated(4) by (rule keys_update) (rule updated(2))
  moreover have "se_session e \<in> ss_id ` set (dd_sessions db)" using updated(1,6) row_of_SomeD by force
  ultimately show ?thesis
    using updated(5,7,11) session_invD [OF inv] by (simp add: session_inv_def)
next
  case (noted r e)
  have "se_session e \<in> ss_id ` set (dd_sessions db)" using noted(1,2) row_of_SomeD by force
  moreover have "session_history (session_log (ss_id x) db') (ss_status x) (ss_revision x)" if x: "x \<in> set (dd_sessions db)" for x
  proof (cases "ss_id x = ss_id r")
    case True
    from row_unique [OF inv x True noted(1)] have r: "x = r" .
    have "session_log (ss_id r) db' = session_log (ss_id r) db @ [e]"
      using noted(2) by (simp add: log_append [OF noted(8)])
    with session_history.noted [OF session_invD(4) [OF inv noted(1)] noted(4-6)] show ?thesis
      unfolding r by simp
  next
    case False
    then have "session_log (ss_id x) db' = session_log (ss_id x) db"
      using noted(2) by (simp add: log_append [OF noted(8)])
    with inv x show ?thesis by (simp add: session_inv_def)
  qed
  ultimately show ?thesis
    using noted(3,7,8) session_invD [OF inv] by (simp add: session_inv_def)
qed

section \<open>A session over a run\<close>

definition session_evolves :: "dev_session \<Rightarrow> dev_session \<Rightarrow> bool" where
  "session_evolves r r' \<longleftrightarrow> session_fixed r' = session_fixed r \<and> ss_revision r \<le> ss_revision r' \<and>
     (session_terminal r \<longrightarrow> session_terminal r')"

lemma evolves_refl [simp, intro]: "session_evolves r r"
  by (simp add: session_evolves_def)

lemma evolves_trans: "session_evolves a b \<Longrightarrow> session_evolves b c \<Longrightarrow> session_evolves a c"
  by (auto simp: session_evolves_def)

lemma move_evolves:
  assumes "session_move db db'" and row: "row_of ss_id i (dd_sessions db) = Some r"
  shows "\<exists>r'. row_of ss_id i (dd_sessions db') = Some r' \<and> session_evolves r r'"
  using assms(1)
proof cases
  case (created x e)
  with row show ?thesis by (auto simp: row_of_append)
next
  case (updated x f e)
  have r': "row_of ss_id i (dd_sessions db') =
      Some (if at_revision (ss_id x) (ss_revision x) r then next_row f r else r)"
    unfolding updated(4) by (subst row_of_update_where) (use row next_row_id [of f, OF updated(2)] in simp_all)
  have "session_evolves r (next_row f r)" if "at_revision (ss_id x) (ss_revision x) r"
  proof -
    have "ss_id x = i" using that row_of_key [OF row] by (simp add: at_revision_def)
    with row updated(1) have "r = x" by simp
    with updated(2,3) show ?thesis by (simp add: session_evolves_def next_row_fixed)
  qed
  with r' show ?thesis by auto
qed (use row in auto)

lemma moves_evolve:
  assumes "session_move\<^sup>*\<^sup>* db db'" and "row_of ss_id i (dd_sessions db) = Some r"
  shows "\<exists>r'. row_of ss_id i (dd_sessions db') = Some r' \<and> session_evolves r r'"
  using assms
proof (induction rule: rtranclp_induct)
  case (step a b)
  then obtain ra where "row_of ss_id i (dd_sessions a) = Some ra" "session_evolves r ra" by blast
  with move_evolves [OF step.hyps(2)] show ?case by (meson evolves_trans)
qed auto

end
