(* ===== verification/Session_Steps.thy ===== *)
theory Session_Steps
  imports Session_Facts
begin

text \<open>
  Every operation on sessions, workspaces and validations makes moves on the sessions, keeps the
  branches and the requests unique, and so keeps the invariant of the whole store.
\<close>

section \<open>Updates under the revision\<close>

lemma session_row_iff: "session_row sid db = Inr r \<longleftrightarrow> row_of ss_id sid (dd_sessions db) = Some r"
  by (auto simp: session_row_def split: option.splits)

lemma require_sessionD:
  assumes "require_session sid expected writable db = Inr r"
  shows "row_of ss_id sid (dd_sessions db) = Some r" "int (ss_revision r) = expected" "writable \<Longrightarrow> \<not> session_terminal r"
  using assms by (auto simp: require_session_def session_row_iff split: sum.splits if_splits)

lemma append_event_simps [simp]:
  "dd_sessions (append_event sid t a b n d now db) = dd_sessions db"
  "dd_workspaces (append_event sid t a b n d now db) = dd_workspaces db"
  "dd_validations (append_event sid t a b n d now db) = dd_validations db"
  by (simp_all add: append_event_def)

lemma move_from:
  assumes "session_move db1 db'" and "dd_sessions db1 = dd_sessions db" and "dd_events db1 = dd_events db"
  shows "session_move db db'"
  using assms(1)
proof cases
  case kept
  with assms(2,3) show ?thesis by (intro session_move.kept) simp_all
next
  case (created r e)
  with assms(2,3) show ?thesis by (intro session_move.created [of r _ e]) simp_all
next
  case (updated r f e)
  show ?thesis by (rule session_move.updated [of r _ f _ e]) (use updated assms(2,3) in simp_all)
next
  case (noted r e)
  with assms(2,3) show ?thesis by (intro session_move.noted [of r _ e]) simp_all
qed

lemma write_sessionD:
  assumes "write_session sid expected f et from data now db = Inr (u, db')"
  defines "P \<equiv> \<lambda>x. ss_id x = sid \<and> int (ss_revision x) = expected"
  defines "rows \<equiv> update_where P (\<lambda>x. (f x)\<lparr>ss_revision := ss_revision x + 1\<rparr>) (dd_sessions db)"
  shows "row_count P (dd_sessions db) = 1" "one_active rows" "row_of ss_id sid rows = Some u"
    "db' = append_event sid et (Some from) (Some (ss_status u)) (ss_revision u) data now (db\<lparr>dd_sessions := rows\<rparr>)"
proof -
  from assms(1) obtain db1 where up: "update_session sid expected f db = Inr (u, db1)"
    and db': "db' = append_event sid et (Some from) (Some (ss_status u)) (ss_revision u) data now db1"
    by (cases "update_session sid expected f db") (simp_all add: write_session_def split: prod.splits)
  have "row_count P (dd_sessions db) = 1 \<and> one_active rows \<and> row_of ss_id sid rows = Some u \<and>
    db1 = db\<lparr>dd_sessions := rows\<rparr>"
    using up [unfolded update_session_def Let_def] unfolding P_def [symmetric] rows_def [symmetric]
    by (simp split: if_splits option.splits)
  with db' show "row_count P (dd_sessions db) = 1" "one_active rows" "row_of ss_id sid rows = Some u"
    "db' = append_event sid et (Some from) (Some (ss_status u)) (ss_revision u) data now (db\<lparr>dd_sessions := rows\<rparr>)"
    by simp_all
qed

lemma write_session_effect:
  assumes inv: "session_inv db" and run: "write_session sid expected f et (ss_status r) data now db = Inr (u, db')"
    and row: "row_of ss_id sid (dd_sessions db) = Some r" and fixed: "\<And>x. session_fixed (f x) = session_fixed x"
    and terminal: "session_terminal r \<Longrightarrow> session_terminal (f r)"
  shows "session_move db db'" "int (ss_revision r) = expected" "u = next_row f r"
    "dd_sessions db' = update_where (at_revision sid (ss_revision r)) (next_row f) (dd_sessions db)"
    "dd_workspaces db' = dd_workspaces db" "dd_validations db' = dd_validations db"
    "dd_events db' = dd_events db @ [\<lparr>se_id = length (dd_events db) + 1, se_session = sid, se_type = et,
       se_from = Some (ss_status r), se_to = Some (ss_status (f r)), se_revision = Suc (ss_revision r),
       se_data = (if json_truthy data then data else JObj []), se_created_at = now\<rparr>]"
proof -
  let ?P = "\<lambda>x. ss_id x = sid \<and> int (ss_revision x) = expected"
  let ?rows = "update_where ?P (\<lambda>x. (f x)\<lparr>ss_revision := ss_revision x + 1\<rparr>) (dd_sessions db)"
  note D = write_sessionD [OF run]
  have "(case row_of ss_id sid (dd_sessions db) of None \<Rightarrow> 0
      | Some x \<Rightarrow> if int (ss_revision x) = expected then 1 else 0) = (1 :: nat)"
    by (rule trans [OF row_count_key [OF session_invD(1) [OF inv], symmetric] D(1)])
  then show rev: "int (ss_revision r) = expected" unfolding row by (simp split: if_splits)
  then have P: "?P = at_revision sid (ss_revision r)" by (auto simp: at_revision_def fun_eq_iff)
  have f: "(\<lambda>x. (f x)\<lparr>ss_revision := ss_revision x + 1\<rparr>) = next_row f" by (simp add: next_row_def fun_eq_iff)
  show sessions: "dd_sessions db' = update_where (at_revision sid (ss_revision r)) (next_row f) (dd_sessions db)"
    unfolding D(4) P f by simp
  have id: "ss_id r = sid" using row by (rule row_of_key)
  have "row_of ss_id sid ?rows = Some (next_row f r)"
    unfolding P f by (subst row_of_update_where) (use next_row_id [of f, OF fixed] row id in \<open>simp_all add: at_revision_def\<close>)
  with D(3) show u': "u = next_row f r" by simp
  show "dd_workspaces db' = dd_workspaces db" "dd_validations db' = dd_validations db" unfolding D(4) by simp_all
  show events: "dd_events db' = dd_events db @ [\<lparr>se_id = length (dd_events db) + 1, se_session = sid, se_type = et,
       se_from = Some (ss_status r), se_to = Some (ss_status (f r)), se_revision = Suc (ss_revision r),
       se_data = (if json_truthy data then data else JObj []), se_created_at = now\<rparr>]"
    unfolding D(4) u' by (simp add: append_event_def)
  show "session_move db db'"
    by (rule session_move.updated [of r _ f, OF _ fixed terminal _ _ _ _ _ _ _ events])
      (use row sessions D(2)[unfolded P f] id in simp_all)
qed

section \<open>Moves of the operations\<close>

lemma insert_move:
  assumes "insert_session r w key now db = Inr (x, db')" and "ss_revision r = 1"
  shows "session_move db db'"
proof (cases "row_of ss_id (ss_id r) (dd_sessions db) \<noteq> None \<or> key_taken r (dd_sessions db) \<or>
    \<not> one_active (dd_sessions db @ [r])")
  case True
  with assms(1) have "db' = db"
    by (simp add: insert_session_def replay_session_def split: if_splits option.splits)
  then show ?thesis by simp
next
  case False
  with assms(1) have db': "db' = append_event (ss_id r) ''session_created'' None (Some (ss_status r)) 1
      (JObj [(''workspace_revision'', JInt (ws_revision w))]) now (db\<lparr>dd_sessions := dd_sessions db @ [r]\<rparr>)"
    by (simp add: insert_session_def)
  show ?thesis
    by (rule session_move.created [of r]) (use False assms(2) in \<open>simp_all add: db' append_event_def\<close>)
qed

lemma create_move:
  assumes "create_session w owner key metadata status sid now db = Inr (x, db')"
  shows "session_move db db'"
proof (cases "find_session_by_idempotency (ws_repository w) key db")
  case None
  with assms have "insert_session (new_session w owner key metadata status sid now) w key now db = Inr (x, db')"
    by (simp add: create_session_def split: if_splits)
  then show ?thesis by (rule insert_move) (simp add: new_session_def)
next
  case (Some r)
  with assms have "db' = db" by (simp add: create_session_def replay_session_def split: if_splits)
  then show ?thesis by simp
qed

lemma sync_fields_fixed [simp]: "session_fixed (sync_fields w s m now x) = session_fixed x"
  by (simp add: session_fixed_def sync_fields_def)

lemma sync_move:
  assumes "session_inv db" and "sync_from_workspace sid expected w et status patch now db = Inr (u, db')"
  shows "session_move db db'"
proof -
  from assms(2) obtain r s m where r: "require_session sid expected True db = Inr r"
    and run: "write_session sid expected (sync_fields w s m now) et (ss_status r) (JObj patch) now db = Inr (u, db')"
    by (auto simp: sync_from_workspace_def Let_def split: sum.splits if_splits)
  from write_session_effect(1) [OF assms(1) run require_sessionD(1) [OF r]] require_sessionD(3) [OF r] show ?thesis by simp
qed

lemma append_recovery_move:
  "append_recovery_event sid expected et data now db = Inr (r, db') \<Longrightarrow> session_move db db'"
  by (auto simp: append_recovery_event_def append_event_def split: sum.splits if_splits
      dest!: require_sessionD(1) intro!: session_move.noted dest: row_of_key)

lemma set_column_fixed [simp]: "session_fixed (set_column kv x) = session_fixed x"
  by (auto simp: set_column_def session_fixed_def split: prod.splits)

lemma set_column_status [simp]: "ss_status (set_column kv x) = ss_status x"
  by (auto simp: set_column_def split: prod.splits)

lemma fold_columns [simp]:
  "session_fixed (fold set_column kvs x) = session_fixed x" "ss_status (fold set_column kvs x) = ss_status x"
  by (induction kvs arbitrary: x) simp_all

lemma transition_fields_simps [simp]:
  "session_fixed (transition_fields s kvs now x) = session_fixed x" "ss_status (transition_fields s kvs now x) = s"
  by (simp_all add: transition_fields_def) (simp add: session_fixed_def)

lemma session_transition_effect:
  assumes "session_inv db" and "transition_session sid expected s et allowed kvs now db = Inr (u, db')"
  shows "session_move db db'" "dd_workspaces db' = dd_workspaces db" "dd_validations db' = dd_validations db"
proof -
  from assms(2) obtain r where r: "require_session sid expected (s \<notin> set session_terminal_states) db = Inr r"
    and run: "write_session sid expected (transition_fields s kvs now) et (ss_status r) (JObj kvs) now db = Inr (u, db')"
    by (auto simp: transition_session_def split: sum.splits if_splits)
  have t: "session_terminal r \<Longrightarrow> session_terminal (transition_fields s kvs now r)"
    using require_sessionD(3) [OF r] by (auto simp: session_terminal_def)
  from write_session_effect [OF assms(1) run require_sessionD(1) [OF r] _ t]
  show "session_move db db'" "dd_workspaces db' = dd_workspaces db" "dd_validations db' = dd_validations db" by simp_all
qed

lemma recovery_fields_simps [simp]:
  "session_fixed (recovery_fields w i m now x) = session_fixed x" "ss_status (recovery_fields w i m now x) = ss_status x"
  by (simp_all add: recovery_fields_def session_fixed_def)

lemma recover_cases:
  assumes "recover_stale_session_from_workspace sid expected w key index evidence now db = Inr (x, db')"
  obtains (kept) "db' = db"
  | (written) r m audit where "row_of ss_id sid (dd_sessions db) = Some r" "\<not> session_terminal r"
      "write_session sid expected (recovery_fields w index m now) ''session_recovered'' (ss_status r) audit now db =
         Inr (sr_session x, db')" "sr_recovered x"
proof -
  from assms obtain r where row: "row_of ss_id sid (dd_sessions db) = Some r"
    and c: "db' = db \<or> (\<not> session_terminal r \<and> commit_recovery r expected w key index evidence now db = Inr (x, db'))"
    by (auto simp: recover_stale_session_from_workspace_def session_row_iff map_sum_def
        split: sum.splits option.splits if_splits)
  show ?thesis
  proof (cases "db' = db")
    case False
    with c have "\<not> session_terminal r" and run: "commit_recovery r expected w key index evidence now db = Inr (x, db')"
      by simp_all
    from run row_of_key [OF row] obtain m audit where
      "write_session sid expected (recovery_fields w index m now) ''session_recovered'' (ss_status r) audit now db =
         Inr (sr_session x, db')" "sr_recovered x"
      unfolding commit_recovery_def Let_def by (auto simp: map_sum_def split: sum.splits)
    with written row \<open>\<not> session_terminal r\<close> show ?thesis by blast
  qed (rule kept)
qed

lemma recover_effect:
  assumes "session_inv db" and "recover_stale_session_from_workspace sid expected w key index evidence now db = Inr (x, db')"
  shows "session_move db db' \<and> dd_workspaces db' = dd_workspaces db \<and> dd_validations db' = dd_validations db"
  using assms(2)
proof (cases rule: recover_cases)
  case (written r m audit)
  from write_session_effect [OF assms(1) written(3,1)] written(2) show ?thesis by simp
qed simp

lemma update_workspaceD:
  assumes "update_workspace wid n P f db = Inr db1"
  shows "dd_sessions db1 = dd_sessions db" "dd_events db1 = dd_events db" "dd_validations db1 = dd_validations db"
    "dd_workspaces db1 = update_where (\<lambda>w. ws_id w = wid \<and> ws_revision w = n \<and> ws_status w = ''active'' \<and> P w)
       (\<lambda>w. (f w)\<lparr>ws_revision := ws_revision w + 1\<rparr>) (dd_workspaces db)"
    "row_count (\<lambda>w. ws_id w = wid \<and> ws_revision w = n \<and> ws_status w = ''active'' \<and> P w) (dd_workspaces db) = 1"
  using assms by (auto simp: update_workspace_def Let_def split: if_splits)

lemma session_inv_frame:
  "session_inv db \<Longrightarrow> dd_sessions db1 = dd_sessions db \<Longrightarrow> dd_events db1 = dd_events db \<Longrightarrow> session_inv db1"
  by (auto simp: session_inv_def session_log_def)

definition renewed_fields :: "int \<Rightarrow> time \<Rightarrow> time \<Rightarrow> dev_session \<Rightarrow> dev_session" where
  "renewed_fields n expiry now r = r\<lparr>ss_workspace_revision := n, ss_lease_expires := expiry, ss_updated_at := now\<rparr>"

lemma renewed_fields_simps [simp]:
  "session_fixed (renewed_fields n e now x) = session_fixed x" "ss_status (renewed_fields n e now x) = ss_status x"
  by (simp_all add: renewed_fields_def session_fixed_def)

lemma renew_cases:
  assumes "auto_renew_session_workspace_lease sid expected wid n seconds data now db = Inr ((u, audit), db')"
  obtains r w db1 where "row_of ss_id sid (dd_sessions db) = Some r" "row_of ws_id wid (dd_workspaces db) = Some w"
    "renew_error r w expected n now = None"
    "update_workspace wid n (\<lambda>w. ws_lease_expires w > now)
       (\<lambda>w. w\<lparr>ws_lease_expires := now + of_int (bounded_lease seconds), ws_updated_at := now\<rparr>) db = Inr db1"
    "audit = renew_audit data (ws_lease_expires w) (now + of_int (bounded_lease seconds)) n"
    "write_session sid expected (renewed_fields (n + 1) (now + of_int (bounded_lease seconds)) now)
       ''workspace_lease_auto_renewed'' (ss_status r) audit now db1 = Inr (u, db')"
  using assms
  by (auto simp: auto_renew_session_workspace_lease_def session_row_iff Let_def map_sum_def
      renewed_fields_def [abs_def] split: sum.splits option.splits)

lemma finalize_cases:
  assumes "finalize_merged_session_workspace sid expected wid n evidence now db = Inr ((u, w'), db')"
  obtains r w p db1 where "row_of ss_id sid (dd_sessions db) = Some r" "row_of ws_id wid (dd_workspaces db) = Some w"
    "finalize_error r w expected n = None" "merge_pull_number evidence r = Inr p"
    "update_workspace wid n (\<lambda>_. True) (closed_fields now) db = Inr db1"
    "write_session sid expected (merged_fields p (n + 1) now) ''pull_request_merged'' (ss_status r)
       (finalize_audit wid n p (ss_pull_number r = None) evidence) now db1 = Inr (u, db')"
    "w' = row_of ws_id wid (dd_workspaces db')"
  using assms
  by (auto simp: finalize_merged_session_workspace_def session_row_iff Let_def map_sum_def
      split: sum.splits option.splits)

end
