(* ===== verification/Session_System.thy ===== *)
theory Session_System
  imports Session_Steps
begin

text \<open>
  What each operation of the development store does to the sessions and their logs: it is a
  \<open>session_move\<close>, and the validations stay unless the operation is about them.
\<close>

section \<open>Sessions\<close>

lemma renew_effect:
  assumes inv: "session_inv db"
    and run: "auto_renew_session_workspace_lease sid expected wid n seconds data now db = Inr ((u, audit), db')"
  shows "session_move db db' \<and> dd_validations db' = dd_validations db"
  using run
proof (cases rule: renew_cases)
  case (1 r w db1)
  note D = update_workspaceD [OF 1(4)]
  from write_session_effect [OF session_inv_frame [OF inv D(1,2)] 1(6)] 1(1) D(1)
  have "session_move db1 db'" "dd_validations db' = dd_validations db1" by (simp_all add: session_terminal_def)
  with move_from [OF _ D(1,2)] D(3) show ?thesis by simp
qed

lemma merged_fields_simps [simp]:
  "session_fixed (merged_fields p n now x) = session_fixed x" "ss_status (merged_fields p n now x) = ''merged''"
  by (simp_all add: merged_fields_def session_fixed_def)

lemma finalize_effect:
  assumes inv: "session_inv db"
    and run: "finalize_merged_session_workspace sid expected wid n evidence now db = Inr ((u, w'), db')"
  shows "session_move db db' \<and> dd_validations db' = dd_validations db"
  using run
proof (cases rule: finalize_cases)
  case (1 r w p db1)
  note D = update_workspaceD [OF 1(5)]
  have t: "session_terminal r \<Longrightarrow> session_terminal (merged_fields p (n + 1) now r)"
    by (simp add: session_terminal_def session_terminal_states_def)
  from write_session_effect [OF session_inv_frame [OF inv D(1,2)] 1(6) _ _ t] 1(1) D(1)
  have "session_move db1 db'" "dd_validations db' = dd_validations db1" by simp_all
  with move_from [OF _ D(1,2)] D(3) show ?thesis by simp
qed

lemma settled_fields_simps [simp]:
  "session_fixed (settled_fields mode now x) = session_fixed x" "ss_status (settled_fields mode now x) = ''active''"
  by (simp_all add: settled_fields_def session_fixed_def)

lemma settlement_scopeD:
  assumes "settlement_scope sid expected n mode commit tree allow now db = Inr (r, drift)"
  shows "row_of ss_id sid (dd_sessions db) = Some r" "int (ss_revision r) = expected"
    "ss_status r = validating_status mode"
proof -
  from assms have r: "require_session sid expected False db = Inr r"
    and e: "settlement_error r (row_of ws_id (ss_workspace_id r) (dd_workspaces db)) n mode commit tree allow now = None"
    by (auto simp: settlement_scope_def Let_def split: sum.splits option.splits)
  from require_sessionD(1,2) [OF r] show "row_of ss_id sid (dd_sessions db) = Some r" "int (ss_revision r) = expected" .
  from e show "ss_status r = validating_status mode" by (simp add: settlement_error_def split: if_splits)
qed

lemma reconcile_cases:
  assumes "reconcile_terminal_validation_set sid expected n mode commit tree pairs revision wrev allow now db =
    Inr ((u, audit), db')"
  obtains r drift g ids rows where "correlation_set_ok mode pairs"
    "settlement_scope sid expected n mode commit tree allow now db = Inr (r, drift)"
    "named_generation r mode commit tree revision wrev db = Inr g"
    "generation_rows_ok mode commit tree pairs
       (latest_first (\<lambda>v. va_session v = sid \<and> va_revision v = revision) (dd_validations db))"
    "settle_pairs (sort_key fst pairs) tree now
       (latest_first (\<lambda>v. va_session v = sid \<and> va_revision v = revision) (dd_validations db)) (dd_validations db) =
       Inr (ids, rows)"
    "audit = settlement_audit mode commit tree r drift pairs ids g"
    "write_session sid expected (settled_fields mode now) ''validation_terminal_correlation_set_reconciled''
       (ss_status r) audit now (db\<lparr>dd_validations := rows\<rparr>) = Inr (u, db')"
proof -
  have "correlation_set_ok mode pairs" using assms
    by (rule contrapos_pp) (simp add: reconcile_terminal_validation_set_def)
  with assms obtain r drift g ids rows where
    s: "settlement_scope sid expected n mode commit tree allow now db = Inr (r, drift)"
    "named_generation r mode commit tree revision wrev db = Inr g"
    "generation_rows_ok mode commit tree pairs
       (latest_first (\<lambda>v. va_session v = sid \<and> va_revision v = revision) (dd_validations db))"
    "settle_pairs (sort_key fst pairs) tree now
       (latest_first (\<lambda>v. va_session v = sid \<and> va_revision v = revision) (dd_validations db)) (dd_validations db) =
       Inr (ids, rows)" and
    w: "map_sum id (\<lambda>(updated, db1). ((updated, settlement_audit mode commit tree r drift pairs ids g), db1))
      (write_session sid expected (settled_fields mode now) ''validation_terminal_correlation_set_reconciled''
       (validating_status mode) (settlement_audit mode commit tree r drift pairs ids g) now
       (db\<lparr>dd_validations := rows\<rparr>)) = Inr ((u, audit), db')"
    by (auto simp: reconcile_terminal_validation_set_def Let_def split: sum.splits if_splits)
  from w settlement_scopeD(3) [OF s(1)] have
    "audit = settlement_audit mode commit tree r drift pairs ids g"
    "write_session sid expected (settled_fields mode now) ''validation_terminal_correlation_set_reconciled''
       (ss_status r) audit now (db\<lparr>dd_validations := rows\<rparr>) = Inr (u, db')"
    by (auto simp: map_sum_def split: sum.splits)
  with that \<open>correlation_set_ok mode pairs\<close> s show ?thesis by blast
qed

lemma validating_not_terminal: "ss_status r = validating_status mode \<Longrightarrow> \<not> session_terminal r"
  by (simp add: validating_status_def session_terminal_def session_terminal_states_def)

lemma reconcile_move:
  assumes inv: "session_inv db" and run: "reconcile_terminal_validation_set sid expected n mode commit tree pairs revision
    wrev allow now db = Inr ((u, audit), db')"
  shows "session_move db db' \<and> dd_workspaces db' = dd_workspaces db"
  using run
proof (cases rule: reconcile_cases)
  case (1 r drift g ids rows)
  note D = settlement_scopeD [OF 1(2)]
  have inv1: "session_inv (db\<lparr>dd_validations := rows\<rparr>)" by (rule session_inv_frame [OF inv]) simp_all
  from write_session_effect [OF inv1 1(7)] D(1) validating_not_terminal [OF D(3)]
  have "session_move (db\<lparr>dd_validations := rows\<rparr>) db'" "dd_workspaces db' = dd_workspaces db" by simp_all
  with move_from [of "db\<lparr>dd_validations := rows\<rparr>" db' db] show ?thesis by simp
qed

lemma bind_cases:
  assumes "bind_validation_request_worker sid expected n mode commit tree request job revision wrev allow ts now db =
    Inr (audit, db')"
  obtains r drift rows candidates where "settlement_scope sid expected n mode commit tree allow now db = Inr (r, drift)"
    "correlation_rows r expected mode commit tree revision wrev db = Inr rows"
    "pair_candidates request job (job = [] \<and> ts \<in> set request_only_terminal_statuses) rows = Inr candidates"
    "commit_binding r drift mode request job (job = [] \<and> ts \<in> set request_only_terminal_statuses) ts candidates now db =
       Inr (audit, db')" "request \<noteq> []"
  using assms
  by (auto simp: bind_validation_request_worker_def Let_def split: sum.splits if_splits prod.splits)

lemma commit_bindingD:
  assumes "commit_binding r drift mode request job only ts candidates now db = Inr (audit, db')"
  defines "rows \<equiv> update_where (\<lambda>v. va_id v = va_id (canonical_row request candidates))
    (bound_row request job only ts now) (dd_validations db)"
  shows "request_unique rows" "db' = append_event (ss_id r) ''validation_correlation_backfilled'' (Some (ss_status r))
      (Some (ss_status r)) (ss_revision r) audit now (db\<lparr>dd_validations := rows\<rparr>)"
    "only \<Longrightarrow> job_of (canonical_row request candidates) = []"
    "\<not> only \<Longrightarrow> job_of (canonical_row request candidates) \<in> {[], job}"
  using assms(1) by (auto simp: commit_binding_def Let_def rows_def split: if_splits)

lemma bind_effect:
  assumes run: "bind_validation_request_worker sid expected n mode commit tree request job revision wrev allow ts now db =
    Inr (audit, db')"
  shows "session_move db db'" "dd_workspaces db' = dd_workspaces db"
    "\<exists>i f. dd_validations db' = update_where (\<lambda>v. va_id v = i) f (dd_validations db) \<and>
      (\<forall>v. va_id (f v) = va_id v \<and> va_session (f v) = va_session v \<and> va_revision (f v) = va_revision v) \<and> request_unique (dd_validations db')"
proof -
  obtain r drift rows candidates where scope: "settlement_scope sid expected n mode commit tree allow now db = Inr (r, drift)"
    and commit: "commit_binding r drift mode request job (job = [] \<and> ts \<in> set request_only_terminal_statuses) ts
      candidates now db = Inr (audit, db')"
    using run by (rule bind_cases)
  let ?only = "job = [] \<and> ts \<in> set request_only_terminal_statuses"
  let ?rows = "update_where (\<lambda>v. va_id v = va_id (canonical_row request candidates)) (bound_row request job ?only ts now)
    (dd_validations db)"
  note u = commit_bindingD(1) [OF commit] and db' = commit_bindingD(2) [OF commit]
  from settlement_scopeD(1) [OF scope] have row: "row_of ss_id (ss_id r) (dd_sessions db) = Some r"
    using row_of_key by metis
  show "session_move db db'"
    by (rule session_move.noted [OF row]) (simp_all add: db' append_event_def)
  show "dd_workspaces db' = dd_workspaces db" by (simp add: db')
  have "va_id (bound_row request job ?only ts now v) = va_id v \<and> va_session (bound_row request job ?only ts now v) = va_session v \<and>
      va_revision (bound_row request job ?only ts now v) = va_revision v" for v by (simp add: bound_row_def)
  then show "\<exists>i f. dd_validations db' = update_where (\<lambda>v. va_id v = i) f (dd_validations db) \<and>
      (\<forall>v. va_id (f v) = va_id v \<and> va_session (f v) = va_session v \<and> va_revision (f v) = va_revision v) \<and> request_unique (dd_validations db')"
    using u unfolding db' by auto
qed

lemma recover_sessions_effect:
  assumes "session_inv db" and "recover_sessions getter now db = (x, db')"
  shows "session_move\<^sup>*\<^sup>* db db' \<and> dd_workspaces db' = dd_workspaces db \<and> dd_validations db' = dd_validations db"
proof -
  define one :: "dev_session \<Rightarrow> nat \<times> dev_db \<Rightarrow> nat \<times> dev_db" where "one = (\<lambda>r (n, db).
            case getter (ss_workspace_id r) of
              None \<Rightarrow> (n, db)
            | Some w \<Rightarrow>
                if ss_status r \<in> {''preparing'', ''closing''} then
                  (case transition_session (ss_id r) (int (ss_revision r)) ''blocked'' ''restart_recovery_required'' None
                      [(''workspace_revision'', JInt (ws_revision w)), (''head_commit_sha'', JStr (ws_head w)),
                       (''tree_sha'', JStr (ws_tree w))] now db of
                     Inl e \<Rightarrow> (n, db)
                   | Inr (s, db') \<Rightarrow> (n + 1, db'))
                else (n, db))"
  have step: "session_inv (snd (one r (n, db))) \<and> session_move db (snd (one r (n, db))) \<and>
      dd_workspaces (snd (one r (n, db))) = dd_workspaces db \<and> dd_validations (snd (one r (n, db))) = dd_validations db"
    if "session_inv db" for r n db
    using that session_transition_effect [OF that] move_inv [OF _ that]
    by (simp add: one_def split: option.splits sum.splits prod.splits)
  have "session_move\<^sup>*\<^sup>* db (snd (fold one rows (n, db))) \<and>
      dd_workspaces (snd (fold one rows (n, db))) = dd_workspaces db \<and>
      dd_validations (snd (fold one rows (n, db))) = dd_validations db" if "session_inv db" for rows n db
    using that
  proof (induction rows arbitrary: n db)
    case (Cons r rows)
    obtain m db1 where o: "one r (n, db) = (m, db1)" by fastforce
    with step [OF Cons.prems, of r n] have s: "session_inv db1" "session_move db db1"
      "dd_workspaces db1 = dd_workspaces db" "dd_validations db1 = dd_validations db" by simp_all
    from Cons.IH [OF s(1), of m] s(2-4) o show ?case by (auto intro: converse_rtranclp_into_rtranclp)
  qed simp
  from this [OF assms(1), of "filter (\<lambda>r. ss_status r \<in> {''preparing'', ''validating_fast'', ''validating_full'', ''closing''})
      (dd_sessions db)" 0] assms(2)
  show ?thesis by (auto simp: recover_sessions_def Let_def one_def [symmetric] split: prod.splits)
qed

end
