(* ===== verification/Session_Invariant.thy ===== *)
theory Session_Invariant
  imports Session_System
begin

text \<open>
  Workspaces and validations under the operations, the step relation of the development store and
  its invariant.
\<close>

section \<open>Workspaces\<close>

definition workspace_inv :: "dev_db \<Rightarrow> bool" where
  "workspace_inv db \<longleftrightarrow> distinct (map ws_id (dd_workspaces db)) \<and> branch_unique (dd_workspaces db)"

lemma workspace_frame: "dd_workspaces db' = dd_workspaces db \<Longrightarrow> workspace_inv db \<Longrightarrow> workspace_inv db'"
  by (simp add: workspace_inv_def)

lemma distinct_filter_update:
  assumes "\<And>x. P x \<Longrightarrow> Q (f x) \<Longrightarrow> Q x \<and> k (f x) = k x" and "distinct (map k (filter Q rows))"
  shows "distinct (map k (filter Q (update_where P f rows)))"
proof -
  have sub: "k y \<in> k ` {x \<in> set rows. Q x}" if "y \<in> set (update_where P f rows)" "Q y" for y rows
  proof -
    from that(1) obtain x where x: "x \<in> set rows" "y = (if P x then f x else x)" by (auto simp: set_update_where)
    with that(2) assms(1) [of x] have "Q x \<and> k y = k x" by (cases "P x") auto
    with x(1) show ?thesis by auto
  qed
  show ?thesis
    using assms(2)
  proof (induction rows)
    case (Cons x rows)
    have rest: "distinct (map k (filter Q rows))" using Cons.prems by (simp split: if_splits)
    have new: "k x \<notin> k ` {z \<in> set (update_where P f rows). Q z}" if "Q x"
      using Cons.prems that sub [of _ rows] by (auto simp: image_iff) metis
    from Cons.IH [OF rest] new assms(1) [of x] show ?case by (cases "P x"; cases "Q x") auto
  qed simp
qed

text \<open>What an update that frees branches, or leaves them as they are, keeps.\<close>

definition branch_kept :: "(workspace \<Rightarrow> workspace) \<Rightarrow> bool" where
  "branch_kept f \<longleftrightarrow> (\<forall>w. ws_id (f w) = ws_id w \<and> ws_repository (f w) = ws_repository w \<and> ws_branch (f w) = ws_branch w \<and>
     (branch_held (f w) \<longrightarrow> branch_held w))"

lemma update_keeps_branches:
  assumes "branch_kept f" and "distinct (map ws_id rows) \<and> branch_unique rows"
  shows "distinct (map ws_id (update_where P f rows)) \<and> branch_unique (update_where P f rows)"
  using assms unfolding branch_kept_def branch_unique_def
  by (metis (no_types, lifting) distinct_update_where distinct_filter_update)

lemma branch_kept_revision: "branch_kept f \<Longrightarrow> branch_kept (\<lambda>w. (f w)\<lparr>ws_revision := ws_revision w + 1\<rparr>)"
  by (auto simp: branch_kept_def branch_held_def)

lemma update_workspace_inv:
  assumes "update_workspace wid n P f db = Inr db1" and "branch_kept f" and "workspace_inv db"
  shows "workspace_inv db1"
  using update_keeps_branches [OF branch_kept_revision [OF assms(2)]] assms(3)
  unfolding workspace_inv_def update_workspaceD(4) [OF assms(1)] by blast

lemma write_workspaceD:
  assumes "write_workspace wid expected taken f db = Inr (w, db')"
  shows "db' = db\<lparr>dd_workspaces := update_where (\<lambda>w. ws_id w = wid \<and> ws_revision w = expected)
      (\<lambda>w. (f w)\<lparr>ws_revision := ws_revision w + 1\<rparr>) (dd_workspaces db)\<rparr>"
    "branch_unique (dd_workspaces db')" "row_of ws_id wid (dd_workspaces db') = Some w"
  using assms by (auto simp: write_workspace_def Let_def workspace_row_def map_sum_def
      split: if_splits sum.splits option.splits)

definition workspace_only :: "dev_db \<Rightarrow> dev_db \<Rightarrow> bool" where
  "workspace_only db db' \<longleftrightarrow> (workspace_inv db \<longrightarrow> workspace_inv db') \<and> dd_sessions db' = dd_sessions db \<and>
     dd_events db' = dd_events db \<and> dd_validations db' = dd_validations db"

lemma workspace_only_refl [simp, intro]: "workspace_only db db"
  by (simp add: workspace_only_def)

lemma write_workspace_only:
  assumes "write_workspace wid expected taken f db = Inr (w, db')" and "\<And>w. ws_id (f w) = ws_id w"
  shows "workspace_only db db'"
proof -
  note D = write_workspaceD [OF assms(1)]
  have "map ws_id (dd_workspaces db') = map ws_id (dd_workspaces db)"
    unfolding D(1) by (simp add: map_update_where assms(2))
  with D(2) show ?thesis by (simp add: workspace_only_def workspace_inv_def D(1))
qed

lemma workspace_casD:
  "workspace_cas wid expected db = Inr w \<Longrightarrow> row_of ws_id wid (dd_workspaces db) = Some w \<and> ws_revision w = expected"
  by (auto simp: workspace_cas_def workspace_row_def split: option.splits if_splits sum.splits)

lemma resume_only: "resume_workspace G wid expected s now db = Inr (w, db') \<Longrightarrow> workspace_only db db'"
  by (auto simp: resume_workspace_def split: sum.splits if_splits option.splits elim!: write_workspace_only)

lemma refresh_only: "refresh_workspace G wid expected now db = Inr (w, db') \<Longrightarrow> workspace_only db db'"
  by (auto simp: refresh_workspace_def split: sum.splits if_splits prod.splits elim!: write_workspace_only)

lemma scope_only:
  "declare_workspace_scope wid expected p s a t m c ex now db = Inr (w, db') \<Longrightarrow> workspace_only db db'"
  by (auto simp: declare_workspace_scope_def Let_def split: sum.splits if_splits elim!: write_workspace_only)

lemma complete_only: "workspace_write_complete wid expected head tree v now db = Inr (w, db') \<Longrightarrow> workspace_only db db'"
  by (auto simp: workspace_write_complete_def split: sum.splits if_splits elim!: write_workspace_only)

lemma branch_kept_release: "branch_kept (\<lambda>w. w\<lparr>ws_status := ''closed'', ws_lease_expires := 0, ws_index_commit := None,
    ws_revision := ws_revision w + 1, ws_updated_at := now\<rparr>)"
  by (simp add: branch_kept_def branch_held_def)

lemma release_only: "workspace_only db (release_workspace wid expected now db)"
  using update_keeps_branches [OF branch_kept_release]
  by (auto simp: workspace_only_def release_workspace_def workspace_inv_def)

lemma close_only: "close_workspace wid expected now db1 db = Inr (w, db') \<Longrightarrow> workspace_only db db'"
  by (auto simp: close_workspace_def Let_def map_sum_def release_only split: sum.splits)

lemma converge_only: "workspace_only db (converge_expired_branch_owner repository branch now db)"
  using update_keeps_branches
    [of "\<lambda>w. w\<lparr>ws_status := ''expired'', ws_revision := ws_revision w + 1, ws_updated_at := now\<rparr>"]
  by (auto simp: workspace_only_def converge_expired_branch_owner_def workspace_inv_def branch_kept_def branch_held_def)

lemma insert_only:
  assumes "insert_workspace w now db = (x, db')"
  shows "workspace_only db db'"
proof -
  define db1 where "db1 = converge_expired_branch_owner (ws_repository w) (ws_branch w) now db"
  have only: "workspace_only db db1" unfolding db1_def by (rule converge_only)
  show ?thesis
  proof (cases "row_of ws_id (ws_id w) (dd_workspaces db1) \<noteq> None \<or> \<not> branch_unique (dd_workspaces db1 @ [w])")
    case True
    with assms have "db' = db1" unfolding insert_workspace_def Let_def db1_def [symmetric] by simp
    with only show ?thesis by simp
  next
    case False
    with assms have db': "db' = db1\<lparr>dd_workspaces := dd_workspaces db1 @ [w]\<rparr>"
      unfolding insert_workspace_def Let_def db1_def [symmetric] by simp
    from False have "workspace_inv db1 \<Longrightarrow> workspace_inv db'"
      unfolding workspace_inv_def db' by (simp add: row_of_None_iff)
    with only show ?thesis by (simp add: workspace_only_def db')
  qed
qed

lemma renew_fields_kept: "branch_kept (\<lambda>w. w\<lparr>ws_lease_expires := e, ws_updated_at := now\<rparr>)"
  by (simp add: branch_kept_def branch_held_def)

lemma closed_fields_kept: "branch_kept (closed_fields now)"
  by (simp add: branch_kept_def branch_held_def closed_fields_def)

section \<open>Validations\<close>

definition validation_inv :: "dev_db \<Rightarrow> bool" where
  "validation_inv db \<longleftrightarrow> map va_id (dd_validations db) = [1..<length (dd_validations db) + 1] \<and>
     request_unique (dd_validations db)"

lemma validation_frame: "dd_validations db' = dd_validations db \<Longrightarrow> validation_inv db \<Longrightarrow> validation_inv db'"
  by (simp add: validation_inv_def)

lemma validation_ids: "validation_inv db \<Longrightarrow> distinct (map va_id (dd_validations db))"
  by (simp add: validation_inv_def)

lemma latest_first_set: "set (latest_first P rows) = {v \<in> set rows. P v}"
  by (auto simp: latest_first_def)

lemma newestD: "newest P rows = Some v \<Longrightarrow> v \<in> set rows \<and> P v"
  using latest_first_set [of P rows] by (auto simp: newest_def split: list.splits)

lemma merge_status_fields [simp]:
  "va_id (merge_status v status eligible att finish now r) = va_id r"
  "va_session (merge_status v status eligible att finish now r) = va_session r"
  "va_mode (merge_status v status eligible att finish now r) = va_mode r"
  "va_commit (merge_status v status eligible att finish now r) = va_commit r"
  "va_revision (merge_status v status eligible att finish now r) = va_revision r"
  "va_job (merge_status v status eligible att finish now r) = va_job r"
  by (simp_all add: merge_status_def Let_def)

lemma merge_validation_fields:
  assumes "merge_validation v request job tree status eligible att payload finish now = Inr v'"
  shows "va_id v' = va_id v" "va_session v' = va_session v" "va_mode v' = va_mode v" "va_commit v' = va_commit v"
    "va_revision v' = va_revision v"
proof -
  from assms obtain r where "v' = merge_status v status eligible att finish now r" "va_id r = va_id v"
    "va_session r = va_session v" "va_mode r = va_mode v" "va_commit r = va_commit v" "va_revision r = va_revision v"
    unfolding merge_validation_def by (fastforce split: if_splits)
  then show "va_id v' = va_id v" "va_session v' = va_session v" "va_mode v' = va_mode v" "va_commit v' = va_commit v"
    "va_revision v' = va_revision v" by simp_all
qed

lemma legacy_placeholderD:
  assumes "legacy_placeholder sid mode commit tree request rows = Some v"
  shows "v \<in> set rows \<and> va_session v = sid"
proof -
  from assms have "v \<in> set (latest_first (\<lambda>v. va_session v = sid \<and> about mode commit tree v \<and> \<not> truthy (va_request v)) rows)"
    unfolding legacy_placeholder_def find_Some_iff by (metis nth_mem)
  then show ?thesis by (simp add: latest_first_set)
qed

lemma recorded_validationD:
  assumes "recorded_validation sid revision mode commit tree request job rows = Inr (Some v)"
  shows "v \<in> set rows \<and> va_session v = sid"
proof (cases "request = []")
  case True
  with assms show ?thesis by (auto simp: recorded_validation_def Let_def dest: newestD split: if_splits)
next
  case False
  show ?thesis
  proof (cases "newest (\<lambda>v. va_session v = sid \<and> va_request v = Some request) rows")
    case None
    with assms False have "legacy_placeholder sid mode commit tree request rows = Some v"
      by (auto simp: recorded_validation_def Let_def split: option.splits if_splits)
    then show ?thesis by (rule legacy_placeholderD)
  next
    case (Some x)
    with assms False have "x = v" by (auto simp: recorded_validation_def Let_def split: if_splits)
    with newestD [OF Some] show ?thesis by simp
  qed
qed

lemma record_cases:
  assumes "record_validation sid revision mode commit tree ra job status eligible att evidence finish now db = Inr (i, db')"
  obtains (inserted) row r where "va_id row = length (dd_validations db) + 1" "va_session row = sid"
      "va_revision row = revision" "i = va_id row" "request_unique (dd_validations db')"
      "db' = db\<lparr>dd_validations := dd_validations db @ [row]\<rparr>" "require_session sid revision True db = Inr r"
  | (merged) v v' request payload where "v \<in> set (dd_validations db)" "va_session v = sid"
      "merge_validation v request job tree status eligible att payload finish now = Inr v'" "i = va_id v"
      "db' = db\<lparr>dd_validations := update_where (\<lambda>x. va_id x = va_id v) (\<lambda>_. v') (dd_validations db)\<rparr>"
      "request_unique (dd_validations db')"
proof -
  define request where "request = (if ra = [] then text_at ''request_id'' (JObj evidence) else ra)"
  define payload where "payload = (if request = [] then evidence else AList.update ''request_id'' (JStr request) evidence)"
  note run = assms [unfolded record_validation_def Let_def, folded request_def, folded payload_def]
  show ?thesis
  proof (cases "recorded_validation sid revision mode commit tree request job (dd_validations db)")
    case (Inl e)
    with run show ?thesis by (auto split: sum.splits)
  next
    case (Inr found)
    show ?thesis
    proof (cases found)
      case None
      moreover from run obtain r where "require_session sid revision True db = Inr r" by (cases "require_session sid revision True db") auto
      ultimately show ?thesis
        using run Inr
        by (intro inserted [of "new_validation (length (dd_validations db) + 1) sid revision mode commit tree request job status
            eligible att payload finish now" r])
          (auto simp: write_validations_def new_validation_def split: if_splits)
    next
      case (Some v)
      have "v \<in> set (dd_validations db) \<and> va_session v = sid"
        using Inr Some by (intro recorded_validationD) simp
      moreover obtain v' where "merge_validation v request job tree status eligible att payload finish now = Inr v'"
        and "write_validations (update_where (\<lambda>x. va_id x = va_id v) (\<lambda>_. v') (dd_validations db)) (va_id v) db = Inr (i, db')"
        using run Inr Some by (auto split: sum.splits)
      ultimately show ?thesis
        by (intro merged [of v request payload v']) (auto simp: write_validations_def split: if_splits)
    qed
  qed
qed

end
