(* ===== verification/Session_Store.thy ===== *)
theory Session_Store
  imports Session_Invariant
begin

text \<open>
  The effect of each operation on the whole development store: sessions and their logs, workspaces
  and their branches, validations and their requests, and the invariants these effects keep.
\<close>

section \<open>Effects\<close>

interpretation session_moves: step_invariant session_move session_inv
  by unfold_locales (rule move_inv)

text \<open>A validation is at a revision its session has reached.\<close>

definition reached :: "dev_db \<Rightarrow> validation \<Rightarrow> bool" where
  "reached db v \<longleftrightarrow> (\<exists>r. row_of ss_id (va_session v) (dd_sessions db) = Some r \<and> va_revision v \<le> int (ss_revision r))"

definition validations_from :: "dev_db \<Rightarrow> dev_db \<Rightarrow> bool" where
  "validations_from db db' \<longleftrightarrow> (\<forall>v' \<in> set (dd_validations db'). reached db' v' \<or>
     (\<exists>v \<in> set (dd_validations db). va_session v = va_session v' \<and> va_revision v = va_revision v'))"

lemma reached_moves: "session_move\<^sup>*\<^sup>* db db' \<Longrightarrow> reached db v \<Longrightarrow> reached db' v"
  unfolding reached_def by (elim exE conjE, drule (1) moves_evolve) (force simp: session_evolves_def)

lemma reached_cong: "reached db v \<Longrightarrow> va_session v = va_session w \<Longrightarrow> va_revision v = va_revision w \<Longrightarrow> reached db w"
  by (simp add: reached_def)

lemma validations_from_same: "dd_validations db' = dd_validations db \<Longrightarrow> validations_from db db'"
  by (auto simp: validations_from_def)

definition dev_effect :: "dev_db \<Rightarrow> dev_db \<Rightarrow> bool" where
  "dev_effect db db' \<longleftrightarrow> session_move\<^sup>*\<^sup>* db db' \<and> (workspace_inv db \<longrightarrow> workspace_inv db') \<and>
     (validation_inv db \<longrightarrow> validation_inv db') \<and> validations_from db db'"

lemma effect_refl [simp, intro]: "dev_effect db db"
  by (simp add: dev_effect_def validations_from_same)

lemma effect_trans:
  assumes "dev_effect a b" and "dev_effect b c"
  shows "dev_effect a c"
proof -
  have "reached c v \<or> (\<exists>u \<in> set (dd_validations a). va_session u = va_session v \<and> va_revision u = va_revision v)"
    if "v \<in> set (dd_validations c)" for v
    using assms that reached_moves [of b c] reached_cong [of c] unfolding dev_effect_def validations_from_def by metis
  with assms show ?thesis by (auto simp: dev_effect_def validations_from_def)
qed

lemma effect_move:
  "session_move db db' \<Longrightarrow> (workspace_inv db \<Longrightarrow> workspace_inv db') \<Longrightarrow> (validation_inv db \<Longrightarrow> validation_inv db') \<Longrightarrow>
    validations_from db db' \<Longrightarrow> dev_effect db db'"
  by (auto simp: dev_effect_def)

lemma effect_framed:
  "session_move db db' \<Longrightarrow> dd_workspaces db' = dd_workspaces db \<Longrightarrow> dd_validations db' = dd_validations db \<Longrightarrow>
    dev_effect db db'"
  by (erule effect_move) (erule (1) workspace_frame, erule (1) validation_frame, erule validations_from_same)

lemma effect_workspace: "workspace_only db db' \<Longrightarrow> dev_effect db db'"
  unfolding workspace_only_def
  by (rule effect_move [OF session_move.kept])
    (simp_all add: validations_from_same, meson validation_frame)

lemma effect_validations:
  "dd_sessions db' = dd_sessions db \<Longrightarrow> dd_events db' = dd_events db \<Longrightarrow> dd_workspaces db' = dd_workspaces db \<Longrightarrow>
    (validation_inv db \<Longrightarrow> validation_inv db') \<Longrightarrow> validations_from db db' \<Longrightarrow> dev_effect db db'"
  by (rule effect_move [OF session_move.kept]) (simp_all, meson workspace_frame)

section \<open>Effects of the operations\<close>

lemma create_effect: "create_session w owner key metadata status sid now db = Inr (x, db') \<Longrightarrow> dev_effect db db'"
  by (rule effect_framed [OF create_move])
    (auto simp: create_session_def insert_session_def replay_session_def split: if_splits option.splits)

lemma sync_effect:
  assumes "session_inv db" and run: "sync_from_workspace sid expected w et status patch now db = Inr (u, db')"
  shows "dev_effect db db'"
proof -
  from run obtain r s m where r: "require_session sid expected True db = Inr r"
    and w: "write_session sid expected (sync_fields w s m now) et (ss_status r) (JObj patch) now db = Inr (u, db')"
    by (auto simp: sync_from_workspace_def Let_def split: sum.splits if_splits)
  from write_session_effect [OF assms(1) w require_sessionD(1) [OF r]] require_sessionD(3) [OF r]
  show ?thesis by (intro effect_framed) simp_all
qed

lemma append_recovery_effect:
  "append_recovery_event sid expected et data now db = Inr (r, db') \<Longrightarrow> dev_effect db db'"
  by (rule effect_framed [OF append_recovery_move])
    (auto simp: append_recovery_event_def split: if_splits sum.splits)

lemma auto_renew_effect:
  assumes "session_inv db"
    and "auto_renew_session_workspace_lease sid expected wid n seconds data now db = Inr ((u, audit), db')"
  shows "dev_effect db db'"
proof -
  from assms(2) have "workspace_inv db \<Longrightarrow> workspace_inv db'"
  proof (cases rule: renew_cases)
    case (1 r w db1)
    note D = update_workspaceD [OF 1(4)]
    from write_session_effect(5) [OF session_inv_frame [OF assms(1) D(1,2)] 1(6)] 1(1) D(1)
    have "dd_workspaces db' = dd_workspaces db1" by (simp add: session_terminal_def)
    with update_workspace_inv [OF 1(4) renew_fields_kept] show "workspace_inv db \<Longrightarrow> workspace_inv db'"
      by (meson workspace_frame)
  qed
  with renew_effect [OF assms] show ?thesis by (meson effect_move validation_frame validations_from_same)
qed

lemma finalize_dev_effect:
  assumes "session_inv db" and "finalize_merged_session_workspace sid expected wid n evidence now db = Inr ((u, w'), db')"
  shows "dev_effect db db'"
proof -
  from assms(2) have "workspace_inv db \<Longrightarrow> workspace_inv db'"
  proof (cases rule: finalize_cases)
    case (1 r w p db1)
    note D = update_workspaceD [OF 1(5)]
    have t: "session_terminal r \<Longrightarrow> session_terminal (merged_fields p (n + 1) now r)"
      by (simp add: session_terminal_def session_terminal_states_def)
    from write_session_effect(5) [OF session_inv_frame [OF assms(1) D(1,2)] 1(6) _ _ t] 1(1) D(1)
    have "dd_workspaces db' = dd_workspaces db1" by simp
    with update_workspace_inv [OF 1(5) closed_fields_kept] show "workspace_inv db \<Longrightarrow> workspace_inv db'"
      by (meson workspace_frame)
  qed
  with finalize_effect [OF assms] show ?thesis by (meson effect_move validation_frame validations_from_same)
qed

lemma record_effect:
  assumes "record_validation sid revision mode commit tree ra job status eligible att evidence finish now db = Inr (i, db')"
  shows "dev_effect db db'"
  using assms
proof (cases rule: record_cases)
  case (inserted row)
  have "reached db' row"
    using inserted(2,3,6) require_sessionD(1,2) [OF inserted(7)] by (simp add: reached_def)
  with inserted show ?thesis by (intro effect_validations) (auto simp: validation_inv_def validations_from_def)
next
  case (merged v v' request payload)
  note f = merge_validation_fields [OF merged(3)]
  have "map va_id (dd_validations db') = map va_id (dd_validations db)"
    using f(1) by (simp add: merged(5) update_where_def)
  with merged(6) have "validation_inv db \<Longrightarrow> validation_inv db'"
    by (simp add: validation_inv_def merged(5))
  moreover have "validations_from db db'"
    using merged(1) f(2,5) by (auto simp: validations_from_def merged(5) set_update_where)
  ultimately show ?thesis using merged(5) by (intro effect_validations) auto
qed

lemma bind_dev_effect:
  assumes "bind_validation_request_worker sid expected n mode commit tree request job revision wrev allow ts now db =
    Inr (audit, db')"
  shows "dev_effect db db'"
proof -
  note E = bind_effect [OF assms]
  from E(3) obtain i f where f: "dd_validations db' = update_where (\<lambda>v. va_id v = i) f (dd_validations db)"
    "\<forall>v. va_id (f v) = va_id v \<and> va_session (f v) = va_session v \<and> va_revision (f v) = va_revision v"
    "request_unique (dd_validations db')" by blast
  then have "map va_id (dd_validations db') = map va_id (dd_validations db)" by (simp add: map_update_where)
  moreover have "length (dd_validations db') = length (dd_validations db)" by (simp add: f(1))
  ultimately have "validation_inv db \<Longrightarrow> validation_inv db'" using f(3) by (simp add: validation_inv_def)
  moreover have "validations_from db db'"
    unfolding validations_from_def f(1) using f(2) by (auto simp: set_update_where)
  ultimately show ?thesis using E(1,2) by (meson effect_move workspace_frame)
qed

lemma request_keys_update:
  assumes "\<And>v. va_session (f v) = va_session v" "\<And>v. va_request (f v) = va_request v"
  shows "request_keys (update_where P f rows) = request_keys rows"
  using assms by (induction rows) (auto simp: request_keys_def)

lemma settle_pairD:
  assumes "settle_pair pair tree now decorated rows = Inr (ids, rows')"
  defines "request \<equiv> fst pair" and "job \<equiv> fst (snd pair)" and "status \<equiv> snd (snd pair)"
  defines "candidates \<equiv> filter (\<lambda>v. validation_request_id v = request) decorated"
  defines "rows1 \<equiv> update_where (\<lambda>v. va_id v = va_id (canonical_row request candidates)) (settled_row pair tree now) rows"
  shows "candidates \<noteq> []" "request_unique rows1"
    "rows' = update_where (\<lambda>v. va_id v \<in> set (duplicate_ids request candidates)) (settled_duplicate status now) rows1"
    "ids = (va_id (canonical_row request candidates), duplicate_ids request candidates)"
    "\<And>v. v \<in> set candidates \<Longrightarrow> job_of v \<in> {[], job}"
    "\<And>v. v \<in> set candidates \<Longrightarrow> va_status v \<in> set settled_statuses \<Longrightarrow> va_status v = status"
  using assms(1) unfolding candidates_def rows1_def request_def job_def status_def
  by (auto simp: settle_pair_def Let_def list_ex_iff split: prod.splits if_splits)

lemma settled_fixed [simp]:
  "va_id (settled_row p tree now v) = va_id v" "va_id (settled_duplicate s now v) = va_id v"
  "va_session (settled_row p tree now v) = va_session v" "va_session (settled_duplicate s now v) = va_session v"
  "va_revision (settled_row p tree now v) = va_revision v" "va_revision (settled_duplicate s now v) = va_revision v"
  "va_request (settled_duplicate s now v) = va_request v"
  "\<not> va_merge_eligible (settled_row p tree now v)" "\<not> va_merge_eligible (settled_duplicate s now v)"
  by (simp_all add: settled_row_def settled_duplicate_def split: prod.splits)

lemma settle_pair_keeps:
  assumes "settle_pair pair tree now decorated rows = Inr (ids, rows')"
  shows "map va_id rows' = map va_id rows" "request_unique rows'" "map va_session rows' = map va_session rows"
    "map va_revision rows' = map va_revision rows"
  using settle_pairD(2,3) [OF assms] by (simp_all add: map_update_where request_unique_def request_keys_update)

lemma settle_pairs_keeps:
  "settle_pairs pairs tree now decorated rows = Inr (ids, rows') \<Longrightarrow>
    map va_id rows' = map va_id rows \<and> (request_unique rows \<longrightarrow> request_unique rows') \<and>
    map va_session rows' = map va_session rows \<and> map va_revision rows' = map va_revision rows"
proof (induction pairs arbitrary: rows ids)
  case (Cons p pairs)
  then obtain i rows1 others where s: "settle_pair p tree now decorated rows = Inr (i, rows1)"
    "settle_pairs pairs tree now decorated rows1 = Inr (others, rows')" by (auto split: sum.splits)
  from Cons.IH [OF s(2)] settle_pair_keeps [OF s(1)] show ?case by simp
qed simp

lemma reconcile_rows:
  assumes "session_inv db" and run: "reconcile_terminal_validation_set sid expected n mode commit tree pairs revision
    wrev allow now db = Inr ((u, audit), db')"
  obtains ids r where "settle_pairs (sort_key fst pairs) tree now
      (latest_first (\<lambda>v. va_session v = sid \<and> va_revision v = revision) (dd_validations db)) (dd_validations db) =
      Inr (ids, dd_validations db')" "correlation_set_ok mode pairs"
    "generation_rows_ok mode commit tree pairs
       (latest_first (\<lambda>v. va_session v = sid \<and> va_revision v = revision) (dd_validations db))"
    "row_of ss_id sid (dd_sessions db) = Some r" "u = next_row (settled_fields mode now) r"
  using run
proof (cases rule: reconcile_cases)
  case (1 r drift g ids rows)
  have i: "session_inv (db\<lparr>dd_validations := rows\<rparr>)" by (rule session_inv_frame [OF assms(1)]) simp_all
  note D = settlement_scopeD [OF 1(2)]
  from write_session_effect(3,6) [OF i 1(7)] D(1) validating_not_terminal [OF D(3)]
  have v: "dd_validations db' = rows" and u: "u = next_row (settled_fields mode now) r" by simp_all
  from that [OF 1(5) [folded v] 1(1,4) D(1) u] show ?thesis .
qed

lemma reconcile_effect:
  assumes "session_inv db" and run: "reconcile_terminal_validation_set sid expected n mode commit tree pairs revision
    wrev allow now db = Inr ((u, audit), db')"
  shows "dev_effect db db'"
  using assms
proof (rule reconcile_rows)
  fix ids r
  assume "settle_pairs (sort_key fst pairs) tree now
      (latest_first (\<lambda>v. va_session v = sid \<and> va_revision v = revision) (dd_validations db)) (dd_validations db) =
      Inr (ids, dd_validations db')"
  note k = settle_pairs_keeps [OF this]
  then have len: "length (dd_validations db') = length (dd_validations db)" by (metis length_map)
  from k len have "validation_inv db \<Longrightarrow> validation_inv db'" by (simp add: validation_inv_def)
  moreover have "validations_from db db'"
    unfolding validations_from_def
  proof
    fix v' assume "v' \<in> set (dd_validations db')"
    then obtain i where i: "i < length (dd_validations db)" "v' = dd_validations db' ! i" by (auto simp: in_set_conv_nth len)
    from k i(1) len have "va_session (dd_validations db ! i) = va_session v' \<and> va_revision (dd_validations db ! i) = va_revision v'"
      unfolding i(2) by (metis nth_map)
    with i(1) show "reached db' v' \<or>
        (\<exists>v \<in> set (dd_validations db). va_session v = va_session v' \<and> va_revision v = va_revision v')" by (meson nth_mem)
  qed
  ultimately show ?thesis using reconcile_move [OF assms] by (meson effect_move workspace_frame)
qed

lemma refuse_effect: "refuse_recovery r w key et code e details now db = (x, db') \<Longrightarrow> dev_effect db db'"
  by (auto simp: refuse_recovery_def Let_def intro: append_recovery_effect split: sum.splits prod.splits)

lemma recover_git_effect:
  assumes "session_inv db" and "recover_stale_session G ready ix sid expected n head key now db = (x, db')"
  shows "dev_effect db db'"
proof -
  have rec: "dev_effect db db'" if
    "recover_stale_session_from_workspace sid expected w key i ev now db = Inr (y, db')" for w i ev y
    using recover_effect [OF assms(1) that] by (intro effect_framed) simp_all
  show ?thesis
    using assms(2)
    by (auto simp: recover_stale_session_def Let_def intro: refuse_effect rec
        split: sum.splits option.splits if_splits prod.splits)
qed

lemma effect_inv: "dev_effect db db' \<Longrightarrow> session_inv db \<Longrightarrow> session_inv db'"
  by (auto simp: dev_effect_def dest: session_moves.steps_inv)

lemma renew_managed_effect:
  assumes inv: "session_inv db" and run: "renew_managed G ready ix r w expected seconds now db = (x, db')"
  shows "dev_effect db db'"
proof -
  obtain repaired db1 where split: "(repaired, db1) =
      (if ss_workspace_revision r \<noteq> expected \<or> \<bar>ss_lease_expires r - ws_lease_expires w\<bar> > 1 / 1000
       then (let (x, db1) = recover_stale_session G ready ix (ss_id r) (int (ss_revision r)) expected
               (ws_head w) (reconcile_key r w expected) now db in (map_sum id sr_session x, db1))
       else (Inr r, db))" by (metis prod.exhaust)
  have e1: "dev_effect db db1"
  proof (cases "ss_workspace_revision r \<noteq> expected \<or> \<bar>ss_lease_expires r - ws_lease_expires w\<bar> > 1 / 1000")
    case True
    obtain y db2 where y: "recover_stale_session G ready ix (ss_id r) (int (ss_revision r)) expected
        (ws_head w) (reconcile_key r w expected) now db = (y, db2)" by (metis prod.exhaust)
    with split True have "db1 = db2" by simp
    with recover_git_effect [OF inv y] show ?thesis by simp
  qed (use split in simp)
  have renew: "dev_effect db1 db2" if
    "auto_renew_session_workspace_lease sid n wid m s d now db1 = Inr (y, db2)" for sid n wid m s d y db2
    using auto_renew_effect [OF effect_inv [OF e1 inv]] that by (cases y) blast
  from run [unfolded renew_managed_def Let_def, folded split [unfolded Let_def]]
  have "db' = db \<or> db' = db1 \<or> dev_effect db1 db'"
    by (auto split: if_splits sum.splits intro: renew)
  with e1 show ?thesis by (auto intro: effect_trans)
qed

lemma renew_lease_effect:
  assumes "session_inv db" and "renew_workspace_lease G ready ix wid expected seconds now db = (x, db')"
  shows "dev_effect db db'"
proof -
  from assms(2) consider "db' = db" | r w where "renew_managed G ready ix r w expected seconds now db = (x, db')"
    | w where "write_workspace wid expected SessionIntegrity (\<lambda>w. w\<lparr>ws_lease_expires :=
        now + of_int (bounded_lease seconds), ws_updated_at := now\<rparr>) db = Inr (w, db')"
    by (auto simp: renew_workspace_lease_def Let_def split: sum.splits option.splits if_splits)
  then show ?thesis
  proof cases
    case 3
    show ?thesis by (rule effect_workspace [OF write_workspace_only [OF 3]]) simp
  qed (use renew_managed_effect [OF assms(1)] in auto)
qed

end
