(* ===== verification/Session_Runs.thy ===== *)
theory Session_Runs
  imports Session_Store
begin

text \<open>
  Runs of the development store, the contracts it provides, and what holds at every moment of a run.
\<close>

section \<open>The step relation\<close>

text \<open>
  The operations of the two stores and of \<open>recover_stale_session\<close>.  The recoveries from drift, from a
  moved base, from a changed target and of workspaces without a session (\<open>development_drift_recovery.py\<close>,
  \<open>development_base_sync_recovery.py\<close>, \<open>development_retarget_recovery.py\<close>,
  \<open>development_sessionless_recovery.py\<close>) change rows of both tables with statements of their own;
  they are not steps of this relation, so what is proved for its runs is proved of runs without them.
\<close>

inductive dev_step :: "dev_db \<Rightarrow> dev_db \<Rightarrow> bool" where
  create: "create_session w owner key metadata status sid now db = Inr (x, db') \<Longrightarrow> dev_step db db'"
| sync: "sync_from_workspace sid expected w et status patch now db = Inr (u, db') \<Longrightarrow> dev_step db db'"
| note_recovery: "append_recovery_event sid expected et data now db = Inr (r, db') \<Longrightarrow> dev_step db db'"
| transition: "transition_session sid expected s et allowed kvs now db = Inr (u, db') \<Longrightarrow> dev_step db db'"
| recover: "recover_stale_session_from_workspace sid expected w key index evidence now db = Inr (y, db') \<Longrightarrow> dev_step db db'"
| recover_git: "recover_stale_session G ready ix sid expected n head key now db = (z, db') \<Longrightarrow> dev_step db db'"
| auto_renew: "auto_renew_session_workspace_lease sid expected wid n seconds data now db = Inr (p, db') \<Longrightarrow> dev_step db db'"
| finalize: "finalize_merged_session_workspace sid expected wid n evidence now db = Inr (q, db') \<Longrightarrow> dev_step db db'"
| recover_all: "recover_sessions getter now db = (c, db') \<Longrightarrow> dev_step db db'"
| record_run: "record_validation sid revision mode commit tree ra job status eligible att ev finish now db = Inr (i, db') \<Longrightarrow>
    dev_step db db'"
| bind: "bind_validation_request_worker sid expected n mode commit tree request job revision wrev allow ts now db =
    Inr (audit, db') \<Longrightarrow> dev_step db db'"
| reconcile: "reconcile_terminal_validation_set sid expected n mode commit tree pairs revision wrev allow now db =
    Inr (v, db') \<Longrightarrow> dev_step db db'"
| take_branch: "insert_workspace w now db = (a, db') \<Longrightarrow> dev_step db db'"
| resume: "resume_workspace G wid expected seconds now db = Inr (w, db') \<Longrightarrow> dev_step db db'"
| refresh: "refresh_workspace G wid expected now db = Inr (w, db') \<Longrightarrow> dev_step db db'"
| close: "close_workspace wid expected now db1 db = Inr (w, db') \<Longrightarrow> dev_step db db'"
| declare_scope: "declare_workspace_scope wid expected paths b1 b2 b3 b4 b5 ex now db = Inr (w, db') \<Longrightarrow> dev_step db db'"
| complete_write: "workspace_write_complete wid expected head tree verification now db = Inr (w, db') \<Longrightarrow> dev_step db db'"
| renew_lease: "renew_workspace_lease G ready ix wid expected seconds now db = (o1, db') \<Longrightarrow> dev_step db db'"

lemma step_effect:
  assumes "dev_step db db'" and inv: "session_inv db"
  shows "dev_effect db db'"
  using assms(1)
proof cases
  case (auto_renew sid expected wid n seconds data now p)
  then show ?thesis by (cases p) (simp add: auto_renew_effect [OF inv])
next
  case (finalize sid expected wid n evidence now q)
  then show ?thesis by (cases q) (simp add: finalize_dev_effect [OF inv])
next
  case (reconcile sid expected n mode commit tree pairs revision wrev allow now v)
  then show ?thesis by (cases v) (simp add: reconcile_effect [OF inv])
next
  case (transition sid expected s et allowed kvs now u)
  from session_transition_effect [OF inv transition] show ?thesis by (rule effect_framed)
next
  case (recover sid expected w key index evidence now y)
  with recover_effect [OF inv recover] show ?thesis by (meson effect_framed)
next
  case (recover_all getter now c)
  with recover_sessions_effect [OF inv recover_all] show ?thesis
    unfolding dev_effect_def by (meson validation_frame workspace_frame validations_from_same)
qed (auto intro: create_effect sync_effect [OF inv] append_recovery_effect recover_git_effect [OF inv] record_effect
    bind_dev_effect effect_workspace insert_only resume_only refresh_only close_only scope_only complete_only
    renew_lease_effect [OF inv])

definition dev_inv :: "dev_db \<Rightarrow> bool" where
  "dev_inv db \<longleftrightarrow> session_inv db \<and> workspace_inv db \<and> validation_inv db \<and>
     (\<forall>v \<in> set (dd_validations db). reached db v)"

lemma dev_step_inv:
  assumes "dev_step db db'" and "dev_inv db"
  shows "dev_inv db'"
proof -
  have e: "dev_effect db db'" using assms step_effect by (simp add: dev_inv_def)
  have "reached db' v" if "v \<in> set (dd_validations db')" for v
    using e that assms(2) reached_moves [of db db'] reached_cong [of db']
    unfolding dev_effect_def validations_from_def dev_inv_def by metis
  with e effect_inv [OF e] assms(2) show ?thesis by (simp add: dev_inv_def dev_effect_def)
qed

interpretation development: step_invariant dev_step dev_inv
  by unfold_locales (rule dev_step_inv)

definition empty_dev_db :: dev_db where
  "empty_dev_db = \<lparr>dd_workspaces = [], dd_sessions = [], dd_events = [], dd_validations = []\<rparr>"

definition dev_reachable :: "dev_db \<Rightarrow> bool" where
  "dev_reachable db \<longleftrightarrow> dev_step\<^sup>*\<^sup>* empty_dev_db db"

lemma empty_dev_inv: "dev_inv empty_dev_db"
  by (simp add: dev_inv_def session_inv_def workspace_inv_def validation_inv_def empty_dev_db_def session_keys_def
      one_active_def branch_unique_def request_unique_def request_keys_def)

lemma dev_reachable_inv: "dev_reachable db \<Longrightarrow> dev_inv db"
  unfolding dev_reachable_def by (erule development.steps_inv) (rule empty_dev_inv)

section \<open>Writers\<close>

text \<open>The operations that take a session to its next revision, as the callers see them.\<close>

datatype session_op =
    OpSync string int workspace string "string option" "(string \<times> json) list" time
  | OpTransition string int string string "string list option" "(string \<times> json) list" time
  | OpRecover string int workspace string "string option" json time
  | OpRenew string int string int int "(string \<times> json) list" time
  | OpFinalize string int string int "(string \<times> json) list" time
  | OpReconcile string int int string string string "correlation list" int int bool time

fun run_session_op :: "session_op \<Rightarrow> dev_db \<Rightarrow> session_error + dev_session \<times> dev_db" where
  "run_session_op (OpSync sid n w et st patch now) db = sync_from_workspace sid n w et st patch now db"
| "run_session_op (OpTransition sid n st et allowed kvs now) db = transition_session sid n st et allowed kvs now db"
| "run_session_op (OpRecover sid n w key index ev now) db =
     map_sum id (\<lambda>(x, db'). (sr_session x, db')) (recover_stale_session_from_workspace sid n w key index ev now db)"
| "run_session_op (OpRenew sid n wid m seconds data now) db =
     map_sum id (\<lambda>((u, _), db'). (u, db')) (auto_renew_session_workspace_lease sid n wid m seconds data now db)"
| "run_session_op (OpFinalize sid n wid m ev now) db =
     map_sum id (\<lambda>((u, _), db'). (u, db')) (finalize_merged_session_workspace sid n wid m ev now db)"
| "run_session_op (OpReconcile sid n m mode commit tree pairs revision wrev allow now) db =
     map_sum id (\<lambda>((u, _), db'). (u, db'))
       (reconcile_terminal_validation_set sid n m mode commit tree pairs revision wrev allow now db)"

fun session_target :: "session_op \<Rightarrow> string" where
  "session_target (OpSync sid n w et st patch now) = sid"
| "session_target (OpTransition sid n st et allowed kvs now) = sid"
| "session_target (OpRecover sid n w key index ev now) = sid"
| "session_target (OpRenew sid n wid m seconds data now) = sid"
| "session_target (OpFinalize sid n wid m ev now) = sid"
| "session_target (OpReconcile sid n m mode commit tree pairs revision wrev allow now) = sid"

fun session_expected :: "session_op \<Rightarrow> int" where
  "session_expected (OpSync sid n w et st patch now) = n"
| "session_expected (OpTransition sid n st et allowed kvs now) = n"
| "session_expected (OpRecover sid n w key index ev now) = n"
| "session_expected (OpRenew sid n wid m seconds data now) = n"
| "session_expected (OpFinalize sid n wid m ev now) = n"
| "session_expected (OpReconcile sid n m mode commit tree pairs revision wrev allow now) = n"

lemma session_op_step: "run_session_op x db = Inr (u, db') \<Longrightarrow> dev_step db db'"
  by (cases x) (auto simp: map_sum_Inr intro: dev_step.intros)

text \<open>What each of them writes, from a store whose sessions are those of \<open>db\<close>.\<close>

lemma session_op_writes:
  assumes inv: "session_inv db" and run: "run_session_op x db = Inr (u, db')"
  shows "db' = db \<or> (\<exists>r f et data now db1. row_of ss_id (session_target x) (dd_sessions db) = Some r \<and>
    write_session (session_target x) (session_expected x) f et (ss_status r) data now db1 = Inr (u, db') \<and>
    dd_sessions db1 = dd_sessions db \<and> dd_events db1 = dd_events db \<and>
    (\<forall>x. session_fixed (f x) = session_fixed x) \<and> (session_terminal r \<longrightarrow> session_terminal (f r)))"
    (is "_ \<or> (\<exists>r f et data now db1. ?W r f et data now db1)")
proof (cases x)
  case (OpSync sid n w et st patch now)
  with run obtain r s m where r: "require_session sid n True db = Inr r"
    and w: "write_session sid n (sync_fields w s m now) et (ss_status r) (JObj patch) now db = Inr (u, db')"
    by (auto simp: sync_from_workspace_def Let_def split: sum.splits if_splits)
  with require_sessionD [OF r] have "?W r (sync_fields w s m now) et (JObj patch) now db" by (simp add: OpSync)
  then show ?thesis by blast
next
  case (OpTransition sid n st et allowed kvs now)
  with run obtain r where r: "require_session sid n (st \<notin> set session_terminal_states) db = Inr r"
    and w: "write_session sid n (transition_fields st kvs now) et (ss_status r) (JObj kvs) now db = Inr (u, db')"
    by (auto simp: transition_session_def split: sum.splits if_splits)
  with require_sessionD [OF r] have "?W r (transition_fields st kvs now) et (JObj kvs) now db"
    by (auto simp: OpTransition session_terminal_def)
  then show ?thesis by blast
next
  case (OpRecover sid n w key index ev now)
  with run obtain y where u: "u = sr_session y"
    and y: "recover_stale_session_from_workspace sid n w key index ev now db = Inr (y, db')" by (auto simp: map_sum_Inr)
  from y show ?thesis
  proof (cases rule: recover_cases)
    case (written r m audit)
    then have "?W r (recovery_fields w index m now) ''session_recovered'' audit now db" by (simp add: OpRecover u)
    then show ?thesis by blast
  qed simp
next
  case (OpRenew sid n wid m seconds data now)
  with run obtain a where "auto_renew_session_workspace_lease sid n wid m seconds data now db = Inr ((u, a), db')"
    by (auto simp: map_sum_Inr)
  then show ?thesis
  proof (cases rule: renew_cases)
    case (1 r w db1)
    then have "?W r (renewed_fields (m + 1) (now + of_int (bounded_lease seconds)) now)
        ''workspace_lease_auto_renewed'' a now db1"
      using update_workspaceD(1,2) [OF 1(4)] by (simp add: OpRenew session_terminal_def)
    then show ?thesis by blast
  qed
next
  case (OpFinalize sid n wid m ev now)
  with run obtain a where "finalize_merged_session_workspace sid n wid m ev now db = Inr ((u, a), db')"
    by (auto simp: map_sum_Inr)
  then show ?thesis
  proof (cases rule: finalize_cases)
    case (1 r w p db1)
    then have "?W r (merged_fields p (m + 1) now) ''pull_request_merged''
        (finalize_audit wid m p (ss_pull_number r = None) ev) now db1"
      using update_workspaceD(1,2) [OF 1(5)] by (simp add: OpFinalize session_terminal_def session_terminal_states_def)
    then show ?thesis by blast
  qed
next
  case (OpReconcile sid n m mode commit tree pairs revision wrev allow now)
  with run obtain a where
    "reconcile_terminal_validation_set sid n m mode commit tree pairs revision wrev allow now db = Inr ((u, a), db')"
    by (auto simp: map_sum_Inr)
  then show ?thesis
  proof (cases rule: reconcile_cases)
    case (1 r drift g ids rows)
    have "?W r (settled_fields mode now) ''validation_terminal_correlation_set_reconciled'' a now
        (db\<lparr>dd_validations := rows\<rparr>)"
      using 1(7) settlement_scopeD(1) [OF 1(2)] validating_not_terminal [OF settlement_scopeD(3) [OF 1(2)]]
      by (simp add: OpReconcile)
    then show ?thesis by blast
  qed
qed

lemma session_op_effect:
  assumes inv: "session_inv db" and run: "run_session_op x db = Inr (u, db')" and changed: "db' \<noteq> db"
  obtains r f where "row_of ss_id (session_target x) (dd_sessions db) = Some r" "int (ss_revision r) = session_expected x"
    "u = next_row f r" "session_fixed (f r) = session_fixed r" "session_terminal r \<Longrightarrow> session_terminal (f r)"
    "\<And>i. row_of ss_id i (dd_sessions db') =
      (if i = session_target x then Some (next_row f r) else row_of ss_id i (dd_sessions db))"
proof -
  let ?t = "session_target x"
  from session_op_writes [OF inv run] changed obtain r f et data now db1 where w: "row_of ss_id ?t (dd_sessions db) = Some r"
    "write_session ?t (session_expected x) f et (ss_status r) data now db1 = Inr (u, db')"
    "dd_sessions db1 = dd_sessions db" "dd_events db1 = dd_events db"
    "\<forall>x. session_fixed (f x) = session_fixed x" "session_terminal r \<longrightarrow> session_terminal (f r)" by blast
  note E = write_session_effect [OF session_inv_frame [OF inv w(3,4)] w(2)]
  from E(2-4) w have e: "int (ss_revision r) = session_expected x" "u = next_row f r"
    "dd_sessions db' = update_where (at_revision ?t (ss_revision r)) (next_row f) (dd_sessions db)" by simp_all
  have "row_of ss_id i (dd_sessions db') =
      (if i = ?t then Some (next_row f r) else row_of ss_id i (dd_sessions db))" for i
  proof -
    have *: "row_of ss_id i (dd_sessions db') = map_option (\<lambda>y. if at_revision ?t (ss_revision r) y then next_row f y else y)
        (row_of ss_id i (dd_sessions db))"
      unfolding e(3) by (rule row_of_update_where) (use w(5) next_row_id [of f] in simp)
    show ?thesis
    proof (cases "i = ?t")
      case True
      with * w(1) row_of_key [OF w(1)] show ?thesis by (simp add: at_revision_def)
    next
      case False
      with * show ?thesis
        by (cases "row_of ss_id i (dd_sessions db)") (auto simp: at_revision_def dest: row_of_key)
    qed
  qed
  with that w e show ?thesis by blast
qed

definition session_revision :: "dev_db \<Rightarrow> string \<Rightarrow> nat option" where
  "session_revision db i = map_option ss_revision (row_of ss_id i (dd_sessions db))"

interpretation session_cas: revision_cas session_revision run_session_op session_target session_expected dev_inv
proof
  fix db x u db'
  assume inv: "dev_inv db" and run: "run_session_op x db = Inr (u, db')"
  from session_op_step [OF run] inv show "dev_inv db'" by (rule dev_step_inv)
  from inv have si: "session_inv db" by (simp add: dev_inv_def)
  show "\<exists>n. session_revision db (session_target x) = Some n \<and> int n = session_expected x \<and>
      session_revision db' (session_target x) = Some (Suc n)" if "db' \<noteq> db"
    by (rule session_op_effect [OF si run that]) (simp add: session_revision_def)
  show "session_revision db' i = session_revision db i" if "i \<noteq> session_target x" for i
    by (cases "db' = db", simp, rule session_op_effect [OF si run]) (use that in \<open>simp_all add: session_revision_def\<close>)
qed

end
