(* ===== verification/Session_Evolution.thy ===== *)
theory Session_Evolution
  imports Session_Runs
begin

text \<open>
  What a session keeps over a run, what a settled generation looks like, and why maintenance of the
  lease does not lose a running validation.
\<close>

section \<open>A session over a run\<close>

lemma run_evolves:
  assumes "dev_step\<^sup>*\<^sup>* db db'" and "dev_inv db" and "row_of ss_id i (dd_sessions db) = Some r"
  shows "\<exists>r'. row_of ss_id i (dd_sessions db') = Some r' \<and> session_evolves r r'"
  using assms
proof (induction rule: rtranclp_induct)
  case (step a b)
  then obtain ra where ra: "row_of ss_id i (dd_sessions a) = Some ra" "session_evolves r ra" by blast
  from development.steps_inv [OF step.hyps(1) step.prems(1)] have "session_inv a" by (simp add: dev_inv_def)
  from step_effect [OF step.hyps(2) this] have "session_move\<^sup>*\<^sup>* a b" by (simp add: dev_effect_def)
  from moves_evolve [OF this ra(1)] ra(2) show ?case by (meson evolves_trans)
qed auto

section \<open>Settled generations\<close>

definition settled :: "validation \<Rightarrow> bool" where
  "settled v \<longleftrightarrow> va_status v \<in> set settled_statuses \<and> \<not> va_merge_eligible v \<and> va_attestation v = None \<and>
     va_finished_at v \<noteq> None"

lemma coalesce_Some: "\<exists>y. coalesce c (Some x) = Some y"
  by (cases c) simp_all

lemma settled_row_settled:
  "snd (snd p) \<in> set settled_statuses \<Longrightarrow> settled (settled_row p tree now v)"
  "s \<in> set settled_statuses \<Longrightarrow> settled (settled_duplicate s now v)"
  by (auto simp: settled_def settled_row_def settled_duplicate_def coalesce_Some split: prod.splits)

text \<open>A table after a settlement: every row is settled or as it was.\<close>

definition settles :: "nat set \<Rightarrow> validation list \<Rightarrow> validation list \<Rightarrow> bool" where
  "settles I rows rows' \<longleftrightarrow> list_all2 (\<lambda>v v'. va_id v' = va_id v \<and> va_session v' = va_session v \<and>
     va_revision v' = va_revision v \<and> (if va_id v \<in> I then settled v' else v' = v)) rows rows'"

lemma settles_empty [simp]: "settles {} rows rows' \<longleftrightarrow> rows' = rows"
  by (auto simp: settles_def list_all2_conv_all_nth intro: nth_equalityI)

lemma settles_trans:
  assumes "settles I a b" and "settles J b c"
  shows "settles (I \<union> J) a c"
  unfolding settles_def
proof (rule list_all2_trans [OF _ assms [unfolded settles_def]])
qed (auto split: if_splits)

lemma settles_update:
  assumes "\<And>v. va_id (f v) = va_id v \<and> va_session (f v) = va_session v \<and> va_revision (f v) = va_revision v \<and> settled (f v)"
  shows "settles I rows (update_where (\<lambda>v. va_id v \<in> I) f rows)"
  unfolding settles_def update_where_def by (rule list_all2_all_nthI) (use assms in auto)

text \<open>The ids of the rows of a request in the generation.\<close>

definition owned_ids :: "string \<Rightarrow> validation list \<Rightarrow> nat set" where
  "owned_ids request rows = va_id ` {v \<in> set rows. validation_request_id v = request}"

lemma canonical_mem: "candidates \<noteq> [] \<Longrightarrow> canonical_row request candidates \<in> set candidates"
proof -
  assume ne: "candidates \<noteq> []"
  show ?thesis
  proof (cases "filter (\<lambda>v. or_blank (va_request v) = request) candidates")
    case Nil
    with ne show ?thesis by (simp add: canonical_row_def)
  next
    case (Cons v vs)
    then have "v \<in> set candidates" by (metis filter_is_subset list.set_intros(1) subsetD)
    with Cons show ?thesis by (simp add: canonical_row_def)
  qed
qed

lemma settle_pair_settles:
  assumes "settle_pair pair tree now decorated rows = Inr (ids, rows')" and "snd (snd pair) \<in> set settled_statuses"
  shows "settles (owned_ids (fst pair) decorated) rows rows'"
proof -
  note D = settle_pairD [OF assms(1)]
  let ?cs = "filter (\<lambda>v. validation_request_id v = fst pair) decorated"
  let ?c = "va_id (canonical_row (fst pair) ?cs)"
  have "settles {?c} rows (update_where (\<lambda>v. va_id v \<in> {?c}) (settled_row pair tree now) rows)"
    by (rule settles_update) (simp add: settled_row_settled(1) [OF assms(2)])
  from settles_trans [OF this settles_update [of "settled_duplicate (snd (snd pair)) now" "set (duplicate_ids (fst pair) ?cs)"]]
  have "settles ({?c} \<union> set (duplicate_ids (fst pair) ?cs)) rows rows'"
    unfolding D(3) by (simp add: settled_row_settled(2) [OF assms(2)])
  moreover have "{?c} \<union> set (duplicate_ids (fst pair) ?cs) = owned_ids (fst pair) decorated"
    using canonical_mem [OF D(1), of "fst pair"] by (auto simp: duplicate_ids_def owned_ids_def)
  ultimately show ?thesis by simp
qed

lemma settle_pairs_settles:
  "settle_pairs pairs tree now decorated rows = Inr (ids, rows') \<Longrightarrow>
    \<forall>p \<in> set pairs. snd (snd p) \<in> set settled_statuses \<Longrightarrow>
    settles (\<Union>p \<in> set pairs. owned_ids (fst p) decorated) rows rows'"
proof (induction pairs arbitrary: rows ids)
  case (Cons p pairs)
  then obtain i rows1 others where s: "settle_pair p tree now decorated rows = Inr (i, rows1)"
    "settle_pairs pairs tree now decorated rows1 = Inr (others, rows')" by (auto split: sum.splits)
  from settle_pair_settles [OF s(1)] Cons.prems(2) have "settles (owned_ids (fst p) decorated) rows rows1" by simp
  from settles_trans [OF this Cons.IH [OF s(2)]] Cons.prems(2) show ?case by simp
qed simp

lemma settles_all:
  assumes "settles I rows rows'" and "v' \<in> set rows'" and "distinct (map va_id rows)"
  shows "(va_id v' \<in> I \<longrightarrow> settled v') \<and> (va_id v' \<notin> I \<longrightarrow> v' \<in> set rows) \<and>
    (\<exists>v \<in> set rows. va_id v = va_id v' \<and> va_session v = va_session v' \<and> va_revision v = va_revision v')"
proof -
  from assms(2) obtain k where k: "k < length rows'" "v' = rows' ! k" by (auto simp: in_set_conv_nth)
  with assms(1) have "k < length rows" and e: "va_id v' = va_id (rows ! k)" "va_session v' = va_session (rows ! k)"
    "va_revision v' = va_revision (rows ! k)" "if va_id (rows ! k) \<in> I then settled v' else v' = rows ! k"
    by (auto simp: settles_def list_all2_conv_all_nth)
  then have "rows ! k \<in> set rows" by simp
  with e show ?thesis by (auto split: if_splits)
qed

section \<open>Maintenance and the generation\<close>

lemma chain_ignores:
  assumes "\<And>e. e \<in> set extra \<Longrightarrow> se_revision e \<notin> set ns"
  shows "maintenance_chain phase commit tree (events @ extra) ns w = maintenance_chain phase commit tree events ns w"
  using assms
proof (induction ns arbitrary: w)
  case (Cons n ns)
  have "filter (\<lambda>e. se_revision e = n) (events @ extra) = filter (\<lambda>e. se_revision e = n) events"
    using Cons.prems by (auto intro!: filter_False)
  then have "maintenance_step phase commit tree (events @ extra) n v = maintenance_step phase commit tree events n v" for v
    unfolding maintenance_step_def Let_def by (simp only:)
  with Cons show ?case by (auto split: sum.splits)
qed simp

lemma step_local:
  assumes "filter (\<lambda>e. se_revision e = n) es = filter (\<lambda>e. se_revision e = n) es'"
  shows "maintenance_step phase commit tree es n w = maintenance_step phase commit tree es' n w"
  unfolding maintenance_step_def Let_def assms ..

lemma events_sorted: "session_inv db \<Longrightarrow> sort_key se_id (filter P (dd_events db)) = filter P (dd_events db)"
proof -
  assume "session_inv db"
  then have "sorted (map se_id (dd_events db))" by (simp add: session_invD(6) del: upt_Suc)
  then have "sorted (map se_id (filter P (dd_events db)))" by (rule sorted_filter)
  then show ?thesis by (rule sort_key_id_if_sorted)
qed

lemma revisions_cover: "sort (remdups xs) = [a..<b] \<longleftrightarrow> set xs = {a..<b}" for xs :: "nat list"
proof -
  have "sort (remdups xs) = sorted_list_of_set (set xs)" by (simp add: sorted_list_of_set_sort_remdups)
  moreover have "[a..<b] = sorted_list_of_set {a..<b}" by simp
  ultimately show ?thesis by (metis List.finite_set finite_atLeastLessThan sorted_list_of_set_inject)
qed

text \<open>The events a context reads are those of the session.\<close>

lemma context_events:
  assumes "session_inv db" and "row_of ss_id (ss_id r) (dd_sessions db) = Some r"
  shows "sort_key se_id (filter (\<lambda>e. se_session e = ss_id r \<and> se_revision e \<le> ss_revision r) (dd_events db)) =
    session_log (ss_id r) db"
  using history_bounds [OF session_invD(4) [OF assms]] unfolding events_sorted [OF assms(1)]
  by (auto simp: session_log_def intro!: filter_cong)

definition later_events :: "nat \<Rightarrow> session_event list \<Rightarrow> session_event list" where
  "later_events start events = filter (\<lambda>e. start < se_revision e) events"

text \<open>A context, without the filters that the invariant makes idle.\<close>

definition generation_from ::
  "dev_session \<Rightarrow> string \<Rightarrow> string \<Rightarrow> string \<Rightarrow> session_event list \<Rightarrow> nat \<Rightarrow> string \<Rightarrow> generation \<Rightarrow> bool" where
  "generation_from r mode commit tree events start source g \<longleftrightarrow>
     se_revision ` set (later_events start events) = {start + 1 ..< ss_revision r + 1} \<and>
     maintenance_chain (validating_status mode) commit tree (later_events start events)
       (rev [start + 1 ..< ss_revision r + 1]) (ss_workspace_revision r) =
       Inr (gn_maintenance g, gn_workspace_revision g) \<and>
     g = \<lparr>gn_revision = start, gn_workspace_revision = gn_workspace_revision g, gn_current = ss_revision r,
       gn_current_workspace = ss_workspace_revision r, gn_source = source, gn_maintenance = gn_maintenance g\<rparr>"

definition in_phase :: "dev_session \<Rightarrow> string \<Rightarrow> string \<Rightarrow> string \<Rightarrow> bool" where
  "in_phase r mode commit tree \<longleftrightarrow> mode \<in> {''fast'', ''full''} \<and> ss_status r = validating_status mode \<and>
     ss_head r = commit \<and> ss_tree r = tree"

lemma generation_context_iff:
  assumes inv: "session_inv db" and row: "row_of ss_id (ss_id r) (dd_sessions db) = Some r"
    and reach: "\<forall>v \<in> set (dd_validations db). va_session v = ss_id r \<longrightarrow> va_revision v \<le> int (ss_revision r)"
  shows "generation_context r mode commit tree db = Inr g \<longleftrightarrow> in_phase r mode commit tree \<and>
    (\<exists>start source. generation_anchor r mode commit tree (session_log (ss_id r) db) (dd_validations db) = Inr (start, source) \<and>
      (\<forall>v \<in> set (dd_validations db). va_session v = ss_id r \<longrightarrow> va_revision v \<le> int start) \<and>
      generation_from r mode commit tree (session_log (ss_id r) db) start source g)"
proof -
  let ?log = "session_log (ss_id r) db"
  have later: "filter (\<lambda>e. start < se_revision e \<and> se_revision e \<le> ss_revision r) ?log = later_events start ?log" for start
    using history_bounds [OF session_invD(4) [OF inv row]] by (auto simp: later_events_def intro!: filter_cong)
  have none: "list_ex (\<lambda>v. va_session v = ss_id r \<and> va_revision v > int start \<and> va_revision v \<le> int (ss_revision r))
      (dd_validations db) \<longleftrightarrow> \<not> (\<forall>v \<in> set (dd_validations db). va_session v = ss_id r \<longrightarrow> va_revision v \<le> int start)" for start
    using reach by (auto simp: list_ex_iff not_le)
  show ?thesis
  proof (cases "generation_anchor r mode commit tree ?log (dd_validations db)")
    case (Inl e)
    show ?thesis
      unfolding generation_context_def Let_def context_events [OF inv row] Inl sum.case by simp
  next
    case (Inr p)
    obtain start source where p: "p = (start, source)" by (cases p)
    show ?thesis
      unfolding generation_context_def Let_def context_events [OF inv row] Inr p sum.case prod.case later none
        revisions_cover in_phase_def generation_from_def set_map
      by (cases g) (auto split: sum.splits)
  qed
qed

text \<open>One more maintenance event: the anchor stays and the chain gets one more link.\<close>

lemma anchor_extends:
  assumes "generation_anchor r mode commit tree es rows = Inr (start, ''validation_started_event'')"
    and "ss_revision u \<ge> ss_revision r" and "se_type e \<noteq> ''validation_started''"
  shows "generation_anchor u mode commit tree (es @ [e]) rows = Inr (start, ''validation_started_event'')"
  using assms by (auto simp: generation_anchor_def split: list.splits if_splits)

lemma anchor_bound: "generation_anchor r mode commit tree es rows = Inr (start, source) \<Longrightarrow> start \<le> ss_revision r"
  by (auto simp: generation_anchor_def split: list.splits if_splits)

lemma from_extends:
  assumes g: "generation_from r mode commit tree es start source g" and start: "start \<le> ss_revision r"
    and u: "ss_revision u = Suc (ss_revision r)" and e: "se_revision e = Suc (ss_revision r)"
    and m: "maintenance_step (validating_status mode) commit tree [e] (Suc (ss_revision r)) (ss_workspace_revision u) = Inr m"
      "mt_before m = ss_workspace_revision r"
  shows "generation_from u mode commit tree (es @ [e]) start source
    (g\<lparr>gn_current := Suc (ss_revision r), gn_current_workspace := ss_workspace_revision u,
       gn_maintenance := gn_maintenance g @ [m]\<rparr>)"
proof -
  let ?later = "later_events start es" and ?n = "ss_revision r"
  from g have revs: "se_revision ` set ?later = {start + 1 ..< ?n + 1}" and
    chain: "maintenance_chain (validating_status mode) commit tree ?later (rev [start + 1 ..< ?n + 1])
      (ss_workspace_revision r) = Inr (gn_maintenance g, gn_workspace_revision g)" and
    shape: "g = \<lparr>gn_revision = start, gn_workspace_revision = gn_workspace_revision g, gn_current = ?n,
       gn_current_workspace = ss_workspace_revision r, gn_source = source, gn_maintenance = gn_maintenance g\<rparr>"
    unfolding generation_from_def by blast+
  have later: "later_events start (es @ [e]) = ?later @ [e]" using e start by (simp add: later_events_def)
  have "filter (\<lambda>x. se_revision x = Suc ?n) ?later = []"
    using revs by (auto simp: filter_empty_conv image_iff set_eq_iff) (metis less_irrefl)
  then have "filter (\<lambda>x. se_revision x = Suc ?n) (?later @ [e]) = filter (\<lambda>x. se_revision x = Suc ?n) [e]"
    using e by simp
  from step_local [OF this] m(1) have step: "maintenance_step (validating_status mode) commit tree (?later @ [e]) (Suc ?n)
      (ss_workspace_revision u) = Inr m" by simp
  have "maintenance_chain (validating_status mode) commit tree (?later @ [e]) (rev [start + 1 ..< ?n + 1]) (ss_workspace_revision r) =
      Inr (gn_maintenance g, gn_workspace_revision g)"
    unfolding chain [symmetric] by (rule chain_ignores) (simp add: e)
  with step m(2) have "maintenance_chain (validating_status mode) commit tree (?later @ [e]) (rev [start + 1 ..< Suc ?n + 1])
      (ss_workspace_revision u) = Inr (gn_maintenance g @ [m], gn_workspace_revision g)"
    using start by (simp add: upt_Suc_append)
  moreover have "se_revision ` set (?later @ [e]) = {start + 1 ..< Suc ?n + 1}"
    using revs e start by auto
  moreover from shape have "gn_revision g = start" "gn_source g = source"
    by (metis generation.select_convs(1), metis generation.select_convs(5))
  ultimately show ?thesis unfolding generation_from_def later u by (cases g) simp
qed

lemma generation_extends:
  assumes inv: "session_inv db" "session_inv db'" and row: "row_of ss_id (ss_id r) (dd_sessions db) = Some r"
    and row': "row_of ss_id (ss_id r) (dd_sessions db') = Some u"
    and reach: "\<forall>v \<in> set (dd_validations db). va_session v = ss_id r \<longrightarrow> va_revision v \<le> int (ss_revision r)"
    and u: "ss_revision u = Suc (ss_revision r)" "ss_status u = ss_status r" "ss_head u = ss_head r" "ss_tree u = ss_tree r"
    and log: "session_log (ss_id r) db' = session_log (ss_id r) db @ [e]" and rows: "dd_validations db' = dd_validations db"
    and e: "se_revision e = Suc (ss_revision r)" "se_type e \<noteq> ''validation_started''"
    and m: "maintenance_step (validating_status mode) commit tree [e] (Suc (ss_revision r)) (ss_workspace_revision u) = Inr m"
      "mt_before m = ss_workspace_revision r"
    and ctx: "generation_context r mode commit tree db = Inr g" "gn_source g = ''validation_started_event''"
  shows "generation_context u mode commit tree db' = Inr (g\<lparr>gn_current := Suc (ss_revision r),
    gn_current_workspace := ss_workspace_revision u, gn_maintenance := gn_maintenance g @ [m]\<rparr>)"
proof -
  from ctx(1) obtain start source where c: "in_phase r mode commit tree"
    "generation_anchor r mode commit tree (session_log (ss_id r) db) (dd_validations db) = Inr (start, source)"
    "\<forall>v \<in> set (dd_validations db). va_session v = ss_id r \<longrightarrow> va_revision v \<le> int start"
    "generation_from r mode commit tree (session_log (ss_id r) db) start source g"
    unfolding generation_context_iff [OF inv(1) row reach] by blast
  from c(4) have "gn_source g = source" unfolding generation_from_def by (metis generation.select_convs(5))
  with ctx(2) have source: "source = ''validation_started_event''" by simp
  have id: "ss_id u = ss_id r" using row' by (rule row_of_key)
  have reach': "\<forall>v \<in> set (dd_validations db'). va_session v = ss_id u \<longrightarrow> va_revision v \<le> int (ss_revision u)"
    using reach unfolding rows id u(1) by force
  from anchor_extends [OF c(2) [unfolded source], of u e] u(1) e(2)
  have a: "generation_anchor u mode commit tree (session_log (ss_id u) db') (dd_validations db') =
      Inr (start, ''validation_started_event'')" unfolding id log rows by simp
  from from_extends [OF c(4) anchor_bound [OF c(2)] u(1) e(1) m] have f: "generation_from u mode commit tree
      (session_log (ss_id u) db') start ''validation_started_event'' (g\<lparr>gn_current := Suc (ss_revision r),
        gn_current_workspace := ss_workspace_revision u, gn_maintenance := gn_maintenance g @ [m]\<rparr>)"
    unfolding id log source .
  have p: "in_phase u mode commit tree" using c(1) u by (simp add: in_phase_def)
  have v: "\<forall>v \<in> set (dd_validations db'). va_session v = ss_id u \<longrightarrow> va_revision v \<le> int start"
    using c(3) unfolding rows id .
  show ?thesis
    unfolding generation_context_iff [OF inv(2) row' [folded id] reach'] using p a v f by blast
qed

end
