(* ===== verification/Session_Outcomes.thy ===== *)
theory Session_Outcomes
  imports Session_Evolution
begin

text \<open>
  The outcome of single operations of the development store: the rows they leave, a renewal of the
  lease, records and settlements, recoveries and refreshes.
\<close>

section \<open>Rows after an operation\<close>

lemma reachable_session_inv: "dev_reachable db \<Longrightarrow> session_inv db"
  using dev_reachable_inv by (simp add: dev_inv_def)

lemma json_get_put: "json_get k (json_put k' v (JObj d)) = (if k = k' then Some v else json_get k (JObj d))"
  by (simp add: update_conv')

lemma merge_fields_simps [simp]:
  "merge_fields d [] = d" "merge_fields d ((k, v) # kvs) = merge_fields (json_put k v d) kvs"
  by (simp_all add: merge_fields_def)

lemma filter_unique_key:
  assumes "distinct (map k (filter Q xs))"
  shows "filter (\<lambda>x. k x = a \<and> Q x) xs = (case List.find (\<lambda>x. k x = a \<and> Q x) xs of None \<Rightarrow> [] | Some x \<Rightarrow> [x])"
  using assms
proof (induction xs)
  case (Cons x xs)
  show ?case
  proof (cases "k x = a \<and> Q x")
    case True
    with Cons.prems have "filter (\<lambda>x. k x = a \<and> Q x) xs = []" by (fastforce simp: filter_empty_conv image_iff)
    with True show ?thesis by simp
  next
    case False
    with Cons show ?thesis by (auto split: if_splits)
  qed
qed simp

lemma find_active_unique:
  assumes "one_active (dd_sessions db)"
  shows "find_active_session_for_workspace wid db =
    Inr (List.find (\<lambda>r. ss_workspace_id r = wid \<and> session_active r) (dd_sessions db))"
  unfolding find_active_session_for_workspace_def filter_unique_key [OF assms [unfolded one_active_def]]
  by (simp split: option.splits)

lemma workspace_after_update:
  assumes "update_workspace wid n P f db = Inr db1" and "distinct (map ws_id (dd_workspaces db))"
    and "row_of ws_id wid (dd_workspaces db) = Some w" and "\<And>w. ws_id (f w) = ws_id w"
  shows "row_of ws_id wid (dd_workspaces db1) = Some ((f w)\<lparr>ws_revision := ws_revision w + 1\<rparr>)"
    "ws_revision w = n" "j \<noteq> wid \<Longrightarrow> row_of ws_id j (dd_workspaces db1) = row_of ws_id j (dd_workspaces db)"
proof -
  note D = update_workspaceD [OF assms(1)]
  let ?Q = "\<lambda>w. ws_id w = wid \<and> ws_revision w = n \<and> ws_status w = ''active'' \<and> P w"
  have *: "row_of ws_id j (dd_workspaces db1) = map_option (\<lambda>w. if ?Q w then (f w)\<lparr>ws_revision := ws_revision w + 1\<rparr> else w)
      (row_of ws_id j (dd_workspaces db))" for j
    unfolding D(4) by (rule row_of_update_where) (simp add: assms(4))
  have "(case row_of ws_id wid (dd_workspaces db) of None \<Rightarrow> 0 | Some w \<Rightarrow>
      if ws_revision w = n \<and> ws_status w = ''active'' \<and> P w then 1 else 0) = (1 :: nat)"
    by (rule trans [OF row_count_key [OF assms(2), symmetric] D(5)])
  then have Q: "?Q w" using assms(3) row_of_key [OF assms(3)] by (simp split: if_splits)
  from Q show "ws_revision w = n" by simp
  from Q * [of wid] assms(3) show "row_of ws_id wid (dd_workspaces db1) = Some ((f w)\<lparr>ws_revision := ws_revision w + 1\<rparr>)"
    by simp
  show "row_of ws_id j (dd_workspaces db1) = row_of ws_id j (dd_workspaces db)" if "j \<noteq> wid"
    using * [of j] that row_of_key by (cases "row_of ws_id j (dd_workspaces db)") (auto dest: row_of_key)
qed

lemma session_after_write:
  assumes "session_inv db" and "row_of ss_id sid (dd_sessions db) = Some r" and "\<And>x. session_fixed (f x) = session_fixed x"
    and "dd_sessions db' = update_where (at_revision sid (ss_revision r)) (next_row f) (dd_sessions db)"
  shows "row_of ss_id i (dd_sessions db') = (if i = sid then Some (next_row f r) else row_of ss_id i (dd_sessions db))"
proof -
  have *: "row_of ss_id i (dd_sessions db') = map_option (\<lambda>y. if at_revision sid (ss_revision r) y then next_row f y else y)
      (row_of ss_id i (dd_sessions db))"
    unfolding assms(4) by (rule row_of_update_where) (rule next_row_id [OF assms(3)])
  show ?thesis
  proof (cases "i = sid")
    case True
    with * assms(2) row_of_key [OF assms(2)] show ?thesis by (simp add: at_revision_def)
  next
    case False
    with * show ?thesis
      by (cases "row_of ss_id i (dd_sessions db)") (auto simp: at_revision_def dest: row_of_key)
  qed
qed

section \<open>Renewals\<close>

lemma replay_recovery_session: "replay_recovery r w prior = Inr x \<Longrightarrow> sr_session x = r"
  by (auto simp: replay_recovery_def Let_def split: option.splits if_splits)

lemma recovered_session_id:
  assumes "session_inv db" and "recover_stale_session_from_workspace sid expected w key index evidence now db = Inr (x, db')"
  shows "ss_id (sr_session x) = sid"
proof -
  from assms(2) obtain r where row: "row_of ss_id sid (dd_sessions db) = Some r"
    and c: "sr_session x = r \<or> commit_recovery r expected w key index evidence now db = Inr (x, db')"
    by (auto simp: recover_stale_session_from_workspace_def session_row_iff map_sum_def
        split: sum.splits option.splits if_splits dest: replay_recovery_session)
  from c show ?thesis
  proof
    assume "commit_recovery r expected w key index evidence now db = Inr (x, db')"
    then obtain m audit where "write_session (ss_id r) expected (recovery_fields w index m now) ''session_recovered''
        (ss_status r) audit now db = Inr (sr_session x, db')"
      unfolding commit_recovery_def Let_def by (auto simp: map_sum_def split: sum.splits)
    from write_session_effect(3) [OF assms(1) this] row row_of_key [OF row]
    have "sr_session x = next_row (recovery_fields w index m now) r" by (simp add: session_terminal_def)
    with next_row_id [of "recovery_fields w index m now" r] row_of_key [OF row] show ?thesis by simp
  qed (use row_of_key [OF row] in simp)
qed

lemma recover_git_ok:
  assumes "session_inv db" and "recover_stale_session G ready ix sid expected n head key now db = (Inr x, db')"
  shows "session_inv db' \<and> dd_workspaces db' = dd_workspaces db \<and> ss_id (sr_session x) = sid"
proof -
  from assms(2) obtain w i ev where
    "recover_stale_session_from_workspace sid expected w key i ev now db = Inr (x, db')"
    by (auto simp: recover_stale_session_def refuse_recovery_def Let_def
        split: sum.splits option.splits if_splits prod.splits)
  with recover_effect [OF assms(1) this] recovered_session_id [OF assms(1) this] move_inv [OF _ assms(1)]
  show ?thesis by simp
qed

lemma renew_managed_auto:
  assumes inv: "session_inv db" and run: "renew_managed G ready ix r w expected seconds now db = (Inr w', db')"
  obtains s :: dev_session and data p db1 where "session_inv db1" "dd_workspaces db1 = dd_workspaces db" "ss_id s = ss_id r"
    "auto_renew_session_workspace_lease (ss_id s) (int (ss_revision s)) (ws_id w) expected seconds data now db1 = Inr (p, db')"
    "workspace_row (ws_id w) db' = Inr w'"
proof (cases "ss_workspace_revision r \<noteq> expected \<or> \<bar>ss_lease_expires r - ws_lease_expires w\<bar> > 1 / 1000")
  case False
  from run obtain data p where
    "auto_renew_session_workspace_lease (ss_id r) (int (ss_revision r)) (ws_id w) expected seconds data now db = Inr (p, db')"
    "workspace_row (ws_id w) db' = Inr w'"
    unfolding renew_managed_def Let_def if_not_P [OF False] by (auto split: if_splits sum.splits)
  with that inv show ?thesis by blast
next
  case True
  obtain y db1 where y: "recover_stale_session G ready ix (ss_id r) (int (ss_revision r)) expected
      (ws_head w) (reconcile_key r w expected) now db = (y, db1)" by (metis prod.exhaust)
  from run obtain x data p where x: "y = Inr x" and
    "auto_renew_session_workspace_lease (ss_id (sr_session x)) (int (ss_revision (sr_session x))) (ws_id w) expected seconds
      data now db1 = Inr (p, db')" "workspace_row (ws_id w) db' = Inr w'"
    unfolding renew_managed_def Let_def if_P [OF True] y by (cases y) (auto split: if_splits sum.splits)
  with that recover_git_ok [OF inv y [unfolded x]] show ?thesis by metis
qed

section \<open>Validations\<close>

lemma merge_status_terminal:
  "va_status v \<in> set validation_terminal_states \<Longrightarrow> va_status (merge_status v status eligible att finish now r) = va_status v"
  "va_status v \<in> set validation_terminal_states \<Longrightarrow> va_merge_eligible v \<Longrightarrow>
    va_merge_eligible (merge_status v status eligible att finish now r)"
  by (simp_all add: merge_status_def Let_def)

lemma merge_validation_job:
  assumes "merge_validation v request job tree status eligible att payload finish now = Inr v'" and "or_blank (va_job v) \<noteq> []"
  shows "va_job v' = va_job v"
  using assms by (auto simp: merge_validation_def split: if_splits)

lemma owned_all:
  assumes "set (map validation_request_id rows) = set (map fst pairs)"
  shows "(\<Union>p \<in> set pairs. owned_ids (fst p) rows) = va_id ` set rows"
proof
  show "va_id ` set rows \<subseteq> (\<Union>p \<in> set pairs. owned_ids (fst p) rows)"
  proof
    fix i assume "i \<in> va_id ` set rows"
    then obtain v where v: "v \<in> set rows" "i = va_id v" by blast
    then have "validation_request_id v \<in> set (map fst pairs)" using assms by auto
    then obtain p where "p \<in> set pairs" "validation_request_id v = fst p" by auto
    with v show "i \<in> (\<Union>p \<in> set pairs. owned_ids (fst p) rows)" by (auto simp: owned_ids_def)
  qed
qed (auto simp: owned_ids_def)

lemma reconcile_session:
  assumes inv: "session_inv db" and run: "reconcile_terminal_validation_set sid expected n mode commit tree pairs revision
    wrev allow now db = Inr ((u, audit), db')"
  shows "row_of ss_id sid (dd_sessions db') = Some u \<and> int (ss_revision u) = expected + 1"
  using run
proof (cases rule: reconcile_cases)
  case (1 r drift g ids rows)
  have i: "session_inv (db\<lparr>dd_validations := rows\<rparr>)" by (rule session_inv_frame [OF inv]) simp_all
  note D = settlement_scopeD [OF 1(2)]
  have t: "session_terminal r \<Longrightarrow> session_terminal (settled_fields mode now r)" using validating_not_terminal [OF D(3)] by simp
  note E = write_session_effect [OF i 1(7) _ settled_fields_simps(1) t, simplified, OF D(1)]
  from session_after_write [OF inv D(1) settled_fields_simps(1) E(4)] E(2,3) show ?thesis by simp
qed

section \<open>Maintenance\<close>

lemma renewal_link:
  assumes e: "se_type e = ''workspace_lease_auto_renewed''" "se_from e = Some phase" "se_to e = Some phase"
      "se_revision e = k" "se_data e = renew_audit data before expiry n" and "0 < n"
  shows "maintenance_step phase commit tree [e] k (n + 1) =
    Inr \<lparr>mt_revision = k, mt_type = ''workspace_lease_auto_renewed'', mt_before = n, mt_after = n + 1\<rparr>"
proof -
  obtain kvs where j: "renew_audit data before expiry n = JObj kvs"
    "json_get ''before_workspace_revision'' (JObj kvs) = Some (JInt n)"
    "json_get ''after_workspace_revision'' (JObj kvs) = Some (JInt (n + 1))"
    by (auto simp: renew_audit_def update_conv')
  then show ?thesis
    using assms by (simp add: maintenance_step_def Let_def maintenance_types_def event_fields_def renewed_step_def int_or_def)
qed

lemma renew_audit_truthy: "json_truthy (renew_audit data before expiry n)"
  by (simp add: renew_audit_def)

section \<open>Recoveries\<close>

lemma commit_recoveryD:
  assumes "commit_recovery r expected w key index evidence now db = Inr (x, db')" and "key \<noteq> []" and "ss_metadata r = JObj kvs"
  defines "after \<equiv> recovery_view (ws_head w) (ws_tree w) (ws_revision w) (ss_revision r + 1) (ws_lease_expires w) index"
  obtains m where "write_session (ss_id r) expected (recovery_fields w index m now) ''session_recovered'' (ss_status r)
      (sr_audit x) now db = Inr (sr_session x, db')" "sr_recovered x" "sr_after x = after"
    "json_get ''last_session_recovery'' m = Some (JObj [(''idempotency_key'', JStr key), (''recovered'', JBool True),
      (''before'', sr_before x), (''after'', after), (''audit'', sr_audit x)])"
proof -
  let ?audit = "recovery_audit key r w after evidence"
  define m where "m = json_put ''last_session_recovery'' (JObj
    [(''idempotency_key'', JStr key), (''recovered'', JBool True), (''before'', session_view r), (''after'', after),
     (''audit'', ?audit)]) (ss_metadata r)"
  from assms(1) have "map_sum id (\<lambda>(updated, db1). (\<lparr>sr_session = updated, sr_recovered = True, sr_replayed = False,
      sr_before = session_view r, sr_after = after, sr_audit = ?audit\<rparr>, db1))
    (write_session (ss_id r) expected (recovery_fields w index m now) ''session_recovered'' (ss_status r) ?audit now db) =
      Inr (x, db')"
    unfolding commit_recovery_def Let_def after_def [symmetric] m_def using assms(2) by simp
  then obtain u where u: "write_session (ss_id r) expected (recovery_fields w index m now) ''session_recovered'' (ss_status r)
      ?audit now db = Inr (u, db')" "x = \<lparr>sr_session = u, sr_recovered = True, sr_replayed = False,
      sr_before = session_view r, sr_after = after, sr_audit = ?audit\<rparr>"
    by (auto simp: map_sum_Inr)
  have "json_get ''last_session_recovery'' m = Some (JObj [(''idempotency_key'', JStr key), (''recovered'', JBool True),
      (''before'', session_view r), (''after'', after), (''audit'', ?audit)])"
    unfolding m_def assms(3) json_get_put by simp
  with u that show ?thesis by simp
qed

text \<open>A store with at most one more event, which notes a drift or a refusal.\<close>

definition only_noted :: "string \<Rightarrow> dev_db \<Rightarrow> dev_db \<Rightarrow> bool" where
  "only_noted sid db db' \<longleftrightarrow> dd_sessions db' = dd_sessions db \<and> dd_workspaces db' = dd_workspaces db \<and>
    dd_validations db' = dd_validations db \<and>
    (db' = db \<or> (\<exists>ev r. dd_events db' = dd_events db @ [ev] \<and> row_of ss_id sid (dd_sessions db) = Some r \<and>
      se_session ev = sid \<and> se_type ev \<in> {''external_drift_detected'', ''recovery_refused''} \<and>
      se_from ev = Some (ss_status r) \<and> se_to ev = Some (ss_status r) \<and> se_revision ev = ss_revision r))"

section \<open>Behaviour worth knowing\<close>

text \<open>A refresh adopts a head that was moved from outside; the next one finds nothing wrong with it.\<close>

lemma refreshed_row:
  assumes "refresh_workspace G wid n now db = Inr (w', db')"
  obtains w where "row_of ws_id wid (dd_workspaces db) = Some w" "row_of ws_id wid (dd_workspaces db') = Some w'"
    "ws_repository w' = ws_repository w" "ws_branch w' = ws_branch w" "ws_lease_expires w' = ws_lease_expires w"
    "(ws_status w', ws_drift_reason w', ws_head w', ws_tree w') = refreshed_state G w now"
proof -
  from assms obtain w where w: "workspace_cas wid n db = Inr w" by (auto simp: refresh_workspace_def split: sum.splits)
  obtain st reason head tree where q: "refreshed_state G w now = (st, reason, head, tree)" by (metis prod_cases4)
  define f where "f = (\<lambda>w. w\<lparr>ws_head := head, ws_tree := tree, ws_status := st, ws_drift_reason := reason, ws_updated_at := now\<rparr> :: workspace)"
  have run: "write_workspace wid n SessionIntegrity f db = Inr (w', db')"
    using assms w q by (auto simp: refresh_workspace_def f_def split: if_splits)
  note D = write_workspaceD [OF run]
  have row: "row_of ws_id wid (dd_workspaces db) = Some w" "ws_revision w = n" using workspace_casD [OF w] by auto
  have "row_of ws_id wid (dd_workspaces db') = Some ((f w)\<lparr>ws_revision := ws_revision w + 1\<rparr>)"
    unfolding D(1) by (simp, subst row_of_update_where) (use row row_of_key [OF row(1)] in \<open>simp_all add: f_def\<close>)
  with D(3) have "w' = (f w)\<lparr>ws_revision := ws_revision w + 1\<rparr>" by simp
  with that [OF row(1) D(3)] q show ?thesis by (simp add: f_def)
qed

lemma second_refresh_clears_drift:
  assumes "refresh_workspace G wid n now db = Inr (w1, db1)" and "gv_branch G (ws_repository w1) (ws_branch w1) = Some head"
    and "now' < ws_lease_expires w1" and "refresh_workspace G wid m now' db1 = Inr (w2, db2)"
  shows "ws_status w2 = ''active'' \<and> ws_drift_reason w2 = None \<and> ws_head w2 = head"
proof -
  from refreshed_row [OF assms(1)] obtain w where
    w: "ws_repository w1 = ws_repository w" "ws_branch w1 = ws_branch w" "row_of ws_id wid (dd_workspaces db1) = Some w1"
    "(ws_status w1, ws_drift_reason w1, ws_head w1, ws_tree w1) = refreshed_state G w now" by metis
  then have "ws_head w1 = head" using assms(2) by (simp add: refreshed_state_def)
  moreover from refreshed_row [OF assms(4)] w(3) have
    "(ws_status w2, ws_drift_reason w2, ws_head w2, ws_tree w2) = refreshed_state G w1 now'" by (metis option.inject)
  ultimately show ?thesis using assms(2,3) by (simp add: refreshed_state_def)
qed

text \<open>A recovery under a closed workspace asks for a lease: the branch for closed workspaces is never reached.\<close>

lemma recovery_of_closed_workspace:
  assumes "session_row sid db = Inr r" and "workspace_row (ss_workspace_id r) db = Inr w" and "ws_status w = ''closed''"
    and "ws_drift_reason w = None"
  shows "fst (recover_stale_session G ready ix sid expected 0 [] key now db) = Inl WorkspaceLeaseRequired"
  using assms
  by (simp add: recover_stale_session_def recovery_refusal_def effective_workspace_status_def lease_valid_def refuse_recovery_def Let_def)

end
