(* ===== verification/Session_Demo.thy ===== *)
theory Session_Demo
  imports Session_Outcomes "HOL-Library.Code_Target_Nat"
begin

text \<open>A small run of the development store, which the witnesses of its properties refer to.\<close>

definition sdemo_ws :: workspace where
  "sdemo_ws = new_workspace ''w'' ''r'' ''ai/x'' ''main'' ''b'' ''h'' ''t'' ''me'' 600 0"

definition sdemo_git :: "string \<Rightarrow> string \<Rightarrow> git_view" where
  "sdemo_git head tree = \<lparr>gv_branch = (\<lambda>_ _. Some head), gv_tree = (\<lambda>_ _. tree), gv_compare = (\<lambda>_ _ _. None)\<rparr>"

definition sdemo_taken :: dev_db where
  "sdemo_taken = snd (insert_workspace sdemo_ws 0 empty_dev_db)"

definition sdemo_open :: dev_db where
  "sdemo_open = state_after (create_session sdemo_ws ''me'' ''k'' (JObj []) ''active'' ''s'' 1 sdemo_taken) sdemo_taken"

definition sdemo_validating :: dev_db where
  "sdemo_validating = state_after
     (transition_session ''s'' 1 ''validating_fast'' ''validation_started'' None [] 2 sdemo_open) sdemo_open"

definition sdemo_recorded :: dev_db where
  "sdemo_recorded = state_after
     (record_validation ''s'' 2 ''fast'' ''h'' ''t'' ''q1'' ''j1'' ''passed'' True ''a1'' [] True 3 sdemo_validating)
     sdemo_validating"

definition sdemo_both :: dev_db where
  "sdemo_both = state_after
     (record_validation ''s'' 2 ''fast'' ''h'' ''t'' ''q2'' ''j2'' ''failed'' False [] [] True 4 sdemo_recorded)
     sdemo_recorded"

text \<open>The same session after its merge, and after its workspace moved on.\<close>

definition sdemo_merge :: "session_error + (dev_session \<times> workspace option) \<times> dev_db" where
  "sdemo_merge = finalize_merged_session_workspace ''s'' 1 ''w'' 1 [(''pull_number'', JInt 7)] 5 sdemo_open"

definition sdemo_merged :: dev_db where
  "sdemo_merged = state_after sdemo_merge sdemo_open"

definition sdemo_evidence :: json where
  "sdemo_evidence = JObj [(''write_verified'', JBool True), (''repository'', JStr ''r''), (''branch'', JStr ''ai/x''),
     (''verified_commit_sha'', JStr ''h2''), (''verified_branch_head_sha'', JStr ''h2''), (''verified_tree_sha'', JStr ''t2'')]"

definition sdemo_ahead :: dev_db where
  "sdemo_ahead = state_after (workspace_write_complete ''w'' 1 ''h2'' ''t2'' sdemo_evidence 5 sdemo_open) sdemo_open"

definition sdemo_ahead_ws :: workspace where
  "sdemo_ahead_ws = sdemo_ws\<lparr>ws_head := ''h2'', ws_tree := ''t2'', ws_index_commit := Some ''h2'', ws_revision := 2,
     ws_updated_at := 5\<rparr>"

definition sdemo_recovery :: "session_error + session_recovery \<times> dev_db" where
  "sdemo_recovery = recover_stale_session_from_workspace ''s'' 1 sdemo_ahead_ws ''rk'' (Some ''h2'') JNull 6 sdemo_ahead"

definition sdemo_reconciled :: "session_error + (dev_session \<times> json) \<times> dev_db" where
  "sdemo_reconciled = reconcile_terminal_validation_set ''s'' 2 1 ''fast'' ''h'' ''t''
     [(''q1'', ''j1'', ''passed''), (''q2'', ''j2'', ''failed'')] 2 1 False 5 sdemo_both"

lemma committed_Inr: "committed r \<Longrightarrow> \<exists>a. r = Inr (a, state_after r s)"
  by (auto elim!: committedE)

lemma reachable_step: "dev_reachable db \<Longrightarrow> dev_step db db' \<Longrightarrow> dev_reachable db'"
  unfolding dev_reachable_def by (rule rtranclp.rtrancl_into_rtrancl)

lemma sdemo_taken_reachable: "dev_reachable sdemo_taken"
proof -
  have "dev_step empty_dev_db sdemo_taken"
    unfolding sdemo_taken_def by (rule dev_step.take_branch [OF prod.collapse [symmetric]])
  then show ?thesis unfolding dev_reachable_def by (rule r_into_rtranclp)
qed

lemma sdemo_open_reachable: "dev_reachable sdemo_open"
proof -
  have "committed (create_session sdemo_ws ''me'' ''k'' (JObj []) ''active'' ''s'' 1 sdemo_taken)" by code_simp
  from committed_Inr [OF this] show ?thesis
    unfolding sdemo_open_def by (blast intro: reachable_step [OF sdemo_taken_reachable] dev_step.create)
qed

lemma sdemo_validating_reachable: "dev_reachable sdemo_validating"
proof -
  have "committed (transition_session ''s'' 1 ''validating_fast'' ''validation_started'' None [] 2 sdemo_open)" by code_simp
  from committed_Inr [OF this] show ?thesis
    unfolding sdemo_validating_def by (blast intro: reachable_step [OF sdemo_open_reachable] dev_step.transition)
qed

lemma sdemo_recorded_reachable: "dev_reachable sdemo_recorded"
proof -
  have "committed (record_validation ''s'' 2 ''fast'' ''h'' ''t'' ''q1'' ''j1'' ''passed'' True ''a1'' [] True 3 sdemo_validating)"
    by code_simp
  from committed_Inr [OF this] show ?thesis
    unfolding sdemo_recorded_def by (blast intro: reachable_step [OF sdemo_validating_reachable] dev_step.record_run)
qed

lemma sdemo_both_reachable: "dev_reachable sdemo_both"
proof -
  have "committed (record_validation ''s'' 2 ''fast'' ''h'' ''t'' ''q2'' ''j2'' ''failed'' False [] [] True 4 sdemo_recorded)"
    by code_simp
  from committed_Inr [OF this] show ?thesis
    unfolding sdemo_both_def by (blast intro: reachable_step [OF sdemo_recorded_reachable] dev_step.record_run)
qed

lemma sdemo_merged_reachable: "dev_reachable sdemo_merged"
proof -
  have "committed sdemo_merge" by code_simp
  from committed_Inr [OF this] show ?thesis
    unfolding sdemo_merged_def sdemo_merge_def by (blast intro: reachable_step [OF sdemo_open_reachable] dev_step.finalize)
qed

lemma sdemo_ahead_reachable: "dev_reachable sdemo_ahead"
proof -
  have "committed (workspace_write_complete ''w'' 1 ''h2'' ''t2'' sdemo_evidence 5 sdemo_open)" by code_simp
  from committed_Inr [OF this] show ?thesis
    unfolding sdemo_ahead_def by (blast intro: reachable_step [OF sdemo_open_reachable] dev_step.complete_write)
qed

end
