(* ===== verification/Session_Properties.thy ===== *)
theory Session_Properties
  imports Session_Demo
begin

text \<open>
  The properties of the development store: sessions under concurrent writers, their logs and ends,
  the agreement of a session with its workspace, and the validations.
\<close>

section \<open>Writers\<close>

text \<open>
  C5. Of two operations that name the same revision of a session only the first one counts: once it
  has changed the store, the second one, whatever runs in between, changes nothing.
\<close>

theorem stale_session_writer_loses:
  assumes "dev_reachable db" and first: "run_session_op x db = Inr (a, db1)" "db1 \<noteq> db"
    and same: "session_target y = session_target x" "session_expected y = session_expected x"
    and between: "dev_step\<^sup>*\<^sup>* db1 db2"
  shows "state_after (run_session_op y db2) db2 = db2"
proof (rule ccontr)
  assume "state_after (run_session_op y db2) db2 \<noteq> db2"
  then obtain b db3 where second: "run_session_op y db2 = Inr (b, db3)" and changed: "db3 \<noteq> db2"
    by (cases "run_session_op y db2") auto
  from assms(1) have inv: "dev_inv db" by (rule dev_reachable_inv)
  from session_cas.commit_needs_revision [OF inv first] obtain n where
    n: "int n = session_expected x" "session_revision db1 (session_target x) = Some (Suc n)" by blast
  have inv1: "dev_inv db1" by (rule dev_step_inv [OF session_op_step [OF first(1)] inv])
  from n(2) obtain r where r: "row_of ss_id (session_target x) (dd_sessions db1) = Some r" "ss_revision r = Suc n"
    by (auto simp: session_revision_def)
  from run_evolves [OF between inv1 r(1)] obtain r' where
    r': "row_of ss_id (session_target x) (dd_sessions db2) = Some r'" "session_evolves r r'" by blast
  from session_cas.commit_needs_revision [OF development.steps_inv [OF between inv1] second changed] same n(1) r'(1)
  have "ss_revision r' = n" by (simp add: session_revision_def)
  with r'(2) r(2) show False by (simp add: session_evolves_def)
qed

lemma stale_session_writer_loses_witness:
  "state_after (run_session_op (OpTransition ''s'' 1 ''blocked'' ''e'' None [] 7) (state_after (run_session_op
      (OpRecover ''s'' 1 sdemo_ahead_ws ''rk'' (Some ''h2'') JNull 6) sdemo_ahead) sdemo_ahead))
    (state_after (run_session_op (OpRecover ''s'' 1 sdemo_ahead_ws ''rk'' (Some ''h2'') JNull 6) sdemo_ahead) sdemo_ahead) =
    state_after (run_session_op (OpRecover ''s'' 1 sdemo_ahead_ws ''rk'' (Some ''h2'') JNull 6) sdemo_ahead) sdemo_ahead"
proof -
  let ?x = "OpRecover ''s'' 1 sdemo_ahead_ws ''rk'' (Some ''h2'') JNull 6"
  let ?db1 = "state_after (run_session_op ?x sdemo_ahead) sdemo_ahead"
  have "committed (run_session_op ?x sdemo_ahead)" by code_simp
  from committed_Inr [OF this] obtain a where a: "run_session_op ?x sdemo_ahead = Inr (a, ?db1)" by blast
  have "length (dd_events ?db1) \<noteq> length (dd_events sdemo_ahead)" by code_simp
  then have "?db1 \<noteq> sdemo_ahead" by metis
  from stale_session_writer_loses [OF sdemo_ahead_reachable a this _ _ rtranclp.rtrancl_refl,
      of "OpTransition ''s'' 1 ''blocked'' ''e'' None [] 7"] show ?thesis by simp
qed

text \<open>
  C11. The events of a session are its history: they lead from its creation to its status and
  revision, each taking up the status the last one left, and every revision has its event.
\<close>

theorem session_log_is_history:
  assumes "dev_reachable db" and "row_of ss_id i (dd_sessions db) = Some r"
  shows "session_history (session_log i db) (ss_status r) (ss_revision r) \<and>
    se_revision ` set (session_log i db) = {1..ss_revision r} \<and> se_to (last (session_log i db)) = Some (ss_status r)"
proof -
  from session_invD(4) [OF reachable_session_inv [OF assms(1)] assms(2)]
  have "session_history (session_log i db) (ss_status r) (ss_revision r)" .
  with history_revisions history_last show ?thesis by blast
qed

lemma session_log_is_history_witness:
  "session_history (session_log ''s'' sdemo_validating) ''validating_fast'' 2 \<and>
    se_revision ` set (session_log ''s'' sdemo_validating) = {1..2}"
proof -
  have "map_option (\<lambda>r. (ss_status r, ss_revision r)) (row_of ss_id ''s'' (dd_sessions sdemo_validating)) =
      Some (''validating_fast'', 2)" by code_simp
  then obtain r where "row_of ss_id ''s'' (dd_sessions sdemo_validating) = Some r" "ss_status r = ''validating_fast''"
    "ss_revision r = 2" by auto
  with session_log_is_history [OF sdemo_validating_reachable this(1)] show ?thesis by simp
qed

text \<open>
  A workspace has at most one active session, which is what the lookup returns; its error for
  more than one is never raised.
\<close>

theorem workspace_has_one_session:
  assumes "dev_reachable db"
  shows "find_active_session_for_workspace wid db =
    Inr (List.find (\<lambda>r. ss_workspace_id r = wid \<and> session_active r) (dd_sessions db))"
  by (rule find_active_unique) (rule session_invD(3) [OF reachable_session_inv [OF assms]])

lemma workspace_has_one_session_witness:
  "find_active_session_for_workspace ''w'' sdemo_open =
    Inr (List.find (\<lambda>r. ss_workspace_id r = ''w'' \<and> session_active r) (dd_sessions sdemo_open))"
  by (rule workspace_has_one_session [OF sdemo_open_reachable])

text \<open>
  C29. A session that is merged, closed, abandoned or failed to prepare stays in one of these states,
  with its workspace, branch, base, owner and key.
\<close>

theorem finished_session_stays_finished:
  assumes "dev_reachable db" and "row_of ss_id i (dd_sessions db) = Some r" and "session_terminal r"
    and "dev_step\<^sup>*\<^sup>* db db'"
  shows "\<exists>r'. row_of ss_id i (dd_sessions db') = Some r' \<and> session_terminal r' \<and> session_fixed r' = session_fixed r"
  using run_evolves [OF assms(4) dev_reachable_inv [OF assms(1)] assms(2)] assms(3)
  by (auto simp: session_evolves_def)

lemma finished_session_stays_finished_witness:
  "\<exists>r'. row_of ss_id ''s'' (dd_sessions (state_after (transition_session ''s'' 2 ''closed'' ''e'' None [] 6 sdemo_merged)
      sdemo_merged)) = Some r' \<and> session_terminal r' \<and> ss_status r' = ''closed''"
proof -
  let ?t = "transition_session ''s'' 2 ''closed'' ''e'' None [] 6 sdemo_merged"
  have "map_option session_terminal (row_of ss_id ''s'' (dd_sessions sdemo_merged)) = Some True" by code_simp
  then obtain r where r: "row_of ss_id ''s'' (dd_sessions sdemo_merged) = Some r" "session_terminal r" by auto
  have "committed ?t" by code_simp
  from committed_Inr [OF this] have "dev_step sdemo_merged (state_after ?t sdemo_merged)" by (blast intro: dev_step.transition)
  from finished_session_stays_finished [OF sdemo_merged_reachable r r_into_rtranclp [of dev_step, OF this]] obtain r' where
    r': "row_of ss_id ''s'' (dd_sessions (state_after ?t sdemo_merged)) = Some r'" "session_terminal r'" by blast
  have "map_option ss_status (row_of ss_id ''s'' (dd_sessions (state_after ?t sdemo_merged))) = Some ''closed''" by code_simp
  with r' show ?thesis by simp
qed

text \<open>
  C16. A merge is finalised as a whole: the session is merged under the pull request of the evidence,
  its workspace is closed and released, both are at the same workspace revision and code, and no
  other session, workspace or validation changes.
\<close>

theorem merge_finalized_as_a_whole:
  assumes "dev_reachable db"
    and run: "finalize_merged_session_workspace sid expected wid n evidence now db = Inr ((u, found), db')"
  shows "\<exists>w p. found = Some w \<and> row_of ws_id wid (dd_workspaces db') = Some w \<and>
    row_of ss_id sid (dd_sessions db') = Some u \<and> ss_status u = ''merged'' \<and> int (ss_revision u) = expected + 1 \<and>
    ss_pull_number u = Some p \<and> p > 0 \<and> ws_status w = ''closed'' \<and> ws_lease_expires w = 0 \<and>
    ws_index_commit w = None \<and> ws_revision w = n + 1 \<and> ss_workspace_revision u = ws_revision w \<and>
    ss_lease_expires u = ws_lease_expires w \<and> same_identity u w \<and> same_code u w \<and>
    (\<forall>i. i \<noteq> sid \<longrightarrow> row_of ss_id i (dd_sessions db') = row_of ss_id i (dd_sessions db)) \<and>
    (\<forall>j. j \<noteq> wid \<longrightarrow> row_of ws_id j (dd_workspaces db') = row_of ws_id j (dd_workspaces db)) \<and>
    dd_validations db' = dd_validations db"
  using run
proof (cases rule: finalize_cases)
  case (1 r w p db1)
  from assms(1) have inv: "session_inv db" "distinct (map ws_id (dd_workspaces db))"
    using dev_reachable_inv by (simp_all add: dev_inv_def workspace_inv_def)
  note D = update_workspaceD [OF 1(5)]
  have W: "row_of ws_id wid (dd_workspaces db1) = Some ((closed_fields now w)\<lparr>ws_revision := ws_revision w + 1\<rparr>)"
    "\<And>j. j \<noteq> wid \<Longrightarrow> row_of ws_id j (dd_workspaces db1) = row_of ws_id j (dd_workspaces db)"
    using workspace_after_update [OF 1(5) inv(2) 1(2)] by (simp_all add: closed_fields_def)
  have n: "ws_revision w = n" using workspace_after_update(2) [OF 1(5) inv(2) 1(2)] by (simp add: closed_fields_def)
  have t: "session_terminal r \<Longrightarrow> session_terminal (merged_fields p (n + 1) now r)"
    by (simp add: session_terminal_def session_terminal_states_def)
  note E = write_session_effect [OF session_inv_frame [OF inv(1) D(1,2)] 1(6) _ _ t, unfolded D(1), OF 1(1) merged_fields_simps(1)]
  have S: "row_of ss_id i (dd_sessions db') =
      (if i = sid then Some (next_row (merged_fields p (n + 1) now) r) else row_of ss_id i (dd_sessions db))" for i
    by (rule session_after_write [OF inv(1) 1(1) _ E(4)]) simp
  have p: "p > 0" using 1(4) by (auto simp: merge_pull_number_def split: option.splits if_splits)
  have agree: "same_identity r w" "same_code r w" using 1(3) by (auto simp: finalize_error_def split: if_splits)
  let ?w = "(closed_fields now w)\<lparr>ws_revision := ws_revision w + 1\<rparr>"
  have found: "found = Some ?w" using 1(7) E(5) W(1) by simp
  have u: "ss_status u = ''merged'' \<and> int (ss_revision u) = expected + 1 \<and> ss_pull_number u = Some p \<and>
      ss_workspace_revision u = n + 1 \<and> ss_lease_expires u = 0 \<and> same_identity u ?w \<and> same_code u ?w"
    using E(2,3) agree
    by (simp add: next_row_def merged_fields_def closed_fields_def same_identity_def same_code_def)
  have w: "ws_status ?w = ''closed'' \<and> ws_lease_expires ?w = 0 \<and> ws_index_commit ?w = None \<and> ws_revision ?w = n + 1"
    using n by (simp add: closed_fields_def)
  show ?thesis
    using found u w p S E(3,5,6) W D(3) by (intro exI [of _ ?w] exI [of _ p]) simp
qed

lemma merge_finalized_as_a_whole_witness:
  "\<exists>u w. row_of ss_id ''s'' (dd_sessions sdemo_merged) = Some u \<and> row_of ws_id ''w'' (dd_workspaces sdemo_merged) = Some w \<and>
    ss_status u = ''merged'' \<and> ws_status w = ''closed'' \<and> ss_workspace_revision u = ws_revision w \<and> same_code u w"
proof -
  have "committed sdemo_merge" by code_simp
  from committed_Inr [OF this] obtain u f where
    "finalize_merged_session_workspace ''s'' 1 ''w'' 1 [(''pull_number'', JInt 7)] 5 sdemo_open = Inr ((u, f), sdemo_merged)"
    unfolding sdemo_merged_def sdemo_merge_def by (metis prod.exhaust)
  from merge_finalized_as_a_whole [OF sdemo_open_reachable this] show ?thesis by blast
qed

text \<open>
  C17. Renewing the lease of a workspace that a session owns keeps the two together: the same
  revision, lease and code, also where they had come apart before.
\<close>

theorem renewed_lease_agrees:
  assumes "dev_reachable db" and "renew_workspace_lease G ready ix wid expected seconds now db = (Inr w', db')"
    and "find_active_session_for_workspace wid db = Inr (Some r)"
  shows "\<exists>r'. row_of ss_id (ss_id r) (dd_sessions db') = Some r' \<and> row_of ws_id wid (dd_workspaces db') = Some w' \<and>
    ws_revision w' = expected + 1 \<and> ws_lease_expires w' = now + of_int (bounded_lease seconds) \<and>
    ss_workspace_revision r' = ws_revision w' \<and> ss_lease_expires r' = ws_lease_expires w' \<and> same_code r' w'"
proof -
  from assms(1) have inv: "session_inv db" "distinct (map ws_id (dd_workspaces db))"
    using dev_reachable_inv by (simp_all add: dev_inv_def workspace_inv_def)
  from assms(2,3) obtain w where cas: "workspace_cas wid expected db = Inr w"
    and run: "renew_managed G ready ix r w expected seconds now db = (Inr w', db')"
    by (auto simp: renew_workspace_lease_def Let_def split: sum.splits if_splits)
  have wid: "ws_id w = wid" using workspace_casD [OF cas] by (auto dest: row_of_key)
  from renew_managed_auto [OF inv(1) run, unfolded wid] obtain s :: dev_session and data p db1 where
    inv1: "session_inv db1" and same: "dd_workspaces db1 = dd_workspaces db" and s: "ss_id s = ss_id r"
    and auto: "auto_renew_session_workspace_lease (ss_id s) (int (ss_revision s)) wid expected seconds data now db1 = Inr (p, db')"
    and w': "workspace_row wid db' = Inr w'" .
  obtain u audit where p: "p = (u, audit)" by (cases p)
  have row': "row_of ws_id wid (dd_workspaces db') = Some w'" using w' by (simp add: workspace_row_def split: option.splits)
  from auto [unfolded p] show ?thesis
  proof (cases rule: renew_cases)
    case (1 r0 w0 db2)
    let ?e = "now + of_int (bounded_lease seconds)"
    note D = update_workspaceD [OF 1(4)]
    have W: "row_of ws_id wid (dd_workspaces db2) = Some (w0\<lparr>ws_lease_expires := ?e, ws_updated_at := now,
        ws_revision := ws_revision w0 + 1\<rparr>)" "ws_revision w0 = expected"
      using workspace_after_update(1,2) [OF 1(4) _ 1(2)] inv(2) same by simp_all
    note E = write_session_effect [OF session_inv_frame [OF inv1 D(1,2)] 1(6), unfolded D(1), OF 1(1) renewed_fields_simps(1)]
    have t: "session_terminal r0 \<Longrightarrow> session_terminal (renewed_fields (expected + 1) ?e now r0)"
      by (simp add: session_terminal_def)
    have S: "row_of ss_id (ss_id r) (dd_sessions db') = Some (next_row (renewed_fields (expected + 1) ?e now) r0)"
      using session_after_write [OF inv1 1(1) renewed_fields_simps(1) E(4) [OF t], of "ss_id r"] s by simp
    have w0: "w' = w0\<lparr>ws_lease_expires := ?e, ws_updated_at := now, ws_revision := ws_revision w0 + 1\<rparr>"
      using row' E(5) [OF t] W(1) by simp
    have "same_code r0 w0" using 1(3) by (auto simp: renew_error_def split: if_splits)
    with S row' W(2) show ?thesis
      unfolding w0 by (simp add: next_row_def renewed_fields_def same_code_def)
  qed
qed

lemma renewed_lease_agrees_witness:
  "\<exists>r' w'. row_of ss_id ''s'' (dd_sessions (snd (renew_workspace_lease (sdemo_git ''h'' ''t'') False JNull ''w'' 1 600 5 sdemo_open)))
      = Some r' \<and> row_of ws_id ''w'' (dd_workspaces (snd (renew_workspace_lease (sdemo_git ''h'' ''t'') False JNull ''w'' 1 600 5
      sdemo_open))) = Some w' \<and> ws_revision w' = 2 \<and> ss_workspace_revision r' = 2 \<and> ss_lease_expires r' = ws_lease_expires w'"
proof -
  let ?run = "renew_workspace_lease (sdemo_git ''h'' ''t'') False JNull ''w'' 1 600 5 sdemo_open"
  have "\<not> isl (fst ?run)" by code_simp
  then obtain w' where w': "fst ?run = Inr w'" by (metis sum.disc(1) sum.exhaust)
  have "(case find_active_session_for_workspace ''w'' sdemo_open of Inr (Some r) \<Rightarrow> ss_id r = ''s'' | _ \<Rightarrow> False)" by code_simp
  then obtain r where r: "find_active_session_for_workspace ''w'' sdemo_open = Inr (Some r)" "ss_id r = ''s''"
    by (auto split: sum.splits option.splits)
  from w' have "?run = (Inr w', snd ?run)" by (metis prod.collapse)
  from renewed_lease_agrees [OF sdemo_open_reachable this r(1)] r(2) show ?thesis by auto
qed

section \<open>Validations\<close>

text \<open>
  C20. What was recorded of a validation stays: recording again never changes a terminal status, never
  takes merge eligibility back from it and never moves a validation to another job, whatever row the
  new record meets.
\<close>

theorem recorded_outcome_stays:
  assumes "dev_reachable db"
    and "record_validation sid revision mode commit tree ra job status eligible att evidence finish now db = Inr (i, db')"
    and "v \<in> set (dd_validations db)"
  shows "\<exists>v' \<in> set (dd_validations db'). va_id v' = va_id v \<and>
    (or_blank (va_job v) \<noteq> [] \<longrightarrow> va_job v' = va_job v) \<and>
    (va_status v \<in> set validation_terminal_states \<longrightarrow>
      va_status v' = va_status v \<and> (va_merge_eligible v \<longrightarrow> va_merge_eligible v'))"
  using assms(2)
proof (cases rule: record_cases)
  case (inserted row r)
  with assms(3) show ?thesis by auto
next
  case (merged w w' request payload)
  show ?thesis
  proof (cases "va_id v = va_id w")
    case True
    have "distinct (map va_id (dd_validations db))"
      using dev_reachable_inv [OF assms(1)] validation_ids by (simp add: dev_inv_def)
    with True assms(3) merged(1) have "v = w" by (auto simp: distinct_map dest: inj_onD)
    have "w' \<in> set (dd_validations db')" using merged(1) by (auto simp: merged(5) set_update_where)
    moreover obtain x where "w' = merge_status w status eligible att finish now x"
      using merged(3) by (auto simp: merge_validation_def split: if_splits)
    ultimately show ?thesis
      using merge_status_terminal [of w status eligible att finish now x] merge_validation_fields(1) [OF merged(3)]
        merge_validation_job [OF merged(3)] unfolding \<open>v = w\<close> by (intro bexI [of _ w']) auto
  next
    case False
    with assms(3) have "v \<in> set (dd_validations db')" by (force simp: merged(5) set_update_where)
    then show ?thesis by blast
  qed
qed

lemma recorded_outcome_stays_witness:
  "\<exists>v' \<in> set (dd_validations sdemo_both). va_id v' = 1 \<and> va_status v' = ''passed'' \<and> va_job v' = Some ''j1''"
proof -
  let ?r = "record_validation ''s'' 2 ''fast'' ''h'' ''t'' ''q2'' ''j2'' ''failed'' False [] [] True 4 sdemo_recorded"
  have "committed ?r" by code_simp
  from committed_Inr [OF this] obtain i where i: "?r = Inr (i, sdemo_both)" unfolding sdemo_both_def by blast
  have "map (\<lambda>v. (va_id v, va_status v, va_job v)) (dd_validations sdemo_recorded) = [(1, ''passed'', Some ''j1'')]" by code_simp
  then obtain v where v: "v \<in> set (dd_validations sdemo_recorded)" "va_id v = 1" "va_status v = ''passed''" "va_job v = Some ''j1''"
    by auto
  from recorded_outcome_stays [OF sdemo_recorded_reachable i v(1)] v(2-4) show ?thesis
    by (auto simp: or_blank_def validation_terminal_states_def)
qed

text \<open>
  C6. Settling a terminal set leaves no validation of the generation as evidence for a merge: each is
  terminal, finished, not eligible and without attestation.  Every other validation stays as it was,
  and the session is active again at its next revision without the job it waited for.
\<close>

theorem settled_generation_not_mergeable:
  assumes "dev_reachable db" and run: "reconcile_terminal_validation_set sid expected n mode commit tree pairs revision
    wrev allow now db = Inr ((u, audit), db')"
  shows "(\<forall>v \<in> set (dd_validations db'). if va_session v = sid \<and> va_revision v = revision then settled v
      else v \<in> set (dd_validations db)) \<and>
    row_of ss_id sid (dd_sessions db') = Some u \<and> ss_status u = ''active'' \<and> int (ss_revision u) = expected + 1 \<and>
    (if mode = ''fast'' then ss_fast_job u else ss_full_job u) = None \<and> ss_attestation u = None"
proof -
  from assms(1) have inv: "session_inv db" and ids: "distinct (map va_id (dd_validations db))"
    using dev_reachable_inv validation_ids by (simp_all add: dev_inv_def)
  from reconcile_rows [OF inv run] obtain ids' r where
    pairs: "settle_pairs (sort_key fst pairs) tree now
      (latest_first (\<lambda>v. va_session v = sid \<and> va_revision v = revision) (dd_validations db)) (dd_validations db) =
      Inr (ids', dd_validations db')" and ok: "correlation_set_ok mode pairs" and
    rows: "generation_rows_ok mode commit tree pairs
       (latest_first (\<lambda>v. va_session v = sid \<and> va_revision v = revision) (dd_validations db))" and
    row: "row_of ss_id sid (dd_sessions db) = Some r" and u: "u = next_row (settled_fields mode now) r" .
  let ?rows = "latest_first (\<lambda>v. va_session v = sid \<and> va_revision v = revision) (dd_validations db)"
  let ?I = "\<Union>p \<in> set pairs. owned_ids (fst p) ?rows"
  have I: "?I = va_id ` {v \<in> set (dd_validations db). va_session v = sid \<and> va_revision v = revision}"
    using owned_all [of ?rows pairs] rows by (simp add: generation_rows_ok_def latest_first_set)
  have "settles ?I (dd_validations db) (dd_validations db')"
  proof -
    have "\<forall>p \<in> set pairs. snd (snd p) \<in> set settled_statuses" using ok by (force simp: correlation_set_ok_def list_all_iff)
    with settle_pairs_settles [OF pairs] show ?thesis by simp
  qed
  note S = settles_all [OF this _ ids]
  have V: "if va_session v = sid \<and> va_revision v = revision then settled v else v \<in> set (dd_validations db)"
    if v: "v \<in> set (dd_validations db')" for v
  proof -
    from S [OF v] obtain w where w: "w \<in> set (dd_validations db)" "va_id w = va_id v" "va_session w = va_session v"
      "va_revision w = va_revision v" by blast
    have "va_id v \<in> ?I \<longleftrightarrow> va_session v = sid \<and> va_revision v = revision"
    proof
      assume "va_id v \<in> ?I"
      then obtain w' where w': "w' \<in> set (dd_validations db)" "va_id w' = va_id v" "va_session w' = sid" "va_revision w' = revision"
        unfolding I by auto
      have "inj_on va_id (set (dd_validations db))" using ids by (simp add: distinct_map)
      from inj_onD [OF this, of w' w] w w' have "w' = w" by simp
      with w w' show "va_session v = sid \<and> va_revision v = revision" by simp
    next
      assume "va_session v = sid \<and> va_revision v = revision"
      with w show "va_id v \<in> ?I" unfolding I by (metis (mono_tags, lifting) image_eqI mem_Collect_eq)
    qed
    with S [OF v] show ?thesis by auto
  qed
  have "row_of ss_id sid (dd_sessions db') = Some u" "int (ss_revision u) = expected + 1"
    using reconcile_session [OF inv run] by simp_all
  with V u show ?thesis by (simp add: next_row_def settled_fields_def)
qed

lemma settled_generation_not_mergeable_witness:
  "\<exists>u. row_of ss_id ''s'' (dd_sessions (state_after sdemo_reconciled sdemo_both)) = Some u \<and> ss_status u = ''active'' \<and>
    list_all settled (dd_validations (state_after sdemo_reconciled sdemo_both))"
proof -
  let ?db' = "state_after sdemo_reconciled sdemo_both"
  have "committed sdemo_reconciled" by code_simp
  from committed_Inr [OF this] obtain u audit where "reconcile_terminal_validation_set ''s'' 2 1 ''fast'' ''h'' ''t''
     [(''q1'', ''j1'', ''passed''), (''q2'', ''j2'', ''failed'')] 2 1 False 5 sdemo_both = Inr ((u, audit), ?db')"
    unfolding sdemo_reconciled_def by (metis prod.exhaust)
  note P = settled_generation_not_mergeable [OF sdemo_both_reachable this]
  have "map (\<lambda>v. (va_session v, va_revision v)) (dd_validations ?db') = [(''s'', 2), (''s'', 2)]" by code_simp
  then have "\<forall>v \<in> set (dd_validations ?db'). va_session v = ''s'' \<and> va_revision v = 2" by auto
  with P show ?thesis by (auto simp: list_all_iff)
qed

section \<open>Maintenance\<close>

text \<open>
  C18. Renewing the lease while a validation runs does not lose it when the validation has its
  \<open>validation_started\<close> event: the generation is still found, at the same revisions of session and
  workspace, one maintenance event further.  A generation that is found only through its rows at the
  current revision, the fallback for sessions without that event, is lost by a renewal
  (\<open>legacy_generation_lost\<close>).
\<close>

theorem lease_renewal_keeps_validation:
  assumes "dev_reachable db" and "validation_generation_context sid expected mode commit tree db = Inr g"
    and "gn_source g = ''validation_started_event''" and "0 < n"
    and run: "auto_renew_session_workspace_lease sid expected wid n seconds data now db = Inr ((u, audit), db')"
  shows "\<exists>g'. validation_generation_context sid (expected + 1) mode commit tree db' = Inr g' \<and>
    gn_revision g' = gn_revision g \<and> gn_workspace_revision g' = gn_workspace_revision g \<and>
    gn_source g' = gn_source g \<and> length (gn_maintenance g') = length (gn_maintenance g) + 1"
  using run
proof (cases rule: renew_cases)
  case (1 r w db1)
  let ?e = "now + of_int (bounded_lease seconds)"
  from assms(1) have dev: "dev_inv db" by (rule dev_reachable_inv)
  then have inv: "session_inv db" by (simp add: dev_inv_def)
  note D = update_workspaceD [OF 1(4)]
  have t: "session_terminal r \<Longrightarrow> session_terminal (renewed_fields (n + 1) ?e now r)" by (simp add: session_terminal_def)
  note E = write_session_effect [OF session_inv_frame [OF inv D(1,2)] 1(6) _ renewed_fields_simps(1) t, unfolded D(1,2), OF 1(1)]
  from assms(2) have ctx: "generation_context r mode commit tree db = Inr g"
    using 1(1) by (auto simp: validation_generation_context_def dest!: require_sessionD(1) split: sum.splits)
  have id: "ss_id r = sid" using 1(1) by (rule row_of_key)
  have row: "row_of ss_id (ss_id r) (dd_sessions db) = Some r" using 1(1) id by simp
  have row': "row_of ss_id (ss_id r) (dd_sessions db') = Some u"
    using session_after_write [OF inv 1(1) renewed_fields_simps(1) E(4), of sid] E(3) id by simp
  have inv': "session_inv db'" using renew_effect [OF inv run] move_inv [OF _ inv] by blast
  have reach: "\<forall>v \<in> set (dd_validations db). va_session v = ss_id r \<longrightarrow> va_revision v \<le> int (ss_revision r)"
    using dev row by (auto simp: dev_inv_def reached_def)
  obtain e where log: "dd_events db' = dd_events db @ [e]" and e: "se_session e = sid"
    "se_type e = ''workspace_lease_auto_renewed''" "se_from e = Some (ss_status r)" "se_to e = Some (ss_status r)"
    "se_revision e = Suc (ss_revision r)" "se_data e = audit"
    using E(7) renew_audit_truthy 1(5) by simp
  from ctx have phase: "ss_status r = validating_status mode"
    unfolding generation_context_iff [OF inv row reach] in_phase_def by blast
  have u: "ss_revision u = Suc (ss_revision r)" "ss_status u = ss_status r" "ss_head u = ss_head r" "ss_tree u = ss_tree r"
    "ss_workspace_revision u = n + 1"
    using E(3) by (simp_all add: next_row_def renewed_fields_def)
  have before: "ss_workspace_revision r = n" using 1(3) by (auto simp: renew_error_def split: if_splits)
  from renewal_link [OF e(2) e(3,4) [unfolded phase] e(5) e(6) [unfolded 1(5)] assms(4)]
  have link: "maintenance_step (validating_status mode) commit tree [e] (Suc (ss_revision r)) (ss_workspace_revision u) =
      Inr \<lparr>mt_revision = Suc (ss_revision r), mt_type = ''workspace_lease_auto_renewed'', mt_before = n, mt_after = n + 1\<rparr>"
    unfolding u(5) .
  have log': "session_log (ss_id r) db' = session_log (ss_id r) db @ [e]"
    unfolding log_append [OF log] using e(1) id by simp
  have v: "dd_validations db' = dd_validations db" using renew_effect [OF inv run] by blast
  have type: "se_type e \<noteq> ''validation_started''" using e(2) by simp
  have req: "require_session sid (expected + 1) False db' = Inr u"
    using row' u(1) E(2) id by (simp add: require_session_def session_row_def)
  from generation_extends [OF inv inv' row row' reach u(1-4) log' v e(5) type link _ ctx assms(3)] before
  show ?thesis unfolding validation_generation_context_def req by simp
qed

lemma lease_renewal_keeps_validation_witness:
  "\<exists>g'. validation_generation_context ''s'' 3 ''fast'' ''h'' ''t''
      (state_after (auto_renew_session_workspace_lease ''s'' 2 ''w'' 1 600 [] 5 sdemo_both) sdemo_both) = Inr g' \<and>
    gn_revision g' = 2 \<and> gn_workspace_revision g' = 1"
proof -
  let ?run = "auto_renew_session_workspace_lease ''s'' 2 ''w'' 1 600 [] 5 sdemo_both"
  have "committed ?run" by code_simp
  from committed_Inr [OF this] obtain u audit where run: "?run = Inr ((u, audit), state_after ?run sdemo_both)"
    by (metis prod.exhaust)
  have "map_sum id (\<lambda>g. (gn_source g, gn_revision g, gn_workspace_revision g))
      (validation_generation_context ''s'' 2 ''fast'' ''h'' ''t'' sdemo_both) = Inr (''validation_started_event'', 2, 1)"
    by code_simp
  then obtain g where g: "validation_generation_context ''s'' 2 ''fast'' ''h'' ''t'' sdemo_both = Inr g"
    "gn_source g = ''validation_started_event''" "gn_revision g = 2" "gn_workspace_revision g = 1"
    by (auto simp: map_sum_Inr)
  from lease_renewal_keeps_validation [OF sdemo_both_reachable g(1,2) _ run] g(3,4) show ?thesis by auto
qed

text \<open>The fallback: a session that is validating without a \<open>validation_started\<close> event.\<close>

definition sdemo_legacy :: dev_db where
  "sdemo_legacy = state_after (record_validation ''s'' 2 ''fast'' ''h'' ''t'' ''q1'' ''j1'' ''running'' False [] [] True 3
     (state_after (transition_session ''s'' 1 ''validating_fast'' ''status_changed'' None [] 2 sdemo_open) sdemo_open))
     (state_after (transition_session ''s'' 1 ''validating_fast'' ''status_changed'' None [] 2 sdemo_open) sdemo_open)"

lemma legacy_generation_lost:
  "map_sum id gn_source (validation_generation_context ''s'' 2 ''fast'' ''h'' ''t'' sdemo_legacy) =
     Inr ''legacy_current_revision''"
  "map_sum id gn_source (validation_generation_context ''s'' 3 ''fast'' ''h'' ''t''
     (state_after (auto_renew_session_workspace_lease ''s'' 2 ''w'' 1 600 [] 5 sdemo_legacy) sdemo_legacy)) =
     Inl SessionRecoveryRequired"
  by code_simp+

section \<open>Recoveries\<close>

text \<open>
  C21. A recovery that was committed under a key is answered again with the same session, views and
  audit, whatever revision, index and evidence the repeated call names, as long as the workspace still
  has its lease.
\<close>

theorem session_recovery_replayed:
  assumes "dev_reachable db" and "key \<noteq> []" and "row_of ss_id sid (dd_sessions db) = Some r" and "ss_metadata r = JObj kvs"
    and run: "recover_stale_session_from_workspace sid expected w key index evidence now db = Inr (x, db')"
    and new: "sr_recovered x" "\<not> sr_replayed x" and "now' < ws_lease_expires w"
  shows "recover_stale_session_from_workspace sid expected' w key index' evidence' now' db' =
    Inr (x\<lparr>sr_replayed := True\<rparr>, db')"
proof -
  have inv: "session_inv db" using assms(1) by (rule reachable_session_inv)
  have row: "session_row sid db = Inr r" using assms(3) by (simp add: session_row_iff)
  let ?found = "row_of ws_id (ws_id w) (dd_workspaces db)"
  note go = recover_stale_session_from_workspace_def row sum.case
  have none: "recovery_workspace_error w now ?found = None"
    using run unfolding go by (cases "recovery_workspace_error w now ?found") simp_all
  have same: "same_identity r w" "ss_owner r = ws_owner w"
    using run unfolding go none by (simp_all split: if_splits)
  have "last_recovery key (ss_metadata r) = None"
  proof (rule ccontr)
    assume "last_recovery key (ss_metadata r) \<noteq> None"
    then obtain prior where prior: "last_recovery key (ss_metadata r) = Some prior" by blast
    have "map_sum id (\<lambda>x. (x, db)) (replay_recovery r w prior) = Inr (x, db')"
      using run same unfolding go none prior by simp
    then have "replay_recovery r w prior = Inr x" by (auto simp: map_sum_Inr)
    with new(2) show False by (auto simp: replay_recovery_def Let_def split: option.splits if_splits)
  qed
  with run same new(1) have commit: "commit_recovery r expected w key index evidence now db = Inr (x, db')"
    unfolding go none by (auto split: if_splits)
  from commit_recoveryD [OF commit assms(2,4)] obtain m where
    wr: "write_session (ss_id r) expected (recovery_fields w index m now) ''session_recovered'' (ss_status r)
      (sr_audit x) now db = Inr (sr_session x, db')" and
    after: "sr_after x = recovery_view (ws_head w) (ws_tree w) (ws_revision w) (ss_revision r + 1) (ws_lease_expires w) index" and
    m: "json_get ''last_session_recovery'' m = Some (JObj [(''idempotency_key'', JStr key), (''recovered'', JBool True),
      (''before'', sr_before x), (''after'', sr_after x), (''audit'', sr_audit x)])" by metis
  have id: "ss_id r = sid" using assms(3) by (rule row_of_key)
  note E = write_session_effect [OF inv wr [unfolded id] assms(3) recovery_fields_simps(1)]
  have t: "session_terminal r \<Longrightarrow> session_terminal (recovery_fields w index m now r)" by (simp add: session_terminal_def)
  have row': "session_row sid db' = Inr (sr_session x)"
    using session_after_write [OF inv assms(3) recovery_fields_simps(1) E(4) [OF t], of sid] E(3) [OF t]
    by (simp add: session_row_iff)
  have ok: "recovery_workspace_error w now' (row_of ws_id (ws_id w) (dd_workspaces db')) = None"
  proof -
    have ws: "dd_workspaces db' = dd_workspaces db" by (rule E(5)) (rule t)
    obtain p where p: "?found = Some p" using none by (cases ?found) (simp_all add: recovery_workspace_error_def)
    from none assms(8) show ?thesis unfolding ws p by (auto simp: recovery_workspace_error_def split: if_splits)
  qed
  have u: "sr_session x = next_row (recovery_fields w index m now) r" by (rule E(3)) (rule t)
  have "session_fixed (sr_session x) = session_fixed r"
    unfolding u by (rule next_row_fixed) simp
  with same have same': "same_identity (sr_session x) w" "ss_owner (sr_session x) = ws_owner w"
    using fixedD [of "sr_session x" r] by (simp_all add: same_identity_def)
  have fields: "ss_metadata (sr_session x) = m" "same_code (sr_session x) w" "ss_revision (sr_session x) = ss_revision r + 1"
    "ss_workspace_revision (sr_session x) = ws_revision w" "ss_lease_expires (sr_session x) = ws_lease_expires w"
    unfolding u by (simp_all add: next_row_def recovery_fields_def same_code_def Let_def)
  have prior: "last_recovery key (ss_metadata (sr_session x)) = Some (JObj [(''idempotency_key'', JStr key),
      (''recovered'', JBool True), (''before'', sr_before x), (''after'', sr_after x), (''audit'', sr_audit x)])"
    unfolding fields(1) using m assms(2) by (simp add: last_recovery_def)
  have "replay_recovery (sr_session x) w (JObj [(''idempotency_key'', JStr key),
      (''recovered'', JBool True), (''before'', sr_before x), (''after'', sr_after x), (''audit'', sr_audit x)]) =
      Inr (x\<lparr>sr_replayed := True\<rparr>)"
    using fields after new(1)
    by (simp add: replay_recovery_def Let_def dict_at_def recovery_view_def string_at_def number_at_def field_or_null_def)
  with row' ok same' prior show ?thesis by (simp add: recover_stale_session_from_workspace_def)
qed

lemma session_recovery_replayed_witness:
  "\<exists>x. sdemo_recovery = Inr (x, state_after sdemo_recovery sdemo_ahead) \<and>
    recover_stale_session_from_workspace ''s'' 1 sdemo_ahead_ws ''rk'' None JNull 9 (state_after sdemo_recovery sdemo_ahead) =
      Inr (x\<lparr>sr_replayed := True\<rparr>, state_after sdemo_recovery sdemo_ahead)"
proof -
  have "map_sum id (\<lambda>(x, _). (sr_recovered x, sr_replayed x)) sdemo_recovery = Inr (True, False)" by code_simp
  then obtain x db where e: "sdemo_recovery = Inr (x, db)" and x: "sr_recovered x" "\<not> sr_replayed x" by (auto simp: map_sum_Inr)
  have s: "sdemo_recovery = Inr (x, state_after sdemo_recovery sdemo_ahead)" unfolding e by simp
  have "map_option ss_metadata (row_of ss_id ''s'' (dd_sessions sdemo_ahead)) = Some (JObj [])" by code_simp
  then obtain r where r: "row_of ss_id ''s'' (dd_sessions sdemo_ahead) = Some r" "ss_metadata r = JObj []" by auto
  have "9 < ws_lease_expires sdemo_ahead_ws" by code_simp
  from session_recovery_replayed [OF sdemo_ahead_reachable _ r s [unfolded sdemo_recovery_def] x this]
  show ?thesis using s unfolding sdemo_recovery_def by fastforce
qed

text \<open>
  C30. A recovery that is refused changes no session, workspace or validation: it leaves at most one
  event, which notes the refusal or the drift at the status and revision the session has.
\<close>

theorem refused_recovery_only_notes:
  assumes "recover_stale_session G ready ix sid expected n head key now db = (Inl e, db')"
  shows "only_noted sid db db'"
proof -
  have R: "only_noted sid db db'" if row: "row_of ss_id sid (dd_sessions db) = Some r"
    and refuse: "refuse_recovery r w key et code err details now db = (Inl e, db')" for r w et code err details
  proof -
    from refuse obtain payload where db': "db' = (case append_recovery_event (ss_id r) (int (ss_revision r)) et payload now db of
        Inl _ \<Rightarrow> db | Inr (_, db1) \<Rightarrow> db1)" by (auto simp: refuse_recovery_def Let_def)
    show ?thesis
    proof (cases "append_recovery_event (ss_id r) (int (ss_revision r)) et payload now db")
      case (Inl err')
      with db' show ?thesis by (simp add: only_noted_def)
    next
      case (Inr p)
      have id: "ss_id r = sid" using row by (rule row_of_key)
      from Inr row id have "et \<in> {''external_drift_detected'', ''recovery_refused''}" and
        "snd p = append_event sid et (Some (ss_status r)) (Some (ss_status r)) (ss_revision r) payload now db"
        by (auto simp: append_recovery_event_def require_session_def session_row_def split: if_splits)
      with db' Inr row show ?thesis by (cases p) (auto simp: append_event_def only_noted_def)
    qed
  qed
  show ?thesis
  proof (cases "session_row sid db")
    case (Inl err)
    with assms show ?thesis by (simp add: recover_stale_session_def only_noted_def)
  next
    case r: (Inr r)
    have row: "row_of ss_id sid (dd_sessions db) = Some r" using r by (simp add: session_row_iff)
    show ?thesis
    proof (cases "workspace_row (ss_workspace_id r) db")
      case (Inl err)
      with assms r show ?thesis by (simp add: recover_stale_session_def only_noted_def)
    next
      case w: (Inr w)
      note go = recover_stale_session_def r w sum.case Let_def
      show ?thesis
      proof (cases "recovery_refusal r w n head (replay_candidate r key) now")
        case (Some q)
        obtain et code err details where q: "q = (et, code, err, details)" by (cases q)
        from assms have "refuse_recovery r w key et code err details now db = (Inl e, db')"
          unfolding go Some q by simp
        then show ?thesis by (rule R [OF row])
      next
        case None
        from assms show ?thesis
          unfolding go None
          by (auto intro: R [OF row] split: if_splits sum.splits prod.splits)
            (simp add: only_noted_def)+
      qed
    qed
  qed
qed

lemma refused_recovery_only_notes_witness:
  "only_noted ''s'' sdemo_ahead
    (snd (recover_stale_session (sdemo_git ''h3'' ''t3'') False JNull ''s'' 1 2 [] ''rk'' 6 sdemo_ahead))"
proof -
  let ?run = "recover_stale_session (sdemo_git ''h3'' ''t3'') False JNull ''s'' 1 2 [] ''rk'' 6 sdemo_ahead"
  have "fst ?run = Inl WorkspaceDrifted" by code_simp
  then have "?run = (Inl WorkspaceDrifted, snd ?run)" by (metis prod.collapse)
  then show ?thesis by (rule refused_recovery_only_notes)
qed

end
