(* ===== verification/Spec2Isabelle.thy ===== *)
theory Spec2Isabelle
  imports
    CI_Properties Convergence_Properties Idempotency_Properties Preparation_Properties
    Patch_Properties Journal_Properties Write_Properties Change_Set_Properties
    Session_Properties
begin

text \<open>
  Verification of the core of the GitHub action service, the Python program under
  \<open>src/services/github-action-service/app\<close> (file names below are relative to it).

  \<^bold>\<open>The program.\<close>  The service gives tools that change GitHub repositories and run continuous
  integration for them on private workers.  Seven parts carry its logic:
  \<^item> the CI core: SQLite tables of workers, jobs, log chunks, steps and queue counters
    (\<open>ci_database.py\<close>, \<open>ci_models.py\<close>) and of durable CI requests (\<open>ci_request_store.py\<close>).  A
    request is created under an idempotency key, checked by the background preparation
    (\<open>ci_request_dispatch.py\<close>), dispatched to a job, and moved to a terminal state when its job
    ends.  Workers call the endpoints of \<open>routers/ci_worker.py\<close>, authenticated by
    \<open>ci_worker_auth.py\<close>, and report under a lease;
  \<^item> the convergence store (\<open>development_convergence_store.py\<close>): long-running development runs with
    a revision, an event log and analysis stages;
  \<^item> the HTTP idempotency middleware (\<open>idempotency.py\<close>): one execution per key;
  \<^item> the text of patches and edits (\<open>mygithub10.py\<close>): a writer of unified diffs, a strict parser, the
    application of hunks, line range edits and the exact replacement;
  \<^item> the writes to GitHub (\<open>mygithub10.py\<close>, \<open>github_write_verify.py\<close>): checks of the head and the
    blobs, blob, tree and commit creation, the update of the branch, the reading back, and the
    journal of operations under caller keys;
  \<^item> the artifacts and prepared change sets (\<open>artifact_store.py\<close>, \<open>development_change_set_store.py\<close>):
    frozen bytes that are written at most once;
  \<^item> the development sessions (\<open>development_session_store.py\<close>) over their workspaces
    (\<open>mygithub12_workspace.py\<close>): a session owns a workspace, a leased branch; both rows carry a
    revision and must agree on the code, and the CI validations of a session are rows correlated
    with requests and jobs.  \<open>recover_stale_session\<close> of \<open>development_orchestrator.py\<close> moves a session
    that lags behind its workspace.

  \<^bold>\<open>Theories and code.\<close>
  \<^item> \<open>Prelude\<close>, \<open>Interfaces\<close>, \<open>Json_Text\<close>, \<open>Text_Lines\<close>: Python values, tables as lists of rows in
    insertion order, the contracts, the compact \<open>json.dumps\<close>, \<open>str.splitlines\<close>.
  \<^item> \<open>CI_Schema\<close>, \<open>CI_Jobs\<close>, \<open>CI_Logs\<close>, \<open>CI_Request_Core\<close>, \<open>CI_Requests\<close>, \<open>Request_Preparation\<close>,
    \<open>Worker_API\<close>: the records \<open>worker\<close>, \<open>job\<close>, \<open>job_step\<close>, \<open>log_chunk\<close>, \<open>queue_state\<close>, \<open>ci_request\<close>
    are the tables, \<open>ci_db\<close> is the database, and each function that changes it is a definition of
    the same name.  \<open>CI_System\<close> is the step relation \<open>ci_step\<close> of all of them; \<open>CI_Frames\<close>,
    \<open>CI_Invariant\<close>, \<open>CI_Job_Invariant\<close>, \<open>CI_Log_Invariant\<close>, \<open>CI_Request_Invariant\<close> and
    \<open>CI_Binding\<close> prove \<open>ci_inv\<close> for it.  \<open>CI_Log_Paging\<close>, \<open>Job_Queue_Facts\<close>, \<open>Request_Facts\<close>,
    \<open>Request_Contracts\<close> and \<open>Preparation_Facts\<close> hold the behaviour of single operations,
    \<open>CI_Demo\<close> and \<open>Request_Demo\<close> concrete states for the witnesses, \<open>CI_Properties\<close> and
    \<open>Preparation_Properties\<close> the properties.
  \<^item> \<open>Convergence_Store\<close>, \<open>Convergence_Invariant\<close>, \<open>Convergence_Contracts\<close>, \<open>Convergence_Runs\<close>,
    \<open>Convergence_Properties\<close>: the store, \<open>conv_inv\<close>, the abstract run that every update refines.
  \<^item> \<open>Idempotency\<close>, \<open>Idempotency_Invariant\<close>, \<open>Idempotency_Properties\<close>: the middleware.  In \<open>idem_step\<close>
    every SQL statement is a step of its own, on the one connection that the requests of a process
    share (\<open>saved\<close> is committed, \<open>working\<close> is what the connection sees), so that requests interleave
    between an insert and its commit or rollback as the awaits of the code allow.
  \<^item> \<open>Diff_Match\<close>, \<open>Diff_Groups\<close>: \<open>difflib.SequenceMatcher\<close> without autojunk and the grouped
    opcodes, and that they describe an edit of the one list into the other.  \<open>Patch_Text\<close> is the
    writer, the parser and the application, \<open>Patch_Roundtrip\<close> that reading undoes writing,
    \<open>Patch_Application\<close> that applying hunks is replacing line ranges, \<open>Text_Edits\<close> and
    \<open>Text_Edit_Facts\<close> the range edits and the exact replacement, \<open>Patch_Properties\<close> the properties.
  \<^item> \<open>Operation_Journal\<close>, \<open>Journal_Facts\<close>, \<open>Journal_Properties\<close>: the table
    \<open>mygithub10_operations\<close> and its operations.
  \<^item> \<open>Write_Verify\<close> (\<open>post_write_verify\<close>), \<open>Github_Writes\<close> (preflight, modes, \<open>_commit_files\<close>),
    \<open>Write_Tools\<close> (\<open>apply_patch\<close>, \<open>edit_ranges\<close>, \<open>replace_text_once\<close>), \<open>Write_Facts\<close>,
    \<open>Write_Properties\<close>.  \<open>UpdateRef\<close> names the branch, the commit and whether the update is forced.

  \<^item> \<open>Artifact_Store\<close>, \<open>Artifact_Facts\<close> (\<open>artifact_store.py\<close>: rows and files), \<open>Change_Sets\<close>,
    \<open>Change_Set_Facts\<close>, \<open>Change_Set_Properties\<close> (\<open>development_change_set_store.py\<close>): a prepared change
    set freezes an artifact, one caller claims it, and its recovery asks the journal of operations.
    \<open>prepared_step\<close> interleaves both stores with recoveries under way: reading the row, reading the
    journal and releasing the claim are three steps.
  \<^item> \<open>Sessions\<close> (the tables \<open>dev_session\<close>, \<open>session_event\<close>, \<open>validation\<close> in \<open>dev_db\<close>; creation, \<open>transition\<close>
    as \<open>transition_session\<close>, synchronisation, events, restart), \<open>Session_Workspaces\<close> (the operations that
    write session and workspace in one transaction: recovery, lease renewal, merge finalisation),
    \<open>Session_Validations\<close> (\<open>record_validation\<close>, the correlations, the generation a running validation
    belongs to), \<open>Session_Settlement\<close> (binding a request to its row, settling a terminal set),
    \<open>Workspaces\<close> (the operations of the workspace table and \<open>recover_stale_session\<close>).
    \<open>Session_Facts\<close>, \<open>Session_Steps\<close>, \<open>Session_System\<close>, \<open>Session_Invariant\<close> and \<open>Session_Store\<close> show
    what each operation does to sessions, logs, workspaces and validations; \<open>Session_Runs\<close> is the
    step relation \<open>dev_step\<close> of all of them, its invariant \<open>dev_inv\<close> and the contracts;
    \<open>Session_Evolution\<close> how a row changes along a run, \<open>Session_Outcomes\<close> the behaviour of single
    operations; \<open>Session_Demo\<close> holds reachable states for the witnesses, \<open>Session_Properties\<close> the
    properties.

  \<^bold>\<open>Contracts.\<close>  \<open>revision_cas\<close> (a compare-and-swap on revisions) is interpreted on the CI requests
  and on the convergence and session stores; \<open>key_registry\<close> and its extension \<open>idempotent_store\<close> on their
  creations under keys; \<open>fenced_write\<close> on the worker reports under a lease; \<open>step_invariant\<close> on the
  step relations of the CI core, the convergence store, the middleware, the journal, the artifacts,
  the prepared change sets, and the sessions with their workspaces;
  \<open>line_differ\<close> and \<open>text_differ\<close> (grouped opcodes that describe an edit) on the model of difflib,
  so that the round trip of patches holds for every differ that keeps the contract.

  \<^bold>\<open>What is shown.\<close>  CI: a report without the current lease changes nothing; counters, leases,
  bindings and request histories are exact in every reachable state; terminal requests stay;
  a completion reaches its request; leases are fair; reading a log page by page reads exactly the
  log.  Preparation: a request is queued only after the exact identity checks, every processed
  request is settled, and recovery serves every accepted one.  Convergence: every update refines
  the operation on an abstract run, runs only progress, keys and active identities are unique.
  Middleware: one execution per key and time to live, for keys whose claim was not undone by the
  rollback of another request, which \<open>shared_rollback_loses_claim\<close> shows to be possible.  Patches: a
  patch written for edits the format can carry (\<open>edit_ok\<close>: among others, line feeds as the only line
  boundaries and no old line that begins with two dashes and a blank) is read back as these edits
  and applies to the old texts giving the new ones; parsed paths are
  safe; applying is splicing; range edits are one simultaneous edit; the exact replacement ends,
  and succeeds exactly on a single occurrence.  Writes: a commit is made only on the checked head
  and the branch is moved to it without force, its tree has exactly the patched paths with their
  patched texts, it is reported only after every path was read back, a dry run writes
  nothing, and a caller key starts one operation.  Change sets: a claim that reached the journal is
  never given out again, unless a recovery that had read the journal before is still about to
  release it; the bytes written are those prepared, a commit is replayed, and a live
  artifact can be read.  Sessions: a writer with a stale revision changes nothing, the event log of
  a session is its history, a finished session stays finished; merge finalisation and lease renewal
  leave session and workspace in agreement, and a renewal keeps the generation of a running
  validation that has its start event; a recorded terminal outcome stays, and a settled set leaves nothing eligible for a
  merge; a recovery is replayed under its key, and a refused one only notes its reason.

  \<^bold>\<open>Parameters.\<close>  SHA-256, SHA-1 and the printer of floats (\<open>codec\<close>, \<open>hashing\<close>), clock readings,
  fresh ids, the values read by \<open>json.loads\<close>, and the answers of GitHub and of the CI planner
  (\<open>github\<close>, \<open>preflight\<close>) are arguments.  A tool run returns the list of the write requests it
  sent, so that what reaches GitHub can be stated.  \<open>fast_forward\<close> states what GitHub documents of an
  update of a branch that is not forced: it is accepted only from an ancestor of the new commit.

  \<^bold>\<open>Bounds and fuel.\<close>  The reading of log pages takes fuel, and the number of chunks is shown to be
  enough; recovery looks at 1000 requests as the code does; event metadata has at most 8192 bytes,
  patches at most 262144 bytes, edited files at most 4194304 bytes; the verification reads back at
  most three times.  The search loop of the exact replacement is a partial function, shown to
  return.

  \<^bold>\<open>Simplifications.\<close>  Texts are strings of Latin-1 code points, with the byte length of their UTF-8
  encoding; bytes that do not decode are a blob of their own kind.  \<open>int\<close> of a text has no limit of
  digits.  The \<open>order\<close> field of range items, which only breaks ties that are refused as conflicts,
  is left out, with the \<open>TypeError\<close> that comparing orders of different types raises, and so are blob
  expectations that are not texts in the sorting of an error detail.
  Each transaction is one step; the middleware has its table and its connection from the start and
  is the only process on them; the background preparation has one worker; workers report the
  statuses of a running attempt and complete jobs with a final one, which the code does not check;
  messages of errors are kept where a caller can see a difference.  The \<open>request_id\<close> in the evidence of a validation is a
  text, and numbers in stored JSON are numbers, not their digits.  \<open>create_workspace\<close> is modelled
  from the insertion of the row on; a GitHub read that fails leaves the tool with that error; the
  answer of the index is an argument of \<open>recover_stale_session\<close>; \<open>close_workspace\<close> checks one state of
  the table and updates another, since the two are separate transactions.

  \<^bold>\<open>Not modelled.\<close>  The other orchestration and recovery tools (the rest of
  \<open>development_orchestrator.py\<close>, \<open>development_converge.py\<close>, \<open>development_resume.py\<close> and the like) mix
  network calls with the stores, and so do the lists, the overlap and the sync plan of workspaces.
  Four of these tools, \<open>development_drift_recovery.py\<close>, \<open>development_base_sync_recovery.py\<close>,
  \<open>development_retarget_recovery.py\<close> and \<open>development_sessionless_recovery.py\<close>, write session and
  workspace rows with statements of their own, which are not steps of \<open>dev_step\<close>: what is shown of
  runs of the sessions is shown of runs without these recoveries;
  the uploads and generated bundles of \<open>mygithub10.py\<close>, the failure packs, the repository index,
  attestations and deployments keep stores of their own; \<open>github_utils.py\<close> is network I/O and
  enters as a parameter; the MCP servers are registration and plumbing; the private agent and the
  deploy executors run containers and host commands.
\<close>

end
